(* ===== verification/Prelude.thy ===== *)
theory Prelude
  imports Main "HOL-Library.AList"
begin

text \<open>
  Shared material of the development.

  \<^item> JavaScript values the components use: a \<open>Map\<close> (which iterates in insertion order and
    overwrites in place) is an association list read with \<open>map_of\<close> and written with
    \<open>AList.update\<close> and \<open>AList.delete\<close>; a \<open>number\<close> that the code tests with
    \<open>Number.isInteger\<close> is a \<open>js_number\<close>; a string is a \<open>char list\<close>, one \<open>char\<close> per code unit,
    so code units up to 255 are covered; \<open>unknown\<close> payloads are \<open>json\<close> values.
  \<^item> \<open>JSON.stringify\<close> on arrays of strings, which the runtime uses to build its scope keys, and
    the proof that it is injective: two different identities never share a key.
  \<^item> String functions of the standard library (\<open>startsWith\<close>, \<open>endsWith\<close>, \<open>indexOf\<close>, \<open>split\<close>,
    \<open>trim\<close>, \<open>toLowerCase\<close>, \<open>toUpperCase\<close>) as executable definitions with their laws.
  \<^item> The locale \<open>step_system\<close>: an invariant kept by every operation of a component holds
    after any sequence of operations.
\<close>

section \<open>Automation collections\<close>

named_theorems js_map \<open>laws of JavaScript maps as association lists\<close>
named_theorems js_string \<open>laws of the string functions\<close>

section \<open>Values\<close>

datatype js_number = IntNum int | NonInt
  \<comment> \<open>a number as \<open>Number.isInteger\<close> sees it: an integer, or anything else (a fraction,
      NaN, an infinity)\<close>

datatype json = JNull | JBool bool | JNum int | JStr string | JArr "json list"
  | JObj "(string \<times> json) list"

type_synonym ('k, 'v) js_Map = "('k \<times> 'v) list"
type_synonym json_object = "(string \<times> json) list"

abbreviation map_get :: "('k, 'v) js_Map \<Rightarrow> 'k \<Rightarrow> 'v option" where
  "map_get \<equiv> map_of"

abbreviation map_set :: "'k \<Rightarrow> 'v \<Rightarrow> ('k, 'v) js_Map \<Rightarrow> ('k, 'v) js_Map" where
  "map_set \<equiv> AList.update"

abbreviation map_delete :: "'k \<Rightarrow> ('k, 'v) js_Map \<Rightarrow> ('k, 'v) js_Map" where
  "map_delete \<equiv> AList.delete"

definition map_values :: "('k, 'v) js_Map \<Rightarrow> 'v list" where
  "map_values m = map snd m"

definition map_keys :: "('k, 'v) js_Map \<Rightarrow> 'k list" where
  "map_keys m = map fst m"

definition get_or :: "'v \<Rightarrow> 'v option \<Rightarrow> 'v" where
  "get_or d x = (case x of None \<Rightarrow> d | Some v \<Rightarrow> v)"
  \<comment> \<open>the \<open>??\<close> operator\<close>

lemma get_or_simps [simp]: "get_or d None = d" "get_or d (Some v) = v"
  by (simp_all add: get_or_def)

lemma map_get_set [simp, js_map]:
  "map_get (map_set k v m) k' = (if k' = k then Some v else map_get m k')"
  by (simp add: update_conv')

lemma map_get_delete [simp, js_map]:
  "map_get (map_delete k m) k' = (if k' = k then None else map_get m k')"
  by (simp add: delete_conv')

lemma distinct_keys_set [simp, intro]:
  "distinct (map fst m) \<Longrightarrow> distinct (map fst (map_set k v m))"
  by (rule distinct_update)

lemma distinct_keys_delete [simp, intro]:
  "distinct (map fst m) \<Longrightarrow> distinct (map fst (map_delete k m))"
  by (rule distinct_delete)

lemma keys_set [js_map]: "fst ` set (map_set k v m) = insert k (fst ` set m)"
  by (simp add: dom_update)

lemma keys_delete [js_map]: "fst ` set (map_delete k m) = fst ` set m - {k}"
  by (auto simp: AList.delete_eq)

lemma in_set_map_iff:
  "distinct (map fst m) \<Longrightarrow> (k, v) \<in> set m \<longleftrightarrow> map_get m k = Some v"
  by simp

lemma in_set_map_set:
  assumes "distinct (map fst m)"
  shows "(k', v') \<in> set (map_set k v m) \<longleftrightarrow> (if k' = k then v' = v else (k', v') \<in> set m)"
proof -
  have "distinct (map fst (map_set k v m))" using assms by simp
  then have "(k', v') \<in> set (map_set k v m) \<longleftrightarrow> map_get (map_set k v m) k' = Some v'"
    by (rule in_set_map_iff)
  also have "\<dots> \<longleftrightarrow> (if k' = k then v' = v else map_get m k' = Some v')" by auto
  finally show ?thesis using assms by simp
qed

lemma in_values_iff:
  assumes "distinct (map fst m)"
  shows "x \<in> set (map_values m) \<longleftrightarrow> (\<exists>k. map_get m k = Some x)"
  using assms by (force simp: map_values_def image_iff simp flip: in_set_map_iff)

lemma in_values_set:
  assumes "distinct (map fst m)"
  shows "x \<in> set (map_values (map_set k v m)) \<longleftrightarrow>
    x = v \<or> (\<exists>k'. k' \<noteq> k \<and> map_get m k' = Some x)"
  using assms by (auto simp: in_values_iff split: if_splits)

lemma sum_values_set:
  fixes f :: "'v \<Rightarrow> nat"
  shows "map_get m k = Some u \<Longrightarrow>
    sum_list (map f (map_values (map_set k v m))) + f u = sum_list (map f (map_values m)) + f v"
  by (induction m) (auto simp: map_values_def)

lemma sum_values_delete:
  fixes f :: "'v \<Rightarrow> nat"
  assumes "distinct (map fst m)" "map_get m k = Some u"
  shows "sum_list (map f (map_values (map_delete k m))) + f u = sum_list (map f (map_values m))"
  using assms
proof (induction m)
  case (Cons p m)
  have "fst p = k \<Longrightarrow> map_delete k m = m"
    using Cons.prems(1) by (auto simp: delete_id [symmetric])
  with Cons show ?case by (cases "fst p = k") (auto simp: map_values_def)
qed simp

section \<open>JSON.stringify on arrays of strings\<close>

definition hex_digit :: "nat \<Rightarrow> char" where
  "hex_digit n = ''0123456789abcdef'' ! n"

definition json_escape :: "char \<Rightarrow> string" where
  "json_escape c =
     (if c = CHR 0x22 then [CHR 0x5C, CHR 0x22]
      else if c = CHR 0x5C then [CHR 0x5C, CHR 0x5C]
      else if c = CHR 0x08 then [CHR 0x5C, CHR ''b'']
      else if c = CHR 0x0C then [CHR 0x5C, CHR ''f'']
      else if c = CHR 0x0A then [CHR 0x5C, CHR ''n'']
      else if c = CHR 0x0D then [CHR 0x5C, CHR ''r'']
      else if c = CHR 0x09 then [CHR 0x5C, CHR ''t'']
      else if of_char c < (32 :: nat)
        then [CHR 0x5C, CHR ''u'', CHR ''0'', CHR ''0'',
              hex_digit (of_char c div 16), hex_digit (of_char c mod 16)]
      else [c])"

definition json_string :: "string \<Rightarrow> string" where
  "json_string s = CHR 0x22 # concat (map json_escape s) @ [CHR 0x22]"

fun json_elements :: "string list \<Rightarrow> string" where
  "json_elements [] = []"
| "json_elements [s] = json_string s"
| "json_elements (s # t # ts) = json_string s @ CHR '','' # json_elements (t # ts)"

definition json_stringify :: "string list \<Rightarrow> string" where
  "json_stringify ss = CHR ''['' # json_elements ss @ '']''"

text \<open>
  Escapes are read back by a decoder, so they form a prefix code; the closing quote is never
  the first character of an escape, so a quoted string ends at its own closing quote.
\<close>

definition unhex :: "char \<Rightarrow> nat" where
  "unhex c = (let n = of_char c in if n < (58 :: nat) then n - 48 else n - 87)"

definition json_unescape :: "string \<Rightarrow> (char \<times> string) option" where
  "json_unescape s =
     (case s of
        [] \<Rightarrow> None
      | a # r \<Rightarrow>
          if a \<noteq> CHR 0x5C then Some (a, r)
          else (case r of
              [] \<Rightarrow> None
            | b # r' \<Rightarrow>
                if b = CHR ''u'' then
                  (case r' of x # y # h # l # t \<Rightarrow> Some (char_of (16 * unhex h + unhex l), t)
                   | _ \<Rightarrow> None)
                else if b = CHR ''b'' then Some (CHR 0x08, r')
                else if b = CHR ''f'' then Some (CHR 0x0C, r')
                else if b = CHR ''n'' then Some (CHR 0x0A, r')
                else if b = CHR ''r'' then Some (CHR 0x0D, r')
                else if b = CHR ''t'' then Some (CHR 0x09, r')
                else Some (b, r')))"

lemma unhex_hex_digit: "n < 16 \<Longrightarrow> unhex (hex_digit n) = n"
proof -
  have "\<forall>m \<in> {..<16}. unhex (hex_digit m) = m" by code_simp
  then show "n < 16 \<Longrightarrow> unhex (hex_digit n) = n" by simp
qed

lemma json_unescape_escape: "json_unescape (json_escape c @ r) = Some (c, r)"
proof (cases "of_char c < (32 :: nat)")
  case True
  then have "unhex (hex_digit (of_char c div 16)) = of_char c div 16"
    "unhex (hex_digit (of_char c mod 16)) = of_char c mod 16"
    by (simp_all add: unhex_hex_digit)
  then have "char_of (16 * unhex (hex_digit (of_char c div 16)) +
      unhex (hex_digit (of_char c mod 16))) = c"
    by simp
  then show ?thesis
    by (simp add: json_escape_def json_unescape_def)
next
  case False
  then show ?thesis by (simp add: json_escape_def json_unescape_def)
qed

lemma json_escape_prefix_free:
  "json_escape c @ r = json_escape d @ t \<Longrightarrow> c = d \<and> r = t"
  by (metis json_unescape_escape option.inject prod.inject)

lemma json_escape_not_quote: "json_escape c @ r \<noteq> CHR 0x22 # t"
  by (auto simp: json_escape_def)

lemma json_string_body_inj:
  "concat (map json_escape s) @ CHR 0x22 # r = concat (map json_escape t) @ CHR 0x22 # r'
   \<Longrightarrow> s = t \<and> r = r'"
proof (induction s arbitrary: t)
  case Nil
  then show ?case
    by (cases t) (auto simp: json_escape_not_quote [symmetric])
next
  case (Cons c s)
  then obtain d t' where t: "t = d # t'"
    by (cases t) (auto simp: json_escape_not_quote)
  with Cons.prems have
    "json_escape c @ (concat (map json_escape s) @ CHR 0x22 # r) =
     json_escape d @ (concat (map json_escape t') @ CHR 0x22 # r')"
    by simp
  then have "c = d" and
    "concat (map json_escape s) @ CHR 0x22 # r = concat (map json_escape t') @ CHR 0x22 # r'"
    by (auto dest: json_escape_prefix_free)
  with Cons.IH t show ?case by auto
qed

lemma json_string_inj: "json_string s @ r = json_string t @ r' \<Longrightarrow> s = t \<and> r = r'"
  by (rule json_string_body_inj) (simp add: json_string_def)

lemma json_string_append_eq:
  "json_string s = json_string t @ r \<longleftrightarrow> s = t \<and> r = []"
  "json_string t @ r = json_string s \<longleftrightarrow> s = t \<and> r = []"
  by (metis append_Nil2 json_string_inj)+

lemma json_string_eq [simp]: "json_string s = json_string t \<longleftrightarrow> s = t"
  using json_string_append_eq(1) [of s t "[]"] by simp

lemma json_string_not_Nil [simp]: "json_string s \<noteq> []"
  by (simp add: json_string_def)

lemma json_elements_inj: "json_elements ss = json_elements ts \<Longrightarrow> ss = ts"
proof (induction ss arbitrary: ts rule: json_elements.induct)
  case 1
  then show ?case
    by (cases ts rule: json_elements.cases) (simp_all add: json_string_def)
next
  case (2 s)
  then show ?case
    by (cases ts rule: json_elements.cases) (simp_all add: json_string_append_eq)
next
  case IH: (3 s s' ss)
  show ?case
  proof (cases ts rule: json_elements.cases)
    case 1
    with IH show ?thesis by (simp add: json_string_def)
  next
    case (2 t)
    with IH show ?thesis by (simp add: json_string_append_eq)
  next
    case (3 t t' ts')
    with IH(2) have "json_string s @ (CHR '','' # json_elements (s' # ss)) =
        json_string t @ (CHR '','' # json_elements (t' # ts'))"
      by simp
    then have "s = t" "json_elements (s' # ss) = json_elements (t' # ts')"
      by (auto dest: json_string_inj)
    with IH(1) 3 show ?thesis by auto
  qed
qed

lemma json_stringify_inj [simp]: "json_stringify ss = json_stringify ts \<longleftrightarrow> ss = ts"
  by (auto simp: json_stringify_def dest: json_elements_inj)

lemma json_stringify_not_Nil [simp]: "json_stringify ss \<noteq> []"
  by (simp add: json_stringify_def)

section \<open>JSON.stringify on values\<close>

fun decimal :: "nat \<Rightarrow> string" where
  "decimal n = (if n < 10 then [''0123456789'' ! n] else decimal (n div 10) @ [''0123456789'' ! (n mod 10)])"

declare decimal.simps [simp del]

definition number_text :: "int \<Rightarrow> string" where
  "number_text n = (if n < 0 then CHR ''-'' # decimal (nat (- n)) else decimal (nat n))"

fun joinWith :: "string \<Rightarrow> string list \<Rightarrow> string" where
  "joinWith sep [] = []"
| "joinWith sep [s] = s"
| "joinWith sep (s # t # ts) = s @ sep @ joinWith sep (t # ts)"

fun json_text :: "json \<Rightarrow> string" where
  "json_text JNull = ''null''"
| "json_text (JBool b) = (if b then ''true'' else ''false'')"
| "json_text (JNum n) = number_text n"
| "json_text (JStr s) = json_string s"
| "json_text (JArr xs) = ''['' @ joinWith '','' (map json_text xs) @ '']''"
| "json_text (JObj kvs) =
     CHR 0x7B # joinWith '','' (map (\<lambda>kv. json_string (fst kv) @ CHR '':'' # json_text (snd kv)) kvs) @ [CHR 0x7D]"

section \<open>Strings and lists of the standard library\<close>

definition truthy :: "string option \<Rightarrow> bool" where
  "truthy x \<longleftrightarrow> (case x of None \<Rightarrow> False | Some s \<Rightarrow> s \<noteq> [])"
  \<comment> \<open>an optional string as a condition: absent and empty are both false\<close>

lemma truthy_simps [simp]: "truthy None = False" "truthy (Some s) \<longleftrightarrow> s \<noteq> []"
  by (simp_all add: truthy_def)

definition coalesce :: "'a option \<Rightarrow> 'a option \<Rightarrow> 'a option" where
  "coalesce x y = (case x of None \<Rightarrow> y | Some v \<Rightarrow> Some v)"

lemma coalesce_simps [simp]: "coalesce None y = y" "coalesce (Some v) y = Some v"
  by (simp_all add: coalesce_def)

definition isSpace :: "char \<Rightarrow> bool" where
  "isSpace c \<longleftrightarrow> c \<in> {CHR 0x09, CHR 0x0A, CHR 0x0B, CHR 0x0C, CHR 0x0D, CHR 0x20, CHR 0xA0}"
  \<comment> \<open>the white space of \<open>trim\<close> and of the class \<open>\\s\<close> among code units up to 255\<close>

definition trimStart :: "string \<Rightarrow> string" where
  "trimStart s = dropWhile isSpace s"

definition trim :: "string \<Rightarrow> string" where
  "trim s = rev (trimStart (rev (trimStart s)))"

definition startsWith :: "string \<Rightarrow> string \<Rightarrow> bool" where
  "startsWith s p \<longleftrightarrow> take (length p) s = p"

definition endsWith :: "string \<Rightarrow> string \<Rightarrow> bool" where
  "endsWith s p \<longleftrightarrow> length p \<le> length s \<and> drop (length s - length p) s = p"

lemma startsWith_iff [js_string]: "startsWith s p \<longleftrightarrow> (\<exists>r. s = p @ r)"
  unfolding startsWith_def by (metis append_eq_conv_conj append_take_drop_id)

lemma endsWith_iff [js_string]: "endsWith s p \<longleftrightarrow> (\<exists>r. s = r @ p)"
proof
  assume "endsWith s p"
  then show "\<exists>r. s = r @ p" unfolding endsWith_def by (metis append_take_drop_id)
next
  assume "\<exists>r. s = r @ p"
  then show "endsWith s p" by (auto simp: endsWith_def)
qed

fun findIndex :: "('a \<Rightarrow> bool) \<Rightarrow> 'a list \<Rightarrow> nat option" where
  "findIndex P [] = None"
| "findIndex P (x # xs) = (if P x then Some 0 else map_option Suc (findIndex P xs))"

lemma findIndex_None_iff: "findIndex P xs = None \<longleftrightarrow> (\<forall>x \<in> set xs. \<not> P x)"
  by (induction xs) auto

lemma findIndex_Some:
  "findIndex P xs = Some i \<longleftrightarrow> i < length xs \<and> P (xs ! i) \<and> (\<forall>j < i. \<not> P (xs ! j))"
proof (induction xs arbitrary: i)
  case (Cons x xs)
  show ?case
  proof (cases i)
    case 0
    then show ?thesis by auto
  next
    case (Suc n)
    then show ?thesis using Cons.IH [of n] by (auto simp: nth_Cons less_Suc_eq_0_disj split: nat.splits)
  qed
qed simp

lemma find_Some_mem: "find P xs = Some x \<Longrightarrow> x \<in> set xs \<and> P x"
  by (auto simp: find_Some_iff)

lemma find_Some_ex: "find P xs \<noteq> None \<longleftrightarrow> (\<exists>x \<in> set xs. P x)"
  by (auto simp: find_None_iff)

lemma find_append_Some: "find P xs = Some x \<Longrightarrow> find P (xs @ ys) = Some x"
  by (induction xs) (auto split: if_splits)

section \<open>Invariants of components\<close>

text \<open>
  The interface every stateful component offers: operations, the environment's obligations on
  an operation (\<open>enabled\<close>: fresh identifiers, a task that is really in flight), and an invariant
  that each enabled operation keeps. Clients run any sequence of enabled operations and still
  have the invariant.
\<close>

fun enabledRun :: "('op \<Rightarrow> 's \<Rightarrow> 's) \<Rightarrow> ('op \<Rightarrow> 's \<Rightarrow> bool) \<Rightarrow> 'op list \<Rightarrow> 's \<Rightarrow> bool" where
  "enabledRun step enabled [] s \<longleftrightarrow> True"
| "enabledRun step enabled (op # ops) s \<longleftrightarrow>
     enabled op s \<and> enabledRun step enabled ops (step op s)"

locale step_system =
  fixes step :: "'op \<Rightarrow> 's \<Rightarrow> 's"
    and enabled :: "'op \<Rightarrow> 's \<Rightarrow> bool"
    and inv :: "'s \<Rightarrow> bool"
  assumes step_inv: "inv s \<Longrightarrow> enabled op s \<Longrightarrow> inv (step op s)"
begin

lemma run_inv: "inv s \<Longrightarrow> enabledRun step enabled ops s \<Longrightarrow> inv (fold step ops s)"
  by (induction ops arbitrary: s) (auto intro: step_inv)

end

text \<open>
  A relation between the states before and after a step that is reflexive and transitive
  (a frame, a monotone counter, an absorbing set of states) holds across any run.
\<close>

locale step_relation = step_system step enabled inv
  for step :: "'op \<Rightarrow> 's \<Rightarrow> 's" and enabled :: "'op \<Rightarrow> 's \<Rightarrow> bool" and inv :: "'s \<Rightarrow> bool" +
  fixes rel :: "'s \<Rightarrow> 's \<Rightarrow> bool"
  assumes rel_refl: "rel s s"
    and rel_trans: "rel s t \<Longrightarrow> rel t u \<Longrightarrow> rel s u"
    and step_rel: "inv s \<Longrightarrow> enabled op s \<Longrightarrow> rel s (step op s)"
begin

lemma run_rel: "inv s \<Longrightarrow> enabledRun step enabled ops s \<Longrightarrow> rel s (fold step ops s)"
proof (induction ops arbitrary: s)
  case Nil
  then show ?case by (simp add: rel_refl)
next
  case (Cons op ops)
  then have "rel s (step op s)" "rel (step op s) (fold step ops (step op s))"
    by (auto intro: step_rel step_inv)
  then show ?case by (auto intro: rel_trans)
qed

end

text \<open>Components whose operations have no precondition.\<close>

locale total_step_system = step_system step "\<lambda>op s. True" inv
  for step :: "'op \<Rightarrow> 's \<Rightarrow> 's" and inv :: "'s \<Rightarrow> bool"
begin

lemma enabledRun_True: "enabledRun step (\<lambda>op s. True) ops s"
  by (induction ops arbitrary: s) auto

lemma total_run_inv: "inv s \<Longrightarrow> inv (fold step ops s)"
  using enabledRun_True by (rule run_inv [rotated])

end

end
