(* ===== verification/Fair_Scheduler.thy ===== *)
theory Fair_Scheduler
  imports Prelude "HOL-Library.Sublist"
begin

text \<open>
  The fair tenant scheduler of the concurrent runtime
  (assistant/src/concurrent-runtime/fair-scheduler.ts): per-tenant FIFO queues served round
  robin under a global and a per-tenant concurrency bound.

  A task's \<open>execute\<close> closure is a value of the type parameter; calling it appends the task to
  the log \<open>started\<close> and to the tasks in flight (\<open>running\<close>). Settling a promise is an operation
  of its own, \<open>taskSettled\<close>, applied to a task in flight: the order in which promises settle is
  the environment's. The closures the runtime enqueues are async functions whose synchronous
  part does not call the scheduler, so no operation interleaves with the loop of \<open>drain\<close>.
\<close>

section \<open>State and operations\<close>

record 'a scheduledTask =
  tenantKey :: string
  execute :: 'a

record 'a fairScheduler =
  queues :: "(string, 'a scheduledTask list) js_Map"
  tenantOrder :: "string list"
  activeByTenant :: "(string, int) js_Map"
  idleWaiters :: "nat list"
  active :: int
  draining :: bool
  maxConcurrent :: int
  maxConcurrentPerTenant :: int
  running :: "'a scheduledTask list"
  started :: "'a scheduledTask list"
  resolvedWaiters :: "nat list"

definition positiveInteger :: "js_number \<Rightarrow> string \<Rightarrow> string + int" where
  "positiveInteger v name =
     (case v of
        NonInt \<Rightarrow> Inl (name @ '' must be a positive integer.'')
      | IntNum n \<Rightarrow> if n < 1 then Inl (name @ '' must be a positive integer.'') else Inr n)"

definition newFairScheduler :: "js_number \<Rightarrow> js_number \<Rightarrow> string + 'a fairScheduler" where
  "newFairScheduler maxC maxT =
     (case positiveInteger maxC ''maxConcurrent'' of
        Inl e \<Rightarrow> Inl e
      | Inr c \<Rightarrow>
          (case positiveInteger maxT ''maxConcurrentPerTenant'' of
             Inl e \<Rightarrow> Inl e
           | Inr t \<Rightarrow> Inr \<lparr>queues = [], tenantOrder = [], activeByTenant = [], idleWaiters = [],
               active = 0, draining = False, maxConcurrent = c, maxConcurrentPerTenant = t,
               running = [], started = [], resolvedWaiters = []\<rparr>))"

definition isIdle :: "'a fairScheduler \<Rightarrow> bool" where
  "isIdle s \<longleftrightarrow> active s = 0 \<and> queues s = []"

definition notifyIdle :: "'a fairScheduler \<Rightarrow> 'a fairScheduler" where
  "notifyIdle s =
     (if \<not> isIdle s then s
      else s\<lparr>resolvedWaiters := resolvedWaiters s @ idleWaiters s, idleWaiters := []\<rparr>)"

definition dispatch :: "string \<Rightarrow> 'a scheduledTask \<Rightarrow> 'a scheduledTask list \<Rightarrow> string list \<Rightarrow> int
    \<Rightarrow> 'a fairScheduler \<Rightarrow> 'a fairScheduler" where
  "dispatch k task rest order tenantActive s =
     (let s1 = (if rest \<noteq> []
                then s\<lparr>queues := map_set k rest (queues s), tenantOrder := order @ [k]\<rparr>
                else s\<lparr>queues := map_delete k (queues s), tenantOrder := order\<rparr>)
      in s1\<lparr>active := active s + 1,
            activeByTenant := map_set k (tenantActive + 1) (activeByTenant s),
            running := running s @ [task],
            started := started s @ [task]\<rparr>)"

lemma dispatch_sel [simp]:
  "queues (dispatch k task rest order n s) =
     (if rest \<noteq> [] then map_set k rest (queues s) else map_delete k (queues s))"
  "tenantOrder (dispatch k task rest order n s) = (if rest \<noteq> [] then order @ [k] else order)"
  "active (dispatch k task rest order n s) = active s + 1"
  "activeByTenant (dispatch k task rest order n s) = map_set k (n + 1) (activeByTenant s)"
  "running (dispatch k task rest order n s) = running s @ [task]"
  "started (dispatch k task rest order n s) = started s @ [task]"
  "idleWaiters (dispatch k task rest order n s) = idleWaiters s"
  "resolvedWaiters (dispatch k task rest order n s) = resolvedWaiters s"
  "draining (dispatch k task rest order n s) = draining s"
  "maxConcurrent (dispatch k task rest order n s) = maxConcurrent s"
  "maxConcurrentPerTenant (dispatch k task rest order n s) = maxConcurrentPerTenant s"
  by (simp_all add: dispatch_def Let_def)

function drainLoop :: "nat \<Rightarrow> 'a fairScheduler \<Rightarrow> 'a fairScheduler" where
  "drainLoop scanned s =
     (if active s < maxConcurrent s \<and> scanned < length (tenantOrder s) then
        (case tenantOrder s of
           [] \<Rightarrow> s
         | k # order \<Rightarrow>
             (case map_get (queues s) k of
                None \<Rightarrow> drainLoop scanned (s\<lparr>tenantOrder := order, queues := map_delete k (queues s)\<rparr>)
              | Some [] \<Rightarrow> drainLoop scanned (s\<lparr>tenantOrder := order, queues := map_delete k (queues s)\<rparr>)
              | Some (task # rest) \<Rightarrow>
                  (let tenantActive = get_or 0 (map_get (activeByTenant s) k) in
                   if tenantActive \<ge> maxConcurrentPerTenant s
                   then drainLoop (Suc scanned) (s\<lparr>tenantOrder := order @ [k]\<rparr>)
                   else drainLoop 0 (dispatch k task rest order tenantActive s))))
      else s)"
  by pat_completeness auto
termination
  by (relation "measures [\<lambda>(n, s). nat (maxConcurrent s - active s),
        \<lambda>(n, s). length (tenantOrder s), \<lambda>(n, s). length (tenantOrder s) - n]") auto

declare drainLoop.simps [simp del]

definition drain :: "'a fairScheduler \<Rightarrow> 'a fairScheduler" where
  "drain s =
     (if draining s then s
      else notifyIdle ((drainLoop 0 (s\<lparr>draining := True\<rparr>))\<lparr>draining := False\<rparr>))"

definition enqueue :: "string \<Rightarrow> 'a \<Rightarrow> 'a fairScheduler \<Rightarrow> string + 'a fairScheduler" where
  "enqueue k ex s =
     (if k = [] then Inl ''Scheduler tenant key is required.''
      else
        let task = \<lparr>tenantKey = k, execute = ex\<rparr> in
        Inr (drain (case map_get (queues s) k of
            Some q \<Rightarrow> s\<lparr>queues := map_set k (q @ [task]) (queues s)\<rparr>
          | None \<Rightarrow> s\<lparr>queues := map_set k [task] (queues s), tenantOrder := tenantOrder s @ [k]\<rparr>)))"

definition releaseSlot :: "'a scheduledTask \<Rightarrow> 'a fairScheduler \<Rightarrow> 'a fairScheduler" where
  "releaseSlot task s =
     (let remaining = get_or 1 (map_get (activeByTenant s) (tenantKey task)) - 1 in
      s\<lparr>active := active s - 1,
        activeByTenant := (if remaining > 0 then map_set (tenantKey task) remaining (activeByTenant s)
                           else map_delete (tenantKey task) (activeByTenant s)),
        running := remove1 task (running s)\<rparr>)"

definition taskSettled :: "'a scheduledTask \<Rightarrow> 'a fairScheduler \<Rightarrow> 'a fairScheduler" where
  "taskSettled task s = notifyIdle (drain (releaseSlot task s))"

definition onIdle :: "nat \<Rightarrow> 'a fairScheduler \<Rightarrow> 'a fairScheduler" where
  "onIdle w s =
     (if isIdle s then s\<lparr>resolvedWaiters := resolvedWaiters s @ [w]\<rparr>
      else s\<lparr>idleWaiters := idleWaiters s @ [w]\<rparr>)"

definition snapshot :: "'a fairScheduler \<Rightarrow> int \<times> nat \<times> nat" where
  "snapshot s = (active s, sum_list (map length (map_values (queues s))), length (queues s))"

section \<open>Invariants\<close>

definition waiting :: "'a fairScheduler \<Rightarrow> string \<Rightarrow> 'a scheduledTask list" where
  "waiting s k = get_or [] (map_get (queues s) k)"

definition inFlight :: "'a fairScheduler \<Rightarrow> string \<Rightarrow> int" where
  "inFlight s k = int (length (filter (\<lambda>t. tenantKey t = k) (running s)))"

definition queues_wf :: "'a fairScheduler \<Rightarrow> bool" where
  "queues_wf s \<longleftrightarrow>
     distinct (map fst (queues s)) \<and> distinct (tenantOrder s) \<and>
     set (tenantOrder s) = fst ` set (queues s) \<and>
     (\<forall>k q. map_get (queues s) k = Some q \<longrightarrow> q \<noteq> [] \<and> (\<forall>t \<in> set q. tenantKey t = k))"

definition counts_wf :: "'a fairScheduler \<Rightarrow> bool" where
  "counts_wf s \<longleftrightarrow>
     active s = int (length (running s)) \<and>
     (\<forall>k. map_get (activeByTenant s) k = (if inFlight s k = 0 then None else Some (inFlight s k)))"

definition bounds_ok :: "'a fairScheduler \<Rightarrow> bool" where
  "bounds_ok s \<longleftrightarrow>
     active s \<le> maxConcurrent s \<and> (\<forall>k. inFlight s k \<le> maxConcurrentPerTenant s) \<and>
     1 \<le> maxConcurrent s \<and> 1 \<le> maxConcurrentPerTenant s"

definition core_inv :: "'a fairScheduler \<Rightarrow> bool" where
  "core_inv s \<longleftrightarrow> queues_wf s \<and> counts_wf s \<and> bounds_ok s"

definition saturated :: "'a fairScheduler \<Rightarrow> bool" where
  "saturated s \<longleftrightarrow>
     active s = maxConcurrent s \<or>
     (\<forall>k \<in> set (tenantOrder s). inFlight s k = maxConcurrentPerTenant s)"

definition sched_inv :: "'a fairScheduler \<Rightarrow> bool" where
  "sched_inv s \<longleftrightarrow>
     core_inv s \<and> \<not> draining s \<and> saturated s \<and> (idleWaiters s \<noteq> [] \<longrightarrow> \<not> isIdle s)"

lemma inFlight_nonneg [simp]: "0 \<le> inFlight s k"
  by (simp add: inFlight_def)

lemma inFlight_snoc:
  "running s' = running s @ [t] \<Longrightarrow>
   inFlight s' k = inFlight s k + (if tenantKey t = k then 1 else 0)"
  by (simp add: inFlight_def)

lemma inFlight_cong: "running s' = running s \<Longrightarrow> inFlight s' = inFlight s"
  by (simp add: inFlight_def fun_eq_iff)

lemma tenantActive_inFlight:
  "counts_wf s \<Longrightarrow> get_or 0 (map_get (activeByTenant s) k) = inFlight s k"
  by (simp add: counts_wf_def)

lemma queues_wf_head:
  assumes "queues_wf s" "tenantOrder s = k # order"
  obtains task rest where "map_get (queues s) k = Some (task # rest)" "tenantKey task = k"
proof -
  have "k \<in> fst ` set (queues s)" using assms by (auto simp: queues_wf_def)
  then obtain q where q: "map_get (queues s) k = Some q"
    by (metis map_of_eq_None_iff not_None_eq)
  with assms(1) have "q \<noteq> []" "\<forall>t \<in> set q. tenantKey t = k" by (auto simp: queues_wf_def)
  with q that show ?thesis by (cases q) auto
qed

lemma waiting_in_order:
  assumes "queues_wf s" "waiting s k \<noteq> []"
  shows "k \<in> set (tenantOrder s)"
proof -
  have "map_get (queues s) k \<noteq> None" using assms(2) by (cases "map_get (queues s) k") (simp_all add: waiting_def)
  then have "k \<in> fst ` set (queues s)" by (simp add: map_of_eq_None_iff)
  with assms(1) show ?thesis by (simp add: queues_wf_def)
qed

lemma queues_wf_rotate:
  "queues_wf s \<Longrightarrow> tenantOrder s = k # order \<Longrightarrow> queues_wf (s\<lparr>tenantOrder := order @ [k]\<rparr>)"
  by (auto simp: queues_wf_def)

lemma queues_wf_dispatch:
  assumes wf: "queues_wf s" and ord: "tenantOrder s = k # order"
    and q: "map_get (queues s) k = Some (task # rest)"
  shows "queues_wf (dispatch k task rest order n s)"
proof -
  from wf ord have d: "distinct (map fst (queues s))" "distinct order" "k \<notin> set order"
      "fst ` set (queues s) = insert k (set order)"
    by (auto simp: queues_wf_def)
  have tasks: "\<And>k q. map_get (queues s) k = Some q \<Longrightarrow> q \<noteq> [] \<and> (\<forall>t \<in> set q. tenantKey t = k)"
    using wf by (auto simp: queues_wf_def)
  then have "\<forall>t \<in> set rest. tenantKey t = k" using q by fastforce
  with d tasks show ?thesis
    by (cases "rest = []") (simp_all add: queues_wf_def keys_delete keys_set)
qed

lemma inFlight_dispatch [simp]:
  "inFlight (dispatch k task rest order n s) k' =
     inFlight s k' + (if tenantKey task = k' then 1 else 0)"
  by (simp add: inFlight_def)

lemma inFlight_plus: "inFlight s k + 1 \<noteq> 0"
  using inFlight_nonneg [of s k] by linarith

lemma counts_wf_dispatch:
  assumes "counts_wf s" "tenantKey task = k"
  shows "counts_wf (dispatch k task rest order (inFlight s k) s)"
  using assms by (simp add: counts_wf_def inFlight_plus)

lemma bounds_ok_dispatch:
  assumes "bounds_ok s" "active s < maxConcurrent s" "tenantKey task = k"
    "inFlight s k < maxConcurrentPerTenant s"
  shows "bounds_ok (dispatch k task rest order n s)"
  using assms by (simp add: bounds_ok_def)

lemma core_inv_dispatch:
  assumes "core_inv s" "active s < maxConcurrent s" "tenantOrder s = k # order"
    "map_get (queues s) k = Some (task # rest)" "tenantKey task = k"
    "inFlight s k < maxConcurrentPerTenant s"
  shows "core_inv (dispatch k task rest order (inFlight s k) s)"
  using assms by (simp add: core_inv_def queues_wf_dispatch counts_wf_dispatch bounds_ok_dispatch)

lemma core_inv_frame:
  assumes "core_inv s" "running s' = running s" "active s' = active s"
    "activeByTenant s' = activeByTenant s" "maxConcurrent s' = maxConcurrent s"
    "maxConcurrentPerTenant s' = maxConcurrentPerTenant s" "queues_wf s'"
  shows "core_inv s'"
  using assms by (simp add: core_inv_def counts_wf_def bounds_ok_def inFlight_cong [of s' s])

lemma core_inv_queues: "core_inv s \<Longrightarrow> queues_wf s"
  by (simp add: core_inv_def)

lemma core_inv_rotate:
  "core_inv s \<Longrightarrow> tenantOrder s = k # order \<Longrightarrow> core_inv (s\<lparr>tenantOrder := order @ [k]\<rparr>)"
  by (rule core_inv_frame) (auto intro: queues_wf_rotate simp: core_inv_def)

lemma inFlight_update [simp]:
  "inFlight (s\<lparr>tenantOrder := x\<rparr>) = inFlight s"
  "inFlight (s\<lparr>draining := y\<rparr>) = inFlight s"
  "inFlight (s\<lparr>idleWaiters := z\<rparr>) = inFlight s"
  "inFlight (s\<lparr>resolvedWaiters := z\<rparr>) = inFlight s"
  "inFlight (s\<lparr>queues := q\<rparr>) = inFlight s"
  by (simp_all add: inFlight_def fun_eq_iff)

section \<open>The dispatch loop\<close>

text \<open>
  A proof rule for the loop: a predicate over the scan counter and the state that holds at the
  start and survives both a skipped tenant and a dispatch holds at the end, where the loop
  has either used every global slot or scanned every waiting tenant without a dispatch.
\<close>

lemma drainLoop_rule:
  assumes start: "I n s"
    and core: "\<And>n s. I n s \<Longrightarrow> core_inv s"
    and skip: "\<And>n s k order. I n s \<Longrightarrow> active s < maxConcurrent s \<Longrightarrow>
      n < length (tenantOrder s) \<Longrightarrow> tenantOrder s = k # order \<Longrightarrow>
      inFlight s k = maxConcurrentPerTenant s \<Longrightarrow> I (Suc n) (s\<lparr>tenantOrder := order @ [k]\<rparr>)"
    and disp: "\<And>n s k order task rest. I n s \<Longrightarrow> active s < maxConcurrent s \<Longrightarrow>
      n < length (tenantOrder s) \<Longrightarrow> tenantOrder s = k # order \<Longrightarrow>
      map_get (queues s) k = Some (task # rest) \<Longrightarrow> tenantKey task = k \<Longrightarrow>
      inFlight s k < maxConcurrentPerTenant s \<Longrightarrow> I 0 (dispatch k task rest order (inFlight s k) s)"
  shows "\<exists>m. I m (drainLoop n s) \<and>
    (active (drainLoop n s) < maxConcurrent (drainLoop n s) \<longrightarrow> length (tenantOrder (drainLoop n s)) \<le> m)"
  using start
proof (induction n s rule: drainLoop.induct)
  case (1 n s)
  show ?case
  proof (cases "active s < maxConcurrent s \<and> n < length (tenantOrder s)")
    case False
    then have "drainLoop n s = s" by (subst drainLoop.simps) auto
    with "1.prems" False show ?thesis by auto
  next
    case guard: True
    then obtain k order where ord: "tenantOrder s = k # order" by (cases "tenantOrder s") auto
    have inv: "core_inv s" using core "1.prems" .
    with ord obtain task rest where
      q: "map_get (queues s) k = Some (task # rest)" and key: "tenantKey task = k"
      by (auto simp: core_inv_def elim: queues_wf_head)
    have act: "get_or 0 (map_get (activeByTenant s) k) = inFlight s k"
      using inv by (simp add: core_inv_def tenantActive_inFlight)
    show ?thesis
    proof (cases "inFlight s k \<ge> maxConcurrentPerTenant s")
      case True
      with inv have cap: "inFlight s k = maxConcurrentPerTenant s"
        by (intro antisym) (simp_all add: core_inv_def bounds_ok_def)
      have eq: "drainLoop n s = drainLoop (Suc n) (s\<lparr>tenantOrder := order @ [k]\<rparr>)"
        by (subst drainLoop.simps) (use guard ord q act True in \<open>simp add: Let_def\<close>)
      show ?thesis unfolding eq
        by (rule "1.IH"(3) [OF guard ord q refl refl])
          (use guard ord act True cap skip [OF "1.prems"] in auto)
    next
      case False
      have eq: "drainLoop n s = drainLoop 0 (dispatch k task rest order (inFlight s k) s)"
        by (subst drainLoop.simps) (use guard ord q act False in \<open>simp add: Let_def\<close>)
      show ?thesis unfolding eq act [symmetric]
        by (rule "1.IH"(4) [OF guard ord q refl refl])
          (use guard ord act q key False disp [OF "1.prems"] in auto)
    qed
  qed
qed

lemma drainLoop_frame [simp]:
  "maxConcurrent (drainLoop n s) = maxConcurrent s"
  "maxConcurrentPerTenant (drainLoop n s) = maxConcurrentPerTenant s"
  "idleWaiters (drainLoop n s) = idleWaiters s"
  "resolvedWaiters (drainLoop n s) = resolvedWaiters s"
  "draining (drainLoop n s) = draining s"
proof -
  have "maxConcurrent (drainLoop n s) = maxConcurrent s \<and>
    maxConcurrentPerTenant (drainLoop n s) = maxConcurrentPerTenant s \<and>
    idleWaiters (drainLoop n s) = idleWaiters s \<and>
    resolvedWaiters (drainLoop n s) = resolvedWaiters s \<and> draining (drainLoop n s) = draining s"
    by (induction n s rule: drainLoop.induct; subst (1 2 3 4 5) drainLoop.simps)
      (auto simp: Let_def split: list.splits option.splits)
  then show "maxConcurrent (drainLoop n s) = maxConcurrent s"
    "maxConcurrentPerTenant (drainLoop n s) = maxConcurrentPerTenant s"
    "idleWaiters (drainLoop n s) = idleWaiters s"
    "resolvedWaiters (drainLoop n s) = resolvedWaiters s"
    "draining (drainLoop n s) = draining s" by simp_all
qed

lemma drainLoop_core: "core_inv s \<Longrightarrow> core_inv (drainLoop n s)"
  using drainLoop_rule [where I = "\<lambda>_ s. core_inv s" and s = s and n = n]
  by (auto intro: core_inv_rotate core_inv_dispatch)

text \<open>The last \<open>scannedWithoutDispatch\<close> tenants of the order are at their bound.\<close>

definition scanned_full :: "nat \<Rightarrow> 'a fairScheduler \<Rightarrow> bool" where
  "scanned_full n s \<longleftrightarrow> core_inv s \<and>
     (\<forall>k \<in> set (drop (length (tenantOrder s) - n) (tenantOrder s)).
        inFlight s k = maxConcurrentPerTenant s)"

lemma scanned_full_skip:
  assumes "scanned_full n s" "n < length (tenantOrder s)" "tenantOrder s = k # order"
    "inFlight s k = maxConcurrentPerTenant s"
  shows "scanned_full (Suc n) (s\<lparr>tenantOrder := order @ [k]\<rparr>)"
proof -
  have "drop (length (tenantOrder s) - n) (tenantOrder s) = drop (length order - n) order"
    using assms(2,3) by (simp add: Suc_diff_le)
  with assms core_inv_rotate show ?thesis by (auto simp: scanned_full_def)
qed

lemma scanned_full_core: "scanned_full n s \<Longrightarrow> core_inv s"
  by (simp add: scanned_full_def)

lemma scanned_full_dispatch:
  assumes "scanned_full n s" "active s < maxConcurrent s" "tenantOrder s = k # order"
    "map_get (queues s) k = Some (task # rest)" "tenantKey task = k"
    "inFlight s k < maxConcurrentPerTenant s"
  shows "scanned_full 0 (dispatch k task rest order (inFlight s k) s)"
  using core_inv_dispatch [OF scanned_full_core [OF assms(1)] assms(2-6)]
  by (simp add: scanned_full_def)

lemma drainLoop_saturated:
  assumes "core_inv s"
  shows "saturated (drainLoop 0 s)"
proof -
  have "\<exists>m. scanned_full m (drainLoop 0 s) \<and>
    (active (drainLoop 0 s) < maxConcurrent (drainLoop 0 s) \<longrightarrow>
      length (tenantOrder (drainLoop 0 s)) \<le> m)"
  proof (rule drainLoop_rule)
    show "scanned_full 0 s" using assms by (simp add: scanned_full_def)
  qed (blast intro: scanned_full_skip scanned_full_dispatch scanned_full_core)+
  then obtain m where m: "scanned_full m (drainLoop 0 s)"
    "active (drainLoop 0 s) < maxConcurrent (drainLoop 0 s) \<Longrightarrow>
      length (tenantOrder (drainLoop 0 s)) \<le> m"
    by blast
  moreover have "active (drainLoop 0 s) \<le> maxConcurrent (drainLoop 0 s)"
    using m(1) by (simp add: scanned_full_def core_inv_def bounds_ok_def)
  ultimately show ?thesis
    by (auto simp: saturated_def scanned_full_def)
qed

section \<open>Operations keep the invariant\<close>

lemma core_inv_update [simp]:
  "core_inv (s\<lparr>draining := b\<rparr>) = core_inv s"
  "core_inv (s\<lparr>idleWaiters := ws\<rparr>) = core_inv s"
  "core_inv (s\<lparr>resolvedWaiters := rs\<rparr>) = core_inv s"
  by (simp_all add: core_inv_def queues_wf_def counts_wf_def bounds_ok_def)

lemma saturated_update [simp]:
  "saturated (s\<lparr>draining := b\<rparr>) = saturated s"
  "saturated (s\<lparr>idleWaiters := ws\<rparr>) = saturated s"
  "saturated (s\<lparr>resolvedWaiters := rs\<rparr>) = saturated s"
  by (simp_all add: saturated_def)

lemma isIdle_update [simp]:
  "isIdle (s\<lparr>draining := b\<rparr>) = isIdle s"
  "isIdle (s\<lparr>idleWaiters := ws\<rparr>) = isIdle s"
  "isIdle (s\<lparr>resolvedWaiters := rs\<rparr>) = isIdle s"
  by (simp_all add: isIdle_def)

lemma notifyIdle_core [simp]: "core_inv (notifyIdle s) = core_inv s"
  by (simp add: notifyIdle_def)

lemma notifyIdle_inv:
  "core_inv s \<Longrightarrow> saturated s \<Longrightarrow> \<not> draining s \<Longrightarrow> sched_inv (notifyIdle s)"
  by (auto simp: sched_inv_def notifyIdle_def)

lemma drain_inv:
  assumes "core_inv s" "\<not> draining s"
  shows "sched_inv (drain s)"
proof -
  let ?t = "drainLoop 0 (s\<lparr>draining := True\<rparr>)"
  have "core_inv ?t" "saturated ?t"
    using assms by (simp_all add: drainLoop_core drainLoop_saturated)
  then have "sched_inv (notifyIdle (?t\<lparr>draining := False\<rparr>))"
    by (intro notifyIdle_inv) simp_all
  with assms show ?thesis by (simp add: drain_def)
qed

definition pushTask :: "'a scheduledTask \<Rightarrow> 'a fairScheduler \<Rightarrow> 'a fairScheduler" where
  "pushTask task s =
     (case map_get (queues s) (tenantKey task) of
        Some q \<Rightarrow> s\<lparr>queues := map_set (tenantKey task) (q @ [task]) (queues s)\<rparr>
      | None \<Rightarrow> s\<lparr>queues := map_set (tenantKey task) [task] (queues s),
                 tenantOrder := tenantOrder s @ [tenantKey task]\<rparr>)"

lemma enqueue_pushTask:
  "enqueue k ex s = (if k = [] then Inl ''Scheduler tenant key is required.''
     else Inr (drain (pushTask \<lparr>tenantKey = k, execute = ex\<rparr> s)))"
  by (simp add: enqueue_def pushTask_def Let_def split: option.split)

lemma pushTask_sel [simp]:
  "running (pushTask task s) = running s" "active (pushTask task s) = active s"
  "activeByTenant (pushTask task s) = activeByTenant s"
  "maxConcurrent (pushTask task s) = maxConcurrent s"
  "maxConcurrentPerTenant (pushTask task s) = maxConcurrentPerTenant s"
  "draining (pushTask task s) = draining s" "started (pushTask task s) = started s"
  "idleWaiters (pushTask task s) = idleWaiters s"
  by (simp_all add: pushTask_def split: option.split)

lemma queues_wf_push:
  assumes "queues_wf s"
  shows "queues_wf (pushTask task s)"
proof (cases "map_get (queues s) (tenantKey task)")
  case None
  then have "tenantKey task \<notin> fst ` set (queues s)" by (simp add: map_of_eq_None_iff)
  with None assms show ?thesis by (simp add: queues_wf_def pushTask_def keys_set)
next
  case (Some q)
  then have "tenantKey task \<in> fst ` set (queues s)" by (force dest: map_of_SomeD)
  with Some assms show ?thesis
    by (simp add: queues_wf_def pushTask_def keys_set insert_absorb)
qed

lemma core_inv_push: "core_inv s \<Longrightarrow> core_inv (pushTask task s)"
  by (rule core_inv_frame) (auto simp: core_inv_def queues_wf_push)

lemma inFlight_member: "task \<in> set (running s) \<Longrightarrow> 1 \<le> inFlight s (tenantKey task)"
  by (auto simp: inFlight_def Suc_le_eq length_filter_conv_card [symmetric] filter_empty_conv
      simp flip: of_nat_Suc)

lemma inFlight_release:
  "task \<in> set (running s) \<Longrightarrow>
   inFlight (releaseSlot task s) k = inFlight s k - (if tenantKey task = k then 1 else 0)"
  using inFlight_member [of task s]
  by (auto simp: inFlight_def releaseSlot_def Let_def filter_remove1 length_remove1 of_nat_diff)

lemma releaseSlot_sel [simp]:
  "queues (releaseSlot task s) = queues s" "tenantOrder (releaseSlot task s) = tenantOrder s"
  "active (releaseSlot task s) = active s - 1" "running (releaseSlot task s) = remove1 task (running s)"
  "maxConcurrent (releaseSlot task s) = maxConcurrent s"
  "maxConcurrentPerTenant (releaseSlot task s) = maxConcurrentPerTenant s"
  "draining (releaseSlot task s) = draining s" "started (releaseSlot task s) = started s"
  "idleWaiters (releaseSlot task s) = idleWaiters s"
  by (simp_all add: releaseSlot_def Let_def)

lemma counts_wf_release:
  assumes "counts_wf s" "task \<in> set (running s)"
  shows "counts_wf (releaseSlot task s)"
proof -
  have one: "1 \<le> inFlight s (tenantKey task)" using assms(2) by (rule inFlight_member)
  have len: "1 \<le> length (running s)" using assms(2) by (cases "running s") auto
  have "activeByTenant (releaseSlot task s) =
      (if inFlight s (tenantKey task) - 1 > 0
       then map_set (tenantKey task) (inFlight s (tenantKey task) - 1) (activeByTenant s)
       else map_delete (tenantKey task) (activeByTenant s))"
    using assms(1) one by (simp add: releaseSlot_def Let_def counts_wf_def)
  with assms one len show ?thesis
    by (auto simp: counts_wf_def inFlight_release length_remove1 of_nat_diff)
qed

lemma core_inv_release:
  assumes "core_inv s" "task \<in> set (running s)"
  shows "core_inv (releaseSlot task s)"
proof -
  have "inFlight s k - 1 \<le> maxConcurrentPerTenant s" for k
    using assms(1) by (simp add: core_inv_def bounds_ok_def add_increasing2 diff_le_eq)
  with assms counts_wf_release [of s task] show ?thesis
    by (simp add: core_inv_def queues_wf_def bounds_ok_def inFlight_release)
qed

section \<open>Runs of the scheduler\<close>

datatype 'a schedEvent = Enqueue string 'a | Settle "'a scheduledTask" | OnIdle nat

text \<open>
  One event of a run. A rejected \<open>enqueue\<close> leaves the scheduler as it was; only a task in flight
  can settle.
\<close>

fun schedStep :: "'a schedEvent \<Rightarrow> 'a fairScheduler \<Rightarrow> 'a fairScheduler" where
  "schedStep (Enqueue k ex) s = (case enqueue k ex s of Inl e \<Rightarrow> s | Inr s' \<Rightarrow> s')"
| "schedStep (Settle task) s = (if task \<in> set (running s) then taskSettled task s else s)"
| "schedStep (OnIdle w) s = onIdle w s"

lemma sched_invD:
  assumes "sched_inv s"
  shows "core_inv s" "\<not> draining s" "saturated s" "idleWaiters s \<noteq> [] \<Longrightarrow> \<not> isIdle s"
  using assms by (auto simp: sched_inv_def)

lemma taskSettled_inv:
  assumes "sched_inv s" "task \<in> set (running s)"
  shows "sched_inv (taskSettled task s)"
proof -
  have "sched_inv (drain (releaseSlot task s))"
    using assms by (intro drain_inv) (simp_all add: sched_inv_def core_inv_release)
  then show ?thesis unfolding taskSettled_def by (intro notifyIdle_inv sched_invD)
qed

lemma schedStep_inv: "sched_inv s \<Longrightarrow> sched_inv (schedStep e s)"
proof (cases e)
  case (Enqueue k ex)
  assume "sched_inv s"
  then have "sched_inv (drain (pushTask \<lparr>tenantKey = k, execute = ex\<rparr> s))"
    by (intro drain_inv) (simp_all add: sched_inv_def core_inv_push)
  with Enqueue \<open>sched_inv s\<close> show ?thesis by (simp add: enqueue_pushTask)
next
  case (Settle task)
  assume "sched_inv s"
  with Settle show ?thesis by (simp add: taskSettled_inv)
next
  case (OnIdle w)
  assume "sched_inv s"
  with OnIdle show ?thesis by (auto simp: onIdle_def sched_inv_def)
qed

interpretation sched: total_step_system schedStep sched_inv
  by unfold_locales (rule schedStep_inv)

lemma newFairScheduler_inv:
  "newFairScheduler c t = Inr s \<Longrightarrow> sched_inv s"
  by (auto simp: newFairScheduler_def positiveInteger_def sched_inv_def core_inv_def queues_wf_def
      counts_wf_def bounds_ok_def saturated_def inFlight_def
      split: sum.splits js_number.splits if_splits)

lemma run_sched_inv:
  "newFairScheduler c t = Inr s \<Longrightarrow> sched_inv (fold schedStep es s)"
  by (rule sched.total_run_inv) (rule newFairScheduler_inv)

section \<open>Order of service within a tenant\<close>

definition startedFor :: "string \<Rightarrow> 'a fairScheduler \<Rightarrow> 'a scheduledTask list" where
  "startedFor k s = filter (\<lambda>t. tenantKey t = k) (started s)"

fun submittedFor :: "string \<Rightarrow> 'a schedEvent list \<Rightarrow> 'a scheduledTask list" where
  "submittedFor k [] = []"
| "submittedFor k (Enqueue k' ex # es) =
     (if k' = k \<and> k \<noteq> [] then \<lparr>tenantKey = k, execute = ex\<rparr> # submittedFor k es
      else submittedFor k es)"
| "submittedFor k (Settle t # es) = submittedFor k es"
| "submittedFor k (OnIdle w # es) = submittedFor k es"

lemma history_dispatch:
  assumes "map_get (queues s) k = Some (task # rest)" "tenantKey task = k"
  shows "startedFor k' (dispatch k task rest order n s) @ waiting (dispatch k task rest order n s) k' =
    startedFor k' s @ waiting s k'"
  using assms by (auto simp: startedFor_def waiting_def)

lemma drainLoop_history:
  assumes "core_inv s"
  shows "startedFor k (drainLoop n s) @ waiting (drainLoop n s) k = startedFor k s @ waiting s k"
proof -
  let ?I = "\<lambda>n t. core_inv t \<and> startedFor k t @ waiting t k = startedFor k s @ waiting s k"
  have "\<exists>m. ?I m (drainLoop n s) \<and> (active (drainLoop n s) < maxConcurrent (drainLoop n s) \<longrightarrow>
      length (tenantOrder (drainLoop n s)) \<le> m)"
  proof (rule drainLoop_rule [where I = ?I])
    fix n t k' order
    assume "?I n t" "tenantOrder t = k' # order"
    then show "?I (Suc n) (t\<lparr>tenantOrder := order @ [k']\<rparr>)"
      by (simp add: core_inv_rotate startedFor_def waiting_def)
  qed (use assms in \<open>simp_all add: core_inv_dispatch history_dispatch\<close>)
  then show ?thesis by blast
qed

lemma drain_history:
  "core_inv s \<Longrightarrow> startedFor k (drain s) @ waiting (drain s) k = startedFor k s @ waiting s k"
  using drainLoop_history [of "s\<lparr>draining := True\<rparr>" k 0]
  by (simp add: drain_def notifyIdle_def startedFor_def waiting_def)

lemma pushTask_history:
  "startedFor k (pushTask task s) @ waiting (pushTask task s) k =
    startedFor k s @ waiting s k @ (if tenantKey task = k then [task] else [])"
  by (simp add: pushTask_def startedFor_def waiting_def split: option.split)

lemma schedStep_history:
  assumes "sched_inv s"
  shows "startedFor k (schedStep e s) @ waiting (schedStep e s) k =
    startedFor k s @ waiting s k @ submittedFor k [e]"
proof (cases e)
  case (Enqueue k' ex)
  then show ?thesis
    using assms drain_history [OF core_inv_push, of s k "\<lparr>tenantKey = k', execute = ex\<rparr>"]
    by (auto simp: enqueue_pushTask sched_inv_def pushTask_history)
next
  case (Settle task)
  show ?thesis
  proof (cases "task \<in> set (running s)")
    case True
    then have "startedFor k (drain (releaseSlot task s)) @ waiting (drain (releaseSlot task s)) k =
        startedFor k (releaseSlot task s) @ waiting (releaseSlot task s) k"
      using assms by (intro drain_history core_inv_release) (simp_all add: sched_inv_def)
    with Settle True show ?thesis
      by (simp add: taskSettled_def notifyIdle_def startedFor_def waiting_def)
  qed (use Settle in simp)
next
  case (OnIdle w)
  then show ?thesis by (simp add: onIdle_def startedFor_def waiting_def)
qed

lemma submittedFor_Cons: "submittedFor k (e # es) = submittedFor k [e] @ submittedFor k es"
  by (cases e) auto

lemma run_history:
  "sched_inv s \<Longrightarrow> startedFor k (fold schedStep es s) @ waiting (fold schedStep es s) k =
    startedFor k s @ waiting s k @ submittedFor k es"
proof (induction es arbitrary: s)
  case (Cons e es)
  have "startedFor k (fold schedStep es (schedStep e s)) @ waiting (fold schedStep es (schedStep e s)) k =
      (startedFor k (schedStep e s) @ waiting (schedStep e s) k) @ submittedFor k es"
    using Cons.IH [OF schedStep_inv [OF Cons.prems]] by simp
  also have "\<dots> = startedFor k s @ waiting s k @ submittedFor k (e # es)"
    by (simp only: schedStep_history [OF Cons.prems] submittedFor_Cons [of k e es] append.assoc)
  finally show ?case by simp
qed simp

section \<open>Progress\<close>

definition pending :: "'a fairScheduler \<Rightarrow> nat" where
  "pending s = sum_list (map length (map_values (queues s)))"

definition outstanding :: "'a fairScheduler \<Rightarrow> nat" where
  "outstanding s = length (running s) + pending s"

lemma outstanding_dispatch:
  assumes "queues_wf s" "map_get (queues s) k = Some (task # rest)"
  shows "outstanding (dispatch k task rest order n s) = outstanding s"
proof -
  have d: "distinct (map fst (queues s))" using assms(1) by (simp add: queues_wf_def)
  show ?thesis
    using sum_values_set [OF assms(2), of length rest] sum_values_delete [OF d assms(2), of length]
    by (cases "rest = []") (simp_all add: outstanding_def pending_def)
qed

lemma drainLoop_outstanding:
  assumes "core_inv s"
  shows "outstanding (drainLoop n s) = outstanding s"
proof -
  let ?I = "\<lambda>n t. core_inv t \<and> outstanding t = outstanding s"
  have "\<exists>m. ?I m (drainLoop n s) \<and> (active (drainLoop n s) < maxConcurrent (drainLoop n s) \<longrightarrow>
      length (tenantOrder (drainLoop n s)) \<le> m)"
  proof (rule drainLoop_rule [where I = ?I])
    fix n t k' order
    assume "?I n t" "tenantOrder t = k' # order"
    then show "?I (Suc n) (t\<lparr>tenantOrder := order @ [k']\<rparr>)"
      by (simp add: core_inv_rotate outstanding_def pending_def)
  next
    fix n t k' order task rest
    assume "?I n t" "active t < maxConcurrent t" "tenantOrder t = k' # order"
      "map_get (queues t) k' = Some (task # rest)" "tenantKey task = k'"
      "inFlight t k' < maxConcurrentPerTenant t"
    then show "?I 0 (dispatch k' task rest order (inFlight t k') t)"
      by (simp add: core_inv_dispatch outstanding_dispatch core_inv_queues)
  qed (use assms in simp_all)
  then show ?thesis by blast
qed

lemma drain_outstanding: "core_inv s \<Longrightarrow> outstanding (drain s) = outstanding s"
  using drainLoop_outstanding [of "s\<lparr>draining := True\<rparr>" 0]
  by (simp add: drain_def notifyIdle_def outstanding_def pending_def)

lemma taskSettled_outstanding:
  assumes "sched_inv s" "task \<in> set (running s)"
  shows "outstanding (taskSettled task s) = outstanding s - 1"
proof -
  have len: "1 \<le> length (running s)" using assms(2) by (cases "running s") auto
  have "outstanding (drain (releaseSlot task s)) = outstanding (releaseSlot task s)"
    using assms by (intro drain_outstanding core_inv_release) (simp_all add: sched_inv_def)
  also have "\<dots> = outstanding s - 1"
    using assms(2) len by (simp add: outstanding_def pending_def length_remove1)
  finally show ?thesis
    by (simp add: taskSettled_def notifyIdle_def outstanding_def pending_def)
qed

text \<open>While anything waits, something is in flight: the queue can never stall.\<close>

lemma not_stalled:
  assumes "sched_inv s" "queues s \<noteq> []"
  shows "running s \<noteq> []"
proof -
  obtain k where k: "k \<in> set (tenantOrder s)"
    using assms by (cases "queues s") (auto simp: sched_inv_def core_inv_def queues_wf_def)
  have "1 \<le> active s \<or> 1 \<le> inFlight s k"
    using assms(1) k by (auto simp: sched_inv_def core_inv_def bounds_ok_def saturated_def)
  with assms(1) show ?thesis
    by (auto simp: sched_inv_def core_inv_def counts_wf_def inFlight_def)
qed

lemma outstanding_0_idle:
  assumes "sched_inv s" "outstanding s = 0"
  shows "isIdle s"
proof -
  have "running s = []" using assms(2) by (simp add: outstanding_def)
  moreover then have "queues s = []" using not_stalled [OF assms(1)] by blast
  ultimately show ?thesis using assms(1) by (simp add: sched_inv_def core_inv_def counts_wf_def isIdle_def)
qed

section \<open>Fairness between tenants\<close>

definition passed_by :: "'a fairScheduler \<Rightarrow> string \<Rightarrow> string list \<Rightarrow> 'a fairScheduler \<Rightarrow> bool" where
  "passed_by s k ahead t \<longleftrightarrow>
     (\<exists>d served left behind. started t = started s @ d \<and> ahead = served @ left \<and>
        tenantOrder t = left @ k # behind \<and> subseq (map tenantKey d) served \<and>
        inFlight t k = inFlight s k)"

definition served_or_passed :: "'a fairScheduler \<Rightarrow> string \<Rightarrow> string list \<Rightarrow> nat \<Rightarrow> 'a fairScheduler \<Rightarrow> bool" where
  "served_or_passed s k ahead n t \<longleftrightarrow> core_inv t \<and>
     maxConcurrentPerTenant t = maxConcurrentPerTenant s \<and>
     ((\<exists>d. started t = started s @ d \<and> k \<in> tenantKey ` set d) \<or> passed_by s k ahead t)"

lemma passed_byI:
  assumes "started t = started s @ d" "ahead = served @ left" "tenantOrder t = left @ k # behind"
    "subseq (map tenantKey d) served" "inFlight t k = inFlight s k"
  shows "passed_by s k ahead t"
  using assms unfolding passed_by_def by blast

lemma served_or_passed_skip:
  assumes I: "served_or_passed s k ahead n t" and ord: "tenantOrder t = k' # order"
    and cap: "inFlight t k' = maxConcurrentPerTenant t" and k: "inFlight s k < maxConcurrentPerTenant s"
  shows "served_or_passed s k ahead (Suc n) (t\<lparr>tenantOrder := order @ [k']\<rparr>)"
proof (cases "\<exists>d. started t = started s @ d \<and> k \<in> tenantKey ` set d")
  case True
  with I ord show ?thesis by (auto simp: served_or_passed_def core_inv_rotate)
next
  case False
  with I obtain d served left behind where p: "started t = started s @ d" "ahead = served @ left"
    "tenantOrder t = left @ k # behind" "subseq (map tenantKey d) served" "inFlight t k = inFlight s k"
    by (auto simp: served_or_passed_def passed_by_def)
  have "k' \<noteq> k" using cap k p(5) I by (auto simp: served_or_passed_def)
  with p(3) ord obtain left' where l: "left = k' # left'" "order = left' @ k # behind"
    by (cases left) auto
  then have "subseq (map tenantKey d) (served @ [k'])" using p(4) by (simp add: subseq_rev_drop_many)
  then have "passed_by s k ahead (t\<lparr>tenantOrder := order @ [k']\<rparr>)"
    using p l by (intro passed_byI [where served = "served @ [k']" and left = left'
          and behind = "behind @ [k']" and d = d]) simp_all
  with I ord show ?thesis by (simp add: served_or_passed_def core_inv_rotate)
qed

lemma served_or_passed_dispatch:
  assumes I: "served_or_passed s k ahead n t" and act: "active t < maxConcurrent t"
    and ord: "tenantOrder t = k' # order" and q: "map_get (queues t) k' = Some (task # rest)"
    and key: "tenantKey task = k'" and room: "inFlight t k' < maxConcurrentPerTenant t"
  shows "served_or_passed s k ahead 0 (dispatch k' task rest order (inFlight t k') t)"
    (is "served_or_passed s k ahead 0 ?u")
proof -
  have u: "core_inv ?u" "maxConcurrentPerTenant ?u = maxConcurrentPerTenant s"
    using I act ord q key room by (simp_all add: served_or_passed_def core_inv_dispatch)
  show ?thesis
  proof (cases "(\<exists>d. started t = started s @ d \<and> k \<in> tenantKey ` set d) \<or> k' = k")
    case True
    then have "\<exists>d. started ?u = started s @ d \<and> k \<in> tenantKey ` set d"
      using I key by (auto simp: served_or_passed_def passed_by_def)
    with u show ?thesis by (simp add: served_or_passed_def)
  next
    case False
    with I obtain d served left behind where p: "started t = started s @ d" "ahead = served @ left"
      "tenantOrder t = left @ k # behind" "subseq (map tenantKey d) served" "inFlight t k = inFlight s k"
      by (auto simp: served_or_passed_def passed_by_def)
    with ord False obtain left' where l: "left = k' # left'" "order = left' @ k # behind"
      by (cases left) auto
    have "subseq (map tenantKey (d @ [task])) (served @ [k'])" using p(4) key by (simp add: subseq_append)
    then have "passed_by s k ahead ?u"
      using p l key False by (intro passed_byI [where served = "served @ [k']" and left = left'
          and behind = "if rest \<noteq> [] then behind @ [k'] else behind" and d = "d @ [task]"]) simp_all
    with u show ?thesis by (simp add: served_or_passed_def)
  qed
qed

lemma drainLoop_fair:
  assumes core: "core_inv s" and ord: "tenantOrder s = ahead @ k # behind"
    and room: "inFlight s k < maxConcurrentPerTenant s"
    and d: "started (drainLoop 0 s) = started s @ d" and k: "k \<notin> tenantKey ` set d"
  shows "subseq (map tenantKey d) ahead \<and> active (drainLoop 0 s) = maxConcurrent s"
proof -
  have "\<exists>m. served_or_passed s k ahead m (drainLoop 0 s) \<and>
    (active (drainLoop 0 s) < maxConcurrent (drainLoop 0 s) \<longrightarrow>
      length (tenantOrder (drainLoop 0 s)) \<le> m)"
  proof (rule drainLoop_rule)
    have "passed_by s k ahead s"
      using ord by (intro passed_byI [where d = "[]" and served = "[]" and left = ahead]) auto
    then show "served_or_passed s k ahead 0 s" using core by (simp add: served_or_passed_def)
  qed (use room in \<open>blast intro: served_or_passed_skip served_or_passed_dispatch
        dest: served_or_passed_def [THEN iffD1]\<close>)+
  then have "passed_by s k ahead (drainLoop 0 s)"
    using d k by (auto simp: served_or_passed_def)
  then obtain served left behind' where p: "ahead = served @ left"
    "tenantOrder (drainLoop 0 s) = left @ k # behind'" "subseq (map tenantKey d) served"
    "inFlight (drainLoop 0 s) k = inFlight s k"
    using d by (auto simp: passed_by_def)
  have "active (drainLoop 0 s) = maxConcurrent s"
    using drainLoop_saturated [OF core] p(2,4) room by (auto simp: saturated_def)
  with p(1,3) show ?thesis by (simp add: subseq_rev_drop_many)
qed

fun settleBy :: "('a fairScheduler \<Rightarrow> 'a scheduledTask) \<Rightarrow> nat \<Rightarrow> 'a fairScheduler \<Rightarrow> 'a fairScheduler" where
  "settleBy pick 0 s = s"
| "settleBy pick (Suc n) s =
     (if running s = [] then s else settleBy pick n (schedStep (Settle (pick s)) s))"

lemma settleBy_idle:
  assumes pick: "\<And>s. running s \<noteq> [] \<Longrightarrow> pick s \<in> set (running s)"
  shows "sched_inv s \<Longrightarrow> outstanding s \<le> n \<Longrightarrow>
    isIdle (settleBy pick n s) \<and> sched_inv (settleBy pick n s) \<and>
    (\<forall>k. startedFor k (settleBy pick n s) @ waiting (settleBy pick n s) k = startedFor k s @ waiting s k)"
proof (induction n arbitrary: s)
  case 0
  then show ?case by (simp add: outstanding_0_idle)
next
  case (Suc n)
  show ?case
  proof (cases "running s = []")
    case True
    then have "queues s = []" using not_stalled Suc.prems(1) by blast
    with True have "outstanding s = 0" by (simp add: outstanding_def pending_def map_values_def)
    with Suc.prems(1) True show ?thesis by (simp add: outstanding_0_idle)
  next
    case False
    then have mem: "pick s \<in> set (running s)" by (rule pick)
    let ?t = "schedStep (Settle (pick s)) s"
    have "sched_inv ?t" using Suc.prems(1) by (rule schedStep_inv)
    moreover have "outstanding ?t \<le> n"
      using Suc.prems mem taskSettled_outstanding [OF _ mem] by simp
    moreover have "startedFor k ?t @ waiting ?t k = startedFor k s @ waiting s k" for k
      using schedStep_history [OF Suc.prems(1), of k "Settle (pick s)"] by simp
    ultimately show ?thesis using Suc.IH [of ?t] False by simp
  qed
qed

lemma scheduler_history:
  assumes "newFairScheduler c t = Inr s0"
  shows "startedFor k (fold schedStep es s0) @ waiting (fold schedStep es s0) k = submittedFor k es"
proof -
  have "startedFor k s0 @ waiting s0 k = []"
    using assms by (auto simp: newFairScheduler_def startedFor_def waiting_def
        split: sum.splits)
  then show ?thesis using run_history [OF newFairScheduler_inv [OF assms], of k es] by simp
qed

section \<open>Properties\<close>

text \<open>
  C13: in every state the scheduler can reach, the number of tasks in flight is the counter
  \<open>active\<close>, it never exceeds \<open>maxConcurrent\<close>, no tenant has more than \<open>maxConcurrentPerTenant\<close>
  tasks in flight, and \<open>activeByTenant\<close> holds exactly each tenant's count.
\<close>

theorem scheduler_respects_bounds:
  assumes "newFairScheduler c t = Inr s0"
  shows "let s = fold schedStep es s0 in
    active s = int (length (running s)) \<and> active s \<le> maxConcurrent s \<and>
    (\<forall>k. inFlight s k \<le> maxConcurrentPerTenant s) \<and>
    (\<forall>k. get_or 0 (map_get (activeByTenant s) k) = inFlight s k)"
  using run_sched_inv [OF assms, of es] tenantActive_inFlight [of "fold schedStep es s0"]
  by (simp add: Let_def sched_inv_def core_inv_def counts_wf_def bounds_ok_def)

definition exampleScheduler :: "nat fairScheduler" where
  "exampleScheduler = projr (newFairScheduler (IntNum 1) (IntNum 1))"

definition exampleEvents :: "nat schedEvent list" where
  "exampleEvents = [Enqueue ''a'' 1, Enqueue ''b'' 2, Enqueue ''c'' 3]"

lemma exampleScheduler_new: "newFairScheduler (IntNum 1) (IntNum 1) = Inr exampleScheduler"
  by code_simp

theorem scheduler_respects_bounds_witness:
  "let s = fold schedStep exampleEvents exampleScheduler in
    active s = int (length (running s)) \<and> active s \<le> maxConcurrent s \<and>
    (\<forall>k. inFlight s k \<le> maxConcurrentPerTenant s) \<and>
    (\<forall>k. get_or 0 (map_get (activeByTenant s) k) = inFlight s k)"
  by (rule scheduler_respects_bounds [OF exampleScheduler_new])

text \<open>
  The scheduler is work conserving. In every reachable state, if a global slot is free, then
  every tenant that still has a queued task already has \<open>maxConcurrentPerTenant\<close> tasks in flight:
  no task waits for a reason other than one of the two bounds.
\<close>

theorem scheduler_work_conserving:
  assumes "newFairScheduler c t = Inr s0" and "s = fold schedStep es s0"
    and "active s < maxConcurrent s" and "waiting s k \<noteq> []"
  shows "inFlight s k = maxConcurrentPerTenant s"
proof -
  have inv: "sched_inv s" using run_sched_inv [OF assms(1)] assms(2) by simp
  have "k \<in> set (tenantOrder s)"
    using inv assms(4) by (intro waiting_in_order core_inv_queues sched_invD)
  with inv assms(3) show ?thesis by (auto simp: sched_inv_def saturated_def)
qed

lemmas sched_eval = newFairScheduler_def positiveInteger_def exampleScheduler_def
  exampleEvents_def enqueue_def drain_def drainLoop.simps dispatch_def notifyIdle_def isIdle_def
  taskSettled_def releaseSlot_def waiting_def inFlight_def Let_def

definition tenantBoundScheduler :: "nat fairScheduler" where
  "tenantBoundScheduler = projr (newFairScheduler (IntNum 2) (IntNum 1))"

lemma tenantBoundScheduler_new: "newFairScheduler (IntNum 2) (IntNum 1) = Inr tenantBoundScheduler"
  by (simp add: tenantBoundScheduler_def sched_eval)

theorem scheduler_work_conserving_witness:
  "let s = fold schedStep [Enqueue ''a'' 1, Enqueue ''a'' 2] tenantBoundScheduler in
    active s < maxConcurrent s \<and> waiting s ''a'' \<noteq> [] \<and>
    inFlight s ''a'' = maxConcurrentPerTenant s"
proof -
  let ?s = "fold schedStep [Enqueue ''a'' 1, Enqueue ''a'' 2] tenantBoundScheduler"
  have h: "active ?s < maxConcurrent ?s" "waiting ?s ''a'' \<noteq> []"
    by (simp_all add: tenantBoundScheduler_def sched_eval)
  show ?thesis
    using h scheduler_work_conserving [OF tenantBoundScheduler_new refl h] by (simp only: Let_def simp_thms)
qed

text \<open>
  tasks of one tenant start in the order they were submitted and none is lost or duplicated.
  After any run, the tasks of a tenant that have been started, followed by those still queued, are
  exactly the tasks submitted for that tenant, in order.
\<close>

theorem scheduler_fifo:
  assumes "newFairScheduler c t = Inr s0"
  shows "startedFor k (fold schedStep es s0) @ waiting (fold schedStep es s0) k = submittedFor k es"
  by (rule scheduler_history [OF assms])

theorem scheduler_fifo_witness:
  "startedFor ''b'' (fold schedStep exampleEvents exampleScheduler) @
     waiting (fold schedStep exampleEvents exampleScheduler) ''b'' = [\<lparr>tenantKey = ''b'', execute = 2\<rparr>]"
  using scheduler_fifo [OF exampleScheduler_new, of "''b''" exampleEvents]
  by (simp add: exampleEvents_def)

text \<open>
  C14: progress. From any reachable state, if promises in flight keep settling, in whatever order
  (\<open>pick\<close> chooses the next one), then after as many settlements as there are tasks in flight or
  queued the scheduler is idle, every submitted task has been started, and nobody is left waiting
  in \<open>onIdle\<close>.
\<close>

theorem scheduler_progress:
  assumes "newFairScheduler c t = Inr s0"
    and "\<And>s. running s \<noteq> [] \<Longrightarrow> pick s \<in> set (running s)"
    and "s = fold schedStep es s0"
  shows "let s' = settleBy pick (outstanding s) s in
    isIdle s' \<and> idleWaiters s' = [] \<and> (\<forall>k. startedFor k s' = submittedFor k es)"
proof -
  let ?s' = "settleBy pick (outstanding s) s"
  have inv: "sched_inv s" using run_sched_inv [OF assms(1)] assms(3) by simp
  have idle: "isIdle ?s'" "sched_inv ?s'"
    and hist: "\<And>k. startedFor k ?s' @ waiting ?s' k = startedFor k s @ waiting s k"
    using settleBy_idle [OF assms(2) inv, of "outstanding s"] by auto
  have "idleWaiters ?s' = []" using sched_invD(4) [OF idle(2)] idle(1) by blast
  moreover have "waiting ?s' k = []" for k using idle(1) by (simp add: isIdle_def waiting_def)
  ultimately show ?thesis
    using idle(1) hist scheduler_history [OF assms(1)] assms(3) by (simp add: Let_def)
qed

theorem scheduler_progress_witness:
  "let s = fold schedStep exampleEvents exampleScheduler;
       s' = settleBy (\<lambda>s. hd (running s)) (outstanding s) s in
    running s \<noteq> [] \<and> isIdle s' \<and> idleWaiters s' = [] \<and>
    (\<forall>k. startedFor k s' = submittedFor k exampleEvents)"
proof -
  have r: "running (fold schedStep exampleEvents exampleScheduler) \<noteq> []"
    by (simp add: sched_eval)
  show ?thesis
    using r scheduler_progress [OF exampleScheduler_new hd_in_set refl, of exampleEvents]
    by (simp add: Let_def)
qed

text \<open>
  Bounded bypass. When a task in flight settles, a waiting tenant \<open>k\<close> that is below its own
  bound and does not get a slot is passed over only by tenants that were ahead of it in the round
  robin order, each at most once and in that order, and then every global slot is taken. In
  particular a tenant cannot be starved by one with a longer queue.
\<close>

theorem scheduler_bounded_bypass:
  assumes "newFairScheduler c t = Inr s0" and "s = fold schedStep es s0"
    and "task \<in> set (running s)" and "tenantOrder s = ahead @ k # behind"
    and "inFlight s k < maxConcurrentPerTenant s"
    and "started (taskSettled task s) = started s @ d" and "k \<notin> tenantKey ` set d"
  shows "subseq (map tenantKey d) ahead \<and> active (taskSettled task s) = maxConcurrent s"
proof -
  let ?r = "(releaseSlot task s)\<lparr>draining := True\<rparr>"
  have inv: "sched_inv s" using run_sched_inv [OF assms(1)] assms(2) by simp
  have core: "core_inv ?r" using inv assms(3) by (simp add: sched_inv_def core_inv_release)
  have room: "inFlight ?r k < maxConcurrentPerTenant ?r"
    using assms(3,5) by (simp add: inFlight_release)
  have eq: "started (taskSettled task s) = started (drainLoop 0 ?r)"
    "active (taskSettled task s) = active (drainLoop 0 ?r)"
    using inv by (simp_all add: taskSettled_def drain_def notifyIdle_def sched_inv_def)
  show ?thesis
    using drainLoop_fair [OF core _ room, of ahead behind d] assms(4,6,7) eq by simp
qed

theorem scheduler_bounded_bypass_witness:
  "let s = fold schedStep exampleEvents exampleScheduler;
       task = \<lparr>tenantKey = ''a'', execute = 1\<rparr> in
    task \<in> set (running s) \<and> tenantOrder s = [''b''] @ ''c'' # [] \<and>
    started (taskSettled task s) = started s @ [\<lparr>tenantKey = ''b'', execute = 2\<rparr>] \<and>
    subseq [''b''] [''b''] \<and> active (taskSettled task s) = maxConcurrent s"
proof -
  let ?s = "fold schedStep exampleEvents exampleScheduler"
  let ?task = "\<lparr>tenantKey = ''a'', execute = 1\<rparr>"
  have h: "?task \<in> set (running ?s)" "tenantOrder ?s = [''b''] @ ''c'' # []"
    "inFlight ?s ''c'' < maxConcurrentPerTenant ?s"
    "started (taskSettled ?task ?s) = started ?s @ [\<lparr>tenantKey = ''b'', execute = 2\<rparr>]"
    "''c'' \<notin> tenantKey ` set [\<lparr>tenantKey = ''b'', execute = 2 :: nat\<rparr>]"
    by (simp_all add: sched_eval)
  have r: "subseq (map tenantKey [\<lparr>tenantKey = ''b'', execute = 2 :: nat\<rparr>]) [''b''] \<and>
      active (taskSettled ?task ?s) = maxConcurrent ?s"
    by (rule scheduler_bounded_bypass [OF exampleScheduler_new refl h])
  show ?thesis
    unfolding Let_def by (intro conjI h(1,2,4) r [THEN conjunct2]) simp
qed

end
