(* ===== verification/Tenant_Context.thy ===== *)
theory Tenant_Context
  imports Prelude
begin

text \<open>
  The tenant execution context every runtime operation carries
  (packages/service-contracts/src/tenant-context.ts): the scope keys built from it and the
  tenant headers a request must repeat. The values are those the schemas let through; the
  schema library itself is outside the sources. A \<open>Headers\<close> object is a map from lower-case
  names, and \<open>set\<close> normalises its value the way the Fetch standard says.
\<close>

record tenantExecutionContext =
  organizationId :: string
  userId :: string
  assistantId :: string
  actorId :: string
  requestId :: string
  conversationId :: "string option"
  idempotencyKey :: "string option"
  authorizationVersion :: int
  configVersion :: int
  runtimeGeneration :: int

record runtimeTenantContextClaim =
  organization_id :: string
  user_id :: string
  assistant_id :: string
  actor_id :: string
  request_id :: string

section \<open>Scope keys\<close>

definition tenantExecutionScopeKey :: "tenantExecutionContext \<Rightarrow> string" where
  "tenantExecutionScopeKey ctx = json_stringify [organizationId ctx, assistantId ctx]"

definition tenantConversationScopeKey :: "tenantExecutionContext \<Rightarrow> string \<Rightarrow> string" where
  "tenantConversationScopeKey ctx conversation =
     json_stringify [organizationId ctx, assistantId ctx, conversation]"

definition runtimeTenantContextClaimFromExecutionContext ::
    "tenantExecutionContext \<Rightarrow> runtimeTenantContextClaim" where
  "runtimeTenantContextClaimFromExecutionContext ctx =
     \<lparr>organization_id = organizationId ctx, user_id = userId ctx, assistant_id = assistantId ctx,
      actor_id = actorId ctx, request_id = requestId ctx\<rparr>"

section \<open>Tenant headers\<close>

definition headerSpace :: "char \<Rightarrow> bool" where
  "headerSpace c \<longleftrightarrow> c \<in> {CHR 0x09, CHR 0x0A, CHR 0x0D, CHR 0x20}"

definition normalizeHeaderValue :: "string \<Rightarrow> string" where
  "normalizeHeaderValue v = rev (dropWhile headerSpace (rev (dropWhile headerSpace v)))"

definition validHeaderValue :: "string \<Rightarrow> bool" where
  "validHeaderValue v \<longleftrightarrow> set v \<inter> {CHR 0x00, CHR 0x0A, CHR 0x0D} = {}"

text \<open>\<open>Headers.set\<close>: a value that is not valid after normalisation throws a \<open>TypeError\<close>.\<close>

definition headersSet :: "string \<Rightarrow> string \<Rightarrow> (string, string) js_Map \<Rightarrow> (string, string) js_Map option" where
  "headersSet name v hs =
     (let v' = normalizeHeaderValue v in
      if validHeaderValue v' then Some (map_set name v' hs) else None)"

definition headerNames :: "(string \<times> string) list" where
  "headerNames =
     [(''version'', ''x-worklin-tenant-context-version''),
      (''organizationId'', ''x-worklin-org-id''),
      (''userId'', ''x-worklin-user-id''),
      (''assistantId'', ''x-worklin-assistant-id''),
      (''actorId'', ''x-worklin-actor-id''),
      (''requestId'', ''x-worklin-request-id'')]"

definition claimFields :: "runtimeTenantContextClaim \<Rightarrow> string list" where
  "claimFields c = [''1'', organization_id c, user_id c, assistant_id c, actor_id c, request_id c]"

fun setHeaders :: "(string \<times> string) list \<Rightarrow> (string, string) js_Map \<Rightarrow> (string, string) js_Map option" where
  "setHeaders [] hs = Some hs"
| "setHeaders ((name, v) # rest) hs =
     (case headersSet name v hs of None \<Rightarrow> None | Some hs' \<Rightarrow> setHeaders rest hs')"

definition applyRuntimeTenantContextHeaders ::
    "(string, string) js_Map \<Rightarrow> runtimeTenantContextClaim option \<Rightarrow> (string, string) js_Map option" where
  "applyRuntimeTenantContextHeaders hs claim =
     (let cleared = fold (\<lambda>(field, name) h. map_delete name h) headerNames hs in
      case claim of
        None \<Rightarrow> Some cleared
      | Some c \<Rightarrow> setHeaders (zip (map snd headerNames) (claimFields c)) cleared)"

fun firstMismatch :: "((string \<times> string) \<times> string) list \<Rightarrow> (string, string) js_Map \<Rightarrow> string option" where
  "firstMismatch [] hs = None"
| "firstMismatch (((field, name), expected) # rest) hs =
     (if map_get hs name \<noteq> Some expected then Some (''tenant_context_header_mismatch:'' @ field)
      else firstMismatch rest hs)"

definition validateRuntimeTenantContextHeaders ::
    "(string, string) js_Map \<Rightarrow> runtimeTenantContextClaim \<Rightarrow> string option" where
  "validateRuntimeTenantContextHeaders hs claim = firstMismatch (zip headerNames (claimFields claim)) hs"

section \<open>Lemmas\<close>

lemma tenantConversationScopeKey_inj [simp]:
  "tenantConversationScopeKey c x = tenantConversationScopeKey d y \<longleftrightarrow>
     organizationId c = organizationId d \<and> assistantId c = assistantId d \<and> x = y"
  by (auto simp: tenantConversationScopeKey_def)

lemma tenantExecutionScopeKey_inj [simp]:
  "tenantExecutionScopeKey c = tenantExecutionScopeKey d \<longleftrightarrow>
     organizationId c = organizationId d \<and> assistantId c = assistantId d"
  by (auto simp: tenantExecutionScopeKey_def)

text \<open>A header value that survives normalisation: not padded with header white space.\<close>

definition canonicalHeaderValue :: "string \<Rightarrow> bool" where
  "canonicalHeaderValue v \<longleftrightarrow> normalizeHeaderValue v = v \<and> validHeaderValue v"

lemma headersSet_canonical: "canonicalHeaderValue v \<Longrightarrow> headersSet name v hs = Some (map_set name v hs)"
  by (simp add: canonicalHeaderValue_def headersSet_def)

lemma headerNames_distinct: "distinct (map snd headerNames)"
  by (simp add: headerNames_def)

lemma firstMismatch_None_iff:
  "firstMismatch es hs = None \<longleftrightarrow> (\<forall>f name e. ((f, name), e) \<in> set es \<longrightarrow> map_get hs name = Some e)"
  by (induction es hs rule: firstMismatch.induct) (auto, blast+)

lemma setHeaders_canonical:
  assumes "list_all (\<lambda>kv. canonicalHeaderValue (snd kv)) kvs" "distinct (map fst kvs)"
  shows "\<exists>hs'. setHeaders kvs hs = Some hs' \<and> (\<forall>n v. (n, v) \<in> set kvs \<longrightarrow> map_get hs' n = Some v) \<and>
    (\<forall>n. n \<notin> fst ` set kvs \<longrightarrow> map_get hs' n = map_get hs n)"
  using assms
proof (induction kvs arbitrary: hs)
  case (Cons p kvs)
  obtain n v where p: "p = (n, v)" by fastforce
  from Cons p have "list_all (\<lambda>kv. canonicalHeaderValue (snd kv)) kvs" "distinct (map fst kvs)"
    "canonicalHeaderValue v" "n \<notin> fst ` set kvs"
    by auto
  with Cons.IH [of "map_set n v hs"] obtain hs' where
    "setHeaders kvs (map_set n v hs) = Some hs'"
    "\<forall>n v. (n, v) \<in> set kvs \<longrightarrow> map_get hs' n = Some v"
    "\<forall>m. m \<notin> fst ` set kvs \<longrightarrow> map_get hs' m = map_get (map_set n v hs) m"
    by blast
  with p \<open>canonicalHeaderValue v\<close> \<open>n \<notin> fst ` set kvs\<close> show ?case
    by (auto simp: headersSet_canonical)
qed simp

text \<open>
  The tenant headers a gateway writes for a claim are the ones the runtime accepts for that
  claim, whatever tenant headers the request carried before: for a claim whose identifiers are
  canonical header values, applying the headers and then validating them reports no mismatch.
\<close>

theorem tenant_headers_roundtrip:
  assumes "list_all canonicalHeaderValue (claimFields c)"
  shows "\<exists>hs'. applyRuntimeTenantContextHeaders hs (Some c) = Some hs' \<and>
    validateRuntimeTenantContextHeaders hs' c = None"
proof -
  let ?kvs = "zip (map snd headerNames) (claimFields c)"
  let ?cleared = "fold (\<lambda>(field, name) h. map_delete name h) headerNames hs"
  have len: "length headerNames = length (claimFields c)"
    by (simp add: headerNames_def claimFields_def)
  then have "map fst ?kvs = map snd headerNames" and vals: "map snd ?kvs = claimFields c" by simp_all
  then have dist: "distinct (map fst ?kvs)" by (simp add: headerNames_distinct)
  have "list_all (\<lambda>kv. canonicalHeaderValue (snd kv)) ?kvs"
    using assms by (subst (asm) vals [symmetric]) (simp add: list.pred_map comp_def)
  from setHeaders_canonical [OF this dist] obtain hs' where
    set: "setHeaders ?kvs ?cleared = Some hs'" and
    get: "\<And>n v. (n, v) \<in> set ?kvs \<Longrightarrow> map_get hs' n = Some v"
    by blast
  have "map_get hs' name = Some e" if "((f, name), e) \<in> set (zip headerNames (claimFields c))" for f name e
  proof (rule get)
    from that obtain i where "i < length headerNames" "headerNames ! i = (f, name)" "claimFields c ! i = e"
      by (auto simp: in_set_zip)
    with len show "(name, e) \<in> set ?kvs" by (force simp: in_set_zip)
  qed
  with set show ?thesis
    by (auto simp: applyRuntimeTenantContextHeaders_def validateRuntimeTenantContextHeaders_def
        firstMismatch_None_iff)
qed

theorem tenant_headers_roundtrip_witness:
  "let c = \<lparr>organization_id = ''org'', user_id = ''u'', assistant_id = ''a'', actor_id = ''x'',
      request_id = ''r''\<rparr> in
   \<exists>hs'. applyRuntimeTenantContextHeaders [(''x-worklin-org-id'', ''other'')] (Some c) = Some hs' \<and>
    validateRuntimeTenantContextHeaders hs' c = None"
proof -
  have "list_all canonicalHeaderValue (claimFields \<lparr>organization_id = ''org'', user_id = ''u'',
      assistant_id = ''a'', actor_id = ''x'', request_id = ''r''\<rparr>)"
    by code_simp
  from tenant_headers_roundtrip [OF this] show ?thesis by (simp only: Let_def)
qed

text \<open>
  Header validation is exact. It reports no mismatch if and only if every one of the six
  tenant headers is present and equal to the claim's field, so a request cannot carry tenant
  headers that disagree with its signed claim.
\<close>

theorem tenant_headers_exact:
  "validateRuntimeTenantContextHeaders hs c = None \<longleftrightarrow>
     map_get hs ''x-worklin-tenant-context-version'' = Some ''1'' \<and>
     map_get hs ''x-worklin-org-id'' = Some (organization_id c) \<and>
     map_get hs ''x-worklin-user-id'' = Some (user_id c) \<and>
     map_get hs ''x-worklin-assistant-id'' = Some (assistant_id c) \<and>
     map_get hs ''x-worklin-actor-id'' = Some (actor_id c) \<and>
     map_get hs ''x-worklin-request-id'' = Some (request_id c)"
  by (simp add: validateRuntimeTenantContextHeaders_def headerNames_def claimFields_def)

end
