(* ===== verification/Runtime_Types.thy ===== *)
theory Runtime_Types
  imports Tenant_Context
begin

text \<open>
  The data of the concurrent runtime: messages, runs, events and run steps
  (concurrent-runtime/types.ts), the store's error codes (concurrent-runtime/store.ts), the
  browser broker's records (concurrent-runtime/browser-broker/types.ts) and the operations,
  outputs and results of the browser protocol (packages/service-contracts/src/browser-broker.ts).
  Field names carry a prefix because HOL record fields share one name space. Instants
  (\<open>Date.now()\<close> and its ISO rendering) are integers, in milliseconds.
\<close>

section \<open>Messages, conversations, runs, events\<close>

datatype concurrentMessageRole = UserRole | AssistantRole

datatype concurrentRunStatus = Queued | Processing | WaitingForBrowser | Completed | Failed | Cancelled

record concurrentMessage =
  msg_id :: string
  msg_organizationId :: string
  msg_assistantId :: string
  msg_conversationId :: string
  msg_role :: concurrentMessageRole
  msg_content :: string
  msg_clientMessageId :: "string option"
  msg_createdAt :: int

record concurrentConversation =
  conv_id :: string
  conv_organizationId :: string
  conv_assistantId :: string
  conv_ownerUserId :: "string option"
  conv_ownerActorId :: "string option"
  conv_title :: string
  conv_createdAt :: int
  conv_updatedAt :: int
  conv_lastMessageAt :: "int option"
  conv_isProcessing :: bool

record concurrentRun =
  run_id :: string
  run_organizationId :: string
  run_assistantId :: string
  run_conversationId :: string
  run_requestId :: string
  run_idempotencyKey :: string
  run_userMessageId :: string
  run_turnSequence :: nat
  run_assistantMessageId :: "string option"
  run_status :: concurrentRunStatus
  run_errorCode :: "string option"
  run_errorMessage :: "string option"
  run_leaseOwner :: "string option"
  run_leaseExpiresAt :: "int option"
  run_createdAt :: int
  run_updatedAt :: int

record concurrentEvent =
  ev_id :: string
  ev_organizationId :: string
  ev_assistantId :: string
  ev_conversationId :: string
  ev_seq :: nat
  ev_emittedAt :: int
  ev_message :: json_object

record acceptedConcurrentRun =
  acc_created :: bool
  acc_conversationId :: string
  acc_userMessage :: concurrentMessage
  acc_run :: concurrentRun
  acc_event :: concurrentEvent

datatype stepKind = ProviderResponse | ToolResult

record concurrentRunStep =
  step_runId :: string
  step_conversationId :: string
  step_stepIndex :: nat
  step_stepKind :: stepKind
  step_providerContent :: json
  step_toolUseId :: "string option"
  step_executionConfig :: "json_object option"
  step_createdAt :: int

record claimedConcurrentRun =
  claimed_context :: tenantExecutionContext
  claimed_run :: concurrentRun
  claimed_messages :: "concurrentMessage list"
  claimed_steps :: "concurrentRunStep list"
  claimed_onboardingContext :: "json option"

record acceptConcurrentMessageInput =
  in_conversationId :: "string option"
  in_content :: string
  in_clientMessageId :: "string option"
  in_onboardingContext :: "json option"

record completeConcurrentRunInput =
  cin_assistantMessageId :: string
  cin_content :: string
  cin_leaseOwner :: string

record failConcurrentRunInput =
  fin_errorCode :: string
  fin_errorMessage :: string
  fin_leaseOwner :: string

section \<open>Store errors\<close>

datatype storeErrorCode = TenantMismatch | ConversationNotFound | RunNotFound | LeaseLost
  | BrowserAccessDenied | StaleConnection | ActionConflict | InvalidState

datatype storeError = StoreError (errorMessage: string) (errorCode: storeErrorCode)
  | TypeError \<comment> \<open>reading a property of \<open>undefined\<close>\<close>

section \<open>The browser protocol\<close>

datatype browserBrokerCapability = Browser_broker_v1 | Snapshot_v1 | Screenshot_v1 | Interaction_v1

datatype imageFormat = Png | Jpeg
datatype scrollDirection = Up | Down | Left | Right

datatype browserBrokerOperation =
    StatusOp
  | OpenSession (initialUrl: "string option")
  | Navigate (navUrl: string)
  | Snapshot (includeScreenshot: bool)
  | Screenshot (imgFormat: imageFormat) (quality: "int option")
  | Click (elementRef: string) (snapshotId: string)
  | TypeText (elementRef: string) (snapshotId: string) (typed: string)
  | PressKey (pressedKey: string) (modifiers: "string list")
  | Scroll (direction: scrollDirection) (amount: int)
  | SelectOption (elementRef: string) (snapshotId: string) (optionValue: string)
  | Wait (durationMs: int)
  | CloseSession

datatype browserBrokerReplayClass = Recomputable | NonReplayable

record browserElement =
  el_ref :: string
  el_role :: string
  el_name :: string
  el_value :: "string option"
  el_disabled :: "bool option"

datatype browserBrokerSuccessOutput =
    StatusOutput (available: bool)
  | SessionOutput (out_browserSessionId: string) (out_tabLeaseId: string) (out_epoch: int)
  | ObservationOutput (out_snapshotId: string) (out_epoch: int) (out_title: string) (out_url: string)
      (out_content: string) (out_elements: "browserElement list")
  | ScreenshotOutput (out_epoch: int) (out_mediaType: imageFormat) (out_data: string)
      (out_width: int) (out_height: int)
  | ActionOutput (out_epoch: int) (out_optSnapshotId: "string option")
  | SessionClosedOutput

datatype browserActionState = ActQueued | ActDelivered | ActReceived | ActExecuting | ActSucceeded
  | ActFailed | ActCancelRequested | ActCancelled | ActExpired | ActUnknownOutcome

datatype browserResultOutcome =
    ResSucceeded browserBrokerSuccessOutput
  | ResFailed (res_code: string) (res_message: string)
  | ResCancelled (res_code: string) (res_message: string)
  | ResUnknownOutcome (res_code: string) (res_message: string)

record browserBrokerResultRequest =
  rr_protocolVersion :: int
  rr_actionId :: string
  rr_operationHash :: string
  rr_connectionId :: string
  rr_connectionGeneration :: nat
  rr_resultHash :: string
  rr_documentEpoch :: "int option"
  rr_outcome :: browserResultOutcome \<comment> \<open>the discriminated union over \<open>state\<close>\<close>

fun outcomeState :: "browserResultOutcome \<Rightarrow> browserActionState" where
  "outcomeState (ResSucceeded x) = ActSucceeded"
| "outcomeState (ResFailed c m) = ActFailed"
| "outcomeState (ResCancelled c m) = ActCancelled"
| "outcomeState (ResUnknownOutcome c m) = ActUnknownOutcome"

record browserBrokerScope =
  sc_organizationId :: string
  sc_assistantId :: string
  sc_userId :: string
  sc_actorId :: string
  sc_clientInstallationId :: string
  sc_connectionId :: string
  sc_connectionGeneration :: nat
  sc_conversationId :: string
  sc_browserSessionId :: "string option"
  sc_tabLeaseId :: "string option"

record browserBrokerCommand =
  cmd_protocolVersion :: int
  cmd_scope :: browserBrokerScope
  cmd_runId :: string
  cmd_toolUseId :: string
  cmd_actionId :: string
  cmd_sequence :: nat
  cmd_operationHash :: string
  cmd_replayClass :: browserBrokerReplayClass
  cmd_expectedDocumentEpoch :: "int option"
  cmd_deadlineAt :: int
  cmd_operation :: browserBrokerOperation

section \<open>The browser broker's records\<close>

datatype browserConnectionState = ConnActive | ConnSuperseded | ConnDisconnected | ConnExpired

record browserConnectionRecord =
  bc_clientInstallationId :: string
  bc_connectionId :: string
  bc_connectionGeneration :: nat
  bc_capabilities :: "browserBrokerCapability list"
  bc_state :: browserConnectionState
  bc_cursor :: int
  bc_leaseExpiresAt :: int
  bc_lastSeenAt :: int

record storedConnection =
  sconn :: browserConnectionRecord
  resumeTokenHash :: string

record browserAccessGrantRecord =
  gr_conversationId :: string
  gr_clientInstallationId :: string
  gr_enabled :: bool
  gr_updatedAt :: int

datatype sessionOwner = Agent | Human
datatype sessionStatus = Opening | SessActive | Paused | SessClosed | SessExpired | Invalidated

record browserSessionRecord =
  bs_conversationId :: string
  bs_clientInstallationId :: string
  bs_connectionId :: string
  bs_connectionGeneration :: nat
  bs_browserSessionId :: string
  bs_tabLeaseId :: string
  bs_owner :: sessionOwner
  bs_status :: sessionStatus
  bs_documentEpoch :: int
  bs_snapshotId :: "string option"
  bs_expiresAt :: int

record browserActionRecord =
  act_conversationId :: string
  act_runId :: string
  act_toolUseId :: string
  act_actionId :: string
  act_actionSequence :: nat
  act_browserSessionId :: "string option"
  act_tabLeaseId :: "string option"
  act_clientInstallationId :: string
  act_connectionId :: string
  act_connectionGeneration :: nat
  act_operation :: browserBrokerOperation
  act_operationHash :: string
  act_replayClass :: browserBrokerReplayClass
  act_expectedDocumentEpoch :: "int option"
  act_deadlineAt :: int
  act_state :: browserActionState
  act_resultHash :: "string option"
  act_result :: "browserBrokerResultRequest option"

record browserOutboxRecord =
  ob_seq :: nat
  ob_eventId :: string
  ob_clientInstallationId :: string
  ob_connectionId :: string
  ob_connectionGeneration :: nat
  ob_actionId :: string
  ob_event :: browserBrokerCommand
  ob_expiresAt :: int

record resumeConnection =
  res_connectionId :: string
  res_connectionGeneration :: nat
  res_resumeTokenHash :: string

record connectBrowserClientInput =
  con_clientInstallationId :: string
  con_capabilities :: "browserBrokerCapability list"
  con_leaseExpiresAt :: int
  con_newConnectionId :: string
  con_newResumeTokenHash :: string
  con_resume :: "resumeConnection option"

record enqueueBrowserActionInput =
  enq_conversationId :: string
  enq_runId :: string
  enq_toolUseId :: string
  enq_actionId :: string
  enq_operation :: browserBrokerOperation
  enq_operationHash :: string
  enq_replayClass :: browserBrokerReplayClass
  enq_expectedDocumentEpoch :: "int option"
  enq_deadlineAt :: int
  enq_leaseOwner :: "string option"
  enq_providerContent :: "json option"
  enq_executionConfig :: "json_object option"

record connectionCredential =
  cr_clientInstallationId :: string
  cr_connectionId :: string
  cr_connectionGeneration :: nat
  cr_connectionTokenHash :: string

datatype receiptState = RcptReceived | RcptExecuting

record recordBrowserReceiptInput =
  rc_actionId :: string
  rc_operationHash :: string
  rc_connectionId :: string
  rc_connectionGeneration :: nat
  rc_receivedSequence :: int
  rc_state :: receiptState
  rc_connectionTokenHash :: string

record browserActionAck =
  ack_accepted :: bool
  ack_canonicalState :: browserActionState
  ack_runId :: "string option"
  ack_conversationId :: "string option"

section \<open>Status predicates\<close>

definition isNonterminal :: "concurrentRun \<Rightarrow> bool" where
  "isNonterminal r \<longleftrightarrow> run_status r = Queued \<or> run_status r = Processing \<or> run_status r = WaitingForBrowser"

definition inFlight :: "concurrentRun \<Rightarrow> bool" where
  "inFlight r \<longleftrightarrow> run_status r = Processing \<or> run_status r = WaitingForBrowser"

lemma isNonterminal_iff: "isNonterminal r \<longleftrightarrow> run_status r \<notin> {Completed, Failed, Cancelled}"
  by (cases "run_status r") (auto simp: isNonterminal_def)

lemma inFlight_isNonterminal: "inFlight r \<Longrightarrow> isNonterminal r"
  by (auto simp: inFlight_def isNonterminal_def)

end
