(* ===== verification/Runtime_State.thy ===== *)
theory Runtime_State
  imports Runtime_Types
begin

text \<open>
  The state of \<open>InMemoryConcurrentRuntimeStore\<close> (concurrent-runtime/in-memory-store.ts), its key
  functions and the checks its operations share. Every field of the class is a field of the
  record \<open>store\<close>; a \<open>Map\<close> is an association list. Run, action, connection and session objects
  live in exactly one map each, so mutating one is writing the changed record back under its key.
  A check that throws returns the error; \<open>None\<close> means it passed.
\<close>

declare map_of_eq_Some_iff [simp del] Some_eq_map_of_iff [simp del]

record conversationOwner =
  owner_userId :: string
  owner_actorId :: string

record store =
  messages :: "(string, concurrentMessage list) js_Map"
  runs :: "(string, concurrentRun) js_Map"
  runContexts :: "(string, tenantExecutionContext) js_Map"
  idempotency :: "(string, string) js_Map"
  events :: "(string, concurrentEvent list) js_Map"
  nextEventSequence :: "(string, nat) js_Map"
  conversationOwners :: "(string, conversationOwner) js_Map"
  onboardingContexts :: "(string, json) js_Map"
  nextTurnSequence :: "(string, nat) js_Map"
  runSteps :: "(string, concurrentRunStep list) js_Map"
  browserConnections :: "(string, storedConnection) js_Map"
  currentBrowserConnections :: "(string, string) js_Map"
  browserConnectionGenerations :: "(string, nat) js_Map"
  browserGrants :: "(string, browserAccessGrantRecord) js_Map"
  browserSessions :: "(string, browserSessionRecord) js_Map"
  browserActions :: "(string, browserActionRecord) js_Map"
  browserToolActions :: "(string, string) js_Map"
  browserOutbox :: "(string, browserOutboxRecord list) js_Map"
  nextBrowserOutboxSequence :: nat

definition emptyStore :: store where
  "emptyStore =
     \<lparr>messages = [], runs = [], runContexts = [], idempotency = [], events = [],
      nextEventSequence = [], conversationOwners = [], onboardingContexts = [],
      nextTurnSequence = [], runSteps = [], browserConnections = [],
      currentBrowserConnections = [], browserConnectionGenerations = [], browserGrants = [],
      browserSessions = [], browserActions = [], browserToolActions = [], browserOutbox = [],
      nextBrowserOutboxSequence = 1\<rparr>"

type_synonym 'a outcome = "(storeError + 'a) \<times> store"

section \<open>Keys\<close>

definition actorScopeKey :: "tenantExecutionContext \<Rightarrow> string" where
  "actorScopeKey ctx = json_stringify [organizationId ctx, assistantId ctx, userId ctx, actorId ctx]"

definition idempotencyScope :: "tenantExecutionContext \<Rightarrow> string \<Rightarrow> string" where
  "idempotencyScope ctx key = json_stringify [actorScopeKey ctx, key]"

definition runKey :: "tenantExecutionContext \<Rightarrow> string \<Rightarrow> string" where
  "runKey ctx runId = json_stringify [actorScopeKey ctx, runId]"

definition browserClientKey :: "tenantExecutionContext \<Rightarrow> string \<Rightarrow> string" where
  "browserClientKey ctx clientInstallationId = json_stringify [actorScopeKey ctx, clientInstallationId]"

definition browserConnectionKey :: "tenantExecutionContext \<Rightarrow> string \<Rightarrow> string" where
  "browserConnectionKey ctx connectionId = json_stringify [actorScopeKey ctx, connectionId]"

definition browserGrantKey :: "tenantExecutionContext \<Rightarrow> string \<Rightarrow> string" where
  "browserGrantKey ctx conversation = json_stringify [actorScopeKey ctx, conversation]"

definition browserActionKey :: "tenantExecutionContext \<Rightarrow> string \<Rightarrow> string" where
  "browserActionKey ctx actionId = json_stringify [actorScopeKey ctx, actionId]"

definition browserToolActionKey :: "tenantExecutionContext \<Rightarrow> string \<Rightarrow> string \<Rightarrow> string" where
  "browserToolActionKey ctx runId toolUseId = json_stringify [actorScopeKey ctx, runId, toolUseId]"

definition browserRunStepKey :: "tenantExecutionContext \<Rightarrow> string \<Rightarrow> string" where
  "browserRunStepKey ctx runId = json_stringify [actorScopeKey ctx, runId]"

section \<open>Shared checks\<close>

definition assertContext :: "tenantExecutionContext \<Rightarrow> storeError option" where
  "assertContext ctx =
     (if organizationId ctx = [] \<or> assistantId ctx = [] \<or> userId ctx = [] \<or> actorId ctx = [] \<or>
         requestId ctx = []
      then Some (StoreError ''Tenant execution context is incomplete.'' TenantMismatch)
      else None)"

definition isConversationOwnedBy :: "tenantExecutionContext \<Rightarrow> string \<Rightarrow> store \<Rightarrow> bool" where
  "isConversationOwnedBy ctx conversationKey s \<longleftrightarrow>
     (case map_get (conversationOwners s) conversationKey of
        None \<Rightarrow> True
      | Some owner \<Rightarrow> owner_userId owner = userId ctx \<and> owner_actorId owner = actorId ctx)"

definition assertConversationOwner :: "tenantExecutionContext \<Rightarrow> string \<Rightarrow> store \<Rightarrow> storeError option" where
  "assertConversationOwner ctx conversationKey s =
     (if isConversationOwnedBy ctx conversationKey s then None
      else Some (StoreError ''Conversation was not found for this actor.'' ConversationNotFound))"

definition assertOrSetConversationOwner :: "tenantExecutionContext \<Rightarrow> string \<Rightarrow> store \<Rightarrow> unit outcome" where
  "assertOrSetConversationOwner ctx conversationKey s =
     (case map_get (conversationOwners s) conversationKey of
        None \<Rightarrow> (Inr (), s\<lparr>conversationOwners :=
            map_set conversationKey \<lparr>owner_userId = userId ctx, owner_actorId = actorId ctx\<rparr>
              (conversationOwners s)\<rparr>)
      | Some owner \<Rightarrow>
          (case assertConversationOwner ctx conversationKey s of
             Some e \<Rightarrow> (Inl e, s)
           | None \<Rightarrow> (Inr (), s)))"

definition scopedRun :: "tenantExecutionContext \<Rightarrow> string \<Rightarrow> store \<Rightarrow> storeError + concurrentRun option" where
  "scopedRun ctx runId s =
     (case assertContext ctx of
        Some e \<Rightarrow> Inl e
      | None \<Rightarrow> Inr (map_get (runs s) (runKey ctx runId)))"

definition requireLeasedRun ::
    "tenantExecutionContext \<Rightarrow> string \<Rightarrow> string \<Rightarrow> store \<Rightarrow> storeError + concurrentRun" where
  "requireLeasedRun ctx runId leaseOwner s =
     (case scopedRun ctx runId s of
        Inl e \<Rightarrow> Inl e
      | Inr None \<Rightarrow> Inl (StoreError ''Run was not found for this tenant.'' RunNotFound)
      | Inr (Some run) \<Rightarrow>
          if run_status run \<noteq> Processing \<or> run_leaseOwner run \<noteq> Some leaseOwner
          then Inl (StoreError ''Run lease is no longer owned by this worker.'' LeaseLost)
          else Inr run)"

definition conversationMessages :: "string \<Rightarrow> store \<Rightarrow> concurrentMessage list" where
  "conversationMessages conversationKey s = get_or [] (map_get (messages s) conversationKey)"

definition setRun :: "string \<Rightarrow> concurrentRun \<Rightarrow> store \<Rightarrow> store" where
  "setRun key run s = s\<lparr>runs := map_set key run (runs s)\<rparr>"

section \<open>Redaction of a run's browser data\<close>

definition isTerminalBrowserAction :: "browserActionState \<Rightarrow> bool" where
  "isTerminalBrowserAction st \<longleftrightarrow>
     st \<in> {ActSucceeded, ActFailed, ActCancelled, ActExpired, ActUnknownOutcome}"

definition redactAction :: "string \<Rightarrow> bool \<Rightarrow> browserActionRecord \<Rightarrow> browserActionRecord" where
  "redactAction runId cancelled a =
     (if act_runId a \<noteq> runId then a
      else
        let a' = a\<lparr>act_result := None\<rparr> in
        if cancelled \<and> act_state a \<in> {ActQueued, ActDelivered, ActReceived, ActExecuting, ActCancelRequested}
        then a'\<lparr>act_state := if act_state a = ActExecuting then ActUnknownOutcome else ActCancelled\<rparr>
        else a')"

definition redactBrowserRun :: "tenantExecutionContext \<Rightarrow> string \<Rightarrow> bool \<Rightarrow> store \<Rightarrow> store" where
  "redactBrowserRun ctx runId cancelled s =
     (let actionIds = map act_actionId (filter (\<lambda>a. act_runId a = runId) (map_values (browserActions s)));
          s1 = s\<lparr>runSteps := map_delete (browserRunStepKey ctx runId) (runSteps s),
                 browserActions := map (\<lambda>(k, a). (k, redactAction runId cancelled a)) (browserActions s)\<rparr>
      in case map_get (browserOutbox s1) (actorScopeKey ctx) of
           None \<Rightarrow> s1
         | Some outbox \<Rightarrow> s1\<lparr>browserOutbox :=
             map_set (actorScopeKey ctx) (filter (\<lambda>r. ob_actionId r \<notin> set actionIds) outbox)
               (browserOutbox s1)\<rparr>)"

section \<open>Lemmas\<close>

lemma actorScopeKey_inj [simp]:
  "actorScopeKey c = actorScopeKey d \<longleftrightarrow>
     organizationId c = organizationId d \<and> assistantId c = assistantId d \<and>
     userId c = userId d \<and> actorId c = actorId d"
  by (auto simp: actorScopeKey_def)

lemma scopedKey_inj [simp]:
  "runKey c x = runKey d y \<longleftrightarrow> actorScopeKey c = actorScopeKey d \<and> x = y"
  "idempotencyScope c x = idempotencyScope d y \<longleftrightarrow> actorScopeKey c = actorScopeKey d \<and> x = y"
  "browserClientKey c x = browserClientKey d y \<longleftrightarrow> actorScopeKey c = actorScopeKey d \<and> x = y"
  "browserConnectionKey c x = browserConnectionKey d y \<longleftrightarrow> actorScopeKey c = actorScopeKey d \<and> x = y"
  "browserGrantKey c x = browserGrantKey d y \<longleftrightarrow> actorScopeKey c = actorScopeKey d \<and> x = y"
  "browserActionKey c x = browserActionKey d y \<longleftrightarrow> actorScopeKey c = actorScopeKey d \<and> x = y"
  "browserRunStepKey c x = browserRunStepKey d y \<longleftrightarrow> actorScopeKey c = actorScopeKey d \<and> x = y"
  "browserToolActionKey c x u = browserToolActionKey d y v \<longleftrightarrow>
     actorScopeKey c = actorScopeKey d \<and> x = y \<and> u = v"
  by (auto simp: runKey_def idempotencyScope_def browserClientKey_def browserConnectionKey_def
      browserGrantKey_def browserActionKey_def browserRunStepKey_def browserToolActionKey_def)

lemma requireLeasedRun_Inr:
  "requireLeasedRun ctx runId lo s = Inr run \<longleftrightarrow>
     assertContext ctx = None \<and> map_get (runs s) (runKey ctx runId) = Some run \<and>
     run_status run = Processing \<and> run_leaseOwner run = Some lo"
  by (auto simp: requireLeasedRun_def scopedRun_def split: option.splits if_splits)

lemma redactBrowserRun_frame [simp]:
  "messages (redactBrowserRun ctx r c s) = messages s"
  "runs (redactBrowserRun ctx r c s) = runs s"
  "runContexts (redactBrowserRun ctx r c s) = runContexts s"
  "idempotency (redactBrowserRun ctx r c s) = idempotency s"
  "events (redactBrowserRun ctx r c s) = events s"
  "nextEventSequence (redactBrowserRun ctx r c s) = nextEventSequence s"
  "conversationOwners (redactBrowserRun ctx r c s) = conversationOwners s"
  "onboardingContexts (redactBrowserRun ctx r c s) = onboardingContexts s"
  "nextTurnSequence (redactBrowserRun ctx r c s) = nextTurnSequence s"
  "browserConnections (redactBrowserRun ctx r c s) = browserConnections s"
  "currentBrowserConnections (redactBrowserRun ctx r c s) = currentBrowserConnections s"
  "browserConnectionGenerations (redactBrowserRun ctx r c s) = browserConnectionGenerations s"
  "browserGrants (redactBrowserRun ctx r c s) = browserGrants s"
  "browserSessions (redactBrowserRun ctx r c s) = browserSessions s"
  "browserToolActions (redactBrowserRun ctx r c s) = browserToolActions s"
  "nextBrowserOutboxSequence (redactBrowserRun ctx r c s) = nextBrowserOutboxSequence s"
  by (simp_all add: redactBrowserRun_def Let_def split: option.split)

lemma redactBrowserRun_actions [simp]:
  "browserActions (redactBrowserRun ctx r c s) =
     map (\<lambda>(k, a). (k, redactAction r c a)) (browserActions s)"
  by (simp add: redactBrowserRun_def Let_def split: option.split)

lemma map_get_redacted [simp]:
  "map_get (map (\<lambda>(k, a). (k, f a)) m) k = map_option f (map_get m k)"
  by (induction m) auto

end
