(* ===== verification/Run_Store.thy ===== *)
theory Run_Store
  imports Runtime_State
begin

text \<open>
  The run and conversation operations of \<open>InMemoryConcurrentRuntimeStore\<close>
  (concurrent-runtime/in-memory-store.ts, lines 632 to 1199). An operation that changes state
  takes the instant \<open>now\<close> it runs at and the identifiers \<open>randomUUID\<close> returns, and gives its
  result or the error it throws together with the state it leaves behind; what was written before
  an exception stays written. Operations that only read return a result alone.
\<close>

record freshIds =
  fresh_conversation :: string
  fresh_message :: string
  fresh_run :: string
  fresh_event :: string

section \<open>Events\<close>

definition tenantEvents :: "string \<Rightarrow> store \<Rightarrow> concurrentEvent list" where
  "tenantEvents tenantKey s = get_or [] (map_get (events s) tenantKey)"

definition appendEventRecord ::
    "tenantExecutionContext \<Rightarrow> string \<Rightarrow> json_object \<Rightarrow> int \<Rightarrow> string \<Rightarrow> store \<Rightarrow> concurrentEvent outcome" where
  "appendEventRecord ctx conversation message now uuid s =
     (case assertConversationOwner ctx (tenantConversationScopeKey ctx conversation) s of
        Some e \<Rightarrow> (Inl e, s)
      | None \<Rightarrow>
          let tenantKey = actorScopeKey ctx;
              nextSequence = get_or 0 (map_get (nextEventSequence s) tenantKey) + 1;
              event = \<lparr>ev_id = uuid, ev_organizationId = organizationId ctx,
                ev_assistantId = assistantId ctx, ev_conversationId = conversation,
                ev_seq = nextSequence, ev_emittedAt = now, ev_message = message\<rparr>
          in (Inr event,
              s\<lparr>nextEventSequence := map_set tenantKey nextSequence (nextEventSequence s),
                events := map_set tenantKey (tenantEvents tenantKey s @ [event]) (events s)\<rparr>))"

definition appendEvent ::
    "tenantExecutionContext \<Rightarrow> string \<Rightarrow> json_object \<Rightarrow> int \<Rightarrow> string \<Rightarrow> store \<Rightarrow> concurrentEvent outcome" where
  "appendEvent ctx conversation message now uuid s =
     (case assertContext ctx of
        Some e \<Rightarrow> (Inl e, s)
      | None \<Rightarrow> appendEventRecord ctx conversation message now uuid s)"

definition listEvents ::
    "tenantExecutionContext \<Rightarrow> int \<Rightarrow> string option \<Rightarrow> nat \<Rightarrow> store \<Rightarrow> storeError + concurrentEvent list" where
  "listEvents ctx afterSeq conversation limit s =
     (case assertContext ctx of
        Some e \<Rightarrow> Inl e
      | None \<Rightarrow>
          Inr (take limit
            (filter (\<lambda>e. int (ev_seq e) > afterSeq \<and>
                (\<not> truthy conversation \<or> Some (ev_conversationId e) = conversation))
              (tenantEvents (actorScopeKey ctx) s))))"

section \<open>Accepting a message\<close>

definition isEchoOf :: "string \<Rightarrow> concurrentEvent \<Rightarrow> bool" where
  "isEchoOf messageId e \<longleftrightarrow>
     map_get (ev_message e) ''type'' = Some (JStr ''user_message_echo'') \<and>
     map_get (ev_message e) ''messageId'' = Some (JStr messageId)"

definition setOnboarding :: "json option \<Rightarrow> string \<Rightarrow> store \<Rightarrow> store" where
  "setOnboarding onboarding conversationKey s =
     (case onboarding of
        None \<Rightarrow> s
      | Some v \<Rightarrow>
          if map_get (onboardingContexts s) conversationKey \<noteq> None then s
          else s\<lparr>onboardingContexts := map_set conversationKey v (onboardingContexts s)\<rparr>)"

definition acceptExisting ::
    "tenantExecutionContext \<Rightarrow> acceptConcurrentMessageInput \<Rightarrow> string \<Rightarrow> store \<Rightarrow> acceptedConcurrentRun outcome" where
  "acceptExisting ctx input existingRunId s =
     (case map_get (runs s) (runKey ctx existingRunId) of
        None \<Rightarrow> (Inl (StoreError ''Idempotency record references a missing run.'' InvalidState), s)
      | Some existingRun \<Rightarrow>
          let key = tenantConversationScopeKey ctx (run_conversationId existingRun);
              s1 = setOnboarding (in_onboardingContext input) key s
          in case find (\<lambda>m. msg_id m = run_userMessageId existingRun) (conversationMessages key s1) of
               None \<Rightarrow> (Inl (StoreError ''Accepted run references a missing user message.'' InvalidState), s1)
             | Some userMessage \<Rightarrow>
                 (case find (isEchoOf (msg_id userMessage)) (tenantEvents (actorScopeKey ctx) s1) of
                    None \<Rightarrow> (Inl (StoreError ''Accepted run references a missing user-message event.''
                        InvalidState), s1)
                  | Some existingEvent \<Rightarrow>
                      (Inr \<lparr>acc_created = False, acc_conversationId = run_conversationId existingRun,
                        acc_userMessage = userMessage, acc_run = existingRun,
                        acc_event = existingEvent\<rparr>, s1)))"

definition newUserMessage ::
    "tenantExecutionContext \<Rightarrow> acceptConcurrentMessageInput \<Rightarrow> string \<Rightarrow> int \<Rightarrow> string \<Rightarrow> concurrentMessage" where
  "newUserMessage ctx input conversation now uuid =
     \<lparr>msg_id = uuid, msg_organizationId = organizationId ctx, msg_assistantId = assistantId ctx,
      msg_conversationId = conversation, msg_role = UserRole, msg_content = in_content input,
      msg_clientMessageId =
        (if truthy (in_clientMessageId input) then in_clientMessageId input else None),
      msg_createdAt = now\<rparr>"

definition newRun ::
    "tenantExecutionContext \<Rightarrow> string \<Rightarrow> string \<Rightarrow> string \<Rightarrow> nat \<Rightarrow> int \<Rightarrow> string \<Rightarrow> concurrentRun" where
  "newRun ctx conversation key messageId turnSequence now uuid =
     \<lparr>run_id = uuid, run_organizationId = organizationId ctx, run_assistantId = assistantId ctx,
      run_conversationId = conversation, run_requestId = requestId ctx, run_idempotencyKey = key,
      run_userMessageId = messageId, run_turnSequence = turnSequence,
      run_assistantMessageId = None, run_status = Queued, run_errorCode = None,
      run_errorMessage = None, run_leaseOwner = None, run_leaseExpiresAt = None,
      run_createdAt = now, run_updatedAt = now\<rparr>"

definition echoMessage :: "concurrentMessage \<Rightarrow> string \<Rightarrow> string \<Rightarrow> json_object" where
  "echoMessage userMessage conversation request =
     [(''type'', JStr ''user_message_echo''), (''text'', JStr (msg_content userMessage)),
      (''conversationId'', JStr conversation), (''messageId'', JStr (msg_id userMessage)),
      (''requestId'', JStr request)] @
     (case msg_clientMessageId userMessage of
        Some c \<Rightarrow> if c \<noteq> [] then [(''clientMessageId'', JStr c)] else []
      | None \<Rightarrow> [])"

definition acceptNew ::
    "tenantExecutionContext \<Rightarrow> acceptConcurrentMessageInput \<Rightarrow> string \<Rightarrow> string \<Rightarrow> int \<Rightarrow> freshIds \<Rightarrow> store
     \<Rightarrow> acceptedConcurrentRun outcome" where
  "acceptNew ctx input key conversation now ids s =
     (let conversationKey = tenantConversationScopeKey ctx conversation;
          s1 = setOnboarding (in_onboardingContext input) conversationKey s;
          turnSequence = get_or 0 (map_get (nextTurnSequence s1) conversationKey);
          userMessage = newUserMessage ctx input conversation now (fresh_message ids);
          run = newRun ctx conversation key (msg_id userMessage) turnSequence now (fresh_run ids);
          s2 = s1\<lparr>nextTurnSequence := map_set conversationKey (turnSequence + 1) (nextTurnSequence s1),
            messages := map_set conversationKey (conversationMessages conversationKey s1 @ [userMessage])
              (messages s1),
            runs := map_set (runKey ctx (run_id run)) run (runs s1),
            runContexts := map_set (runKey ctx (run_id run))
              (ctx\<lparr>conversationId := Some conversation, idempotencyKey := Some key\<rparr>) (runContexts s1),
            idempotency := map_set (idempotencyScope ctx key) (run_id run) (idempotency s1)\<rparr>
      in case appendEventRecord ctx conversation (echoMessage userMessage conversation (run_requestId run))
                now (fresh_event ids) s2 of
           (Inl e, s3) \<Rightarrow> (Inl e, s3)
         | (Inr event, s3) \<Rightarrow>
             (Inr \<lparr>acc_created = True, acc_conversationId = conversation, acc_userMessage = userMessage,
               acc_run = run, acc_event = event\<rparr>, s3))"

definition acceptKey :: "tenantExecutionContext \<Rightarrow> acceptConcurrentMessageInput \<Rightarrow> string" where
  "acceptKey ctx input =
     get_or (requestId ctx) (coalesce (idempotencyKey ctx) (in_clientMessageId input))"

definition acceptConversation :: "tenantExecutionContext \<Rightarrow> acceptConcurrentMessageInput \<Rightarrow> freshIds \<Rightarrow> string" where
  "acceptConversation ctx input ids =
     get_or (fresh_conversation ids) (coalesce (in_conversationId input) (conversationId ctx))"

definition acceptMessage ::
    "tenantExecutionContext \<Rightarrow> acceptConcurrentMessageInput \<Rightarrow> int \<Rightarrow> freshIds \<Rightarrow> store
     \<Rightarrow> acceptedConcurrentRun outcome" where
  "acceptMessage ctx input now ids s =
     (case assertContext ctx of
        Some e \<Rightarrow> (Inl e, s)
      | None \<Rightarrow>
          let key = acceptKey ctx input;
              existing = map_get (idempotency s) (idempotencyScope ctx key)
          in if truthy existing then acceptExisting ctx input (the existing) s
             else
               let conversation = acceptConversation ctx input ids
               in if truthy (conversationId ctx) \<and> truthy (in_conversationId input) \<and>
                     conversationId ctx \<noteq> in_conversationId input
                  then (Inl (StoreError ''Conversation identity does not match the execution context.''
                         TenantMismatch), s)
                  else
                    (case assertOrSetConversationOwner ctx
                            (tenantConversationScopeKey ctx conversation) s of
                       (Inl e, s1) \<Rightarrow> (Inl e, s1)
                     | (Inr u, s1) \<Rightarrow> acceptNew ctx input key conversation now ids s1))"

section \<open>The run life cycle\<close>

definition listRunSteps :: "tenantExecutionContext \<Rightarrow> string \<Rightarrow> store \<Rightarrow> storeError + concurrentRunStep list" where
  "listRunSteps ctx runId s =
     (case assertContext ctx of
        Some e \<Rightarrow> Inl e
      | None \<Rightarrow> Inr (get_or [] (map_get (runSteps s) (browserRunStepKey ctx runId))))"

definition sameConversation :: "string \<Rightarrow> string \<Rightarrow> string \<Rightarrow> concurrentRun \<Rightarrow> bool" where
  "sameConversation org assistant conversation r \<longleftrightarrow>
     run_organizationId r = org \<and> run_assistantId r = assistant \<and> run_conversationId r = conversation"

definition claimable :: "int \<Rightarrow> concurrentRun \<Rightarrow> bool" where
  "claimable now run \<longleftrightarrow>
     run_status run = Queued \<or>
     run_status run = Processing \<and>
       (case run_leaseExpiresAt run of None \<Rightarrow> False | Some t \<Rightarrow> t \<le> now)"

definition earlierNonterminal :: "concurrentRun \<Rightarrow> store \<Rightarrow> bool" where
  "earlierNonterminal run s \<longleftrightarrow>
     list_ex (\<lambda>candidate.
         sameConversation (run_organizationId run) (run_assistantId run) (run_conversationId run) candidate \<and>
         run_turnSequence candidate < run_turnSequence run \<and> isNonterminal candidate)
       (map_values (runs s))"

definition claimRun ::
    "tenantExecutionContext \<Rightarrow> string \<Rightarrow> string \<Rightarrow> int \<Rightarrow> int \<Rightarrow> store \<Rightarrow> claimedConcurrentRun option outcome" where
  "claimRun ctx runId leaseOwner leaseExpiresAt now s =
     (case assertContext ctx of
        Some e \<Rightarrow> (Inl e, s)
      | None \<Rightarrow>
     (case map_get (runs s) (runKey ctx runId) of
        None \<Rightarrow> (Inr None, s)
      | Some run \<Rightarrow>
          let conversationKey = tenantConversationScopeKey ctx (run_conversationId run) in
     (case assertConversationOwner ctx conversationKey s of
        Some e \<Rightarrow> (Inl e, s)
      | None \<Rightarrow>
          if \<not> claimable now run then (Inr None, s)
          else if earlierNonterminal run s then (Inr None, s)
          else
            let run' = run\<lparr>run_status := Processing, run_leaseOwner := Some leaseOwner,
                  run_leaseExpiresAt := Some leaseExpiresAt, run_updatedAt := now\<rparr>;
                s' = setRun (runKey ctx runId) run' s
            in case map_get (runContexts s') (runKey ctx runId) of
                 None \<Rightarrow> (Inl (StoreError ''Run execution context is missing.'' InvalidState), s')
               | Some storedContext \<Rightarrow>
                   let history = conversationMessages conversationKey s' in
                   (case findIndex (\<lambda>m. msg_id m = run_userMessageId run') history of
                      None \<Rightarrow> (Inl (StoreError ''Run user message is missing from conversation history.''
                          InvalidState), s')
                    | Some userMessageIndex \<Rightarrow>
                        (case listRunSteps ctx runId s' of
                           Inl e \<Rightarrow> (Inl e, s')
                         | Inr steps \<Rightarrow>
                             (Inr (Some \<lparr>claimed_context = storedContext, claimed_run = run',
                                claimed_messages = take (userMessageIndex + 1) history,
                                claimed_steps = steps,
                                claimed_onboardingContext =
                                  map_get (onboardingContexts s') conversationKey\<rparr>), s'))))))"

definition renewRunLease ::
    "tenantExecutionContext \<Rightarrow> string \<Rightarrow> string \<Rightarrow> int \<Rightarrow> int \<Rightarrow> store \<Rightarrow> bool outcome" where
  "renewRunLease ctx runId leaseOwner leaseExpiresAt now s =
     (case scopedRun ctx runId s of
        Inl e \<Rightarrow> (Inl e, s)
      | Inr None \<Rightarrow> (Inr False, s)
      | Inr (Some run) \<Rightarrow>
          if run_status run \<noteq> Processing \<or> run_leaseOwner run \<noteq> Some leaseOwner then (Inr False, s)
          else (Inr True, setRun (runKey ctx runId)
            (run\<lparr>run_leaseExpiresAt := Some leaseExpiresAt, run_updatedAt := now\<rparr>) s))"

definition insertAt :: "nat \<Rightarrow> 'a \<Rightarrow> 'a list \<Rightarrow> 'a list" where
  "insertAt i x xs = take i xs @ x # drop i xs"
  \<comment> \<open>\<open>splice(i, 0, x)\<close>\<close>

definition releasedRun :: "concurrentRunStatus \<Rightarrow> int \<Rightarrow> concurrentRun \<Rightarrow> concurrentRun" where
  "releasedRun status now run =
     run\<lparr>run_status := status, run_leaseOwner := None, run_leaseExpiresAt := None, run_updatedAt := now\<rparr>"

definition completeRun ::
    "tenantExecutionContext \<Rightarrow> string \<Rightarrow> completeConcurrentRunInput \<Rightarrow> int \<Rightarrow> store \<Rightarrow> concurrentMessage outcome" where
  "completeRun ctx runId input now s =
     (case requireLeasedRun ctx runId (cin_leaseOwner input) s of
        Inl e \<Rightarrow> (Inl e, s)
      | Inr run \<Rightarrow>
          let assistantMessage = \<lparr>msg_id = cin_assistantMessageId input,
                msg_organizationId = organizationId ctx, msg_assistantId = assistantId ctx,
                msg_conversationId = run_conversationId run, msg_role = AssistantRole,
                msg_content = cin_content input, msg_clientMessageId = None, msg_createdAt = now\<rparr>;
              conversationKey = tenantConversationScopeKey ctx (run_conversationId run);
              history = conversationMessages conversationKey s
          in case findIndex (\<lambda>m. msg_id m = run_userMessageId run) history of
               None \<Rightarrow> (Inl (StoreError ''Run user message is missing from conversation history.''
                   InvalidState), s)
             | Some userMessageIndex \<Rightarrow>
                 (Inr assistantMessage,
                  redactBrowserRun ctx runId False
                    (setRun (runKey ctx runId)
                       ((releasedRun Completed now run)\<lparr>run_assistantMessageId := Some (msg_id assistantMessage)\<rparr>)
                       (s\<lparr>messages := map_set conversationKey
                           (insertAt (userMessageIndex + 1) assistantMessage history) (messages s)\<rparr>))))"

definition failRun ::
    "tenantExecutionContext \<Rightarrow> string \<Rightarrow> failConcurrentRunInput \<Rightarrow> int \<Rightarrow> store \<Rightarrow> bool outcome" where
  "failRun ctx runId input now s =
     (case scopedRun ctx runId s of
        Inl e \<Rightarrow> (Inl e, s)
      | Inr None \<Rightarrow> (Inr False, s)
      | Inr (Some run) \<Rightarrow>
          if run_status run \<noteq> Processing \<or> run_leaseOwner run \<noteq> Some (fin_leaseOwner input)
          then (Inr False, s)
          else (Inr True, redactBrowserRun ctx runId False
            (setRun (runKey ctx runId)
              ((releasedRun Failed now run)\<lparr>run_errorCode := Some (fin_errorCode input),
                 run_errorMessage := Some (fin_errorMessage input)\<rparr>) s)))"

definition cancelRun :: "tenantExecutionContext \<Rightarrow> string \<Rightarrow> int \<Rightarrow> store \<Rightarrow> bool outcome" where
  "cancelRun ctx runId now s =
     (case scopedRun ctx runId s of
        Inl e \<Rightarrow> (Inl e, s)
      | Inr None \<Rightarrow> (Inr False, s)
      | Inr (Some run) \<Rightarrow>
          if \<not> isNonterminal run then (Inr False, s)
          else (Inr True, redactBrowserRun ctx runId True
            (setRun (runKey ctx runId) (releasedRun Cancelled now run) s)))"

fun cancelLoop ::
    "tenantExecutionContext \<Rightarrow> string \<Rightarrow> int \<Rightarrow> (string \<times> concurrentRun) list \<Rightarrow> store
     \<Rightarrow> concurrentRun list \<times> store" where
  "cancelLoop ctx conversation now [] s = ([], s)"
| "cancelLoop ctx conversation now ((key, run) # rest) s =
     (if \<not> sameConversation (organizationId ctx) (assistantId ctx) conversation run \<or> \<not> isNonterminal run
      then cancelLoop ctx conversation now rest s
      else
        let run' = releasedRun Cancelled now run;
            (cancelled, s') = cancelLoop ctx conversation now rest
              (redactBrowserRun ctx (run_id run) True (setRun key run' s))
        in (run' # cancelled, s'))"

definition cancelConversationRuns ::
    "tenantExecutionContext \<Rightarrow> string \<Rightarrow> int \<Rightarrow> store \<Rightarrow> concurrentRun list outcome" where
  "cancelConversationRuns ctx conversation now s =
     (case assertContext ctx of
        Some e \<Rightarrow> (Inl e, s)
      | None \<Rightarrow>
     (case assertConversationOwner ctx (tenantConversationScopeKey ctx conversation) s of
        Some e \<Rightarrow> (Inl e, s)
      | None \<Rightarrow>
          let (cancelled, s') = cancelLoop ctx conversation now (runs s) s in (Inr cancelled, s')))"

section \<open>Reading\<close>

definition getRun :: "tenantExecutionContext \<Rightarrow> string \<Rightarrow> store \<Rightarrow> storeError + concurrentRun option" where
  "getRun ctx runId s = scopedRun ctx runId s"

definition getNextQueuedRun ::
    "tenantExecutionContext \<Rightarrow> string \<Rightarrow> store \<Rightarrow> storeError + concurrentRun option" where
  "getNextQueuedRun ctx conversation s =
     (case assertConversationOwner ctx (tenantConversationScopeKey ctx conversation) s of
        Some e \<Rightarrow> Inl e
      | None \<Rightarrow>
          Inr (case sort_key run_turnSequence
                 (filter (\<lambda>r. sameConversation (organizationId ctx) (assistantId ctx) conversation r \<and>
                    run_status r = Queued) (map_values (runs s))) of
                 [] \<Rightarrow> None
               | r # rest \<Rightarrow> Some r))"

definition listMessages ::
    "tenantExecutionContext \<Rightarrow> string \<Rightarrow> store \<Rightarrow> storeError + concurrentMessage list" where
  "listMessages ctx conversation s =
     (case assertContext ctx of
        Some e \<Rightarrow> Inl e
      | None \<Rightarrow>
     (case assertConversationOwner ctx (tenantConversationScopeKey ctx conversation) s of
        Some e \<Rightarrow> Inl e
      | None \<Rightarrow> Inr (conversationMessages (tenantConversationScopeKey ctx conversation) s)))"

fun collapseSpaces :: "string \<Rightarrow> string" where
  "collapseSpaces [] = []"
| "collapseSpaces (c # cs) =
     (if isSpace c
      then (case cs of [] \<Rightarrow> '' '' | d # ds \<Rightarrow> if isSpace d then collapseSpaces cs else CHR '' '' # collapseSpaces cs)
      else c # collapseSpaces cs)"
  \<comment> \<open>\<open>replace(/\\s+/g, " ")\<close>\<close>

definition conversationTitle :: "concurrentMessage list \<Rightarrow> string" where
  "conversationTitle ms =
     (let normalizedTitle =
            (case find (\<lambda>m. msg_role m = UserRole) ms of
               None \<Rightarrow> []
             | Some m \<Rightarrow> trim (collapseSpaces (msg_content m)));
          title = take 80 normalizedTitle
      in if title = [] then ''New conversation'' else title)"

definition conversationBusy :: "tenantExecutionContext \<Rightarrow> string \<Rightarrow> store \<Rightarrow> bool" where
  "conversationBusy ctx conversation s \<longleftrightarrow>
     list_ex (\<lambda>r. sameConversation (organizationId ctx) (assistantId ctx) conversation r \<and> isNonterminal r)
       (map_values (runs s))"

definition conversationSummary ::
    "tenantExecutionContext \<Rightarrow> concurrentMessage list \<Rightarrow> store \<Rightarrow> concurrentConversation" where
  "conversationSummary ctx ms s =
     (let first = hd ms; final = last ms in
      \<lparr>conv_id = msg_conversationId first, conv_organizationId = organizationId ctx,
       conv_assistantId = assistantId ctx, conv_ownerUserId = Some (userId ctx),
       conv_ownerActorId = Some (actorId ctx), conv_title = conversationTitle ms,
       conv_createdAt = msg_createdAt first, conv_updatedAt = msg_createdAt final,
       conv_lastMessageAt = Some (msg_createdAt final),
       conv_isProcessing = conversationBusy ctx (msg_conversationId first) s\<rparr>)"

definition listedConversation :: "tenantExecutionContext \<Rightarrow> store \<Rightarrow> concurrentMessage list \<Rightarrow> bool" where
  "listedConversation ctx s ms \<longleftrightarrow>
     (case ms of
        [] \<Rightarrow> False
      | first # rest \<Rightarrow>
          msg_organizationId first = organizationId ctx \<and> msg_assistantId first = assistantId ctx \<and>
          isConversationOwnedBy ctx (tenantConversationScopeKey ctx (msg_conversationId first)) s)"

definition listConversations ::
    "tenantExecutionContext \<Rightarrow> nat \<Rightarrow> nat \<Rightarrow> store \<Rightarrow> storeError + concurrentConversation list" where
  "listConversations ctx limit offset s =
     (case assertContext ctx of
        Some e \<Rightarrow> Inl e
      | None \<Rightarrow>
          Inr (take limit (drop offset
            (sort_key (\<lambda>c. - get_or (conv_updatedAt c) (conv_lastMessageAt c))
              (map (\<lambda>ms. conversationSummary ctx ms s)
                (filter (listedConversation ctx s) (map_values (messages s))))))))"

definition getConversation ::
    "tenantExecutionContext \<Rightarrow> string \<Rightarrow> store \<Rightarrow> storeError + concurrentConversation option" where
  "getConversation ctx conversation s =
     (case assertContext ctx of
        Some e \<Rightarrow> Inl e
      | None \<Rightarrow>
     (case assertConversationOwner ctx (tenantConversationScopeKey ctx conversation) s of
        Some e \<Rightarrow> Inl e
      | None \<Rightarrow>
          Inr (case map_get (messages s) (tenantConversationScopeKey ctx conversation) of
                 None \<Rightarrow> None
               | Some ms \<Rightarrow> if ms = [] then None else Some (conversationSummary ctx ms s))))"

definition hasActiveRun :: "tenantExecutionContext \<Rightarrow> string \<Rightarrow> store \<Rightarrow> storeError + bool" where
  "hasActiveRun ctx conversation s =
     (case assertContext ctx of
        Some e \<Rightarrow> Inl e
      | None \<Rightarrow> Inr (conversationBusy ctx conversation s))"

end
