(* ===== verification/Store_Machine.thy ===== *)
theory Store_Machine
  imports Browser_Store
begin

text \<open>
  The abstract run machine and the refinement of the store's operations to it. The part of the
  store that runs, transcripts and event logs live in is its \<open>core\<close>; \<open>coreStep\<close> is the step
  relation the store promises on it: a run moves along the edges of its life cycle, a message is
  accepted, an event is appended. Every operation of the store is a sequence of such steps.
\<close>

section \<open>Operations as steps\<close>

datatype storeOp =
    OpAccept tenantExecutionContext acceptConcurrentMessageInput int freshIds
  | OpClaim tenantExecutionContext string string int int
  | OpRenew tenantExecutionContext string string int int
  | OpComplete tenantExecutionContext string completeConcurrentRunInput int
  | OpFail tenantExecutionContext string failConcurrentRunInput int
  | OpCancel tenantExecutionContext string int
  | OpCancelConversation tenantExecutionContext string int
  | OpAppendEvent tenantExecutionContext string json_object int string
  | OpConnect tenantExecutionContext connectBrowserClientInput int
  | OpHeartbeat tenantExecutionContext connectionCredential int int
  | OpSetGrant tenantExecutionContext string string bool int
  | OpEnqueue tenantExecutionContext enqueueBrowserActionInput int string
  | OpListBrowserEvents tenantExecutionContext connectionCredential int nat int
  | OpReceipt tenantExecutionContext recordBrowserReceiptInput
  | OpResult tenantExecutionContext browserBrokerResultRequest string int

fun storeStep :: "storeOp \<Rightarrow> store \<Rightarrow> store" where
  "storeStep (OpAccept ctx input now ids) s = snd (acceptMessage ctx input now ids s)"
| "storeStep (OpClaim ctx runId lo exp now) s = snd (claimRun ctx runId lo exp now s)"
| "storeStep (OpRenew ctx runId lo exp now) s = snd (renewRunLease ctx runId lo exp now s)"
| "storeStep (OpComplete ctx runId input now) s = snd (completeRun ctx runId input now s)"
| "storeStep (OpFail ctx runId input now) s = snd (failRun ctx runId input now s)"
| "storeStep (OpCancel ctx runId now) s = snd (cancelRun ctx runId now s)"
| "storeStep (OpCancelConversation ctx conversation now) s = snd (cancelConversationRuns ctx conversation now s)"
| "storeStep (OpAppendEvent ctx conversation msg now uuid) s = snd (appendEvent ctx conversation msg now uuid s)"
| "storeStep (OpConnect ctx input now) s = snd (connectBrowserClient ctx input now s)"
| "storeStep (OpHeartbeat ctx cred exp now) s = snd (heartbeatBrowserConnection ctx cred exp now s)"
| "storeStep (OpSetGrant ctx conversation client enabled now) s =
     snd (setBrowserAccessGrant ctx conversation client enabled now s)"
| "storeStep (OpEnqueue ctx input now uuid) s = snd (enqueueBrowserAction ctx input now uuid s)"
| "storeStep (OpListBrowserEvents ctx cred afterSeq limit now) s =
     snd (listBrowserEvents ctx cred afterSeq limit now s)"
| "storeStep (OpReceipt ctx input) s = snd (recordBrowserReceipt ctx input s)"
| "storeStep (OpResult ctx result token now) s = snd (recordBrowserResult ctx result token now s)"

text \<open>
  What the environment promises: an identifier that \<open>randomUUID\<close> returns is not empty and is not
  in use. Every other argument is arbitrary.
\<close>

definition messageIdUsed :: "string \<Rightarrow> store \<Rightarrow> bool" where
  "messageIdUsed i s \<longleftrightarrow> list_ex (\<lambda>ms. i \<in> set (map msg_id ms)) (map_values (messages s))"

definition echoUsed :: "string \<Rightarrow> store \<Rightarrow> bool" where
  "echoUsed i s \<longleftrightarrow> list_ex (list_ex (isEchoOf i)) (map_values (events s))"

definition runIdUsed :: "string \<Rightarrow> store \<Rightarrow> bool" where
  "runIdUsed i s \<longleftrightarrow> list_ex (\<lambda>r. run_id r = i) (map_values (runs s))"

fun freshOp :: "storeOp \<Rightarrow> store \<Rightarrow> bool" where
  "freshOp (OpAccept ctx input now ids) s \<longleftrightarrow>
     fresh_run ids \<noteq> [] \<and> \<not> runIdUsed (fresh_run ids) s \<and>
     \<not> messageIdUsed (fresh_message ids) s \<and> \<not> echoUsed (fresh_message ids) s"
| "freshOp (OpComplete ctx runId input now) s \<longleftrightarrow> \<not> messageIdUsed (cin_assistantMessageId input) s"
| "freshOp (OpEnqueue ctx input now uuid) s \<longleftrightarrow>
     enq_actionId input \<noteq> [] \<and> enq_actionId input \<notin> set (map act_actionId (map_values (browserActions s)))"
| "freshOp (OpConnect ctx input now) s \<longleftrightarrow>
     con_newConnectionId input \<notin> set (map (\<lambda>c. bc_connectionId (sconn c)) (map_values (browserConnections s)))"
| "freshOp _ s \<longleftrightarrow> True"

section \<open>The life cycle of a run\<close>

inductive runTransition :: "concurrentRunStatus \<Rightarrow> concurrentRunStatus \<Rightarrow> bool" where
  claim: "runTransition Queued Processing"
| reclaim_or_renew: "runTransition Processing Processing"
| park: "runTransition Processing WaitingForBrowser"
| resume: "runTransition WaitingForBrowser Queued"
| complete: "runTransition Processing Completed"
| fail: "runTransition Processing Failed"
| cancel: "st \<in> {Queued, Processing, WaitingForBrowser} \<Longrightarrow> runTransition st Cancelled"

code_pred runTransition .

inductive_simps runTransition_from [simp]:
  "runTransition Completed st" "runTransition Failed st" "runTransition Cancelled st"

definition sameTurn :: "concurrentRun \<Rightarrow> concurrentRun \<Rightarrow> bool" where
  "sameTurn r r' \<longleftrightarrow>
     run_id r' = run_id r \<and> run_organizationId r' = run_organizationId r \<and>
     run_assistantId r' = run_assistantId r \<and> run_conversationId r' = run_conversationId r \<and>
     run_requestId r' = run_requestId r \<and> run_idempotencyKey r' = run_idempotencyKey r \<and>
     run_userMessageId r' = run_userMessageId r \<and> run_turnSequence r' = run_turnSequence r \<and>
     run_createdAt r' = run_createdAt r"

definition leaseOk :: "concurrentRun \<Rightarrow> bool" where
  "leaseOk r \<longleftrightarrow>
     (run_status r = Processing \<longleftrightarrow> run_leaseOwner r \<noteq> None) \<and>
     (run_status r = Processing \<longleftrightarrow> run_leaseExpiresAt r \<noteq> None)"

section \<open>The abstract machine\<close>

definition core where
  "core s = (messages s, runs s, runContexts s, idempotency s, events s, nextEventSequence s,
     conversationOwners s, nextTurnSequence s)"

definition pushEvent :: "string \<Rightarrow> concurrentEvent \<Rightarrow> store \<Rightarrow> store" where
  "pushEvent tenantKey e s = s\<lparr>nextEventSequence := map_set tenantKey (ev_seq e) (nextEventSequence s),
     events := map_set tenantKey (tenantEvents tenantKey s @ [e]) (events s)\<rparr>"

definition nextSeq :: "string \<Rightarrow> store \<Rightarrow> nat" where
  "nextSeq tenantKey s = get_or 0 (map_get (nextEventSequence s) tenantKey) + 1"

definition acceptUpdate ::
    "tenantExecutionContext \<Rightarrow> concurrentMessage \<Rightarrow> concurrentRun \<Rightarrow> store \<Rightarrow> store" where
  "acceptUpdate ctx m r s =
     (let conversationKey = tenantConversationScopeKey ctx (run_conversationId r) in
      s\<lparr>conversationOwners := map_set conversationKey
          \<lparr>owner_userId = userId ctx, owner_actorId = actorId ctx\<rparr> (conversationOwners s),
        nextTurnSequence := map_set conversationKey (run_turnSequence r + 1) (nextTurnSequence s),
        messages := map_set conversationKey (conversationMessages conversationKey s @ [m]) (messages s),
        runs := map_set (runKey ctx (run_id r)) r (runs s),
        runContexts := map_set (runKey ctx (run_id r))
          (ctx\<lparr>conversationId := Some (run_conversationId r), idempotencyKey := Some (run_idempotencyKey r)\<rparr>)
          (runContexts s),
        idempotency := map_set (idempotencyScope ctx (run_idempotencyKey r)) (run_id r) (idempotency s)\<rparr>)"

definition newTurn :: "tenantExecutionContext \<Rightarrow> concurrentMessage \<Rightarrow> concurrentRun \<Rightarrow> store \<Rightarrow> bool" where
  "newTurn ctx m r s \<longleftrightarrow>
     run_id r \<noteq> [] \<and> \<not> runIdUsed (run_id r) s \<and> \<not> messageIdUsed (msg_id m) s \<and> \<not> echoUsed (msg_id m) s \<and>
     isConversationOwnedBy ctx (tenantConversationScopeKey ctx (run_conversationId r)) s \<and>
     \<not> truthy (map_get (idempotency s) (idempotencyScope ctx (run_idempotencyKey r))) \<and>
     run_organizationId r = organizationId ctx \<and> run_assistantId r = assistantId ctx \<and>
     run_userMessageId r = msg_id m \<and> run_status r = Queued \<and> run_assistantMessageId r = None \<and>
     leaseOk r \<and>
     run_turnSequence r =
       get_or 0 (map_get (nextTurnSequence s) (tenantConversationScopeKey ctx (run_conversationId r))) \<and>
     msg_role m = UserRole \<and> msg_organizationId m = organizationId ctx \<and>
     msg_assistantId m = assistantId ctx \<and> msg_conversationId m = run_conversationId r"

inductive coreStep :: "tenantExecutionContext \<Rightarrow> store \<Rightarrow> store \<Rightarrow> bool" for ctx where
  idle: "core s' = core s \<Longrightarrow> coreStep ctx s s'"
| move: "map_get (runs s) (runKey ctx runId) = Some r \<Longrightarrow>
    sameTurn r r' \<Longrightarrow> run_assistantMessageId r' = run_assistantMessageId r \<Longrightarrow>
    runTransition (run_status r) (run_status r') \<Longrightarrow> run_status r' \<noteq> Completed \<Longrightarrow> leaseOk r' \<Longrightarrow>
    (inFlight r' \<Longrightarrow> inFlight r \<or> \<not> earlierNonterminal r s) \<Longrightarrow>
    core s' = core (setRun (runKey ctx runId) r' s) \<Longrightarrow> coreStep ctx s s'"
| finish: "map_get (runs s) (runKey ctx runId) = Some r \<Longrightarrow> run_status r = Processing \<Longrightarrow>
    sameTurn r r' \<Longrightarrow> run_assistantMessageId r' = Some (msg_id m) \<Longrightarrow> run_status r' = Completed \<Longrightarrow>
    leaseOk r' \<Longrightarrow> \<not> messageIdUsed (msg_id m) s \<Longrightarrow>
    msg_organizationId m = organizationId ctx \<Longrightarrow> msg_assistantId m = assistantId ctx \<Longrightarrow>
    msg_conversationId m = run_conversationId r \<Longrightarrow> msg_role m = AssistantRole \<Longrightarrow>
    conversationKey = tenantConversationScopeKey ctx (run_conversationId r) \<Longrightarrow>
    findIndex (\<lambda>x. msg_id x = run_userMessageId r) (conversationMessages conversationKey s) = Some i \<Longrightarrow>
    core s' = core (setRun (runKey ctx runId) r' (s\<lparr>messages := map_set conversationKey
      (insertAt (i + 1) m (conversationMessages conversationKey s)) (messages s)\<rparr>)) \<Longrightarrow>
    coreStep ctx s s'"
| accept: "newTurn ctx m r s \<Longrightarrow> isEchoOf (msg_id m) e \<Longrightarrow>
    ev_seq e = nextSeq (actorScopeKey ctx) s \<Longrightarrow>
    core s' = core (pushEvent (actorScopeKey ctx) e (acceptUpdate ctx m r s)) \<Longrightarrow> coreStep ctx s s'"
| append: "ev_seq e = nextSeq (actorScopeKey ctx) s \<Longrightarrow>
    core s' = core (pushEvent (actorScopeKey ctx) e s) \<Longrightarrow> coreStep ctx s s'"

end
