(* ===== verification/Store_Invariant.thy ===== *)
theory Store_Invariant
  imports Store_Machine
begin

text \<open>
  The invariant of the store's core and the proof that every step of the abstract machine keeps
  it. Its parts: every run is filed under its actor's key with its execution context and its
  conversation's owner (\<open>runsFiled\<close>); the runs of a conversation are numbered 0, 1, 2, ... in the
  order they were accepted (\<open>turnsNumbered\<close>); a run in flight has only finished runs before it
  (\<open>singleFlight\<close>); a transcript is its turns in order, each user message followed by the reply
  of its run when there is one (\<open>transcriptsOk\<close>); event logs are numbered without gaps
  (\<open>eventsNumbered\<close>); idempotency records lead to a run, its message and its event (\<open>linksOk\<close>).
\<close>

section \<open>The invariant\<close>

definition convKey :: "string \<Rightarrow> string \<Rightarrow> string \<Rightarrow> string" where
  "convKey org assistant conversation = json_stringify [org, assistant, conversation]"

lemma tenantConversationScopeKey_convKey:
  "tenantConversationScopeKey ctx c = convKey (organizationId ctx) (assistantId ctx) c"
  by (simp add: convKey_def tenantConversationScopeKey_def)

lemma convKey_inj [simp]: "convKey a b c = convKey a' b' c' \<longleftrightarrow> a = a' \<and> b = b' \<and> c = c'"
  by (simp add: convKey_def)

definition runConvKey :: "concurrentRun \<Rightarrow> string" where
  "runConvKey r = convKey (run_organizationId r) (run_assistantId r) (run_conversationId r)"

definition convRuns :: "string \<Rightarrow> store \<Rightarrow> concurrentRun list" where
  "convRuns K s = filter (\<lambda>r. runConvKey r = K) (map_values (runs s))"

definition turnIds :: "concurrentRun \<Rightarrow> string list" where
  "turnIds r = run_userMessageId r # (case run_assistantMessageId r of None \<Rightarrow> [] | Some a \<Rightarrow> [a])"

definition filedUnder :: "string \<Rightarrow> concurrentRun \<Rightarrow> store \<Rightarrow> bool" where
  "filedUnder key r s \<longleftrightarrow>
     (case map_get (runContexts s) key of
        None \<Rightarrow> False
      | Some ctx \<Rightarrow>
          key = runKey ctx (run_id r) \<and> run_id r \<noteq> [] \<and>
          run_organizationId r = organizationId ctx \<and> run_assistantId r = assistantId ctx \<and>
          conversationId ctx = Some (run_conversationId r) \<and>
          idempotencyKey ctx = Some (run_idempotencyKey r) \<and>
          map_get (conversationOwners s) (runConvKey r) =
            Some \<lparr>owner_userId = userId ctx, owner_actorId = actorId ctx\<rparr> \<and>
          map_get (idempotency s) (idempotencyScope ctx (run_idempotencyKey r)) = Some (run_id r) \<and>
          find (isEchoOf (run_userMessageId r)) (tenantEvents (actorScopeKey ctx) s) \<noteq> None)"

definition runOk :: "concurrentRun \<Rightarrow> bool" where
  "runOk r \<longleftrightarrow> leaseOk r \<and> (run_status r = Completed \<longleftrightarrow> run_assistantMessageId r \<noteq> None)"

definition runsFiled :: "store \<Rightarrow> bool" where
  "runsFiled s \<longleftrightarrow> distinct (map fst (runs s)) \<and>
     (\<forall>key r. map_get (runs s) key = Some r \<longrightarrow> filedUnder key r s \<and> runOk r)"

definition turnsNumbered :: "store \<Rightarrow> bool" where
  "turnsNumbered s \<longleftrightarrow>
     (\<forall>K. map run_turnSequence (convRuns K s) = [0..<get_or 0 (map_get (nextTurnSequence s) K)])"

definition singleFlight :: "store \<Rightarrow> bool" where
  "singleFlight s \<longleftrightarrow>
     (\<forall>r \<in> set (map_values (runs s)). inFlight r \<longrightarrow> \<not> earlierNonterminal r s)"

definition messageOf :: "string \<Rightarrow> concurrentMessage \<Rightarrow> bool" where
  "messageOf K m \<longleftrightarrow> convKey (msg_organizationId m) (msg_assistantId m) (msg_conversationId m) = K"

definition transcriptsOk :: "store \<Rightarrow> bool" where
  "transcriptsOk s \<longleftrightarrow> distinct (map fst (messages s)) \<and>
     (\<forall>K. map msg_id (conversationMessages K s) = concat (map turnIds (convRuns K s)) \<and>
       list_all (messageOf K) (conversationMessages K s)) \<and>
     (\<forall>K. distinct (concat (map turnIds (convRuns K s))))"

definition eventsNumbered :: "store \<Rightarrow> bool" where
  "eventsNumbered s \<longleftrightarrow> distinct (map fst (events s)) \<and>
     (\<forall>k. map ev_seq (tenantEvents k s) = [1..<Suc (get_or 0 (map_get (nextEventSequence s) k))])"

definition linksOk :: "store \<Rightarrow> bool" where
  "linksOk s \<longleftrightarrow>
     (\<forall>ctx key i. map_get (idempotency s) (idempotencyScope ctx key) = Some i \<longrightarrow>
       (\<exists>r. map_get (runs s) (runKey ctx i) = Some r \<and> run_idempotencyKey r = key))"

definition storeInv :: "store \<Rightarrow> bool" where
  "storeInv s \<longleftrightarrow> runsFiled s \<and> turnsNumbered s \<and> singleFlight s \<and> transcriptsOk s \<and>
     eventsNumbered s \<and> linksOk s"

lemmas storeInv_defs = storeInv_def runsFiled_def turnsNumbered_def singleFlight_def transcriptsOk_def
  eventsNumbered_def linksOk_def

lemma storeInv_core:
  assumes "core s' = core s"
  shows "storeInv s' \<longleftrightarrow> storeInv s"
  using assms
  by (simp add: core_def storeInv_defs filedUnder_def convRuns_def earlierNonterminal_def
      conversationMessages_def tenantEvents_def cong: option.case_cong)

lemma storeInv_empty: "storeInv emptyStore"
  by (simp add: emptyStore_def storeInv_defs convRuns_def map_values_def conversationMessages_def
      tenantEvents_def)

section \<open>Association lists\<close>

lemma map_set_new: "map_get m k = None \<Longrightarrow> map_set k v m = m @ [(k, v)]"
  by (induction m) (auto split: if_splits)

lemma map_set_same: "map_get m k = Some v \<Longrightarrow> map_set k v m = m"
  by (induction m) (auto split: if_splits)

lemma map_set_split:
  "map_get m k = Some v \<Longrightarrow> \<exists>xs ys. m = xs @ (k, v) # ys \<and> (\<forall>w. map_set k w m = xs @ (k, w) # ys)"
proof (induction m)
  case (Cons p m)
  show ?case
  proof (cases "fst p = k")
    case True
    with Cons.prems show ?thesis by (intro exI [of _ "[]"] exI [of _ m]) (cases p, auto)
  next
    case False
    with Cons obtain xs ys where "m = xs @ (k, v) # ys" "\<forall>w. map_set k w m = xs @ (k, w) # ys"
      by (cases p) auto
    with False show ?thesis by (intro exI [of _ "p # xs"] exI [of _ ys]) (cases p, auto)
  qed
qed simp

section \<open>Updating one run\<close>

lemma convRuns_set_split:
  assumes "map_get (runs s) key = Some r" "runConvKey r' = runConvKey r"
  shows "\<exists>xs ys. convRuns (runConvKey r) s = xs @ r # ys \<and>
    convRuns (runConvKey r) (setRun key r' s) = xs @ r' # ys"
proof -
  from map_set_split [OF assms(1)] obtain xs ys where
    "runs s = xs @ (key, r) # ys" "map_set key r' (runs s) = xs @ (key, r') # ys"
    by blast
  with assms(2) show ?thesis
    by (intro exI [of _ "filter (\<lambda>x. runConvKey x = runConvKey r) (map snd xs)"]
        exI [of _ "filter (\<lambda>x. runConvKey x = runConvKey r) (map snd ys)"])
      (simp add: convRuns_def setRun_def map_values_def)
qed

lemma convRuns_set_other:
  assumes "map_get (runs s) key = Some r" "runConvKey r' = runConvKey r" "K \<noteq> runConvKey r"
  shows "convRuns K (setRun key r' s) = convRuns K s"
proof -
  from map_set_split [OF assms(1)] obtain xs ys where
    "runs s = xs @ (key, r) # ys" "map_set key r' (runs s) = xs @ (key, r') # ys"
    by blast
  with assms(2,3) show ?thesis
    by (simp add: convRuns_def setRun_def map_values_def)
qed

lemma map_convRuns_set:
  assumes "map_get (runs s) key = Some r" "runConvKey r' = runConvKey r" "f r' = f r"
  shows "map f (convRuns K (setRun key r' s)) = map f (convRuns K s)"
proof (cases "K = runConvKey r")
  case True
  with convRuns_set_split [OF assms(1,2)] assms(3) show ?thesis by force
next
  case False
  with convRuns_set_other [OF assms(1,2)] show ?thesis by simp
qed

lemma sameTurn_convKey: "sameTurn r r' \<Longrightarrow> runConvKey r' = runConvKey r"
  by (simp add: sameTurn_def runConvKey_def)

lemma setRun_fields [simp]:
  "messages (setRun k r s) = messages s" "runContexts (setRun k r s) = runContexts s"
  "idempotency (setRun k r s) = idempotency s" "events (setRun k r s) = events s"
  "nextEventSequence (setRun k r s) = nextEventSequence s"
  "conversationOwners (setRun k r s) = conversationOwners s"
  "nextTurnSequence (setRun k r s) = nextTurnSequence s"
  "runs (setRun k r s) = map_set k r (runs s)"
  "conversationMessages K (setRun k r s) = conversationMessages K s"
  "tenantEvents K (setRun k r s) = tenantEvents K s"
  by (simp_all add: setRun_def conversationMessages_def tenantEvents_def)

lemma runsFiled_distinct: "storeInv s \<Longrightarrow> distinct (map fst (runs s))"
  by (simp add: storeInv_def runsFiled_def)

lemma storeInv_run:
  "storeInv s \<Longrightarrow> map_get (runs s) key = Some r \<Longrightarrow> filedUnder key r s \<and> runOk r"
  by (simp add: storeInv_def runsFiled_def)

lemma in_runs_iff:
  "storeInv s \<Longrightarrow> r \<in> set (map_values (runs s)) \<longleftrightarrow> (\<exists>key. map_get (runs s) key = Some r)"
  using runsFiled_distinct by (rule in_values_iff)

lemma filedUnder_setRun [simp]: "filedUnder k x (setRun key r s) = filedUnder k x s"
  by (simp add: filedUnder_def cong: option.case_cong)

lemma earlierNonterminal_iff:
  "earlierNonterminal r s \<longleftrightarrow>
     (\<exists>c \<in> set (map_values (runs s)). runConvKey c = runConvKey r \<and>
        run_turnSequence c < run_turnSequence r \<and> isNonterminal c)"
  by (auto simp: earlierNonterminal_def list_ex_iff sameConversation_def runConvKey_def)

definition runUpdate :: "string \<Rightarrow> concurrentRun \<Rightarrow> concurrentRun \<Rightarrow> store \<Rightarrow> bool" where
  "runUpdate key r r' s \<longleftrightarrow> map_get (runs s) key = Some r \<and> sameTurn r r' \<and> runOk r' \<and>
     (isNonterminal r' \<longrightarrow> isNonterminal r) \<and> (inFlight r' \<longrightarrow> inFlight r \<or> \<not> earlierNonterminal r s)"

lemma update_get: "runUpdate key r r' s \<Longrightarrow> map_get (runs s) key = Some r"
  by (simp add: runUpdate_def)

lemma update_sameTurn: "runUpdate key r r' s \<Longrightarrow> sameTurn r r'"
  by (simp add: runUpdate_def)

lemma filedUnder_sameTurn: "sameTurn r r' \<Longrightarrow> filedUnder key r s \<Longrightarrow> filedUnder key r' s"
  by (auto simp: filedUnder_def sameTurn_def runConvKey_def split: option.splits)

lemma update_filed:
  assumes inv: "storeInv s" and upd: "runUpdate key r r' s"
  shows "runsFiled (setRun key r' s)"
proof -
  have "filedUnder key r' s" "runOk r'"
    using filedUnder_sameTurn [OF update_sameTurn [OF upd]] storeInv_run [OF inv update_get [OF upd]] upd
    by (simp_all add: runUpdate_def)
  then show ?thesis
    using inv storeInv_run [OF inv] by (simp add: runsFiled_def runsFiled_distinct)
qed

lemma update_turns:
  assumes inv: "storeInv s" and upd: "runUpdate key r r' s"
  shows "turnsNumbered (setRun key r' s)"
proof -
  have "run_turnSequence r' = run_turnSequence r"
    using update_sameTurn [OF upd] by (simp add: sameTurn_def)
  from map_convRuns_set [OF update_get [OF upd] sameTurn_convKey [OF update_sameTurn [OF upd]],
      of run_turnSequence, OF this] inv
  show ?thesis by (simp add: turnsNumbered_def storeInv_def)
qed

lemma update_values:
  assumes inv: "storeInv s"
  shows "x \<in> set (map_values (runs (setRun key r' s))) \<longleftrightarrow>
    x = r' \<or> (\<exists>k. k \<noteq> key \<and> map_get (runs s) k = Some x)"
  by (simp add: in_values_set runsFiled_distinct [OF inv])

lemma update_flight:
  assumes inv: "storeInv s" and upd: "runUpdate key r r' s"
  shows "singleFlight (setRun key r' s)"
proof -
  have old: "\<not> earlierNonterminal x s" if "map_get (runs s) k = Some x" "inFlight x" for k x
    using inv that in_runs_iff [OF inv] by (auto simp: storeInv_def singleFlight_def)
  have self: "inFlight r' \<Longrightarrow> \<not> earlierNonterminal r s"
    using upd old [OF update_get [OF upd]] by (auto simp: runUpdate_def)
  have same: "runConvKey r' = runConvKey r" "run_turnSequence r' = run_turnSequence r"
    using update_sameTurn [OF upd] by (simp_all add: sameTurn_def runConvKey_def)
  have rmem: "r \<in> set (map_values (runs s))" using update_get [OF upd] in_runs_iff [OF inv] by blast
  show ?thesis
    unfolding singleFlight_def
  proof (intro ballI impI notI)
    fix x
    assume x: "x \<in> set (map_values (runs (setRun key r' s)))" and fl: "inFlight x"
      and "earlierNonterminal x (setRun key r' s)"
    then obtain c where c: "c \<in> set (map_values (runs (setRun key r' s)))"
      "runConvKey c = runConvKey x" "run_turnSequence c < run_turnSequence x" "isNonterminal c"
      unfolding earlierNonterminal_iff by blast
    define x0 where "x0 = (if x = r' then r else x)"
    define c0 where "c0 = (if c = r' then r else c)"
    have "c0 \<in> set (map_values (runs s))"
      using c(1) rmem update_values [OF inv] in_runs_iff [OF inv] by (auto simp: c0_def)
    moreover have "isNonterminal c0" using c(4) upd by (auto simp: c0_def runUpdate_def)
    moreover have "runConvKey c0 = runConvKey x0" "run_turnSequence c0 < run_turnSequence x0"
      using c(2,3) same by (auto simp: c0_def x0_def)
    ultimately have "earlierNonterminal x0 s" unfolding earlierNonterminal_iff by blast
    moreover have "\<not> earlierNonterminal x0 s"
      using self old fl x update_values [OF inv] by (auto simp: x0_def)
    ultimately show False by contradiction
  qed
qed

lemma update_links:
  assumes inv: "storeInv s" and upd: "runUpdate key r r' s"
  shows "linksOk (setRun key r' s)"
  using inv update_get [OF upd] update_sameTurn [OF upd]
  by (fastforce simp: linksOk_def storeInv_def sameTurn_def)

lemma update_transcripts:
  assumes inv: "storeInv s" and upd: "runUpdate key r r' s"
    and "run_assistantMessageId r' = run_assistantMessageId r"
  shows "transcriptsOk (setRun key r' s)"
proof -
  have "turnIds r' = turnIds r"
    using assms(3) update_sameTurn [OF upd] by (simp add: sameTurn_def turnIds_def)
  from map_convRuns_set [OF update_get [OF upd] sameTurn_convKey [OF update_sameTurn [OF upd]],
      of turnIds, OF this] inv
  show ?thesis by (simp add: transcriptsOk_def storeInv_def)
qed

lemma storeInv_update:
  assumes inv: "storeInv s" and upd: "runUpdate key r r' s"
    and "run_assistantMessageId r' = run_assistantMessageId r"
  shows "storeInv (setRun key r' s)"
  using update_filed [OF inv upd] update_turns [OF inv upd] update_flight [OF inv upd]
    update_transcripts [OF assms] update_links [OF inv upd] inv
  by (simp add: storeInv_def eventsNumbered_def)

section \<open>Completing a run\<close>

lemma insertAt_map: "map f (insertAt i x xs) = insertAt i (f x) (map f xs)"
  by (simp add: insertAt_def take_map drop_map)

lemma insertAt_all: "list_all P xs \<Longrightarrow> P x \<Longrightarrow> list_all P (insertAt i x xs)"
  by (auto simp: insertAt_def list_all_iff dest: in_set_takeD in_set_dropD)

lemma insertAt_distinct: "distinct xs \<Longrightarrow> x \<notin> set xs \<Longrightarrow> distinct (insertAt i x xs)"
proof -
  have "set (take i xs) \<union> set (drop i xs) = set xs"
    by (metis append_take_drop_id set_append)
  then show "distinct xs \<Longrightarrow> x \<notin> set xs \<Longrightarrow> distinct (insertAt i x xs)"
    using set_take_disj_set_drop_if_distinct [of xs i i] by (auto simp: insertAt_def)
qed

lemma insertAt_after: "insertAt (length as + 1) x (as @ y # bs) = as @ y # x # bs"
  by (simp add: insertAt_def)

lemma storeInv_ids:
  assumes "storeInv s"
  shows "map msg_id (conversationMessages K s) = concat (map turnIds (convRuns K s))"
    "distinct (map msg_id (conversationMessages K s))" "list_all (messageOf K) (conversationMessages K s)"
  using assms by (simp_all add: storeInv_def transcriptsOk_def)

lemma not_messageIdUsed:
  assumes "storeInv s" "\<not> messageIdUsed i s"
  shows "i \<notin> set (map msg_id (conversationMessages K s))"
proof (cases "map_get (messages s) K")
  case None
  then show ?thesis by (simp add: conversationMessages_def)
next
  case (Some ms)
  then have "ms \<in> set (map_values (messages s))"
    using assms(1) by (auto simp: in_values_iff storeInv_def transcriptsOk_def)
  with assms(2) Some show ?thesis by (auto simp: messageIdUsed_def list_ex_iff conversationMessages_def)
qed

lemma convRuns_messages [simp]: "convRuns K (s\<lparr>messages := x\<rparr>) = convRuns K s"
  by (simp add: convRuns_def)

lemma filedUnder_messages [simp]: "filedUnder k x (s\<lparr>messages := y\<rparr>) = filedUnder k x s"
  by (simp add: filedUnder_def tenantEvents_def cong: option.case_cong)

lemma insert_reply:
  assumes "storeInv s" "map_get (runs s) key = Some r" "run_assistantMessageId r = None"
    "findIndex (\<lambda>x. msg_id x = run_userMessageId r) (conversationMessages (runConvKey r) s) = Some i"
    "sameTurn r r'" "run_assistantMessageId r' = Some (msg_id m)"
  shows "map msg_id (insertAt (i + 1) m (conversationMessages (runConvKey r) s)) =
    concat (map turnIds (convRuns (runConvKey r) (setRun key r' s)))"
proof -
  let ?ms = "conversationMessages (runConvKey r) s"
  obtain A B where AB: "convRuns (runConvKey r) s = A @ r # B"
    "convRuns (runConvKey r) (setRun key r' s) = A @ r' # B"
    using convRuns_set_split [OF assms(2) sameTurn_convKey [OF assms(5)]] by blast
  let ?a = "concat (map turnIds A)" and ?b = "concat (map turnIds B)"
  have turn: "turnIds r = [run_userMessageId r]" "turnIds r' = [run_userMessageId r, msg_id m]"
    using assms(3,5,6) by (simp_all add: turnIds_def sameTurn_def)
  have ids: "map msg_id ?ms = ?a @ run_userMessageId r # ?b"
    using storeInv_ids(1) [OF assms(1), of "runConvKey r"] AB(1) turn(1) by simp
  have i: "i < length (map msg_id ?ms)" "map msg_id ?ms ! i = run_userMessageId r"
    using assms(4) by (simp_all add: findIndex_Some)
  have "length ?a < length (map msg_id ?ms)" "map msg_id ?ms ! length ?a = run_userMessageId r"
    unfolding ids by simp_all
  with i have "i = length ?a"
    using nth_eq_iff_index_eq [OF storeInv_ids(2) [OF assms(1), of "runConvKey r"]] by metis
  then show ?thesis unfolding insertAt_map ids AB(2) by (simp add: insertAt_after [simplified] turn(2))
qed

lemma storeInv_finish:
  assumes inv: "storeInv s" and upd: "runUpdate key r r' s"
    and st: "run_status r = Processing" "run_assistantMessageId r' = Some (msg_id m)"
    and fresh: "\<not> messageIdUsed (msg_id m) s" and of: "messageOf (runConvKey r) m"
    and idx: "findIndex (\<lambda>x. msg_id x = run_userMessageId r) (conversationMessages (runConvKey r) s) = Some i"
  shows "storeInv (setRun key r' (s\<lparr>messages := map_set (runConvKey r)
      (insertAt (i + 1) m (conversationMessages (runConvKey r) s)) (messages s)\<rparr>))"
    (is "storeInv (setRun key r' (s\<lparr>messages := map_set ?K ?ms (messages s)\<rparr>))")
proof -
  let ?s = "setRun key r' (s\<lparr>messages := map_set ?K ?ms (messages s)\<rparr>)"
  have get: "map_get (runs s) key = Some r" and same: "sameTurn r r'"
    using update_get [OF upd] update_sameTurn [OF upd] .
  have "run_assistantMessageId r = None"
    using storeInv_run [OF inv get] st(1) by (simp add: runOk_def)
  note ids = insert_reply [OF inv get this idx same st(2)]
  have runs: "runs ?s = runs (setRun key r' s)" by simp
  have conv: "convRuns K ?s = convRuns K (setRun key r' s)" for K
    by (simp add: convRuns_def)
  have cm: "conversationMessages K ?s = (if K = ?K then ?ms else conversationMessages K s)" for K
    by (simp add: conversationMessages_def)
  have "transcriptsOk ?s"
    unfolding transcriptsOk_def
  proof (intro conjI allI)
    show "distinct (map fst (messages ?s))"
      using inv by (simp add: storeInv_def transcriptsOk_def)
  next
    fix K
    have other: "K \<noteq> ?K \<Longrightarrow> convRuns K (setRun key r' s) = convRuns K s"
      using convRuns_set_other [OF get sameTurn_convKey [OF same]] .
    show eq: "map msg_id (conversationMessages K ?s) = concat (map turnIds (convRuns K ?s))"
      using ids other storeInv_ids(1) [OF inv, of K] unfolding cm conv by simp
    show "list_all (messageOf K) (conversationMessages K ?s)"
      using storeInv_ids(3) [OF inv, of K] of unfolding cm by (auto intro: insertAt_all)
    have "distinct (map msg_id (conversationMessages K ?s))"
      using storeInv_ids(2) [OF inv, of K] not_messageIdUsed [OF inv fresh, of K]
      unfolding cm by (auto simp: insertAt_map intro!: insertAt_distinct)
    then show "distinct (concat (map turnIds (convRuns K ?s)))" using eq by simp
  qed
  moreover have "runsFiled ?s"
    using update_filed [OF inv upd] by (simp add: runsFiled_def)
  moreover have "turnsNumbered ?s" "singleFlight ?s" "linksOk ?s" "eventsNumbered ?s"
    using update_turns [OF inv upd] update_flight [OF inv upd] update_links [OF inv upd] inv
    by (simp_all add: turnsNumbered_def conv [simplified] singleFlight_def earlierNonterminal_def linksOk_def
        storeInv_def eventsNumbered_def tenantEvents_def)
  ultimately show ?thesis by (simp add: storeInv_def)
qed

section \<open>Appending an event\<close>

lemma pushEvent_fields [simp]:
  "messages (pushEvent k e s) = messages s" "runs (pushEvent k e s) = runs s"
  "runContexts (pushEvent k e s) = runContexts s" "idempotency (pushEvent k e s) = idempotency s"
  "conversationOwners (pushEvent k e s) = conversationOwners s"
  "nextTurnSequence (pushEvent k e s) = nextTurnSequence s"
  "conversationMessages K (pushEvent k e s) = conversationMessages K s"
  "convRuns K (pushEvent k e s) = convRuns K s"
  "earlierNonterminal r (pushEvent k e s) = earlierNonterminal r s"
  "tenantEvents k' (pushEvent k e s) = (if k' = k then tenantEvents k s @ [e] else tenantEvents k' s)"
  by (simp_all add: pushEvent_def conversationMessages_def tenantEvents_def convRuns_def
      earlierNonterminal_def)

lemma find_append_not_None: "find P xs \<noteq> None \<Longrightarrow> find P (xs @ ys) \<noteq> None"
  by (auto dest: find_append_Some)

lemma filedUnder_pushEvent: "filedUnder key r s \<Longrightarrow> filedUnder key r (pushEvent k e s)"
  by (auto simp: filedUnder_def dest: find_append_Some split: option.splits)

lemma eventsNumbered_pushEvent:
  assumes "eventsNumbered s" "ev_seq e = nextSeq k s"
  shows "eventsNumbered (pushEvent k e s)"
proof -
  let ?n = "get_or 0 (map_get (nextEventSequence s) k)"
  have "map ev_seq (tenantEvents k s @ [e]) = [1..<Suc (Suc ?n)]"
    using assms by (simp add: eventsNumbered_def nextSeq_def)
  moreover have "nextEventSequence (pushEvent k e s) = map_set k (Suc ?n) (nextEventSequence s)"
    "events (pushEvent k e s) = map_set k (tenantEvents k s @ [e]) (events s)"
    using assms(2) by (simp_all add: pushEvent_def nextSeq_def)
  ultimately show ?thesis
    using assms(1) by (simp add: eventsNumbered_def del: upt_Suc map_append)
qed

lemma storeInv_append:
  assumes "storeInv s" "ev_seq e = nextSeq k s"
  shows "storeInv (pushEvent k e s)"
  using assms eventsNumbered_pushEvent [of s e k] filedUnder_pushEvent
  by (simp add: storeInv_def runsFiled_def turnsNumbered_def singleFlight_def transcriptsOk_def linksOk_def)

section \<open>Accepting a message\<close>

lemma newTurn_key_free:
  assumes "storeInv s" "newTurn ctx m r s"
  shows "map_get (runs s) (runKey ctx (run_id r)) = None"
proof (rule ccontr)
  assume "map_get (runs s) (runKey ctx (run_id r)) \<noteq> None"
  then obtain x where x: "map_get (runs s) (runKey ctx (run_id r)) = Some x" by blast
  then have "run_id x = run_id r"
    using storeInv_run [OF assms(1) x] by (auto simp: filedUnder_def split: option.splits)
  moreover have "x \<in> set (map_values (runs s))" using x in_runs_iff [OF assms(1)] by blast
  ultimately show False using assms(2) by (auto simp: newTurn_def runIdUsed_def list_ex_iff)
qed

lemma newTurn_convKey:
  "newTurn ctx m r s \<Longrightarrow> tenantConversationScopeKey ctx (run_conversationId r) = runConvKey r"
  by (simp add: newTurn_def runConvKey_def tenantConversationScopeKey_convKey)

lemma accept_fields:
  assumes "storeInv s" "newTurn ctx m r s"
  shows "runs (acceptUpdate ctx m r s) = runs s @ [(runKey ctx (run_id r), r)]"
    "convRuns K (acceptUpdate ctx m r s) = (if K = runConvKey r then convRuns K s @ [r] else convRuns K s)"
    "conversationMessages K (acceptUpdate ctx m r s) =
       (if K = runConvKey r then conversationMessages K s @ [m] else conversationMessages K s)"
    "tenantEvents k (acceptUpdate ctx m r s) = tenantEvents k s"
    "nextTurnSequence (acceptUpdate ctx m r s) =
       map_set (runConvKey r) (run_turnSequence r + 1) (nextTurnSequence s)"
    "events (acceptUpdate ctx m r s) = events s"
    "nextEventSequence (acceptUpdate ctx m r s) = nextEventSequence s"
  using map_set_new [OF newTurn_key_free [OF assms], of r] newTurn_convKey [OF assms(2)]
  by (auto simp: acceptUpdate_def Let_def convRuns_def map_values_def conversationMessages_def tenantEvents_def)

lemma key_context [simp]:
  "runKey (ctx\<lparr>conversationId := c, idempotencyKey := k\<rparr>) i = runKey ctx i"
  "actorScopeKey (ctx\<lparr>conversationId := c, idempotencyKey := k\<rparr>) = actorScopeKey ctx"
  "idempotencyScope (ctx\<lparr>conversationId := c, idempotencyKey := k\<rparr>) i = idempotencyScope ctx i"
  by (simp_all add: runKey_def idempotencyScope_def actorScopeKey_def)

lemma accept_filed_new:
  assumes "storeInv s" "newTurn ctx m r s" "isEchoOf (msg_id m) e"
  shows "filedUnder (runKey ctx (run_id r)) r (pushEvent (actorScopeKey ctx) e (acceptUpdate ctx m r s))"
proof -
  have "find (isEchoOf (msg_id m)) (tenantEvents (actorScopeKey ctx) s @ [e]) \<noteq> None"
    using assms(3) by (auto simp: find_None_iff)
  then show ?thesis
    using assms(2) newTurn_convKey [OF assms(2)] accept_fields(4) [OF assms(1,2)]
    by (auto simp: filedUnder_def acceptUpdate_def Let_def newTurn_def)
qed

lemma accept_filed_old:
  assumes inv: "storeInv s" and new: "newTurn ctx m r s" and get: "map_get (runs s) key = Some x"
  shows "filedUnder key x (acceptUpdate ctx m r s)"
proof -
  from storeInv_run [OF inv get] obtain c where
    c: "map_get (runContexts s) key = Some c" "key = runKey c (run_id x)" "run_id x \<noteq> []"
      "map_get (conversationOwners s) (runConvKey x) = Some \<lparr>owner_userId = userId c, owner_actorId = actorId c\<rparr>"
      "map_get (idempotency s) (idempotencyScope c (run_idempotencyKey x)) = Some (run_id x)"
    and filed: "filedUnder key x s"
    by (auto simp: filedUnder_def split: option.splits)
  have "key \<noteq> runKey ctx (run_id r)" using newTurn_key_free [OF inv new] get by auto
  moreover have "idempotencyScope c (run_idempotencyKey x) \<noteq> idempotencyScope ctx (run_idempotencyKey r)"
    using c(3,5) new by (auto simp: newTurn_def simp del: scopedKey_inj)
  moreover have "runConvKey x = runConvKey r \<Longrightarrow> userId ctx = userId c \<and> actorId ctx = actorId c"
    using c(4) new newTurn_convKey [OF new] by (simp add: newTurn_def isConversationOwnedBy_def)
  ultimately show ?thesis
    using c(1,4) filed newTurn_convKey [OF new] accept_fields(4) [OF inv new]
    by (auto simp: filedUnder_def acceptUpdate_def Let_def simp del: scopedKey_inj)
qed

lemma accept_turns:
  assumes "storeInv s" "newTurn ctx m r s"
  shows "turnsNumbered (acceptUpdate ctx m r s)"
proof -
  have "map run_turnSequence (convRuns (runConvKey r) s) = [0..<run_turnSequence r]"
    using assms newTurn_convKey [OF assms(2)] by (simp add: storeInv_def turnsNumbered_def newTurn_def)
  then show ?thesis
    using assms(1) by (simp add: turnsNumbered_def accept_fields [OF assms] storeInv_def)
qed

lemma accept_flight:
  assumes inv: "storeInv s" and new: "newTurn ctx m r s"
  shows "singleFlight (acceptUpdate ctx m r s)"
proof -
  have notr: "\<not> inFlight r" using new by (simp add: newTurn_def inFlight_def)
  have lt: "run_turnSequence x < run_turnSequence r"
    if "x \<in> set (map_values (runs s))" "runConvKey x = runConvKey r" for x
  proof -
    have "map run_turnSequence (convRuns (runConvKey r) s) = [0..<run_turnSequence r]"
      using inv new newTurn_convKey [OF new] by (simp add: storeInv_def turnsNumbered_def newTurn_def)
    then have "run_turnSequence ` set (convRuns (runConvKey r) s) = {0..<run_turnSequence r}"
      by (metis set_map set_upt)
    moreover have "x \<in> set (convRuns (runConvKey r) s)" using that by (simp add: convRuns_def)
    ultimately show ?thesis by auto
  qed
  have "\<not> earlierNonterminal x (acceptUpdate ctx m r s)"
    if x: "x \<in> set (map_values (runs s))" "\<not> earlierNonterminal x s" for x
    using that(2) less_asym [OF lt [OF x(1)]]
    by (auto simp: earlierNonterminal_iff accept_fields(1) [OF inv new] map_values_def)
  moreover have "set (map_values (runs (acceptUpdate ctx m r s))) = insert r (set (map_values (runs s)))"
    by (auto simp: accept_fields(1) [OF inv new] map_values_def)
  ultimately show ?thesis
    using inv notr by (simp add: singleFlight_def storeInv_def)
qed

lemma accept_transcripts:
  assumes inv: "storeInv s" and new: "newTurn ctx m r s"
  shows "transcriptsOk (acceptUpdate ctx m r s)"
proof -
  have turn: "turnIds r = [msg_id m]" and of: "messageOf (runConvKey r) m"
    using new by (simp_all add: newTurn_def turnIds_def messageOf_def runConvKey_def)
  have fresh: "msg_id m \<notin> set (map msg_id (conversationMessages (runConvKey r) s))"
    using not_messageIdUsed [OF inv] new by (simp add: newTurn_def)
  have "distinct (map fst (messages (acceptUpdate ctx m r s)))"
    using inv by (simp add: acceptUpdate_def Let_def storeInv_def transcriptsOk_def)
  moreover have "msg_id m \<notin> set (concat (map turnIds (convRuns (runConvKey r) s)))"
    using fresh unfolding storeInv_ids(1) [OF inv] .
  ultimately show ?thesis
    using inv turn of
    by (simp add: transcriptsOk_def accept_fields [OF inv new] storeInv_def)
qed

lemma accept_links:
  assumes inv: "storeInv s" and new: "newTurn ctx m r s"
  shows "linksOk (acceptUpdate ctx m r s)"
  unfolding linksOk_def
proof (intro allI impI)
  fix c key i
  assume i: "map_get (idempotency (acceptUpdate ctx m r s)) (idempotencyScope c key) = Some i"
  show "\<exists>x. map_get (runs (acceptUpdate ctx m r s)) (runKey c i) = Some x \<and> run_idempotencyKey x = key"
  proof (cases "idempotencyScope c key = idempotencyScope ctx (run_idempotencyKey r)")
    case True
    with i have "i = run_id r"
      by (simp add: acceptUpdate_def Let_def del: scopedKey_inj)
    moreover have "runKey c i = runKey ctx i" "key = run_idempotencyKey r"
      using True by simp_all
    ultimately have "i = run_id r" "runKey c i = runKey ctx i" "key = run_idempotencyKey r" by blast+
    then show ?thesis
      using newTurn_key_free [OF inv new]
      by (simp add: accept_fields [OF inv new] map_add_def del: scopedKey_inj)
  next
    case False
    with i have "map_get (idempotency s) (idempotencyScope c key) = Some i"
      by (simp add: acceptUpdate_def Let_def del: scopedKey_inj)
    with inv obtain x where "map_get (runs s) (runKey c i) = Some x" "run_idempotencyKey x = key"
      unfolding storeInv_def linksOk_def by blast
    then show ?thesis
      using newTurn_key_free [OF inv new]
      by (auto simp: accept_fields [OF inv new] map_add_def simp del: scopedKey_inj)
  qed
qed

lemma storeInv_accept:
  assumes inv: "storeInv s" and new: "newTurn ctx m r s" and echo: "isEchoOf (msg_id m) e"
    and seq: "ev_seq e = nextSeq (actorScopeKey ctx) s"
  shows "storeInv (pushEvent (actorScopeKey ctx) e (acceptUpdate ctx m r s))"
proof -
  let ?s = "acceptUpdate ctx m r s"
  have "nextSeq k ?s = nextSeq k s" "eventsNumbered ?s" for k
    using inv by (simp_all add: nextSeq_def accept_fields [OF inv new] storeInv_def eventsNumbered_def)
  then have "eventsNumbered (pushEvent (actorScopeKey ctx) e ?s)"
    using seq by (simp add: eventsNumbered_pushEvent)
  moreover have "runsFiled (pushEvent (actorScopeKey ctx) e ?s)"
    using accept_filed_new [OF inv new echo] accept_filed_old [OF inv new]
      storeInv_run [OF inv] newTurn_key_free [OF inv new] inv new
    by (auto simp: runsFiled_def accept_fields [OF inv new] filedUnder_pushEvent map_add_Some_iff
        newTurn_def runOk_def storeInv_def map_of_eq_None_iff split: if_splits)
  ultimately show ?thesis
    using accept_turns [OF inv new] accept_flight [OF inv new] accept_transcripts [OF inv new]
      accept_links [OF inv new]
    by (simp add: storeInv_def turnsNumbered_def singleFlight_def transcriptsOk_def linksOk_def)
qed

section \<open>Every step of the machine keeps the invariant\<close>

lemma runTransition_nonterminal:
  "runTransition (run_status r) (run_status r') \<Longrightarrow> isNonterminal r' \<Longrightarrow> isNonterminal r"
  by (auto simp: isNonterminal_def elim: runTransition.cases)

theorem coreStep_inv:
  assumes "coreStep ctx s s'" "storeInv s"
  shows "storeInv s'"
  using assms
proof (cases rule: coreStep.cases)
  case idle
  with assms(2) show ?thesis by (simp add: storeInv_core [OF \<open>core s' = core _\<close>])
next
  case (move runId r r')
  then have "runUpdate (runKey ctx runId) r r' s"
    using storeInv_run [OF assms(2) move(1)] runTransition_nonterminal [OF move(4)]
    by (auto simp: runUpdate_def runOk_def elim: runTransition.cases)
  from storeInv_update [OF assms(2) this] move show ?thesis by (simp add: storeInv_core [OF \<open>core s' = core _\<close>])
next
  case (finish runId r r' m K i)
  then have upd: "runUpdate (runKey ctx runId) r r' s"
    by (simp add: runUpdate_def runOk_def isNonterminal_def inFlight_def)
  from storeInv_run [OF assms(2) finish(1)]
  have "run_organizationId r = organizationId ctx" "run_assistantId r = assistantId ctx"
    by (auto simp: filedUnder_def split: option.splits)
  then have K: "K = runConvKey r"
    using finish by (simp add: runConvKey_def tenantConversationScopeKey_convKey)
  moreover have "messageOf (runConvKey r) m"
    using finish K by (simp add: messageOf_def tenantConversationScopeKey_convKey)
  ultimately show ?thesis
    using storeInv_finish [OF assms(2) upd] finish by (simp add: storeInv_core [OF \<open>core s' = core _\<close>])
next
  case (accept m r e)
  with storeInv_accept [OF assms(2)] show ?thesis by (simp add: storeInv_core [OF \<open>core s' = core _\<close>])
next
  case (append e)
  with storeInv_append [OF assms(2)] show ?thesis by (simp add: storeInv_core [OF \<open>core s' = core _\<close>])
qed

end
