(* ===== verification/Store_Refinement.thy ===== *)
theory Store_Refinement
  imports Store_Invariant
begin

text \<open>
  The refinement: in a state that satisfies the invariant, each operation of the store, with fresh
  identifiers, is a sequence of steps of the abstract machine taken on behalf of the operation's
  own actor. The invariant follows for every run of the store, as an instance of \<open>step_system\<close>.
\<close>

fun opContext :: "storeOp \<Rightarrow> tenantExecutionContext" where
  "opContext (OpAccept ctx input now ids) = ctx"
| "opContext (OpClaim ctx runId lo exp now) = ctx"
| "opContext (OpRenew ctx runId lo exp now) = ctx"
| "opContext (OpComplete ctx runId input now) = ctx"
| "opContext (OpFail ctx runId input now) = ctx"
| "opContext (OpCancel ctx runId now) = ctx"
| "opContext (OpCancelConversation ctx conversation now) = ctx"
| "opContext (OpAppendEvent ctx conversation msg now uuid) = ctx"
| "opContext (OpConnect ctx input now) = ctx"
| "opContext (OpHeartbeat ctx cred exp now) = ctx"
| "opContext (OpSetGrant ctx conversation client enabled now) = ctx"
| "opContext (OpEnqueue ctx input now uuid) = ctx"
| "opContext (OpListBrowserEvents ctx cred afterSeq limit now) = ctx"
| "opContext (OpReceipt ctx input) = ctx"
| "opContext (OpResult ctx result token now) = ctx"

section \<open>Operations that leave the core alone\<close>

lemma core_redact [simp]: "core (redactBrowserRun ctx r c s) = core s"
  by (simp add: core_def)

lemma core_setRun: "core s' = core s \<Longrightarrow> core (setRun k r s') = core (setRun k r s)"
  by (simp add: core_def)

lemma core_pushStep [simp]: "core (pushStep k f s) = core s"
  by (simp add: core_def pushStep_def Let_def)

lemma core_storeAction [simp]: "core (storeAction ctx input a ob s) = core s"
  by (simp add: core_def storeAction_def)

lemma core_applyOutput [simp]: "core (applyOutput ctx a res now s) = core s"
  by (simp add: core_def applyOutput_def Let_def
      split: browserResultOutcome.split browserBrokerSuccessOutput.split option.split)

lemma core_settleAction [simp]: "core (settleAction ctx a res now s) = core s"
  by (simp add: settleAction_def Let_def) (simp add: core_def)

lemma core_setOnboarding [simp]: "core (setOnboarding v k s) = core s"
  by (simp add: core_def setOnboarding_def split: option.split)

lemma core_acceptExisting [simp]: "core (snd (acceptExisting ctx input i s)) = core s"
  by (simp add: acceptExisting_def Let_def split: option.split)

lemma core_supersede [simp]: "core (supersedeCurrent k s) = core s"
  by (simp add: core_def supersedeCurrent_def Let_def split: option.split)

lemma core_connectFresh [simp]: "core (snd (connectFresh ctx input now s)) = core s"
proof -
  have "core (snd (connectFresh ctx input now s)) =
      core (supersedeCurrent (browserClientKey ctx (con_clientInstallationId input)) s)"
    by (simp add: connectFresh_def Let_def core_def)
  then show ?thesis by simp
qed

lemma core_connect [simp]: "core (snd (connectBrowserClient ctx input now s)) = core s"
  by (simp add: connectBrowserClient_def Let_def split: option.split) (simp add: core_def)

lemma core_heartbeat [simp]: "core (snd (heartbeatBrowserConnection ctx cred exp now s)) = core s"
  by (simp add: heartbeatBrowserConnection_def Let_def core_def split: option.split)

lemma core_setGrant [simp]: "core (snd (setBrowserAccessGrant ctx c client en now s)) = core s"
  by (simp add: setBrowserAccessGrant_def Let_def core_def split: option.split)

lemma core_markDelivered [simp]: "core (markDelivered ctx rec s) = core s"
  by (simp add: core_def markDelivered_def Let_def split: option.split)

lemma core_fold_markDelivered [simp]: "core (fold (markDelivered ctx) recs s) = core s"
  by (induction recs arbitrary: s) simp_all

lemma core_listBrowserEvents [simp]: "core (snd (listBrowserEvents ctx cred a l now s)) = core s"
  by (simp add: listBrowserEvents_def Let_def split: option.split)

lemma core_receipt [simp]: "core (snd (recordBrowserReceipt ctx input s)) = core s"
  by (simp add: recordBrowserReceipt_def Let_def core_def split: sum.split option.split)

section \<open>Operations that move one run\<close>

lemma runs_core: "core s' = core s \<Longrightarrow> runs s' = runs s"
  by (simp add: core_def)

lemma moveI:
  assumes "map_get (runs s) (runKey ctx runId) = Some r" "sameTurn r r'"
    "run_assistantMessageId r' = run_assistantMessageId r"
    "runTransition (run_status r) (run_status r')" "run_status r' \<noteq> Completed" "leaseOk r'"
    "inFlight r' \<Longrightarrow> inFlight r \<or> \<not> earlierNonterminal r s"
    "core s' = core (setRun (runKey ctx runId) r' s)"
  shows "(coreStep ctx)\<^sup>*\<^sup>* s s'"
  using coreStep.move [OF assms] by blast

lemma idleI: "core s' = core s \<Longrightarrow> (coreStep ctx)\<^sup>*\<^sup>* s s'"
  by (blast intro: coreStep.idle)

lemmas run_move_simps = sameTurn_def releasedRun_def leaseOk_def inFlight_def

lemma claim_steps: "(coreStep ctx)\<^sup>*\<^sup>* s (snd (claimRun ctx runId lo exp now s))"
proof (cases "snd (claimRun ctx runId lo exp now s) = s")
  case False
  then obtain r where r: "map_get (runs s) (runKey ctx runId) = Some r" "claimable now r"
    "\<not> earlierNonterminal r s"
    and s': "snd (claimRun ctx runId lo exp now s) = setRun (runKey ctx runId)
      (r\<lparr>run_status := Processing, run_leaseOwner := Some lo, run_leaseExpiresAt := Some exp,
         run_updatedAt := now\<rparr>) s"
    by (auto simp: claimRun_def Let_def split: option.splits if_splits sum.splits)
  show ?thesis
    unfolding s'
    by (rule moveI [OF r(1)]) (use r in \<open>auto simp: run_move_simps claimable_def intro: runTransition.intros\<close>)
qed simp

lemma renew_steps:
  assumes "storeInv s"
  shows "(coreStep ctx)\<^sup>*\<^sup>* s (snd (renewRunLease ctx runId lo exp now s))"
proof (cases "snd (renewRunLease ctx runId lo exp now s) = s")
  case False
  then obtain r where r: "map_get (runs s) (runKey ctx runId) = Some r" "run_status r = Processing"
    "run_leaseOwner r = Some lo"
    and s': "snd (renewRunLease ctx runId lo exp now s) = setRun (runKey ctx runId)
      (r\<lparr>run_leaseExpiresAt := Some exp, run_updatedAt := now\<rparr>) s"
    by (auto simp: renewRunLease_def scopedRun_def split: option.splits if_splits sum.splits)
  show ?thesis
    unfolding s'
    by (rule moveI [OF r(1)]) (use r in \<open>auto simp: run_move_simps intro: runTransition.intros\<close>)
qed simp

lemma fail_steps: "(coreStep ctx)\<^sup>*\<^sup>* s (snd (failRun ctx runId input now s))"
proof (cases "snd (failRun ctx runId input now s) = s")
  case False
  then obtain r where r: "map_get (runs s) (runKey ctx runId) = Some r" "run_status r = Processing"
    and s': "snd (failRun ctx runId input now s) = redactBrowserRun ctx runId False
      (setRun (runKey ctx runId) ((releasedRun Failed now r)\<lparr>run_errorCode := Some (fin_errorCode input),
         run_errorMessage := Some (fin_errorMessage input)\<rparr>) s)"
    by (auto simp: failRun_def scopedRun_def split: option.splits if_splits sum.splits)
  show ?thesis
    unfolding s'
    by (rule moveI [OF r(1)]) (use r in \<open>auto simp: run_move_simps intro: runTransition.intros\<close>)
qed simp

lemma cancel_move:
  assumes "map_get (runs s) (runKey ctx runId) = Some r" "isNonterminal r"
  shows "(coreStep ctx)\<^sup>*\<^sup>* s
    (redactBrowserRun ctx runId True (setRun (runKey ctx runId) (releasedRun Cancelled now r) s))"
  by (rule moveI [OF assms(1)])
    (use assms(2) in \<open>auto simp: run_move_simps isNonterminal_def intro: runTransition.intros\<close>)

lemma cancel_steps: "(coreStep ctx)\<^sup>*\<^sup>* s (snd (cancelRun ctx runId now s))"
  using cancel_move by (auto simp: cancelRun_def scopedRun_def split: option.splits sum.splits)

lemma complete_steps:
  assumes "\<not> messageIdUsed (cin_assistantMessageId input) s"
  shows "(coreStep ctx)\<^sup>*\<^sup>* s (snd (completeRun ctx runId input now s))"
proof (cases "snd (completeRun ctx runId input now s) = s")
  case False
  let ?m = "\<lambda>r. \<lparr>msg_id = cin_assistantMessageId input,
      msg_organizationId = organizationId ctx, msg_assistantId = assistantId ctx,
      msg_conversationId = run_conversationId r, msg_role = AssistantRole,
      msg_content = cin_content input, msg_clientMessageId = None, msg_createdAt = now\<rparr>"
  obtain r i where r: "map_get (runs s) (runKey ctx runId) = Some r" "run_status r = Processing"
    and i: "findIndex (\<lambda>x. msg_id x = run_userMessageId r)
      (conversationMessages (tenantConversationScopeKey ctx (run_conversationId r)) s) = Some i"
    and s': "snd (completeRun ctx runId input now s) = redactBrowserRun ctx runId False
      (setRun (runKey ctx runId)
        ((releasedRun Completed now r)\<lparr>run_assistantMessageId := Some (cin_assistantMessageId input)\<rparr>)
        (s\<lparr>messages := map_set (tenantConversationScopeKey ctx (run_conversationId r))
           (insertAt (i + 1) (?m r)
             (conversationMessages (tenantConversationScopeKey ctx (run_conversationId r)) s)) (messages s)\<rparr>))"
    using False by (auto simp: completeRun_def requireLeasedRun_Inr Let_def split: option.splits sum.splits)
  have "coreStep ctx s (snd (completeRun ctx runId input now s))"
    unfolding s'
    by (rule coreStep.finish [OF r _ _ _ _ _ _ _ _ _ _ i, where m = "?m r"])
      (use assms in \<open>auto simp: run_move_simps\<close>)
  then show ?thesis by blast
qed simp

section \<open>Cancelling a conversation\<close>

text \<open>
  The loop of \<open>cancelConversationRuns\<close> looks at runs of every actor; the invariant shows that
  those of a conversation the caller owns are filed under the caller's own key.
\<close>

lemma owned_run_key:
  assumes "storeInv s" "map_get (runs s) key = Some r"
    "sameConversation (organizationId ctx) (assistantId ctx) c r"
    "isConversationOwnedBy ctx (tenantConversationScopeKey ctx c) s"
  shows "key = runKey ctx (run_id r)"
  using storeInv_run [OF assms(1,2)] assms(3,4)
  by (auto simp: filedUnder_def sameConversation_def isConversationOwnedBy_def runConvKey_def
      tenantConversationScopeKey_convKey split: option.splits)

lemma coreSteps_inv:
  assumes "(coreStep ctx)\<^sup>*\<^sup>* s s'" "storeInv s"
  shows "storeInv s'"
  using assms by (induction rule: rtranclp_induct) (auto intro: coreStep_inv)

lemma cancelLoop_steps:
  assumes "storeInv s" "distinct (map fst rs)" "\<And>k r. (k, r) \<in> set rs \<Longrightarrow> map_get (runs s) k = Some r"
    "isConversationOwnedBy ctx (tenantConversationScopeKey ctx c) s"
  shows "(coreStep ctx)\<^sup>*\<^sup>* s (snd (cancelLoop ctx c now rs s))"
  using assms
proof (induction rs arbitrary: s)
  case (Cons p rs)
  obtain key r where p: "p = (key, r)" by fastforce
  show ?case
  proof (cases "sameConversation (organizationId ctx) (assistantId ctx) c r \<and> isNonterminal r")
    case False
    with Cons p show ?thesis by auto
  next
    case True
    let ?s = "redactBrowserRun ctx (run_id r) True (setRun key (releasedRun Cancelled now r) s)"
    have get: "map_get (runs s) key = Some r" using Cons.prems(3) p by simp
    have "key = runKey ctx (run_id r)"
      using owned_run_key [OF Cons.prems(1) get] True Cons.prems(4) by blast
    then have step: "(coreStep ctx)\<^sup>*\<^sup>* s ?s" using cancel_move get True by blast
    have "(coreStep ctx)\<^sup>*\<^sup>* ?s (snd (cancelLoop ctx c now rs ?s))"
    proof (rule Cons.IH)
      show "storeInv ?s" by (rule coreSteps_inv [OF step Cons.prems(1)])
      show "distinct (map fst rs)" using Cons.prems(2) by simp
      show "isConversationOwnedBy ctx (tenantConversationScopeKey ctx c) ?s"
        using Cons.prems(4) by (simp add: isConversationOwnedBy_def)
      show "map_get (runs ?s) k = Some r'" if "(k, r') \<in> set rs" for k r'
        using that Cons.prems(2,3) p by force
    qed
    with step True p show ?thesis by (simp add: Let_def split_beta rtranclp_trans)
  qed
qed simp

lemma cancelConversation_steps:
  assumes "storeInv s"
  shows "(coreStep ctx)\<^sup>*\<^sup>* s (snd (cancelConversationRuns ctx c now s))"
proof (cases "assertContext ctx = None \<and> assertConversationOwner ctx (tenantConversationScopeKey ctx c) s = None")
  case True
  then have "isConversationOwnedBy ctx (tenantConversationScopeKey ctx c) s"
    by (simp add: assertConversationOwner_def split: if_splits)
  then have "(coreStep ctx)\<^sup>*\<^sup>* s (snd (cancelLoop ctx c now (runs s) s))"
    using cancelLoop_steps [OF assms runsFiled_distinct [OF assms]]
      in_set_map_iff [OF runsFiled_distinct [OF assms]] by blast
  with True show ?thesis by (simp add: cancelConversationRuns_def split_beta)
next
  case False
  then have "snd (cancelConversationRuns ctx c now s) = s"
    by (auto simp: cancelConversationRuns_def split: option.splits)
  then show ?thesis by simp
qed

section \<open>Events and messages\<close>

lemma appendEventRecord_Inr:
  "appendEventRecord ctx c msg now u s =
     (if isConversationOwnedBy ctx (tenantConversationScopeKey ctx c) s
      then let e = \<lparr>ev_id = u, ev_organizationId = organizationId ctx, ev_assistantId = assistantId ctx,
             ev_conversationId = c, ev_seq = nextSeq (actorScopeKey ctx) s, ev_emittedAt = now, ev_message = msg\<rparr>
        in (Inr e, pushEvent (actorScopeKey ctx) e s)
      else (Inl (StoreError ''Conversation was not found for this actor.'' ConversationNotFound), s))"
  by (simp add: appendEventRecord_def assertConversationOwner_def Let_def nextSeq_def pushEvent_def)

lemma appendEvent_steps: "(coreStep ctx)\<^sup>*\<^sup>* s (snd (appendEvent ctx c msg now u s))"
proof -
  have "coreStep ctx s (pushEvent (actorScopeKey ctx) e s)"
    if "ev_seq e = nextSeq (actorScopeKey ctx) s" for e
    using that by (rule coreStep.append) simp
  then show ?thesis
    by (auto simp: appendEvent_def appendEventRecord_Inr Let_def split: option.split)
qed

lemma isEchoOf_echoMessage:
  "isEchoOf (msg_id m) e \<longleftrightarrow> True" if "ev_message e = echoMessage m c rq" for e
  using that by (simp add: isEchoOf_def echoMessage_def)

lemma owner_set_owned: "isConversationOwnedBy ctx K s \<Longrightarrow>
  assertOrSetConversationOwner ctx K s = (Inr (), s\<lparr>conversationOwners :=
    map_set K \<lparr>owner_userId = userId ctx, owner_actorId = actorId ctx\<rparr> (conversationOwners s)\<rparr>)"
  by (auto simp: assertOrSetConversationOwner_def assertConversationOwner_def isConversationOwnedBy_def
      map_set_same split: option.splits)

lemma owner_set_not_owned: "\<not> isConversationOwnedBy ctx K s \<Longrightarrow>
  assertOrSetConversationOwner ctx K s =
    (Inl (StoreError ''Conversation was not found for this actor.'' ConversationNotFound), s)"
  by (auto simp: assertOrSetConversationOwner_def assertConversationOwner_def isConversationOwnedBy_def
      split: option.splits)

text \<open>The whole of \<open>acceptMessage\<close> on its success path for a new message, as one equation.\<close>

definition acceptEvent ::
    "tenantExecutionContext \<Rightarrow> concurrentMessage \<Rightarrow> concurrentRun \<Rightarrow> int \<Rightarrow> string \<Rightarrow> store \<Rightarrow> concurrentEvent" where
  "acceptEvent ctx m r now u s =
     \<lparr>ev_id = u, ev_organizationId = organizationId ctx, ev_assistantId = assistantId ctx,
      ev_conversationId = run_conversationId r, ev_seq = nextSeq (actorScopeKey ctx) s, ev_emittedAt = now,
      ev_message = echoMessage m (run_conversationId r) (run_requestId r)\<rparr>"

definition acceptRun ::
    "tenantExecutionContext \<Rightarrow> acceptConcurrentMessageInput \<Rightarrow> int \<Rightarrow> freshIds \<Rightarrow> store \<Rightarrow> concurrentRun" where
  "acceptRun ctx input now ids s =
     newRun ctx (acceptConversation ctx input ids) (acceptKey ctx input) (fresh_message ids)
       (get_or 0 (map_get (nextTurnSequence s) (tenantConversationScopeKey ctx (acceptConversation ctx input ids))))
       now (fresh_run ids)"

definition acceptUserMessage ::
    "tenantExecutionContext \<Rightarrow> acceptConcurrentMessageInput \<Rightarrow> int \<Rightarrow> freshIds \<Rightarrow> concurrentMessage" where
  "acceptUserMessage ctx input now ids =
     newUserMessage ctx input (acceptConversation ctx input ids) now (fresh_message ids)"

definition acceptsNew ::
    "tenantExecutionContext \<Rightarrow> acceptConcurrentMessageInput \<Rightarrow> freshIds \<Rightarrow> store \<Rightarrow> bool" where
  "acceptsNew ctx input ids s \<longleftrightarrow>
     assertContext ctx = None \<and>
     \<not> truthy (map_get (idempotency s) (idempotencyScope ctx (acceptKey ctx input))) \<and>
     \<not> (truthy (conversationId ctx) \<and> truthy (in_conversationId input) \<and>
        conversationId ctx \<noteq> in_conversationId input) \<and>
     isConversationOwnedBy ctx (tenantConversationScopeKey ctx (acceptConversation ctx input ids)) s"

lemma setOnboarding_fields [simp]:
  "nextTurnSequence (setOnboarding v k s) = nextTurnSequence s" "messages (setOnboarding v k s) = messages s"
  "runs (setOnboarding v k s) = runs s" "runContexts (setOnboarding v k s) = runContexts s"
  "idempotency (setOnboarding v k s) = idempotency s" "events (setOnboarding v k s) = events s"
  "nextEventSequence (setOnboarding v k s) = nextEventSequence s"
  "conversationOwners (setOnboarding v k s) = conversationOwners s"
  by (simp_all add: setOnboarding_def split: option.split)

lemma acceptMessage_new:
  assumes "acceptsNew ctx input ids s"
  shows "fst (acceptMessage ctx input now ids s) =
      Inr \<lparr>acc_created = True, acc_conversationId = acceptConversation ctx input ids,
        acc_userMessage = acceptUserMessage ctx input now ids, acc_run = acceptRun ctx input now ids s,
        acc_event = acceptEvent ctx (acceptUserMessage ctx input now ids) (acceptRun ctx input now ids s) now
          (fresh_event ids) s\<rparr>"
    "core (snd (acceptMessage ctx input now ids s)) =
      core (pushEvent (actorScopeKey ctx)
        (acceptEvent ctx (acceptUserMessage ctx input now ids) (acceptRun ctx input now ids s) now (fresh_event ids) s)
        (acceptUpdate ctx (acceptUserMessage ctx input now ids) (acceptRun ctx input now ids s) s))"
proof -
  let ?K = "tenantConversationScopeKey ctx (acceptConversation ctx input ids)"
  let ?s1 = "s\<lparr>conversationOwners :=
    map_set ?K \<lparr>owner_userId = userId ctx, owner_actorId = actorId ctx\<rparr> (conversationOwners s)\<rparr>"
  have eq: "acceptMessage ctx input now ids s =
      acceptNew ctx input (acceptKey ctx input) (acceptConversation ctx input ids) now ids ?s1"
    using assms unfolding acceptsNew_def acceptMessage_def by (auto simp: Let_def owner_set_owned)
  show "fst (acceptMessage ctx input now ids s) =
      Inr \<lparr>acc_created = True, acc_conversationId = acceptConversation ctx input ids,
        acc_userMessage = acceptUserMessage ctx input now ids, acc_run = acceptRun ctx input now ids s,
        acc_event = acceptEvent ctx (acceptUserMessage ctx input now ids) (acceptRun ctx input now ids s) now
          (fresh_event ids) s\<rparr>"
    unfolding eq
    by (simp add: acceptNew_def Let_def appendEventRecord_Inr isConversationOwnedBy_def acceptRun_def
        acceptUserMessage_def acceptEvent_def nextSeq_def newUserMessage_def newRun_def)
  show "core (snd (acceptMessage ctx input now ids s)) =
      core (pushEvent (actorScopeKey ctx)
        (acceptEvent ctx (acceptUserMessage ctx input now ids) (acceptRun ctx input now ids s) now (fresh_event ids) s)
        (acceptUpdate ctx (acceptUserMessage ctx input now ids) (acceptRun ctx input now ids s) s))"
    unfolding eq
    by (simp add: acceptNew_def Let_def appendEventRecord_Inr isConversationOwnedBy_def acceptRun_def
        acceptUserMessage_def acceptEvent_def nextSeq_def newUserMessage_def newRun_def pushEvent_def
        acceptUpdate_def core_def conversationMessages_def tenantEvents_def)
qed

lemma acceptMessage_not_new:
  "\<not> acceptsNew ctx input ids s \<Longrightarrow> core (snd (acceptMessage ctx input now ids s)) = core s"
  by (auto simp: acceptsNew_def acceptMessage_def Let_def owner_set_not_owned split: option.splits)

lemma accept_newTurn:
  assumes "acceptsNew ctx input ids s" "freshOp (OpAccept ctx input now ids) s"
  shows "newTurn ctx (acceptUserMessage ctx input now ids) (acceptRun ctx input now ids s) s"
  using assms
  by (simp add: newTurn_def acceptsNew_def acceptRun_def acceptUserMessage_def newUserMessage_def newRun_def
      leaseOk_def)

lemma accept_steps:
  assumes "freshOp (OpAccept ctx input now ids) s"
  shows "(coreStep ctx)\<^sup>*\<^sup>* s (snd (acceptMessage ctx input now ids s))"
proof (cases "acceptsNew ctx input ids s")
  case True
  have "coreStep ctx s (snd (acceptMessage ctx input now ids s))"
    by (rule coreStep.accept [OF accept_newTurn [OF True assms] _ _ acceptMessage_new(2) [OF True]])
      (simp_all add: acceptEvent_def isEchoOf_echoMessage)
  then show ?thesis by blast
next
  case False
  then show ?thesis by (intro idleI acceptMessage_not_new)
qed

section \<open>Browser operations that move a run\<close>

lemmas core_setRun_simps =
  core_setRun [OF core_pushStep] core_setRun [OF core_storeAction] core_setRun [OF core_settleAction]

lemma enqueueNew_core:
  "core (snd (enqueueNew ctx input run now u s)) =
     (case (fst (enqueueNew ctx input run now u s), run) of
        (Inr x, Some r) \<Rightarrow>
          if truthy (enq_leaseOwner input)
          then core (setRun (runKey ctx (enq_runId input)) (releasedRun WaitingForBrowser now r) s)
          else core s
      | _ \<Rightarrow> core s)"
  by (auto simp: enqueueNew_def Let_def parkRun_def core_setRun_simps split: option.split)

lemma enqueue_steps: "(coreStep ctx)\<^sup>*\<^sup>* s (snd (enqueueBrowserAction ctx input now u s))"
proof (cases "core (snd (enqueueBrowserAction ctx input now u s)) = core s")
  case True
  then show ?thesis by (rule idleI)
next
  case False
  then obtain r where r: "map_get (runs s) (runKey ctx (enq_runId input)) = Some r" "run_status r = Processing"
    and s': "core (snd (enqueueBrowserAction ctx input now u s)) =
      core (setRun (runKey ctx (enq_runId input)) (releasedRun WaitingForBrowser now r) s)"
    by (auto simp: enqueueBrowserAction_def scopedRun_def Let_def enqueueNew_core
        split: option.splits sum.splits if_splits)
  show ?thesis
    by (rule moveI [OF r(1) _ _ _ _ _ _ s']) (use r in \<open>auto simp: run_move_simps intro: runTransition.intros\<close>)
qed

lemma result_steps:
  assumes "storeInv s"
  shows "(coreStep ctx)\<^sup>*\<^sup>* s (snd (recordBrowserResult ctx result token now s))"
proof (cases "core (snd (recordBrowserResult ctx result token now s)) = core s")
  case True
  then show ?thesis by (rule idleI)
next
  case False
  have runs: "runs (settleAction ctx a result now s) = runs s" for a
    by (rule runs_core) simp
  from False obtain r runId where r: "map_get (runs s) (runKey ctx runId) = Some r" "run_status r = WaitingForBrowser"
    and s': "core (snd (recordBrowserResult ctx result token now s)) =
      core (setRun (runKey ctx runId) (r\<lparr>run_status := Queued\<rparr>) s)"
    by (auto simp: recordBrowserResult_def scopedRun_def Let_def runs core_setRun_simps
        split: option.splits sum.splits if_splits)
  have "leaseOk r" using storeInv_run [OF assms r(1)] by (simp add: runOk_def)
  with r(2) show ?thesis
    by (intro moveI [OF r(1) _ _ _ _ _ _ s']) (auto simp: run_move_simps intro: runTransition.intros)
qed

section \<open>The refinement theorem\<close>

theorem storeStep_refines:
  assumes "storeInv s" "freshOp op s"
  shows "(coreStep (opContext op))\<^sup>*\<^sup>* s (storeStep op s)"
  using assms
  by (cases op) (simp_all add: claim_steps renew_steps fail_steps cancel_steps complete_steps
      cancelConversation_steps appendEvent_steps accept_steps [simplified] enqueue_steps result_steps idleI)

interpretation st: step_system storeStep freshOp storeInv
  by unfold_locales (rule coreSteps_inv [OF storeStep_refines])

text \<open>States the store can reach from the empty one.\<close>

inductive reachableStore :: "store \<Rightarrow> bool" where
  initial: "reachableStore emptyStore"
| step: "reachableStore s \<Longrightarrow> freshOp op s \<Longrightarrow> reachableStore (storeStep op s)"

lemma reachable_inv: "reachableStore s \<Longrightarrow> storeInv s"
  by (induction rule: reachableStore.induct) (auto intro: storeInv_empty st.step_inv)

lemma reachable_run: "enabledRun storeStep freshOp ops s \<Longrightarrow> reachableStore s \<Longrightarrow> reachableStore (fold storeStep ops s)"
  by (induction ops arbitrary: s) (auto intro: reachableStore.step)

end
