(* ===== verification/Store_Growth.thy ===== *)
theory Store_Growth
  imports Store_Refinement
begin

text \<open>
  What the store's operations never undo. \<open>storeGrows\<close> relates a state to every later one: a run
  keeps its identity and moves only along its life cycle, a finished run is never written again,
  idempotency records, messages, events and conversation owners stay what they were.
  \<open>isolated\<close> relates two states as seen by one actor when only other actors operated in between.
\<close>

section \<open>Growth\<close>

definition runsEvolve :: "store \<Rightarrow> store \<Rightarrow> bool" where
  "runsEvolve s t \<longleftrightarrow>
     (\<forall>key r. map_get (runs s) key = Some r \<longrightarrow>
       (\<exists>r'. map_get (runs t) key = Some r' \<and> sameTurn r r' \<and>
          runTransition\<^sup>*\<^sup>* (run_status r) (run_status r') \<and> (\<not> isNonterminal r \<longrightarrow> r' = r)))"

definition storeGrows :: "store \<Rightarrow> store \<Rightarrow> bool" where
  "storeGrows s t \<longleftrightarrow> runsEvolve s t \<and>
     (\<forall>k i. map_get (idempotency s) k = Some i \<and> i \<noteq> [] \<longrightarrow> map_get (idempotency t) k = Some i) \<and>
     (\<forall>K i m. find (\<lambda>x. msg_id x = i) (conversationMessages K s) = Some m \<longrightarrow>
        find (\<lambda>x. msg_id x = i) (conversationMessages K t) = Some m) \<and>
     (\<forall>k. \<exists>es. tenantEvents k t = tenantEvents k s @ es) \<and>
     (\<forall>K w. map_get (conversationOwners s) K = Some w \<longrightarrow> map_get (conversationOwners t) K = Some w)"

lemma sameTurn_refl [simp]: "sameTurn r r"
  by (simp add: sameTurn_def)

lemma sameTurn_trans: "sameTurn r r' \<Longrightarrow> sameTurn r' r'' \<Longrightarrow> sameTurn r r''"
  by (simp add: sameTurn_def)

lemma storeGrows_refl: "storeGrows s s"
  by (simp add: storeGrows_def runsEvolve_def)

lemma runsEvolveD:
  "runsEvolve s t \<Longrightarrow> map_get (runs s) key = Some r \<Longrightarrow>
    \<exists>r'. map_get (runs t) key = Some r' \<and> sameTurn r r' \<and>
      runTransition\<^sup>*\<^sup>* (run_status r) (run_status r') \<and> (\<not> isNonterminal r \<longrightarrow> r' = r)"
  by (simp add: runsEvolve_def)

lemma runsEvolve_trans:
  assumes "runsEvolve s t" "runsEvolve t u"
  shows "runsEvolve s u"
  unfolding runsEvolve_def
proof (intro allI impI)
  fix key r
  assume r: "map_get (runs s) key = Some r"
  from runsEvolveD [OF assms(1) r] obtain r' where r': "map_get (runs t) key = Some r'" "sameTurn r r'"
    "runTransition\<^sup>*\<^sup>* (run_status r) (run_status r')" "\<not> isNonterminal r \<longrightarrow> r' = r"
    by blast
  from runsEvolveD [OF assms(2) r'(1)] obtain r'' where "map_get (runs u) key = Some r''" "sameTurn r' r''"
    "runTransition\<^sup>*\<^sup>* (run_status r') (run_status r'')" "\<not> isNonterminal r' \<longrightarrow> r'' = r'"
    by blast
  with r' show "\<exists>r'. map_get (runs u) key = Some r' \<and> sameTurn r r' \<and>
      runTransition\<^sup>*\<^sup>* (run_status r) (run_status r') \<and> (\<not> isNonterminal r \<longrightarrow> r' = r)"
    by (auto intro: sameTurn_trans rtranclp_trans)
qed

lemma storeGrows_trans: "storeGrows s t \<Longrightarrow> storeGrows t u \<Longrightarrow> storeGrows s u"
  unfolding storeGrows_def
  by (intro conjI; (elim conjE)?; (blast intro: runsEvolve_trans)?) (metis append_assoc)

lemma storeGrows_core: "core s' = core t \<Longrightarrow> storeGrows s t \<Longrightarrow> storeGrows s s'"
  by (simp add: core_def storeGrows_def runsEvolve_def conversationMessages_def tenantEvents_def)

lemma runTransition_from_terminal: "runTransition (run_status r) st \<Longrightarrow> isNonterminal r"
  by (auto simp: isNonterminal_def elim: runTransition.cases)

lemma runsEvolve_set:
  assumes "map_get (runs s) key = Some r" "sameTurn r r'" "runTransition (run_status r) (run_status r')"
  shows "runsEvolve s (setRun key r' s)"
  using assms runTransition_from_terminal [OF assms(3)] by (auto simp: runsEvolve_def)

lemma storeGrows_set:
  assumes "map_get (runs s) key = Some r" "sameTurn r r'" "runTransition (run_status r) (run_status r')"
  shows "storeGrows s (setRun key r' s)"
  using runsEvolve_set [OF assms] by (simp add: storeGrows_def)

lemma find_insertAt: "\<not> P x \<Longrightarrow> find P (insertAt i x xs) = find P xs"
proof -
  have "find P (as @ x # bs) = find P (as @ bs)" if "\<not> P x" for as bs
    using that by (induction as) auto
  then show "\<not> P x \<Longrightarrow> find P (insertAt i x xs) = find P xs"
    by (simp add: insertAt_def)
qed

lemma storeGrows_insert:
  assumes "storeInv s" "\<not> messageIdUsed (msg_id m) s"
  shows "storeGrows s (s\<lparr>messages := map_set K (insertAt n m (conversationMessages K s)) (messages s)\<rparr>)"
proof -
  have "find (\<lambda>x. msg_id x = i) (insertAt n m (conversationMessages K s)) = Some x"
    if "find (\<lambda>x. msg_id x = i) (conversationMessages K s) = Some x" for i x
  proof -
    have "i \<in> set (map msg_id (conversationMessages K s))" using find_Some_mem [OF that] by auto
    then have "msg_id m \<noteq> i" using not_messageIdUsed [OF assms, of K] by blast
    then show ?thesis using that by (simp add: find_insertAt)
  qed
  then show ?thesis
    by (auto simp: storeGrows_def runsEvolve_def conversationMessages_def tenantEvents_def)
qed

lemma storeGrows_push: "storeGrows s (pushEvent k e s)"
  by (simp add: storeGrows_def runsEvolve_def)

lemma storeGrows_accept:
  assumes inv: "storeInv s" and new: "newTurn ctx m r s"
  shows "storeGrows s (acceptUpdate ctx m r s)"
proof -
  have "runsEvolve s (acceptUpdate ctx m r s)"
    by (auto simp: runsEvolve_def accept_fields [OF inv new] map_add_Some_iff newTurn_key_free [OF inv new]
        map_add_def split: option.split)
  moreover have "map_get (idempotency (acceptUpdate ctx m r s)) k = Some i"
    if "map_get (idempotency s) k = Some i" "i \<noteq> []" for k i
    using that new by (auto simp: acceptUpdate_def Let_def newTurn_def simp del: scopedKey_inj)
  moreover have "map_get (conversationOwners (acceptUpdate ctx m r s)) K = Some w"
    if "map_get (conversationOwners s) K = Some w" for K w
    using that new by (auto simp: acceptUpdate_def Let_def newTurn_def isConversationOwnedBy_def)
  ultimately show ?thesis
    by (auto simp: storeGrows_def accept_fields [OF inv new] dest: find_append_Some)
qed

lemma coreStep_grows:
  assumes "coreStep ctx s s'" "storeInv s"
  shows "storeGrows s s'"
  using assms
proof (cases rule: coreStep.cases)
  case idle
  then show ?thesis by (rule storeGrows_core) (rule storeGrows_refl)
next
  case (move runId r r')
  from move(8) storeGrows_set [OF move(1,2,4)] show ?thesis by (rule storeGrows_core)
next
  case (finish runId r r' m K i)
  let ?s = "s\<lparr>messages := map_set K (insertAt (i + 1) m (conversationMessages K s)) (messages s)\<rparr>"
  have "storeGrows s ?s" using storeGrows_insert [OF assms(2) finish(7)] .
  moreover have "storeGrows ?s (setRun (runKey ctx runId) r' ?s)"
    by (rule storeGrows_set [of _ _ r]) (use finish in \<open>auto intro: runTransition.intros\<close>)
  ultimately show ?thesis using finish(14) by (blast intro: storeGrows_core storeGrows_trans)
next
  case (accept m r e)
  from storeGrows_trans [OF storeGrows_accept [OF assms(2) accept(1)] storeGrows_push]
  show ?thesis by (rule storeGrows_core [OF accept(4)])
next
  case (append e)
  from append(2) storeGrows_push show ?thesis by (rule storeGrows_core)
qed

lemma coreSteps_grow:
  assumes "(coreStep ctx)\<^sup>*\<^sup>* s s'" "storeInv s"
  shows "storeGrows s s'"
  using assms
proof (induction rule: rtranclp_induct)
  case base
  show ?case by (rule storeGrows_refl)
next
  case (step t u)
  have "storeInv t" by (rule coreSteps_inv [OF step(1) step(4)])
  with step show ?case by (blast intro: storeGrows_trans coreStep_grows)
qed

interpretation grow: step_relation storeStep freshOp storeInv storeGrows
  by unfold_locales (blast intro: storeGrows_refl storeGrows_trans coreSteps_grow storeStep_refines)+

section \<open>Isolation\<close>

definition isolated :: "tenantExecutionContext \<Rightarrow> store \<Rightarrow> store \<Rightarrow> bool" where
  "isolated c s t \<longleftrightarrow>
     (\<forall>runId. map_get (runs t) (runKey c runId) = map_get (runs s) (runKey c runId)) \<and>
     (\<forall>runId. map_get (runContexts t) (runKey c runId) = map_get (runContexts s) (runKey c runId)) \<and>
     (\<forall>key. map_get (idempotency t) (idempotencyScope c key) = map_get (idempotency s) (idempotencyScope c key)) \<and>
     tenantEvents (actorScopeKey c) t = tenantEvents (actorScopeKey c) s \<and>
     (\<forall>conv. map_get (conversationOwners s) (tenantConversationScopeKey c conv) =
          Some \<lparr>owner_userId = userId c, owner_actorId = actorId c\<rparr> \<longrightarrow>
        map_get (conversationOwners t) (tenantConversationScopeKey c conv) =
          Some \<lparr>owner_userId = userId c, owner_actorId = actorId c\<rparr> \<and>
        conversationMessages (tenantConversationScopeKey c conv) t =
          conversationMessages (tenantConversationScopeKey c conv) s)"

lemma isolated_refl: "isolated c s s"
  by (simp add: isolated_def)

lemma isolated_trans: "isolated c s t \<Longrightarrow> isolated c t u \<Longrightarrow> isolated c s u"
  by (simp add: isolated_def)

lemma isolated_core: "core s' = core t \<Longrightarrow> isolated c s t \<Longrightarrow> isolated c s s'"
  by (simp add: core_def isolated_def conversationMessages_def tenantEvents_def)

lemma foreign_keys:
  assumes "actorScopeKey ctx \<noteq> actorScopeKey c"
  shows "runKey c i \<noteq> runKey ctx j" "idempotencyScope c i \<noteq> idempotencyScope ctx j"
  using assms by auto

lemma foreign_conversation:
  assumes "actorScopeKey ctx \<noteq> actorScopeKey c" "isConversationOwnedBy ctx (tenantConversationScopeKey ctx x) s"
    "map_get (conversationOwners s) (tenantConversationScopeKey c y) =
       Some \<lparr>owner_userId = userId c, owner_actorId = actorId c\<rparr>"
  shows "tenantConversationScopeKey c y \<noteq> tenantConversationScopeKey ctx x"
  using assms
  by (auto simp: isConversationOwnedBy_def tenantConversationScopeKey_convKey split: option.splits)

lemma run_conversation_owned:
  assumes "storeInv s" "map_get (runs s) (runKey ctx runId) = Some r"
  shows "isConversationOwnedBy ctx (tenantConversationScopeKey ctx (run_conversationId r)) s"
  using storeInv_run [OF assms]
  by (auto simp: filedUnder_def isConversationOwnedBy_def runConvKey_def tenantConversationScopeKey_convKey
      split: option.splits)

lemma isolated_push:
  "actorScopeKey ctx \<noteq> actorScopeKey c \<Longrightarrow> isolated c s (pushEvent (actorScopeKey ctx) e s)"
  by (auto simp: isolated_def simp del: actorScopeKey_inj)

lemma coreStep_isolated:
  assumes step: "coreStep ctx s s'" and inv: "storeInv s" and foreign: "actorScopeKey ctx \<noteq> actorScopeKey c"
  shows "isolated c s s'"
  using step
proof (cases rule: coreStep.cases)
  case idle
  then show ?thesis by (rule isolated_core) (rule isolated_refl)
next
  case (move runId r r')
  have "isolated c s (setRun (runKey ctx runId) r' s)"
    using foreign_keys [OF foreign] by (simp add: isolated_def del: scopedKey_inj)
  with move(8) show ?thesis by (rule isolated_core)
next
  case (finish runId r r' m K i)
  have "isolated c s (setRun (runKey ctx runId) r' (s\<lparr>messages := map_set K
      (insertAt (i + 1) m (conversationMessages K s)) (messages s)\<rparr>))"
    using foreign_keys [OF foreign] foreign_conversation [OF foreign run_conversation_owned [OF inv finish(1)]]
      finish(12)
    by (auto simp: isolated_def conversationMessages_def tenantEvents_def
        simp del: scopedKey_inj tenantConversationScopeKey_inj)
  with finish(14) show ?thesis by (rule isolated_core)
next
  case (accept m r e)
  have "isConversationOwnedBy ctx (tenantConversationScopeKey ctx (run_conversationId r)) s"
    using accept(1) by (simp add: newTurn_def)
  with foreign_keys [OF foreign] foreign_conversation [OF foreign]
  have "isolated c s (acceptUpdate ctx m r s)"
    by (auto simp: isolated_def acceptUpdate_def Let_def conversationMessages_def tenantEvents_def
        simp del: scopedKey_inj tenantConversationScopeKey_inj actorScopeKey_inj)
  from isolated_trans [OF this isolated_push [OF foreign]] show ?thesis
    by (rule isolated_core [OF accept(4)])
next
  case (append e)
  from append(2) isolated_push [OF foreign] show ?thesis by (rule isolated_core)
qed

lemma coreSteps_isolated:
  assumes "(coreStep ctx)\<^sup>*\<^sup>* s s'" "storeInv s" "actorScopeKey ctx \<noteq> actorScopeKey c"
  shows "isolated c s s'"
  using assms
proof (induction rule: rtranclp_induct)
  case base
  show ?case by (rule isolated_refl)
next
  case (step t u)
  have "storeInv t" by (rule coreSteps_inv [OF step(1) step(4)])
  with step show ?case by (blast intro: isolated_trans coreStep_isolated)
qed

definition foreignOp :: "tenantExecutionContext \<Rightarrow> storeOp \<Rightarrow> store \<Rightarrow> bool" where
  "foreignOp c op s \<longleftrightarrow> freshOp op s \<and> actorScopeKey (opContext op) \<noteq> actorScopeKey c"

interpretation iso: step_relation storeStep "foreignOp c" storeInv "isolated c" for c
  by unfold_locales
    (auto simp: foreignOp_def simp del: actorScopeKey_inj
      intro: isolated_refl isolated_trans coreSteps_isolated storeStep_refines st.step_inv)

end
