(* ===== verification/Run_Properties.thy ===== *)
theory Run_Properties
  imports Store_Growth
begin

text \<open>
  The properties of the concurrent runtime store that span its run, conversation and event
  operations, each for every state the store can reach, with a concrete scenario as witness: two
  messages accepted in one conversation, the first run claimed, completed, and so on.
\<close>

section \<open>A scenario\<close>

definition demoCtx :: tenantExecutionContext where
  "demoCtx = \<lparr>organizationId = ''o'', userId = ''u'', assistantId = ''a'', actorId = ''x'', requestId = ''q'',
     conversationId = Some ''c'', idempotencyKey = None, authorizationVersion = 1, configVersion = 1,
     runtimeGeneration = 1\<rparr>"

definition demoInput :: "string \<Rightarrow> acceptConcurrentMessageInput" where
  "demoInput k = \<lparr>in_conversationId = Some ''c'', in_content = ''hi'', in_clientMessageId = Some k,
     in_onboardingContext = None\<rparr>"

definition demoIds :: "string \<Rightarrow> freshIds" where
  "demoIds k = \<lparr>fresh_conversation = ''fc'', fresh_message = CHR ''m'' # k, fresh_run = CHR ''r'' # k,
     fresh_event = CHR ''e'' # k\<rparr>"

definition demoAccept :: "string \<Rightarrow> int \<Rightarrow> storeOp" where
  "demoAccept k now = OpAccept demoCtx (demoInput k) now (demoIds k)"

definition demoTwo :: store where
  "demoTwo = fold storeStep [demoAccept ''1'' 1, demoAccept ''2'' 2] emptyStore"

definition demoClaimed :: store where
  "demoClaimed = storeStep (OpClaim demoCtx ''r1'' ''w1'' 100 3) demoTwo"

definition demoComplete :: storeOp where
  "demoComplete = OpComplete demoCtx ''r1''
     \<lparr>cin_assistantMessageId = ''reply'', cin_content = ''hello'', cin_leaseOwner = ''w1''\<rparr> 4"

lemma demoTwo_reachable: "reachableStore demoTwo"
proof -
  have "enabledRun storeStep freshOp [demoAccept ''1'' 1, demoAccept ''2'' 2] emptyStore" by code_simp
  then show ?thesis unfolding demoTwo_def by (rule reachable_run) (rule reachableStore.initial)
qed

lemma demoClaimed_reachable: "reachableStore demoClaimed"
  unfolding demoClaimed_def by (rule reachableStore.step [OF demoTwo_reachable]) simp

section \<open>Runs\<close>

lemma length_filter_le_1:
  "(\<And>i j. i < j \<Longrightarrow> j < length xs \<Longrightarrow> \<not> (P (xs ! i) \<and> P (xs ! j))) \<Longrightarrow> length (filter P xs) \<le> 1"
proof (induction xs)
  case (Cons x xs)
  show ?case
  proof (cases "P x")
    case True
    then have "\<not> P (xs ! j)" if "j < length xs" for j
      using Cons.prems [of 0 "Suc j"] that by simp
    then have "filter P xs = []" by (auto simp: filter_empty_conv in_set_conv_nth)
    then show ?thesis by simp
  next
    case False
    have "length (filter P xs) \<le> 1"
      using Cons.prems [of "Suc i" "Suc j" for i j] by (intro Cons.IH) auto
    with False show ?thesis by simp
  qed
qed simp

lemma convRuns_turn:
  assumes "storeInv s" "i < length (convRuns K s)"
  shows "run_turnSequence (convRuns K s ! i) = i"
proof -
  have eq: "map run_turnSequence (convRuns K s) = [0..<get_or 0 (map_get (nextTurnSequence s) K)]"
    using assms(1) by (simp add: storeInv_def turnsNumbered_def)
  then have "length (convRuns K s) = get_or 0 (map_get (nextTurnSequence s) K)"
    by (metis length_map length_upt diff_zero)
  with eq assms(2) show ?thesis by (metis nth_map nth_upt add_0)
qed

lemma convRuns_mem:
  "r \<in> set (convRuns K s) \<longleftrightarrow> r \<in> set (map_values (runs s)) \<and> runConvKey r = K"
  by (auto simp: convRuns_def)

lemma sameConversation_convKey:
  "sameConversation org assistant c r \<longleftrightarrow> runConvKey r = convKey org assistant c"
  by (auto simp: sameConversation_def runConvKey_def)

lemma inFlight_earlier_finished:
  assumes "storeInv s" "r \<in> set (map_values (runs s))" "inFlight r"
    "x \<in> set (map_values (runs s))" "runConvKey x = runConvKey r" "run_turnSequence x < run_turnSequence r"
  shows "\<not> isNonterminal x"
  using assms by (auto simp: storeInv_def singleFlight_def earlierNonterminal_iff)

text \<open>
  C1: at most one run of a conversation is in flight. In every state the store can reach, whatever
  sequence of operations by whatever actors led there, no conversation has two runs that are
  \<open>processing\<close> or \<open>waiting_for_browser\<close>.
\<close>

theorem run_single_flight:
  assumes "reachableStore s"
  shows "length (filter (\<lambda>r. sameConversation org assistant c r \<and> inFlight r) (map_values (runs s))) \<le> 1"
proof -
  let ?L = "convRuns (convKey org assistant c) s"
  have inv: "storeInv s" by (rule reachable_inv [OF assms])
  have "length (filter inFlight ?L) \<le> 1"
  proof (rule length_filter_le_1)
    fix i j
    assume ij: "i < j" "j < length ?L"
    then have "?L ! i \<in> set ?L" "?L ! j \<in> set ?L" by (simp_all add: nth_mem)
    moreover have "run_turnSequence (?L ! i) < run_turnSequence (?L ! j)"
      using ij convRuns_turn [OF inv] by simp
    ultimately have "inFlight (?L ! j) \<Longrightarrow> \<not> isNonterminal (?L ! i)"
      unfolding convRuns_mem using inFlight_earlier_finished [OF inv] by metis
    then show "\<not> (inFlight (?L ! i) \<and> inFlight (?L ! j))" by (auto dest: inFlight_isNonterminal)
  qed
  then show ?thesis by (simp add: convRuns_def sameConversation_convKey conj_commute)
qed

theorem run_single_flight_witness:
  "length (filter (\<lambda>r. sameConversation ''o'' ''a'' ''c'' r \<and> inFlight r) (map_values (runs demoClaimed))) \<le> 1 \<and>
   map run_status (map_values (runs demoClaimed)) = [Processing, Queued]"
proof
  show "length (filter (\<lambda>r. sameConversation ''o'' ''a'' ''c'' r \<and> inFlight r) (map_values (runs demoClaimed))) \<le> 1"
    by (rule run_single_flight [OF demoClaimed_reachable])
  show "map run_status (map_values (runs demoClaimed)) = [Processing, Queued]" by code_simp
qed

text \<open>
  C5: a run only moves along its life cycle and a finished run is final. From any reachable state,
  after any sequence of operations, every run is still there with the same identity (id, tenant,
  conversation, user message, turn), its status has moved along the edges of \<open>runTransition\<close>, and a
  run that was completed, failed or cancelled is unchanged in every field.
\<close>

theorem run_lifecycle:
  assumes "reachableStore s" "enabledRun storeStep freshOp ops s" "map_get (runs s) key = Some r"
  shows "\<exists>r'. map_get (runs (fold storeStep ops s)) key = Some r' \<and> sameTurn r r' \<and>
    runTransition\<^sup>*\<^sup>* (run_status r) (run_status r') \<and>
    (run_status r \<in> {Completed, Failed, Cancelled} \<longrightarrow> r' = r)"
proof -
  have "storeGrows s (fold storeStep ops s)"
    by (rule grow.run_rel [OF reachable_inv [OF assms(1)] assms(2)])
  then have "runsEvolve s (fold storeStep ops s)" by (simp add: storeGrows_def)
  from runsEvolveD [OF this assms(3)] show ?thesis unfolding isNonterminal_iff by blast
qed

theorem run_lifecycle_witness:
  "\<exists>r'. map_get (runs (fold storeStep [demoComplete, OpCancel demoCtx ''r1'' 5] demoClaimed))
       (runKey demoCtx ''r1'') = Some r' \<and>
     sameTurn (the (map_get (runs demoClaimed) (runKey demoCtx ''r1''))) r' \<and>
     runTransition\<^sup>*\<^sup>* Processing (run_status r') \<and>
     (Processing \<in> {Completed, Failed, Cancelled} \<longrightarrow>
        r' = the (map_get (runs demoClaimed) (runKey demoCtx ''r1'')))"
proof -
  let ?r = "the (map_get (runs demoClaimed) (runKey demoCtx ''r1''))"
  have run: "enabledRun storeStep freshOp [demoComplete, OpCancel demoCtx ''r1'' 5] demoClaimed" by code_simp
  have "map_get (runs demoClaimed) (runKey demoCtx ''r1'') \<noteq> None" by code_simp
  then have get: "map_get (runs demoClaimed) (runKey demoCtx ''r1'') = Some ?r" by auto
  have status: "run_status ?r = Processing" by code_simp
  from run_lifecycle [OF demoClaimed_reachable run get, unfolded status] show ?thesis .
qed

section \<open>Accepting a message exactly once\<close>

lemma find_last: "find P xs = None \<Longrightarrow> P x \<Longrightarrow> find P (xs @ [x]) = Some x"
  by (induction xs) (auto split: if_splits)

lemma find_user_message:
  assumes "storeInv s" "newTurn ctx m r s"
  shows "find (\<lambda>x. msg_id x = msg_id m) (conversationMessages (runConvKey r) (acceptUpdate ctx m r s)) = Some m"
proof -
  have "msg_id m \<notin> set (map msg_id (conversationMessages (runConvKey r) s))"
    using not_messageIdUsed [OF assms(1)] assms(2) by (simp add: newTurn_def)
  then have "find (\<lambda>x. msg_id x = msg_id m) (conversationMessages (runConvKey r) s) = None"
    by (metis (mono_tags, lifting) find_None_iff imageI list.set_map)
  then show ?thesis by (simp add: accept_fields [OF assms] find_last)
qed

lemma find_echo:
  assumes "eventsNumbered s" "\<not> echoUsed i s" "isEchoOf i e"
  shows "find (isEchoOf i) (tenantEvents k s @ [e]) = Some e"
proof -
  have "\<not> isEchoOf i x" if "x \<in> set (tenantEvents k s)" for x
  proof -
    from that obtain es where es: "map_get (events s) k = Some es" "x \<in> set es"
      by (auto simp: tenantEvents_def split: option.splits) (cases "map_get (events s) k"; auto)
    then have "es \<in> set (map_values (events s))"
      using assms(1) by (auto simp: eventsNumbered_def in_values_iff)
    with es(2) assms(2) show ?thesis by (auto simp: echoUsed_def list_ex_iff)
  qed
  then have "find (isEchoOf i) (tenantEvents k s) = None" by (simp add: find_None_iff)
  then show ?thesis using assms(3) by (rule find_last)
qed

text \<open>
  Everything an accepted message leaves behind: its idempotency record, its run, its message and
  its event. All four survive any later operation.
\<close>

definition acceptedIn :: "tenantExecutionContext \<Rightarrow> string \<Rightarrow> acceptedConcurrentRun \<Rightarrow> store \<Rightarrow> bool" where
  "acceptedIn ctx key a s \<longleftrightarrow>
     run_id (acc_run a) \<noteq> [] \<and> acc_conversationId a = run_conversationId (acc_run a) \<and>
     run_userMessageId (acc_run a) = msg_id (acc_userMessage a) \<and>
     map_get (idempotency s) (idempotencyScope ctx key) = Some (run_id (acc_run a)) \<and>
     (\<exists>r. map_get (runs s) (runKey ctx (run_id (acc_run a))) = Some r \<and> sameTurn (acc_run a) r) \<and>
     find (\<lambda>x. msg_id x = msg_id (acc_userMessage a))
       (conversationMessages (tenantConversationScopeKey ctx (acc_conversationId a)) s) = Some (acc_userMessage a) \<and>
     find (isEchoOf (msg_id (acc_userMessage a))) (tenantEvents (actorScopeKey ctx) s) = Some (acc_event a)"

lemma acceptedIn_core: "core s' = core s \<Longrightarrow> acceptedIn ctx key a s' = acceptedIn ctx key a s"
  by (simp add: acceptedIn_def core_def conversationMessages_def tenantEvents_def)

lemma acceptedIn_new:
  assumes inv: "storeInv s" and fresh: "freshOp (OpAccept ctx input now ids) s"
    and a: "acceptMessage ctx input now ids s = (Inr a, s')" "acc_created a"
  shows "acceptedIn ctx (acceptKey ctx input) a s'"
proof -
  let ?m = "acceptUserMessage ctx input now ids" and ?r = "acceptRun ctx input now ids s"
  let ?e = "acceptEvent ctx ?m ?r now (fresh_event ids) s"
  have acc: "acceptsNew ctx input ids s"
  proof (rule ccontr)
    assume "\<not> acceptsNew ctx input ids s"
    with a show False
      by (auto simp: acceptsNew_def acceptMessage_def acceptExisting_def Let_def owner_set_not_owned
          split: option.splits if_splits)
  qed
  note new = accept_newTurn [OF acc fresh]
  have s': "core s' = core (pushEvent (actorScopeKey ctx) ?e (acceptUpdate ctx ?m ?r s))"
    using acceptMessage_new(2) [OF acc, of now] a(1) by simp
  have echo: "find (isEchoOf (msg_id ?m)) (tenantEvents (actorScopeKey ctx) s @ [?e]) = Some ?e"
    using inv new by (intro find_echo) (simp_all add: storeInv_def newTurn_def acceptEvent_def isEchoOf_echoMessage)
  have a_eq: "a = \<lparr>acc_created = True, acc_conversationId = acceptConversation ctx input ids,
      acc_userMessage = ?m, acc_run = ?r, acc_event = ?e\<rparr>"
    using acceptMessage_new(1) [OF acc, of now] a(1) by simp
  have conv: "run_conversationId ?r = acceptConversation ctx input ids"
    "run_userMessageId ?r = msg_id ?m" "run_idempotencyKey ?r = acceptKey ctx input"
    by (simp_all add: acceptRun_def newRun_def acceptUserMessage_def newUserMessage_def)
  show ?thesis
    unfolding acceptedIn_core [OF s']
    using new echo find_user_message [OF inv new] newTurn_convKey [OF new] conv
      newTurn_key_free [OF inv new]
    by (simp add: acceptedIn_def a_eq accept_fields [OF inv new] newTurn_def map_add_def)
      (simp add: acceptUpdate_def Let_def)
qed

lemma acceptedIn_grows:
  assumes "acceptedIn ctx key a s" "storeGrows s t"
  shows "acceptedIn ctx key a t"
proof -
  from assms obtain r where r: "map_get (runs s) (runKey ctx (run_id (acc_run a))) = Some r" "sameTurn (acc_run a) r"
    by (auto simp: acceptedIn_def)
  from assms(2) have "runsEvolve s t" by (simp add: storeGrows_def)
  from runsEvolveD [OF this r(1)] obtain r' where
    "map_get (runs t) (runKey ctx (run_id (acc_run a))) = Some r'" "sameTurn (acc_run a) r'"
    using r(2) sameTurn_trans by blast
  moreover obtain es where "tenantEvents (actorScopeKey ctx) t = tenantEvents (actorScopeKey ctx) s @ es"
    using assms(2) unfolding storeGrows_def by blast
  ultimately show ?thesis
    using assms by (auto simp: acceptedIn_def storeGrows_def find_append_Some)
qed

lemma acceptExisting_accepted:
  assumes "acceptedIn ctx key a s" "actorScopeKey c = actorScopeKey ctx"
  shows "\<exists>r s'. acceptExisting c input (run_id (acc_run a)) s = (Inr (a\<lparr>acc_created := False, acc_run := r\<rparr>), s') \<and>
    sameTurn (acc_run a) r"
proof -
  have eq: "runKey c i = runKey ctx i" "tenantConversationScopeKey c x = tenantConversationScopeKey ctx x" for i x
    using assms(2) by (simp_all add: runKey_def tenantConversationScopeKey_def)
  from assms(1) obtain r where r: "map_get (runs s) (runKey ctx (run_id (acc_run a))) = Some r"
    "sameTurn (acc_run a) r"
    by (auto simp: acceptedIn_def)
  moreover from r(2) have "run_conversationId r = run_conversationId (acc_run a)"
    "run_userMessageId r = run_userMessageId (acc_run a)"
    by (simp_all add: sameTurn_def)
  ultimately show ?thesis
    using assms
    by (cases a) (simp add: acceptExisting_def eq acceptedIn_def Let_def conversationMessages_def
        tenantEvents_def assms(2) del: actorScopeKey_inj scopedKey_inj)
qed



section \<open>Transcripts\<close>

text \<open>
  C3: a conversation's transcript is its turns, in order. In every reachable state the runs of a
  conversation, in the order they were accepted, carry the turn numbers 0, 1, 2, ... without gaps,
  and the message list of the conversation is exactly the concatenation of the turns: each user
  message, immediately followed by the reply of its run when that run completed.
\<close>

theorem transcript_is_turns:
  assumes "reachableStore s"
  shows "let turns = convRuns K s in
    map run_turnSequence turns = [0..<length turns] \<and>
    map msg_id (conversationMessages K s) = concat (map turnIds turns) \<and>
    distinct (map msg_id (conversationMessages K s))"
proof -
  have inv: "storeInv s" by (rule reachable_inv [OF assms])
  have "map run_turnSequence (convRuns K s) = [0..<length (convRuns K s)]"
    by (rule nth_equalityI) (simp_all add: convRuns_turn [OF inv])
  then show ?thesis using storeInv_ids [OF inv] by (simp add: Let_def)
qed

theorem transcript_is_turns_witness:
  "(let turns = convRuns (convKey ''o'' ''a'' ''c'') (storeStep demoComplete demoClaimed) in
    map run_turnSequence turns = [0..<length turns] \<and>
    map msg_id (conversationMessages (convKey ''o'' ''a'' ''c'') (storeStep demoComplete demoClaimed)) =
      concat (map turnIds turns) \<and>
    distinct (map msg_id (conversationMessages (convKey ''o'' ''a'' ''c'') (storeStep demoComplete demoClaimed)))) \<and>
   map msg_id (conversationMessages (convKey ''o'' ''a'' ''c'') (storeStep demoComplete demoClaimed)) =
     [''m1'', ''reply'', ''m2'']"
proof
  have "freshOp demoComplete demoClaimed" by code_simp
  then have "reachableStore (storeStep demoComplete demoClaimed)"
    by (rule reachableStore.step [OF demoClaimed_reachable])
  then show "let turns = convRuns (convKey ''o'' ''a'' ''c'') (storeStep demoComplete demoClaimed) in
    map run_turnSequence turns = [0..<length turns] \<and>
    map msg_id (conversationMessages (convKey ''o'' ''a'' ''c'') (storeStep demoComplete demoClaimed)) =
      concat (map turnIds turns) \<and>
    distinct (map msg_id (conversationMessages (convKey ''o'' ''a'' ''c'') (storeStep demoComplete demoClaimed)))"
    by (rule transcript_is_turns)
  show "map msg_id (conversationMessages (convKey ''o'' ''a'' ''c'') (storeStep demoComplete demoClaimed)) =
     [''m1'', ''reply'', ''m2'']"
    by code_simp
qed

lemma claimRun_Some:
  assumes "claimRun ctx runId lo exp now s = (Inr (Some c), s')"
  shows "\<exists>r i. map_get (runs s) (runKey ctx runId) = Some r \<and> claimable now r \<and> \<not> earlierNonterminal r s \<and>
    findIndex (\<lambda>m. msg_id m = run_userMessageId r)
      (conversationMessages (tenantConversationScopeKey ctx (run_conversationId r)) s) = Some i \<and>
    claimed_run c = r\<lparr>run_status := Processing, run_leaseOwner := Some lo, run_leaseExpiresAt := Some exp,
      run_updatedAt := now\<rparr> \<and>
    s' = setRun (runKey ctx runId) (claimed_run c) s \<and>
    claimed_messages c =
      take (i + 1) (conversationMessages (tenantConversationScopeKey ctx (run_conversationId r)) s)"
  using assms
  by (auto simp: claimRun_def Let_def split: option.splits if_splits sum.splits)

lemma run_convKey:
  assumes "storeInv s" "map_get (runs s) (runKey ctx runId) = Some r"
  shows "tenantConversationScopeKey ctx (run_conversationId r) = runConvKey r"
  using storeInv_run [OF assms]
  by (auto simp: filedUnder_def runConvKey_def tenantConversationScopeKey_convKey split: option.splits)

lemma convRuns_split:
  assumes "storeInv s" "r \<in> set (map_values (runs s))"
  shows "\<exists>pre post. convRuns (runConvKey r) s = pre @ r # post \<and> length pre = run_turnSequence r"
proof -
  have "r \<in> set (convRuns (runConvKey r) s)" using assms(2) by (simp add: convRuns_mem)
  then obtain i where i: "i < length (convRuns (runConvKey r) s)" "convRuns (runConvKey r) s ! i = r"
    by (auto simp: in_set_conv_nth)
  then have "run_turnSequence r = i" using convRuns_turn [OF assms(1) i(1)] by simp
  with i show ?thesis
    using id_take_nth_drop [OF i(1)] by (intro exI [of _ "take i (convRuns (runConvKey r) s)"]
        exI [of _ "drop (Suc i) (convRuns (runConvKey r) s)"]) auto
qed

lemma earlier_in_pre:
  assumes inv: "storeInv s" and pp: "convRuns K s = pre @ r # post" "length pre = run_turnSequence r"
    and x: "x \<in> set pre"
  shows "x \<in> set (map_values (runs s)) \<and> runConvKey x = runConvKey r \<and> run_turnSequence x < run_turnSequence r"
proof -
  from x obtain j where j: "j < length pre" "pre ! j = x" by (auto simp: in_set_conv_nth)
  then have "run_turnSequence x = j"
    using convRuns_turn [OF inv, of j K] pp(1) by (simp add: nth_append)
  moreover have "x \<in> set (convRuns K s)" "r \<in> set (convRuns K s)" using x pp(1) by simp_all
  ultimately show ?thesis using j(1) pp(2) by (simp add: convRuns_mem)
qed

text \<open>
  A claimed run sees exactly the finished conversation before it. When a worker claims a run of
  a reachable store, the messages handed to the model are the turns before it, each with its reply
  if it has one, followed by the run's own user message and nothing later, and every earlier run of
  the conversation has finished.
\<close>

theorem claim_sees_finished_history:
  assumes "reachableStore s" "claimRun ctx runId lo exp now s = (Inr (Some c), s')"
  shows "let earlier = take (run_turnSequence (claimed_run c)) (convRuns (runConvKey (claimed_run c)) s) in
    map msg_id (claimed_messages c) = concat (map turnIds earlier) @ [run_userMessageId (claimed_run c)] \<and>
    length earlier = run_turnSequence (claimed_run c) \<and> list_all (\<lambda>x. \<not> isNonterminal x) earlier"
proof -
  have inv: "storeInv s" by (rule reachable_inv [OF assms(1)])
  from claimRun_Some [OF assms(2)] obtain r i where r: "map_get (runs s) (runKey ctx runId) = Some r"
    "claimable now r" "\<not> earlierNonterminal r s"
    and i: "findIndex (\<lambda>m. msg_id m = run_userMessageId r)
      (conversationMessages (tenantConversationScopeKey ctx (run_conversationId r)) s) = Some i"
    and c: "claimed_run c = r\<lparr>run_status := Processing, run_leaseOwner := Some lo, run_leaseExpiresAt := Some exp,
      run_updatedAt := now\<rparr>"
      "claimed_messages c = take (i + 1) (conversationMessages (tenantConversationScopeKey ctx (run_conversationId r)) s)"
    by blast
  note K = run_convKey [OF inv r(1)]
  have mem: "r \<in> set (map_values (runs s))" using r(1) in_runs_iff [OF inv] by blast
  obtain pre post where pp: "convRuns (runConvKey r) s = pre @ r # post" "length pre = run_turnSequence r"
    using convRuns_split [OF inv mem] by blast
  have "run_assistantMessageId r = None"
    using storeInv_run [OF inv r(1)] r(2) by (auto simp: runOk_def claimable_def)
  then have ids: "map msg_id (conversationMessages (runConvKey r) s) =
      concat (map turnIds pre) @ run_userMessageId r # concat (map turnIds post)"
    using storeInv_ids(1) [OF inv, of "runConvKey r"] pp(1) by (simp add: turnIds_def)
  have "map msg_id (conversationMessages (runConvKey r) s) ! i = run_userMessageId r"
    "i < length (map msg_id (conversationMessages (runConvKey r) s))"
    using i K by (simp_all add: findIndex_Some)
  moreover have "map msg_id (conversationMessages (runConvKey r) s) ! length (concat (map turnIds pre)) =
      run_userMessageId r" "length (concat (map turnIds pre)) < length (map msg_id (conversationMessages (runConvKey r) s))"
    unfolding ids by simp_all
  ultimately have "i = length (concat (map turnIds pre))"
    using nth_eq_iff_index_eq [OF storeInv_ids(2) [OF inv, of "runConvKey r"]] by metis
  then have "map msg_id (claimed_messages c) = concat (map turnIds pre) @ [run_userMessageId r]"
    using ids by (simp add: c(2) K take_map [symmetric])
  moreover have "list_all (\<lambda>x. \<not> isNonterminal x) pre"
    using r(3) earlier_in_pre [OF inv pp] by (auto simp: list_all_iff earlierNonterminal_iff)
  ultimately show ?thesis using pp c(1) by (simp add: runConvKey_def)
qed

definition demoSecond :: store where
  "demoSecond = storeStep demoComplete demoClaimed"

lemma demoSecond_reachable: "reachableStore demoSecond"
proof -
  have "freshOp demoComplete demoClaimed" by code_simp
  then show ?thesis unfolding demoSecond_def by (rule reachableStore.step [OF demoClaimed_reachable])
qed

theorem claim_sees_finished_history_witness:
  "\<exists>c s'. claimRun demoCtx ''r2'' ''w2'' 200 5 demoSecond = (Inr (Some c), s') \<and>
    (let earlier = take (run_turnSequence (claimed_run c)) (convRuns (runConvKey (claimed_run c)) demoSecond) in
    map msg_id (claimed_messages c) = concat (map turnIds earlier) @ [run_userMessageId (claimed_run c)] \<and>
    length earlier = run_turnSequence (claimed_run c) \<and> list_all (\<lambda>x. \<not> isNonterminal x) earlier)"
proof -
  let ?r = "claimRun demoCtx ''r2'' ''w2'' 200 5 demoSecond"
  have "isl (fst ?r) = False" "projr (fst ?r) \<noteq> None" by code_simp+
  then obtain c where "fst ?r = Inr (Some c)" by (metis isl_def option.exhaust sum.collapse(2))
  then have r: "?r = (Inr (Some c), snd ?r)" by (metis prod.collapse)
  from claim_sees_finished_history [OF demoSecond_reachable r] r show ?thesis by blast
qed

section \<open>Leases\<close>

text \<open>
  C6: leases fence. Once a worker has claimed a run, no other worker can complete it, fail it,
  renew it or park it on a browser action: every such attempt under another lease owner is refused
  and leaves the store exactly as it was.
\<close>

theorem lease_fencing:
  assumes "claimRun ctx runId owner exp now s = (Inr (Some c), s')"
    "other \<noteq> owner" "cin_leaseOwner cin = other" "fin_leaseOwner fin = other"
    "enq_leaseOwner enq = Some other" "other \<noteq> []" "enq_runId enq = runId"
  shows "completeRun ctx runId cin t s' =
      (Inl (StoreError ''Run lease is no longer owned by this worker.'' LeaseLost), s') \<and>
    failRun ctx runId fin t s' = (Inr False, s') \<and>
    renewRunLease ctx runId other exp' t s' = (Inr False, s') \<and>
    (\<exists>e. enqueueBrowserAction ctx enq t u s' = (Inl e, s'))"
proof -
  obtain run where run: "map_get (runs s') (runKey ctx runId) = Some run" "run_status run = Processing"
    "run_leaseOwner run = Some owner"
    using claimRun_Some [OF assms(1)] by auto
  moreover have "assertContext ctx = None"
    using assms(1) by (auto simp: claimRun_def split: option.splits)
  ultimately show ?thesis
    using assms(2-)
    by (auto simp: completeRun_def requireLeasedRun_def scopedRun_def failRun_def renewRunLease_def
        enqueueBrowserAction_def split: option.split)
qed

definition demoEnqueue :: "string \<Rightarrow> enqueueBrowserActionInput" where
  "demoEnqueue owner = \<lparr>enq_conversationId = ''c'', enq_runId = ''r1'', enq_toolUseId = ''t1'',
     enq_actionId = ''a1'', enq_operation = OpenSession None, enq_operationHash = ''h'',
     enq_replayClass = NonReplayable, enq_expectedDocumentEpoch = None, enq_deadlineAt = 1000,
     enq_leaseOwner = Some owner, enq_providerContent = None, enq_executionConfig = None\<rparr>"

theorem lease_fencing_witness:
  "let s' = demoClaimed; cin = \<lparr>cin_assistantMessageId = ''m'', cin_content = ''x'', cin_leaseOwner = ''w2''\<rparr>;
     fin = \<lparr>fin_errorCode = ''e'', fin_errorMessage = ''m'', fin_leaseOwner = ''w2''\<rparr> in
   completeRun demoCtx ''r1'' cin 4 s' =
      (Inl (StoreError ''Run lease is no longer owned by this worker.'' LeaseLost), s') \<and>
    failRun demoCtx ''r1'' fin 4 s' = (Inr False, s') \<and>
    renewRunLease demoCtx ''r1'' ''w2'' 200 4 s' = (Inr False, s') \<and>
    (\<exists>e. enqueueBrowserAction demoCtx (demoEnqueue ''w2'') 4 ''u'' s' = (Inl e, s'))"
proof -
  let ?r = "claimRun demoCtx ''r1'' ''w1'' 100 3 demoTwo"
  have "isl (fst ?r) = False" "projr (fst ?r) \<noteq> None" by code_simp+
  then obtain c where "fst ?r = Inr (Some c)" by (metis isl_def option.exhaust sum.collapse(2))
  moreover have "snd ?r = demoClaimed" by (simp add: demoClaimed_def)
  ultimately have r: "?r = (Inr (Some c), demoClaimed)" by (metis prod.collapse)
  show ?thesis
    unfolding Let_def by (rule lease_fencing [OF r, where other = "''w2''"]) (simp_all add: demoEnqueue_def)
qed

section \<open>Isolation between actors\<close>

text \<open>
  C4: actors are isolated. Whatever sequence of operations other actors perform (another
  organization, assistant, user or actor), an actor's runs, their execution contexts, its
  idempotency records, its event log and the messages of the conversations it owns stay the same.
\<close>

theorem tenant_isolation:
  assumes "reachableStore s" "enabledRun storeStep (foreignOp c) ops s"
  shows "let t = fold storeStep ops s in
    getRun c runId t = getRun c runId s \<and>
    map_get (runContexts t) (runKey c runId) = map_get (runContexts s) (runKey c runId) \<and>
    map_get (idempotency t) (idempotencyScope c key) = map_get (idempotency s) (idempotencyScope c key) \<and>
    listEvents c afterSeq f limit t = listEvents c afterSeq f limit s \<and>
    (map_get (conversationOwners s) (tenantConversationScopeKey c conv) =
       Some \<lparr>owner_userId = userId c, owner_actorId = actorId c\<rparr> \<longrightarrow>
     listMessages c conv t = listMessages c conv s)"
proof -
  have "isolated c s (fold storeStep ops s)"
    by (rule iso.run_rel [OF reachable_inv [OF assms(1)] assms(2)])
  then show ?thesis
    by (auto simp: isolated_def Let_def getRun_def scopedRun_def listEvents_def listMessages_def
        assertConversationOwner_def isConversationOwnedBy_def split: option.split)
qed

definition demoOther :: tenantExecutionContext where
  "demoOther = demoCtx\<lparr>actorId := ''y''\<rparr>"

theorem tenant_isolation_witness:
  "let t = fold storeStep [OpCancel demoOther ''r1'' 4, OpCancelConversation demoOther ''c'' 5,
        OpAccept demoOther (demoInput ''3'') 6 (demoIds ''3'')] demoClaimed in
    getRun demoCtx ''r1'' t = getRun demoCtx ''r1'' demoClaimed \<and>
    listMessages demoCtx ''c'' t = listMessages demoCtx ''c'' demoClaimed"
proof -
  let ?ops = "[OpCancel demoOther ''r1'' 4, OpCancelConversation demoOther ''c'' 5,
        OpAccept demoOther (demoInput ''3'') 6 (demoIds ''3'')]"
  have run: "enabledRun storeStep (foreignOp demoCtx) ?ops demoClaimed" by code_simp
  have owner: "map_get (conversationOwners demoClaimed) (tenantConversationScopeKey demoCtx ''c'') =
      Some \<lparr>owner_userId = userId demoCtx, owner_actorId = actorId demoCtx\<rparr>"
    by code_simp
  show ?thesis
    using tenant_isolation [OF demoClaimed_reachable run, of "''r1''" "''k''" 0 None 1 "''c''"] owner
    by (simp only: Let_def simp_thms)
qed

section \<open>Event logs\<close>

lemma filter_after:
  "map ev_seq xs = [k..<k + length xs] \<Longrightarrow> 1 \<le> k \<Longrightarrow>
     filter (\<lambda>e. afterSeq < int (ev_seq e)) xs = drop (nat afterSeq + 1 - k) xs"
proof (induction xs arbitrary: k)
  case (Cons x xs)
  have "[k..<k + length (x # xs)] = k # [Suc k..<Suc k + length xs]" by (simp add: upt_conv_Cons del: upt_Suc)
  with Cons.prems(1) have x: "ev_seq x = k" and xs: "map ev_seq xs = [Suc k..<Suc k + length xs]"
    by (auto simp del: upt_Suc)
  have IH: "filter (\<lambda>e. afterSeq < int (ev_seq e)) xs = drop (nat afterSeq + 1 - Suc k) xs"
    using Cons.IH [OF xs] by simp
  show ?case
  proof (cases "afterSeq < int k")
    case True
    then have "nat afterSeq + 1 - k = 0" "nat afterSeq + 1 - Suc k = 0" using Cons.prems(2) by linarith+
    with IH x True show ?thesis by simp
  next
    case False
    then have "nat afterSeq + 1 - k = Suc (nat afterSeq + 1 - Suc k)" by linarith
    with IH x False show ?thesis by simp
  qed
qed simp

text \<open>
  an actor's event log is gapless and reading it page by page loses and repeats nothing. In
  every reachable state, reading from a cursor returns exactly the log with its first
  \<open>afterSeq\<close> entries dropped, cut at the limit, and the n-th event carries the sequence number n.
\<close>

theorem events_gapless:
  assumes "reachableStore s" "assertContext ctx = None"
  shows "listEvents ctx afterSeq None limit s =
      Inr (take limit (drop (nat afterSeq) (tenantEvents (actorScopeKey ctx) s))) \<and>
    map ev_seq (tenantEvents (actorScopeKey ctx) s) = [1..<Suc (length (tenantEvents (actorScopeKey ctx) s))]"
proof -
  let ?L = "tenantEvents (actorScopeKey ctx) s"
  have "map ev_seq ?L = [1..<Suc (get_or 0 (map_get (nextEventSequence s) (actorScopeKey ctx)))]"
    using reachable_inv [OF assms(1)] by (simp add: storeInv_def eventsNumbered_def del: upt_Suc)
  moreover from arg_cong [OF this, of length] have "length ?L = get_or 0 (map_get (nextEventSequence s) (actorScopeKey ctx))"
    by (simp del: upt_Suc)
  ultimately have seq: "map ev_seq ?L = [1..<Suc (length ?L)]" by simp
  from filter_after [of ?L 1 afterSeq] seq have "filter (\<lambda>e. afterSeq < int (ev_seq e)) ?L = drop (nat afterSeq) ?L" by simp
  with seq show ?thesis using assms(2) by (simp add: listEvents_def)
qed

theorem events_gapless_witness:
  "listEvents demoCtx 1 None 10 demoTwo = Inr (take 10 (drop (nat 1) (tenantEvents (actorScopeKey demoCtx) demoTwo))) \<and>
   map ev_seq (tenantEvents (actorScopeKey demoCtx) demoTwo) =
     [1..<Suc (length (tenantEvents (actorScopeKey demoCtx) demoTwo))]"
proof -
  have "assertContext demoCtx = None" by code_simp
  then show ?thesis by (rule events_gapless [OF demoTwo_reachable])
qed

section \<open>Progress\<close>

lemma claimRun_succeeds:
  assumes inv: "storeInv s" and ctx: "assertContext ctx = None"
    and r: "map_get (runs s) (runKey ctx runId) = Some r" "claimable now r" "\<not> earlierNonterminal r s"
  shows "\<exists>c s'. claimRun ctx runId lo exp now s = (Inr (Some c), s')"
proof -
  let ?K = "tenantConversationScopeKey ctx (run_conversationId r)"
  have owned: "isConversationOwnedBy ctx ?K s" by (rule run_conversation_owned [OF inv r(1)])
  obtain stored where stored: "map_get (runContexts s) (runKey ctx runId) = Some stored"
    using storeInv_run [OF inv r(1)] by (auto simp: filedUnder_def split: option.splits)
  have "r \<in> set (convRuns (runConvKey r) s)"
    using r(1) in_runs_iff [OF inv] by (auto simp: convRuns_mem)
  then have "run_userMessageId r \<in> set (map msg_id (conversationMessages ?K s))"
    unfolding storeInv_ids(1) [OF inv] run_convKey [OF inv r(1)] by (force simp: turnIds_def)
  then obtain i where i: "findIndex (\<lambda>m. msg_id m = run_userMessageId r) (conversationMessages ?K s) = Some i"
    by (cases "findIndex (\<lambda>m. msg_id m = run_userMessageId r) (conversationMessages ?K s)")
      (auto simp: findIndex_None_iff)
  show ?thesis
    using ctx r owned stored i
    by (simp add: claimRun_def assertConversationOwner_def Let_def listRunSteps_def)
qed

lemma sort_key_Cons_min: "sort_key f xs = y # ys \<Longrightarrow> y \<in> set xs \<and> (\<forall>x \<in> set xs. f y \<le> f x)"
proof -
  assume eq: "sort_key f xs = y # ys"
  have "sorted (map f (y # ys))" using sorted_sort_key [of f xs] unfolding eq .
  moreover have "set xs = insert y (set ys)" using set_sort [of f xs] unfolding eq by simp
  ultimately show ?thesis by auto
qed

text \<open>
  a waiting conversation can always make progress. In a reachable state in which a conversation
  the caller owns has a queued run and none in flight, \<open>getNextQueuedRun\<close> finds a run and claiming
  that run succeeds: the store never strands a queued message.
\<close>

theorem queue_progress:
  assumes "reachableStore s" "assertContext ctx = None"
    "isConversationOwnedBy ctx (tenantConversationScopeKey ctx conv) s"
    "list_ex (\<lambda>r. sameConversation (organizationId ctx) (assistantId ctx) conv r \<and> run_status r = Queued)
      (map_values (runs s))"
    "\<not> list_ex (\<lambda>r. sameConversation (organizationId ctx) (assistantId ctx) conv r \<and> inFlight r)
      (map_values (runs s))"
  shows "\<exists>r c s'. getNextQueuedRun ctx conv s = Inr (Some r) \<and>
    claimRun ctx (run_id r) lo exp now s = (Inr (Some c), s') \<and> run_id (claimed_run c) = run_id r"
proof -
  have inv: "storeInv s" by (rule reachable_inv [OF assms(1)])
  let ?P = "\<lambda>r. sameConversation (organizationId ctx) (assistantId ctx) conv r"
  let ?L = "filter (\<lambda>r. ?P r \<and> run_status r = Queued) (map_values (runs s))"
  have "?L \<noteq> []" using assms(4) by (auto simp: list_ex_iff filter_empty_conv)
  then have "sort_key run_turnSequence ?L \<noteq> []" by (metis set_empty set_sort)
  then obtain r rest where sorted: "sort_key run_turnSequence ?L = r # rest" by (meson neq_Nil_conv)
  from sort_key_Cons_min [OF sorted] have r: "r \<in> set ?L" and least: "\<And>x. x \<in> set ?L \<Longrightarrow> run_turnSequence r \<le> run_turnSequence x"
    by blast+
  from r obtain key where key: "map_get (runs s) key = Some r" using in_runs_iff [OF inv] by auto
  have get: "map_get (runs s) (runKey ctx (run_id r)) = Some r"
    using owned_run_key [OF inv key _ assms(3)] key r by auto
  have "\<not> earlierNonterminal r s"
  proof
    assume "earlierNonterminal r s"
    then obtain x where x: "x \<in> set (map_values (runs s))" "runConvKey x = runConvKey r"
      "run_turnSequence x < run_turnSequence r" "isNonterminal x"
      by (auto simp: earlierNonterminal_iff)
    then have "?P x" using r by (auto simp: sameConversation_convKey)
    with x assms(5) have "run_status x = Queued" by (auto simp: list_ex_iff isNonterminal_def inFlight_def)
    with \<open>?P x\<close> x(1) have "run_turnSequence r \<le> run_turnSequence x" by (intro least) simp
    with x(3) show False by simp
  qed
  moreover have "claimable now r" using r by (simp add: claimable_def)
  ultimately obtain c s' where c: "claimRun ctx (run_id r) lo exp now s = (Inr (Some c), s')"
    using claimRun_succeeds [OF inv assms(2) get] by blast
  have "getNextQueuedRun ctx conv s = Inr (Some r)"
    using assms(3) sorted by (simp add: getNextQueuedRun_def assertConversationOwner_def)
  moreover have "run_id (claimed_run c) = run_id r" using claimRun_Some [OF c] get by auto
  ultimately show ?thesis using c by blast
qed

theorem queue_progress_witness:
  "\<exists>r c s'. getNextQueuedRun demoCtx ''c'' demoSecond = Inr (Some r) \<and>
    claimRun demoCtx (run_id r) ''w'' 100 5 demoSecond = (Inr (Some c), s') \<and> run_id (claimed_run c) = run_id r"
proof (rule queue_progress [OF demoSecond_reachable])
  show "assertContext demoCtx = None"
    "isConversationOwnedBy demoCtx (tenantConversationScopeKey demoCtx ''c'') demoSecond"
    "list_ex (\<lambda>r. sameConversation (organizationId demoCtx) (assistantId demoCtx) ''c'' r \<and> run_status r = Queued)
      (map_values (runs demoSecond))"
    "\<not> list_ex (\<lambda>r. sameConversation (organizationId demoCtx) (assistantId demoCtx) ''c'' r \<and> inFlight r)
      (map_values (runs demoSecond))"
    by code_simp+
qed

section \<open>Refinement\<close>

text \<open>
  C7: the store refines the abstract run machine. From every reachable state, each operation with
  fresh identifiers is a sequence of steps of \<open>coreStep\<close> taken for the operation's own actor: a run
  moving along one edge of its life cycle, a run finishing with its reply inserted after its user
  message, a message accepted as a new numbered turn, an event appended with the next number, or
  nothing at all.
\<close>

theorem store_refines_machine:
  assumes "reachableStore s" "freshOp op s"
  shows "(coreStep (opContext op))\<^sup>*\<^sup>* s (storeStep op s)"
  using storeStep_refines [OF reachable_inv [OF assms(1)] assms(2)] .

theorem store_refines_machine_witness:
  "(coreStep demoCtx)\<^sup>*\<^sup>* demoClaimed (storeStep demoComplete demoClaimed)"
proof -
  have "freshOp demoComplete demoClaimed" by code_simp
  from store_refines_machine [OF demoClaimed_reachable this] show ?thesis
    by (simp add: demoComplete_def)
qed

end
