(* ===== verification/Browser_Properties.thy ===== *)
theory Browser_Properties
  imports Run_Properties
begin

text \<open>
  The properties of the store's browser broker: an action is final once it has an outcome, consent
  and a live connection are needed to enqueue one, revoking consent stops new actions, and a client
  has one active connection at a time.
\<close>

section \<open>How actions evolve\<close>

definition actionMoves :: "browserActionRecord \<Rightarrow> browserActionRecord \<Rightarrow> bool" where
  "actionMoves a a' \<longleftrightarrow>
     a'\<lparr>act_state := act_state a, act_resultHash := act_resultHash a, act_result := act_result a\<rparr> = a \<and>
     (isTerminalBrowserAction (act_state a) \<longrightarrow>
        act_state a' = act_state a \<and> act_resultHash a' = act_resultHash a)"

definition actionsEvolve :: "store \<Rightarrow> store \<Rightarrow> bool" where
  "actionsEvolve s t \<longleftrightarrow>
     (\<forall>key a. map_get (browserActions s) key = Some a \<longrightarrow>
       (\<exists>a'. map_get (browserActions t) key = Some a' \<and> actionMoves a a'))"

definition actionsFiled :: "store \<Rightarrow> bool" where
  "actionsFiled s \<longleftrightarrow> distinct (map fst (browserActions s)) \<and>
     (\<forall>key a. map_get (browserActions s) key = Some a \<longrightarrow> (\<exists>c. key = browserActionKey c (act_actionId a)))"

lemma actionMoves_refl [simp]: "actionMoves a a"
  by (simp add: actionMoves_def)

lemma actionMoves_id: "actionMoves a a' \<Longrightarrow> act_actionId a' = act_actionId a"
  unfolding actionMoves_def by (metis browserActionRecord.select_convs(4) browserActionRecord.surjective
      browserActionRecord.update_convs(16-18))

lemma actionMoves_trans:
  assumes "actionMoves a b" "actionMoves b c"
  shows "actionMoves a c"
  using assms by (cases a; cases b; cases c) (auto simp: actionMoves_def)

lemma actionsEvolve_refl: "actionsEvolve s s"
  by (simp add: actionsEvolve_def)

lemma actionsEvolve_trans: "actionsEvolve s t \<Longrightarrow> actionsEvolve t u \<Longrightarrow> actionsEvolve s u"
  unfolding actionsEvolve_def by (meson actionMoves_trans)

text \<open>A step that keeps actions filed and moves each one properly.\<close>

definition actionStep :: "store \<Rightarrow> store \<Rightarrow> bool" where
  "actionStep s t \<longleftrightarrow> (actionsFiled s \<longrightarrow> actionsFiled t \<and> actionsEvolve s t)"

lemma actionStep_same: "browserActions t = browserActions s \<Longrightarrow> actionStep s t"
  by (simp add: actionStep_def actionsFiled_def actionsEvolve_def)

lemma actionStep_trans: "actionStep s t \<Longrightarrow> actionStep t u \<Longrightarrow> actionStep s u"
  unfolding actionStep_def by (blast intro: actionsEvolve_trans)

lemma actionStep_set:
  assumes "map_get (browserActions s) key = Some a" "actionMoves a a'"
    "browserActions t = map_set key a' (browserActions s)"
  shows "actionStep s t"
  using assms actionMoves_id [OF assms(2)]
  by (auto simp: actionStep_def actionsFiled_def actionsEvolve_def)

lemma actionStep_map:
  assumes "\<And>a. actionMoves a (f a)" "browserActions t = map (\<lambda>(k, a). (k, f a)) (browserActions s)"
  shows "actionStep s t"
proof -
  have "map fst (browserActions t) = map fst (browserActions s)" using assms(2) by (simp add: split_beta)
  moreover have "map_get (browserActions t) k = map_option f (map_get (browserActions s) k)" for k
    using assms(2) by simp
  ultimately show ?thesis
    using assms(1) actionMoves_id [OF assms(1)]
    by (auto simp: actionStep_def actionsFiled_def actionsEvolve_def simp del: map_map)
qed

lemma redactAction_moves: "actionMoves a (redactAction r c a)"
  by (cases a) (auto simp: actionMoves_def redactAction_def Let_def isTerminalBrowserAction_def)

lemma actionStep_redact: "actionStep s (redactBrowserRun ctx r c s)"
  by (rule actionStep_map [OF redactAction_moves redactBrowserRun_actions])

lemma actions_setRun [simp]: "browserActions (setRun k r s) = browserActions s"
  by (simp add: setRun_def)

lemma actions_pushStep [simp]: "browserActions (pushStep k f s) = browserActions s"
  by (simp add: pushStep_def Let_def)

lemma actions_applyOutput [simp]: "browserActions (applyOutput ctx a res now s) = browserActions s"
  by (simp add: applyOutput_def Let_def
      split: browserResultOutcome.split browserBrokerSuccessOutput.split option.split)

lemma actions_onboarding [simp]: "browserActions (setOnboarding v k s) = browserActions s"
  by (simp add: setOnboarding_def split: option.split)

lemma actionStep_redact_setRun: "actionStep s (redactBrowserRun ctx r c (setRun k x s))"
  by (rule actionStep_trans [OF actionStep_same actionStep_redact]) simp

lemma actionStep_cancelLoop: "actionStep s (snd (cancelLoop ctx conv now rs s))"
proof (induction rs arbitrary: s)
  case (Cons p rs)
  obtain key r where "p = (key, r)" by fastforce
  then show ?case
    using Cons.IH actionStep_trans [OF actionStep_redact_setRun Cons.IH]
    by (simp add: Let_def split_beta)
qed (simp add: actionStep_same)

lemma actionStep_markDelivered: "actionStep s (fold (markDelivered ctx) recs s)"
proof (induction recs arbitrary: s)
  case (Cons rec recs)
  have "actionStep s (markDelivered ctx rec s)"
  proof (cases "map_get (browserActions s) (browserActionKey ctx (ob_actionId rec))")
    case None
    then show ?thesis by (simp add: markDelivered_def actionStep_same)
  next
    case (Some a)
    have "act_state a = ActQueued \<Longrightarrow> actionMoves a (a\<lparr>act_state := ActDelivered\<rparr>)"
      by (cases a) (simp add: actionMoves_def isTerminalBrowserAction_def)
    from actionStep_set [OF Some this] Some show ?thesis
      by (simp add: markDelivered_def actionStep_same)
  qed
  from actionStep_trans [OF this Cons.IH] show ?case by simp
qed (simp add: actionStep_same)

lemma authorizedAction_Inr:
  "authorizedAction ctx i conn gen tok h s = Inr a \<Longrightarrow>
     map_get (browserActions s) (browserActionKey ctx i) = Some a"
  by (auto simp: authorizedAction_def requireBrowserAction_def split: option.splits if_splits sum.splits)

lemma actionStep_receipt: "actionStep s (snd (recordBrowserReceipt ctx input s))"
proof (cases "browserActions (snd (recordBrowserReceipt ctx input s)) = browserActions s")
  case True
  then show ?thesis by (rule actionStep_same)
next
  case False
  then obtain a where a: "map_get (browserActions s) (browserActionKey ctx (rc_actionId input)) = Some a"
    "\<not> isTerminalBrowserAction (act_state a)"
    and t: "browserActions (snd (recordBrowserReceipt ctx input s)) =
      map_set (browserActionKey ctx (rc_actionId input))
        (a\<lparr>act_state := receivedState (rc_state input) (act_state a)\<rparr>) (browserActions s)"
    by (auto simp: recordBrowserReceipt_def Let_def dest!: authorizedAction_Inr split: sum.splits if_splits option.splits)
  show ?thesis
    by (rule actionStep_set [OF a(1) _ t]) (use a(2) in \<open>cases a, simp add: actionMoves_def\<close>)
qed

lemma actionStep_result: "actionStep s (snd (recordBrowserResult ctx result tok now s))"
proof (cases "browserActions (snd (recordBrowserResult ctx result tok now s)) = browserActions s")
  case True
  then show ?thesis by (rule actionStep_same)
next
  case False
  then obtain a where a: "map_get (browserActions s) (browserActionKey ctx (rr_actionId result)) = Some a"
    "\<not> isTerminalBrowserAction (act_state a)"
    and t: "browserActions (snd (recordBrowserResult ctx result tok now s)) =
      map_set (browserActionKey ctx (rr_actionId result))
        (a\<lparr>act_state := outcomeState (rr_outcome result), act_resultHash := Some (rr_resultHash result),
           act_result := Some result\<rparr>) (browserActions s)"
    by (auto simp: recordBrowserResult_def settleAction_def Let_def dest!: authorizedAction_Inr
        split: sum.splits if_splits option.splits)
  show ?thesis
    by (rule actionStep_set [OF a(1) _ t]) (use a(2) in \<open>cases a, simp add: actionMoves_def\<close>)
qed

definition enqueueAllowed ::
    "tenantExecutionContext \<Rightarrow> enqueueBrowserActionInput \<Rightarrow> int \<Rightarrow> store \<Rightarrow> browserAccessGrantRecord \<Rightarrow> storedConnection \<Rightarrow> bool" where
  "enqueueAllowed ctx input now s grant conn \<longleftrightarrow>
     map_get (browserGrants s) (browserGrantKey ctx (enq_conversationId input)) = Some grant \<and> gr_enabled grant \<and>
     currentBrowserConnection ctx (gr_clientInstallationId grant) s = Some conn \<and> connectionUsable now conn \<and>
     (needsSession (enq_operation input) \<longrightarrow>
        sessionUsable (map_get (browserSessions s) (browserGrantKey ctx (enq_conversationId input))))"

definition enqueuedAction ::
    "tenantExecutionContext \<Rightarrow> enqueueBrowserActionInput \<Rightarrow> store \<Rightarrow> browserAccessGrantRecord \<Rightarrow> storedConnection
     \<Rightarrow> browserActionRecord" where
  "enqueuedAction ctx input s grant conn =
     newAction input grant (sconn conn)
       (map_get (browserSessions s) (browserGrantKey ctx (enq_conversationId input)))
       (length (filter (\<lambda>a. act_conversationId a = enq_conversationId input \<and>
           act_clientInstallationId a = gr_clientInstallationId grant) (map_values (browserActions s))) + 1)"

lemma enqueueNew_denied:
  assumes "\<And>grant conn. \<not> enqueueAllowed ctx input now s grant conn"
  shows "\<exists>e. enqueueNew ctx input run now u s = (Inl e, s)"
  using assms by (auto simp: enqueueNew_def enqueueAllowed_def Let_def split: option.split)

lemma enqueueNew_allowed:
  assumes "enqueueAllowed ctx input now s grant conn"
  shows "enqueueNew ctx input run now u s =
    (let a = enqueuedAction ctx input s grant conn;
         ob = newOutbox ctx a (nextBrowserOutboxSequence s) u;
         s1 = storeAction ctx input a ob s
     in (Inr (a, ob), case run of
           Some r \<Rightarrow> if truthy (enq_leaseOwner input) then parkRun ctx input r now s1 else s1 | None \<Rightarrow> s1))"
  using assms by (simp add: enqueueNew_def enqueueAllowed_def enqueuedAction_def Let_def)

lemma enqueuedAction_id [simp]: "act_actionId (enqueuedAction ctx input s grant conn) = enq_actionId input"
  by (simp add: enqueuedAction_def newAction_def)

lemma enqueueNew_actions:
  "browserActions (snd (enqueueNew ctx input run now u s)) = browserActions s \<or>
   (\<exists>a. browserActions (snd (enqueueNew ctx input run now u s)) =
      map_set (browserActionKey ctx (enq_actionId input)) a (browserActions s) \<and> act_actionId a = enq_actionId input)"
proof (cases "\<exists>grant conn. enqueueAllowed ctx input now s grant conn")
  case True
  then obtain grant conn where ok: "enqueueAllowed ctx input now s grant conn" by blast
  have "browserActions (snd (enqueueNew ctx input run now u s)) =
      map_set (browserActionKey ctx (enq_actionId input)) (enqueuedAction ctx input s grant conn) (browserActions s)"
    by (simp add: enqueueNew_allowed [OF ok] Let_def parkRun_def storeAction_def split: option.split)
  then show ?thesis using enqueuedAction_id by blast
next
  case False
  then obtain e where "enqueueNew ctx input run now u s = (Inl e, s)" using enqueueNew_denied by blast
  then show ?thesis by simp
qed

lemma actionStep_enqueue:
  assumes "enq_actionId input \<notin> set (map act_actionId (map_values (browserActions s)))"
  shows "actionStep s (snd (enqueueBrowserAction ctx input now u s))"
proof -
  let ?t = "snd (enqueueBrowserAction ctx input now u s)" and ?k = "browserActionKey ctx (enq_actionId input)"
  have t: "browserActions ?t = browserActions s \<or>
      (\<exists>a. browserActions ?t = map_set ?k a (browserActions s) \<and> act_actionId a = enq_actionId input)"
    using enqueueNew_actions [of ctx input _ now u s]
    by (auto simp: enqueueBrowserAction_def Let_def split: option.splits sum.splits)
  have free: "map_get (browserActions s) ?k = None" if filed: "actionsFiled s"
  proof (rule ccontr)
    assume "map_get (browserActions s) ?k \<noteq> None"
    then obtain x where x: "map_get (browserActions s) ?k = Some x" by blast
    then obtain c where "?k = browserActionKey c (act_actionId x)"
      using filed unfolding actionsFiled_def by blast
    then have "act_actionId x = enq_actionId input" by simp
    moreover have "x \<in> set (map_values (browserActions s))"
      using filed x by (auto simp: actionsFiled_def in_values_iff)
    ultimately show False using assms by force
  qed
  from t show ?thesis
  proof (elim disjE exE conjE)
    fix a
    assume a: "browserActions ?t = map_set ?k a (browserActions s)" "act_actionId a = enq_actionId input"
    show ?thesis
      unfolding actionStep_def
    proof (intro impI conjI)
      assume filed: "actionsFiled s"
      then show "actionsFiled ?t" using a by (auto simp: actionsFiled_def simp del: scopedKey_inj)
      show "actionsEvolve s ?t" using a(1) free [OF filed] by (auto simp: actionsEvolve_def simp del: scopedKey_inj)
    qed
  qed (rule actionStep_same)
qed

lemma actions_accept: "browserActions (snd (acceptMessage ctx input now ids s)) = browserActions s"
  by (auto simp: acceptMessage_def acceptExisting_def acceptNew_def appendEventRecord_def
      assertOrSetConversationOwner_def Let_def split: option.split)

lemma actions_supersede: "browserActions (supersedeCurrent k s) = browserActions s"
  by (simp add: supersedeCurrent_def Let_def split: option.split)

lemma actions_connect: "browserActions (snd (connectBrowserClient ctx input now s)) = browserActions s"
  by (simp add: connectBrowserClient_def connectFresh_def actions_supersede Let_def split: option.split)

lemma actionStep_complete: "actionStep s (snd (completeRun ctx runId input now s))"
proof -
  have "actionStep s (redactBrowserRun ctx runId False (setRun k r (s\<lparr>messages := ms\<rparr>)))" for k r ms
    by (rule actionStep_trans [OF actionStep_same actionStep_redact]) simp
  then show ?thesis by (simp add: completeRun_def Let_def actionStep_same split: sum.split option.split)
qed

lemma storeStep_actions:
  assumes "freshOp op s"
  shows "actionStep s (storeStep op s)"
proof (cases op)
  case (OpFail ctx runId input now)
  then show ?thesis
    by (simp add: failRun_def actionStep_redact_setRun actionStep_same split: sum.split option.split)
next
  case (OpCancel ctx runId now)
  then show ?thesis
    by (simp add: cancelRun_def actionStep_redact_setRun actionStep_same split: sum.split option.split)
next
  case (OpCancelConversation ctx conv now)
  then show ?thesis
    by (simp add: cancelConversationRuns_def actionStep_cancelLoop actionStep_same split_beta split: option.split)
next
  case (OpListBrowserEvents ctx cred afterSeq limit now)
  then show ?thesis
    by (simp add: listBrowserEvents_def Let_def actionStep_markDelivered actionStep_same split: option.split)
next
  case (OpClaim ctx runId lo exp now)
  then show ?thesis
    by (auto simp: claimRun_def Let_def split: sum.split option.split intro!: actionStep_same)
next
  case (OpRenew ctx runId lo exp now)
  then show ?thesis
    by (auto simp: renewRunLease_def split: sum.split option.split intro!: actionStep_same)
next
  case (OpAppendEvent ctx conv msg now u)
  then show ?thesis
    by (auto simp: appendEvent_def appendEventRecord_def Let_def split: option.split intro!: actionStep_same)
next
  case (OpHeartbeat ctx cred exp now)
  then show ?thesis
    by (auto simp: heartbeatBrowserConnection_def Let_def split: option.split intro!: actionStep_same)
next
  case (OpSetGrant ctx conv client en now)
  then show ?thesis
    by (auto simp: setBrowserAccessGrant_def Let_def split: option.split intro!: actionStep_same)
qed (use assms in \<open>simp_all add: actionStep_same actions_accept actions_connect actionStep_complete
      actionStep_receipt actionStep_result actionStep_enqueue\<close>)

interpretation act: step_relation storeStep freshOp actionsFiled actionsEvolve
  using storeStep_actions
  by unfold_locales (auto simp: actionStep_def intro: actionsEvolve_refl actionsEvolve_trans)

lemma reachable_actionsFiled: "reachableStore s \<Longrightarrow> actionsFiled s"
proof (induction rule: reachableStore.induct)
  case initial
  show ?case by (simp add: actionsFiled_def emptyStore_def)
qed (rule act.step_inv)

section \<open>A scenario\<close>

definition demoConnect :: "string \<Rightarrow> connectBrowserClientInput" where
  "demoConnect i = \<lparr>con_clientInstallationId = ''cl'', con_capabilities = [Browser_broker_v1],
     con_leaseExpiresAt = 1000, con_newConnectionId = i, con_newResumeTokenHash = ''tok'' @ i, con_resume = None\<rparr>"

definition demoGranted :: store where
  "demoGranted = fold storeStep [OpConnect demoCtx (demoConnect ''k1'') 4, OpSetGrant demoCtx ''c'' ''cl'' True 4]
     demoClaimed"

definition demoWaiting :: store where
  "demoWaiting = storeStep (OpEnqueue demoCtx (demoEnqueue ''w1'') 5 ''ob1'') demoGranted"

definition demoResult :: "string \<Rightarrow> browserBrokerResultRequest" where
  "demoResult h = \<lparr>rr_protocolVersion = 1, rr_actionId = ''a1'', rr_operationHash = ''h'', rr_connectionId = ''k1'',
     rr_connectionGeneration = 1, rr_resultHash = h, rr_documentEpoch = None,
     rr_outcome = ResSucceeded (SessionOutput ''b'' ''t'' 1)\<rparr>"

definition demoDone :: store where
  "demoDone = storeStep (OpResult demoCtx (demoResult ''rh'') ''tokk1'' 6) demoWaiting"

lemma demoGranted_reachable: "reachableStore demoGranted"
proof -
  have "enabledRun storeStep freshOp [OpConnect demoCtx (demoConnect ''k1'') 4, OpSetGrant demoCtx ''c'' ''cl'' True 4]
      demoClaimed"
    by code_simp
  then show ?thesis unfolding demoGranted_def by (rule reachable_run [OF _ demoClaimed_reachable])
qed

lemma demoWaiting_reachable: "reachableStore demoWaiting"
proof -
  have "freshOp (OpEnqueue demoCtx (demoEnqueue ''w1'') 5 ''ob1'') demoGranted" by code_simp
  then show ?thesis unfolding demoWaiting_def by (rule reachableStore.step [OF demoGranted_reachable])
qed

lemma demoDone_reachable: "reachableStore demoDone"
  unfolding demoDone_def by (rule reachableStore.step [OF demoWaiting_reachable]) simp

section \<open>Outcomes are final\<close>

text \<open>
  the outcome of a browser action is final. From a reachable state in which an action has
  succeeded, failed, been cancelled, expired or ended with an unknown outcome, no sequence of
  operations changes its state, the hash of its result or what it was asked to do; a second result
  with another hash is refused as a conflict and changes nothing, and a repetition of the same
  result is acknowledged with the recorded state and changes nothing.
\<close>

theorem browser_action_final:
  assumes "reachableStore s" "enabledRun storeStep freshOp ops s"
    "map_get (browserActions s) (browserActionKey ctx i) = Some a" "isTerminalBrowserAction (act_state a)"
  shows "let t = fold storeStep ops s in
    (\<exists>a'. map_get (browserActions t) (browserActionKey ctx i) = Some a' \<and> act_state a' = act_state a \<and>
       act_resultHash a' = act_resultHash a \<and> act_operation a' = act_operation a) \<and>
    snd (recordBrowserResult ctx (res\<lparr>rr_actionId := i\<rparr>) tok now t) = t \<and>
    (\<forall>ack. fst (recordBrowserResult ctx (res\<lparr>rr_actionId := i\<rparr>) tok now t) = Inr ack \<longrightarrow>
       ack_canonicalState ack = act_state a \<and> act_resultHash a = Some (rr_resultHash res))"
proof -
  let ?t = "fold storeStep ops s"
  have "actionsEvolve s ?t" by (rule act.run_rel [OF reachable_actionsFiled [OF assms(1)] assms(2)])
  then obtain a' where a': "map_get (browserActions ?t) (browserActionKey ctx i) = Some a'" "actionMoves a a'"
    using assms(3) unfolding actionsEvolve_def by blast
  then have same: "act_state a' = act_state a" "act_resultHash a' = act_resultHash a" "act_operation a' = act_operation a"
    using assms(4) by (cases a; cases a'; auto simp: actionMoves_def)+
  have "snd (recordBrowserResult ctx (res\<lparr>rr_actionId := i\<rparr>) tok now ?t) = ?t"
    "\<forall>ack. fst (recordBrowserResult ctx (res\<lparr>rr_actionId := i\<rparr>) tok now ?t) = Inr ack \<longrightarrow>
       ack_canonicalState ack = act_state a \<and> act_resultHash a = Some (rr_resultHash res)"
    using assms(4) same a'(1)
    by (auto simp: recordBrowserResult_def plainAck_def runAck_def dest!: authorizedAction_Inr
        split: sum.splits option.splits if_splits)
  with a'(1) same show ?thesis by (auto simp: Let_def)
qed

theorem browser_action_final_witness:
  "let t = fold storeStep [OpResult demoCtx (demoResult ''other'') ''tokk1'' 7, OpCancel demoCtx ''r1'' 8] demoDone in
    (\<exists>a'. map_get (browserActions t) (browserActionKey demoCtx ''a1'') = Some a' \<and> act_state a' = ActSucceeded \<and>
       act_resultHash a' = Some ''rh'') \<and>
    snd (recordBrowserResult demoCtx ((demoResult ''other'')\<lparr>rr_actionId := ''a1''\<rparr>) ''tokk1'' 9 t) = t"
proof -
  let ?a = "the (map_get (browserActions demoDone) (browserActionKey demoCtx ''a1''))"
  let ?ops = "[OpResult demoCtx (demoResult ''other'') ''tokk1'' 7, OpCancel demoCtx ''r1'' 8]"
  have run: "enabledRun storeStep freshOp ?ops demoDone" by code_simp
  have "map_get (browserActions demoDone) (browserActionKey demoCtx ''a1'') \<noteq> None" by code_simp
  then have get: "map_get (browserActions demoDone) (browserActionKey demoCtx ''a1'') = Some ?a" by auto
  have st: "act_state ?a = ActSucceeded" and rh: "act_resultHash ?a = Some ''rh''" by code_simp+
  have ended: "isTerminalBrowserAction (act_state ?a)" unfolding st by code_simp
  from browser_action_final [OF demoDone_reachable run get ended, of "demoResult ''other''" "''tokk1''" 9]
  show ?thesis unfolding Let_def st rh by blast
qed

section \<open>Consent\<close>



text \<open>
  Revoking access takes effect at once. After \<open>setBrowserAccessGrant\<close> disabled a conversation,
  enqueueing an action for a new tool use of that conversation fails and changes nothing, and the
  conversation's browser session, if it had one, is invalidated.
\<close>

theorem browser_revocation:
  assumes "setBrowserAccessGrant ctx conv client False now s = (Inr grant, s')"
    "enq_conversationId input = conv"
    "\<not> truthy (map_get (browserToolActions s') (browserToolActionKey ctx (enq_runId input) (enq_toolUseId input)))"
  shows "(\<exists>e. enqueueBrowserAction ctx input t u s' = (Inl e, s')) \<and>
    (\<forall>b. map_get (browserSessions s') (browserGrantKey ctx conv) = Some b \<longrightarrow> bs_status b = Invalidated)"
proof -
  have ctx: "assertContext ctx = None" "isConversationOwnedBy ctx (tenantConversationScopeKey ctx conv) s'"
    and grant: "map_get (browserGrants s') (browserGrantKey ctx conv) = Some grant" "\<not> gr_enabled grant"
    and session: "\<forall>b. map_get (browserSessions s') (browserGrantKey ctx conv) = Some b \<longrightarrow> bs_status b = Invalidated"
    using assms(1)
    by (auto simp: setBrowserAccessGrant_def assertConversationOwner_def isConversationOwnedBy_def Let_def
        split: option.splits if_splits)
  have "\<not> enqueueAllowed ctx input t s' g conn" for g conn
    using grant assms(2) by (auto simp: enqueueAllowed_def)
  from enqueueNew_denied [OF this] have "\<exists>e. enqueueNew ctx input run t u s' = (Inl e, s')" for run .
  with ctx assms(2,3) session show ?thesis
    by (auto simp: enqueueBrowserAction_def Let_def split: option.split sum.split)
qed

theorem browser_revocation_witness:
  "(\<exists>e. enqueueBrowserAction demoCtx (demoEnqueue ''w1'') 6 ''u''
       (snd (setBrowserAccessGrant demoCtx ''c'' ''cl'' False 5 demoGranted)) =
     (Inl e, snd (setBrowserAccessGrant demoCtx ''c'' ''cl'' False 5 demoGranted)))"
proof -
  let ?r = "setBrowserAccessGrant demoCtx ''c'' ''cl'' False 5 demoGranted"
  have "isl (fst ?r) = False" by code_simp
  then obtain g where "fst ?r = Inr g" by (metis isl_def sum.collapse(2))
  then have r: "?r = (Inr g, snd ?r)" by (metis prod.collapse)
  have conv: "enq_conversationId (demoEnqueue ''w1'') = ''c''" by (simp add: demoEnqueue_def)
  have new: "\<not> truthy (map_get (browserToolActions (snd ?r))
      (browserToolActionKey demoCtx (enq_runId (demoEnqueue ''w1'')) (enq_toolUseId (demoEnqueue ''w1''))))"
    by code_simp
  from browser_revocation [OF r conv new, of 6 "''u''"] show ?thesis by blast
qed

section \<open>Connections\<close>

definition connectionsOk :: "store \<Rightarrow> bool" where
  "connectionsOk s \<longleftrightarrow>
     (\<forall>ctx i c. map_get (browserConnections s) (browserConnectionKey ctx i) = Some c \<and> bc_state (sconn c) = ConnActive \<longrightarrow>
        map_get (currentBrowserConnections s) (browserClientKey ctx (bc_clientInstallationId (sconn c))) =
          Some (browserConnectionKey ctx i))"

lemma connectionsOk_same:
  "browserConnections t = browserConnections s \<Longrightarrow> currentBrowserConnections t = currentBrowserConnections s \<Longrightarrow>
    connectionsOk t = connectionsOk s"
  by (simp add: connectionsOk_def)

lemma connectionsOk_update:
  assumes "connectionsOk s" "map_get (browserConnections s) key = Some c"
    "bc_clientInstallationId (sconn c') = bc_clientInstallationId (sconn c)"
    "bc_state (sconn c') = ConnActive \<longrightarrow> bc_state (sconn c) = ConnActive"
    "browserConnections t = map_set key c' (browserConnections s)"
    "currentBrowserConnections t = currentBrowserConnections s"
  shows "connectionsOk t"
  using assms by (auto simp: connectionsOk_def simp del: scopedKey_inj split: if_splits)

lemma connectionsOk_supersede:
  assumes ok: "connectionsOk s"
  shows "connectionsOk (supersedeCurrent k s)"
    "currentBrowserConnections (supersedeCurrent k s) = currentBrowserConnections s"
    "map_get (currentBrowserConnections s) k = Some key \<Longrightarrow> key \<noteq> [] \<Longrightarrow>
      map_get (browserConnections (supersedeCurrent k s)) key = Some c \<Longrightarrow> bc_state (sconn c) \<noteq> ConnActive"
proof -
  show "connectionsOk (supersedeCurrent k s)"
  proof (cases "supersedeCurrent k s = s")
    case False
    then obtain key c where "map_get (browserConnections s) key = Some c"
      "browserConnections (supersedeCurrent k s) =
         map_set key (c\<lparr>sconn := (sconn c)\<lparr>bc_state := ConnSuperseded\<rparr>\<rparr>) (browserConnections s)"
      "currentBrowserConnections (supersedeCurrent k s) = currentBrowserConnections s"
      by (auto simp: supersedeCurrent_def Let_def split: option.splits if_splits)
    then show ?thesis by (intro connectionsOk_update [OF ok]) auto
  qed (simp add: ok)
qed (auto simp: supersedeCurrent_def Let_def split: option.splits if_splits)

lemma browserConnectionKey_not_Nil [simp]: "browserConnectionKey ctx i \<noteq> []"
  by (simp add: browserConnectionKey_def)

lemma connectionsOk_fresh:
  assumes ok: "connectionsOk s"
  shows "connectionsOk (snd (connectFresh ctx input now s))"
  unfolding connectionsOk_def
proof (intro allI impI, elim conjE)
  let ?k = "browserClientKey ctx (con_clientInstallationId input)"
  let ?s1 = "supersedeCurrent ?k s" and ?t = "snd (connectFresh ctx input now s)"
  let ?new = "browserConnectionKey ctx (con_newConnectionId input)"
  fix c2 i c
  assume get: "map_get (browserConnections ?t) (browserConnectionKey c2 i) = Some c" and act: "bc_state (sconn c) = ConnActive"
  have cur: "currentBrowserConnections ?t = map_set ?k ?new (currentBrowserConnections s)"
    by (simp add: connectFresh_def Let_def connectionsOk_supersede(2) [OF ok])
  show "map_get (currentBrowserConnections ?t) (browserClientKey c2 (bc_clientInstallationId (sconn c))) =
      Some (browserConnectionKey c2 i)"
  proof (cases "browserConnectionKey c2 i = ?new")
    case True
    then have same: "actorScopeKey c2 = actorScopeKey ctx" by simp
    have "bc_clientInstallationId (sconn c) = con_clientInstallationId input"
      using get True by (auto simp: connectFresh_def Let_def simp del: scopedKey_inj)
    then have "browserClientKey c2 (bc_clientInstallationId (sconn c)) = ?k"
      using same by simp
    with True show ?thesis unfolding cur by (simp del: scopedKey_inj)
  next
    case False
    then have get1: "map_get (browserConnections ?s1) (browserConnectionKey c2 i) = Some c"
      using get by (simp add: connectFresh_def Let_def del: scopedKey_inj)
    with connectionsOk_supersede(1,2) [OF ok] act
    have old: "map_get (currentBrowserConnections s) (browserClientKey c2 (bc_clientInstallationId (sconn c))) =
        Some (browserConnectionKey c2 i)"
      by (auto simp: connectionsOk_def simp del: scopedKey_inj)
    moreover have "browserClientKey c2 (bc_clientInstallationId (sconn c)) \<noteq> ?k"
      using connectionsOk_supersede(3) [OF ok _ browserConnectionKey_not_Nil get1] old act
      by (metis browserConnectionKey_not_Nil)
    ultimately show ?thesis unfolding cur by (simp del: scopedKey_inj)
  qed
qed

lemma connectionsOk_connect:
  assumes ok: "connectionsOk s"
  shows "connectionsOk (snd (connectBrowserClient ctx input now s))"
proof (cases "\<exists>resume c. con_resume input = Some resume \<and>
    map_get (browserConnections s) (browserConnectionKey ctx (res_connectionId resume)) = Some c \<and>
    resumable ctx input resume c now s")
  case True
  then obtain resume c where "con_resume input = Some resume"
    and get: "map_get (browserConnections s) (browserConnectionKey ctx (res_connectionId resume)) = Some c"
    and "resumable ctx input resume c now s"
    by blast
  then have "assertContext ctx = None \<Longrightarrow> snd (connectBrowserClient ctx input now s) =
      s\<lparr>browserConnections := map_set (browserConnectionKey ctx (res_connectionId resume))
        (resumedConnection input now c) (browserConnections s)\<rparr>"
    by (simp add: connectBrowserClient_def Let_def)
  moreover have "connectionsOk (s\<lparr>browserConnections := map_set (browserConnectionKey ctx (res_connectionId resume))
        (resumedConnection input now c) (browserConnections s)\<rparr>)"
    by (rule connectionsOk_update [OF ok get, where c' = "resumedConnection input now c"])
      (simp_all add: resumedConnection_def)
  ultimately show ?thesis
    by (cases "assertContext ctx") (simp_all add: ok connectBrowserClient_def)
next
  case False
  then show ?thesis
    using connectionsOk_fresh [OF ok] ok
    by (auto simp: connectBrowserClient_def Let_def split: option.split)
qed

lemma connectionsOk_heartbeat:
  assumes ok: "connectionsOk s"
  shows "connectionsOk (snd (heartbeatBrowserConnection ctx cred exp now s))"
proof (cases "snd (heartbeatBrowserConnection ctx cred exp now s) = s")
  case False
  then obtain key c where "map_get (browserConnections s) key = Some c"
    "browserConnections (snd (heartbeatBrowserConnection ctx cred exp now s)) =
       map_set key (c\<lparr>sconn := (sconn c)\<lparr>bc_leaseExpiresAt := exp, bc_lastSeenAt := now\<rparr>\<rparr>) (browserConnections s)"
    "currentBrowserConnections (snd (heartbeatBrowserConnection ctx cred exp now s)) = currentBrowserConnections s"
    by (auto simp: heartbeatBrowserConnection_def currentBrowserConnection_def Let_def split: option.splits if_splits)
  then show ?thesis by (intro connectionsOk_update [OF ok]) auto
qed (simp add: ok)

lemma connectionsOk_receipt:
  assumes ok: "connectionsOk s"
  shows "connectionsOk (snd (recordBrowserReceipt ctx input s))"
proof (cases "browserConnections (snd (recordBrowserReceipt ctx input s)) = browserConnections s")
  case False
  then obtain key c where "map_get (browserConnections s) key = Some c"
    "browserConnections (snd (recordBrowserReceipt ctx input s)) =
       map_set key (c\<lparr>sconn := (sconn c)\<lparr>bc_cursor := max (bc_cursor (sconn c)) (rc_receivedSequence input)\<rparr>\<rparr>)
         (browserConnections s)"
    "currentBrowserConnections (snd (recordBrowserReceipt ctx input s)) = currentBrowserConnections s"
    by (auto simp: recordBrowserReceipt_def Let_def split: option.splits if_splits sum.splits)
  then show ?thesis by (intro connectionsOk_update [OF ok]) auto
next
  case True
  have "currentBrowserConnections (snd (recordBrowserReceipt ctx input s)) = currentBrowserConnections s"
    by (simp add: recordBrowserReceipt_def Let_def split: option.split sum.split)
  from connectionsOk_same [OF True this] ok show ?thesis by simp
qed

definition connParts where
  "connParts s = (browserConnections s, currentBrowserConnections s)"

lemma connParts_simps [simp]:
  "connParts (redactBrowserRun ctx r c s) = connParts s" "connParts (setRun k x s) = connParts s"
  "connParts (pushStep k f s) = connParts s" "connParts (storeAction ctx input a ob s) = connParts s"
  "connParts (applyOutput ctx a res now s) = connParts s" "connParts (setOnboarding v k s) = connParts s"
  "connParts (markDelivered ctx rec s) = connParts s"
  by (simp_all add: connParts_def setRun_def pushStep_def storeAction_def applyOutput_def setOnboarding_def
      markDelivered_def Let_def
      split: browserResultOutcome.split browserBrokerSuccessOutput.split option.split)

lemma connParts_settle [simp]: "connParts (settleAction ctx a res now s) = connParts s"
  by (simp add: settleAction_def Let_def) (simp add: connParts_def)

lemma connParts_fold [simp]: "connParts (fold (markDelivered ctx) recs s) = connParts s"
  by (induction recs arbitrary: s) simp_all

lemma connParts_cancelLoop [simp]: "connParts (snd (cancelLoop ctx conv now rs s)) = connParts s"
  by (induction rs arbitrary: s) (auto simp: Let_def split_beta)

lemma connParts_enqueueNew [simp]: "connParts (snd (enqueueNew ctx input run now u s)) = connParts s"
  by (simp add: enqueueNew_def Let_def parkRun_def split: option.split)

lemma connParts_acceptNew [simp]: "connParts (snd (acceptNew ctx input k c now ids s)) = connParts s"
proof -
  have "connParts (snd (acceptNew ctx input k c now ids s)) =
      connParts (setOnboarding (in_onboardingContext input) (tenantConversationScopeKey ctx c) s)"
    by (simp add: acceptNew_def Let_def appendEventRecord_def connParts_def split: option.split)
  then show ?thesis by simp
qed

lemma connParts_accept [simp]: "connParts (snd (acceptMessage ctx input now ids s)) = connParts s"
proof -
  have "connParts (snd (assertOrSetConversationOwner ctx K s)) = connParts s" for K
    by (simp add: assertOrSetConversationOwner_def connParts_def split: option.split)
  then show ?thesis
    by (auto simp: acceptMessage_def acceptExisting_def Let_def split: option.split prod.split sum.split)
      (metis snd_conv)+
qed

lemma connectionsOk_parts: "connParts t = connParts s \<Longrightarrow> connectionsOk s \<Longrightarrow> connectionsOk t"
  by (simp add: connParts_def connectionsOk_def)

lemma storeStep_connections:
  assumes ok: "connectionsOk s"
  shows "connectionsOk (storeStep op s)"
proof (cases op)
  case (OpComplete ctx runId input now)
  have "connParts (s\<lparr>messages := ms\<rparr>) = connParts s" for ms by (simp add: connParts_def)
  with OpComplete show ?thesis
    by (intro connectionsOk_parts [OF _ ok]) (simp add: completeRun_def Let_def split: sum.split option.split)
next
  case (OpSetGrant ctx conv client en now)
  then show ?thesis
    by (intro connectionsOk_parts [OF _ ok])
      (simp add: setBrowserAccessGrant_def Let_def connParts_def split: option.split)
next
  case (OpAppendEvent ctx conv msg now u)
  then show ?thesis
    by (intro connectionsOk_parts [OF _ ok])
      (simp add: appendEvent_def appendEventRecord_def Let_def connParts_def split: option.split)
qed (use ok in \<open>auto simp: connectionsOk_connect connectionsOk_heartbeat connectionsOk_receipt
      claimRun_def renewRunLease_def failRun_def cancelRun_def cancelConversationRuns_def
      enqueueBrowserAction_def listBrowserEvents_def recordBrowserResult_def Let_def split_beta
      intro!: connectionsOk_parts [OF _ ok] split: sum.split option.split\<close>)

interpretation conn: total_step_system storeStep connectionsOk
  by unfold_locales (rule storeStep_connections)

lemma connectionsOk_empty: "connectionsOk emptyStore"
  by (simp add: connectionsOk_def emptyStore_def)

text \<open>
  A browser client has one active connection. After any sequence of store operations, with no
  assumption on their arguments, two stored connections of the same actor and the same client
  installation that are both active are the same connection: connecting again supersedes the
  previous one.
\<close>

theorem browser_one_active_connection:
  assumes "s = fold storeStep ops emptyStore"
    "map_get (browserConnections s) (browserConnectionKey ctx i) = Some c" "bc_state (sconn c) = ConnActive"
    "map_get (browserConnections s) (browserConnectionKey ctx j) = Some d" "bc_state (sconn d) = ConnActive"
    "bc_clientInstallationId (sconn c) = bc_clientInstallationId (sconn d)"
  shows "i = j"
proof -
  have "connectionsOk s" unfolding assms(1) by (rule conn.total_run_inv [OF connectionsOk_empty])
  then have "Some (browserConnectionKey ctx i) = Some (browserConnectionKey ctx j)"
    using assms(2-) unfolding connectionsOk_def by metis
  then show ?thesis by simp
qed

theorem browser_one_active_connection_witness:
  "let s = fold storeStep [OpConnect demoCtx (demoConnect ''k1'') 1, OpConnect demoCtx (demoConnect ''k2'') 2] emptyStore;
      st = (\<lambda>i. map_option (\<lambda>c. bc_state (sconn c)) (map_get (browserConnections s) (browserConnectionKey demoCtx i)))
   in st ''k2'' = Some ConnActive \<and> st ''k1'' \<noteq> Some ConnActive"
proof -
  let ?s = "fold storeStep [OpConnect demoCtx (demoConnect ''k1'') 1, OpConnect demoCtx (demoConnect ''k2'') 2] emptyStore"
  let ?get = "\<lambda>i. map_get (browserConnections ?s) (browserConnectionKey demoCtx i)"
  have k2: "map_option (\<lambda>c. bc_state (sconn c)) (?get ''k2'') = Some ConnActive"
    "map_option (\<lambda>c. bc_clientInstallationId (sconn c)) (?get ''k2'') = Some ''cl''"
    "map_option (\<lambda>c. bc_clientInstallationId (sconn c)) (?get ''k1'') = Some ''cl''"
    by code_simp+
  have "map_option (\<lambda>c. bc_state (sconn c)) (?get ''k1'') \<noteq> Some ConnActive"
  proof
    assume "map_option (\<lambda>c. bc_state (sconn c)) (?get ''k1'') = Some ConnActive"
    then obtain c d where "?get ''k1'' = Some c" "bc_state (sconn c) = ConnActive" "?get ''k2'' = Some d"
      "bc_state (sconn d) = ConnActive" "bc_clientInstallationId (sconn c) = bc_clientInstallationId (sconn d)"
      using k2 by auto
    then have "''k1'' = ''k2''"
      by (rule browser_one_active_connection [of ?s "[OpConnect demoCtx (demoConnect ''k1'') 1, OpConnect demoCtx (demoConnect ''k2'') 2]", OF refl])
    then show False by simp
  qed
  with k2(1) show ?thesis unfolding Let_def by blast
qed

end
