(* ===== verification/Js_Strings.thy ===== *)
theory Js_Strings
  imports Prelude
begin

text \<open>
  More of the JavaScript standard library, as the components use it: \<open>split\<close> on one character,
  \<open>toLowerCase\<close> and \<open>toUpperCase\<close>, \<open>includes\<close>, and \<open>Number\<close> on strings without a decimal point.
\<close>

section \<open>split\<close>

fun splitOn :: "char \<Rightarrow> string \<Rightarrow> string list" where
  "splitOn c [] = [[]]"
| "splitOn c (x # xs) =
     (if x = c then [] # splitOn c xs
      else case splitOn c xs of [] \<Rightarrow> [[x]] | p # ps \<Rightarrow> (x # p) # ps)"

lemma splitOn_not_Nil [simp]: "splitOn c s \<noteq> []"
  by (induction c s rule: splitOn.induct) (auto split: list.splits)

lemma splitOn_no_sep [js_string]: "c \<notin> set s \<Longrightarrow> splitOn c s = [s]"
  by (induction s) auto

lemma splitOn_append [js_string]: "c \<notin> set s \<Longrightarrow> splitOn c (s @ c # t) = s # splitOn c t"
  by (induction s) (auto split: list.splits)

lemma splitOn_parts: "p \<in> set (splitOn c s) \<Longrightarrow> c \<notin> set p"
proof (induction c s arbitrary: p rule: splitOn.induct)
  case (2 c x xs)
  then show ?case by (cases "splitOn c xs") (auto split: if_splits)
qed simp

lemma joinWith_splitOn: "joinWith [c] (splitOn c s) = s"
proof (induction c s rule: splitOn.induct)
  case (2 c x xs)
  obtain p ps where "splitOn c xs = p # ps" by (meson neq_Nil_conv splitOn_not_Nil)
  with 2 show ?case by (cases "x = c"; cases ps) auto
qed simp

lemma splitOn_inj: "splitOn c s = splitOn c t \<longleftrightarrow> s = t"
  by (metis joinWith_splitOn)

section \<open>Case conversion\<close>

definition lowerChar :: "char \<Rightarrow> char" where
  "lowerChar c = (let n = (of_char c :: nat) in
     if (65 \<le> n \<and> n \<le> 90) \<or> (192 \<le> n \<and> n \<le> 222 \<and> n \<noteq> 215) then char_of (n + 32) else c)"

definition toLowerCase :: "string \<Rightarrow> string" where
  "toLowerCase s = map lowerChar s"

definition upperAscii :: "char \<Rightarrow> char" where
  "upperAscii c = (let n = (of_char c :: nat) in if 97 \<le> n \<and> n \<le> 122 then char_of (n - 32) else c)"

definition toUpperCase :: "string \<Rightarrow> string" where
  "toUpperCase s = map upperAscii s"
  \<comment> \<open>\<open>toUpperCase\<close> on ASCII, which is what method names are made of\<close>

section \<open>includes\<close>

definition includesSub :: "string \<Rightarrow> string \<Rightarrow> bool" where
  "includesSub s t \<longleftrightarrow> list_ex (\<lambda>i. take (length t) (drop i s) = t) [0..<Suc (length s)]"

section \<open>Number\<close>

definition isDigit :: "char \<Rightarrow> bool" where
  "isDigit c \<longleftrightarrow> (let n = (of_char c :: nat) in 48 \<le> n \<and> n \<le> 57)"

definition digitVal :: "char \<Rightarrow> nat option" where
  "digitVal c = (let n = of_char c in
     if 48 \<le> n \<and> n \<le> 57 then Some (n - 48)
     else if 97 \<le> n \<and> n \<le> 122 then Some (n - 87)
     else if 65 \<le> n \<and> n \<le> 90 then Some (n - 55) else None)"

fun digitsVal :: "nat \<Rightarrow> nat \<Rightarrow> string \<Rightarrow> nat option" where
  "digitsVal base acc [] = Some acc"
| "digitsVal base acc (c # cs) =
     (case digitVal c of None \<Rightarrow> None | Some d \<Rightarrow> if d < base then digitsVal base (acc * base + d) cs else None)"

definition radixLiteral :: "nat \<Rightarrow> string \<Rightarrow> js_number" where
  "radixLiteral base s =
     (if s = [] then NonInt else case digitsVal base 0 s of None \<Rightarrow> NonInt | Some n \<Rightarrow> IntNum (int n))"

definition scaled :: "nat \<Rightarrow> nat \<Rightarrow> bool \<Rightarrow> js_number" where
  "scaled m k down =
     (if \<not> down then IntNum (int (m * 10 ^ k))
      else if 10 ^ k dvd m then IntNum (int (m div 10 ^ k)) else NonInt)"

definition exponentPart :: "nat \<Rightarrow> string \<Rightarrow> js_number" where
  "exponentPart m rest =
     (let (down, ds) = (case rest of [] \<Rightarrow> (False, []) | c # cs \<Rightarrow>
            if c = CHR ''-'' then (True, cs) else if c = CHR ''+'' then (False, cs) else (False, c # cs))
      in if ds = [] then NonInt
         else case digitsVal 10 0 ds of None \<Rightarrow> NonInt | Some k \<Rightarrow> scaled m k down)"

definition decimalLiteral :: "string \<Rightarrow> js_number" where
  "decimalLiteral s =
     (let ds = takeWhile isDigit s; rest = dropWhile isDigit s in
      if ds = [] then NonInt
      else case digitsVal 10 0 ds of None \<Rightarrow> NonInt
         | Some m \<Rightarrow> (case rest of [] \<Rightarrow> IntNum (int m)
             | c # cs \<Rightarrow> if c = CHR ''e'' \<or> c = CHR ''E'' then exponentPart m cs else NonInt))"

fun negateNumber :: "js_number \<Rightarrow> js_number" where
  "negateNumber (IntNum n) = IntNum (- n)"
| "negateNumber NonInt = NonInt"

definition numberOf :: "string \<Rightarrow> js_number" where
  "numberOf s =
     (case trim s of
        [] \<Rightarrow> IntNum 0
      | c # cs \<Rightarrow>
          if c = CHR ''+'' then decimalLiteral cs
          else if c = CHR ''-'' then negateNumber (decimalLiteral cs)
          else if c = CHR ''0'' \<and> cs \<noteq> [] \<and> hd cs \<in> {CHR ''x'', CHR ''X''} then radixLiteral 16 (tl cs)
          else if c = CHR ''0'' \<and> cs \<noteq> [] \<and> hd cs \<in> {CHR ''o'', CHR ''O''} then radixLiteral 8 (tl cs)
          else if c = CHR ''0'' \<and> cs \<noteq> [] \<and> hd cs \<in> {CHR ''b'', CHR ''B''} then radixLiteral 2 (tl cs)
          else decimalLiteral (c # cs))"
  \<comment> \<open>\<open>Number(s)\<close> for a string without a decimal point and with exponents inside the range of
      doubles; \<open>NonInt\<close> covers NaN, infinities and fractions\<close>

lemma digitsVal_append: "digitsVal b acc (xs @ ys) =
  (case digitsVal b acc xs of None \<Rightarrow> None | Some n \<Rightarrow> digitsVal b n ys)"
  by (induction b acc xs rule: digitsVal.induct) (auto split: option.split)

lemma digit_facts: "k < 10 \<Longrightarrow> digitVal (''0123456789'' ! k) = Some k \<and> isDigit (''0123456789'' ! k)"
proof -
  have "\<forall>k \<in> {..<10}. digitVal (''0123456789'' ! k) = Some k \<and> isDigit (''0123456789'' ! k)" by code_simp
  then show "k < 10 \<Longrightarrow> digitVal (''0123456789'' ! k) = Some k \<and> isDigit (''0123456789'' ! k)" by simp
qed

lemma decimal_value: "digitsVal 10 0 (decimal n) = Some n \<and> list_all isDigit (decimal n) \<and> decimal n \<noteq> []"
proof (induction n rule: decimal.induct)
  case (1 n)
  show ?case
  proof (cases "n < 10")
    case True
    then show ?thesis using digit_facts [OF True] by (simp add: decimal.simps [of n])
  next
    case False
    then have "digitsVal 10 0 (decimal n) = digitsVal 10 (n div 10) [''0123456789'' ! (n mod 10)]"
      using 1 by (subst decimal.simps) (simp add: digitsVal_append)
    with False 1 digit_facts [of "n mod 10"] show ?thesis
      by (simp add: decimal.simps [of n])
  qed
qed

lemma isDigit_not_space: "isDigit c \<Longrightarrow> \<not> isSpace c"
  by (auto simp: isDigit_def isSpace_def)

lemma trim_digits: "list_all isDigit s \<Longrightarrow> trim s = s"
proof -
  assume d: "list_all isDigit s"
  have drop: "dropWhile isSpace xs = xs" if "list_all isDigit xs" for xs
    using that by (cases xs) (auto dest: isDigit_not_space)
  have "list_all isDigit (rev s)" using d by (simp add: list_all_iff)
  with d show ?thesis by (simp add: trim_def trimStart_def drop)
qed

lemma decimalLiteral_decimal: "decimalLiteral (decimal n) = IntNum (int n)"
proof -
  have "takeWhile isDigit (decimal n) = decimal n" and "dropWhile isDigit (decimal n) = []"
    using decimal_value [of n] by (simp_all add: list_all_iff takeWhile_eq_all_conv)
  then show ?thesis
    unfolding decimalLiteral_def Let_def by (simp only:) (use decimal_value [of n] in simp)
qed

lemma numberOf_decimal: "numberOf (decimal n) = IntNum (int n)"
proof -
  obtain c cs where c: "decimal n = c # cs" using decimal_value [of n] by (cases "decimal n") auto
  then have digits: "isDigit c" "list_all isDigit cs" using decimal_value [of n] by simp_all
  then have "c \<noteq> CHR ''+''" "c \<noteq> CHR ''-''" by (auto simp: isDigit_def)
  moreover have "cs \<noteq> [] \<Longrightarrow> hd cs \<notin> {CHR ''x'', CHR ''X'', CHR ''o'', CHR ''O'', CHR ''b'', CHR ''B''}"
    using digits(2) by (cases cs) (auto simp: isDigit_def)
  moreover have "trim (c # cs) = c # cs" using trim_digits [of "c # cs"] digits by simp
  ultimately have "numberOf (c # cs) = decimalLiteral (c # cs)" by (auto simp: numberOf_def)
  then show ?thesis using decimalLiteral_decimal [of n] c by simp
qed

end
