(* ===== verification/Web_Url.thy ===== *)
theory Web_Url
  imports Js_Strings
begin

text \<open>
  What the components take from the platform's \<open>URL\<close> class and from \<open>crypto\<close>, as parameters, and
  \<open>decodeURIComponent\<close>, which is part of the language and is defined here. A URL parser gives the
  components of an absolute URL, or \<open>None\<close> when the constructor throws; a hasher is SHA-256 in
  hexadecimal, an arbitrary function of the text.
\<close>

record parsedUrl =
  url_protocol :: string
  url_username :: string
  url_password :: string
  url_hostname :: string
  url_port :: string
  url_origin :: string
  url_pathname :: string

type_synonym urlParser = "string \<Rightarrow> parsedUrl option"
type_synonym hasher = "string \<Rightarrow> string"

section \<open>decodeURIComponent\<close>

text \<open>
  The result is the list of code points; the octets of the escapes must be well-formed UTF-8 (no
  overlong form, no surrogate, nothing above U+10FFFF), otherwise the function throws.
\<close>

type_synonym codePoints = "nat list"

definition hexValue :: "char \<Rightarrow> nat option" where
  "hexValue c = (let n = (of_char c :: nat) in
     if 48 \<le> n \<and> n \<le> 57 then Some (n - 48)
     else if 65 \<le> n \<and> n \<le> 70 then Some (n - 55)
     else if 97 \<le> n \<and> n \<le> 102 then Some (n - 87)
     else None)"

fun percentOctet :: "string \<Rightarrow> (nat \<times> string) option" where
  "percentOctet (p # a # b # rest) =
     (if p = CHR ''%'' then
        (case (hexValue a, hexValue b) of (Some x, Some y) \<Rightarrow> Some (16 * x + y, rest) | _ \<Rightarrow> None)
      else None)"
| "percentOctet _ = None"

fun continuation :: "nat \<Rightarrow> nat \<Rightarrow> string \<Rightarrow> (nat \<times> string) option" where
  "continuation 0 acc s = Some (acc, s)"
| "continuation (Suc n) acc s =
     (case percentOctet s of
        None \<Rightarrow> None
      | Some (b, rest) \<Rightarrow>
          if 128 \<le> b \<and> b < 192 then continuation n (64 * acc + (b - 128)) rest else None)"

definition escapedPoint :: "string \<Rightarrow> (nat \<times> string) option" where
  "escapedPoint s =
     (case percentOctet s of
        None \<Rightarrow> None
      | Some (b, rest) \<Rightarrow>
          if b < 128 then Some (b, rest)
          else if 194 \<le> b \<and> b < 224 then continuation 1 (b - 192) rest
          else if 224 \<le> b \<and> b < 240 then
            (case continuation 2 (b - 224) rest of
               Some (p, r) \<Rightarrow> if 2048 \<le> p \<and> \<not> (55296 \<le> p \<and> p < 57344) then Some (p, r) else None
             | None \<Rightarrow> None)
          else if 240 \<le> b \<and> b < 245 then
            (case continuation 3 (b - 240) rest of
               Some (p, r) \<Rightarrow> if 65536 \<le> p \<and> p < 1114112 then Some (p, r) else None
             | None \<Rightarrow> None)
          else None)"

lemma percentOctet_shorter: "percentOctet s = Some (b, r) \<Longrightarrow> length r < length s"
  by (induction s rule: percentOctet.induct) (auto split: if_splits option.splits)

lemma continuation_shorter: "continuation n acc s = Some (p, r) \<Longrightarrow> length r \<le> length s"
proof (induction n arbitrary: acc s)
  case (Suc n)
  then show ?case using percentOctet_shorter by (fastforce split: option.splits if_splits)
qed simp

lemma escapedPoint_shorter:
  assumes e: "escapedPoint s = Some (p, r)"
  shows "length r < length s"
proof -
  from e obtain b rest where b: "percentOctet s = Some (b, rest)"
    by (auto simp: escapedPoint_def split: option.splits)
  with e have "rest = r \<or> (\<exists>n acc. continuation n acc rest = Some (p, r))"
    unfolding escapedPoint_def b
    by (auto simp del: continuation.simps One_nat_def split: if_splits option.splits prod.splits)
  then have "length r \<le> length rest" using continuation_shorter by blast
  also have "length rest < length s" by (rule percentOctet_shorter [OF b])
  finally show ?thesis .
qed

function decodeURIComponent :: "string \<Rightarrow> codePoints option" where
  "decodeURIComponent [] = Some []"
| "decodeURIComponent (c # s) =
     (if c = CHR ''%'' then
        (case escapedPoint (c # s) of
           None \<Rightarrow> None
         | Some (p, rest) \<Rightarrow> map_option ((#) p) (decodeURIComponent rest))
      else map_option ((#) (of_char c)) (decodeURIComponent s))"
  by pat_completeness auto
termination
  by (relation "measure length") (auto dest: escapedPoint_shorter)

declare decodeURIComponent.simps(2) [simp del]

definition points :: "string \<Rightarrow> codePoints" where
  "points s = map of_char s"

lemma points_inj [simp]: "points s = points t \<longleftrightarrow> s = t"
  by (simp add: points_def inj_map_eq_map inj_def)

lemma decode_plain: "CHR ''%'' \<notin> set s \<Longrightarrow> decodeURIComponent s = Some (points s)"
  by (induction s) (auto simp: decodeURIComponent.simps(2) points_def)

end
