(* ===== verification/Stable_Json.thy ===== *)
theory Stable_Json
  imports Prelude "HOL-Library.Char_ord" "HOL-Library.List_Lexorder" "HOL-Library.Multiset"
begin

text \<open>
  \<open>stableJson\<close> of the browser broker service (concurrent-runtime/browser-broker/service.ts), which
  fingerprints an operation independently of the order of its keys, and the proof that it is a
  complete canonical form: two values have the same rendering exactly when they are equal up to the
  order of object keys. It rests on \<open>JSON.stringify\<close> being injective, proved here for all values.
  Keys are compared by code unit, as \<open>Array.prototype.sort\<close> does.
\<close>

fun stableJson :: "json \<Rightarrow> string" where
  "stableJson (JArr xs) = ''['' @ joinWith '','' (map stableJson xs) @ '']''"
| "stableJson (JObj kvs) =
     CHR 0x7B # joinWith '','' (map (\<lambda>kv. json_string (fst kv) @ CHR '':'' # stableJson (snd kv))
       (sort_key fst kvs)) @ [CHR 0x7D]"
| "stableJson v = json_text v"

text \<open>The value with the keys of every object sorted.\<close>

fun canonicalJson :: "json \<Rightarrow> json" where
  "canonicalJson (JArr xs) = JArr (map canonicalJson xs)"
| "canonicalJson (JObj kvs) = JObj (map (\<lambda>kv. (fst kv, canonicalJson (snd kv))) (sort_key fst kvs))"
| "canonicalJson v = v"

lemma stableJson_canonical: "stableJson v = json_text (canonicalJson v)"
proof (induction v rule: stableJson.induct)
  case (1 xs)
  then have "map stableJson xs = map (json_text \<circ> canonicalJson) xs" by simp
  then show ?case by (simp add: map_map [symmetric] del: map_map)
next
  case (2 kvs)
  have "map (\<lambda>kv. json_string (fst kv) @ CHR '':'' # stableJson (snd kv)) (sort_key fst kvs) =
      map (\<lambda>kv. json_string (fst kv) @ CHR '':'' # json_text (snd kv))
        (map (\<lambda>kv. (fst kv, canonicalJson (snd kv))) (sort_key fst kvs))"
    using 2 by simp
  then show ?case by (simp only: stableJson.simps canonicalJson.simps json_text.simps)
qed simp_all

section \<open>Injectivity of JSON.stringify\<close>

definition isDelimiter :: "string \<Rightarrow> bool" where
  "isDelimiter r \<longleftrightarrow> (case r of [] \<Rightarrow> True | c # cs \<Rightarrow> c = CHR '','' \<or> c = CHR '']'' \<or> c = CHR 0x7D)"

definition isDigitChar :: "char \<Rightarrow> bool" where
  "isDigitChar c \<longleftrightarrow> c \<in> set ''0123456789''"

definition digitChar :: "nat \<Rightarrow> char" where
  "digitChar n = ''0123456789'' ! n"

lemma digitChar_inj: "m < 10 \<Longrightarrow> n < 10 \<Longrightarrow> digitChar m = digitChar n \<longleftrightarrow> m = n"
  unfolding digitChar_def by (subst nth_eq_iff_index_eq) (simp_all add: eval_nat_numeral)

lemma decimal_digits: "list_all isDigitChar (decimal n) \<and> decimal n \<noteq> []"
proof (induction n rule: decimal.induct)
  case (1 n)
  have "isDigitChar (''0123456789'' ! k)" if "k < 10" for k
    unfolding isDigitChar_def using that by (intro nth_mem) simp
  with 1 show ?case by (subst decimal.simps) (auto simp: decimal.simps [of n])
qed

lemma decimal_inj: "decimal m = decimal n \<Longrightarrow> m = n"
proof (induction m arbitrary: n rule: decimal.induct)
  case (1 m)
  show ?case
  proof (cases "m < 10 \<or> n < 10")
    case True
    have "decimal k \<noteq> []" "[] \<noteq> decimal k" for k using decimal_digits [of k] by auto
    then show ?thesis
      using 1(2) True digitChar_inj [unfolded digitChar_def, of m n] decimal.simps [of m] decimal.simps [of n]
      by (auto split: if_splits)
  next
    case False
    then have "decimal (m div 10) = decimal (n div 10)" "''0123456789'' ! (m mod 10) = ''0123456789'' ! (n mod 10)"
      using 1(2) decimal.simps [of m] decimal.simps [of n] by auto
    then have "m div 10 = n div 10" "m mod 10 = n mod 10"
      using 1(1) False digitChar_inj [unfolded digitChar_def, of "m mod 10" "n mod 10"] by auto
    then show ?thesis by (metis div_mult_mod_eq)
  qed
qed

lemma digits_append_eq:
  assumes "list_all isDigitChar as" "list_all isDigitChar bs" "isDelimiter r" "isDelimiter r'" "as @ r = bs @ r'"
  shows "as = bs \<and> r = r'"
proof -
  have stop: "takeWhile isDigitChar r = []" if "isDelimiter r" for r
    using that by (cases r) (auto simp: isDelimiter_def isDigitChar_def)
  have "takeWhile isDigitChar (as @ r) = as"
    using assms(1) stop [OF assms(3)] by (simp add: takeWhile_append2 list_all_iff)
  moreover have "takeWhile isDigitChar (bs @ r') = bs"
    using assms(2) stop [OF assms(4)] by (simp add: takeWhile_append2 list_all_iff)
  ultimately show ?thesis using assms(5) by simp
qed

lemma number_text_hd: "number_text k \<noteq> [] \<and> (hd (number_text k) = CHR ''-'' \<longleftrightarrow> k < 0)"
proof -
  have "decimal j \<noteq> [] \<and> hd (decimal j) \<noteq> CHR ''-''" for j
    using decimal_digits [of j] by (cases "decimal j") (auto simp: isDigitChar_def)
  then show ?thesis by (simp add: number_text_def)
qed

lemma number_text_inj:
  assumes "isDelimiter r" "isDelimiter r'" "number_text m @ r = number_text n @ r'"
  shows "m = n \<and> r = r'"
proof -
  have dec: "decimal j @ r = decimal k @ r' \<Longrightarrow> j = k \<and> r = r'" for j k
    using digits_append_eq [OF _ _ assms(1,2), of "decimal j" "decimal k"]
      decimal_digits [of j] decimal_digits [of k] decimal_inj [of j k] by simp
  have "hd (number_text m @ r) = hd (number_text n @ r')" using assms(3) by simp
  then have "m < 0 \<longleftrightarrow> n < 0" using number_text_hd [of m] number_text_hd [of n] by simp
  then show ?thesis
    using assms(3) dec [of "nat (- m)" "nat (- n)"] dec [of "nat m" "nat n"]
    by (cases "m < 0") (auto simp: number_text_def nat_eq_iff2)
qed

text \<open>Printing the elements of an array or an object, for any injective element printer.\<close>

definition delimitedInj :: "('a \<Rightarrow> string) \<Rightarrow> 'a \<Rightarrow> bool" where
  "delimitedInj f x \<longleftrightarrow>
     (\<forall>y r r'. isDelimiter r \<and> isDelimiter r' \<and> f x @ r = f y @ r' \<longrightarrow> x = y \<and> r = r')"

lemma delimiter_comma [simp]: "isDelimiter (CHR '','' # r)" "isDelimiter (CHR '']'' # r)" "isDelimiter (CHR 0x7D # r)"
  "isDelimiter []"
  by (simp_all add: isDelimiter_def)

lemma delimitedInjD:
  "delimitedInj f x \<Longrightarrow> isDelimiter r \<Longrightarrow> isDelimiter r' \<Longrightarrow> f x @ r = f y @ r' \<Longrightarrow> x = y \<and> r = r'"
  unfolding delimitedInj_def by blast

lemma join_inj:
  assumes inj: "\<And>x. x \<in> set xs \<Longrightarrow> delimitedInj f x"
    and first: "\<And>x. f x \<noteq> [] \<and> hd (f x) \<noteq> c" and c: "c = CHR '']'' \<or> c = CHR 0x7D"
    and eq: "joinWith '','' (map f xs) @ c # r = joinWith '','' (map f ys) @ c # r'"
  shows "xs = ys \<and> r = r'"
  using inj eq
proof (induction xs arbitrary: ys)
  case Nil
  then show ?case
    using first by (cases ys; cases "tl ys") (auto, (metis hd_append2 list.sel(1))+)
next
  case (Cons x xs)
  have dc: "isDelimiter (c # t)" for t using c by auto
  have x: "delimitedInj f x" using Cons.prems(1) by simp
  have cc: "c \<noteq> CHR '',''" using c by auto
  obtain y ys' where ys: "ys = y # ys'"
    using Cons.prems(2) first [of x] by (cases ys; cases xs) (auto, (metis hd_append2 list.sel(1))+)
  show ?case
  proof (cases xs)
    case Nil
    show ?thesis
    proof (cases ys')
      case Nil
      with Cons.prems(2) \<open>xs = []\<close> ys delimitedInjD [OF x dc dc] show ?thesis by auto
    next
      case (Cons z zs)
      with Cons.prems(2) \<open>xs = []\<close> ys have "f x @ c # r = f y @ CHR '','' # joinWith '','' (map f ys') @ c # r'" by simp
      from delimitedInjD [OF x dc delimiter_comma(1) this] cc show ?thesis by simp
    qed
  next
    case (Cons z zs)
    note xs = this
    show ?thesis
    proof (cases ys')
      case Nil
      with Cons.prems(2) xs ys have "f x @ CHR '','' # joinWith '','' (map f xs) @ c # r = f y @ c # r'" by simp
      from delimitedInjD [OF x delimiter_comma(1) dc this] cc show ?thesis by simp
    next
      case (Cons w ws)
      with Cons.prems(2) xs ys have "f x @ CHR '','' # joinWith '','' (map f xs) @ c # r =
          f y @ CHR '','' # joinWith '','' (map f ys') @ c # r'" by simp
      from delimitedInjD [OF x delimiter_comma(1) delimiter_comma(1) this]
      have "x = y" "joinWith '','' (map f xs) @ c # r = joinWith '','' (map f ys') @ c # r'" by simp_all
      with Cons.IH Cons.prems(1) ys show ?thesis by simp
    qed
  qed
qed

lemma json_text_first:
  "json_text v \<noteq> [] \<and> hd (json_text v) \<noteq> CHR '']'' \<and> hd (json_text v) \<noteq> CHR 0x7D \<and>
   (hd (json_text v) = CHR ''n'' \<longleftrightarrow> v = JNull) \<and>
   (hd (json_text v) \<in> {CHR ''t'', CHR ''f''} \<longleftrightarrow> (\<exists>b. v = JBool b)) \<and>
   (hd (json_text v) = CHR 0x22 \<longleftrightarrow> (\<exists>s. v = JStr s)) \<and>
   (hd (json_text v) = CHR ''['' \<longleftrightarrow> (\<exists>xs. v = JArr xs)) \<and>
   (hd (json_text v) = CHR 0x7B \<longleftrightarrow> (\<exists>kvs. v = JObj kvs))"
proof (cases v)
  case (JNum n)
  have "decimal j \<noteq> [] \<and> isDigitChar (hd (decimal j))" for j
    using decimal_digits [of j] by (cases "decimal j") auto
  then have "number_text n \<noteq> [] \<and> (hd (number_text n) = CHR ''-'' \<or> isDigitChar (hd (number_text n)))"
    by (simp add: number_text_def)
  with JNum show ?thesis by (auto simp: isDigitChar_def)
qed (simp_all add: json_string_def)

lemma json_member_inj:
  assumes "delimitedInj json_text (snd kv)"
  shows "delimitedInj (\<lambda>kv. json_string (fst kv) @ CHR '':'' # json_text (snd kv)) kv"
  unfolding delimitedInj_def
proof (intro allI impI, elim conjE)
  fix y :: "string \<times> json" and r r'
  assume d: "isDelimiter r" "isDelimiter r'"
    and "(json_string (fst kv) @ CHR '':'' # json_text (snd kv)) @ r = (json_string (fst y) @ CHR '':'' # json_text (snd y)) @ r'"
  then have "json_string (fst kv) @ (CHR '':'' # json_text (snd kv) @ r) =
      json_string (fst y) @ (CHR '':'' # json_text (snd y) @ r')"
    by simp
  from json_string_inj [OF this] have "fst kv = fst y" "json_text (snd kv) @ r = json_text (snd y) @ r'"
    by simp_all
  with delimitedInjD [OF assms d] show "kv = y \<and> r = r'" by (simp add: prod_eq_iff)
qed

lemma same_head:
  assumes "json_text v @ r = json_text w @ r'"
  shows "hd (json_text v) = hd (json_text w)"
  using assms json_text_first [of v] json_text_first [of w] by (metis hd_append2)

lemma json_text_delimitedInj: "delimitedInj json_text v"
proof (induction v rule: json_text.induct)
  case 1
  show ?case unfolding delimitedInj_def
  proof (intro allI impI, elim conjE)
    fix w r r' assume eq: "json_text JNull @ r = json_text w @ r'"
    have "hd (json_text w) = CHR ''n''" using same_head [OF eq] by simp
    then have "w = JNull" using json_text_first [of w] by blast
    with eq show "JNull = w \<and> r = r'" by simp
  qed
next
  case (2 b)
  show ?case unfolding delimitedInj_def
  proof (intro allI impI, elim conjE)
    fix w r r' assume eq: "json_text (JBool b) @ r = json_text w @ r'"
    then obtain c where "w = JBool c"
      using same_head [OF eq] json_text_first [of w] json_text_first [of "JBool b"] by auto
    with eq show "JBool b = w \<and> r = r'" by (auto split: if_splits)
  qed
next
  case (3 n)
  show ?case unfolding delimitedInj_def
  proof (intro allI impI, elim conjE)
    fix w r r' assume d: "isDelimiter r" "isDelimiter r'" and eq: "json_text (JNum n) @ r = json_text w @ r'"
    then obtain m where "w = JNum m"
      using same_head [OF eq] json_text_first [of w] json_text_first [of "JNum n"] by (cases w) auto
    with eq number_text_inj [OF d] show "JNum n = w \<and> r = r'" by simp
  qed
next
  case (4 s)
  show ?case unfolding delimitedInj_def
  proof (intro allI impI, elim conjE)
    fix w r r' assume eq: "json_text (JStr s) @ r = json_text w @ r'"
    then obtain t where "w = JStr t"
      using same_head [OF eq] json_text_first [of w] json_text_first [of "JStr s"] by auto
    with eq json_string_inj [of s r t r'] show "JStr s = w \<and> r = r'" by simp
  qed
next
  case (5 xs)
  show ?case unfolding delimitedInj_def
  proof (intro allI impI, elim conjE)
    fix w r r' assume eq: "json_text (JArr xs) @ r = json_text w @ r'"
    then obtain ys where w: "w = JArr ys"
      using same_head [OF eq] json_text_first [of w] json_text_first [of "JArr xs"] by auto
    have "joinWith '','' (map json_text xs) @ CHR '']'' # r = joinWith '','' (map json_text ys) @ CHR '']'' # r'"
      using eq w by simp
    from join_inj [OF 5 _ _ this] json_text_first w show "JArr xs = w \<and> r = r'" by simp
  qed
next
  case (6 kvs)
  let ?f = "\<lambda>kv. json_string (fst kv) @ CHR '':'' # json_text (snd kv)"
  show ?case unfolding delimitedInj_def
  proof (intro allI impI, elim conjE)
    fix w r r' assume eq: "json_text (JObj kvs) @ r = json_text w @ r'"
    then obtain kvs' where w: "w = JObj kvs'"
      using same_head [OF eq] json_text_first [of w] json_text_first [of "JObj kvs"] by auto
    have eq': "joinWith '','' (map ?f kvs) @ CHR 0x7D # r = joinWith '','' (map ?f kvs') @ CHR 0x7D # r'"
      using eq w by simp
    have "delimitedInj ?f kv" if "kv \<in> set kvs" for kv
      using json_member_inj 6 [OF that] by blast
    from join_inj [OF this _ _ eq'] w show "JObj kvs = w \<and> r = r'" by (simp add: json_string_def)
  qed
qed

theorem json_text_inj: "json_text v = json_text w \<longleftrightarrow> v = w"
  using delimitedInjD [OF json_text_delimitedInj, of "[]" "[]" v w] by auto

text \<open>
  C16: the operation fingerprint is a complete canonical form. Two JSON values have the same
  \<open>stableJson\<close> rendering if and only if they are the same value up to the order of object keys, at
  every depth, so the hash of the rendering tells two operations apart whenever they differ.
\<close>

theorem stableJson_canonical_form: "stableJson v = stableJson w \<longleftrightarrow> canonicalJson v = canonicalJson w"
  by (simp add: stableJson_canonical json_text_inj)

text \<open>Reordering the keys of an object does not change its rendering.\<close>

lemma sort_key_mset_distinct:
  assumes "distinct (map f xs)" "set xs = set ys" "length xs = length ys"
  shows "sort_key f xs = sort_key f ys"
proof (rule properties_for_sort_key)
  have "distinct xs" using assms(1) by (simp add: distinct_map)
  then have "distinct ys" using assms(2,3) by (metis card_distinct distinct_card)
  with \<open>distinct xs\<close> assms(2) show "mset (sort_key f ys) = mset xs"
    by (simp add: set_eq_iff_mset_eq_distinct)
  show "\<And>k. k \<in> set (sort_key f ys) \<Longrightarrow>
      filter (\<lambda>x. f k = f x) (sort_key f ys) = filter (\<lambda>x. f k = f x) xs"
  proof -
    fix k
    assume "k \<in> set (sort_key f ys)"
    then have k: "k \<in> set xs" using assms(2) by simp
    have single: "filter (\<lambda>x. f k = f x) zs = [k]" if "distinct (map f zs)" "k \<in> set zs" for zs
      using that by (induction zs) (auto simp: filter_empty_conv image_iff)
    have "distinct (map f (sort_key f ys))"
      using assms \<open>distinct ys\<close> by (simp add: distinct_map inj_on_def)
    then show "filter (\<lambda>x. f k = f x) (sort_key f ys) = filter (\<lambda>x. f k = f x) xs"
      using single k assms(1,2) by (metis set_sort)
  qed
  show "sorted (map f (sort_key f ys))" by simp
qed

lemma stableJson_key_order:
  assumes "distinct (map fst kvs)" "set kvs = set kvs'" "length kvs = length kvs'"
  shows "stableJson (JObj kvs) = stableJson (JObj kvs')"
  using sort_key_mset_distinct [OF assms] by simp

end
