(* ===== verification/Browser_Broker_Service.thy ===== *)
theory Browser_Broker_Service
  imports Browser_Properties Web_Url Stable_Json "HOL-Library.Word"
begin

text \<open>
  The browser broker service (concurrent-runtime/browser-broker/service.ts): the navigation policy,
  operation fingerprints, and the operations that mint credentials and call the store.

  Three things the service calls are parameters. \<open>sha\<close> is SHA-256 in hexadecimal, an arbitrary
  function. \<open>newURL\<close> is the platform's URL parser, giving the components the service reads or
  \<open>None\<close> when the constructor throws. Random identifiers and tokens are arguments.
\<close>

section \<open>Navigation policy\<close>

fun intBetween :: "int \<Rightarrow> int \<Rightarrow> js_number \<Rightarrow> bool" where
  "intBetween lo hi (IntNum n) \<longleftrightarrow> lo \<le> n \<and> n \<le> hi"
| "intBetween lo hi NonInt \<longleftrightarrow> False"

definition isPrivateIpv4 :: "string \<Rightarrow> bool" where
  "isPrivateIpv4 hostname =
     (let octets = map numberOf (splitOn CHR ''.'' hostname) in
      if length octets \<noteq> 4 \<or> list_ex (\<lambda>p. p = NonInt) octets then False
      else
        let a = octets ! 0; b = octets ! 1 in
        a = IntNum 0 \<or> a = IntNum 10 \<or> a = IntNum 127 \<or>
        (a = IntNum 100 \<and> intBetween 64 127 b) \<or>
        (a = IntNum 169 \<and> b = IntNum 254) \<or>
        (a = IntNum 172 \<and> intBetween 16 31 b) \<or>
        (a = IntNum 192 \<and> (b = IntNum 0 \<or> b = IntNum 168)) \<or>
        (a = IntNum 198 \<and> (b = IntNum 18 \<or> b = IntNum 19)) \<or>
        (case a of IntNum n \<Rightarrow> n \<ge> 224 | NonInt \<Rightarrow> False))"

definition dropTrailingDot :: "string \<Rightarrow> string" where
  "dropTrailingDot s = (if s \<noteq> [] \<and> last s = CHR ''.'' then butlast s else s)"

definition bareHostname :: "string \<Rightarrow> string" where
  "bareHostname h =
     (let rawHostname = dropTrailingDot (toLowerCase h) in
      if startsWith rawHostname ''['' \<and> endsWith rawHostname '']''
      then butlast (tl rawHostname) else rawHostname)"

definition mappedIpv4 :: "string \<Rightarrow> string" where
  "mappedIpv4 hostname = (if startsWith hostname ''::ffff:'' then drop 7 hostname else [])"

definition blockedHostname :: "string \<Rightarrow> bool" where
  "blockedHostname hostname \<longleftrightarrow>
     hostname = ''localhost'' \<or> endsWith hostname ''.localhost'' \<or> endsWith hostname ''.local'' \<or>
     endsWith hostname ''.internal'' \<or> isPrivateIpv4 hostname \<or>
     (length (mappedIpv4 hostname) > 0 \<and> isPrivateIpv4 (mappedIpv4 hostname)) \<or>
     hostname = ''::'' \<or> hostname = ''::1'' \<or> startsWith hostname ''fe80:'' \<or>
     startsWith hostname ''fc'' \<or> startsWith hostname ''fd''"

definition assertBrowserNavigationAllowed :: "urlParser \<Rightarrow> string \<Rightarrow> storeError option" where
  "assertBrowserNavigationAllowed newURL rawUrl =
     (case newURL rawUrl of
        None \<Rightarrow> Some (StoreError ''Browser navigation target is invalid.'' BrowserAccessDenied)
      | Some url \<Rightarrow>
          let hostname = bareHostname (url_hostname url) in
          if url_protocol url \<noteq> ''https:'' \<or> length (url_username url) > 0 \<or> length (url_password url) > 0 \<or>
             hostname = [] \<or> blockedHostname hostname
          then Some (StoreError ''Browser navigation target is blocked by policy.'' BrowserAccessDenied)
          else None)"

definition validateUrl :: "urlParser \<Rightarrow> string set \<Rightarrow> string \<Rightarrow> storeError option" where
  "validateUrl newURL allowedOrigins rawUrl =
     (case assertBrowserNavigationAllowed newURL rawUrl of
        Some e \<Rightarrow> Some e
      | None \<Rightarrow>
          (case newURL rawUrl of
             None \<Rightarrow> Some TypeError
           | Some url \<Rightarrow>
               if url_origin url \<notin> allowedOrigins
               then Some (StoreError ''Browser navigation origin is not in the deployment allowlist.''
                      BrowserAccessDenied)
               else None))"

definition validateOperation :: "urlParser \<Rightarrow> string set \<Rightarrow> browserBrokerOperation \<Rightarrow> storeError option" where
  "validateOperation newURL allowedOrigins operation =
     (case operation of
        Navigate url \<Rightarrow> validateUrl newURL allowedOrigins url
      | OpenSession (Some url) \<Rightarrow> if url \<noteq> [] then validateUrl newURL allowedOrigins url else None
      | _ \<Rightarrow> None)"

definition replayClassForOperation :: "browserBrokerOperation \<Rightarrow> browserBrokerReplayClass" where
  "replayClassForOperation operation =
     (case operation of
        StatusOp \<Rightarrow> Recomputable
      | Snapshot b \<Rightarrow> Recomputable
      | Screenshot f q \<Rightarrow> Recomputable
      | Wait d \<Rightarrow> Recomputable
      | _ \<Rightarrow> NonReplayable)"

section \<open>Fingerprints\<close>

definition hashBrowserConnectionToken :: "hasher \<Rightarrow> string \<Rightarrow> string" where
  "hashBrowserConnectionToken sha v = sha v"

definition directionText :: "scrollDirection \<Rightarrow> string" where
  "directionText d = (case d of Up \<Rightarrow> ''up'' | Down \<Rightarrow> ''down'' | Left \<Rightarrow> ''left'' | Right \<Rightarrow> ''right'')"

definition formatText :: "imageFormat \<Rightarrow> string" where
  "formatText f = (case f of Png \<Rightarrow> ''png'' | Jpeg \<Rightarrow> ''jpeg'')"

fun operationJson :: "browserBrokerOperation \<Rightarrow> json" where
  "operationJson StatusOp = JObj [(''kind'', JStr ''status'')]"
| "operationJson (OpenSession u) = JObj ((''kind'', JStr ''open_session'') #
     (case u of None \<Rightarrow> [] | Some x \<Rightarrow> [(''initialUrl'', JStr x)]))"
| "operationJson (Navigate u) = JObj [(''kind'', JStr ''navigate''), (''url'', JStr u)]"
| "operationJson (Snapshot b) = JObj [(''kind'', JStr ''snapshot''), (''includeScreenshot'', JBool b)]"
| "operationJson (Screenshot f q) = JObj ([(''kind'', JStr ''screenshot''), (''format'', JStr (formatText f))] @
     (case q of None \<Rightarrow> [] | Some n \<Rightarrow> [(''quality'', JNum n)]))"
| "operationJson (Click e i) = JObj [(''elementRef'', JStr e), (''snapshotId'', JStr i), (''kind'', JStr ''click'')]"
| "operationJson (TypeText e i t) = JObj [(''elementRef'', JStr e), (''snapshotId'', JStr i), (''kind'', JStr ''type''),
     (''text'', JStr t), (''replace'', JBool True)]"
| "operationJson (PressKey k ms) = JObj [(''kind'', JStr ''press_key''), (''key'', JStr k),
     (''modifiers'', JArr (map JStr ms))]"
| "operationJson (Scroll d n) = JObj [(''kind'', JStr ''scroll''), (''direction'', JStr (directionText d)), (''amount'', JNum n)]"
| "operationJson (SelectOption e i v) = JObj [(''elementRef'', JStr e), (''snapshotId'', JStr i),
     (''kind'', JStr ''select_option''), (''value'', JStr v)]"
| "operationJson (Wait d) = JObj [(''kind'', JStr ''wait''), (''durationMs'', JNum d)]"
| "operationJson CloseSession = JObj [(''kind'', JStr ''close_session'')]"

definition operationHashOf :: "hasher \<Rightarrow> browserBrokerOperation \<Rightarrow> string" where
  "operationHashOf sha operation = hashBrowserConnectionToken sha (stableJson (operationJson operation))"

section \<open>The service\<close>

record brokerService =
  connectionLeaseMs :: int
  actionDeadlineMs :: int
  allowedOrigins :: "string list"

datatype brokerConfigError = OriginRejected storeError | OriginNotCanonical

fun canonicalOrigins :: "urlParser \<Rightarrow> string list \<Rightarrow> brokerConfigError + string list" where
  "canonicalOrigins newURL [] = Inr []"
| "canonicalOrigins newURL (origin # rest) =
     (case assertBrowserNavigationAllowed newURL origin of
        Some e \<Rightarrow> Inl (OriginRejected e)
      | None \<Rightarrow>
          (case newURL origin of
             None \<Rightarrow> Inl (OriginRejected TypeError)
           | Some parsed \<Rightarrow>
               if url_origin parsed \<noteq> origin \<or> url_pathname parsed \<noteq> ''/'' then Inl OriginNotCanonical
               else (case canonicalOrigins newURL rest of
                       Inl e \<Rightarrow> Inl e
                     | Inr os \<Rightarrow> Inr (url_origin parsed # os))))"

definition newBrowserBrokerService ::
    "urlParser \<Rightarrow> int option \<Rightarrow> int option \<Rightarrow> string list option \<Rightarrow> brokerConfigError + brokerService" where
  "newBrowserBrokerService newURL leaseMs deadlineMs origins =
     (case canonicalOrigins newURL (get_or [] origins) of
        Inl e \<Rightarrow> Inl e
      | Inr os \<Rightarrow> Inr \<lparr>connectionLeaseMs = get_or 45000 leaseMs, actionDeadlineMs = get_or 30000 deadlineMs,
          allowedOrigins = os\<rparr>)"

record brokerConnectRequest =
  creq_clientInstallationId :: string
  creq_capabilities :: "browserBrokerCapability list"
  creq_resume :: "(string \<times> nat \<times> string) option"
    \<comment> \<open>connection id, generation, resume token\<close>

record brokerConnectResponse =
  cres_connectionId :: string
  cres_connectionGeneration :: nat
  cres_resumeToken :: string
  cres_resumed :: bool
  cres_cursor :: int
  cres_leaseExpiresAt :: int

definition brokerConnect ::
    "hasher \<Rightarrow> brokerService \<Rightarrow> tenantExecutionContext \<Rightarrow> brokerConnectRequest \<Rightarrow> int \<Rightarrow> string \<Rightarrow> string \<Rightarrow> store
     \<Rightarrow> brokerConnectResponse outcome" where
  "brokerConnect sha svc ctx request now resumeToken uuid s =
     (case connectBrowserClient ctx
         \<lparr>con_clientInstallationId = creq_clientInstallationId request,
          con_capabilities = creq_capabilities request,
          con_leaseExpiresAt = now + connectionLeaseMs svc,
          con_newConnectionId = uuid,
          con_newResumeTokenHash = hashBrowserConnectionToken sha resumeToken,
          con_resume = map_option (\<lambda>(i, g, t). \<lparr>res_connectionId = i, res_connectionGeneration = g,
            res_resumeTokenHash = hashBrowserConnectionToken sha t\<rparr>) (creq_resume request)\<rparr> now s of
        (Inl e, s') \<Rightarrow> (Inl e, s')
      | (Inr (connection, resumed), s') \<Rightarrow>
          (Inr \<lparr>cres_connectionId = bc_connectionId connection,
             cres_connectionGeneration = bc_connectionGeneration connection,
             cres_resumeToken = resumeToken, cres_resumed = resumed, cres_cursor = bc_cursor connection,
             cres_leaseExpiresAt = bc_leaseExpiresAt connection\<rparr>, s'))"

definition brokerHeartbeat ::
    "hasher \<Rightarrow> brokerService \<Rightarrow> tenantExecutionContext \<Rightarrow> string \<Rightarrow> string \<Rightarrow> nat \<Rightarrow> string \<Rightarrow> int \<Rightarrow> store
     \<Rightarrow> browserConnectionRecord outcome" where
  "brokerHeartbeat sha svc ctx client connectionId generation token now s =
     (case heartbeatBrowserConnection ctx
         \<lparr>cr_clientInstallationId = client, cr_connectionId = connectionId, cr_connectionGeneration = generation,
          cr_connectionTokenHash = hashBrowserConnectionToken sha token\<rparr> (now + connectionLeaseMs svc) now s of
        (None, s') \<Rightarrow> (Inl (StoreError ''Browser connection is stale.'' StaleConnection), s')
      | (Some connection, s') \<Rightarrow> (Inr connection, s'))"

record brokerDispatchInput =
  din_conversationId :: string
  din_runId :: string
  din_toolUseId :: string
  din_operation :: browserBrokerOperation
  din_leaseOwner :: "string option"
  din_providerContent :: "json option"
  din_executionConfig :: "json_object option"

definition dispatchInput ::
    "hasher \<Rightarrow> brokerService \<Rightarrow> brokerDispatchInput \<Rightarrow> int \<Rightarrow> string \<Rightarrow> enqueueBrowserActionInput" where
  "dispatchInput sha svc input now actionId =
     \<lparr>enq_conversationId = din_conversationId input, enq_runId = din_runId input,
      enq_toolUseId = din_toolUseId input, enq_actionId = actionId, enq_operation = din_operation input,
      enq_operationHash = operationHashOf sha (din_operation input),
      enq_replayClass = replayClassForOperation (din_operation input), enq_expectedDocumentEpoch = None,
      enq_deadlineAt = now + actionDeadlineMs svc, enq_leaseOwner = din_leaseOwner input,
      enq_providerContent = din_providerContent input, enq_executionConfig = din_executionConfig input\<rparr>"

definition brokerDispatch ::
    "hasher \<Rightarrow> urlParser \<Rightarrow> brokerService \<Rightarrow> tenantExecutionContext \<Rightarrow> brokerDispatchInput \<Rightarrow> int \<Rightarrow> string \<Rightarrow> string
     \<Rightarrow> store \<Rightarrow> (browserActionRecord \<times> browserOutboxRecord) outcome" where
  "brokerDispatch sha newURL svc ctx input now actionId eventId s =
     (case validateOperation newURL (set (allowedOrigins svc)) (din_operation input) of
        Some e \<Rightarrow> (Inl e, s)
      | None \<Rightarrow> enqueueBrowserAction ctx (dispatchInput sha svc input now actionId) now eventId s)"

definition brokerRecordResult ::
    "hasher \<Rightarrow> tenantExecutionContext \<Rightarrow> browserBrokerResultRequest \<Rightarrow> string \<Rightarrow> int \<Rightarrow> store
     \<Rightarrow> (browserActionAck \<times> string option) outcome" where
  "brokerRecordResult sha ctx result token now s =
     (case recordBrowserResult ctx result (hashBrowserConnectionToken sha token) now s of
        (Inl e, s') \<Rightarrow> (Inl e, s')
      | (Inr ack, s') \<Rightarrow>
          (Inr (ack, if ack_accepted ack \<and> truthy (ack_runId ack) then ack_runId ack else None), s'))"
  \<comment> \<open>the second component is the run handed to \<open>onRunRunnable\<close>, when the callback is configured\<close>

section \<open>Which addresses are private\<close>

text \<open>An IPv4 address as a 32-bit word, its dotted form, and membership in a CIDR block.\<close>

definition ipv4Word :: "nat \<Rightarrow> nat \<Rightarrow> nat \<Rightarrow> nat \<Rightarrow> 32 word" where
  "ipv4Word a b c d = word_of_nat (((a * 256 + b) * 256 + c) * 256 + d)"

definition dotted :: "nat \<Rightarrow> nat \<Rightarrow> nat \<Rightarrow> nat \<Rightarrow> string" where
  "dotted a b c d = decimal a @ CHR ''.'' # decimal b @ CHR ''.'' # decimal c @ CHR ''.'' # decimal d"

definition inCidr :: "32 word \<Rightarrow> nat \<Rightarrow> 32 word \<Rightarrow> bool" where
  "inCidr base len addr \<longleftrightarrow> drop_bit (32 - len) addr = drop_bit (32 - len) base"

definition privateBlocks :: "(32 word \<times> nat) list" where
  "privateBlocks =
     [(ipv4Word 0 0 0 0, 8), (ipv4Word 10 0 0 0, 8), (ipv4Word 127 0 0 0, 8), (ipv4Word 100 64 0 0, 10),
      (ipv4Word 169 254 0 0, 16), (ipv4Word 172 16 0 0, 12), (ipv4Word 192 0 0 0, 16), (ipv4Word 192 168 0 0, 16),
      (ipv4Word 198 18 0 0, 15), (ipv4Word 224 0 0 0, 3)]"

lemma decimal_no_dot: "CHR ''.'' \<notin> set (decimal n)"
  using decimal_value [of n] by (auto simp: list_all_iff isDigit_def)

lemma dotted_octets:
  "map numberOf (splitOn CHR ''.'' (dotted a b c d)) = [IntNum (int a), IntNum (int b), IntNum (int c), IntNum (int d)]"
  by (simp add: dotted_def splitOn_append splitOn_no_sep decimal_no_dot numberOf_decimal)

lemma word_div:
  assumes "x < 2 ^ 32"
  shows "drop_bit k (word_of_nat x :: 32 word) = word_of_nat (x div 2 ^ k)"
proof -
  have "unat (word_of_nat x :: 32 word) = x" using assms by (simp add: unat_of_nat take_bit_nat_eq_self)
  then have "unat (drop_bit k (word_of_nat x :: 32 word)) = x div 2 ^ k"
    unfolding unat_drop_bit_eq by (simp add: drop_bit_eq_div)
  then show ?thesis by (metis of_nat_unat ucast_id)
qed

lemma word_of_nat_eq32: "x < 2 ^ 32 \<Longrightarrow> y < 2 ^ 32 \<Longrightarrow> (word_of_nat x = (word_of_nat y :: 32 word)) \<longleftrightarrow> x = y"
  by (simp add: word_of_nat_eq_iff take_bit_nat_eq_self)

lemma inCidr_nat:
  assumes "x < 2 ^ 32" "y < 2 ^ 32"
  shows "inCidr (word_of_nat y) len (word_of_nat x) \<longleftrightarrow> x div 2 ^ (32 - len) = y div 2 ^ (32 - len)"
proof -
  have "x div 2 ^ (32 - len) < 2 ^ 32" "y div 2 ^ (32 - len) < 2 ^ 32"
    using assms by (meson div_le_dividend le_less_trans)+
  then show ?thesis
    unfolding inCidr_def word_div [OF assms(1)] word_div [OF assms(2)] by (rule word_of_nat_eq32)
qed

lemma inCidr_ipv4:
  assumes "a < 256" "b < 256" "c < 256" "d < 256" "a' < 256" "b' < 256"
  shows "inCidr (ipv4Word a' b' 0 0) len (ipv4Word a b c d) \<longleftrightarrow>
    (((a * 256 + b) * 256 + c) * 256 + d) div 2 ^ (32 - len) = ((a' * 256 + b') * 65536) div 2 ^ (32 - len)"
proof -
  have "((a' * 256 + b') * 256 + 0) * 256 + 0 = (a' * 256 + b') * 65536" by simp
  moreover have "((a * 256 + b) * 256 + c) * 256 + d < 2 ^ 32" "(a' * 256 + b') * 65536 < 2 ^ 32"
    using assms by simp_all
  ultimately show ?thesis unfolding ipv4Word_def by (simp only: inCidr_nat)
qed

lemma radix_eq:
  fixes q :: nat
  assumes "q < m" "q' < m"
  shows "a * m + q = a' * m + q' \<longleftrightarrow> a = a' \<and> q = q'"
proof
  assume eq: "a * m + q = a' * m + q'"
  from assms have "(a * m + q) div m = a" "(a * m + q) mod m = q" "(a' * m + q') div m = a'" "(a' * m + q') mod m = q'"
    by simp_all
  with eq show "a = a' \<and> q = q'" by metis
qed simp

text \<open>
  The private-address test is exact. On the dotted form of any IPv4 address, \<open>isPrivateIpv4\<close>
  answers whether the address, as a 32-bit word, lies in one of the ten reserved CIDR blocks
  0/8, 10/8, 127/8, 100.64/10, 169.254/16, 172.16/12, 192.0/16, 192.168/16, 198.18/15 and 224/3.
\<close>

theorem private_ipv4_exact:
  assumes "a < 256" "b < 256" "c < 256" "d < 256"
  shows "isPrivateIpv4 (dotted a b c d) \<longleftrightarrow>
    list_ex (\<lambda>(base, len). inCidr base len (ipv4Word a b c d)) privateBlocks"
proof -
  have priv: "isPrivateIpv4 (dotted a b c d) \<longleftrightarrow>
      a = 0 \<or> a = 10 \<or> a = 127 \<or> (a = 100 \<and> 64 \<le> b \<and> b \<le> 127) \<or> (a = 169 \<and> b = 254) \<or>
      (a = 172 \<and> 16 \<le> b \<and> b \<le> 31) \<or> (a = 192 \<and> (b = 0 \<or> b = 168)) \<or> (a = 198 \<and> (b = 18 \<or> b = 19)) \<or> 224 \<le> a"
    by (auto simp: isPrivateIpv4_def dotted_octets Let_def)
  let ?x = "((a * 256 + b) * 256 + c) * 256 + d"
  have div: "?x div 2 ^ 24 = a" "?x div 2 ^ 16 = a * 256 + b" "?x div 2 ^ 22 = a * 4 + b div 64"
    "?x div 2 ^ 20 = a * 16 + b div 16" "?x div 2 ^ 17 = a * 128 + b div 2" "?x div 2 ^ 29 = a div 32"
    using assms by simp_all
  let ?w = "ipv4Word a b c d"
  have 8: "inCidr (ipv4Word a' 0 0 0) 8 ?w \<longleftrightarrow> a = a'" if "a' < 256" for a'
    using inCidr_ipv4 [OF assms that, of 0 8] div(1) by simp
  have 16: "inCidr (ipv4Word a' b' 0 0) 16 ?w \<longleftrightarrow> a * 256 + b = 256 * a' + b'" if "a' < 256" "b' < 256" for a' b'
    using inCidr_ipv4 [OF assms that, of 16] div(2) by simp
  have 10: "inCidr (ipv4Word 100 64 0 0) 10 ?w \<longleftrightarrow> a * 4 + b div 64 = 401"
    using inCidr_ipv4 [OF assms, of 100 64 10] div(3) by simp
  have 12: "inCidr (ipv4Word 172 16 0 0) 12 ?w \<longleftrightarrow> a * 16 + b div 16 = 2753"
    using inCidr_ipv4 [OF assms, of 172 16 12] div(4) by simp
  have 15: "inCidr (ipv4Word 198 18 0 0) 15 ?w \<longleftrightarrow> a * 128 + b div 2 = 25353"
    using inCidr_ipv4 [OF assms, of 198 18 15] div(5) by simp
  have 3: "inCidr (ipv4Word 224 0 0 0) 3 ?w \<longleftrightarrow> a div 32 = 7"
    using inCidr_ipv4 [OF assms, of 224 0 3] div(6) by simp
  have small: "b div 64 < 4" "b div 16 < 16" "b div 2 < 128" "a div 32 < 8" using assms(1,2) by simp_all
  have "a * 4 + b div 64 = 401 \<longleftrightarrow> a = 100 \<and> b div 64 = 1" using radix_eq [OF small(1), of 1 a 100] by simp
  moreover have "a * 16 + b div 16 = 2753 \<longleftrightarrow> a = 172 \<and> b div 16 = 1" using radix_eq [OF small(2), of 1 a 172] by simp
  moreover have "a * 128 + b div 2 = 25353 \<longleftrightarrow> a = 198 \<and> b div 2 = 9" using radix_eq [OF small(3), of 9 a 198] by simp
  moreover have "b div 64 = 1 \<longleftrightarrow> 64 \<le> b \<and> b \<le> 127" "b div 16 = 1 \<longleftrightarrow> 16 \<le> b \<and> b \<le> 31"
    "b div 2 = 9 \<longleftrightarrow> b = 18 \<or> b = 19" "a div 32 = 7 \<longleftrightarrow> 224 \<le> a"
    using small(4) by auto
  moreover have "a * 256 + b = 256 * 169 + 254 \<longleftrightarrow> a = 169 \<and> b = 254"
    "a * 256 + b = 256 * 192 + 0 \<longleftrightarrow> a = 192 \<and> b = 0" "a * 256 + b = 256 * 192 + 168 \<longleftrightarrow> a = 192 \<and> b = 168"
    using radix_eq [OF assms(2), of 254 a 169] radix_eq [OF assms(2), of 0 a 192] radix_eq [OF assms(2), of 168 a 192]
    by simp_all
  ultimately have arith: "a * 4 + b div 64 = 401 \<longleftrightarrow> a = 100 \<and> 64 \<le> b \<and> b \<le> 127"
    "a * 16 + b div 16 = 2753 \<longleftrightarrow> a = 172 \<and> 16 \<le> b \<and> b \<le> 31"
    "a * 128 + b div 2 = 25353 \<longleftrightarrow> a = 198 \<and> (b = 18 \<or> b = 19)" "a div 32 = 7 \<longleftrightarrow> 224 \<le> a"
    "a * 256 + b = 256 * 169 + 254 \<longleftrightarrow> a = 169 \<and> b = 254" "a * 256 + b = 256 * 192 + 0 \<longleftrightarrow> a = 192 \<and> b = 0"
    "a * 256 + b = 256 * 192 + 168 \<longleftrightarrow> a = 192 \<and> b = 168"
    by blast+
  have blocks: "list_ex (\<lambda>(base, len). inCidr base len ?w) privateBlocks \<longleftrightarrow>
      inCidr (ipv4Word 0 0 0 0) 8 ?w \<or> inCidr (ipv4Word 10 0 0 0) 8 ?w \<or> inCidr (ipv4Word 127 0 0 0) 8 ?w \<or>
      inCidr (ipv4Word 100 64 0 0) 10 ?w \<or> inCidr (ipv4Word 169 254 0 0) 16 ?w \<or>
      inCidr (ipv4Word 172 16 0 0) 12 ?w \<or> inCidr (ipv4Word 192 0 0 0) 16 ?w \<or>
      inCidr (ipv4Word 192 168 0 0) 16 ?w \<or> inCidr (ipv4Word 198 18 0 0) 15 ?w \<or> inCidr (ipv4Word 224 0 0 0) 3 ?w"
    by (simp add: privateBlocks_def)
  have first: "inCidr (ipv4Word 0 0 0 0) 8 ?w \<longleftrightarrow> a = 0" "inCidr (ipv4Word 10 0 0 0) 8 ?w \<longleftrightarrow> a = 10"
    "inCidr (ipv4Word 127 0 0 0) 8 ?w \<longleftrightarrow> a = 127"
    by (rule 8, simp)+
  have second: "inCidr (ipv4Word 169 254 0 0) 16 ?w \<longleftrightarrow> a = 169 \<and> b = 254"
    "inCidr (ipv4Word 192 0 0 0) 16 ?w \<longleftrightarrow> a = 192 \<and> b = 0" "inCidr (ipv4Word 192 168 0 0) 16 ?w \<longleftrightarrow> a = 192 \<and> b = 168"
    unfolding arith(5-7) [symmetric] by (rule 16; simp)+
  show ?thesis unfolding priv blocks 10 12 15 3 first second arith(1-4) by blast
qed

theorem private_ipv4_exact_witness:
  "(isPrivateIpv4 (dotted 172 31 0 1) \<longleftrightarrow>
     list_ex (\<lambda>(base, len). inCidr base len (ipv4Word 172 31 0 1)) privateBlocks) \<and>
   isPrivateIpv4 (dotted 172 31 0 1) \<and> \<not> isPrivateIpv4 (dotted 172 32 0 1)"
proof (intro conjI)
  show "isPrivateIpv4 (dotted 172 31 0 1) \<longleftrightarrow>
     list_ex (\<lambda>(base, len). inCidr base len (ipv4Word 172 31 0 1)) privateBlocks"
    by (rule private_ipv4_exact) simp_all
qed code_simp+

section \<open>The navigation policy holds for every dispatched action\<close>

lemma validateUrl_None:
  "validateUrl newURL origins u = None \<Longrightarrow>
     \<exists>url. newURL u = Some url \<and> url_protocol url = ''https:'' \<and> url_username url = [] \<and> url_password url = [] \<and>
       bareHostname (url_hostname url) \<noteq> [] \<and> \<not> blockedHostname (bareHostname (url_hostname url)) \<and>
       url_origin url \<in> origins"
  by (auto simp: validateUrl_def assertBrowserNavigationAllowed_def Let_def split: option.splits if_splits)


definition demoURL :: urlParser where
  "demoURL u = (if u = ''https://example.com/x'' then Some \<lparr>url_protocol = ''https:'', url_username = [],
     url_password = [], url_hostname = ''example.com'', url_port = [], url_origin = ''https://example.com'', url_pathname = ''/x''\<rparr>
   else if u = ''https://10.0.0.1/'' then Some \<lparr>url_protocol = ''https:'', url_username = [],
     url_password = [], url_hostname = ''10.0.0.1'', url_port = [], url_origin = ''https://10.0.0.1'', url_pathname = ''/''\<rparr>
   else None)"

definition demoService :: brokerService where
  "demoService = \<lparr>connectionLeaseMs = 45000, actionDeadlineMs = 30000, allowedOrigins = [''https://example.com'']\<rparr>"

definition demoDispatch :: "string \<Rightarrow> brokerDispatchInput" where
  "demoDispatch u = \<lparr>din_conversationId = ''c'', din_runId = ''r1'', din_toolUseId = ''t1'',
     din_operation = OpenSession (Some u), din_leaseOwner = Some ''w1'', din_providerContent = None,
     din_executionConfig = None\<rparr>"


text \<open>
  What the policy does not stop. The URL parser writes an IPv4-mapped address in hexadecimal groups
  (\<open>[::ffff:127.0.0.1]\<close> has the host name \<open>[::ffff:7f00:1]\<close>), which the dotted test does not
  recognise; and ordinary names that begin with fc or fd are taken for unique local addresses.
\<close>

lemma mapped_loopback_not_blocked: "\<not> blockedHostname (bareHostname ''[::ffff:7f00:1]'')"
  by code_simp

lemma ordinary_fc_name_blocked: "blockedHostname (bareHostname ''fcbarcelona.com'')"
  by code_simp

section \<open>Connecting and staying connected\<close>

text \<open>
  A connected client can keep its connection. The credentials that \<open>connect\<close> returns are accepted
  by \<open>heartbeat\<close> until the lease runs out, and the heartbeat extends the lease; a heartbeat that
  comes when the lease has run out is refused as stale and changes nothing.
\<close>

theorem connect_heartbeat_roundtrip:
  assumes "brokerConnect sha svc ctx request now token uuid s = (Inr response, s')"
  shows "case brokerHeartbeat sha svc ctx (creq_clientInstallationId request) (cres_connectionId response)
        (cres_connectionGeneration response) (cres_resumeToken response) t s' of
      (Inr c, s'') \<Rightarrow> t < now + connectionLeaseMs svc \<and> bc_leaseExpiresAt c = t + connectionLeaseMs svc
    | (Inl e, s'') \<Rightarrow> now + connectionLeaseMs svc \<le> t \<and> errorCode e = StaleConnection \<and> s'' = s'"
proof -
  let ?k = "browserClientKey ctx (creq_clientInstallationId request)"
  have "\<exists>key c. map_get (currentBrowserConnections s') ?k = Some key \<and> key \<noteq> [] \<and>
      map_get (browserConnections s') key = Some c \<and> bc_connectionId (sconn c) = cres_connectionId response \<and>
      bc_connectionGeneration (sconn c) = cres_connectionGeneration response \<and> resumeTokenHash c = sha token \<and>
      bc_state (sconn c) = ConnActive \<and> bc_leaseExpiresAt (sconn c) = now + connectionLeaseMs svc \<and>
      cres_resumeToken response = token"
    using assms
    by (auto simp: brokerConnect_def connectBrowserClient_def connectFresh_def resumable_def resumedConnection_def
        hashBrowserConnectionToken_def Let_def simp del: scopedKey_inj split: option.splits if_splits prod.splits sum.splits)
  then obtain key c where c: "currentBrowserConnection ctx (creq_clientInstallationId request) s' = Some c"
    "bc_connectionId (sconn c) = cres_connectionId response"
    "bc_connectionGeneration (sconn c) = cres_connectionGeneration response" "resumeTokenHash c = sha token"
    "bc_state (sconn c) = ConnActive" "bc_leaseExpiresAt (sconn c) = now + connectionLeaseMs svc"
    "cres_resumeToken response = token"
    by (auto simp: currentBrowserConnection_def)
  then show ?thesis
    by (auto simp: brokerHeartbeat_def heartbeatBrowserConnection_def liveCredential_def
        hashBrowserConnectionToken_def Let_def)
qed

definition demoConnectRequest :: brokerConnectRequest where
  "demoConnectRequest = \<lparr>creq_clientInstallationId = ''cl'', creq_capabilities = [Browser_broker_v1], creq_resume = None\<rparr>"

theorem connect_heartbeat_roundtrip_witness:
  "\<exists>response s'. brokerConnect id demoService demoCtx demoConnectRequest 10 ''secret'' ''k1'' emptyStore = (Inr response, s') \<and>
    (case brokerHeartbeat id demoService demoCtx ''cl'' (cres_connectionId response)
        (cres_connectionGeneration response) (cres_resumeToken response) 20 s' of
      (Inr c, s'') \<Rightarrow> 20 < 10 + connectionLeaseMs demoService \<and> bc_leaseExpiresAt c = 20 + connectionLeaseMs demoService
    | (Inl e, s'') \<Rightarrow> 10 + connectionLeaseMs demoService \<le> 20 \<and> errorCode e = StaleConnection \<and> s'' = s')"
proof -
  let ?r = "brokerConnect id demoService demoCtx demoConnectRequest 10 ''secret'' ''k1'' emptyStore"
  have "isl (fst ?r) = False" by code_simp
  then obtain response where "fst ?r = Inr response" by (metis isl_def sum.collapse(2))
  then have r: "?r = (Inr response, snd ?r)" by (metis prod.collapse)
  have cl: "creq_clientInstallationId demoConnectRequest = ''cl''" by (simp add: demoConnectRequest_def)
  from connect_heartbeat_roundtrip [OF r, of 20] r cl show ?thesis by metis
qed

section \<open>Operations are told apart by their fingerprints\<close>

definition operationFields :: "browserBrokerOperation \<Rightarrow> (string \<times> json) list" where
  "operationFields operation = (case operationJson operation of JObj kvs \<Rightarrow> kvs | _ \<Rightarrow> [])"

lemma operationJson_fields: "operationJson operation = JObj (operationFields operation)"
  by (cases operation) (simp_all add: operationFields_def)

text \<open>An operation can be read back from its fields, in whatever order they come.\<close>

fun textOf :: "json \<Rightarrow> string" where
  "textOf (JStr s) = s"
| "textOf v = []"

definition modifiersOf :: "json \<Rightarrow> string list" where
  "modifiersOf v = (case v of JArr xs \<Rightarrow> map textOf xs | _ \<Rightarrow> [])"

definition numOf :: "json \<Rightarrow> int" where
  "numOf v = (case v of JNum n \<Rightarrow> n | _ \<Rightarrow> 0)"

definition directionOf :: "string \<Rightarrow> scrollDirection" where
  "directionOf s = (if s = ''up'' then Up else if s = ''down'' then Down else if s = ''left'' then Left else Right)"

definition operationOf :: "(string \<Rightarrow> json option) \<Rightarrow> browserBrokerOperation" where
  "operationOf m =
     (let kind = textOf (the (m ''kind'')); str = (\<lambda>k. textOf (the (m k))) in
      if kind = ''status'' then StatusOp
      else if kind = ''open_session'' then OpenSession (map_option textOf (m ''initialUrl''))
      else if kind = ''navigate'' then Navigate (str ''url'')
      else if kind = ''snapshot'' then Snapshot (m ''includeScreenshot'' = Some (JBool True))
      else if kind = ''screenshot'' then
        Screenshot (if str ''format'' = ''png'' then Png else Jpeg) (map_option numOf (m ''quality''))
      else if kind = ''click'' then Click (str ''elementRef'') (str ''snapshotId'')
      else if kind = ''type'' then TypeText (str ''elementRef'') (str ''snapshotId'') (str ''text'')
      else if kind = ''press_key'' then PressKey (str ''key'') (modifiersOf (the (m ''modifiers'')))
      else if kind = ''scroll'' then Scroll (directionOf (str ''direction'')) (numOf (the (m ''amount'')))
      else if kind = ''select_option'' then SelectOption (str ''elementRef'') (str ''snapshotId'') (str ''value'')
      else if kind = ''wait'' then Wait (numOf (the (m ''durationMs'')))
      else CloseSession)"

lemma operation_readback: "operationOf (map_of (operationFields operation)) = operation"
  by (cases operation)
    (auto simp: operationOf_def operationFields_def modifiersOf_def numOf_def directionOf_def formatText_def
      directionText_def Let_def comp_def split: option.split imageFormat.split scrollDirection.split)

lemma operationFields_distinct: "distinct (map fst (operationFields operation))"
  by (cases operation) (auto simp: operationFields_def split: option.split)

lemma operationFields_plain: "(k, v) \<in> set (operationFields operation) \<Longrightarrow> canonicalJson v = v"
  by (cases operation) (auto simp: operationFields_def comp_def split: option.splits)

lemma canonical_operation:
  "canonicalJson (operationJson operation) = JObj (sort_key fst (operationFields operation))"
proof -
  have "map (\<lambda>kv. (fst kv, canonicalJson (snd kv))) (sort_key fst (operationFields operation)) =
      sort_key fst (operationFields operation)"
    using operationFields_plain [of _ _ operation] by (intro map_idI) (auto simp: prod_eq_iff)
  then show ?thesis by (simp add: operationJson_fields)
qed

lemma stableJson_operation_inj:
  "stableJson (operationJson a) = stableJson (operationJson b) \<longleftrightarrow> a = b"
proof
  assume "stableJson (operationJson a) = stableJson (operationJson b)"
  then have "JObj (sort_key fst (operationFields a)) = JObj (sort_key fst (operationFields b))"
    by (simp only: stableJson_canonical json_text_inj canonical_operation)
  then have "sort_key fst (operationFields a) = sort_key fst (operationFields b)" by simp
  then have "set (operationFields a) = set (operationFields b)" by (metis set_sort)
  then have "map_of (operationFields a) = map_of (operationFields b)"
    by (simp add: map_of_inject_set operationFields_distinct)
  then show "a = b" by (metis operation_readback)
qed simp

text \<open>
  a tool use names one operation. After the broker enqueued an action for a tool use, dispatching
  the same tool use again (by a caller without a lease) returns the same action and the same outbox
  record and changes nothing, if the operation is the same; with any other operation the call is
  refused as a conflict. The hash function is assumed to have no collision between the renderings
  of the two operations.
\<close>

theorem tool_use_names_one_operation:
  assumes "enqueueNew ctx (dispatchInput sha svc input now actionId) None now eventId s = (Inr (a, ob), s')"
    "assertContext ctx = None" "actionId \<noteq> []" "din_leaseOwner input = None"
    "isConversationOwnedBy ctx (tenantConversationScopeKey ctx (din_conversationId input)) s"
    "\<forall>r \<in> set (actorOutbox ctx s). ob_actionId r \<noteq> actionId"
    "validateOperation newURL (set (allowedOrigins svc)) operation = None"
    "sha (stableJson (operationJson operation)) = sha (stableJson (operationJson (din_operation input))) \<Longrightarrow>
      stableJson (operationJson operation) = stableJson (operationJson (din_operation input))"
  shows "brokerDispatch sha newURL svc ctx (input\<lparr>din_operation := operation\<rparr>) t i e s' =
    (if operation = din_operation input then Inr (a, ob)
     else Inl (StoreError ''Browser tool use conflicts with a persisted action.'' ActionConflict), s')"
proof -
  let ?in = "dispatchInput sha svc input now actionId"
  obtain grant conn where ok: "enqueueAllowed ctx ?in now s grant conn"
    using enqueueNew_denied [of ctx ?in now s None eventId] assms(1) by fastforce
  have a: "a = enqueuedAction ctx ?in s grant conn" "ob = newOutbox ctx a (nextBrowserOutboxSequence s) eventId"
    and s': "s' = storeAction ctx ?in a ob s"
    using assms(1) unfolding enqueueNew_allowed [OF ok] by (auto simp: Let_def)
  have ids: "act_actionId a = actionId" "ob_actionId ob = actionId"
    "act_operationHash a = operationHashOf sha (din_operation input)"
    by (simp_all add: a dispatchInput_def newOutbox_def enqueuedAction_def newAction_def)
  have "find (\<lambda>r. ob_actionId r = actionId) (actorOutbox ctx s') = Some ob"
  proof -
    have "actorOutbox ctx s' = actorOutbox ctx s @ [ob]" by (simp add: s' actorOutbox_def storeAction_def)
    moreover have "find (\<lambda>r. ob_actionId r = actionId) (actorOutbox ctx s) = None"
      using assms(6) by (simp add: find_None_iff)
    ultimately show ?thesis using ids(2) by (simp add: find_last)
  qed
  moreover have "map_get (browserActions s') (browserActionKey ctx actionId) = Some a"
    "map_get (browserToolActions s') (browserToolActionKey ctx (din_runId input) (din_toolUseId input)) = Some actionId"
    "isConversationOwnedBy ctx (tenantConversationScopeKey ctx (din_conversationId input)) s'"
    using ids(1) assms(5) by (simp_all add: s' storeAction_def dispatchInput_def isConversationOwnedBy_def)
  moreover have "operationHashOf sha operation = operationHashOf sha (din_operation input) \<longleftrightarrow> operation = din_operation input"
    using assms(8) by (auto simp: operationHashOf_def hashBrowserConnectionToken_def stableJson_operation_inj)
  ultimately show ?thesis
    using assms(2,3,4,7) ids
    by (auto simp: brokerDispatch_def enqueueBrowserAction_def dispatchInput_def scopedRun_def
        assertConversationOwner_def replayAction_def Let_def)
qed

theorem tool_use_names_one_operation_witness:
  "\<exists>a ob s'. enqueueNew demoCtx (dispatchInput id demoService ((demoDispatch ''https://example.com/x'')\<lparr>din_leaseOwner := None\<rparr>) 5 ''a1'')
       None 5 ''e'' demoGranted = (Inr (a, ob), s') \<and>
     brokerDispatch id demoURL demoService demoCtx
       ((demoDispatch ''https://example.com/x'')\<lparr>din_leaseOwner := None, din_operation := StatusOp\<rparr>) 6 ''a2'' ''e2'' s' =
     (Inl (StoreError ''Browser tool use conflicts with a persisted action.'' ActionConflict), s')"
proof -
  let ?in = "(demoDispatch ''https://example.com/x'')\<lparr>din_leaseOwner := None\<rparr>"
  let ?r = "enqueueNew demoCtx (dispatchInput id demoService ?in 5 ''a1'') None 5 ''e'' demoGranted"
  have "isl (fst ?r) = False" by code_simp
  then obtain a ob where "fst ?r = Inr (a, ob)" by (metis isl_def old.prod.exhaust sum.collapse(2))
  then have r: "?r = (Inr (a, ob), snd ?r)" by (metis prod.collapse)
  have ctx: "assertContext demoCtx = None"
    and owned: "isConversationOwnedBy demoCtx (tenantConversationScopeKey demoCtx (din_conversationId ?in)) demoGranted"
    and free: "\<forall>x \<in> set (actorOutbox demoCtx demoGranted). ob_actionId x \<noteq> ''a1''"
    and valid: "validateOperation demoURL (set (allowedOrigins demoService)) StatusOp = None"
    by code_simp+
  have "StatusOp \<noteq> din_operation ?in" by (simp add: demoDispatch_def)
  with tool_use_names_one_operation [OF r ctx _ _ owned free valid, of 6 "''a2''" "''e2''"] r
  show ?thesis by (intro exI [of _ a] exI [of _ ob] exI [of _ "snd ?r"]) simp
qed

end
