(* ===== verification/Runtime_Service.thy ===== *)
theory Runtime_Service
  imports Fair_Scheduler Browser_Broker_Service
begin

text \<open>
  The concurrent runtime service (assistant/src/concurrent-runtime/service.ts): it accepts
  messages, schedules the runs they create on the fair scheduler, executes one turn per run under
  a conversation lock, and cleans up after it.

  The methods are async. A model state lists what is suspended: a \<open>turn\<close> is one call of the task
  closure that \<open>schedule\<close> enqueues (the lock, \<open>processRun\<close>, the clean-up), a \<open>request\<close> is one call
  of a public method. Each waits at an \<open>await\<close>, with the value the awaited promise settled to; a
  step resumes one of them and runs it to its next \<open>await\<close>. The store's methods run synchronously
  to their end when they are called, so their effect belongs to the step that calls them. What the
  environment decides is an argument of the step: the clock, the identifiers \<open>randomUUID\<close> returns,
  the answer of the turn executor and of a provider-config resolver, and which suspended call is
  resumed next. The executor awaits each \<open>onTextDelta\<close> call before it calls the next or returns, as
  \<open>ConfiguredProviderTurnExecutor\<close> does. A provider config is an object that the service mutates
  when it forgets it, so configs live in a heap and the map holds references.
\<close>

section \<open>State\<close>

record providerRequestConfig =
  pc_provider :: string
  pc_model :: string
  pc_displayName :: string
  pc_key :: string

text \<open>What a promise rejects with: an \<open>Error\<close>, or some other value.\<close>

datatype thrown = ErrorThrown string | OtherThrown

definition thrownOf :: "string \<Rightarrow> storeError \<Rightarrow> thrown" where
  "thrownOf engineText e = (case e of StoreError m code \<Rightarrow> ErrorThrown m | TypeError \<Rightarrow> ErrorThrown engineText)"

datatype turnExecution =
    TextExecution string
  | CompleteExecution string
  | BrowserActionExecution string browserBrokerOperation json json_object

record executorInput =
  ex_context :: tenantExecutionContext
  ex_messages :: "concurrentMessage list"
  ex_steps :: "concurrentRunStep list"
  ex_providerConfig :: "nat option"
  ex_onboardingContext :: "json option"
  ex_browserEnabled :: bool

datatype awaiting =
    LockWait
  | ClaimWait "storeError + claimedConcurrentRun option"
  | TurnStartWait "storeError option"
  | ThinkingWait "storeError option"
  | GrantWait "storeError + browserAccessGrantRecord option"
  | Executing executorInput
  | FirstDeltaWait executorInput string "storeError option"
  | DeltaWait executorInput "storeError option"
  | DispatchWait "storeError + browserActionRecord \<times> browserOutboxRecord"
  | ParkedWait "storeError option"
  | CompleteWait "storeError + concurrentMessage"
  | CompleteEventWait "storeError option"
  | IdleEventWait "storeError option"
  | CurrentRunWait thrown "storeError + concurrentRun option"
  | FailWait thrown "storeError + bool"
  | ErrorEventWait "storeError option"
  | NextRunWait "storeError + concurrentRun option"
  | Returned
  | Released
  | Unscheduled

record turn =
  turn_id :: nat
  turn_context :: tenantExecutionContext
  turn_runId :: string
  turn_previous :: "nat option"
  turn_await :: awaiting
  turn_leaseOwner :: string
  turn_claimed :: "claimedConcurrentRun option"
  turn_assistantMessageId :: string
  turn_activityVersion :: nat
  turn_renewFailed :: bool
  turn_parkedForBrowser :: bool
  turn_terminal :: bool
  turn_receivedTextDelta :: bool
  turn_timer :: bool
  turn_renewals :: "(storeError + bool) list"

record scheduledTurn =
  st_id :: nat
  st_context :: tenantExecutionContext
  st_runId :: string

datatype configArgument = NoConfig | GivenConfig providerRequestConfig | ConfigResolver

datatype request =
    SubmitAwait tenantExecutionContext configArgument "storeError + acceptedConcurrentRun"
  | SubmitResolve tenantExecutionContext acceptedConcurrentRun "nat option"
  | SubmitSettled "thrown + acceptedConcurrentRun"
  | CancelRunAwait string "storeError + bool"
  | CancelConversationAwait tenantExecutionContext "storeError + concurrentRun list"
  | CancelSettled "thrown + bool"
  | ResumeAwait tenantExecutionContext string bool "storeError + concurrentRun option"
  | ResumeResolve tenantExecutionContext string "nat option"
  | ResumeSettled "thrown option"

text \<open>
  A resolution is a call of a resolver shared by the requests that wait for the same run's config:
  pending, settled with the \<open>finally\<close> callback still to run, or settled for its waiters.
\<close>

datatype resolution = Pending | Finalizing "thrown option" | Resolved "thrown option"

record service =
  svc_leaseDurationMs :: int
  svc_leaseRenewIntervalMs :: int
  svc_workerId :: string
  svc_broker :: "brokerService option"
  svc_store :: store
  svc_scheduler :: "scheduledTurn fairScheduler"
  svc_abortControllers :: "(string, nat) js_Map"
  svc_aborted :: "nat list"
  svc_providerConfigs :: "(string, nat) js_Map"
  svc_configHeap :: "(nat, providerRequestConfig) js_Map"
  svc_configResolutions :: "(string, nat) js_Map"
  svc_resolutions :: "(nat, string \<times> resolution) js_Map"
  svc_scheduledRuns :: "string list"
  svc_conversationTails :: "(string, nat) js_Map"
  svc_turns :: "(nat, turn) js_Map"
  svc_requests :: "(nat, request) js_Map"
  svc_nextId :: nat

record serviceOptions =
  opt_maxConcurrentTurns :: js_number
  opt_maxConcurrentTurnsPerTenant :: js_number
  opt_leaseDurationMs :: js_number
  opt_leaseRenewIntervalMs :: "int option"
  opt_workerId :: "string option"
  opt_broker :: "brokerService option"

definition newConcurrentRuntimeService :: "serviceOptions \<Rightarrow> string \<Rightarrow> store \<Rightarrow> string + service" where
  "newConcurrentRuntimeService options uuid s =
     (case opt_leaseDurationMs options of
        NonInt \<Rightarrow> Inl ''Concurrent runtime lease duration must be at least 1s.''
      | IntNum d \<Rightarrow>
          if d < 1000 then Inl ''Concurrent runtime lease duration must be at least 1s.''
          else
            (case newFairScheduler (opt_maxConcurrentTurns options) (opt_maxConcurrentTurnsPerTenant options) of
               Inl e \<Rightarrow> Inl e
             | Inr scheduler \<Rightarrow> Inr
                 \<lparr>svc_leaseDurationMs = d,
                  svc_leaseRenewIntervalMs = get_or (max 1000 (d div 3)) (opt_leaseRenewIntervalMs options),
                  svc_workerId = get_or uuid (opt_workerId options), svc_broker = opt_broker options,
                  svc_store = s, svc_scheduler = scheduler, svc_abortControllers = [], svc_aborted = [],
                  svc_providerConfigs = [], svc_configHeap = [], svc_configResolutions = [],
                  svc_resolutions = [], svc_scheduledRuns = [], svc_conversationTails = [],
                  svc_turns = [], svc_requests = [], svc_nextId = 0\<rparr>))"

section \<open>Keys and provider configs\<close>

definition conversationOf :: "tenantExecutionContext \<Rightarrow> string" where
  "conversationOf ctx = get_or ''unassigned'' (conversationId ctx)"

definition runScopeKey :: "tenantExecutionContext \<Rightarrow> string \<Rightarrow> string" where
  "runScopeKey ctx runId = json_stringify [tenantConversationScopeKey ctx (conversationOf ctx), runId]"

definition lockKey :: "tenantExecutionContext \<Rightarrow> string" where
  "lockKey ctx = tenantConversationScopeKey ctx (conversationOf ctx)"

definition storeConfig :: "string \<Rightarrow> providerRequestConfig \<Rightarrow> service \<Rightarrow> service" where
  "storeConfig key config svc =
     svc\<lparr>svc_providerConfigs := map_set key (svc_nextId svc) (svc_providerConfigs svc),
         svc_configHeap := map_set (svc_nextId svc) config (svc_configHeap svc),
         svc_nextId := Suc (svc_nextId svc)\<rparr>"

definition clearProviderConfig :: "string \<Rightarrow> service \<Rightarrow> service" where
  "clearProviderConfig key svc =
     (let svc1 = (case map_get (svc_providerConfigs svc) key of
            None \<Rightarrow> svc
          | Some address \<Rightarrow>
              (case map_get (svc_configHeap svc) address of
                 None \<Rightarrow> svc
               | Some config \<Rightarrow> svc\<lparr>svc_configHeap :=
                   map_set address (config\<lparr>pc_key := []\<rparr>) (svc_configHeap svc)\<rparr>))
      in svc1\<lparr>svc_providerConfigs := map_delete key (svc_providerConfigs svc)\<rparr>)"

definition forgetProviderConfig :: "string \<Rightarrow> service \<Rightarrow> service" where
  "forgetProviderConfig key svc = svc\<lparr>svc_providerConfigs := map_delete key (svc_providerConfigs svc)\<rparr>"

text \<open>The promise to wait for: none when the config is cached, else the shared resolution.\<close>

definition resolveProviderConfig :: "string \<Rightarrow> service \<Rightarrow> nat option \<times> service" where
  "resolveProviderConfig key svc =
     (case map_get (svc_providerConfigs svc) key of
        Some address \<Rightarrow> (None, svc)
      | None \<Rightarrow>
          (case map_get (svc_configResolutions svc) key of
             Some p \<Rightarrow> (Some p, svc)
           | None \<Rightarrow>
               (Some (svc_nextId svc),
                svc\<lparr>svc_configResolutions := map_set key (svc_nextId svc) (svc_configResolutions svc),
                    svc_resolutions := map_set (svc_nextId svc) (key, Pending) (svc_resolutions svc),
                    svc_nextId := Suc (svc_nextId svc)\<rparr>)))"

definition resolverSettles :: "nat \<Rightarrow> thrown + providerRequestConfig \<Rightarrow> service \<Rightarrow> service" where
  "resolverSettles p answer svc =
     (case map_get (svc_resolutions svc) p of
        Some (key, Pending) \<Rightarrow>
          (case answer of
             Inr config \<Rightarrow> storeConfig key config
               (svc\<lparr>svc_resolutions := map_set p (key, Finalizing None) (svc_resolutions svc)\<rparr>)
           | Inl e \<Rightarrow> svc\<lparr>svc_resolutions := map_set p (key, Finalizing (Some e)) (svc_resolutions svc)\<rparr>)
      | _ \<Rightarrow> svc)"

definition resolutionFinally :: "nat \<Rightarrow> service \<Rightarrow> service" where
  "resolutionFinally p svc =
     (case map_get (svc_resolutions svc) p of
        Some (key, Finalizing e) \<Rightarrow>
          svc\<lparr>svc_configResolutions := map_delete key (svc_configResolutions svc),
              svc_resolutions := map_set p (key, Resolved e) (svc_resolutions svc)\<rparr>
      | _ \<Rightarrow> svc)"

section \<open>Scheduling\<close>

definition abortTurn :: "nat \<Rightarrow> service \<Rightarrow> service" where
  "abortTurn i svc = svc\<lparr>svc_aborted := List.insert i (svc_aborted svc)\<rparr>"

definition abortKey :: "string \<Rightarrow> service \<Rightarrow> service" where
  "abortKey key svc =
     (case map_get (svc_abortControllers svc) key of None \<Rightarrow> svc | Some i \<Rightarrow> abortTurn i svc)"

definition freshTurn :: "scheduledTurn \<Rightarrow> nat option \<Rightarrow> turn" where
  "freshTurn task previous =
     \<lparr>turn_id = st_id task, turn_context = st_context task, turn_runId = st_runId task,
      turn_previous = previous, turn_await = LockWait, turn_leaseOwner = [], turn_claimed = None,
      turn_assistantMessageId = [], turn_activityVersion = 0, turn_renewFailed = False,
      turn_parkedForBrowser = False, turn_terminal = False, turn_receivedTextDelta = False,
      turn_timer = False, turn_renewals = []\<rparr>"

text \<open>The synchronous part of the task closure: it queues for the conversation lock.\<close>

definition beginTurn :: "scheduledTurn scheduledTask \<Rightarrow> service \<Rightarrow> service" where
  "beginTurn task svc =
     (let t = execute task; key = lockKey (st_context t) in
      svc\<lparr>svc_turns := map_set (st_id t) (freshTurn t (map_get (svc_conversationTails svc) key)) (svc_turns svc),
          svc_conversationTails := map_set key (st_id t) (svc_conversationTails svc)\<rparr>)"

text \<open>The tasks a scheduler operation started begin in the order they were started.\<close>

definition launch :: "scheduledTurn fairScheduler \<Rightarrow> service \<Rightarrow> service" where
  "launch scheduler svc =
     fold beginTurn (drop (length (started (svc_scheduler svc))) (started scheduler))
       (svc\<lparr>svc_scheduler := scheduler\<rparr>)"

definition schedule :: "tenantExecutionContext \<Rightarrow> string \<Rightarrow> service \<Rightarrow> service" where
  "schedule ctx runId svc =
     (let key = runScopeKey ctx runId in
      if key \<in> set (svc_scheduledRuns svc) then svc
      else
        let svc1 = svc\<lparr>svc_scheduledRuns := svc_scheduledRuns svc @ [key], svc_nextId := Suc (svc_nextId svc)\<rparr>;
            task = \<lparr>st_id = svc_nextId svc, st_context = ctx, st_runId = runId\<rparr>
        in case enqueue (tenantExecutionScopeKey ctx) task (svc_scheduler svc1) of
             Inl e \<Rightarrow> svc1
           | Inr scheduler \<Rightarrow> launch scheduler svc1)"

section \<open>Processing a run\<close>

record stepInput =
  si_now :: int
  si_uuid :: string
  si_eventId :: string
  si_engineText :: string
    \<comment> \<open>the message of a \<open>TypeError\<close> of the engine's own\<close>

type_synonym segment = "turn \<times> service"

definition executionContext :: "turn \<Rightarrow> tenantExecutionContext" where
  "executionContext t = claimed_context (the (turn_claimed t))"

definition turnConversation :: "turn \<Rightarrow> string" where
  "turnConversation t = run_conversationId (claimed_run (the (turn_claimed t)))"

definition turnRequest :: "turn \<Rightarrow> string" where
  "turnRequest t = run_requestId (claimed_run (the (turn_claimed t)))"

definition turnKey :: "turn \<Rightarrow> string" where
  "turnKey t = runScopeKey (executionContext t) (turn_runId t)"

subsection \<open>The events a turn reports\<close>

definition turnStartEvent :: "turn \<Rightarrow> json_object" where
  "turnStartEvent t =
     [(''type'', JStr ''assistant_turn_start''), (''messageId'', JStr (turn_assistantMessageId t)),
      (''conversationId'', JStr (turnConversation t))]"

definition activityEvent :: "turn \<Rightarrow> string \<Rightarrow> string \<Rightarrow> json_object" where
  "activityEvent t phase reason =
     [(''type'', JStr ''assistant_activity_state''), (''conversationId'', JStr (turnConversation t)),
      (''activityVersion'', JNum (int (turn_activityVersion t))), (''phase'', JStr phase),
      (''anchor'', JStr ''assistant_turn''), (''reason'', JStr reason), (''requestId'', JStr (turnRequest t))]"

definition textDeltaEvent :: "turn \<Rightarrow> string \<Rightarrow> json_object" where
  "textDeltaEvent t text =
     [(''type'', JStr ''assistant_text_delta''), (''text'', JStr text),
      (''messageId'', JStr (turn_assistantMessageId t)), (''conversationId'', JStr (turnConversation t))]"

definition messageCompleteEvent :: "turn \<Rightarrow> json_object" where
  "messageCompleteEvent t =
     [(''type'', JStr ''message_complete''), (''messageId'', JStr (turn_assistantMessageId t)),
      (''conversationId'', JStr (turnConversation t)), (''source'', JStr ''main'')]"

definition failureCode :: "turn \<Rightarrow> string" where
  "failureCode t = (if turn_renewFailed t then ''lease_lost'' else ''turn_failed'')"

definition errorMessageOf :: "thrown \<Rightarrow> string" where
  "errorMessageOf e = (case e of ErrorThrown m \<Rightarrow> m | OtherThrown \<Rightarrow> ''Assistant turn failed.'')"

definition errorEvent :: "turn \<Rightarrow> thrown \<Rightarrow> json_object" where
  "errorEvent t e =
     [(''type'', JStr ''error''), (''message'', JStr (errorMessageOf e)), (''code'', JStr (failureCode t)),
      (''requestId'', JStr (turnRequest t)), (''conversationId'', JStr (turnConversation t))]"

definition appendTurnEvent :: "turn \<Rightarrow> json_object \<Rightarrow> stepInput \<Rightarrow> service \<Rightarrow> storeError option \<times> service" where
  "appendTurnEvent t message inp svc =
     (case appendEvent (executionContext t) (turnConversation t) message (si_now inp) (si_eventId inp)
             (svc_store svc) of
        (Inl e, s) \<Rightarrow> (Some e, svc\<lparr>svc_store := s\<rparr>)
      | (Inr event, s) \<Rightarrow> (None, svc\<lparr>svc_store := s\<rparr>))"

definition report :: "(storeError option \<Rightarrow> awaiting) \<Rightarrow> json_object \<Rightarrow> stepInput \<Rightarrow> turn \<Rightarrow> service \<Rightarrow> segment" where
  "report state message inp t svc =
     (case appendTurnEvent t message inp svc of (e, svc') \<Rightarrow> (t\<lparr>turn_await := state e\<rparr>, svc'))"

definition reportActivity ::
    "(storeError option \<Rightarrow> awaiting) \<Rightarrow> string \<Rightarrow> string \<Rightarrow> json_object \<Rightarrow> stepInput \<Rightarrow> turn \<Rightarrow> service \<Rightarrow> segment" where
  "reportActivity state phase reason extra inp t svc =
     (let t' = t\<lparr>turn_activityVersion := turn_activityVersion t + 1\<rparr>
      in report state (activityEvent t' phase reason @ extra) inp t' svc)"

subsection \<open>The catch and finally blocks\<close>

definition enterFinally :: "turn \<Rightarrow> service \<Rightarrow> segment" where
  "enterFinally t svc =
     (let svc1 = svc\<lparr>svc_abortControllers := map_delete (turnKey t) (svc_abortControllers svc)\<rparr>;
          svc2 = clearProviderConfig (turnKey t) svc1;
          t1 = t\<lparr>turn_timer := False\<rparr>
      in if turn_terminal t
         then (t1\<lparr>turn_await := NextRunWait (getNextQueuedRun (executionContext t) (turnConversation t) (svc_store svc2))\<rparr>, svc2)
         else (t1\<lparr>turn_await := Returned\<rparr>, svc2))"

definition enterCatch :: "thrown \<Rightarrow> turn \<Rightarrow> service \<Rightarrow> segment" where
  "enterCatch e t svc =
     (t\<lparr>turn_await := CurrentRunWait e (getRun (executionContext t) (turn_runId t) (svc_store svc))\<rparr>, svc)"

definition afterCurrentRun ::
    "thrown \<Rightarrow> storeError + concurrentRun option \<Rightarrow> stepInput \<Rightarrow> turn \<Rightarrow> service \<Rightarrow> segment" where
  "afterCurrentRun e current inp t svc =
     (case current of
        Inl e' \<Rightarrow> enterFinally t svc
      | Inr run \<Rightarrow>
          if map_option run_status run \<noteq> Some Cancelled \<and> map_option run_status run \<noteq> Some WaitingForBrowser
          then
            (case failRun (executionContext t) (turn_runId t)
                \<lparr>fin_errorCode = failureCode t, fin_errorMessage = errorMessageOf e,
                 fin_leaseOwner = turn_leaseOwner t\<rparr> (si_now inp) (svc_store svc) of
               (r, s) \<Rightarrow> (t\<lparr>turn_await := FailWait e r\<rparr>, svc\<lparr>svc_store := s\<rparr>))
          else enterFinally t svc)"

definition afterFail :: "thrown \<Rightarrow> storeError + bool \<Rightarrow> stepInput \<Rightarrow> turn \<Rightarrow> service \<Rightarrow> segment" where
  "afterFail e failed inp t svc =
     (case failed of
        Inl e' \<Rightarrow> enterFinally t svc
      | Inr b \<Rightarrow> report ErrorEventWait (errorEvent t e) inp (t\<lparr>turn_terminal := b\<rparr>) svc)"

text \<open>Resuming after a reported event: a failure is thrown at the \<open>await\<close>.\<close>

definition orCatch :: "storeError option \<Rightarrow> stepInput \<Rightarrow> turn \<Rightarrow> service \<Rightarrow> segment \<Rightarrow> segment" where
  "orCatch failure inp t svc continue =
     (case failure of Some e \<Rightarrow> enterCatch (thrownOf (si_engineText inp) e) t svc | None \<Rightarrow> continue)"

subsection \<open>The try block\<close>

definition claimTurn :: "stepInput \<Rightarrow> turn \<Rightarrow> service \<Rightarrow> segment" where
  "claimTurn inp t svc =
     (let leaseOwner = svc_workerId svc @ '':'' @ si_uuid inp in
      case claimRun (turn_context t) (turn_runId t) leaseOwner (si_now inp + svc_leaseDurationMs svc)
             (si_now inp) (svc_store svc) of
        (r, s) \<Rightarrow> (t\<lparr>turn_leaseOwner := leaseOwner, turn_await := ClaimWait r\<rparr>, svc\<lparr>svc_store := s\<rparr>))"

definition afterClaim ::
    "storeError + claimedConcurrentRun option \<Rightarrow> stepInput \<Rightarrow> turn \<Rightarrow> service \<Rightarrow> segment" where
  "afterClaim r inp t svc =
     (case r of
        Inl e \<Rightarrow> (t\<lparr>turn_await := Returned\<rparr>, svc)
      | Inr None \<Rightarrow>
          (t\<lparr>turn_await := Returned\<rparr>, clearProviderConfig (runScopeKey (turn_context t) (turn_runId t)) svc)
      | Inr (Some c) \<Rightarrow>
          let t1 = t\<lparr>turn_claimed := Some c, turn_assistantMessageId := si_uuid inp, turn_activityVersion := 1,
                turn_timer := True\<rparr>;
              svc1 = svc\<lparr>svc_abortControllers := map_set (turnKey t1) (turn_id t1) (svc_abortControllers svc)\<rparr>
          in report TurnStartWait (turnStartEvent t1) inp t1 svc1)"

definition afterTurnStart :: "storeError option \<Rightarrow> stepInput \<Rightarrow> turn \<Rightarrow> service \<Rightarrow> segment" where
  "afterTurnStart failure inp t svc =
     orCatch failure inp t svc
       (report ThinkingWait (activityEvent t ''thinking'' ''message_dequeued'') inp t svc)"

definition callExecutor :: "browserAccessGrantRecord option \<Rightarrow> turn \<Rightarrow> service \<Rightarrow> segment" where
  "callExecutor grant t svc =
     (let c = the (turn_claimed t) in
      (t\<lparr>turn_await := Executing
          \<lparr>ex_context = claimed_context c, ex_messages = claimed_messages c, ex_steps = claimed_steps c,
           ex_providerConfig = map_get (svc_providerConfigs svc) (turnKey t),
           ex_onboardingContext =
             (if run_turnSequence (claimed_run c) = 0 then claimed_onboardingContext c else None),
           ex_browserEnabled = (case grant of None \<Rightarrow> False | Some g \<Rightarrow> gr_enabled g)\<rparr>\<rparr>, svc))"

definition afterThinking :: "storeError option \<Rightarrow> stepInput \<Rightarrow> turn \<Rightarrow> service \<Rightarrow> segment" where
  "afterThinking failure inp t svc =
     orCatch failure inp t svc
       (case svc_broker svc of
          None \<Rightarrow> callExecutor None t svc
        | Some broker \<Rightarrow>
            (t\<lparr>turn_await := GrantWait (getBrowserAccessGrant (executionContext t) (turnConversation t) (svc_store svc))\<rparr>, svc))"

definition afterGrant ::
    "storeError + browserAccessGrantRecord option \<Rightarrow> stepInput \<Rightarrow> turn \<Rightarrow> service \<Rightarrow> segment" where
  "afterGrant r inp t svc =
     (case r of
        Inl e \<Rightarrow> enterCatch (thrownOf (si_engineText inp) e) t svc
      | Inr grant \<Rightarrow> callExecutor grant t svc)"

definition onTextDelta :: "executorInput \<Rightarrow> string \<Rightarrow> stepInput \<Rightarrow> turn \<Rightarrow> service \<Rightarrow> segment" where
  "onTextDelta call text inp t svc =
     (if \<not> turn_receivedTextDelta t
      then reportActivity (FirstDeltaWait call text) ''streaming'' ''first_text_delta'' [] inp
             (t\<lparr>turn_receivedTextDelta := True\<rparr>) svc
      else report (DeltaWait call) (textDeltaEvent t text) inp t svc)"

text \<open>A callback that rejects rejects to the executor, which may throw or go on.\<close>

definition afterFirstDelta ::
    "executorInput \<Rightarrow> string \<Rightarrow> storeError option \<Rightarrow> stepInput \<Rightarrow> turn \<Rightarrow> service \<Rightarrow> segment" where
  "afterFirstDelta call text failure inp t svc =
     (case failure of
        Some e \<Rightarrow> (t\<lparr>turn_await := Executing call\<rparr>, svc)
      | None \<Rightarrow> report (DeltaWait call) (textDeltaEvent t text) inp t svc)"

fun normalizedExecution :: "turnExecution \<Rightarrow> turnExecution" where
  "normalizedExecution (TextExecution content) = CompleteExecution content"
| "normalizedExecution execution = execution"

definition browserStepCount :: "turn \<Rightarrow> nat" where
  "browserStepCount t =
     length (filter (\<lambda>step. step_stepKind step = ProviderResponse) (claimed_steps (the (turn_claimed t))))"

definition dispatchTurn ::
    "hasher \<Rightarrow> urlParser \<Rightarrow> string \<Rightarrow> browserBrokerOperation \<Rightarrow> json \<Rightarrow> json_object \<Rightarrow> stepInput \<Rightarrow> turn \<Rightarrow> service
     \<Rightarrow> segment" where
  "dispatchTurn sha newURL toolUseId operation content config inp t svc =
     (case svc_broker svc of
        None \<Rightarrow> enterCatch (ErrorThrown ''Browser broker is unavailable for this runtime.'') t svc
      | Some broker \<Rightarrow>
          if 12 \<le> browserStepCount t
          then enterCatch (ErrorThrown ''Browser action budget was exhausted for this turn.'') t svc
          else
            (case brokerDispatch sha newURL broker (executionContext t)
                \<lparr>din_conversationId = turnConversation t, din_runId = turn_runId t, din_toolUseId = toolUseId,
                 din_operation = operation, din_leaseOwner = Some (turn_leaseOwner t),
                 din_providerContent = Some content, din_executionConfig = Some config\<rparr>
                (si_now inp) (si_uuid inp) (si_eventId inp) (svc_store svc) of
               (r, s) \<Rightarrow> (t\<lparr>turn_await := DispatchWait r\<rparr>, svc\<lparr>svc_store := s\<rparr>)))"

definition completeTurn :: "string \<Rightarrow> stepInput \<Rightarrow> turn \<Rightarrow> service \<Rightarrow> segment" where
  "completeTurn content inp t svc =
     (case completeRun (executionContext t) (turn_runId t)
         \<lparr>cin_assistantMessageId = turn_assistantMessageId t, cin_content = content,
          cin_leaseOwner = turn_leaseOwner t\<rparr> (si_now inp) (svc_store svc) of
        (r, s) \<Rightarrow> (t\<lparr>turn_await := CompleteWait r\<rparr>, svc\<lparr>svc_store := s\<rparr>))"

definition afterExecute ::
    "hasher \<Rightarrow> urlParser \<Rightarrow> thrown + turnExecution \<Rightarrow> stepInput \<Rightarrow> turn \<Rightarrow> service \<Rightarrow> segment" where
  "afterExecute sha newURL answer inp t svc =
     (case answer of
        Inl e \<Rightarrow> enterCatch e t svc
      | Inr execution \<Rightarrow>
          if turn_renewFailed t then enterCatch (ErrorThrown ''Concurrent runtime lease was lost.'') t svc
          else
            (case normalizedExecution execution of
               BrowserActionExecution toolUseId operation content config \<Rightarrow>
                 dispatchTurn sha newURL toolUseId operation content config inp t svc
             | CompleteExecution content \<Rightarrow> completeTurn content inp t svc
             | TextExecution content \<Rightarrow> completeTurn content inp t svc))"

definition afterDispatch ::
    "storeError + browserActionRecord \<times> browserOutboxRecord \<Rightarrow> stepInput \<Rightarrow> turn \<Rightarrow> service \<Rightarrow> segment" where
  "afterDispatch r inp t svc =
     (case r of
        Inl e \<Rightarrow> enterCatch (thrownOf (si_engineText inp) e) t svc
      | Inr (action, outbox) \<Rightarrow>
          reportActivity ParkedWait ''waiting'' ''browser_action_dispatched''
            [(''actionId'', JStr (act_actionId action))] inp (t\<lparr>turn_parkedForBrowser := True\<rparr>) svc)"

definition afterComplete :: "storeError + concurrentMessage \<Rightarrow> stepInput \<Rightarrow> turn \<Rightarrow> service \<Rightarrow> segment" where
  "afterComplete r inp t svc =
     (case r of
        Inl e \<Rightarrow> enterCatch (thrownOf (si_engineText inp) e) t svc
      | Inr message \<Rightarrow> report CompleteEventWait (messageCompleteEvent t) inp (t\<lparr>turn_terminal := True\<rparr>) svc)"

definition afterCompleteEvent :: "storeError option \<Rightarrow> stepInput \<Rightarrow> turn \<Rightarrow> service \<Rightarrow> segment" where
  "afterCompleteEvent failure inp t svc =
     orCatch failure inp t svc (reportActivity IdleEventWait ''idle'' ''message_complete'' [] inp t svc)"

section \<open>Resuming a turn\<close>

fun released :: "awaiting \<Rightarrow> bool" where
  "released Released = True"
| "released Unscheduled = True"
| "released _ = False"

text \<open>The promise of a predecessor resolves when its turn releases the lock.\<close>

definition lockFree :: "turn \<Rightarrow> service \<Rightarrow> bool" where
  "lockFree t svc \<longleftrightarrow>
     (case turn_previous t of
        None \<Rightarrow> True
      | Some p \<Rightarrow> (case map_get (svc_turns svc) p of None \<Rightarrow> True | Some u \<Rightarrow> released (turn_await u)))"

definition setTurn :: "turn \<Rightarrow> service \<Rightarrow> service" where
  "setTurn t svc = svc\<lparr>svc_turns := map_set (turn_id t) t (svc_turns svc)\<rparr>"

definition commit :: "segment \<Rightarrow> service" where
  "commit r = (case r of (t, svc) \<Rightarrow> setTurn t svc)"

definition scheduleNext :: "storeError + concurrentRun option \<Rightarrow> turn \<Rightarrow> service \<Rightarrow> service" where
  "scheduleNext r t svc =
     (case r of
        Inr (Some next) \<Rightarrow>
          schedule ((executionContext t)\<lparr>conversationId := Some (turnConversation t),
              idempotencyKey := Some (run_idempotencyKey next)\<rparr>) (run_id next) svc
      | _ \<Rightarrow> svc)"

definition releaseLock :: "turn \<Rightarrow> service \<Rightarrow> service" where
  "releaseLock t svc =
     (let key = lockKey (turn_context t) in
      if map_get (svc_conversationTails svc) key = Some (turn_id t)
      then svc\<lparr>svc_conversationTails := map_delete key (svc_conversationTails svc)\<rparr>
      else svc)"

definition unschedule :: "turn \<Rightarrow> service \<Rightarrow> service" where
  "unschedule t svc =
     svc\<lparr>svc_scheduledRuns := removeAll (runScopeKey (turn_context t) (turn_runId t)) (svc_scheduledRuns svc)\<rparr>"

definition turnTask :: "turn \<Rightarrow> scheduledTurn scheduledTask" where
  "turnTask t = \<lparr>tenantKey = tenantExecutionScopeKey (turn_context t),
     execute = \<lparr>st_id = turn_id t, st_context = turn_context t, st_runId = turn_runId t\<rparr>\<rparr>"

text \<open>The scheduler's own \<open>finally\<close>: the slot is released and the next tasks start.\<close>

definition settleTurn :: "turn \<Rightarrow> service \<Rightarrow> service" where
  "settleTurn t svc =
     (let svc1 = svc\<lparr>svc_turns := map_delete (turn_id t) (svc_turns svc)\<rparr>
      in launch (taskSettled (turnTask t) (svc_scheduler svc1)) svc1)"

text \<open>
  Resuming a turn where it waits. A turn that waits for the lock resumes only when its predecessor
  has released it; one that waits for the executor resumes with the executor's answer
  (\<open>executorSettles\<close>) or is called back (\<open>textDelta\<close>).
\<close>

definition continueTurn :: "stepInput \<Rightarrow> turn \<Rightarrow> service \<Rightarrow> service" where
  "continueTurn inp t svc =
     (case turn_await t of
        LockWait \<Rightarrow> if lockFree t svc then commit (claimTurn inp t svc) else svc
      | ClaimWait r \<Rightarrow> commit (afterClaim r inp t svc)
      | TurnStartWait e \<Rightarrow> commit (afterTurnStart e inp t svc)
      | ThinkingWait e \<Rightarrow> commit (afterThinking e inp t svc)
      | GrantWait r \<Rightarrow> commit (afterGrant r inp t svc)
      | Executing call \<Rightarrow> svc
      | FirstDeltaWait call text e \<Rightarrow> commit (afterFirstDelta call text e inp t svc)
      | DeltaWait call e \<Rightarrow> commit (t\<lparr>turn_await := Executing call\<rparr>, svc)
      | DispatchWait r \<Rightarrow> commit (afterDispatch r inp t svc)
      | ParkedWait e \<Rightarrow> commit (orCatch e inp t svc (enterFinally t svc))
      | CompleteWait r \<Rightarrow> commit (afterComplete r inp t svc)
      | CompleteEventWait e \<Rightarrow> commit (afterCompleteEvent e inp t svc)
      | IdleEventWait e \<Rightarrow> commit (orCatch e inp t svc (enterFinally t svc))
      | CurrentRunWait e r \<Rightarrow> commit (afterCurrentRun e r inp t svc)
      | FailWait e r \<Rightarrow> commit (afterFail e r inp t svc)
      | ErrorEventWait e \<Rightarrow> commit (enterFinally t svc)
      | NextRunWait r \<Rightarrow> commit (t\<lparr>turn_await := Returned\<rparr>, scheduleNext r t svc)
      | Returned \<Rightarrow> commit (t\<lparr>turn_await := Released\<rparr>, releaseLock t svc)
      | Released \<Rightarrow> commit (t\<lparr>turn_await := Unscheduled\<rparr>, unschedule t svc)
      | Unscheduled \<Rightarrow> settleTurn t svc)"

definition textDelta :: "string \<Rightarrow> stepInput \<Rightarrow> turn \<Rightarrow> service \<Rightarrow> service" where
  "textDelta text inp t svc =
     (case turn_await t of Executing call \<Rightarrow> commit (onTextDelta call text inp t svc) | _ \<Rightarrow> svc)"

definition executorSettles ::
    "hasher \<Rightarrow> urlParser \<Rightarrow> thrown + turnExecution \<Rightarrow> stepInput \<Rightarrow> turn \<Rightarrow> service \<Rightarrow> service" where
  "executorSettles sha newURL answer inp t svc =
     (case turn_await t of
        Executing call \<Rightarrow> commit (afterExecute sha newURL answer inp t svc)
      | _ \<Rightarrow> svc)"

text \<open>The renewal timer: the callback asks the store, and the promise's handlers run later.\<close>

definition renewTimer :: "stepInput \<Rightarrow> turn \<Rightarrow> service \<Rightarrow> service" where
  "renewTimer inp t svc =
     (if turn_timer t then
        (case renewRunLease (executionContext t) (turn_runId t) (turn_leaseOwner t)
            (si_now inp + svc_leaseDurationMs svc) (si_now inp) (svc_store svc) of
           (r, s) \<Rightarrow> setTurn (t\<lparr>turn_renewals := turn_renewals t @ [r]\<rparr>) (svc\<lparr>svc_store := s\<rparr>))
      else svc)"

definition renewalSettles :: "turn \<Rightarrow> service \<Rightarrow> service" where
  "renewalSettles t svc =
     (case turn_renewals t of
        [] \<Rightarrow> svc
      | r # rest \<Rightarrow>
          let t1 = t\<lparr>turn_renewals := rest\<rparr> in
          if r \<noteq> Inr True \<and> \<not> turn_parkedForBrowser t
          then abortTurn (turn_id t) (setTurn (t1\<lparr>turn_renewFailed := True\<rparr>) svc)
          else setTurn t1 svc)"

section \<open>The public methods\<close>

definition setRequest :: "nat \<Rightarrow> request \<Rightarrow> service \<Rightarrow> service" where
  "setRequest i r svc = svc\<lparr>svc_requests := map_set i r (svc_requests svc)\<rparr>"

definition submitMessage ::
    "nat \<Rightarrow> tenantExecutionContext \<Rightarrow> acceptConcurrentMessageInput \<Rightarrow> configArgument \<Rightarrow> int \<Rightarrow> freshIds \<Rightarrow> service
     \<Rightarrow> service" where
  "submitMessage i ctx input config now ids svc =
     (case acceptMessage ctx input now ids (svc_store svc) of
        (r, s) \<Rightarrow> setRequest i (SubmitAwait ctx config r) (svc\<lparr>svc_store := s\<rparr>))"

definition shouldSchedule :: "int \<Rightarrow> acceptedConcurrentRun \<Rightarrow> bool" where
  "shouldSchedule now accepted \<longleftrightarrow>
     acc_created accepted \<or> run_status (acc_run accepted) = Queued \<or>
     run_status (acc_run accepted) = Processing \<and>
       (case run_leaseExpiresAt (acc_run accepted) of None \<Rightarrow> False | Some t \<Rightarrow> t \<le> now)"

definition submitContext :: "tenantExecutionContext \<Rightarrow> acceptedConcurrentRun \<Rightarrow> tenantExecutionContext" where
  "submitContext ctx accepted =
     ctx\<lparr>conversationId := Some (acc_conversationId accepted),
         idempotencyKey := Some (run_idempotencyKey (acc_run accepted))\<rparr>"

definition scheduleAccepted :: "nat \<Rightarrow> tenantExecutionContext \<Rightarrow> acceptedConcurrentRun \<Rightarrow> service \<Rightarrow> service" where
  "scheduleAccepted i runContext accepted svc =
     setRequest i (SubmitSettled (Inr accepted)) (schedule runContext (run_id (acc_run accepted)) svc)"

definition submitAccepted ::
    "nat \<Rightarrow> tenantExecutionContext \<Rightarrow> configArgument \<Rightarrow> storeError + acceptedConcurrentRun \<Rightarrow> stepInput \<Rightarrow> service
     \<Rightarrow> service" where
  "submitAccepted i ctx config r inp svc =
     (case r of
        Inl e \<Rightarrow> setRequest i (SubmitSettled (Inl (thrownOf (si_engineText inp) e))) svc
      | Inr accepted \<Rightarrow>
          if \<not> shouldSchedule (si_now inp) accepted
          then setRequest i (SubmitSettled (Inr accepted)) svc
          else
            let runContext = submitContext ctx accepted;
                key = runScopeKey runContext (run_id (acc_run accepted))
            in case config of
                 NoConfig \<Rightarrow> scheduleAccepted i runContext accepted svc
               | GivenConfig c \<Rightarrow> scheduleAccepted i runContext accepted (storeConfig key c svc)
               | ConfigResolver \<Rightarrow>
                   (case resolveProviderConfig key svc of
                      (p, svc') \<Rightarrow> setRequest i (SubmitResolve runContext accepted p) svc'))"

text \<open>A wait for a resolution: still pending, rejected, or done.\<close>

definition resolutionOutcome :: "nat option \<Rightarrow> service \<Rightarrow> thrown option option" where
  "resolutionOutcome p svc =
     (case p of
        None \<Rightarrow> Some None
      | Some q \<Rightarrow> (case map_get (svc_resolutions svc) q of Some (key, Resolved e) \<Rightarrow> Some e | _ \<Rightarrow> None))"

definition cancelRunCall :: "nat \<Rightarrow> tenantExecutionContext \<Rightarrow> string \<Rightarrow> int \<Rightarrow> service \<Rightarrow> service" where
  "cancelRunCall i ctx runId now svc =
     (let svc1 = abortKey (runScopeKey ctx runId) svc in
      case cancelRun ctx runId now (svc_store svc1) of
        (r, s) \<Rightarrow> setRequest i (CancelRunAwait (runScopeKey ctx runId) r) (svc1\<lparr>svc_store := s\<rparr>))"

definition cancelConversationCall :: "nat \<Rightarrow> tenantExecutionContext \<Rightarrow> string \<Rightarrow> int \<Rightarrow> service \<Rightarrow> service" where
  "cancelConversationCall i ctx conversation now svc =
     (case cancelConversationRuns ctx conversation now (svc_store svc) of
        (r, s) \<Rightarrow> setRequest i (CancelConversationAwait ctx r) (svc\<lparr>svc_store := s\<rparr>))"

definition dropCancelled :: "tenantExecutionContext \<Rightarrow> concurrentRun \<Rightarrow> service \<Rightarrow> service" where
  "dropCancelled ctx run svc =
     forgetProviderConfig (runScopeKey ctx (run_id run)) (abortKey (runScopeKey ctx (run_id run)) svc)"

definition resumeCall :: "nat \<Rightarrow> tenantExecutionContext \<Rightarrow> string \<Rightarrow> bool \<Rightarrow> service \<Rightarrow> service" where
  "resumeCall i ctx runId resolver svc =
     setRequest i (ResumeAwait ctx runId resolver (getRun ctx runId (svc_store svc))) svc"

definition resumeLoaded ::
    "nat \<Rightarrow> tenantExecutionContext \<Rightarrow> string \<Rightarrow> bool \<Rightarrow> storeError + concurrentRun option \<Rightarrow> stepInput \<Rightarrow> service
     \<Rightarrow> service" where
  "resumeLoaded i ctx runId resolver r inp svc =
     (case r of
        Inl e \<Rightarrow> setRequest i (ResumeSettled (Some (thrownOf (si_engineText inp) e))) svc
      | Inr None \<Rightarrow> setRequest i (ResumeSettled None) svc
      | Inr (Some run) \<Rightarrow>
          if run_status run \<noteq> Queued then setRequest i (ResumeSettled None) svc
          else
            let runContext = ctx\<lparr>conversationId := Some (run_conversationId run),
                  idempotencyKey := Some (run_idempotencyKey run)\<rparr>;
                key = runScopeKey runContext runId
            in if key \<in> set (svc_scheduledRuns svc) then setRequest i (ResumeSettled None) svc
               else if resolver \<and> map_get (svc_providerConfigs svc) key = None
               then (case resolveProviderConfig key svc of
                       (p, svc') \<Rightarrow> setRequest i (ResumeResolve runContext runId p) svc')
               else setRequest i (ResumeSettled None) (schedule runContext runId svc))"

definition continueRequest :: "nat \<Rightarrow> stepInput \<Rightarrow> request \<Rightarrow> service \<Rightarrow> service" where
  "continueRequest i inp request svc =
     (case request of
        SubmitAwait ctx config r \<Rightarrow> submitAccepted i ctx config r inp svc
      | SubmitResolve runContext accepted p \<Rightarrow>
          (case resolutionOutcome p svc of
             None \<Rightarrow> svc
           | Some (Some e) \<Rightarrow> setRequest i (SubmitSettled (Inl e)) svc
           | Some None \<Rightarrow> scheduleAccepted i runContext accepted svc)
      | CancelRunAwait key (Inl e) \<Rightarrow> setRequest i (CancelSettled (Inl (thrownOf (si_engineText inp) e))) svc
      | CancelRunAwait key (Inr b) \<Rightarrow>
          setRequest i (CancelSettled (Inr b)) (if b then forgetProviderConfig key svc else svc)
      | CancelConversationAwait ctx (Inl e) \<Rightarrow>
          setRequest i (CancelSettled (Inl (thrownOf (si_engineText inp) e))) svc
      | CancelConversationAwait ctx (Inr cancelled) \<Rightarrow>
          setRequest i (CancelSettled (Inr (cancelled \<noteq> []))) (fold (dropCancelled ctx) cancelled svc)
      | ResumeAwait ctx runId resolver r \<Rightarrow> resumeLoaded i ctx runId resolver r inp svc
      | ResumeResolve runContext runId p \<Rightarrow>
          (case resolutionOutcome p svc of
             None \<Rightarrow> svc
           | Some (Some e) \<Rightarrow> setRequest i (ResumeSettled (Some e)) svc
           | Some None \<Rightarrow> setRequest i (ResumeSettled None) (schedule runContext runId svc))
      | _ \<Rightarrow> svc)"

definition serviceOnIdle :: "nat \<Rightarrow> service \<Rightarrow> service" where
  "serviceOnIdle w svc = svc\<lparr>svc_scheduler := onIdle w (svc_scheduler svc)\<rparr>"

definition schedulerSnapshot :: "service \<Rightarrow> int \<times> nat \<times> nat" where
  "schedulerSnapshot svc = snapshot (svc_scheduler svc)"

section \<open>Steps of the service\<close>

text \<open>
  \<open>OtherStoreOp\<close> is an operation on the shared store by someone else: the browser routes, or
  another worker. An event that names a turn or request that does not exist does nothing.
\<close>

datatype svcEvent =
    SubmitCall nat tenantExecutionContext acceptConcurrentMessageInput configArgument int freshIds
  | CancelRunCall nat tenantExecutionContext string int
  | CancelConversationCall nat tenantExecutionContext string int
  | ResumeCall nat tenantExecutionContext string bool
  | IdleCall nat
  | RequestResumes nat stepInput
  | ResolverSettles nat "thrown + providerRequestConfig"
  | ResolutionFinally nat
  | TurnResumes nat stepInput
  | TextDelta nat string stepInput
  | ExecutorSettles nat "thrown + turnExecution" stepInput
  | RenewTimer nat stepInput
  | RenewalSettles nat
  | OtherStoreOp storeOp

definition withTurn :: "nat \<Rightarrow> (turn \<Rightarrow> service \<Rightarrow> service) \<Rightarrow> service \<Rightarrow> service" where
  "withTurn i f svc = (case map_get (svc_turns svc) i of None \<Rightarrow> svc | Some t \<Rightarrow> f t svc)"

fun svcStep :: "hasher \<Rightarrow> urlParser \<Rightarrow> svcEvent \<Rightarrow> service \<Rightarrow> service" where
  "svcStep sha newURL (SubmitCall i ctx input config now ids) svc = submitMessage i ctx input config now ids svc"
| "svcStep sha newURL (CancelRunCall i ctx runId now) svc = cancelRunCall i ctx runId now svc"
| "svcStep sha newURL (CancelConversationCall i ctx conversation now) svc =
     cancelConversationCall i ctx conversation now svc"
| "svcStep sha newURL (ResumeCall i ctx runId resolver) svc = resumeCall i ctx runId resolver svc"
| "svcStep sha newURL (IdleCall w) svc = serviceOnIdle w svc"
| "svcStep sha newURL (RequestResumes i inp) svc =
     (case map_get (svc_requests svc) i of None \<Rightarrow> svc | Some r \<Rightarrow> continueRequest i inp r svc)"
| "svcStep sha newURL (ResolverSettles p answer) svc = resolverSettles p answer svc"
| "svcStep sha newURL (ResolutionFinally p) svc = resolutionFinally p svc"
| "svcStep sha newURL (TurnResumes i inp) svc = withTurn i (continueTurn inp) svc"
| "svcStep sha newURL (TextDelta i text inp) svc = withTurn i (textDelta text inp) svc"
| "svcStep sha newURL (ExecutorSettles i answer inp) svc =
     withTurn i (executorSettles sha newURL answer inp) svc"
| "svcStep sha newURL (RenewTimer i inp) svc = withTurn i (renewTimer inp) svc"
| "svcStep sha newURL (RenewalSettles i) svc = withTurn i renewalSettles svc"
| "svcStep sha newURL (OtherStoreOp op) svc = svc\<lparr>svc_store := storeStep op (svc_store svc)\<rparr>"

end
