(* ===== verification/Service_Invariant.thy ===== *)
theory Service_Invariant
  imports Runtime_Service "HOL-Library.Multiset"
begin

text \<open>
  The control invariant of the runtime service: which turns exist, who holds the conversation
  lock, and what the set of scheduled runs means. Every step changes the control state in one of a
  few ways (a task is scheduled, a turn moves on, a lock is released, a run is unscheduled, a task
  settles), and each is shown to keep the invariant once.
\<close>

section \<open>What a scheduler operation starts\<close>

definition queuedTasks :: "'a fairScheduler \<Rightarrow> 'a scheduledTask multiset" where
  "queuedTasks s = mset (concat (map_values (queues s)))"

lemma mset_concat_values_set:
  "map_get m k = Some u \<Longrightarrow>
     mset (concat (map_values (map_set k v m))) + mset u = mset (concat (map_values m)) + mset v"
  by (induction m) (auto simp: map_values_def)

lemma mset_concat_values_new:
  "map_get m k = None \<Longrightarrow> mset (concat (map_values (map_set k v m))) = mset (concat (map_values m)) + mset v"
  by (induction m) (auto simp: map_values_def)

lemma mset_concat_values_delete:
  assumes "distinct (map fst m)" "map_get m k = Some u"
  shows "mset (concat (map_values (map_delete k m))) + mset u = mset (concat (map_values m))"
  using assms
proof (induction m)
  case (Cons p m)
  have "fst p = k \<Longrightarrow> map_delete k m = m"
    using Cons.prems(1) by (auto simp: delete_id [symmetric])
  with Cons show ?case by (cases "fst p = k") (auto simp: map_values_def)
qed simp

lemma queuedTasks_dispatch:
  assumes "queues_wf s" "map_get (queues s) k = Some (task # rest)"
  shows "add_mset task (queuedTasks (dispatch k task rest order n s)) = queuedTasks s"
proof -
  have d: "distinct (map fst (queues s))" using assms(1) by (simp add: queues_wf_def)
  show ?thesis
    using mset_concat_values_set [OF assms(2), of rest] mset_concat_values_delete [OF d assms(2)]
    by (cases "rest = []") (simp_all add: queuedTasks_def)
qed

lemma distinct_of_count: "\<forall>i. count (mset xs) i \<le> 1 \<Longrightarrow> distinct xs"
proof (induction xs)
  case (Cons x xs)
  have "count (mset xs) i \<le> count (mset (x # xs)) i" for i by simp
  then have "\<forall>i. count (mset xs) i \<le> 1" using Cons.prems order_trans by blast
  moreover have "x \<notin> set xs" using Cons.prems [rule_format, of x] by (simp add: count_eq_zero_iff)
  ultimately show ?case using Cons.IH by simp
qed simp

definition launches :: "'a scheduledTask list \<Rightarrow> 'a fairScheduler \<Rightarrow> 'a fairScheduler \<Rightarrow> bool" where
  "launches new s s' \<longleftrightarrow>
     started s' = started s @ new \<and> running s' = running s @ new \<and> queuedTasks s = mset new + queuedTasks s'"

lemma launches_dispatch:
  assumes "launches new s t" "queues_wf t" "map_get (queues t) k = Some (task # rest)"
  shows "launches (new @ [task]) s (dispatch k task rest order n t)"
  using assms queuedTasks_dispatch [OF assms(2,3), of order n] by (simp add: launches_def)

lemma drainLoop_launches:
  assumes "core_inv s"
  shows "\<exists>new. launches new s (drainLoop n s)"
proof -
  let ?I = "\<lambda>n t. core_inv t \<and> (\<exists>new. launches new s t)"
  have "\<exists>m. ?I m (drainLoop n s) \<and> (active (drainLoop n s) < maxConcurrent (drainLoop n s) \<longrightarrow>
      length (tenantOrder (drainLoop n s)) \<le> m)"
  proof (rule drainLoop_rule [where I = ?I])
    show "?I n s" using assms by (auto simp: launches_def intro: exI [of _ "[]"])
  next
    fix n t k' order
    assume "?I n t" "tenantOrder t = k' # order"
    then show "?I (Suc n) (t\<lparr>tenantOrder := order @ [k']\<rparr>)"
      by (simp add: core_inv_rotate launches_def queuedTasks_def)
  next
    fix n t k' order task rest
    assume "?I n t" "active t < maxConcurrent t" "tenantOrder t = k' # order"
      "map_get (queues t) k' = Some (task # rest)" "tenantKey task = k'"
      "Fair_Scheduler.inFlight t k' < maxConcurrentPerTenant t"
    then show "?I 0 (dispatch k' task rest order (Fair_Scheduler.inFlight t k') t)"
      by (blast intro: core_inv_dispatch launches_dispatch core_inv_queues)
  qed simp_all
  then show ?thesis by blast
qed

lemma drain_launches:
  assumes "core_inv s" "\<not> draining s"
  shows "\<exists>new. launches new s (drain s)"
  using drainLoop_launches [of "s\<lparr>draining := True\<rparr>" 0] assms
  by (simp add: drain_def notifyIdle_def launches_def queuedTasks_def)

lemma queuedTasks_push: "queuedTasks (pushTask task s) = add_mset task (queuedTasks s)"
proof (cases "map_get (queues s) (tenantKey task)")
  case None
  then show ?thesis by (simp add: pushTask_def queuedTasks_def mset_concat_values_new)
next
  case (Some q)
  then show ?thesis
    using mset_concat_values_set [OF Some, of "q @ [task]"] by (simp add: pushTask_def queuedTasks_def)
qed

lemma enqueue_launches:
  assumes "sched_inv s" "k \<noteq> []"
  obtains s' new where "enqueue k ex s = Inr s'" "sched_inv s'" "started s' = started s @ new"
    "running s' = running s @ new"
    "add_mset \<lparr>tenantKey = k, execute = ex\<rparr> (queuedTasks s) = mset new + queuedTasks s'"
proof -
  let ?p = "pushTask \<lparr>tenantKey = k, execute = ex\<rparr> s"
  have "core_inv ?p" "\<not> draining ?p" using assms(1) by (simp_all add: sched_inv_def core_inv_push)
  from drain_launches [OF this] obtain new where "launches new ?p (drain ?p)" ..
  moreover have "enqueue k ex s = Inr (drain ?p)" using assms(2) by (simp add: enqueue_pushTask)
  moreover from this have "sched_inv (drain ?p)" using schedStep_inv [OF assms(1), of "Enqueue k ex"] by simp
  ultimately show ?thesis using that by (auto simp: launches_def queuedTasks_push)
qed

lemma taskSettled_launches:
  assumes "sched_inv s" "task \<in> set (running s)"
  obtains new where "sched_inv (taskSettled task s)" "started (taskSettled task s) = started s @ new"
    "running (taskSettled task s) = remove1 task (running s) @ new"
    "queuedTasks s = mset new + queuedTasks (taskSettled task s)"
proof -
  have "core_inv (releaseSlot task s)" "\<not> draining (releaseSlot task s)"
    using assms by (simp_all add: sched_inv_def core_inv_release)
  from drain_launches [OF this] obtain new where
    "launches new (releaseSlot task s) (drain (releaseSlot task s))" ..
  then have "started (taskSettled task s) = started s @ new"
    "running (taskSettled task s) = remove1 task (running s) @ new"
    "queuedTasks s = mset new + queuedTasks (taskSettled task s)"
    by (simp_all add: launches_def taskSettled_def notifyIdle_def queuedTasks_def)
  with taskSettled_inv [OF assms] that show ?thesis by blast
qed

section \<open>The invariant\<close>

definition taskId :: "scheduledTurn scheduledTask \<Rightarrow> nat" where
  "taskId task = st_id (execute task)"

definition taskRun :: "scheduledTurn scheduledTask \<Rightarrow> string" where
  "taskRun task = runScopeKey (st_context (execute task)) (st_runId (execute task))"

definition turnRun :: "turn \<Rightarrow> string" where
  "turnRun t = runScopeKey (turn_context t) (turn_runId t)"

text \<open>The turns that hold or wait for the lock of a conversation, in the order they came.\<close>

definition inQueue :: "string \<Rightarrow> turn \<Rightarrow> bool" where
  "inQueue K t \<longleftrightarrow> lockKey (turn_context t) = K \<and> \<not> released (turn_await t)"

definition lockQueue :: "string \<Rightarrow> service \<Rightarrow> turn list" where
  "lockQueue K svc = filter (inQueue K) (map_values (svc_turns svc))"

fun chain :: "nat \<Rightarrow> turn list \<Rightarrow> bool" where
  "chain p [] \<longleftrightarrow> True"
| "chain p (t # ts) \<longleftrightarrow> turn_previous t = Some p \<and> turn_await t = LockWait \<and> chain (turn_id t) ts"

definition lockOk :: "string \<Rightarrow> service \<Rightarrow> bool" where
  "lockOk K svc \<longleftrightarrow>
     (case lockQueue K svc of
        [] \<Rightarrow> map_get (svc_conversationTails svc) K = None
      | t # ts \<Rightarrow> map_get (svc_conversationTails svc) K = Some (turn_id (last (t # ts))) \<and>
          chain (turn_id t) ts \<and> lockFree t svc)"

definition lockInv :: "nat set \<Rightarrow> service \<Rightarrow> bool" where
  "lockInv ids svc \<longleftrightarrow>
     distinct (map fst (svc_turns svc)) \<and>
     (\<forall>(i, t) \<in> set (svc_turns svc). turn_id t = i \<and> i \<in> ids \<and> (\<forall>p. turn_previous t = Some p \<longrightarrow> p \<in> ids)) \<and>
     (\<forall>K. lockOk K svc)"

definition taskInv :: "service \<Rightarrow> bool" where
  "taskInv svc \<longleftrightarrow>
     (let s = svc_scheduler svc; tasks = mset (started s) + queuedTasks s in
      sched_inv s \<and> (\<forall>i. count (image_mset taskId tasks) i \<le> 1) \<and>
      (\<forall>task \<in># tasks. taskId task < svc_nextId svc \<and>
         tenantKey task = tenantExecutionScopeKey (st_context (execute task))) \<and>
      mset (running s) \<subseteq># mset (started s) \<and>
      mset (running s) = mset (map turnTask (map_values (svc_turns svc))))"

definition scheduledTurns :: "service \<Rightarrow> turn list" where
  "scheduledTurns svc = filter (\<lambda>t. turn_await t \<noteq> Unscheduled) (map_values (svc_turns svc))"

definition runInv :: "service \<Rightarrow> bool" where
  "runInv svc \<longleftrightarrow>
     distinct (svc_scheduledRuns svc) \<and>
     mset (svc_scheduledRuns svc) =
       image_mset taskRun (queuedTasks (svc_scheduler svc)) + mset (map turnRun (scheduledTurns svc))"

definition startedIds :: "service \<Rightarrow> nat set" where
  "startedIds svc = set (map taskId (started (svc_scheduler svc)))"

definition svcInv :: "service \<Rightarrow> bool" where
  "svcInv svc \<longleftrightarrow> taskInv svc \<and> lockInv (startedIds svc) svc \<and> runInv svc"

section \<open>Turns that move on\<close>

lemma map_split:
  assumes "map_get m k = Some v" "distinct (map fst m)"
  obtains xs ys where "m = xs @ (k, v) # ys" "k \<notin> fst ` set xs" "k \<notin> fst ` set ys"
    "\<And>w. map_set k w m = xs @ (k, w) # ys" "map_delete k m = xs @ ys"
proof -
  from assms have "(k, v) \<in> set m" by (meson map_of_SomeD)
  then obtain xs ys where m: "m = xs @ (k, v) # ys" by (meson split_list)
  with assms(2) have k: "k \<notin> fst ` set xs" "k \<notin> fst ` set ys" by auto
  have "map_set k w (xs @ (k, v) # ys) = xs @ (k, w) # ys" for w using k(1) by (induction xs) auto
  moreover have "map_delete k (xs @ (k, v) # ys) = xs @ ys" using k by (induction xs) (auto simp: delete_id)
  ultimately show ?thesis using that m k by simp
qed

lemma map_set_absent: "k \<notin> fst ` set m \<Longrightarrow> map_set k v m = m @ [(k, v)]"
  by (induction m) auto

definition sameWait :: "turn \<Rightarrow> turn \<Rightarrow> bool" where
  "sameWait t t' \<longleftrightarrow> turn_id t' = turn_id t \<and> turn_context t' = turn_context t \<and>
     turn_runId t' = turn_runId t \<and> turn_previous t' = turn_previous t"

lemma sameWaitD:
  "sameWait t t' \<Longrightarrow> turn_id t' = turn_id t" "sameWait t t' \<Longrightarrow> turn_previous t' = turn_previous t"
  "sameWait t t' \<Longrightarrow> turnTask t' = turnTask t" "sameWait t t' \<Longrightarrow> turnRun t' = turnRun t"
  "sameWait t t' \<Longrightarrow> lockKey (turn_context t') = lockKey (turn_context t)"
  by (simp_all add: sameWait_def turnTask_def turnRun_def)

lemma chain_member:
  "chain p ts \<Longrightarrow> t \<in> set ts \<Longrightarrow>
     turn_await t = LockWait \<and> (turn_previous t = Some p \<or> (\<exists>u \<in> set ts. turn_previous t = Some (turn_id u)))"
  by (induction p ts rule: chain.induct) auto

lemma lockInv_turn:
  assumes "lockInv ids svc" "map_get (svc_turns svc) i = Some t"
  shows "turn_id t = i" "i \<in> ids" "turn_previous t = Some p \<Longrightarrow> p \<in> ids"
  using assms by (auto simp: lockInv_def dest!: map_of_SomeD)

lemma lockInv_entry:
  assumes "lockInv ids svc" "map_get (svc_turns svc) i = Some t" "sameWait t t'"
    "(j, u) \<in> set (svc_turns svc) \<or> (j, u) = (i, t')"
  shows "turn_id u = j \<and> j \<in> ids \<and> (\<forall>p. turn_previous u = Some p \<longrightarrow> p \<in> ids)"
  using assms(4)
proof
  assume "(j, u) \<in> set (svc_turns svc)"
  with assms(1) show ?thesis by (auto simp: lockInv_def)
qed (use assms(3) lockInv_turn [OF assms(1,2)] in \<open>simp add: sameWait_def\<close>)

text \<open>Only the head of the queue is past the lock or free to pass it.\<close>

lemma lockQueue_head:
  assumes "lockInv ids svc" "map_get (svc_turns svc) i = Some t" "inQueue K t"
    "turn_await t \<noteq> LockWait \<or> lockFree t svc"
  obtains ts where "lockQueue K svc = t # ts"
proof -
  have in_q: "u \<in> set (lockQueue K svc) \<longleftrightarrow> inQueue K u \<and> (\<exists>j. map_get (svc_turns svc) j = Some u)" for u
    using assms(1) by (auto simp: lockQueue_def lockInv_def in_values_iff)
  with assms have "t \<in> set (lockQueue K svc)" by auto
  moreover obtain h ts where q: "lockQueue K svc = h # ts"
    using \<open>t \<in> set (lockQueue K svc)\<close> by (cases "lockQueue K svc") auto
  moreover have "chain (turn_id h) ts"
    using assms(1) q by (auto simp: lockInv_def lockOk_def split: list.splits dest: spec [of _ K])
  moreover have "\<not> lockFree t svc" if "u \<in> set (lockQueue K svc)" "turn_previous t = Some (turn_id u)" for u
  proof -
    from that(1) in_q obtain j where "map_get (svc_turns svc) j = Some u" "inQueue K u" by blast
    with lockInv_turn(1) [OF assms(1)] that(2) show ?thesis by (auto simp: lockFree_def inQueue_def)
  qed
  ultimately have "t = h"
    using chain_member [of "turn_id h" ts t] assms(4) by auto
  with q that show ?thesis by blast
qed

lemma lockFree_mono:
  assumes "lockFree u svc"
    "\<And>p x. map_get (svc_turns svc') p = Some x \<Longrightarrow>
      \<exists>y. map_get (svc_turns svc) p = Some y \<and> (released (turn_await y) \<longrightarrow> released (turn_await x))"
  shows "lockFree u svc'"
  using assms by (force simp: lockFree_def split: option.splits)

definition replaceTurn :: "turn \<Rightarrow> turn \<Rightarrow> turn" where
  "replaceTurn t' u = (if turn_id u = turn_id t' then t' else u)"

lemma setTurn_values:
  assumes "lockInv ids svc" "map_get (svc_turns svc) i = Some t" "sameWait t t'"
  shows "map_values (svc_turns (setTurn t' svc)) = map (replaceTurn t') (map_values (svc_turns svc))"
proof -
  have d: "distinct (map fst (svc_turns svc))" using assms(1) by (simp add: lockInv_def)
  have i: "turn_id t' = i" using assms(3) lockInv_turn(1) [OF assms(1,2)] by (simp add: sameWait_def)
  from map_split [OF assms(2) d] obtain xs ys where
    m: "svc_turns svc = xs @ (i, t) # ys" "i \<notin> fst ` set xs" "i \<notin> fst ` set ys"
      "map_set i t' (svc_turns svc) = xs @ (i, t') # ys"
    by metis
  have "\<forall>(j, u) \<in> set (svc_turns svc). turn_id u = j" using assms(1) by (auto simp: lockInv_def)
  then have "turn_id u \<noteq> i" if "(j, u) \<in> set xs \<or> (j, u) \<in> set ys" for j u
    using that m(1-3) by force
  then have "map (replaceTurn t') (map snd xs) = map snd xs" "map (replaceTurn t') (map snd ys) = map snd ys"
    by (force simp: replaceTurn_def i intro!: map_idI)+
  moreover have "replaceTurn t' t = t'" using assms(3) by (simp add: replaceTurn_def sameWait_def)
  ultimately show ?thesis using m i by (simp add: setTurn_def map_values_def)
qed

lemma in_turns:
  assumes "lockInv ids svc"
  shows "u \<in> set (map_values (svc_turns svc)) \<longleftrightarrow> map_get (svc_turns svc) (turn_id u) = Some u"
proof -
  have "u \<in> set (map_values (svc_turns svc)) \<longleftrightarrow> (\<exists>j. map_get (svc_turns svc) j = Some u)"
    using assms by (intro in_values_iff) (simp add: lockInv_def)
  then show ?thesis using lockInv_turn(1) [OF assms] by auto
qed

lemma turn_unique:
  assumes "lockInv ids svc" "map_get (svc_turns svc) i = Some t" "u \<in> set (map_values (svc_turns svc))" "turn_id u = i"
  shows "u = t"
  using assms(2,4) assms(3) [unfolded in_turns [OF assms(1)]] by simp

lemma lockQueue_member: "u \<in> set (lockQueue K svc) \<longleftrightarrow> u \<in> set (map_values (svc_turns svc)) \<and> inQueue K u"
  by (auto simp: lockQueue_def)

lemma setTurn_queue:
  assumes "lockInv ids svc" "map_get (svc_turns svc) i = Some t" "sameWait t t'"
    "released (turn_await t') \<longleftrightarrow> released (turn_await t)"
  shows "lockQueue K (setTurn t' svc) = map (replaceTurn t') (lockQueue K svc)"
proof -
  have "inQueue K (replaceTurn t' u) = inQueue K u" if "u \<in> set (map_values (svc_turns svc))" for u
  proof (cases "turn_id u = turn_id t'")
    case True
    then have "turn_id u = i" using assms(3) lockInv_turn(1) [OF assms(1,2)] by (simp add: sameWait_def)
    then have "u = t" by (rule turn_unique [OF assms(1,2) that])
    with True assms(3,4) show ?thesis by (simp add: replaceTurn_def inQueue_def sameWait_def)
  qed (simp add: replaceTurn_def)
  then have "filter (\<lambda>u. inQueue K (replaceTurn t' u)) (map_values (svc_turns svc)) =
      filter (inQueue K) (map_values (svc_turns svc))"
    by (intro filter_cong refl) auto
  then show ?thesis
    by (simp add: lockQueue_def setTurn_values [OF assms(1-3)] filter_map comp_def)
qed

lemma chain_map:
  "\<lbrakk>chain p ts; \<And>u. u \<in> set ts \<Longrightarrow> turn_id (f u) = turn_id u \<and> turn_previous (f u) = turn_previous u \<and>
      turn_await (f u) = turn_await u\<rbrakk> \<Longrightarrow> chain p (map f ts)"
  by (induction p ts rule: chain.induct) auto

lemma lockOk_cases:
  assumes "lockOk K svc"
  obtains "lockQueue K svc = []" "map_get (svc_conversationTails svc) K = None"
  | t ts where "lockQueue K svc = t # ts" "chain (turn_id t) ts" "lockFree t svc"
      "map_get (svc_conversationTails svc) K = Some (turn_id (last (t # ts)))"
  using assms by (auto simp: lockOk_def split: list.splits)

lemma lockInvD:
  assumes "lockInv ids svc"
  shows "distinct (map fst (svc_turns svc))" "lockOk K svc"
  using assms by (simp_all add: lockInv_def)

lemma lockQueue_ids:
  assumes "lockInv ids svc"
  shows "distinct (map turn_id (lockQueue K svc))"
proof -
  have "map turn_id (map_values (svc_turns svc)) = map fst (svc_turns svc)"
    using assms by (auto simp: lockInv_def map_values_def)
  then have "distinct (map turn_id (map_values (svc_turns svc)))" using assms by (simp add: lockInv_def)
  then show ?thesis unfolding lockQueue_def by (rule distinct_map_filter)
qed

lemma setTurn_sel [simp]:
  "svc_conversationTails (setTurn t svc) = svc_conversationTails svc"
  "svc_scheduler (setTurn t svc) = svc_scheduler svc"
  "svc_scheduledRuns (setTurn t svc) = svc_scheduledRuns svc"
  "svc_nextId (setTurn t svc) = svc_nextId svc"
  "svc_store (setTurn t svc) = svc_store svc"
  "startedIds (setTurn t svc) = startedIds svc"
  by (simp_all add: setTurn_def startedIds_def)

text \<open>A turn past the lock, or free to pass it, may move; others may change their local data.\<close>

definition mayMove :: "turn \<Rightarrow> turn \<Rightarrow> service \<Rightarrow> bool" where
  "mayMove t t' svc \<longleftrightarrow> sameWait t t' \<and>
     (turn_await t' = turn_await t \<or>
      \<not> released (turn_await t) \<and> \<not> released (turn_await t') \<and> (turn_await t \<noteq> LockWait \<or> lockFree t svc))"

lemma lockFree_replaceTurn:
  assumes "lockFree u svc" "map_get (svc_turns svc) i = Some t" "turn_id t' = i"
    "released (turn_await t) \<longrightarrow> released (turn_await t')" "turn_previous (replaceTurn t' u) = turn_previous u"
  shows "lockFree (replaceTurn t' u) (setTurn t' svc)"
proof -
  have "lockFree u (setTurn t' svc)"
    by (rule lockFree_mono [OF assms(1)]) (use assms in \<open>auto simp: setTurn_def split: if_splits\<close>)
  with assms(5) show ?thesis by (simp add: lockFree_def)
qed

lemma setTurn_lockOk:
  assumes inv: "lockInv ids svc" and t: "map_get (svc_turns svc) i = Some t" and move: "mayMove t t' svc"
  shows "lockOk K (setTurn t' svc)"
proof -
  have same: "sameWait t t'" and rel: "released (turn_await t') \<longleftrightarrow> released (turn_await t)"
    using move by (auto simp: mayMove_def)
  have id: "turn_id t' = i" using same lockInv_turn(1) [OF inv t] by (simp add: sameWait_def)
  have rep: "turn_id (replaceTurn t' u) = turn_id u" "turn_previous (replaceTurn t' u) = turn_previous u"
    if "u \<in> set (lockQueue K svc)" for u
  proof -
    have "turn_id u = i \<Longrightarrow> u = t"
      using that by (intro turn_unique [OF inv t]) (simp_all add: lockQueue_member)
    then show "turn_id (replaceTurn t' u) = turn_id u" "turn_previous (replaceTurn t' u) = turn_previous u"
      using same id by (auto simp: replaceTurn_def sameWait_def)
  qed
  note queue = setTurn_queue [OF inv t same rel, of K]
  show ?thesis
  proof (rule lockOk_cases [OF lockInvD(2) [OF inv, of K]])
    fix h ts
    assume q: "lockQueue K svc = h # ts" "chain (turn_id h) ts" "lockFree h svc"
      "map_get (svc_conversationTails svc) K = Some (turn_id (last (h # ts)))"
    have "turn_await (replaceTurn t' u) = turn_await u" if u: "u \<in> set ts" for u
    proof (cases "turn_id u = turn_id t'")
      case True
      have member: "u \<in> set (lockQueue K svc)" using u q(1) by simp
      then have "u = t" using True id by (intro turn_unique [OF inv t]) (simp_all add: lockQueue_member)
      have "turn_await t' = turn_await t"
      proof (rule ccontr)
        assume "turn_await t' \<noteq> turn_await t"
        with move have free: "turn_await t \<noteq> LockWait \<or> lockFree t svc" by (auto simp: mayMove_def)
        have "inQueue K t" using member \<open>u = t\<close> by (simp add: lockQueue_member)
        from lockQueue_head [OF inv t this free] q(1) have "h = t" by auto
        with u \<open>u = t\<close> q(1) lockQueue_ids [OF inv, of K] show False by auto
      qed
      with True \<open>u = t\<close> show ?thesis by (simp add: replaceTurn_def)
    qed (simp add: replaceTurn_def)
    then have "chain (turn_id h) (map (replaceTurn t') ts)"
      by (intro chain_map [OF q(2)]) (use rep q(1) in simp)
    moreover have "lockFree (replaceTurn t' h) (setTurn t' svc)"
      by (rule lockFree_replaceTurn [OF q(3) t id]) (use rel rep(2) q(1) in simp_all)
    moreover have "turn_id (last (map (replaceTurn t') (h # ts))) = turn_id (last (h # ts))"
      by (subst last_map) (use rep(1) q(1) in \<open>simp_all\<close>)
    ultimately show ?thesis
      unfolding lockOk_def queue q(1) using q(4) rep(1) [of h] q(1) by simp
  qed (simp add: lockOk_def queue)
qed

lemma setTurn_lockInv:
  assumes "lockInv ids svc" "map_get (svc_turns svc) i = Some t" "mayMove t t' svc"
  shows "lockInv ids (setTurn t' svc)"
proof -
  have same: "sameWait t t'" using assms(3) by (simp add: mayMove_def)
  then have turns: "svc_turns (setTurn t' svc) = map_set i t' (svc_turns svc)"
    using lockInv_turn(1) [OF assms(1,2)] by (simp add: setTurn_def sameWait_def)
  have "turn_id u = j \<and> j \<in> ids \<and> (\<forall>p. turn_previous u = Some p \<longrightarrow> p \<in> ids)"
    if "(j, u) \<in> set (map_set i t' (svc_turns svc))" for j u
    by (rule lockInv_entry [OF assms(1,2) same])
      (use that lockInvD(1) [OF assms(1)] in \<open>auto simp: in_set_map_set split: if_splits\<close>)
  then show ?thesis
    using lockInvD(1) [OF assms(1)] setTurn_lockOk [OF assms] unfolding lockInv_def turns by auto
qed

text \<open>Replacing a turn by one of the same task changes neither the tasks nor the scheduled runs.\<close>

lemma replaced_control:
  assumes inv: "lockInv ids svc" and t: "map_get (svc_turns svc) i = Some t" "sameWait t t'"
    "turn_await t' = Unscheduled \<longleftrightarrow> turn_await t = Unscheduled"
    and svc': "svc_turns svc' = svc_turns (setTurn t' svc)" "svc_scheduler svc' = svc_scheduler svc"
    "svc_scheduledRuns svc' = svc_scheduledRuns svc" "svc_nextId svc' = svc_nextId svc"
  shows "taskInv svc' = taskInv svc" "runInv svc' = runInv svc"
proof -
  have vals: "map_values (svc_turns svc') = map (replaceTurn t') (map_values (svc_turns svc))"
    using setTurn_values [OF inv t(1,2)] by (simp add: svc')
  have same: "turnTask (replaceTurn t' u) = turnTask u" "turnRun (replaceTurn t' u) = turnRun u"
    "turn_await (replaceTurn t' u) = Unscheduled \<longleftrightarrow> turn_await u = Unscheduled"
    if "u \<in> set (map_values (svc_turns svc))" for u
  proof -
    have "turn_id t' = i" using t(2) lockInv_turn(1) [OF inv t(1)] by (simp add: sameWait_def)
    then have "turn_id u = turn_id t' \<Longrightarrow> u = t" by (intro turn_unique [OF inv t(1) that]) simp
    then show "turnTask (replaceTurn t' u) = turnTask u" "turnRun (replaceTurn t' u) = turnRun u"
      "turn_await (replaceTurn t' u) = Unscheduled \<longleftrightarrow> turn_await u = Unscheduled"
      using t(2,3) by (auto simp: replaceTurn_def turnTask_def turnRun_def sameWait_def)
  qed
  have "map turnTask (map_values (svc_turns svc')) = map turnTask (map_values (svc_turns svc))"
    using same(1) by (simp add: vals)
  then show "taskInv svc' = taskInv svc" by (simp only: taskInv_def svc')
  have "filter (\<lambda>u. turn_await (replaceTurn t' u) \<noteq> Unscheduled) (map_values (svc_turns svc)) = scheduledTurns svc"
    unfolding scheduledTurns_def using same(3) by (intro filter_cong refl) auto
  then have "map turnRun (scheduledTurns svc') = map turnRun (scheduledTurns svc)"
    using same(2) by (auto simp: scheduledTurns_def vals filter_map comp_def)
  then show "runInv svc' = runInv svc" by (simp only: runInv_def svc')
qed

lemma setTurn_svcInv:
  assumes "svcInv svc" "map_get (svc_turns svc) i = Some t" "mayMove t t' svc"
  shows "svcInv (setTurn t' svc)"
proof -
  have inv: "lockInv (startedIds svc) svc" using assms(1) by (simp add: svcInv_def)
  have "sameWait t t'" "turn_await t' = Unscheduled \<longleftrightarrow> turn_await t = Unscheduled"
    using assms(3) by (auto simp: mayMove_def)
  from replaced_control [OF inv assms(2) this refl] assms(1) setTurn_lockInv [OF inv assms(2,3)]
  show ?thesis by (simp add: svcInv_def)
qed

text \<open>The fields the invariant reads.\<close>

definition sameControl :: "service \<Rightarrow> service \<Rightarrow> bool" where
  "sameControl svc svc' \<longleftrightarrow>
     svc_scheduler svc' = svc_scheduler svc \<and> svc_turns svc' = svc_turns svc \<and>
     svc_conversationTails svc' = svc_conversationTails svc \<and>
     svc_scheduledRuns svc' = svc_scheduledRuns svc \<and> svc_nextId svc \<le> svc_nextId svc'"

lemma sameControl_lockFree: "sameControl svc svc' \<Longrightarrow> lockFree t svc' = lockFree t svc"
  by (simp add: sameControl_def lockFree_def cong: option.case_cong)

lemma lockInv_frame:
  assumes "svc_turns svc' = svc_turns svc" "svc_conversationTails svc' = svc_conversationTails svc"
  shows "lockInv ids svc' = lockInv ids svc"
proof -
  have "lockFree t svc' = lockFree t svc" for t using assms by (simp add: lockFree_def cong: option.case_cong)
  with assms show ?thesis by (simp add: lockInv_def lockOk_def lockQueue_def cong: list.case_cong)
qed

lemma sameControl_svcInv:
  assumes "sameControl svc svc'" "svcInv svc"
  shows "svcInv svc'"
proof -
  have "lockInv (startedIds svc') svc'"
    using assms by (simp add: svcInv_def sameControl_def startedIds_def lockInv_frame [of svc' svc])
  with assms show ?thesis
    by (auto simp: svcInv_def sameControl_def taskInv_def runInv_def scheduledTurns_def Let_def
        intro: less_le_trans)
qed

section \<open>Tasks that start\<close>

lemma lockQueue_begin:
  assumes "taskId task \<notin> fst ` set (svc_turns svc)"
  shows "lockQueue K (beginTurn task svc) = lockQueue K svc @
    (if K = lockKey (st_context (execute task))
     then [freshTurn (execute task) (map_get (svc_conversationTails svc) K)] else [])"
  using assms
  by (auto simp: lockQueue_def beginTurn_def Let_def map_set_absent taskId_def map_values_def inQueue_def freshTurn_def)

lemma chain_snoc:
  "chain p (ts @ [t]) \<longleftrightarrow> chain p ts \<and> turn_await t = LockWait \<and>
     turn_previous t = Some (if ts = [] then p else turn_id (last ts))"
  by (induction p ts rule: chain.induct) auto

lemma beginTurn_lockInv:
  assumes inv: "lockInv ids svc" and new: "taskId task \<notin> ids"
  shows "lockInv (insert (taskId task) ids) (beginTurn task svc)"
proof -
  let ?svc = "beginTurn task svc" and ?i = "taskId task" and ?K = "lockKey (st_context (execute task))"
  let ?t = "freshTurn (execute task) (map_get (svc_conversationTails svc) ?K)"
  have fresh: "?i \<notin> fst ` set (svc_turns svc)" using inv new by (force simp: lockInv_def)
  have turns: "svc_turns ?svc = svc_turns svc @ [(?i, ?t)]"
    using fresh by (simp add: beginTurn_def Let_def map_set_absent taskId_def)
  have tails: "map_get (svc_conversationTails ?svc) K =
      (if K = ?K then Some ?i else map_get (svc_conversationTails svc) K)" for K
    by (simp add: beginTurn_def Let_def taskId_def)
  have t: "turn_id ?t = ?i" "turn_await ?t = LockWait" by (simp_all add: freshTurn_def taskId_def)
  have free: "lockFree u ?svc" if "lockFree u svc" "\<And>p. turn_previous u = Some p \<Longrightarrow> p \<in> ids" for u
    using that new fresh by (auto simp: lockFree_def turns map_add_def map_of_append split: option.splits)
  have prev: "p \<in> ids" if "u \<in> set (lockQueue K svc)" "turn_previous u = Some p" for u p K
    using that lockInv_turn(3) [OF inv] in_turns [OF inv] by (auto simp: lockQueue_member)
  have "lockOk K ?svc" for K
  proof (rule lockOk_cases [OF lockInvD(2) [OF inv, of K]])
    assume q: "lockQueue K svc = []" "map_get (svc_conversationTails svc) K = None"
    then show ?thesis
      using lockQueue_begin [OF fresh, of K] t by (auto simp: lockOk_def tails lockFree_def freshTurn_def)
  next
    fix h ts
    assume q: "lockQueue K svc = h # ts" "chain (turn_id h) ts" "lockFree h svc"
      "map_get (svc_conversationTails svc) K = Some (turn_id (last (h # ts)))"
    have "lockFree h ?svc" by (rule free [OF q(3) prev [of h K]]) (use q(1) in auto)
    with q show ?thesis
      using lockQueue_begin [OF fresh, of K] t
      by (auto simp: lockOk_def tails chain_snoc freshTurn_def split: if_splits)
  qed
  moreover have "turn_previous ?t = Some p \<Longrightarrow> p \<in> ids" for p
  proof (rule lockOk_cases [OF lockInvD(2) [OF inv, of ?K]])
    fix h ts
    assume p: "turn_previous ?t = Some p" and q: "lockQueue ?K svc = h # ts"
      "map_get (svc_conversationTails svc) ?K = Some (turn_id (last (h # ts)))"
    have "last (lockQueue ?K svc) \<in> set (lockQueue ?K svc)" by (rule last_in_set) (simp add: q(1))
    then have "last (lockQueue ?K svc) \<in> set (map_values (svc_turns svc))" unfolding lockQueue_member by simp
    then have "map_get (svc_turns svc) (turn_id (last (h # ts))) = Some (last (h # ts))"
      unfolding in_turns [OF inv] q(1) .
    from lockInv_turn(2) [OF inv this] p q(2) show "p \<in> ids" by (simp add: freshTurn_def split: if_splits)
  qed (simp add: freshTurn_def)
  ultimately show ?thesis
    using inv fresh t(1) unfolding lockInv_def turns by auto
qed

lemma beginTurn_sel [simp]:
  "svc_scheduler (beginTurn task svc) = svc_scheduler svc"
  "svc_scheduledRuns (beginTurn task svc) = svc_scheduledRuns svc"
  "svc_nextId (beginTurn task svc) = svc_nextId svc"
  "svc_store (beginTurn task svc) = svc_store svc"
  by (simp_all add: beginTurn_def Let_def)

lemma fold_beginTurn:
  assumes "lockInv ids svc" "distinct (map taskId new)" "ids \<inter> set (map taskId new) = {}"
    "\<forall>task \<in> set new. tenantKey task = tenantExecutionScopeKey (st_context (execute task))"
  shows "lockInv (ids \<union> set (map taskId new)) (fold beginTurn new svc) \<and>
    (\<exists>ts. map_values (svc_turns (fold beginTurn new svc)) = map_values (svc_turns svc) @ ts \<and>
      map turnTask ts = new \<and> map turnRun ts = map taskRun new \<and> (\<forall>t \<in> set ts. turn_await t = LockWait))"
  using assms
proof (induction new arbitrary: ids svc)
  case (Cons task new)
  let ?svc = "beginTurn task svc"
  let ?t = "freshTurn (execute task) (map_get (svc_conversationTails svc) (lockKey (st_context (execute task))))"
  have "lockInv (insert (taskId task) ids) ?svc" using Cons.prems by (intro beginTurn_lockInv) auto
  moreover have "insert (taskId task) ids \<inter> set (map taskId new) = {}" using Cons.prems(2,3) by auto
  ultimately obtain ts where inv: "lockInv (insert (taskId task) ids \<union> set (map taskId new)) (fold beginTurn new ?svc)"
    and ts: "map_values (svc_turns (fold beginTurn new ?svc)) = map_values (svc_turns ?svc) @ ts"
      "map turnTask ts = new" "map turnRun ts = map taskRun new" "\<forall>t \<in> set ts. turn_await t = LockWait"
    using Cons.prems(2,4) Cons.IH [of "insert (taskId task) ids" ?svc] by auto
  have "taskId task \<notin> fst ` set (svc_turns svc)" using Cons.prems(1,3) by (force simp: lockInv_def)
  then have "map_values (svc_turns ?svc) = map_values (svc_turns svc) @ [?t]"
    by (simp add: beginTurn_def Let_def map_set_absent taskId_def map_values_def)
  moreover have "turnTask ?t = task" "turnRun ?t = taskRun task" "turn_await ?t = LockWait"
    using Cons.prems(4) by (simp_all add: freshTurn_def turnTask_def turnRun_def taskRun_def)
  ultimately have vals: "map_values (svc_turns (fold beginTurn (task # new) svc)) = map_values (svc_turns svc) @ ?t # ts \<and>
      map turnTask (?t # ts) = task # new \<and> map turnRun (?t # ts) = map taskRun (task # new) \<and>
      (\<forall>t \<in> set (?t # ts). turn_await t = LockWait)"
    using ts by simp
  have "lockInv (ids \<union> set (map taskId (task # new))) (fold beginTurn (task # new) svc)" using inv by simp
  then show ?case using vals by (rule conjI [OF _ exI])
qed simp

lemma fold_beginTurn_sel [simp]:
  "svc_scheduler (fold beginTurn new svc) = svc_scheduler svc"
  "svc_scheduledRuns (fold beginTurn new svc) = svc_scheduledRuns svc"
  "svc_nextId (fold beginTurn new svc) = svc_nextId svc"
  "svc_store (fold beginTurn new svc) = svc_store svc"
  by (induction new arbitrary: svc) simp_all


text \<open>
  Starting tasks that the scheduler moved from its queues to the tasks in flight keeps the
  invariant; before they start, the turns match the tasks in flight less the new ones.
\<close>

lemma launch_inv:
  assumes lock: "lockInv (startedIds svc) svc"
    and s': "sched_inv s'" "started s' = started (svc_scheduler svc) @ new"
    and once: "\<forall>i. count (image_mset taskId (mset (started s') + queuedTasks s')) i \<le> 1"
    and tasks: "\<forall>task \<in># mset (started s') + queuedTasks s'. taskId task < svc_nextId svc \<and>
      tenantKey task = tenantExecutionScopeKey (st_context (execute task))"
    and run: "mset (running s') \<subseteq># mset (started s')"
      "mset (running s') = mset (map turnTask (map_values (svc_turns svc))) + mset new"
    and runs: "distinct (svc_scheduledRuns svc)"
      "mset (svc_scheduledRuns svc) =
        image_mset taskRun (mset new + queuedTasks s') + mset (map turnRun (scheduledTurns svc))"
  shows "svcInv (launch s' svc)"
proof -
  let ?svc = "svc\<lparr>svc_scheduler := s'\<rparr>"
  have launch: "launch s' svc = fold beginTurn new ?svc" using s'(2) by (simp add: launch_def)
  have "\<forall>i. count (mset (map taskId (started s'))) i \<le> 1"
  proof
    fix i
    have "count (mset (map taskId (started s'))) i \<le> count (image_mset taskId (mset (started s') + queuedTasks s')) i"
      by simp
    with once show "count (mset (map taskId (started s'))) i \<le> 1" using order_trans by blast
  qed
  then have "distinct (map taskId (started s'))"
    by (rule distinct_of_count)
  then have d: "distinct (map taskId new)" "startedIds svc \<inter> set (map taskId new) = {}"
    by (auto simp: s'(2) startedIds_def)
  have "lockInv (startedIds svc) ?svc"
    using lock by (simp add: lockInv_frame [of ?svc svc])
  moreover have "\<forall>task \<in> set new. tenantKey task = tenantExecutionScopeKey (st_context (execute task))"
    using tasks s'(2) by auto
  ultimately obtain ts where lock': "lockInv (startedIds svc \<union> set (map taskId new)) (launch s' svc)"
    and ts: "map_values (svc_turns (launch s' svc)) = map_values (svc_turns svc) @ ts"
      "map turnTask ts = new" "map turnRun ts = map taskRun new" "\<forall>t \<in> set ts. turn_await t = LockWait"
    using fold_beginTurn [of "startedIds svc" ?svc new] d by (auto simp: launch)
  have sched: "svc_scheduler (launch s' svc) = s'" "svc_nextId (launch s' svc) = svc_nextId svc"
    "svc_scheduledRuns (launch s' svc) = svc_scheduledRuns svc"
    by (simp_all add: launch)
  have "startedIds (launch s' svc) = startedIds svc \<union> set (map taskId new)"
    by (simp add: startedIds_def sched s'(2) Un_commute)
  moreover have "mset (running s') = mset (map turnTask (map_values (svc_turns (launch s' svc))))"
    by (simp only: run(2) ts(1,2) map_append mset_append)
  then have "taskInv (launch s' svc)"
    using s'(1) once tasks run(1) by (simp only: taskInv_def Let_def sched) blast
  moreover have "scheduledTurns (launch s' svc) = scheduledTurns svc @ ts"
    using ts(1,4) by (simp add: scheduledTurns_def)
  then have "runInv (launch s' svc)"
    using runs by (simp add: runInv_def sched ts(3) mset_map [symmetric] del: mset_map)
  ultimately show ?thesis using lock' by (simp add: svcInv_def)
qed

lemma svcInvD:
  assumes "svcInv svc"
  shows "lockInv (startedIds svc) svc" "sched_inv (svc_scheduler svc)" "distinct (svc_scheduledRuns svc)"
    "mset (running (svc_scheduler svc)) = mset (map turnTask (map_values (svc_turns svc)))"
    "mset (svc_scheduledRuns svc) =
       image_mset taskRun (queuedTasks (svc_scheduler svc)) + mset (map turnRun (scheduledTurns svc))"
  using assms by (simp_all add: svcInv_def taskInv_def runInv_def Let_def)

lemma tenantExecutionScopeKey_nonempty [simp]: "tenantExecutionScopeKey ctx \<noteq> []"
  by (simp add: tenantExecutionScopeKey_def json_stringify_def)

lemma schedule_svcInv:
  assumes inv: "svcInv svc"
  shows "svcInv (schedule ctx runId svc)"
proof (cases "runScopeKey ctx runId \<in> set (svc_scheduledRuns svc)")
  case True
  then show ?thesis using inv by (simp add: schedule_def)
next
  case False
  let ?s = "svc_scheduler svc" and ?n = "svc_nextId svc"
  let ?ex = "\<lparr>st_id = ?n, st_context = ctx, st_runId = runId\<rparr>"
  let ?task = "\<lparr>tenantKey = tenantExecutionScopeKey ctx, execute = ?ex\<rparr>"
  let ?svc = "svc\<lparr>svc_scheduledRuns := svc_scheduledRuns svc @ [runScopeKey ctx runId], svc_nextId := Suc ?n\<rparr>"
  from enqueue_launches [OF svcInvD(2) [OF inv] tenantExecutionScopeKey_nonempty, of ctx ?ex]
  obtain s' new where s': "enqueue (tenantExecutionScopeKey ctx) ?ex ?s = Inr s'" "sched_inv s'"
    "started s' = started ?s @ new" "running s' = running ?s @ new"
    "add_mset ?task (queuedTasks ?s) = mset new + queuedTasks s'" by metis
  have tasks: "mset (started s') + queuedTasks s' = add_mset ?task (mset (started ?s) + queuedTasks ?s)"
    using s'(3,5) by (simp add: ac_simps)
  have old: "\<forall>task \<in># mset (started ?s) + queuedTasks ?s. taskId task < ?n \<and>
      tenantKey task = tenantExecutionScopeKey (st_context (execute task))"
    "\<forall>i. count (image_mset taskId (mset (started ?s) + queuedTasks ?s)) i \<le> 1"
    "mset (running ?s) \<subseteq># mset (started ?s)"
    using inv by (auto simp: svcInv_def taskInv_def Let_def)
  have "svcInv (launch s' ?svc)"
  proof (rule launch_inv)
    show "lockInv (startedIds ?svc) ?svc"
      using svcInvD(1) [OF inv] by (simp add: lockInv_frame [of ?svc svc] startedIds_def)
    have "?n \<notin># image_mset taskId (mset (started ?s) + queuedTasks ?s)" using old(1) by fastforce
    then show "\<forall>i. count (image_mset taskId (mset (started s') + queuedTasks s')) i \<le> 1"
      using old(2) unfolding tasks by (auto simp: taskId_def count_eq_zero_iff simp del: image_mset_union)
    show "\<forall>task \<in># mset (started s') + queuedTasks s'. taskId task < svc_nextId ?svc \<and>
        tenantKey task = tenantExecutionScopeKey (st_context (execute task))"
      unfolding tasks using old(1) by (auto simp: taskId_def less_Suc_eq)
    show "mset (running s') \<subseteq># mset (started s')" using old(3) s'(3,4) by simp
    show "mset (svc_scheduledRuns ?svc) =
        image_mset taskRun (mset new + queuedTasks s') + mset (map turnRun (scheduledTurns ?svc))"
      unfolding s'(5) [symmetric] using svcInvD(5) [OF inv] by (simp add: taskRun_def scheduledTurns_def)
  qed (use s' svcInvD [OF inv] False in simp_all)
  with False s'(1) show ?thesis by (simp add: schedule_def Let_def)
qed

section \<open>Turns that end\<close>

text \<open>The turn whose lock is released was the head of its queue; its successor becomes free.\<close>

lemma releaseLock_lockInv:
  assumes inv: "lockInv ids svc" and t: "map_get (svc_turns svc) i = Some t"
    and await: "\<not> released (turn_await t)" "turn_await t \<noteq> LockWait" and t': "t' = t\<lparr>turn_await := Released\<rparr>"
  shows "lockInv ids (setTurn t' (releaseLock t svc))"
proof -
  let ?K = "lockKey (turn_context t)" and ?svc = "setTurn t' (releaseLock t svc)"
  have id: "turn_id t = i" by (rule lockInv_turn(1) [OF inv t])
  have d: "distinct (map fst (svc_turns svc))" by (rule lockInvD(1) [OF inv])
  from map_split [OF t d] obtain xs ys where
    m: "svc_turns svc = xs @ (i, t) # ys" "map_set i t' (svc_turns svc) = xs @ (i, t') # ys"
    by metis
  have turns: "svc_turns ?svc = map_set i t' (svc_turns svc)"
    by (simp add: setTurn_def releaseLock_def Let_def t' id)
  have "inQueue ?K t" using await by (simp add: inQueue_def)
  with await obtain ts where head: "lockQueue ?K svc = t # ts" using lockQueue_head [OF inv t] by blast
  have queue: "lockQueue K ?svc = (if K = ?K then ts else lockQueue K svc)" for K
  proof (cases "K = ?K")
    case True
    have "filter (inQueue ?K) (map snd xs) = []"
    proof (rule ccontr)
      assume ne: "filter (inQueue ?K) (map snd xs) \<noteq> []"
      have "filter (inQueue ?K) (map snd xs) @ filter (inQueue ?K) (t # map snd ys) = t # ts"
        using head by (simp add: lockQueue_def map_values_def m(1))
      with ne have "hd (filter (inQueue ?K) (map snd xs)) = t" by (metis hd_append2 list.sel(1))
      then have "t \<in> set (map snd xs)" using hd_in_set [OF ne] by auto
      then obtain j where "(j, t) \<in> set xs" by auto
      with inv m(1) id have "j = i" by (auto simp: lockInv_def)
      with d m(1) \<open>(j, t) \<in> set xs\<close> show False by force
    qed
    then show ?thesis
      using True head \<open>inQueue ?K t\<close> unfolding lockQueue_def turns m(2) unfolding m(1)
      by (simp add: map_values_def) (simp add: inQueue_def t')
  next
    case False
    then have "\<not> inQueue K t" "\<not> inQueue K t'" by (auto simp: inQueue_def t')
    with False show ?thesis unfolding lockQueue_def turns m(2) unfolding m(1) by (simp add: map_values_def)
  qed
  have tails: "map_get (svc_conversationTails (releaseLock t svc)) K =
      (if K = ?K \<and> map_get (svc_conversationTails svc) ?K = Some i then None
       else map_get (svc_conversationTails svc) K)" for K
    by (simp add: releaseLock_def Let_def id)
  have mono: "lockFree u ?svc" if "lockFree u svc" for u
    by (rule lockFree_mono [OF that]) (use t in \<open>unfold turns, auto simp: t' split: if_splits\<close>)
  have "lockOk K ?svc" for K
  proof (cases "K = ?K")
    case True
    have ok: "chain i ts" "map_get (svc_conversationTails svc) ?K = Some (turn_id (last (t # ts)))"
      using lockInvD(2) [OF inv, of ?K] by (simp_all add: lockOk_def head id)
    show ?thesis
    proof (cases ts)
      case Nil
      with True ok id show ?thesis by (simp add: lockOk_def queue tails)
    next
      case (Cons u us)
      have "distinct (map turn_id (t # ts))" using lockQueue_ids [OF inv, of ?K] head by simp
      then have "turn_id (last ts) \<noteq> turn_id t" using last_in_set [of ts] Cons by (metis distinct.simps(2) image_eqI list.distinct(1) list.simps(9) set_map)
      moreover have "lockFree u ?svc" using ok(1) Cons unfolding lockFree_def turns by (simp add: t')
      moreover have "chain (turn_id u) us" using ok(1) Cons by simp
      ultimately show ?thesis using True ok(2) Cons id by (simp add: lockOk_def queue tails)
    qed
  next
    case False
    then have "map_get (svc_conversationTails ?svc) K = map_get (svc_conversationTails svc) K" by (simp add: tails)
    with False lockInvD(2) [OF inv, of K] mono show ?thesis
      by (auto simp: lockOk_def queue split: list.splits)
  qed
  moreover have "turn_id u = j \<and> j \<in> ids \<and> (\<forall>p. turn_previous u = Some p \<longrightarrow> p \<in> ids)"
    if "(j, u) \<in> set (xs @ (i, t') # ys)" for j u
    by (rule lockInv_entry [OF inv t, of t']) (use that in \<open>auto simp: m(1) t' sameWait_def\<close>)
  ultimately show ?thesis
    using distinct_keys_set [OF d, of i t'] unfolding lockInv_def turns m(2) by blast
qed

text \<open>Changing only the stage of a turn whose lock is released leaves every queue as it is.\<close>

lemma released_lockInv:
  assumes inv: "lockInv ids svc" and t: "map_get (svc_turns svc) i = Some t" "released (turn_await t)"
    and svc': "svc_conversationTails svc' = svc_conversationTails svc"
      "svc_turns svc' = map_set i t' (svc_turns svc) \<and> released (turn_await t') \<and> sameWait t t' \<or>
       svc_turns svc' = map_delete i (svc_turns svc)"
  shows "lockInv ids svc'"
proof -
  have id: "turn_id t = i" by (rule lockInv_turn(1) [OF inv t(1)])
  have d: "distinct (map fst (svc_turns svc))" by (rule lockInvD(1) [OF inv])
  from map_split [OF t(1) d] obtain xs ys where
    m: "svc_turns svc = xs @ (i, t) # ys" "map_set i t' (svc_turns svc) = xs @ (i, t') # ys"
      "map_delete i (svc_turns svc) = xs @ ys"
    by metis
  have turns: "svc_turns svc' = xs @ (i, t') # ys \<and> released (turn_await t') \<and> sameWait t t' \<or>
      svc_turns svc' = xs @ ys"
    using svc'(2) by (simp only: m(2,3))
  then have queue: "lockQueue K svc' = lockQueue K svc" for K
    using t(2) by (auto simp: lockQueue_def map_values_def m(1) inQueue_def)
  have mono: "lockFree u svc'" if "lockFree u svc" for u
    by (rule lockFree_mono [OF that]) (use svc'(2) t in \<open>auto split: if_splits\<close>)
  have "lockOk K svc'" for K
    using lockInvD(2) [OF inv, of K] mono by (auto simp: lockOk_def queue svc'(1) split: list.splits)
  moreover have "distinct (map fst (svc_turns svc'))" using svc'(2) d by auto
  moreover have "turn_id u = j \<and> j \<in> ids \<and> (\<forall>p. turn_previous u = Some p \<longrightarrow> p \<in> ids)"
    if "(j, u) \<in> set (svc_turns svc')" for j u
    by (rule lockInv_entry [OF inv t(1), of "if svc_turns svc' = xs @ ys then t else t'"])
      (use that turns in \<open>auto simp: m(1) sameWait_def\<close>)
  ultimately show ?thesis by (auto simp: lockInv_def)
qed

lemma turnRun_scheduled:
  assumes "svcInv svc" "map_get (svc_turns svc) i = Some t" "turn_await t \<noteq> Unscheduled"
  shows "turnRun t \<in> set (svc_scheduledRuns svc)"
proof -
  have "t \<in> set (map_values (svc_turns svc))"
    using assms(2) lockInv_turn(1) [OF svcInvD(1) [OF assms(1)] assms(2)]
    by (simp add: in_turns [OF svcInvD(1) [OF assms(1)]])
  then have "turnRun t \<in># mset (map turnRun (scheduledTurns svc))" using assms(3) by (auto simp: scheduledTurns_def)
  then have "turnRun t \<in># mset (svc_scheduledRuns svc)" unfolding svcInvD(5) [OF assms(1)] by simp
  then show ?thesis by simp
qed

lemma release_svcInv:
  assumes inv: "svcInv svc" and t: "map_get (svc_turns svc) i = Some t" "turn_await t = Returned"
  shows "svcInv (commit (t\<lparr>turn_await := Released\<rparr>, releaseLock t svc))"
proof -
  let ?t = "t\<lparr>turn_await := Released\<rparr>" and ?svc = "setTurn (t\<lparr>turn_await := Released\<rparr>) (releaseLock t svc)"
  have sel: "svc_scheduler (releaseLock t svc) = svc_scheduler svc" "svc_turns (releaseLock t svc) = svc_turns svc"
    "svc_scheduledRuns (releaseLock t svc) = svc_scheduledRuns svc" "svc_nextId (releaseLock t svc) = svc_nextId svc"
    by (simp_all add: releaseLock_def Let_def)
  note lock = svcInvD(1) [OF inv]
  have "taskInv ?svc = taskInv svc" "runInv ?svc = runInv svc"
    by (rule replaced_control [OF lock t(1), of ?t]; simp add: sameWait_def t(2) sel setTurn_def)+
  moreover have "lockInv (startedIds ?svc) ?svc"
    using releaseLock_lockInv [OF lock t(1)] t(2) by (simp add: startedIds_def sel)
  ultimately show ?thesis using inv by (simp add: svcInv_def commit_def)
qed

lemma unschedule_svcInv:
  assumes inv: "svcInv svc" and t: "map_get (svc_turns svc) i = Some t" "turn_await t = Released"
  shows "svcInv (commit (t\<lparr>turn_await := Unscheduled\<rparr>, unschedule t svc))"
proof -
  let ?t = "t\<lparr>turn_await := Unscheduled\<rparr>"
  let ?svc = "setTurn ?t (unschedule t svc)"
  note lock = svcInvD(1) [OF inv]
  have id: "turn_id t = i" by (rule lockInv_turn(1) [OF lock t(1)])
  have sel: "svc_scheduler (unschedule t svc) = svc_scheduler svc" "svc_turns (unschedule t svc) = svc_turns svc"
    "svc_nextId (unschedule t svc) = svc_nextId svc"
    "svc_scheduledRuns (unschedule t svc) = removeAll (turnRun t) (svc_scheduledRuns svc)"
    "svc_conversationTails (unschedule t svc) = svc_conversationTails svc"
    by (simp_all add: unschedule_def turnRun_def)
  have turns: "svc_turns ?svc = map_set i ?t (svc_turns svc)" by (simp add: setTurn_def id sel)
  from map_split [OF t(1) lockInvD(1) [OF lock]] obtain xs ys where
    m: "svc_turns svc = xs @ (i, t) # ys" "map_set i ?t (svc_turns svc) = xs @ (i, ?t) # ys"
    by metis
  have "lockInv (startedIds ?svc) ?svc"
    using released_lockInv [OF lock t(1), of ?svc ?t] t(2) turns
    by (simp add: sel startedIds_def sameWait_def)
  moreover have "turnTask ?t = turnTask t" by (simp add: turnTask_def)
  then have "map turnTask (map_values (svc_turns ?svc)) = map turnTask (map_values (svc_turns svc))"
    unfolding turns m(2) unfolding m(1) by (simp add: map_values_def)
  then have "taskInv ?svc = taskInv svc" by (simp only: taskInv_def setTurn_sel sel)
  moreover have "runInv ?svc"
  proof -
    have "mset (map turnRun (scheduledTurns svc)) = add_mset (turnRun t) (mset (map turnRun (scheduledTurns ?svc)))"
      unfolding scheduledTurns_def turns m(2) unfolding m(1) using t(2) by (simp add: map_values_def)
    then have "mset (svc_scheduledRuns svc) = add_mset (turnRun t)
        (image_mset taskRun (queuedTasks (svc_scheduler svc)) + mset (map turnRun (scheduledTurns ?svc)))"
      using svcInvD(5) [OF inv] by simp
    moreover have "remove1 (turnRun t) (svc_scheduledRuns svc) = removeAll (turnRun t) (svc_scheduledRuns svc)"
      using svcInvD(3) [OF inv] by (rule distinct_remove1_removeAll)
    then have "mset (removeAll (turnRun t) (svc_scheduledRuns svc)) = mset (svc_scheduledRuns svc) - {#turnRun t#}"
      by (metis mset_remove1)
    ultimately show ?thesis using svcInvD(3) [OF inv] by (simp add: runInv_def sel distinct_removeAll)
  qed
  ultimately show ?thesis using inv by (simp add: svcInv_def commit_def)
qed

lemma settle_svcInv:
  assumes inv: "svcInv svc" and t: "map_get (svc_turns svc) i = Some t" "turn_await t = Unscheduled"
  shows "svcInv (settleTurn t svc)"
proof -
  let ?s = "svc_scheduler svc" and ?svc = "svc\<lparr>svc_turns := map_delete (turn_id t) (svc_turns svc)\<rparr>"
  note lock = svcInvD(1) [OF inv]
  have id: "turn_id t = i" by (rule lockInv_turn(1) [OF lock t(1)])
  from map_split [OF t(1) lockInvD(1) [OF lock]] obtain xs ys where
    m: "svc_turns svc = xs @ (i, t) # ys" "map_delete i (svc_turns svc) = xs @ ys"
    by metis
  have vals: "mset (map turnTask (map_values (svc_turns svc))) =
      add_mset (turnTask t) (mset (map turnTask (map_values (svc_turns ?svc))))"
    "scheduledTurns ?svc = scheduledTurns svc"
    using m t(2) id by (simp_all add: scheduledTurns_def map_values_def)
  have "turnTask t \<in># mset (running ?s)" unfolding svcInvD(4) [OF inv] vals(1) by simp
  then have "turnTask t \<in> set (running ?s)" by simp
  from taskSettled_launches [OF svcInvD(2) [OF inv] this] obtain new where
    s': "sched_inv (taskSettled (turnTask t) ?s)" "started (taskSettled (turnTask t) ?s) = started ?s @ new"
      "running (taskSettled (turnTask t) ?s) = remove1 (turnTask t) (running ?s) @ new"
      "queuedTasks ?s = mset new + queuedTasks (taskSettled (turnTask t) ?s)"
    by metis
  let ?s' = "taskSettled (turnTask t) ?s"
  have tasks: "mset (started ?s') + queuedTasks ?s' = mset (started ?s) + queuedTasks ?s"
    using s'(2,4) by (simp add: ac_simps)
  have old: "\<forall>task \<in># mset (started ?s) + queuedTasks ?s. taskId task < svc_nextId svc \<and>
      tenantKey task = tenantExecutionScopeKey (st_context (execute task))"
    "\<forall>i. count (image_mset taskId (mset (started ?s) + queuedTasks ?s)) i \<le> 1"
    "mset (running ?s) \<subseteq># mset (started ?s)"
    using inv by (auto simp: svcInv_def taskInv_def Let_def)
  have "svcInv (launch ?s' ?svc)"
  proof (rule launch_inv)
    show "lockInv (startedIds ?svc) ?svc"
      using released_lockInv [OF lock t(1), of ?svc] t(2) by (simp add: startedIds_def id)
    show "\<forall>i. count (image_mset taskId (mset (started ?s') + queuedTasks ?s')) i \<le> 1"
      unfolding tasks by (rule old(2))
    show "\<forall>task \<in># mset (started ?s') + queuedTasks ?s'. taskId task < svc_nextId ?svc \<and>
        tenantKey task = tenantExecutionScopeKey (st_context (execute task))"
      unfolding tasks using old(1) by simp
    show "mset (running ?s') \<subseteq># mset (started ?s')"
      using old(3) unfolding s'(2,3) by (simp add: subset_eq_diff_conv add.commute) (metis add_mset_add_single mset_subset_eq_add_left subset_mset.order_trans)
    show "mset (running ?s') = mset (map turnTask (map_values (svc_turns ?svc))) + mset new"
      using svcInvD(4) [OF inv] vals(1) unfolding s'(3) by simp
    show "mset (svc_scheduledRuns ?svc) =
        image_mset taskRun (mset new + queuedTasks ?s') + mset (map turnRun (scheduledTurns ?svc))"
      using svcInvD(5) [OF inv] unfolding s'(4) [symmetric] vals(2) by simp
  qed (use s' svcInvD(3) [OF inv] in simp_all)
  then show ?thesis by (simp add: settleTurn_def)
qed

end
