(* ===== verification/Service_Properties.thy ===== *)
theory Service_Properties
  imports Service_Invariant
begin

text \<open>
  Properties of the runtime service: every step keeps the control invariant and is at most one
  operation on the store, so what is proved of the scheduler and of the store holds of the service
  that composes them.
\<close>

section \<open>Steps keep the invariant\<close>

text \<open>What a step may do to the store: nothing, or one of its operations.\<close>

definition storeMove :: "store \<Rightarrow> store \<Rightarrow> bool" where
  "storeMove s s' \<longleftrightarrow> s' = s \<or> (\<exists>op. freshOp op s \<and> s' = storeStep op s)"

lemma storeMove_refl [simp]: "storeMove s s"
  by (simp add: storeMove_def)

lemma storeMoveI: "freshOp op s \<Longrightarrow> s' = storeStep op s \<Longrightarrow> storeMove s s'"
  by (auto simp: storeMove_def)

definition segmentOk :: "turn \<Rightarrow> service \<Rightarrow> segment \<Rightarrow> bool" where
  "segmentOk t svc r \<longleftrightarrow>
     sameControl svc (snd r) \<and> sameWait t (fst r) \<and> \<not> released (turn_await (fst r)) \<and>
     storeMove (svc_store svc) (svc_store (snd r))"

named_theorems segments \<open>segments of a turn that keep to the turn's own state\<close>

lemma clearProviderConfig_frame [simp]:
  "svc_store (clearProviderConfig key svc) = svc_store svc"
  "svc_scheduler (clearProviderConfig key svc) = svc_scheduler svc"
  "svc_turns (clearProviderConfig key svc) = svc_turns svc"
  "svc_conversationTails (clearProviderConfig key svc) = svc_conversationTails svc"
  "svc_scheduledRuns (clearProviderConfig key svc) = svc_scheduledRuns svc"
  "svc_nextId (clearProviderConfig key svc) = svc_nextId svc"
  by (simp_all add: clearProviderConfig_def Let_def split: option.split)

lemma sameControl_refl [simp]: "sameControl svc svc"
  by (simp add: sameControl_def)

lemma sameControl_trans: "sameControl a b \<Longrightarrow> sameControl b c \<Longrightarrow> sameControl a c"
  by (simp add: sameControl_def)

lemma appendTurnEvent_frame:
  "sameControl svc (snd (appendTurnEvent t message inp svc))"
  "storeMove (svc_store svc) (svc_store (snd (appendTurnEvent t message inp svc)))"
proof -
  let ?op = "OpAppendEvent (executionContext t) (turnConversation t) message (si_now inp) (si_eventId inp)"
  have "svc_store (snd (appendTurnEvent t message inp svc)) = storeStep ?op (svc_store svc)"
    by (simp add: appendTurnEvent_def split: prod.split sum.split)
  then show "storeMove (svc_store svc) (svc_store (snd (appendTurnEvent t message inp svc)))"
    by (intro storeMoveI [of ?op]) simp_all
qed (simp add: appendTurnEvent_def sameControl_def split: prod.split sum.split)

lemma report_ok:
  assumes "\<And>e. \<not> released (state e)" "sameWait t t'" "sameControl svc svc'" "svc_store svc' = svc_store svc"
  shows "segmentOk t svc (report state message inp t' svc')"
  using appendTurnEvent_frame [of svc' t' message inp] assms
  by (auto simp: segmentOk_def report_def sameWait_def split: prod.splits intro: sameControl_trans)

lemma reportActivity_ok:
  assumes "\<And>e. \<not> released (state e)" "sameWait t t'" "sameControl svc svc'" "svc_store svc' = svc_store svc"
  shows "segmentOk t svc (reportActivity state phase reason extra inp t' svc')"
  unfolding reportActivity_def Let_def using assms by (intro report_ok) (simp_all add: sameWait_def)

lemma sameWait_update [simp]:
  "sameWait t (t\<lparr>turn_await := a\<rparr>)" "sameWait t t"
  by (simp_all add: sameWait_def)

lemma enterFinally_ok [segments]: "segmentOk t svc (enterFinally t svc)"
  by (simp add: segmentOk_def enterFinally_def Let_def sameWait_def sameControl_def)

lemma enterCatch_ok [segments]: "segmentOk t svc (enterCatch e t svc)"
  by (simp add: segmentOk_def enterCatch_def)

lemma orCatch_ok: "segmentOk t svc r \<Longrightarrow> segmentOk t svc (orCatch e inp t svc r)"
  by (simp add: orCatch_def enterCatch_ok split: option.split)

text \<open>A segment that calls one store operation and then waits for its result.\<close>

lemma storeCall_ok:
  assumes "freshOp op (svc_store svc)" "storeStep op (svc_store svc) = snd r" "sameWait t t'"
    "\<And>x. \<not> released (state x)"
  shows "segmentOk t svc (case r of (x, s) \<Rightarrow> (t'\<lparr>turn_await := state x\<rparr>, svc\<lparr>svc_store := s\<rparr>))"
proof -
  have "storeMove (svc_store svc) (snd r)" by (rule storeMoveI [OF assms(1) assms(2) [symmetric]])
  with assms(3,4) show ?thesis by (cases r) (simp add: segmentOk_def sameControl_def sameWait_def)
qed

lemma afterCurrentRun_ok [segments]: "segmentOk t svc (afterCurrentRun e r inp t svc)"
proof -
  let ?f = "\<lparr>fin_errorCode = failureCode t, fin_errorMessage = errorMessageOf e, fin_leaseOwner = turn_leaseOwner t\<rparr>"
  show ?thesis
    unfolding afterCurrentRun_def
    by (auto split: sum.split simp: enterFinally_ok
        intro!: storeCall_ok [of "OpFail (executionContext t) (turn_runId t) ?f (si_now inp)"])
qed

lemma afterFail_ok [segments]: "segmentOk t svc (afterFail e r inp t svc)"
  by (auto simp: afterFail_def enterFinally_ok sameWait_def intro!: report_ok split: sum.split)

lemma claimTurn_ok [segments]: "segmentOk t svc (claimTurn inp t svc)"
proof -
  let ?lo = "svc_workerId svc @ '':'' @ si_uuid inp"
  show ?thesis
    unfolding claimTurn_def Let_def
    using storeCall_ok [of "OpClaim (turn_context t) (turn_runId t) ?lo (si_now inp + svc_leaseDurationMs svc) (si_now inp)"
        svc _ t "t\<lparr>turn_leaseOwner := ?lo\<rparr>" ClaimWait]
    by (simp add: sameWait_def)
qed

lemma afterClaim_ok [segments]: "segmentOk t svc (afterClaim r inp t svc)"
proof (cases r)
  case (Inr c)
  show ?thesis
  proof (cases c)
    case None
    with Inr show ?thesis by (simp add: afterClaim_def segmentOk_def sameControl_def)
  next
    case (Some cl)
    with Inr show ?thesis
      by (auto simp: afterClaim_def Let_def sameWait_def sameControl_def intro!: report_ok)
  qed
qed (simp add: afterClaim_def segmentOk_def)

lemma callExecutor_ok [segments]: "segmentOk t svc (callExecutor grant t svc)"
  by (simp add: callExecutor_def Let_def segmentOk_def)

lemma afterTurnStart_ok [segments]: "segmentOk t svc (afterTurnStart e inp t svc)"
  unfolding afterTurnStart_def by (intro orCatch_ok report_ok) simp_all

lemma afterThinking_ok [segments]: "segmentOk t svc (afterThinking e inp t svc)"
  unfolding afterThinking_def
  by (intro orCatch_ok) (simp add: callExecutor_ok segmentOk_def [of t svc "(_, svc)"] split: option.split)

lemma afterGrant_ok [segments]: "segmentOk t svc (afterGrant r inp t svc)"
  by (simp add: afterGrant_def enterCatch_ok callExecutor_ok split: sum.split)

lemma onTextDelta_ok [segments]: "segmentOk t svc (onTextDelta call text inp t svc)"
  unfolding onTextDelta_def by (auto intro!: report_ok reportActivity_ok simp: sameWait_def)

lemma afterFirstDelta_ok [segments]: "segmentOk t svc (afterFirstDelta call text e inp t svc)"
  by (auto simp: afterFirstDelta_def segmentOk_def [of t svc "(_, svc)"] intro!: report_ok split: option.split)

lemma afterDispatch_ok [segments]: "segmentOk t svc (afterDispatch r inp t svc)"
  by (auto simp: afterDispatch_def enterCatch_ok sameWait_def intro!: reportActivity_ok split: sum.split)

lemma afterComplete_ok [segments]: "segmentOk t svc (afterComplete r inp t svc)"
  by (auto simp: afterComplete_def enterCatch_ok sameWait_def intro!: report_ok split: sum.split)

lemma afterCompleteEvent_ok [segments]: "segmentOk t svc (afterCompleteEvent e inp t svc)"
  unfolding afterCompleteEvent_def by (intro orCatch_ok reportActivity_ok) simp_all

lemma completeTurn_ok:
  assumes "\<not> messageIdUsed (turn_assistantMessageId t) (svc_store svc)"
  shows "segmentOk t svc (completeTurn content inp t svc)"
  unfolding completeTurn_def
  by (rule storeCall_ok [of "OpComplete (executionContext t) (turn_runId t)
      \<lparr>cin_assistantMessageId = turn_assistantMessageId t, cin_content = content,
       cin_leaseOwner = turn_leaseOwner t\<rparr> (si_now inp)"]) (use assms in simp_all)

definition freshActionId :: "string \<Rightarrow> store \<Rightarrow> bool" where
  "freshActionId i s \<longleftrightarrow> i \<noteq> [] \<and> i \<notin> set (map act_actionId (map_values (browserActions s)))"

lemma dispatchTurn_ok:
  assumes "freshActionId (si_uuid inp) (svc_store svc)"
  shows "segmentOk t svc (dispatchTurn sha newURL tu operation content config inp t svc)"
proof -
  let ?in = "\<lparr>din_conversationId = turnConversation t, din_runId = turn_runId t, din_toolUseId = tu,
    din_operation = operation, din_leaseOwner = Some (turn_leaseOwner t), din_providerContent = Some content,
    din_executionConfig = Some config\<rparr>"
  have "segmentOk t svc (case brokerDispatch sha newURL broker (executionContext t) ?in (si_now inp)
      (si_uuid inp) (si_eventId inp) (svc_store svc) of
        (r, s) \<Rightarrow> (t\<lparr>turn_await := DispatchWait r\<rparr>, svc\<lparr>svc_store := s\<rparr>))" for broker
  proof (cases "validateOperation newURL (set (allowedOrigins broker)) operation")
    case None
    then show ?thesis
      using assms
      by (intro storeCall_ok [of "OpEnqueue (executionContext t) (dispatchInput sha broker ?in (si_now inp) (si_uuid inp))
            (si_now inp) (si_eventId inp)"])
        (simp_all add: brokerDispatch_def dispatchInput_def freshActionId_def)
  next
    case (Some e)
    then show ?thesis by (simp add: brokerDispatch_def segmentOk_def sameControl_def)
  qed
  then show ?thesis by (simp add: dispatchTurn_def enterCatch_ok split: option.split)
qed

lemma afterExecute_ok:
  assumes "\<not> messageIdUsed (turn_assistantMessageId t) (svc_store svc)" "freshActionId (si_uuid inp) (svc_store svc)"
  shows "segmentOk t svc (afterExecute sha newURL answer inp t svc)"
  using assms
  by (simp add: afterExecute_def enterCatch_ok completeTurn_ok dispatchTurn_ok
      split: sum.split turnExecution.split)

definition slotBounds :: "service \<Rightarrow> int \<times> int" where
  "slotBounds svc = (maxConcurrent (svc_scheduler svc), maxConcurrentPerTenant (svc_scheduler svc))"

definition stepOk :: "service \<Rightarrow> service \<Rightarrow> bool" where
  "stepOk svc svc' \<longleftrightarrow> svcInv svc' \<and> storeMove (svc_store svc) (svc_store svc') \<and> slotBounds svc' = slotBounds svc"

text \<open>Committing such a segment of a turn that is past the lock, or free to pass it.\<close>

lemma commit_ok:
  assumes "svcInv svc" "map_get (svc_turns svc) i = Some t" "segmentOk t svc r" "\<not> released (turn_await t)"
    "turn_await t \<noteq> LockWait \<or> lockFree t svc"
  shows "stepOk svc (commit r)"
proof -
  obtain t' svc' where r: "r = (t', svc')" by fastforce
  with assms(3) have ok: "sameControl svc svc'" "sameWait t t'" "\<not> released (turn_await t')"
    "storeMove (svc_store svc) (svc_store svc')"
    by (simp_all add: segmentOk_def)
  have "svcInv svc'" using ok(1) assms(1) by (rule sameControl_svcInv)
  moreover have "map_get (svc_turns svc') i = Some t" using ok(1) assms(2) by (simp add: sameControl_def)
  moreover have "mayMove t t' svc'"
    using ok assms(4,5) by (simp add: mayMove_def sameControl_lockFree [OF ok(1)])
  ultimately have "svcInv (setTurn t' svc')" by (rule setTurn_svcInv)
  with ok show ?thesis by (simp add: r commit_def stepOk_def slotBounds_def sameControl_def)
qed

section \<open>The step theorem\<close>

lemma schedule_store [simp]: "svc_store (schedule ctx runId svc) = svc_store svc"
  by (simp add: schedule_def launch_def Let_def split: sum.split)

lemma settleTurn_store [simp]: "svc_store (settleTurn t svc) = svc_store svc"
  by (simp add: settleTurn_def launch_def Let_def)

lemma drain_bounds [simp]:
  "maxConcurrent (drain s) = maxConcurrent s" "maxConcurrentPerTenant (drain s) = maxConcurrentPerTenant s"
  by (simp_all add: drain_def notifyIdle_def)

lemma schedule_bounds [simp]: "slotBounds (schedule ctx runId svc) = slotBounds svc"
  by (simp add: schedule_def launch_def Let_def slotBounds_def enqueue_pushTask)

lemma settleTurn_bounds [simp]: "slotBounds (settleTurn t svc) = slotBounds svc"
  by (simp add: settleTurn_def launch_def Let_def slotBounds_def taskSettled_def notifyIdle_def)

lemma frame_bounds [simp]:
  "slotBounds (setTurn t svc) = slotBounds svc" "slotBounds (setRequest i r svc) = slotBounds svc"
  "slotBounds (releaseLock t svc) = slotBounds svc" "slotBounds (unschedule t svc) = slotBounds svc"
  by (simp_all add: slotBounds_def setRequest_def releaseLock_def unschedule_def Let_def)

text \<open>Scheduling another run leaves a turn as it is.\<close>

lemma fold_beginTurn_get:
  "i \<notin> set (map taskId new) \<Longrightarrow> map_get (svc_turns (fold beginTurn new svc)) i = map_get (svc_turns svc) i"
  by (induction new arbitrary: svc) (auto simp: beginTurn_def Let_def taskId_def)

lemma started_not_queued:
  assumes inv: "svcInv svc" and task: "task \<in># queuedTasks (svc_scheduler svc)"
  shows "taskId task \<notin> startedIds svc"
proof
  let ?s = "svc_scheduler svc" and ?i = "taskId task"
  assume "?i \<in> startedIds svc"
  then have "?i \<in># image_mset taskId (mset (started ?s))" by (simp add: startedIds_def)
  then have "1 \<le> count (image_mset taskId (mset (started ?s))) ?i" unfolding count_greater_eq_one_iff .
  moreover have "?i \<in># image_mset taskId (queuedTasks ?s)" using task by simp
  then have "1 \<le> count (image_mset taskId (queuedTasks ?s)) ?i" unfolding count_greater_eq_one_iff .
  moreover have "count (image_mset taskId (mset (started ?s) + queuedTasks ?s)) ?i \<le> 1"
    using inv by (simp add: svcInv_def taskInv_def Let_def)
  ultimately show False unfolding image_mset_union count_union by linarith
qed

lemma started_below:
  assumes "svcInv svc" "i \<in> startedIds svc"
  shows "i < svc_nextId svc"
  using assms by (auto simp: svcInv_def taskInv_def Let_def startedIds_def)

lemma schedule_turn:
  assumes inv: "svcInv svc" and t: "map_get (svc_turns svc) i = Some t"
  shows "map_get (svc_turns (schedule ctx runId svc)) i = Some t"
proof -
  let ?s = "svc_scheduler svc"
  let ?ex = "\<lparr>st_id = svc_nextId svc, st_context = ctx, st_runId = runId\<rparr>"
  let ?task = "\<lparr>tenantKey = tenantExecutionScopeKey ctx, execute = ?ex\<rparr>"
  have i: "i \<in> startedIds svc" by (rule lockInv_turn(2) [OF svcInvD(1) [OF inv] t])
  from enqueue_launches [OF svcInvD(2) [OF inv] tenantExecutionScopeKey_nonempty, of ctx ?ex]
  obtain s' new where s': "enqueue (tenantExecutionScopeKey ctx) ?ex ?s = Inr s'" "started s' = started ?s @ new"
    "add_mset ?task (queuedTasks ?s) = mset new + queuedTasks s'" by metis
  have "i \<notin> set (map taskId new)"
  proof
    assume "i \<in> set (map taskId new)"
    then obtain task where task: "task \<in> set new" "taskId task = i" by auto
    then have "task \<in># add_mset ?task (queuedTasks ?s)" unfolding s'(3) by simp
    moreover have "taskId ?task \<noteq> i" using started_below [OF inv i] by (simp add: taskId_def)
    ultimately show False using task(2) i started_not_queued [OF inv] by auto
  qed
  then show ?thesis
    using s' t by (simp add: schedule_def Let_def launch_def fold_beginTurn_get)
qed

lemma scheduleNext_ok:
  assumes inv: "svcInv svc" and t: "map_get (svc_turns svc) i = Some t"
  shows "svcInv (scheduleNext r t svc)" "map_get (svc_turns (scheduleNext r t svc)) i = Some t"
    "svc_store (scheduleNext r t svc) = svc_store svc" "slotBounds (scheduleNext r t svc) = slotBounds svc"
  using schedule_svcInv [OF inv] schedule_turn [OF inv t] inv t
  by (auto simp: scheduleNext_def split: sum.split option.split)

lemma continueTurn_ok:
  assumes inv: "svcInv svc" and t: "map_get (svc_turns svc) i = Some t"
  shows "stepOk svc (continueTurn inp t svc)"
proof (cases "turn_await t")
  case LockWait
  then show ?thesis
    using commit_ok [OF inv t claimTurn_ok] inv by (simp add: continueTurn_def stepOk_def)
next
  case (NextRunWait r)
  note nxt = scheduleNext_ok [OF inv t, of r]
  have "segmentOk t (scheduleNext r t svc) (t\<lparr>turn_await := Returned\<rparr>, scheduleNext r t svc)"
    by (simp add: segmentOk_def)
  from commit_ok [OF nxt(1,2) this] NextRunWait nxt(3,4) show ?thesis
    by (simp add: continueTurn_def stepOk_def)
next
  case Returned
  have "svc_store (releaseLock t svc) = svc_store svc" by (simp add: releaseLock_def Let_def)
  with release_svcInv [OF inv t Returned] Returned show ?thesis
    by (simp add: continueTurn_def stepOk_def commit_def)
next
  case Released
  with unschedule_svcInv [OF inv t Released] show ?thesis
    by (simp add: continueTurn_def stepOk_def commit_def unschedule_def slotBounds_def)
next
  case Unscheduled
  with settle_svcInv [OF inv t Unscheduled] show ?thesis by (simp add: continueTurn_def stepOk_def)
next
  case (Executing call)
  with inv show ?thesis by (simp add: continueTurn_def stepOk_def)
next
  case (DeltaWait call e)
  have "segmentOk t svc (t\<lparr>turn_await := Executing call\<rparr>, svc)" by (simp add: segmentOk_def)
  from commit_ok [OF inv t this] DeltaWait show ?thesis by (simp add: continueTurn_def stepOk_def)
qed (use commit_ok [OF inv t] in \<open>simp add: continueTurn_def stepOk_def segments orCatch_ok\<close>)+

lemma sameControl_stepOk:
  "svcInv svc \<Longrightarrow> sameControl svc svc' \<Longrightarrow> storeMove (svc_store svc) (svc_store svc') \<Longrightarrow> stepOk svc svc'"
  by (auto simp: stepOk_def slotBounds_def sameControl_svcInv) (simp_all add: sameControl_def)

lemma renewTimer_ok:
  assumes inv: "svcInv svc" and t: "map_get (svc_turns svc) i = Some t"
  shows "stepOk svc (renewTimer inp t svc)"
proof (cases "turn_timer t")
  case True
  let ?op = "OpRenew (executionContext t) (turn_runId t) (turn_leaseOwner t)
    (si_now inp + svc_leaseDurationMs svc) (si_now inp)"
  obtain r s where r: "renewRunLease (executionContext t) (turn_runId t) (turn_leaseOwner t)
      (si_now inp + svc_leaseDurationMs svc) (si_now inp) (svc_store svc) = (r, s)"
    by fastforce
  have "storeMove (svc_store svc) s" by (rule storeMoveI [of ?op]) (simp_all add: r)
  moreover have "svcInv (svc\<lparr>svc_store := s\<rparr>)"
    by (rule sameControl_svcInv [OF _ inv]) (simp add: sameControl_def)
  then have "svcInv (setTurn (t\<lparr>turn_renewals := turn_renewals t @ [r]\<rparr>) (svc\<lparr>svc_store := s\<rparr>))"
    by (rule setTurn_svcInv [where i = i and t = t]) (simp_all add: t mayMove_def sameWait_def)
  ultimately show ?thesis using True by (simp add: renewTimer_def r stepOk_def slotBounds_def)
qed (use inv in \<open>simp add: renewTimer_def stepOk_def\<close>)

lemma renewalSettles_ok:
  assumes inv: "svcInv svc" and t: "map_get (svc_turns svc) i = Some t"
  shows "stepOk svc (renewalSettles t svc)"
proof (cases "turn_renewals t")
  case (Cons r rest)
  have "svcInv (setTurn (t\<lparr>turn_renewals := rest\<rparr>) svc)"
    "svcInv (setTurn (t\<lparr>turn_renewals := rest, turn_renewFailed := True\<rparr>) svc)"
    by (rule setTurn_svcInv [OF inv t]; simp add: mayMove_def sameWait_def)+
  moreover have "sameControl svc' (abortTurn j svc')" "svc_store (abortTurn j svc') = svc_store svc'"
    "slotBounds (abortTurn j svc') = slotBounds svc'" for j svc'
    by (simp_all add: abortTurn_def sameControl_def slotBounds_def)
  ultimately have "stepOk svc (setTurn (t\<lparr>turn_renewals := rest\<rparr>) svc)"
    "stepOk svc (abortTurn j (setTurn (t\<lparr>turn_renewals := rest, turn_renewFailed := True\<rparr>) svc))" for j
    using sameControl_svcInv [of "setTurn (t\<lparr>turn_renewals := rest, turn_renewFailed := True\<rparr>) svc"]
    by (auto simp: stepOk_def)
  with Cons show ?thesis by (simp add: renewalSettles_def Let_def)
qed (use inv in \<open>simp add: renewalSettles_def stepOk_def\<close>)

text \<open>Requests touch the control state only through \<open>schedule\<close>.\<close>

lemma quiet_frames [simp]:
  "sameControl svc (setRequest i r svc') = sameControl svc svc'"
  "svc_store (setRequest i r svc) = svc_store svc"
  "sameControl svc (abortKey key svc)" "svc_store (abortKey key svc) = svc_store svc"
  "sameControl svc (forgetProviderConfig key svc)" "svc_store (forgetProviderConfig key svc) = svc_store svc"
  "sameControl svc (storeConfig key c svc)" "svc_store (storeConfig key c svc) = svc_store svc"
  "sameControl svc (snd (resolveProviderConfig key svc))"
  "svc_store (snd (resolveProviderConfig key svc)) = svc_store svc"
  by (simp_all add: setRequest_def abortKey_def abortTurn_def forgetProviderConfig_def storeConfig_def
      resolveProviderConfig_def sameControl_def split: option.split)

lemma dropCancelled_frame:
  "sameControl svc (fold (dropCancelled ctx) rs svc)" "svc_store (fold (dropCancelled ctx) rs svc) = svc_store svc"
proof -
  have drop: "sameControl svc (dropCancelled ctx r svc)" for r svc
    unfolding dropCancelled_def by (rule sameControl_trans [OF quiet_frames(3) quiet_frames(5)])
  show "sameControl svc (fold (dropCancelled ctx) rs svc)"
    by (induction rs arbitrary: svc) (auto intro: sameControl_trans [OF drop])
  show "svc_store (fold (dropCancelled ctx) rs svc) = svc_store svc"
    by (induction rs arbitrary: svc) (simp_all add: dropCancelled_def)
qed

lemma stepOk_setRequest: "stepOk svc svc' \<Longrightarrow> stepOk svc (setRequest i r svc')"
  using sameControl_svcInv [of svc' "setRequest i r svc'"] by (simp add: stepOk_def)

lemma stepOk_schedule: "stepOk svc svc' \<Longrightarrow> stepOk svc (schedule ctx runId svc')"
  by (simp add: stepOk_def schedule_svcInv)

lemma stepOk_quiet: "stepOk svc svc \<Longrightarrow> sameControl svc svc' \<Longrightarrow> svc_store svc' = svc_store svc \<Longrightarrow> stepOk svc svc'"
  by (rule sameControl_stepOk) (simp_all add: stepOk_def)

lemma resolve_ok:
  "svcInv svc \<Longrightarrow> stepOk svc (case resolveProviderConfig key svc of (p, svc') \<Rightarrow> setRequest i (f p) svc')"
  using quiet_frames(9,10) [where svc = svc and key = key] stepOk_quiet [of svc "snd (resolveProviderConfig key svc)"]
  by (cases "resolveProviderConfig key svc") (simp add: stepOk_setRequest stepOk_def [of svc svc])

lemma continueRequest_ok:
  assumes inv: "svcInv svc"
  shows "stepOk svc (continueRequest i inp request svc)"
proof -
  have refl: "stepOk svc svc" using inv by (simp add: stepOk_def)
  note quiet = stepOk_quiet [OF refl]
  have submit: "stepOk svc (submitAccepted i ctx config r inp svc)" for ctx config r
    unfolding submitAccepted_def scheduleAccepted_def Let_def
    by (auto split: sum.split configArgument.split
        intro!: stepOk_setRequest stepOk_schedule refl quiet resolve_ok inv)
  have resume: "stepOk svc (resumeLoaded i ctx runId resolver r inp svc)" for ctx runId resolver r
    unfolding resumeLoaded_def Let_def
    by (auto split: sum.split option.split intro!: stepOk_setRequest stepOk_schedule refl resolve_ok inv)
  show ?thesis
    unfolding continueRequest_def scheduleAccepted_def
    by (auto split: request.split sum.split option.split
        intro!: submit resume stepOk_setRequest stepOk_schedule refl quiet dropCancelled_frame)
qed

text \<open>
  The identifiers the environment supplies are unused when the store takes them.
\<close>

fun freshEvent :: "svcEvent \<Rightarrow> service \<Rightarrow> bool" where
  "freshEvent (SubmitCall i ctx input config now ids) svc \<longleftrightarrow> freshOp (OpAccept ctx input now ids) (svc_store svc)"
| "freshEvent (ExecutorSettles i answer inp) svc \<longleftrightarrow>
     freshActionId (si_uuid inp) (svc_store svc) \<and>
     (case map_get (svc_turns svc) i of
        None \<Rightarrow> True | Some t \<Rightarrow> \<not> messageIdUsed (turn_assistantMessageId t) (svc_store svc))"
| "freshEvent (OtherStoreOp op) svc \<longleftrightarrow> freshOp op (svc_store svc)"
| "freshEvent _ svc \<longleftrightarrow> True"

lemma storeCall_stepOk:
  assumes "svcInv svc" "sameControl svc svc1" "svc_store svc1 = svc_store svc"
    "freshOp op (svc_store svc)" "storeStep op (svc_store svc) = snd r"
  shows "stepOk svc (case r of (x, s) \<Rightarrow> setRequest i (f x) (svc1\<lparr>svc_store := s\<rparr>))"
proof -
  have "storeMove (svc_store svc) (snd r)" by (rule storeMoveI [OF assms(4) assms(5) [symmetric]])
  moreover have "sameControl svc (svc1\<lparr>svc_store := snd r\<rparr>)" using assms(2) by (simp add: sameControl_def)
  ultimately have "stepOk svc (svc1\<lparr>svc_store := snd r\<rparr>)" by (intro sameControl_stepOk [OF assms(1)]) simp_all
  then show ?thesis by (cases r) (simp add: stepOk_setRequest)
qed

lemma onIdle_ok:
  assumes inv: "svcInv svc"
  shows "stepOk svc (serviceOnIdle w svc)"
proof -
  have "sched_inv (onIdle w (svc_scheduler svc))"
    using schedStep_inv [OF svcInvD(2) [OF inv], of "OnIdle w"] by simp
  moreover have "started (onIdle w s) = started s" "running (onIdle w s) = running s"
    "queuedTasks (onIdle w s) = queuedTasks s" for s :: "scheduledTurn fairScheduler"
    by (simp_all add: onIdle_def queuedTasks_def)
  ultimately have "svcInv (serviceOnIdle w svc)"
    using inv lockInv_frame [of "serviceOnIdle w svc" svc]
    by (auto simp: svcInv_def taskInv_def runInv_def scheduledTurns_def startedIds_def serviceOnIdle_def Let_def)
  then show ?thesis by (simp add: stepOk_def serviceOnIdle_def slotBounds_def onIdle_def)
qed

lemma svcStep_ok:
  assumes inv: "svcInv svc" and fresh: "freshEvent e svc"
  shows "stepOk svc (svcStep sha newURL e svc)"
proof (cases e)
  case (SubmitCall i ctx input config now ids)
  with storeCall_stepOk [OF inv sameControl_refl refl, of "OpAccept ctx input now ids"
      "acceptMessage ctx input now ids (svc_store svc)" i "SubmitAwait ctx config"] fresh show ?thesis
    by (simp add: submitMessage_def)
next
  case (CancelRunCall i ctx runId now)
  with storeCall_stepOk [OF inv quiet_frames(3,4), of "OpCancel ctx runId now"
      "cancelRun ctx runId now (svc_store svc)" i "CancelRunAwait (runScopeKey ctx runId)"] show ?thesis
    by (simp add: cancelRunCall_def Let_def)
next
  case (CancelConversationCall i ctx conversation now)
  with storeCall_stepOk [OF inv sameControl_refl refl, of "OpCancelConversation ctx conversation now"
      "cancelConversationRuns ctx conversation now (svc_store svc)" i "CancelConversationAwait ctx"] show ?thesis
    by (simp add: cancelConversationCall_def)
next
  case (ResumeCall i ctx runId resolver)
  with inv show ?thesis by (simp add: resumeCall_def sameControl_stepOk)
next
  case (IdleCall w)
  with onIdle_ok [OF inv] show ?thesis by simp
next
  case (RequestResumes i inp)
  with inv show ?thesis by (simp add: continueRequest_ok stepOk_def [of svc svc] split: option.split)
next
  case (ResolverSettles p answer)
  have "sameControl svc (resolverSettles p answer svc)" "svc_store (resolverSettles p answer svc) = svc_store svc"
    by (auto simp: resolverSettles_def storeConfig_def sameControl_def split: option.split prod.split resolution.split sum.split)
  with ResolverSettles inv show ?thesis by (simp add: sameControl_stepOk)
next
  case (ResolutionFinally p)
  have "sameControl svc (resolutionFinally p svc)" "svc_store (resolutionFinally p svc) = svc_store svc"
    by (auto simp: resolutionFinally_def sameControl_def split: option.split prod.split resolution.split)
  with ResolutionFinally inv show ?thesis by (simp add: sameControl_stepOk)
next
  case (TextDelta i content inp)
  have "stepOk svc (textDelta content inp t svc)" if t: "map_get (svc_turns svc) i = Some t" for t
    using commit_ok [OF inv t onTextDelta_ok] inv
    by (cases "turn_await t") (simp_all add: textDelta_def stepOk_def)
  with TextDelta inv show ?thesis by (simp add: withTurn_def stepOk_def [of svc svc] split: option.split)
next
  case (ExecutorSettles i answer inp)
  have "stepOk svc (executorSettles sha newURL answer inp t svc)" if t: "map_get (svc_turns svc) i = Some t" for t
  proof -
    have "segmentOk t svc (afterExecute sha newURL answer inp t svc)"
      by (rule afterExecute_ok) (use fresh ExecutorSettles t in simp_all)
    from commit_ok [OF inv t this] inv show ?thesis
      by (cases "turn_await t") (simp_all add: executorSettles_def stepOk_def)
  qed
  with ExecutorSettles inv show ?thesis by (simp add: withTurn_def stepOk_def [of svc svc] split: option.split)
next
  case (OtherStoreOp op)
  have "sameControl svc (svc\<lparr>svc_store := storeStep op (svc_store svc)\<rparr>)" by (simp add: sameControl_def)
  with OtherStoreOp inv fresh show ?thesis by (auto intro!: sameControl_stepOk storeMoveI)
qed (use inv in \<open>auto simp: withTurn_def stepOk_def [of svc svc] split: option.split
    intro: continueTurn_ok renewTimer_ok renewalSettles_ok\<close>)

interpretation svc: step_system "svcStep sha newURL" freshEvent svcInv for sha newURL
  by unfold_locales (use svcStep_ok in \<open>auto simp: stepOk_def\<close>)

section \<open>Reachable states\<close>

inductive reachableService :: "hasher \<Rightarrow> urlParser \<Rightarrow> serviceOptions \<Rightarrow> service \<Rightarrow> bool" for sha newURL options where
  initial: "newConcurrentRuntimeService options uuid s = Inr svc \<Longrightarrow> reachableStore s \<Longrightarrow>
    reachableService sha newURL options svc"
| step: "reachableService sha newURL options svc \<Longrightarrow> freshEvent e svc \<Longrightarrow>
    reachableService sha newURL options (svcStep sha newURL e svc)"

lemma newService_inv:
  assumes "newConcurrentRuntimeService options uuid s = Inr svc"
  shows "svcInv svc" "svc_store svc = s" "opt_maxConcurrentTurns options = IntNum (fst (slotBounds svc))"
    "opt_maxConcurrentTurnsPerTenant options = IntNum (snd (slotBounds svc))"
proof -
  from assms obtain scheduler where
    new: "newFairScheduler (opt_maxConcurrentTurns options) (opt_maxConcurrentTurnsPerTenant options) = Inr scheduler"
    and svc: "svc_scheduler svc = scheduler" "svc_turns svc = []" "svc_conversationTails svc = []"
      "svc_scheduledRuns svc = []" "svc_store svc = s"
    by (auto simp: newConcurrentRuntimeService_def split: js_number.splits if_splits sum.splits)
  have inv: "sched_inv scheduler" using new by (rule newFairScheduler_inv)
  have sched: "queues scheduler = []" "started scheduler = []" "running scheduler = []"
    "opt_maxConcurrentTurns options = IntNum (maxConcurrent scheduler)"
    "opt_maxConcurrentTurnsPerTenant options = IntNum (maxConcurrentPerTenant scheduler)"
    using new by (auto simp: newFairScheduler_def positiveInteger_def split: sum.splits js_number.splits if_splits)
  show "svcInv svc"
    using inv by (simp add: svcInv_def taskInv_def lockInv_def lockOk_def lockQueue_def runInv_def
        scheduledTurns_def queuedTasks_def map_values_def svc sched)
  show "svc_store svc = s" by (rule svc)
  show "opt_maxConcurrentTurns options = IntNum (fst (slotBounds svc))"
    "opt_maxConcurrentTurnsPerTenant options = IntNum (snd (slotBounds svc))"
    by (simp_all add: slotBounds_def svc sched)
qed

lemma storeMove_reachable: "reachableStore s \<Longrightarrow> storeMove s s' \<Longrightarrow> reachableStore s'"
  by (auto simp: storeMove_def intro: reachableStore.step)

lemma reachable_service:
  assumes "reachableService sha newURL options svc"
  shows "svcInv svc \<and> reachableStore (svc_store svc) \<and>
    opt_maxConcurrentTurns options = IntNum (fst (slotBounds svc)) \<and>
    opt_maxConcurrentTurnsPerTenant options = IntNum (snd (slotBounds svc))"
  using assms
proof (induction rule: reachableService.induct)
  case (initial uuid s svc)
  then show ?case using newService_inv [OF initial(1)] by simp
next
  case (step svc e)
  then have "stepOk svc (svcStep sha newURL e svc)" by (intro svcStep_ok) simp_all
  with step.IH show ?case by (auto simp: stepOk_def intro: storeMove_reachable)
qed

end
