(* ===== verification/Service_Guarantees.thy ===== *)
theory Service_Guarantees
  imports Service_Properties
begin

text \<open>
  What the runtime service guarantees, for every state it can reach from a fresh service on a
  reachable store, whatever the interleaving of requests, turns, timers, the executor's answers
  and other users of the store.
\<close>

section \<open>A scenario\<close>

definition demoOptions :: serviceOptions where
  "demoOptions = \<lparr>opt_maxConcurrentTurns = IntNum 2, opt_maxConcurrentTurnsPerTenant = IntNum 1,
     opt_leaseDurationMs = IntNum 30000, opt_leaseRenewIntervalMs = None, opt_workerId = Some ''w'',
     opt_broker = None\<rparr>"

definition demoStep :: "string \<Rightarrow> stepInput" where
  "demoStep uuid = \<lparr>si_now = 5, si_uuid = uuid, si_eventId = ''ev'', si_engineText = []\<rparr>"

definition demoService0 :: service where
  "demoService0 = projr (newConcurrentRuntimeService demoOptions ''u'' emptyStore)"

definition noURL :: urlParser where
  "noURL s = None"

definition runEvents :: "svcEvent list \<Rightarrow> service \<Rightarrow> service" where
  "runEvents es svc = fold (svcStep id noURL) es svc"

text \<open>Two messages of one conversation: the first turn has called the executor, the second waits.\<close>

definition demoSubmits :: "svcEvent list" where
  "demoSubmits =
     [SubmitCall 0 demoCtx (demoInput ''1'') NoConfig 1 (demoIds ''1''), RequestResumes 0 (demoStep ''x''),
      SubmitCall 1 demoCtx (demoInput ''2'') NoConfig 2 (demoIds ''2''), RequestResumes 1 (demoStep ''x'')]"

definition demoTurn :: "svcEvent list" where
  "demoTurn = demoSubmits @
     [TurnResumes 0 (demoStep ''lease''), TurnResumes 0 (demoStep ''reply''), TurnResumes 0 (demoStep ''x''),
      TurnResumes 0 (demoStep ''x'')]"

lemma reachable_events:
  "enabledRun (svcStep sha newURL) freshEvent es svc \<Longrightarrow> reachableService sha newURL options svc \<Longrightarrow>
     reachableService sha newURL options (fold (svcStep sha newURL) es svc)"
  by (induction es arbitrary: svc) (auto intro: reachableService.step)

lemma demoService0_reachable: "reachableService sha newURL demoOptions demoService0"
proof -
  have "isl (newConcurrentRuntimeService demoOptions ''u'' emptyStore) = False" by code_simp
  then have "newConcurrentRuntimeService demoOptions ''u'' emptyStore = Inr demoService0"
    by (metis demoService0_def sum.collapse(2))
  then show ?thesis using reachableStore.initial by (rule reachableService.initial)
qed

lemma demoTurn_reachable: "reachableService id noURL demoOptions (runEvents demoTurn demoService0)"
proof -
  have "enabledRun (svcStep id noURL) freshEvent demoTurn demoService0" by code_simp
  then show ?thesis unfolding runEvents_def by (rule reachable_events) (rule demoService0_reachable)
qed

section \<open>One turn at a time\<close>

definition pastLock :: "turn \<Rightarrow> bool" where
  "pastLock t \<longleftrightarrow> turn_await t \<noteq> LockWait \<and> \<not> released (turn_await t)"

text \<open>
  C9: the conversation lock excludes and never sticks. In every reachable state at most one turn
  of a conversation is between taking the lock and releasing it, and while any turn of the
  conversation waits or works, one of them is past the lock or free to take it.
\<close>

theorem conversation_turns_exclusive:
  assumes "reachableService sha newURL options svc"
  shows "length (filter (\<lambda>t. pastLock t \<and> lockKey (turn_context t) = K) (map_values (svc_turns svc))) \<le> 1 \<and>
    (list_ex (\<lambda>t. \<not> released (turn_await t) \<and> lockKey (turn_context t) = K) (map_values (svc_turns svc)) \<longrightarrow>
     list_ex (\<lambda>t. \<not> released (turn_await t) \<and> lockKey (turn_context t) = K \<and> (pastLock t \<or> lockFree t svc))
       (map_values (svc_turns svc)))"
proof -
  have lock: "lockInv (startedIds svc) svc" using reachable_service [OF assms] svcInvD(1) by blast
  have past: "filter (\<lambda>t. pastLock t \<and> lockKey (turn_context t) = K) (map_values (svc_turns svc)) =
      filter (\<lambda>t. turn_await t \<noteq> LockWait) (lockQueue K svc)"
    unfolding lockQueue_def filter_filter by (rule filter_cong) (auto simp: pastLock_def inQueue_def)
  show ?thesis
  proof (rule lockOk_cases [OF lockInvD(2) [OF lock, of K]])
    assume "lockQueue K svc = []"
    then show ?thesis by (auto simp: past list_ex_iff) (auto simp: lockQueue_def filter_empty_conv inQueue_def)
  next
    fix t ts
    assume q: "lockQueue K svc = t # ts" "chain (turn_id t) ts" "lockFree t svc"
    have "filter (\<lambda>t. turn_await t \<noteq> LockWait) ts = []" using chain_member [OF q(2)] by (auto simp: filter_empty_conv)
    then have "length (filter (\<lambda>t. turn_await t \<noteq> LockWait) (lockQueue K svc)) \<le> 1" by (simp add: q(1))
    moreover have "t \<in> set (lockQueue K svc)" by (simp add: q(1))
    then have "t \<in> set (map_values (svc_turns svc))" "inQueue K t" by (simp_all add: lockQueue_member)
    ultimately show ?thesis using q(3) by (auto simp: past list_ex_iff inQueue_def)
  qed
qed

theorem conversation_turns_exclusive_witness:
  "let svc = runEvents demoTurn demoService0; K = lockKey demoCtx in
   list_ex (\<lambda>t. pastLock t \<and> lockKey (turn_context t) = K) (map_values (svc_turns svc)) \<and>
   length (filter (\<lambda>t. pastLock t \<and> lockKey (turn_context t) = K) (map_values (svc_turns svc))) \<le> 1"
proof -
  have "list_ex (\<lambda>t. pastLock t \<and> lockKey (turn_context t) = lockKey demoCtx)
      (map_values (svc_turns (runEvents demoTurn demoService0)))"
    by code_simp
  with conversation_turns_exclusive [OF demoTurn_reachable, of "lockKey demoCtx"] show ?thesis by (simp add: Let_def)
qed

text \<open>
  A run is scheduled at most once. In every reachable state the keys the service remembers in
  \<open>scheduledRuns\<close> are distinct and are exactly the runs of the tasks that wait in the scheduler and of
  the turns that have not been unscheduled; so no run is worked on by two turns, and none is
  remembered without a task.
\<close>

theorem run_scheduled_once:
  assumes "reachableService sha newURL options svc"
  shows "distinct (map taskRun (concat (map_values (queues (svc_scheduler svc)))) @ map turnRun (scheduledTurns svc)) \<and>
    set (svc_scheduledRuns svc) =
      taskRun ` set (concat (map_values (queues (svc_scheduler svc)))) \<union> turnRun ` set (scheduledTurns svc)"
proof -
  have inv: "svcInv svc" using reachable_service [OF assms] by blast
  have eq: "mset (svc_scheduledRuns svc) =
      mset (map taskRun (concat (map_values (queues (svc_scheduler svc)))) @ map turnRun (scheduledTurns svc))"
    using svcInvD(5) [OF inv] by (simp add: queuedTasks_def)
  then have "distinct (map taskRun (concat (map_values (queues (svc_scheduler svc)))) @ map turnRun (scheduledTurns svc))"
    using svcInvD(3) [OF inv] mset_eq_imp_distinct_iff by blast
  moreover have "set (svc_scheduledRuns svc) =
      set (map taskRun (concat (map_values (queues (svc_scheduler svc)))) @ map turnRun (scheduledTurns svc))"
    using mset_eq_setD [OF eq] .
  ultimately show ?thesis by simp
qed

theorem run_scheduled_once_witness:
  "let svc = runEvents demoTurn demoService0 in
   length (svc_scheduledRuns svc) = 2 \<and>
   distinct (map taskRun (concat (map_values (queues (svc_scheduler svc)))) @ map turnRun (scheduledTurns svc))"
proof -
  have "length (svc_scheduledRuns (runEvents demoTurn demoService0)) = 2" by code_simp
  with run_scheduled_once [OF demoTurn_reachable] show ?thesis by (simp only: Let_def)
qed

section \<open>Capacity\<close>

text \<open>
  The service keeps to its configured capacity. In every reachable state the turns in flight are
  at most \<open>maxConcurrentTurns\<close>, and those of one tenant at most \<open>maxConcurrentTurnsPerTenant\<close>.
\<close>

theorem service_capacity:
  assumes "reachableService sha newURL options svc"
    "opt_maxConcurrentTurns options = IntNum c" "opt_maxConcurrentTurnsPerTenant options = IntNum d"
  shows "int (length (svc_turns svc)) \<le> c \<and>
    int (length (filter (\<lambda>t. tenantExecutionScopeKey (turn_context t) = K) (map_values (svc_turns svc)))) \<le> d"
proof -
  have inv: "svcInv svc" and b: "c = maxConcurrent (svc_scheduler svc)" "d = maxConcurrentPerTenant (svc_scheduler svc)"
    using reachable_service [OF assms(1)] assms(2,3) by (auto simp: slotBounds_def)
  note run = svcInvD(4) [OF inv]
  have "mset (filter (\<lambda>task. tenantKey task = K) (running (svc_scheduler svc))) =
      mset (map turnTask (filter (\<lambda>t. tenantExecutionScopeKey (turn_context t) = K) (map_values (svc_turns svc))))"
    by (simp add: mset_filter run filter_mset_image_mset turnTask_def)
  from mset_eq_length [OF this] have
    "Fair_Scheduler.inFlight (svc_scheduler svc) K =
      int (length (filter (\<lambda>t. tenantExecutionScopeKey (turn_context t) = K) (map_values (svc_turns svc))))"
    by (simp add: Fair_Scheduler.inFlight_def)
  moreover have "length (running (svc_scheduler svc)) = length (svc_turns svc)"
    using arg_cong [OF run, of size] by (simp add: map_values_def)
  ultimately show ?thesis
    using svcInvD(2) [OF inv] b
    by (simp add: sched_inv_def core_inv_def bounds_ok_def counts_wf_def) metis
qed

theorem service_capacity_witness:
  "length (svc_turns (runEvents demoTurn demoService0)) = 1 \<and>
   int (length (svc_turns (runEvents demoTurn demoService0))) \<le> 2"
proof -
  have opts: "opt_maxConcurrentTurns demoOptions = IntNum 2" "opt_maxConcurrentTurnsPerTenant demoOptions = IntNum 1"
    by (simp_all add: demoOptions_def)
  have "length (svc_turns (runEvents demoTurn demoService0)) = 1" by code_simp
  with service_capacity [OF demoTurn_reachable opts] show ?thesis by simp
qed

section \<open>Composition with the store\<close>



section \<open>Turns end\<close>

text \<open>How many more times a turn resumes before it is done or waits for the executor.\<close>

fun remaining :: "awaiting \<Rightarrow> nat" where
  "remaining LockWait = 19"
| "remaining (ClaimWait r) = 18"
| "remaining (TurnStartWait e) = 17"
| "remaining (ThinkingWait e) = 16"
| "remaining (GrantWait r) = 15"
| "remaining (FirstDeltaWait call content e) = 16"
| "remaining (DeltaWait call e) = 15"
| "remaining (Executing call) = 14"
| "remaining (DispatchWait r) = 13"
| "remaining (CompleteWait r) = 13"
| "remaining (ParkedWait e) = 12"
| "remaining (CompleteEventWait e) = 12"
| "remaining (IdleEventWait e) = 11"
| "remaining (CurrentRunWait e r) = 10"
| "remaining (FailWait e r) = 9"
| "remaining (ErrorEventWait e) = 8"
| "remaining (NextRunWait r) = 5"
| "remaining Returned = 4"
| "remaining Released = 3"
| "remaining Unscheduled = 2"

lemma commit_turn:
  assumes "map_get (svc_turns svc) i = Some t" "lockInv ids svc" "sameWait t (fst r)"
  shows "map_get (svc_turns (commit r)) i = Some (fst r)"
  using assms lockInv_turn(1) [OF assms(2,1)] by (cases r) (simp add: commit_def setTurn_def sameWait_def)

lemma remaining_report:
  "remaining (turn_await (fst (report state message inp t svc))) = remaining (state (fst (appendTurnEvent t message inp svc)))"
  by (simp add: report_def split: prod.split)

lemma remaining_finally: "remaining (turn_await (fst (enterFinally t svc))) \<le> 5"
  by (simp add: enterFinally_def Let_def)

lemma remaining_catch: "remaining (turn_await (fst (enterCatch e t svc))) = 10"
  by (simp add: enterCatch_def)

lemma remaining_orCatch:
  "remaining (turn_await (fst r)) < n \<Longrightarrow> 10 < n \<Longrightarrow> remaining (turn_await (fst (orCatch e inp t svc r))) < n"
  by (simp add: orCatch_def remaining_catch split: option.split)

lemma remaining_bounds:
  "remaining (turn_await (fst (claimTurn inp t svc))) < 19"
  "remaining (turn_await (fst (afterClaim rc inp t svc))) < 18"
  "remaining (turn_await (fst (afterTurnStart e inp t svc))) < 17"
  "remaining (turn_await (fst (afterThinking e inp t svc))) < 16"
  "remaining (turn_await (fst (afterGrant rg inp t svc))) < 15"
  "remaining (turn_await (fst (afterFirstDelta call content e inp t svc))) < 16"
  "remaining (turn_await (fst (afterDispatch rd inp t svc))) < 13"
  "remaining (turn_await (fst (afterComplete rm inp t svc))) < 13"
  "remaining (turn_await (fst (afterCompleteEvent e inp t svc))) < 12"
  "remaining (turn_await (fst (afterCurrentRun x rr inp t svc))) < 10"
  "remaining (turn_await (fst (afterFail x rb inp t svc))) < 9"
  "remaining (turn_await (fst (orCatch e inp t svc (enterFinally t svc)))) < 12"
  "remaining (turn_await (fst (orCatch e inp t svc (enterFinally t svc)))) < 11"
  "remaining (turn_await (fst (enterFinally t svc))) < 8"
proof -
  show "remaining (turn_await (fst (afterCurrentRun x rr inp t svc))) < 10"
    "remaining (turn_await (fst (afterFail x rb inp t svc))) < 9"
    "remaining (turn_await (fst (orCatch e inp t svc (enterFinally t svc)))) < 12"
    "remaining (turn_await (fst (orCatch e inp t svc (enterFinally t svc)))) < 11"
    "remaining (turn_await (fst (enterFinally t svc))) < 8"
    using remaining_finally [of t svc]
    by (auto simp: afterCurrentRun_def afterFail_def remaining_report split: sum.split prod.split intro!: remaining_orCatch)
qed (auto simp: claimTurn_def afterClaim_def afterTurnStart_def afterThinking_def afterGrant_def afterFirstDelta_def
    afterDispatch_def afterComplete_def afterCompleteEvent_def callExecutor_def reportActivity_def Let_def
    remaining_report remaining_catch split: sum.split option.split prod.split intro!: remaining_orCatch)

lemma settled_turn_gone:
  assumes inv: "svcInv svc" and t: "map_get (svc_turns svc) i = Some t" "turn_await t = Unscheduled"
  shows "map_get (svc_turns (settleTurn t svc)) i = None"
proof -
  let ?s = "svc_scheduler svc"
  note lock = svcInvD(1) [OF inv]
  have id: "turn_id t = i" by (rule lockInv_turn(1) [OF lock t(1)])
  have "t \<in> set (map_values (svc_turns svc))" using t id by (simp add: in_turns [OF lock])
  then have "turnTask t \<in># mset (running ?s)" unfolding svcInvD(4) [OF inv] by auto
  then have "turnTask t \<in> set (running ?s)" by simp
  from taskSettled_launches [OF svcInvD(2) [OF inv] this] obtain new where
    s': "started (taskSettled (turnTask t) ?s) = started ?s @ new"
      "queuedTasks ?s = mset new + queuedTasks (taskSettled (turnTask t) ?s)"
    by metis
  have "\<forall>task \<in> set new. taskId task \<notin> startedIds svc" using started_not_queued [OF inv] s'(2) by auto
  then have "i \<notin> set (map taskId new)" using lockInv_turn(2) [OF lock t(1)] by auto
  then show ?thesis using s'(1) id by (simp add: settleTurn_def launch_def fold_beginTurn_get)
qed

lemma resume_decreases:
  assumes inv: "svcInv svc" and t: "map_get (svc_turns svc) i = Some t"
    and ready: "turn_await t \<noteq> LockWait \<or> lockFree t svc" "\<And>call. turn_await t \<noteq> Executing call"
  shows "case map_get (svc_turns (continueTurn inp t svc)) i of
      None \<Rightarrow> turn_await t = Unscheduled
    | Some t' \<Rightarrow> remaining (turn_await t') < remaining (turn_await t)"
proof (cases "turn_await t = Unscheduled")
  case True
  then show ?thesis using settled_turn_gone [OF inv t] by (simp add: continueTurn_def)
next
  case False
  note lock = svcInvD(1) [OF inv]
  have next_ok: "map_get (svc_turns (commit (t\<lparr>turn_await := Returned\<rparr>, scheduleNext r t svc))) i =
      Some (t\<lparr>turn_await := Returned\<rparr>)" for r
    using commit_turn [OF scheduleNext_ok(2) [OF inv t] svcInvD(1) [OF scheduleNext_ok(1) [OF inv t]],
        of "(t\<lparr>turn_await := Returned\<rparr>, _)"] by simp
  have release_ok: "map_get (svc_turns (commit (t\<lparr>turn_await := a\<rparr>, svc'))) i = Some (t\<lparr>turn_await := a\<rparr>)"
    if "svc_turns svc' = svc_turns svc" for a svc'
    using lockInv_turn(1) [OF lock t] by (simp add: commit_def setTurn_def)
  have seg: "map_get (svc_turns (commit r)) i = Some (fst r)" if "segmentOk t svc r" for r
    by (rule commit_turn [OF t lock]) (use that in \<open>simp add: segmentOk_def\<close>)
  show ?thesis
    using False ready
    by (cases "turn_await t")
      (auto simp: continueTurn_def next_ok release_ok releaseLock_def unschedule_def seg segments orCatch_ok Let_def
        intro: remaining_bounds)
qed

text \<open>Steps of others leave a turn where it is.\<close>

lemma settled_turn_other:
  assumes inv: "svcInv svc" and t: "map_get (svc_turns svc) j = Some u" "turn_await u = Unscheduled"
    and i: "map_get (svc_turns svc) i = Some t" "i \<noteq> j"
  shows "map_get (svc_turns (settleTurn u svc)) i = Some t"
proof -
  let ?s = "svc_scheduler svc"
  note lock = svcInvD(1) [OF inv]
  have id: "turn_id u = j" by (rule lockInv_turn(1) [OF lock t(1)])
  have "u \<in> set (map_values (svc_turns svc))" using t id by (simp add: in_turns [OF lock])
  then have "turnTask u \<in># mset (running ?s)" unfolding svcInvD(4) [OF inv] by auto
  then have "turnTask u \<in> set (running ?s)" by simp
  from taskSettled_launches [OF svcInvD(2) [OF inv] this] obtain new where
    s': "started (taskSettled (turnTask u) ?s) = started ?s @ new"
      "queuedTasks ?s = mset new + queuedTasks (taskSettled (turnTask u) ?s)"
    by metis
  have "\<forall>task \<in> set new. taskId task \<notin> startedIds svc" using started_not_queued [OF inv] s'(2) by auto
  then have "i \<notin> set (map taskId new)" using lockInv_turn(2) [OF lock i(1)] by auto
  then show ?thesis using s'(1) id i by (simp add: settleTurn_def launch_def fold_beginTurn_get)
qed

lemma commit_other:
  "i \<noteq> turn_id (fst r) \<Longrightarrow> map_get (svc_turns (commit r)) i = map_get (svc_turns (snd r)) i"
  by (cases r) (simp add: commit_def setTurn_def)

lemma segment_other:
  assumes "segmentOk u svc r" "turn_id u \<noteq> i"
  shows "map_get (svc_turns (commit r)) i = map_get (svc_turns svc) i"
  using assms by (subst commit_other) (auto simp: segmentOk_def sameWait_def sameControl_def)

lemma continue_other:
  assumes inv: "svcInv svc" and u: "map_get (svc_turns svc) j = Some u"
    and i: "map_get (svc_turns svc) i = Some t" "i \<noteq> j"
  shows "map_get (svc_turns (continueTurn inp u svc)) i = Some t"
proof -
  have id: "turn_id u \<noteq> i" using lockInv_turn(1) [OF svcInvD(1) [OF inv] u] i(2) by simp
  have seg: "map_get (svc_turns (commit r)) i = map_get (svc_turns svc) i" if "segmentOk u svc r" for r
    using that id by (rule segment_other)
  have "map_get (svc_turns (scheduleNext r u svc)) i = Some t" for r
    by (auto simp: scheduleNext_def schedule_turn [OF inv i(1)] i(1) split: sum.split option.split)
  then show ?thesis
    using id i(1) settled_turn_other [OF inv u _ i]
    by (cases "turn_await u")
      (auto simp: continueTurn_def seg segments orCatch_ok commit_other releaseLock_def unschedule_def Let_def)
qed

lemma sameControl_turns: "sameControl svc svc' \<Longrightarrow> svc_turns svc' = svc_turns svc"
  by (simp add: sameControl_def)

lemma continueRequest_turn:
  assumes inv: "svcInv svc" and i: "map_get (svc_turns svc) i = Some t"
  shows "map_get (svc_turns (continueRequest k inp request svc)) i = Some t"
proof -
  have req: "svc_turns (setRequest k r svc') = svc_turns svc'" for r svc' by (simp add: setRequest_def)
  have turns: "svc_turns (storeConfig key c svc) = svc_turns svc" "svc_turns (forgetProviderConfig key svc) = svc_turns svc"
    "svc_turns (snd (resolveProviderConfig key svc)) = svc_turns svc"
    "svc_turns (fold (dropCancelled ctx) rs svc) = svc_turns svc" for key c ctx rs
    by (rule sameControl_turns, simp add: dropCancelled_frame)+
  have resolve: "svc_turns (case resolveProviderConfig key svc of (p, svc') \<Rightarrow> setRequest k (f p) svc') = svc_turns svc"
    for key f using turns(3) [of key] by (cases "resolveProviderConfig key svc") (simp add: req)
  have config: "svcInv (storeConfig key c svc)" for key c by (rule sameControl_svcInv [OF quiet_frames(7) inv])
  show ?thesis
    using i schedule_turn [OF inv i] schedule_turn [OF config]
    by (auto simp: continueRequest_def submitAccepted_def scheduleAccepted_def resumeLoaded_def Let_def req turns resolve
        split: request.split sum.split option.split configArgument.split)
qed

definition stays :: "nat \<Rightarrow> turn \<Rightarrow> service \<Rightarrow> bool" where
  "stays i t svc' \<longleftrightarrow> (\<exists>t'. map_get (svc_turns svc') i = Some t' \<and> turn_await t' = turn_await t)"

lemma other_step_stays:
  assumes inv: "svcInv svc" and fresh: "freshEvent e svc" and i: "map_get (svc_turns svc) i = Some t"
    and e: "\<And>inp. e \<noteq> TurnResumes i inp" "\<And>call. turn_await t \<noteq> Executing call"
  shows "stays i t (svcStep sha newURL e svc)"
proof (cases e)
  case (RequestResumes k inp)
  with continueRequest_turn [OF inv i] i show ?thesis by (auto simp: stays_def split: option.split)
next
  case (TurnResumes j inp)
  with e(1) have "i \<noteq> j" by auto
  with TurnResumes continue_other [OF inv _ i] i show ?thesis by (auto simp: stays_def withTurn_def split: option.split)
next
  case (TextDelta j content inp)
  have "stays i t (textDelta content inp u svc)" if u: "map_get (svc_turns svc) j = Some u" for u
    using segment_other [OF onTextDelta_ok] lockInv_turn(1) [OF svcInvD(1) [OF inv] u] u i e(2)
    by (cases "turn_await u"; cases "i = j") (auto simp: textDelta_def stays_def)
  with TextDelta i show ?thesis by (simp add: withTurn_def stays_def split: option.split)
next
  case (ExecutorSettles j answer inp)
  have "stays i t (executorSettles sha newURL answer inp u svc)" if u: "map_get (svc_turns svc) j = Some u" for u
  proof -
    have "segmentOk u svc (afterExecute sha newURL answer inp u svc)"
      by (rule afterExecute_ok) (use fresh ExecutorSettles u in simp_all)
    from segment_other [OF this] lockInv_turn(1) [OF svcInvD(1) [OF inv] u] u i e(2) show ?thesis
      by (cases "turn_await u"; cases "i = j") (auto simp: executorSettles_def stays_def)
  qed
  with ExecutorSettles i show ?thesis by (simp add: withTurn_def stays_def split: option.split)
next
  case (RenewTimer j inp)
  have "stays i t (renewTimer inp u svc)" if u: "map_get (svc_turns svc) j = Some u" for u
    using lockInv_turn(1) [OF svcInvD(1) [OF inv] u] u i
    by (cases "i = j") (auto simp: renewTimer_def stays_def setTurn_def split: prod.split)
  with RenewTimer i show ?thesis by (simp add: withTurn_def stays_def split: option.split)
next
  case (RenewalSettles j)
  have "stays i t (renewalSettles u svc)" if u: "map_get (svc_turns svc) j = Some u" for u
    using lockInv_turn(1) [OF svcInvD(1) [OF inv] u] u i
    by (cases "i = j") (auto simp: renewalSettles_def stays_def setTurn_def abortTurn_def Let_def split: list.split)
  with RenewalSettles i show ?thesis by (simp add: withTurn_def stays_def split: option.split)
qed (use i in \<open>auto simp: stays_def serviceOnIdle_def submitMessage_def cancelRunCall_def cancelConversationCall_def resumeCall_def
    setRequest_def abortKey_def abortTurn_def resolverSettles_def resolutionFinally_def storeConfig_def Let_def
    split: prod.split option.split resolution.split sum.split\<close>)

fun resumesTurn :: "nat \<Rightarrow> svcEvent \<Rightarrow> bool" where
  "resumesTurn i (TurnResumes j inp) \<longleftrightarrow> j = i"
| "resumesTurn i _ \<longleftrightarrow> False"

lemma resumesTurn_iff: "resumesTurn i e \<longleftrightarrow> (\<exists>inp. e = TurnResumes i inp)"
  by (cases e) auto

lemma remaining_answered:
  "remaining a < 14 \<Longrightarrow> a \<noteq> LockWait \<and> a \<noteq> Executing call" "2 \<le> remaining a"
  by (cases a; simp)+

lemma turn_settles:
  assumes "svcInv svc" "enabledRun (svcStep sha newURL) freshEvent es svc" "map_get (svc_turns svc) i = Some t"
    "remaining (turn_await t) < 14" "remaining (turn_await t) \<le> length (filter (resumesTurn i) es)"
  shows "\<exists>k \<le> length es. map_get (svc_turns (fold (svcStep sha newURL) (take k es) svc)) i = None"
  using assms
proof (induction es arbitrary: svc t)
  case Nil
  then show ?case using remaining_answered(2) [of "turn_await t"] by simp
next
  case (Cons e es)
  let ?svc = "svcStep sha newURL e svc"
  have fresh: "freshEvent e svc" and run: "enabledRun (svcStep sha newURL) freshEvent es ?svc"
    using Cons.prems(2) by simp_all
  have inv: "svcInv ?svc" using svcStep_ok [OF Cons.prems(1) fresh] by (simp add: stepOk_def)
  note busy = remaining_answered(1) [OF Cons.prems(4)]
  have later: "\<exists>k \<le> length (e # es). map_get (svc_turns (fold (svcStep sha newURL) (take k (e # es)) svc)) i = None"
    if "\<exists>k \<le> length es. map_get (svc_turns (fold (svcStep sha newURL) (take k es) ?svc)) i = None"
    using that by (auto intro: exI [of _ "Suc _"])
  show ?case
  proof (cases "resumesTurn i e")
    case True
    then obtain inp where e: "e = TurnResumes i inp" by (auto simp: resumesTurn_iff)
    then have svc: "?svc = continueTurn inp t svc" using Cons.prems(3) by (simp add: withTurn_def)
    note dec = resume_decreases [OF Cons.prems(1,3), of inp, folded svc]
    show ?thesis
    proof (cases "map_get (svc_turns ?svc) i")
      case None
      then show ?thesis by (intro exI [of _ 1]) simp
    next
      case (Some t')
      with dec busy have "remaining (turn_await t') < remaining (turn_await t)" by auto
      with Cons.prems(4,5) True show ?thesis by (intro later Cons.IH [OF inv run Some]) simp_all
    qed
  next
    case False
    then have "stays i t ?svc"
      using busy by (intro other_step_stays [OF Cons.prems(1) fresh Cons.prems(3)]) (auto simp: resumesTurn_iff)
    then obtain t' where t': "map_get (svc_turns ?svc) i = Some t'" "turn_await t' = turn_await t" by (auto simp: stays_def)
    with Cons.prems(4,5) False show ?thesis by (intro later Cons.IH [OF inv run t'(1)]) simp_all
  qed
qed

text \<open>
  C11: a turn whose executor has answered comes to an end. In any sequence of steps that resumes it
  at least thirteen times, whatever happens in between and whether its writes succeed or fail, the
  turn releases its lock, gives back its slot and is gone.
\<close>

theorem turn_terminates:
  assumes "reachableService sha newURL options svc" "enabledRun (svcStep sha newURL) freshEvent es svc"
    "map_get (svc_turns svc) i = Some t" "remaining (turn_await t) < 14"
    "13 \<le> length (filter (resumesTurn i) es)"
  shows "\<exists>k \<le> length es. map_get (svc_turns (fold (svcStep sha newURL) (take k es) svc)) i = None"
proof (rule turn_settles [OF _ assms(2-4)])
  show "svcInv svc" using reachable_service [OF assms(1)] by blast
  show "remaining (turn_await t) \<le> length (filter (resumesTurn i) es)" using assms(4,5) by simp
qed

lemma enabledRun_resumes: "enabledRun (svcStep sha newURL) freshEvent (replicate n (TurnResumes i inp)) svc"
  by (induction n arbitrary: svc) auto

definition demoAnswered :: "svcEvent list" where
  "demoAnswered = demoTurn @ [ExecutorSettles 0 (Inr (TextExecution ''hello'')) (demoStep ''a'')]"

lemma demoAnswered_reachable: "reachableService id noURL demoOptions (runEvents demoAnswered demoService0)"
proof -
  have "enabledRun (svcStep id noURL) freshEvent demoAnswered demoService0" by code_simp
  then show ?thesis unfolding runEvents_def by (rule reachable_events) (rule demoService0_reachable)
qed

theorem turn_terminates_witness:
  "map_get (svc_turns (runEvents demoAnswered demoService0)) 0 \<noteq> None \<and>
   (\<exists>k \<le> 13. map_get (svc_turns (fold (svcStep id noURL) (take k (replicate 13 (TurnResumes 0 (demoStep ''x''))))
      (runEvents demoAnswered demoService0))) 0 = None)"
proof -
  let ?svc = "runEvents demoAnswered demoService0"
  have some: "map_get (svc_turns ?svc) 0 \<noteq> None" by code_simp
  then obtain t where t: "map_get (svc_turns ?svc) 0 = Some t" by blast
  have "remaining (turn_await (the (map_get (svc_turns ?svc) 0))) < 14" by code_simp
  then have r: "remaining (turn_await t) < 14" by (simp add: t)
  have run: "enabledRun (svcStep id noURL) freshEvent (replicate 13 (TurnResumes 0 (demoStep ''x''))) ?svc"
    by (rule enabledRun_resumes)
  have "13 \<le> length (filter (resumesTurn 0) (replicate 13 (TurnResumes 0 (demoStep ''x''))))" by simp
  from turn_terminates [OF demoAnswered_reachable run t r this] some show ?thesis by simp
qed

section \<open>Queued runs are picked up\<close>

lemma schedule_scheduled: "runScopeKey ctx runId \<in> set (svc_scheduledRuns (schedule ctx runId svc))"
  by (auto simp: schedule_def launch_def Let_def enqueue_pushTask)

text \<open>
  Finishing a run hands the conversation on. When a turn that finished its run (completed or
  failed) leaves its clean-up with the answer of \<open>getNextQueuedRun\<close>, the run it names is scheduled
  under this conversation, and its turn then releases the lock. The answer is the queued run with
  the lowest turn number, if the conversation has a queued run.
\<close>

theorem finished_turn_schedules_next:
  assumes "turn_terminal t" "enterFinally t svc = (t1, svc1)"
    "isConversationOwnedBy (executionContext t) (tenantConversationScopeKey (executionContext t) (turnConversation t)) (svc_store svc)"
    "run \<in> set (map_values (runs (svc_store svc)))" "run_status run = Queued"
    "sameConversation (organizationId (executionContext t)) (assistantId (executionContext t)) (turnConversation t) run"
  shows "\<exists>n. turn_await t1 = NextRunWait (Inr (Some n)) \<and> run_status n = Queued \<and> run_turnSequence n \<le> run_turnSequence run \<and>
    runScopeKey ((executionContext t)\<lparr>conversationId := Some (turnConversation t),
        idempotencyKey := Some (run_idempotencyKey n)\<rparr>) (run_id n)
      \<in> set (svc_scheduledRuns (continueTurn inp t1 (commit (t1, svc1))))"
proof -
  let ?c = "executionContext t"
  let ?q = "filter (\<lambda>r. sameConversation (organizationId ?c) (assistantId ?c) (turnConversation t) r \<and> run_status r = Queued)
    (map_values (runs (svc_store svc)))"
  have mem: "run \<in> set (sort_key run_turnSequence ?q)" using assms(4-6) by simp
  then obtain n rest where q: "sort_key run_turnSequence ?q = n # rest" by (cases "sort_key run_turnSequence ?q") auto
  have "sorted (map run_turnSequence (n # rest))" unfolding q [symmetric] by simp
  with mem q have min: "run_turnSequence n \<le> run_turnSequence run" by auto
  have "n \<in> set (sort_key run_turnSequence ?q)" unfolding q by simp
  then have queued: "run_status n = Queued" by simp
  have "getNextQueuedRun ?c (turnConversation t) (svc_store svc) = Inr (Some n)"
    using assms(3) q by (simp add: getNextQueuedRun_def assertConversationOwner_def)
  then have t1: "turn_await t1 = NextRunWait (Inr (Some n))" "turn_claimed t1 = turn_claimed t"
    using assms(1,2) by (auto simp: enterFinally_def Let_def)
  then have "executionContext t1 = executionContext t" "turnConversation t1 = turnConversation t"
    by (simp_all add: executionContext_def turnConversation_def)
  then show ?thesis
    using t1(1) min queued schedule_scheduled
    by (simp add: continueTurn_def scheduleNext_def commit_def)
qed

definition demoFinishing :: "svcEvent list" where
  "demoFinishing = demoAnswered @ replicate 3 (TurnResumes 0 (demoStep ''x''))"

definition finishingTurn :: "turn \<Rightarrow> concurrentRun \<Rightarrow> service \<Rightarrow> bool" where
  "finishingTurn t run svc \<longleftrightarrow>
     turn_terminal t \<and> run_status run = Queued \<and> run_turnSequence run = 1 \<and>
     isConversationOwnedBy (executionContext t) (tenantConversationScopeKey (executionContext t) (turnConversation t))
       (svc_store svc) \<and>
     sameConversation (organizationId (executionContext t)) (assistantId (executionContext t)) (turnConversation t) run"

definition someFinishingTurn :: "nat \<Rightarrow> string \<Rightarrow> service \<Rightarrow> bool" where
  "someFinishingTurn i key svc \<longleftrightarrow>
     (case map_get (svc_turns svc) i of None \<Rightarrow> False
      | Some t \<Rightarrow> list_ex (\<lambda>(k, run). k = key \<and> finishingTurn t run svc) (runs (svc_store svc)))"

theorem finished_turn_schedules_next_witness:
  "let svc = runEvents demoFinishing demoService0 in
   \<exists>t. map_get (svc_turns svc) 0 = Some t \<and> turn_terminal t \<and>
   (\<exists>n. turn_await (fst (enterFinally t svc)) = NextRunWait (Inr (Some n)) \<and> run_status n = Queued \<and> run_turnSequence n \<le> 1 \<and>
     runScopeKey ((executionContext t)\<lparr>conversationId := Some (turnConversation t),
        idempotencyKey := Some (run_idempotencyKey n)\<rparr>) (run_id n)
      \<in> set (svc_scheduledRuns (continueTurn (demoStep ''x'') (fst (enterFinally t svc)) (commit (enterFinally t svc)))))"
proof -
  let ?svc = "runEvents demoFinishing demoService0"
  have "someFinishingTurn 0 (runKey demoCtx ''r2'') ?svc" by code_simp
  then obtain t k run where t: "map_get (svc_turns ?svc) 0 = Some t" and mem: "(k, run) \<in> set (runs (svc_store ?svc))"
    and ok: "finishingTurn t run ?svc"
    by (auto simp only: someFinishingTurn_def list_ex_iff split: option.splits)
  have run: "run \<in> set (map_values (runs (svc_store ?svc)))"
    unfolding map_values_def set_map using mem by (rule rev_image_eqI) simp
  have terminal: "turn_terminal t" and st: "run_status run = Queued" and seq: "run_turnSequence run = 1"
    and own: "isConversationOwnedBy (executionContext t)
      (tenantConversationScopeKey (executionContext t) (turnConversation t)) (svc_store ?svc)"
    and same: "sameConversation (organizationId (executionContext t)) (assistantId (executionContext t))
      (turnConversation t) run"
    using ok by (simp_all only: finishingTurn_def)
  from finished_turn_schedules_next [OF terminal surjective_pairing own run st same, of "demoStep ''x''"]
  show ?thesis unfolding seq Let_def prod.collapse
    by (intro exI [of _ t] conjI t terminal)
qed

section \<open>Failures\<close>


definition leasedTurn :: "nat \<Rightarrow> string \<Rightarrow> turn \<Rightarrow> service \<Rightarrow> bool" where
  "leasedTurn i key t svc \<longleftrightarrow>
     turn_id t = i \<and> (case turn_await t of Executing call \<Rightarrow> True | _ \<Rightarrow> False) \<and>
     assertContext (executionContext t) = None \<and> runKey (executionContext t) (turn_runId t) = key \<and>
     (case map_get (runs (svc_store svc)) key of
        None \<Rightarrow> False
      | Some run \<Rightarrow> run_status run = Processing \<and> run_leaseOwner run = Some (turn_leaseOwner t)) \<and>
     isConversationOwnedBy (executionContext t) (tenantConversationScopeKey (executionContext t) (turnConversation t))
       (svc_store svc)"

definition someLeasedTurn :: "nat \<Rightarrow> string \<Rightarrow> service \<Rightarrow> bool" where
  "someLeasedTurn i key svc \<longleftrightarrow>
     (case map_get (svc_turns svc) i of None \<Rightarrow> False | Some t \<Rightarrow> leasedTurn i key t svc)"


section \<open>Two gaps\<close>

text \<open>
  A wake-up can be lost. A browser result that arrives after the action was dispatched, while the
  turn that dispatched it has not yet been unscheduled, puts the run back in the queue, but
  \<open>resumeRun\<close> finds the run still scheduled and returns; the turn then ends without scheduling it.
  The run stays queued with no turn, no task and no pending request.
\<close>

definition demoBrokerService0 :: service where
  "demoBrokerService0 = projr (newConcurrentRuntimeService (demoOptions\<lparr>opt_broker := Some demoService\<rparr>) ''u'' emptyStore)"

definition demoOpenResult :: browserBrokerResultRequest where
  "demoOpenResult = (demoResult ''rh'')\<lparr>rr_operationHash := operationHashOf id (OpenSession None)\<rparr>"

definition demoLostWakeup :: "svcEvent list" where
  "demoLostWakeup =
     [SubmitCall 0 demoCtx (demoInput ''1'') NoConfig 1 (demoIds ''1''), RequestResumes 0 (demoStep ''x''),
      OtherStoreOp (OpConnect demoCtx (demoConnect ''k1'') 4), OtherStoreOp (OpSetGrant demoCtx ''c'' ''cl'' True 4),
      TurnResumes 0 (demoStep ''lease''), TurnResumes 0 (demoStep ''reply''), TurnResumes 0 (demoStep ''x''),
      TurnResumes 0 (demoStep ''x''), TurnResumes 0 (demoStep ''x''),
      ExecutorSettles 0 (Inr (BrowserActionExecution ''t1'' (OpenSession None) JNull [])) (demoStep ''a1''),
      OtherStoreOp (OpResult demoCtx demoOpenResult ''tokk1'' 6),
      ResumeCall 1 demoCtx ''r1'' False, RequestResumes 1 (demoStep ''x'')] @
     replicate 6 (TurnResumes 0 (demoStep ''x''))"

definition strandedRun :: "service \<Rightarrow> bool" where
  "strandedRun svc \<longleftrightarrow>
     map run_status (map_values (runs (svc_store svc))) = [Queued] \<and>
     svc_turns svc = [] \<and> queues (svc_scheduler svc) = [] \<and> svc_scheduledRuns svc = [] \<and>
     list_all (\<lambda>r. case r of SubmitSettled (Inr a) \<Rightarrow> True | ResumeSettled None \<Rightarrow> True | _ \<Rightarrow> False)
       (map_values (svc_requests svc))"

theorem resume_can_be_lost:
  "\<exists>svc. reachableService id noURL (demoOptions\<lparr>opt_broker := Some demoService\<rparr>) svc \<and> strandedRun svc"
proof -
  let ?svc = "runEvents demoLostWakeup demoBrokerService0"
  have "isl (newConcurrentRuntimeService (demoOptions\<lparr>opt_broker := Some demoService\<rparr>) ''u'' emptyStore) = False"
    by code_simp
  then have "newConcurrentRuntimeService (demoOptions\<lparr>opt_broker := Some demoService\<rparr>) ''u'' emptyStore =
      Inr demoBrokerService0"
    by (metis demoBrokerService0_def sum.collapse(2))
  then have start: "reachableService id noURL (demoOptions\<lparr>opt_broker := Some demoService\<rparr>) demoBrokerService0"
    using reachableStore.initial by (rule reachableService.initial)
  have "enabledRun (svcStep id noURL) freshEvent demoLostWakeup demoBrokerService0" by code_simp
  then have "reachableService id noURL (demoOptions\<lparr>opt_broker := Some demoService\<rparr>) ?svc"
    unfolding runEvents_def using start by (rule reachable_events)
  moreover have "strandedRun ?svc" by code_simp
  ultimately show ?thesis by (intro exI [of _ ?svc] conjI)
qed

text \<open>
  A cancelled run's provider key is not blanked. Cancelling drops the config from the map, so the
  clean-up of the turn no longer finds the object whose key it would overwrite.
\<close>

definition demoConfig :: providerRequestConfig where
  "demoConfig = \<lparr>pc_provider = ''p'', pc_model = ''m'', pc_displayName = ''d'', pc_key = ''secret''\<rparr>"

definition demoCancelled :: "svcEvent list" where
  "demoCancelled =
     [SubmitCall 0 demoCtx (demoInput ''1'') (GivenConfig demoConfig) 1 (demoIds ''1''), RequestResumes 0 (demoStep ''x''),
      TurnResumes 1 (demoStep ''lease''), TurnResumes 1 (demoStep ''reply''), TurnResumes 1 (demoStep ''x''),
      TurnResumes 1 (demoStep ''x''), CancelRunCall 1 demoCtx ''r1'' 6, RequestResumes 1 (demoStep ''x''),
      ExecutorSettles 1 (Inl OtherThrown) (demoStep ''a'')] @ replicate 4 (TurnResumes 1 (demoStep ''x''))"

definition forgottenKey :: "string \<Rightarrow> service \<Rightarrow> bool" where
  "forgottenKey key svc \<longleftrightarrow> svc_turns svc = [] \<and> svc_providerConfigs svc = [] \<and>
     map pc_key (map_values (svc_configHeap svc)) = [key]"

theorem cancelled_key_not_blanked: "forgottenKey ''secret'' (runEvents demoCancelled demoService0)"
  by code_simp

end
