(* ===== verification/Grant_Proposals.thy ===== *)
theory Grant_Proposals
  imports Web_Url Stable_Json
begin

text \<open>
  Grant proposals of the credential executor (packages/service-contracts/src/grants.ts and
  rendering.ts): what a guardian is asked to approve, its canonical hash, and its rendering for
  the approval dialogue. \<open>sortKeysDeep\<close> is \<open>canonicalJson\<close>; the keys of a proposal are never
  integer-like, so the order of insertion is the order of output.
\<close>

datatype grantProposal =
    HttpGrantProposal (credentialHandle: string) (proposal_method: string) (proposal_url: string)
      (proposal_purpose: string) (allowedUrlPatterns: "string list option")
  | CommandGrantProposal (credentialHandle: string) (proposal_command: string)
      (proposal_purpose: string) (allowedCommandPatterns: "string list option")

fun proposalType :: "grantProposal \<Rightarrow> string" where
  "proposalType (HttpGrantProposal h m u p ps) = ''http''"
| "proposalType (CommandGrantProposal h c p ps) = ''command''"

definition patternsField :: "string \<Rightarrow> string list option \<Rightarrow> (string \<times> json) list" where
  "patternsField name ps = (case ps of None \<Rightarrow> [] | Some xs \<Rightarrow> [(name, JArr (map JStr xs))])"

fun proposalFields :: "grantProposal \<Rightarrow> (string \<times> json) list" where
  "proposalFields (HttpGrantProposal h m u p ps) =
     [(''type'', JStr ''http''), (''credentialHandle'', JStr h), (''method'', JStr m), (''url'', JStr u),
      (''purpose'', JStr p)] @ patternsField ''allowedUrlPatterns'' ps"
| "proposalFields (CommandGrantProposal h c p ps) =
     [(''type'', JStr ''command''), (''credentialHandle'', JStr h), (''command'', JStr c), (''purpose'', JStr p)] @
     patternsField ''allowedCommandPatterns'' ps"

definition canonicalJsonSerialize :: "json \<Rightarrow> string" where
  "canonicalJsonSerialize v = json_text (canonicalJson v)"

definition hashProposal :: "hasher \<Rightarrow> grantProposal \<Rightarrow> string" where
  "hashProposal sha p = sha (canonicalJsonSerialize (JObj (proposalFields p)))"

section \<open>Rendering\<close>

definition renderPatterns :: "string \<Rightarrow> string list option \<Rightarrow> string list" where
  "renderPatterns title ps =
     (case ps of
        None \<Rightarrow> []
      | Some xs \<Rightarrow> if xs = [] then [] else title # map (\<lambda>p. ''    - '' @ p) xs)"

definition renderHttpProposal :: "string \<Rightarrow> string \<Rightarrow> string \<Rightarrow> string \<Rightarrow> string list option \<Rightarrow> string" where
  "renderHttpProposal h m u p ps =
     joinWith [CHR 0x0A]
       ([''Authenticated HTTP Request'', ''  Method: '' @ m, ''  URL: '' @ u, ''  Credential: '' @ h,
         ''  Purpose: '' @ p] @ renderPatterns ''  Allowed URL patterns:'' ps)"

definition renderCommandProposal :: "string \<Rightarrow> string \<Rightarrow> string \<Rightarrow> string list option \<Rightarrow> string" where
  "renderCommandProposal h c p ps =
     joinWith [CHR 0x0A]
       ([''Authenticated Command Execution'', ''  Command: '' @ c, ''  Credential: '' @ h, ''  Purpose: '' @ p] @
        renderPatterns ''  Allowed command patterns:'' ps)"

fun renderProposal :: "grantProposal \<Rightarrow> string" where
  "renderProposal (HttpGrantProposal h m u p ps) = renderHttpProposal h m u p ps"
| "renderProposal (CommandGrantProposal h c p ps) = renderCommandProposal h c p ps"

section \<open>The hash identifies the proposal\<close>

text \<open>A reader of the fields back into a proposal.\<close>

definition strField :: "(string \<Rightarrow> json option) \<Rightarrow> string \<Rightarrow> string" where
  "strField m k = (case m k of Some (JStr s) \<Rightarrow> s | _ \<Rightarrow> [])"

fun strOf :: "json \<Rightarrow> string" where
  "strOf (JStr s) = s"
| "strOf _ = []"

definition listField :: "(string \<Rightarrow> json option) \<Rightarrow> string \<Rightarrow> string list option" where
  "listField m k = (case m k of Some (JArr xs) \<Rightarrow> Some (map strOf xs) | _ \<Rightarrow> None)"

definition proposalOf :: "(string \<Rightarrow> json option) \<Rightarrow> grantProposal" where
  "proposalOf m =
     (if strField m ''type'' = ''http''
      then HttpGrantProposal (strField m ''credentialHandle'') (strField m ''method'') (strField m ''url'')
        (strField m ''purpose'') (listField m ''allowedUrlPatterns'')
      else CommandGrantProposal (strField m ''credentialHandle'') (strField m ''command'') (strField m ''purpose'')
        (listField m ''allowedCommandPatterns''))"

lemma proposal_readback: "proposalOf (map_of (proposalFields p)) = p"
  by (cases p) (auto simp: proposalOf_def strField_def listField_def patternsField_def comp_def split: option.split)

lemma proposalFields_distinct: "distinct (map fst (proposalFields p))"
  by (cases p) (auto simp: patternsField_def split: option.split)

lemma proposalFields_plain: "(k, v) \<in> set (proposalFields p) \<Longrightarrow> canonicalJson v = v"
  by (cases p) (auto simp: patternsField_def comp_def split: option.splits)

lemma canonical_proposal: "canonicalJson (JObj (proposalFields p)) = JObj (sort_key fst (proposalFields p))"
proof -
  have "map (\<lambda>kv. (fst kv, canonicalJson (snd kv))) (sort_key fst (proposalFields p)) = sort_key fst (proposalFields p)"
    using proposalFields_plain [of _ _ p] by (intro map_idI) (auto simp: prod_eq_iff)
  then show ?thesis by simp
qed

lemma serialize_proposal_inj:
  "canonicalJsonSerialize (JObj (proposalFields p)) = canonicalJsonSerialize (JObj (proposalFields q)) \<longleftrightarrow> p = q"
proof
  assume "canonicalJsonSerialize (JObj (proposalFields p)) = canonicalJsonSerialize (JObj (proposalFields q))"
  then have "JObj (sort_key fst (proposalFields p)) = JObj (sort_key fst (proposalFields q))"
    by (simp only: canonicalJsonSerialize_def json_text_inj canonical_proposal)
  then have "sort_key fst (proposalFields p) = sort_key fst (proposalFields q)" by simp
  then have "set (proposalFields p) = set (proposalFields q)" by (metis set_sort)
  then have "map_of (proposalFields p) = map_of (proposalFields q)"
    by (simp add: map_of_inject_set proposalFields_distinct)
  then show "p = q" by (metis proposal_readback)
qed simp

text \<open>
  The text shown to the guardian does not identify the proposal: a purpose with line breaks reads
  like the lines of another proposal.
\<close>

theorem render_ambiguous:
  "let purpose = ''read'' @ CHR 0x0A # ''  Allowed URL patterns:'' @ CHR 0x0A # ''    - https://a.example/x'';
       p = HttpGrantProposal ''h'' ''GET'' ''https://b.example/'' purpose None;
       q = HttpGrantProposal ''h'' ''GET'' ''https://b.example/'' ''read'' (Some [''https://a.example/x''])
   in p \<noteq> q \<and> renderProposal p = renderProposal q"
  by code_simp

end
