(* ===== verification/Grant_Stores.thy ===== *)
theory Grant_Stores
  imports Grant_Proposals
begin

text \<open>
  The grant stores of the credential executor (credential-executor/src/grants): the in-memory
  store of temporary grants (temporary-store.ts) and the file-backed store of persistent grants
  (persistent-store.ts). Operations take the instant they run at. The file is modelled by the cases
  \<open>loadFromDisk\<close> tells apart, and a write by its outcomes: the temporary file is renamed over the
  old one or the write fails before that, and the final \<open>chmod\<close> may fail after it.
\<close>

section \<open>Temporary grants\<close>

datatype temporaryGrantKind = AllowOnce | Allow10m | AllowConversation

definition kindText :: "temporaryGrantKind \<Rightarrow> string" where
  "kindText k = (case k of AllowOnce \<Rightarrow> ''allow_once'' | Allow10m \<Rightarrow> ''allow_10m'' | AllowConversation \<Rightarrow> ''allow_conversation'')"

record temporaryGrant =
  tg_kind :: temporaryGrantKind
  tg_proposalHash :: string
  tg_conversationId :: "string option"
  tg_createdAt :: int
  tg_expiresAt :: "int option"

type_synonym temporaryGrantStore = "(string, temporaryGrant) js_Map"

definition DEFAULT_TIMED_DURATION_MS :: int where
  "DEFAULT_TIMED_DURATION_MS = 10 * 60 * 1000"

text \<open>\<open>None\<close> when it throws: a conversation grant needs a conversation.\<close>

definition storageKey :: "temporaryGrantKind \<Rightarrow> string \<Rightarrow> string option \<Rightarrow> string option" where
  "storageKey kind hash conversation =
     (if kind = AllowConversation then
        (if \<not> truthy conversation then None
         else Some (''conversation:'' @ the conversation @ '':'' @ hash))
      else Some (kindText kind @ '':'' @ hash))"

definition addTemporary ::
    "temporaryGrantKind \<Rightarrow> string \<Rightarrow> string option \<Rightarrow> int option \<Rightarrow> int \<Rightarrow> temporaryGrantStore \<Rightarrow> temporaryGrantStore option" where
  "addTemporary kind hash conversation durationMs now s =
     (case storageKey kind hash conversation of
        None \<Rightarrow> None
      | Some key \<Rightarrow> Some (map_set key
          \<lparr>tg_kind = kind, tg_proposalHash = hash,
           tg_conversationId = (if truthy conversation then conversation else None), tg_createdAt = now,
           tg_expiresAt =
             (if kind = Allow10m then Some (now + get_or DEFAULT_TIMED_DURATION_MS durationMs)
              else if kind = AllowOnce then map_option (\<lambda>d. now + d) durationMs
              else None)\<rparr> s))"

definition expired :: "int \<Rightarrow> temporaryGrant \<Rightarrow> bool" where
  "expired now g \<longleftrightarrow> (case tg_expiresAt g of None \<Rightarrow> False | Some t \<Rightarrow> t \<le> now)"

definition checkTemporary ::
    "temporaryGrantKind \<Rightarrow> string \<Rightarrow> string option \<Rightarrow> int \<Rightarrow> temporaryGrantStore \<Rightarrow> (bool \<times> temporaryGrantStore) option" where
  "checkTemporary kind hash conversation now s =
     (case storageKey kind hash conversation of
        None \<Rightarrow> None
      | Some key \<Rightarrow>
          Some (case map_get s key of
             None \<Rightarrow> (False, s)
           | Some g \<Rightarrow>
               (case tg_kind g of
                  AllowOnce \<Rightarrow> (\<not> expired now g, map_delete key s)
                | Allow10m \<Rightarrow> if expired now g then (False, map_delete key s) else (True, s)
                | AllowConversation \<Rightarrow> (True, s))))"

text \<open>Kinds that are not bound to a conversation never throw.\<close>

definition checkKind :: "temporaryGrantKind \<Rightarrow> string \<Rightarrow> int \<Rightarrow> temporaryGrantStore \<Rightarrow> bool \<times> temporaryGrantStore" where
  "checkKind kind hash now s = the (checkTemporary kind hash None now s)"

definition checkAny ::
    "string \<Rightarrow> string option \<Rightarrow> int \<Rightarrow> temporaryGrantStore \<Rightarrow> temporaryGrantKind option \<times> temporaryGrantStore" where
  "checkAny hash conversation now s =
     (case checkKind AllowOnce hash now s of
        (True, s1) \<Rightarrow> (Some AllowOnce, s1)
      | (False, s1) \<Rightarrow>
          (case checkKind Allow10m hash now s1 of
             (True, s2) \<Rightarrow> (Some Allow10m, s2)
           | (False, s2) \<Rightarrow>
               if truthy conversation then
                 (case checkTemporary AllowConversation hash conversation now s2 of
                    Some (True, s3) \<Rightarrow> (Some AllowConversation, s3)
                  | Some (False, s3) \<Rightarrow> (None, s3)
                  | None \<Rightarrow> (None, s2))
               else (None, s2)))"

definition removeTemporary ::
    "temporaryGrantKind \<Rightarrow> string \<Rightarrow> string option \<Rightarrow> temporaryGrantStore \<Rightarrow> (bool \<times> temporaryGrantStore) option" where
  "removeTemporary kind hash conversation s =
     (case storageKey kind hash conversation of
        None \<Rightarrow> None
      | Some key \<Rightarrow> Some (map_get s key \<noteq> None, map_delete key s))"

definition clearConversation :: "string \<Rightarrow> temporaryGrantStore \<Rightarrow> temporaryGrantStore" where
  "clearConversation conversation s =
     filter (\<lambda>(key, g). \<not> startsWith key (''conversation:'' @ conversation @ '':'')) s"

definition clearTemporary :: "temporaryGrantStore \<Rightarrow> temporaryGrantStore" where
  "clearTemporary s = []"

definition temporarySize :: "temporaryGrantStore \<Rightarrow> nat" where
  "temporarySize s = length s"

section \<open>Persistent grants\<close>

record persistentGrant =
  pg_id :: string
  pg_tool :: string
  pg_pattern :: string
  pg_scope :: string
  pg_createdAt :: int
  pg_sessionId :: "string option"
  pg_revokedAt :: "int option"
  pg_revokedReason :: "string option"

datatype diskFile = FileMissing | FileUnreadable | NotAGrantsObject | UnsupportedVersion | GrantsNotArray
  | GrantsFile "persistentGrant list"

datatype writeOutcome = WriteOk | WriteFails | ChmodFails

datatype grantStoreError = StoreCorrupt | FileMalformed | VersionUnsupported | ReadFailed | WriteError

record persistentGrantStore =
  ps_file :: diskFile
  ps_corrupt :: bool

type_synonym 'a grantOutcome = "(grantStoreError + 'a) \<times> persistentGrantStore"

definition assertNotCorrupt :: "persistentGrantStore \<Rightarrow> grantStoreError option" where
  "assertNotCorrupt s = (if ps_corrupt s then Some StoreCorrupt else None)"

definition loadFromDisk :: "persistentGrantStore \<Rightarrow> persistentGrant list grantOutcome" where
  "loadFromDisk s =
     (case ps_file s of
        GrantsFile grants \<Rightarrow> (Inr grants, s)
      | NotAGrantsObject \<Rightarrow> (Inl FileMalformed, s\<lparr>ps_corrupt := True\<rparr>)
      | UnsupportedVersion \<Rightarrow> (Inl VersionUnsupported, s\<lparr>ps_corrupt := True\<rparr>)
      | GrantsNotArray \<Rightarrow> (Inl FileMalformed, s\<lparr>ps_corrupt := True\<rparr>)
      | FileMissing \<Rightarrow> (Inl ReadFailed, s\<lparr>ps_corrupt := True\<rparr>)
      | FileUnreadable \<Rightarrow> (Inl ReadFailed, s\<lparr>ps_corrupt := True\<rparr>))"

definition writeToDisk :: "writeOutcome \<Rightarrow> persistentGrant list \<Rightarrow> persistentGrantStore \<Rightarrow> unit grantOutcome" where
  "writeToDisk w grants s =
     (case w of
        WriteOk \<Rightarrow> (Inr (), s\<lparr>ps_file := GrantsFile grants\<rparr>)
      | WriteFails \<Rightarrow> (Inl WriteError, s)
      | ChmodFails \<Rightarrow> (Inl WriteError, s\<lparr>ps_file := GrantsFile grants\<rparr>))"

text \<open>Sequencing: an error ends the operation, what was done before it stays.\<close>

definition andThen :: "'a grantOutcome \<Rightarrow> ('a \<Rightarrow> persistentGrantStore \<Rightarrow> 'b grantOutcome) \<Rightarrow> 'b grantOutcome" where
  "andThen r f = (case r of (Inl e, s) \<Rightarrow> (Inl e, s) | (Inr x, s) \<Rightarrow> f x s)"

definition guarded :: "persistentGrantStore \<Rightarrow> 'a grantOutcome \<Rightarrow> 'a grantOutcome" where
  "guarded s r = (case assertNotCorrupt s of Some e \<Rightarrow> (Inl e, s) | None \<Rightarrow> r)"

definition initPersistent :: "writeOutcome \<Rightarrow> persistentGrantStore \<Rightarrow> unit grantOutcome" where
  "initPersistent w s =
     (if ps_file s = FileMissing then writeToDisk w [] s
      else andThen (loadFromDisk s) (\<lambda>grants s1.
        if list_ex (\<lambda>g. pg_sessionId g = None) grants
        then writeToDisk w
          (map (\<lambda>g. if pg_sessionId g = None then g\<lparr>pg_sessionId := Some ''unknown''\<rparr> else g) grants) s1
        else (Inr (), s1)))"

definition getAllIncludingRevoked :: "persistentGrantStore \<Rightarrow> persistentGrant list grantOutcome" where
  "getAllIncludingRevoked s =
     guarded s (if ps_file s = FileMissing then (Inr [], s) else loadFromDisk s)"

definition isActive :: "persistentGrant \<Rightarrow> bool" where
  "isActive g \<longleftrightarrow> pg_revokedAt g = None"

definition getAll :: "persistentGrantStore \<Rightarrow> persistentGrant list grantOutcome" where
  "getAll s = andThen (getAllIncludingRevoked s) (\<lambda>grants s1. (Inr (filter isActive grants), s1))"

definition getById :: "string \<Rightarrow> persistentGrantStore \<Rightarrow> persistentGrant option grantOutcome" where
  "getById i s = andThen (getAll s) (\<lambda>grants s1. (Inr (find (\<lambda>g. pg_id g = i) grants), s1))"

text \<open>Changing the first grant with an identifier, as \<open>find\<close> and an assignment do.\<close>

fun updateFirst :: "('a \<Rightarrow> bool) \<Rightarrow> ('a \<Rightarrow> 'a) \<Rightarrow> 'a list \<Rightarrow> 'a list" where
  "updateFirst P f [] = []"
| "updateFirst P f (x # xs) = (if P x then f x # xs else x # updateFirst P f xs)"

definition reactivated :: "persistentGrant \<Rightarrow> persistentGrant \<Rightarrow> persistentGrant" where
  "reactivated grant existing =
     existing\<lparr>pg_tool := pg_tool grant, pg_pattern := pg_pattern grant, pg_scope := pg_scope grant,
       pg_createdAt := pg_createdAt grant, pg_sessionId := pg_sessionId grant, pg_revokedAt := None,
       pg_revokedReason := None\<rparr>"

definition addPersistent :: "writeOutcome \<Rightarrow> persistentGrant \<Rightarrow> persistentGrantStore \<Rightarrow> bool grantOutcome" where
  "addPersistent w grant s =
     guarded s (andThen (loadFromDisk s) (\<lambda>grants s1.
       case find (\<lambda>g. pg_id g = pg_id grant) grants of
         Some existing \<Rightarrow>
           if isActive existing then (Inr False, s1)
           else andThen (writeToDisk w (updateFirst (\<lambda>g. pg_id g = pg_id grant) (reactivated grant) grants) s1)
                  (\<lambda>_ s2. (Inr True, s2))
       | None \<Rightarrow> andThen (writeToDisk w (grants @ [grant]) s1) (\<lambda>_ s2. (Inr True, s2))))"

fun removeFirst :: "('a \<Rightarrow> bool) \<Rightarrow> 'a list \<Rightarrow> 'a list" where
  "removeFirst P [] = []"
| "removeFirst P (x # xs) = (if P x then xs else x # removeFirst P xs)"

definition removePersistent :: "writeOutcome \<Rightarrow> string \<Rightarrow> persistentGrantStore \<Rightarrow> bool grantOutcome" where
  "removePersistent w i s =
     guarded s (andThen (loadFromDisk s) (\<lambda>grants s1.
       if findIndex (\<lambda>g. pg_id g = i) grants = None then (Inr False, s1)
       else andThen (writeToDisk w (removeFirst (\<lambda>g. pg_id g = i) grants) s1) (\<lambda>_ s2. (Inr True, s2))))"

definition markRevoked :: "writeOutcome \<Rightarrow> string \<Rightarrow> string option \<Rightarrow> int \<Rightarrow> persistentGrantStore \<Rightarrow> bool grantOutcome" where
  "markRevoked w i reason now s =
     guarded s (andThen (loadFromDisk s) (\<lambda>grants s1.
       case find (\<lambda>g. pg_id g = i) grants of
         None \<Rightarrow> (Inr False, s1)
       | Some g \<Rightarrow>
           if \<not> isActive g then (Inr False, s1)
           else andThen (writeToDisk w
                  (updateFirst (\<lambda>g. pg_id g = i)
                    (\<lambda>g. g\<lparr>pg_revokedAt := Some now, pg_revokedReason := reason\<rparr>) grants) s1)
                  (\<lambda>_ s2. (Inr True, s2))))"

definition hasGrant :: "string \<Rightarrow> persistentGrantStore \<Rightarrow> bool grantOutcome" where
  "hasGrant i s = andThen (getById i s) (\<lambda>g s1. (Inr (g \<noteq> None), s1))"

definition clearPersistent :: "writeOutcome \<Rightarrow> persistentGrantStore \<Rightarrow> unit grantOutcome" where
  "clearPersistent w s = guarded s (writeToDisk w [] s)"

end
