(* ===== verification/Http_Policy.thy ===== *)
theory Http_Policy
  imports Grant_Stores
begin

text \<open>
  The HTTP policy of the credential executor: path templates
  (credential-executor/src/http/path-template.ts), the evaluation of a request against the grants
  (http/policy.ts), and the RPC handlers that record, list and revoke grants
  (grants/rpc-handlers.ts). The URL parser and the hash function are parameters.
\<close>

section \<open>Path templates\<close>

definition safeDecodeSegment :: "string \<Rightarrow> codePoints option" where
  "safeDecodeSegment segment = decodeURIComponent segment"

definition isDigitPoint :: "nat \<Rightarrow> bool" where
  "isDigitPoint n \<longleftrightarrow> 48 \<le> n \<and> n \<le> 57"

definition isHexPoint :: "nat \<Rightarrow> bool" where
  "isHexPoint n \<longleftrightarrow> isDigitPoint n \<or> (65 \<le> n \<and> n \<le> 70) \<or> (97 \<le> n \<and> n \<le> 102)"

text \<open>\<open>UUID_RE\<close>, \<open>NUMERIC_RE\<close> and \<open>HEX_LONG_RE\<close>.\<close>

definition isUuid :: "codePoints \<Rightarrow> bool" where
  "isUuid s \<longleftrightarrow> length s = 36 \<and>
     list_all (\<lambda>i. if i \<in> {8, 13, 18, 23} then s ! i = 45 else isHexPoint (s ! i)) [0..<36]"

definition isNumeric :: "codePoints \<Rightarrow> bool" where
  "isNumeric s \<longleftrightarrow> s \<noteq> [] \<and> list_all isDigitPoint s"

definition isLongHex :: "codePoints \<Rightarrow> bool" where
  "isLongHex s \<longleftrightarrow> 16 \<le> length s \<and> list_all isHexPoint s"

definition PLACEHOLDER_LITERALS :: "string list" where
  "PLACEHOLDER_LITERALS = [''{:num}'', ''{:uuid}'', ''{:hex}'']"

definition placeholderFor :: "codePoints \<Rightarrow> string option" where
  "placeholderFor s =
     (if isUuid s then Some ''{:uuid}''
      else if isNumeric s then Some ''{:num}''
      else if isLongHex s then Some ''{:hex}''
      else None)"

definition classifySegment :: "codePoints \<Rightarrow> codePoints" where
  "classifySegment s = (case placeholderFor s of Some p \<Rightarrow> points p | None \<Rightarrow> s)"

definition pathSegments :: "parsedUrl \<Rightarrow> string list" where
  "pathSegments u = filter (\<lambda>s. s \<noteq> []) (splitOn (CHR ''/'') (url_pathname u))"

definition decodedOrRaw :: "string \<Rightarrow> codePoints" where
  "decodedOrRaw segment = get_or (points segment) (safeDecodeSegment segment)"

definition hostOf :: "parsedUrl \<Rightarrow> string" where
  "hostOf u = url_hostname u @ (if url_port u \<noteq> [] then CHR '':'' # url_port u else [])"

definition dropColon :: "string \<Rightarrow> string" where
  "dropColon s = (if s \<noteq> [] \<and> last s = CHR '':'' then butlast s else s)"

datatype templateError = InvalidUrl | ReservedPlaceholder codePoints

definition templateSegment :: "string \<Rightarrow> string" where
  "templateSegment raw =
     (let decoded = decodedOrRaw raw in
      if classifySegment decoded \<noteq> decoded then the (placeholderFor decoded) else raw)"

definition templateText :: "parsedUrl \<Rightarrow> string" where
  "templateText u =
     (let templated = map templateSegment (pathSegments u) in
      dropColon (url_protocol u) @ ''://'' @ hostOf u @
      (if templated \<noteq> [] then CHR ''/'' # joinWith ''/'' templated else ''/''))"

definition derivePathTemplate :: "urlParser \<Rightarrow> string \<Rightarrow> templateError + string" where
  "derivePathTemplate newURL rawUrl =
     (case newURL rawUrl of
        None \<Rightarrow> Inl InvalidUrl
      | Some u \<Rightarrow>
          (case find (\<lambda>s. s \<in> set (map points PLACEHOLDER_LITERALS)) (map decodedOrRaw (pathSegments u)) of
             Some seg \<Rightarrow> Inl (ReservedPlaceholder seg)
           | None \<Rightarrow> Inr (templateText u)))"

definition deriveAllowedUrlPatterns :: "urlParser \<Rightarrow> string \<Rightarrow> templateError + string list" where
  "deriveAllowedUrlPatterns newURL rawUrl = map_sum id (\<lambda>t. [t]) (derivePathTemplate newURL rawUrl)"

definition segmentMatches :: "codePoints \<Rightarrow> codePoints \<Rightarrow> bool" where
  "segmentMatches t u \<longleftrightarrow>
     (if t = points ''{:num}'' then isNumeric u
      else if t = points ''{:uuid}'' then isUuid u
      else if t = points ''{:hex}'' then isLongHex u
      else t = u)"

definition lowerHost :: "parsedUrl \<Rightarrow> string" where
  "lowerHost u = toLowerCase (url_hostname u) @ (if url_port u \<noteq> [] then CHR '':'' # url_port u else [])"

definition urlMatchesTemplate :: "urlParser \<Rightarrow> string \<Rightarrow> string \<Rightarrow> bool" where
  "urlMatchesTemplate newURL rawUrl template \<longleftrightarrow>
     (case (newURL rawUrl, newURL template) of
        (Some u, Some t) \<Rightarrow>
          url_protocol u = url_protocol t \<and> lowerHost u = lowerHost t \<and>
          (let us = map safeDecodeSegment (pathSegments u); ts = map safeDecodeSegment (pathSegments t) in
           None \<notin> set us \<and> None \<notin> set ts \<and> length us = length ts \<and>
           list_all (\<lambda>(t, u). segmentMatches (the t) (the u)) (zip ts us))
      | _ \<Rightarrow> False)"

section \<open>Policy\<close>

definition FORBIDDEN_CALLER_HEADERS :: "string list" where
  "FORBIDDEN_CALLER_HEADERS =
     [''authorization'', ''cookie'', ''proxy-authorization'', ''x-api-key'', ''x-auth-token'']"

definition detectForbiddenHeaders :: "(string \<times> string) list option \<Rightarrow> string list" where
  "detectForbiddenHeaders headers =
     (case headers of
        None \<Rightarrow> []
      | Some hs \<Rightarrow> filter (\<lambda>key. toLowerCase key \<in> set FORBIDDEN_CALLER_HEADERS) (map fst hs))"

datatype grantSource = PersistentSource | TemporarySource

datatype policyResult =
    PolicyAllowed string grantSource
  | ForbiddenHeaders "string list"
  | ApprovalRequired grantProposal

record httpPolicyRequest =
  hr_credentialHandle :: string
  hr_method :: string
  hr_url :: string
  hr_headers :: "(string \<times> string) list option"
  hr_purpose :: string
  hr_grantId :: "string option"
  hr_conversationId :: "string option"

record credentialState =
  cs_persistent :: persistentGrantStore
  cs_temporary :: temporaryGrantStore

datatype credentialError = TemplateFailed templateError | GrantStoreFailed grantStoreError | ConversationRequired

type_synonym 'a credentialOutcome = "(credentialError + 'a) \<times> credentialState"

definition grantCoversRequest :: "urlParser \<Rightarrow> persistentGrant \<Rightarrow> string \<Rightarrow> string \<Rightarrow> string \<Rightarrow> bool" where
  "grantCoversRequest newURL grant handle httpMethod rawUrl \<longleftrightarrow>
     pg_scope grant = handle \<and>
     (case findIndex (\<lambda>c. c = CHR '' '') (pg_pattern grant) of
        None \<Rightarrow> urlMatchesTemplate newURL rawUrl (pg_pattern grant)
      | Some i \<Rightarrow>
          toUpperCase (take i (pg_pattern grant)) = toUpperCase httpMethod \<and>
          urlMatchesTemplate newURL rawUrl (drop (i + 1) (pg_pattern grant)))"

definition httpGrantFor :: "urlParser \<Rightarrow> httpPolicyRequest \<Rightarrow> persistentGrant \<Rightarrow> bool" where
  "httpGrantFor newURL request grant \<longleftrightarrow>
     pg_tool grant = ''http'' \<and>
     grantCoversRequest newURL grant (hr_credentialHandle request) (hr_method request) (hr_url request)"

definition buildProposal :: "urlParser \<Rightarrow> httpPolicyRequest \<Rightarrow> templateError + grantProposal" where
  "buildProposal newURL request =
     (case deriveAllowedUrlPatterns newURL (hr_url request) of
        Inl e \<Rightarrow> Inl e
      | Inr patterns \<Rightarrow> Inr (HttpGrantProposal (hr_credentialHandle request) (toUpperCase (hr_method request))
          (hr_url request) (hr_purpose request) (Some patterns)))"

text \<open>Step 2: an explicit grant identifier; \<open>Inr None\<close> falls through.\<close>

definition explicitGrant :: "urlParser \<Rightarrow> httpPolicyRequest \<Rightarrow> persistentGrantStore \<Rightarrow> persistentGrant option grantOutcome" where
  "explicitGrant newURL request s =
     (if truthy (hr_grantId request) then
        andThen (getById (the (hr_grantId request)) s) (\<lambda>g s1.
          (Inr (case g of None \<Rightarrow> None | Some grant \<Rightarrow> if httpGrantFor newURL request grant then Some grant else None), s1))
      else (Inr None, s))"

text \<open>Steps 4 and 5: temporary grants, or a proposal.\<close>

definition temporaryOrProposal ::
    "hasher \<Rightarrow> grantProposal \<Rightarrow> string option \<Rightarrow> int \<Rightarrow> temporaryGrantStore \<Rightarrow> policyResult \<times> temporaryGrantStore" where
  "temporaryOrProposal sha proposal conversation now s =
     (let hash = hashProposal sha proposal in
      case checkAny hash conversation now s of
        (Some kind, s1) \<Rightarrow> (PolicyAllowed (''temp:'' @ kindText kind @ '':'' @ hash) TemporarySource, s1)
      | (None, s1) \<Rightarrow> (ApprovalRequired proposal, s1))"

definition evaluateHttpPolicy ::
    "hasher \<Rightarrow> urlParser \<Rightarrow> httpPolicyRequest \<Rightarrow> int \<Rightarrow> credentialState \<Rightarrow> policyResult credentialOutcome" where
  "evaluateHttpPolicy sha newURL request now cs =
     (let forbidden = detectForbiddenHeaders (hr_headers request) in
      if forbidden \<noteq> [] then (Inr (ForbiddenHeaders forbidden), cs)
      else
        (case explicitGrant newURL request (cs_persistent cs) of
           (Inl e, p1) \<Rightarrow> (Inl (GrantStoreFailed e), cs\<lparr>cs_persistent := p1\<rparr>)
         | (Inr (Some grant), p1) \<Rightarrow> (Inr (PolicyAllowed (pg_id grant) PersistentSource), cs\<lparr>cs_persistent := p1\<rparr>)
         | (Inr None, p1) \<Rightarrow>
             (case derivePathTemplate newURL (hr_url request) of
                Inl e \<Rightarrow> (Inl (TemplateFailed e), cs\<lparr>cs_persistent := p1\<rparr>)
              | Inr pathTemplate \<Rightarrow>
                  (case getAll p1 of
                     (Inl e, p2) \<Rightarrow> (Inl (GrantStoreFailed e), cs\<lparr>cs_persistent := p2\<rparr>)
                   | (Inr grants, p2) \<Rightarrow>
                       (case find (httpGrantFor newURL request) grants of
                          Some grant \<Rightarrow>
                            (Inr (PolicyAllowed (pg_id grant) PersistentSource), cs\<lparr>cs_persistent := p2\<rparr>)
                        | None \<Rightarrow>
                            (case buildProposal newURL request of
                               Inl e \<Rightarrow> (Inl (TemplateFailed e), cs\<lparr>cs_persistent := p2\<rparr>)
                             | Inr proposal \<Rightarrow>
                                 (case temporaryOrProposal sha proposal (hr_conversationId request) now (cs_temporary cs) of
                                    (result, t1) \<Rightarrow> (Inr result, cs\<lparr>cs_persistent := p2, cs_temporary := t1\<rparr>))))))))"

section \<open>RPC handlers\<close>

text \<open>Instants are milliseconds; the records carry them as ISO-8601 text.\<close>

datatype grantType = GrantOnce | Grant10m | GrantConversation | GrantAlways

record temporaryGrantDecision =
  dec_proposal :: grantProposal
  dec_proposalHash :: string
  dec_approved :: bool
  dec_decidedBy :: string
  dec_decidedAt :: string
  dec_reason :: "string option"
  dec_ttl :: "string option"
  dec_grantType :: "grantType option"

record recordGrantRequest =
  rg_decision :: temporaryGrantDecision
  rg_sessionId :: string
  rg_conversationId :: "string option"

datatype grantStatus = StatusActive | StatusExpired | StatusRevoked | StatusConsumed

record persistentGrantRecord =
  gr_grantId :: string
  gr_sessionId :: "string option"
  gr_credentialHandle :: string
  gr_proposalType :: string
  gr_proposalHash :: string
  gr_allowedPurposes :: "string list"
  gr_status :: grantStatus
  gr_grantedBy :: string
  gr_createdAt :: int
  gr_expiresAt :: "int option"
  gr_consumedAt :: "int option"
  gr_revokedAt :: "int option"

definition projectGrant :: "persistentGrant \<Rightarrow> persistentGrantRecord" where
  "projectGrant grant =
     \<lparr>gr_grantId = pg_id grant, gr_sessionId = pg_sessionId grant, gr_credentialHandle = pg_scope grant,
      gr_proposalType = (if pg_tool grant = ''http'' \<or> pg_tool grant = ''command'' then pg_tool grant else ''command''),
      gr_proposalHash = pg_id grant, gr_allowedPurposes = [pg_pattern grant],
      gr_status = (if pg_revokedAt grant \<noteq> None then StatusRevoked else StatusActive), gr_grantedBy = ''user'',
      gr_createdAt = pg_createdAt grant, gr_expiresAt = None, gr_consumedAt = None,
      gr_revokedAt = pg_revokedAt grant\<rparr>"

definition firstPattern :: "string list option \<Rightarrow> string \<Rightarrow> string" where
  "firstPattern ps fallback = (case ps of Some (p # rest) \<Rightarrow> p | _ \<Rightarrow> fallback)"

fun grantPattern :: "grantProposal \<Rightarrow> string" where
  "grantPattern (HttpGrantProposal h m u p ps) = m @ '' '' @ firstPattern ps u"
| "grantPattern (CommandGrantProposal h c p ps) = firstPattern ps c"

fun grantPurposes :: "grantProposal \<Rightarrow> string list" where
  "grantPurposes (HttpGrantProposal h m u p ps) = get_or [m @ '' '' @ u] ps"
| "grantPurposes (CommandGrantProposal h c p ps) = get_or [c] ps"

definition persistentGrantOf :: "temporaryGrantDecision \<Rightarrow> string \<Rightarrow> int \<Rightarrow> persistentGrant" where
  "persistentGrantOf decision sessionId now =
     \<lparr>pg_id = dec_proposalHash decision, pg_tool = proposalType (dec_proposal decision),
      pg_pattern = grantPattern (dec_proposal decision), pg_scope = credentialHandle (dec_proposal decision),
      pg_createdAt = now, pg_sessionId = Some sessionId, pg_revokedAt = None, pg_revokedReason = None\<rparr>"

definition temporaryGrantOf ::
    "grantType \<Rightarrow> recordGrantRequest \<Rightarrow> int \<Rightarrow> temporaryGrantStore \<Rightarrow> temporaryGrantStore option" where
  "temporaryGrantOf grantType request now s =
     (let hash = dec_proposalHash (rg_decision request) in
      case grantType of
        Grant10m \<Rightarrow> addTemporary Allow10m hash None None now s
      | GrantConversation \<Rightarrow>
          addTemporary AllowConversation hash (Some (get_or (rg_sessionId request) (rg_conversationId request))) None now s
      | _ \<Rightarrow> addTemporary AllowOnce hash None None now s)"

definition grantRecordOf :: "recordGrantRequest \<Rightarrow> int \<Rightarrow> persistentGrantRecord" where
  "grantRecordOf request now =
     (let decision = rg_decision request; proposal = dec_proposal decision in
      \<lparr>gr_grantId = dec_proposalHash decision, gr_sessionId = Some (rg_sessionId request),
       gr_credentialHandle = credentialHandle proposal, gr_proposalType = proposalType proposal,
       gr_proposalHash = dec_proposalHash decision, gr_allowedPurposes = grantPurposes proposal,
       gr_status = StatusActive, gr_grantedBy = dec_decidedBy decision, gr_createdAt = now,
       gr_expiresAt = (if dec_ttl decision = Some ''PT10M'' then Some (now + 10 * 60 * 1000) else None),
       gr_consumedAt = None, gr_revokedAt = None\<rparr>)"

text \<open>\<open>record_grant\<close>: the answer carries the record of an approved grant.\<close>

definition recordGrant ::
    "writeOutcome \<Rightarrow> recordGrantRequest \<Rightarrow> int \<Rightarrow> credentialState \<Rightarrow> persistentGrantRecord option credentialOutcome" where
  "recordGrant w request now cs =
     (let decision = rg_decision request; grantType = get_or GrantAlways (dec_grantType decision) in
      if \<not> dec_approved decision then (Inr None, cs)
      else
        (case (if grantType = GrantAlways
               then addPersistent w (persistentGrantOf decision (rg_sessionId request) now) (cs_persistent cs)
               else (Inr False, cs_persistent cs)) of
           (Inl e, p1) \<Rightarrow> (Inl (GrantStoreFailed e), cs\<lparr>cs_persistent := p1\<rparr>)
         | (Inr added, p1) \<Rightarrow>
             (case temporaryGrantOf grantType request now (cs_temporary cs) of
                None \<Rightarrow> (Inl ConversationRequired, cs\<lparr>cs_persistent := p1\<rparr>)
              | Some t1 \<Rightarrow>
                  (Inr (Some (grantRecordOf request now)), cs\<lparr>cs_persistent := p1, cs_temporary := t1\<rparr>))))"

record listGrantsRequest =
  lg_sessionId :: "string option"
  lg_credentialHandle :: "string option"
  lg_status :: "grantStatus option"

definition listGrants :: "listGrantsRequest \<Rightarrow> persistentGrantStore \<Rightarrow> persistentGrantRecord list grantOutcome" where
  "listGrants request s =
     andThen (getAllIncludingRevoked s) (\<lambda>grants s1.
       (Inr (filter (\<lambda>g.
           (\<not> truthy (lg_sessionId request) \<or> gr_sessionId g = lg_sessionId request) \<and>
           (\<not> truthy (lg_credentialHandle request) \<or> Some (gr_credentialHandle g) = lg_credentialHandle request) \<and>
           (lg_status request = None \<or> Some (gr_status g) = lg_status request)) (map projectGrant grants)), s1))"

definition revokeGrant :: "writeOutcome \<Rightarrow> string \<Rightarrow> string option \<Rightarrow> int \<Rightarrow> persistentGrantStore \<Rightarrow> bool grantOutcome" where
  "revokeGrant w grantId reason now s = markRevoked w grantId reason now s"
  \<comment> \<open>\<open>False\<close> is the answer \<open>GRANT_NOT_FOUND\<close>\<close>

end
