(* ===== verification/Audit_Log.thy ===== *)
theory Audit_Log
  imports Http_Policy
begin

text \<open>
  The audit log of the credential executor: summaries of HTTP requests
  (credential-executor/src/http/audit.ts), the append-only file of records (audit/store.ts) and the
  RPC that lists them (grants/rpc-handlers.ts). The file is a sequence of complete lines, given by
  the cases \<open>readAll\<close> tells apart; a record is written as one line and read back from it.
\<close>

section \<open>Summaries\<close>

record auditRecordSummary =
  ar_auditId :: string
  ar_grantId :: string
  ar_credentialHandle :: string
  ar_toolName :: string
  ar_target :: string
  ar_sessionId :: string
  ar_success :: bool
  ar_errorMessage :: "string option"
  ar_timestamp :: int

record httpAuditInput =
  ai_credentialHandle :: string
  ai_grantId :: string
  ai_sessionId :: string
  ai_method :: string
  ai_url :: string
  ai_success :: bool
  ai_statusCode :: "int option"
  ai_errorMessage :: "string option"

definition auditTarget :: "urlParser \<Rightarrow> httpAuditInput \<Rightarrow> string" where
  "auditTarget newURL input =
     toUpperCase (ai_method input) @ '' '' @
     (case derivePathTemplate newURL (ai_url input) of Inl e \<Rightarrow> ''[invalid-url]'' | Inr template \<Rightarrow> template) @
     (case ai_statusCode input of None \<Rightarrow> [] | Some c \<Rightarrow> '' -> '' @ number_text c)"

definition generateHttpAuditSummary :: "urlParser \<Rightarrow> httpAuditInput \<Rightarrow> string \<Rightarrow> int \<Rightarrow> auditRecordSummary" where
  "generateHttpAuditSummary newURL input uuid now =
     \<lparr>ar_auditId = uuid, ar_grantId = ai_grantId input, ar_credentialHandle = ai_credentialHandle input,
      ar_toolName = ''http'', ar_target = auditTarget newURL input, ar_sessionId = ai_sessionId input,
      ar_success = ai_success input,
      ar_errorMessage = (if truthy (ai_errorMessage input) then ai_errorMessage input else None),
      ar_timestamp = now\<rparr>"

section \<open>The file\<close>

datatype auditLine = BlankLine | MalformedLine | OtherJson | RecordLine auditRecordSummary

datatype auditFile = AuditMissing | AuditUnreadable | AuditLines "auditLine list"

definition appendAudit :: "bool \<Rightarrow> auditRecordSummary \<Rightarrow> auditFile \<Rightarrow> bool \<times> auditFile" where
  "appendAudit io record file =
     (if \<not> io then (False, file)
      else
        (True, case file of
           AuditMissing \<Rightarrow> AuditLines [RecordLine record]
         | AuditUnreadable \<Rightarrow> AuditUnreadable
         | AuditLines ls \<Rightarrow> AuditLines (ls @ [RecordLine record])))"
  \<comment> \<open>\<open>io\<close> is whether the write succeeds; otherwise \<open>append\<close> throws\<close>

fun lineRecord :: "auditLine \<Rightarrow> auditRecordSummary list" where
  "lineRecord (RecordLine r) = [r]"
| "lineRecord _ = []"

definition readAll :: "auditFile \<Rightarrow> auditRecordSummary list" where
  "readAll file = (case file of AuditLines ls \<Rightarrow> concat (map lineRecord ls) | _ \<Rightarrow> [])"

definition countAudit :: "auditFile \<Rightarrow> nat" where
  "countAudit file = length (readAll file)"

section \<open>Listing\<close>

text \<open>\<open>slice\<close> with integer bounds and \<open>parseInt(s, 10)\<close>.\<close>

definition sliceBound :: "nat \<Rightarrow> int \<Rightarrow> nat" where
  "sliceBound len i = (if i < 0 then nat (max 0 (int len + i)) else nat (min i (int len)))"

definition jsSlice :: "'a list \<Rightarrow> int \<Rightarrow> int \<Rightarrow> 'a list" where
  "jsSlice xs a b =
     (let a' = sliceBound (length xs) a; b' = sliceBound (length xs) b in take (b' - a') (drop a' xs))"

definition digitsPrefix :: "string \<Rightarrow> nat option" where
  "digitsPrefix s = (let ds = takeWhile isDigit s in if ds = [] then None else digitsVal 10 0 ds)"

definition parseInt10 :: "string \<Rightarrow> int option" where
  "parseInt10 s =
     (case trimStart s of
        [] \<Rightarrow> None
      | c # cs \<Rightarrow>
          if c = CHR ''-'' then map_option (\<lambda>n. - int n) (digitsPrefix cs)
          else if c = CHR ''+'' then map_option int (digitsPrefix cs)
          else map_option int (digitsPrefix (c # cs)))"

record auditQuery =
  aq_sessionId :: "string option"
  aq_credentialHandle :: "string option"
  aq_grantId :: "string option"
  aq_limit :: "int option"
  aq_cursor :: "string option"

definition auditMatches :: "auditQuery \<Rightarrow> auditRecordSummary \<Rightarrow> bool" where
  "auditMatches q r \<longleftrightarrow>
     (\<not> truthy (aq_sessionId q) \<or> Some (ar_sessionId r) = aq_sessionId q) \<and>
     (\<not> truthy (aq_credentialHandle q) \<or> Some (ar_credentialHandle r) = aq_credentialHandle q) \<and>
     (\<not> truthy (aq_grantId q) \<or> Some (ar_grantId r) = aq_grantId q)"

definition auditStart :: "auditQuery \<Rightarrow> int" where
  "auditStart q = (if truthy (aq_cursor q) then get_or 0 (parseInt10 (the (aq_cursor q))) else 0)"

definition listAudit :: "auditQuery \<Rightarrow> auditFile \<Rightarrow> auditRecordSummary list \<times> string option" where
  "listAudit q file =
     (let limit = get_or 50 (aq_limit q);
          filtered = filter (auditMatches q) (rev (readAll file));
          start = auditStart q
      in (jsSlice filtered start (start + limit),
          if start + limit < int (length filtered) then Some (number_text (start + limit)) else None))"

definition listAuditRecords :: "auditQuery \<Rightarrow> auditFile \<Rightarrow> auditRecordSummary list \<times> string option" where
  "listAuditRecords request file = listAudit request file"

section \<open>Paging\<close>

text \<open>
  A client that follows the cursors, while other calls append the records of one batch between two
  pages. The flag tells whether the last page had no cursor.
\<close>

definition appendAll :: "auditRecordSummary list \<Rightarrow> auditFile \<Rightarrow> auditFile" where
  "appendAll rs file = fold (\<lambda>r f. snd (appendAudit True r f)) rs file"

fun followAudit :: "auditQuery \<Rightarrow> auditRecordSummary list list \<Rightarrow> auditFile \<Rightarrow> auditRecordSummary list \<times> bool" where
  "followAudit q [] file = (fst (listAudit q file), snd (listAudit q file) = None)"
| "followAudit q (batch # batches) file =
     (case listAudit q file of
        (page, None) \<Rightarrow> (page, True)
      | (page, Some c) \<Rightarrow>
          (case followAudit (q\<lparr>aq_cursor := Some c\<rparr>) batches (appendAll batch file) of
             (rest, finished) \<Rightarrow> (page @ rest, finished)))"

lemma appendAll_lines: "appendAll rs (AuditLines ls) = AuditLines (ls @ map RecordLine rs)"
  by (induction rs arbitrary: ls) (auto simp: appendAll_def appendAudit_def)

lemma readAll_lines: "readAll (AuditLines (ls @ map RecordLine rs)) = readAll (AuditLines ls) @ rs"
  by (simp add: readAll_def comp_def)

lemma number_text_nat: "number_text (int n) = decimal n"
  by (simp add: number_text_def)

lemma parse_decimal: "parseInt10 (decimal n) = Some (int n)"
proof -
  have d: "digitsVal 10 0 (decimal n) = Some n" "list_all isDigit (decimal n)" "decimal n \<noteq> []" using decimal_value [of n] by auto
  then obtain c cs where c: "decimal n = c # cs" by (cases "decimal n") auto
  have digit: "isDigit c" using d c by simp
  then have "trimStart (decimal n) = c # cs" using c by (simp add: trimStart_def isDigit_not_space)
  moreover have "c \<noteq> CHR ''-''" "c \<noteq> CHR ''+''" using digit by (auto simp: isDigit_def)
  moreover have "takeWhile isDigit (c # cs) = c # cs" using d(2) c by (simp add: list_all_iff takeWhile_eq_all_conv)
  then have "digitsPrefix (c # cs) = Some n" unfolding digitsPrefix_def Let_def by (simp only:) (use d(1) c in simp)
  ultimately show ?thesis by (simp add: parseInt10_def)
qed

lemma jsSlice_nat: "jsSlice xs (int a) (int a + int b) = take b (drop a xs)"
proof -
  have "sliceBound (length xs) (int a) = min a (length xs)" "sliceBound (length xs) (int a + int b) = min (a + b) (length xs)"
    by (auto simp: sliceBound_def)
  then show ?thesis by (cases "a \<le> length xs") (auto simp: jsSlice_def Let_def min_def)
qed

text \<open>One page at an offset, over the matching records, newest first.\<close>

definition matching :: "auditQuery \<Rightarrow> auditLine list \<Rightarrow> auditRecordSummary list" where
  "matching q ls = filter (auditMatches q) (rev (readAll (AuditLines ls)))"

lemma auditMatches_cursor [simp]: "auditMatches (q\<lparr>aq_cursor := c\<rparr>) = auditMatches q"
  by (simp add: auditMatches_def fun_eq_iff)

lemma matching_cursor [simp]: "matching (q\<lparr>aq_cursor := c\<rparr>) ls = matching q ls"
  by (simp add: matching_def)

lemma matching_append: "matching q (ls @ map RecordLine rs) = filter (auditMatches q) (rev rs) @ matching q ls"
  by (simp add: matching_def readAll_lines)

lemma page_at:
  assumes "auditStart q = int o1" "aq_limit q = Some (int k)"
  shows "listAudit q (AuditLines ls) = (take k (drop o1 (matching q ls)),
    if o1 + k < length (matching q ls) then Some (decimal (o1 + k)) else None)"
proof -
  have "jsSlice (matching q ls) (int o1) (int o1 + int k) = take k (drop o1 (matching q ls))" by (rule jsSlice_nat)
  moreover have "number_text (int o1 + int k) = decimal (o1 + k)" using number_text_nat [of "o1 + k"] by simp
  ultimately show ?thesis unfolding listAudit_def Let_def assms get_or_simps matching_def [symmetric] by auto
qed

lemma cursor_start: "auditStart (q\<lparr>aq_cursor := Some (decimal n)\<rparr>) = int n"
  using decimal_value [of n] by (simp add: auditStart_def parse_decimal)

lemma page_cover:
  assumes "m = newer @ f0" "set (take (o1 - length newer) f0) \<subseteq> seen"
  shows "set (take (o1 + k - length newer) f0) \<subseteq> seen \<union> set (take k (drop o1 m))"
proof
  fix x
  assume "x \<in> set (take (o1 + k - length newer) f0)"
  then obtain j where j: "j < length f0" "j < o1 + k - length newer" "x = f0 ! j" by (auto simp: in_set_conv_nth)
  show "x \<in> seen \<union> set (take k (drop o1 m))"
  proof (cases "j < o1 - length newer")
    case True
    with j have "x \<in> set (take (o1 - length newer) f0)" by (auto simp: in_set_conv_nth)
    with assms(2) show ?thesis by blast
  next
    case False
    let ?i = "j + length newer - o1"
    have i: "o1 + ?i = j + length newer" "?i < k" using j False by linarith+
    have "?i < length (take k (drop o1 m))" using i j(1) by (simp add: assms(1))
    moreover have "take k (drop o1 m) ! ?i = m ! (j + length newer)" using i j(1) by (simp add: assms(1) del: drop_append take_append)
    then have "take k (drop o1 m) ! ?i = x" using j(3) by (simp add: assms(1) nth_append del: drop_append take_append)
    ultimately show ?thesis by (metis UnI2 nth_mem)
  qed
qed

text \<open>
  The records a client has seen cover the oldest matching ones up to the offset, less what was
  appended in front meanwhile; each page keeps that.
\<close>

lemma follow_complete:
  assumes "auditStart q = int o1" "aq_limit q = Some (int k)" "0 < k"
    and "matching q ls = newer @ f0" "set (take (o1 - length newer) f0) \<subseteq> seen"
    and "followAudit q batches (AuditLines ls) = (rs, finished)"
  shows "(finished \<longrightarrow> set f0 \<subseteq> seen \<union> set rs) \<and>
    (length (matching q ls) + length (concat batches) \<le> o1 + k * Suc (length batches) \<longrightarrow> finished)"
  using assms
proof (induction batches arbitrary: q o1 ls newer seen rs finished)
  case Nil
  have "set (take (o1 + k - length newer) f0) \<subseteq> seen \<union> set (take k (drop o1 (matching q ls)))"
    by (rule page_cover [OF Nil.prems(4,5)])
  moreover have "rs = take k (drop o1 (matching q ls))" "finished \<longleftrightarrow> \<not> o1 + k < length (matching q ls)"
    using Nil.prems(6) by (auto simp: page_at [OF Nil.prems(1,2)])
  moreover have "\<not> o1 + k < length (matching q ls) \<Longrightarrow> take (o1 + k - length newer) f0 = f0" by (simp add: Nil.prems(4))
  ultimately show ?case by auto
next
  case (Cons batch batches)
  let ?page = "take k (drop o1 (matching q ls))"
  have cover: "set (take (o1 + k - length newer) f0) \<subseteq> seen \<union> set ?page"
    by (rule page_cover [OF Cons.prems(4,5)])
  show ?case
  proof (cases "o1 + k < length (matching q ls)")
    case False
    then have "rs = ?page" "finished" using Cons.prems(6) by (auto simp: page_at [OF Cons.prems(1,2)])
    moreover have "take (o1 + k - length newer) f0 = f0" using False by (simp add: Cons.prems(4))
    ultimately show ?thesis using cover by auto
  next
    case True
    let ?q = "q\<lparr>aq_cursor := Some (decimal (o1 + k))\<rparr>" and ?ls = "ls @ map RecordLine batch"
    let ?newer = "filter (auditMatches q) (rev batch) @ newer"
    obtain rest where r: "followAudit ?q batches (AuditLines ?ls) = (rest, finished)" "rs = ?page @ rest"
      using Cons.prems(6) True by (auto simp: page_at [OF Cons.prems(1,2)] appendAll_lines split: prod.splits)
    have m: "matching ?q ?ls = ?newer @ f0" by (simp add: matching_append Cons.prems(4))
    have seen: "set (take (o1 + k - length ?newer) f0) \<subseteq> seen \<union> set ?page"
      by (rule subset_trans [OF set_take_subset_set_take cover]) simp
    have len: "length (filter (auditMatches q) (rev batch)) \<le> length batch" using length_filter_le [of "auditMatches q" "rev batch"] by simp
    have "(finished \<longrightarrow> set f0 \<subseteq> (seen \<union> set ?page) \<union> set rest) \<and>
        (length (matching ?q ?ls) + length (concat batches) \<le> (o1 + k) + k * Suc (length batches) \<longrightarrow> finished)"
      by (rule Cons.IH [OF cursor_start _ Cons.prems(3) m seen r(1)]) (simp add: Cons.prems(2))
    moreover have "length (matching ?q ?ls) = length (filter (auditMatches q) (rev batch)) + length (matching q ls)"
      by (simp add: matching_append)
    ultimately show ?thesis using r(2) len by auto
  qed
qed

text \<open>
  a client that lists the audit log page by page and follows the cursors reaches the end after
  finitely many pages, and has then been given every matching record that was in the log when it
  began, even when other calls append records between its pages.
\<close>

theorem audit_pages_complete:
  assumes "aq_cursor q = None" "aq_limit q = Some (int k)" "0 < k"
    and "followAudit q batches (AuditLines ls) = (rs, finished)"
  shows "(finished \<longrightarrow> {r \<in> set (readAll (AuditLines ls)). auditMatches q r} \<subseteq> set rs) \<and>
    (length (readAll (AuditLines ls)) + length (concat batches) \<le> k * Suc (length batches) \<longrightarrow> finished)"
proof -
  have start: "auditStart q = int 0" using assms(1) by (simp add: auditStart_def)
  have len: "length (matching q ls) \<le> length (readAll (AuditLines ls))"
    using length_filter_le [of "auditMatches q" "rev (readAll (AuditLines ls))"] by (simp add: matching_def)
  have "set (matching q ls) = {r \<in> set (readAll (AuditLines ls)). auditMatches q r}" by (auto simp: matching_def)
  with follow_complete [OF start assms(2,3) _ _ assms(4), of "[]" "matching q ls" "{}"] len show ?thesis by auto
qed

definition demoAudit :: "string \<Rightarrow> auditRecordSummary" where
  "demoAudit i = \<lparr>ar_auditId = i, ar_grantId = ''g'', ar_credentialHandle = ''h'', ar_toolName = ''http'', ar_target = ''GET x'',
     ar_sessionId = ''s'', ar_success = True, ar_errorMessage = None, ar_timestamp = 1\<rparr>"

theorem audit_pages_complete_witness:
  "let q = \<lparr>aq_sessionId = Some ''s'', aq_credentialHandle = None, aq_grantId = None, aq_limit = Some 2, aq_cursor = None\<rparr>;
       ls = [RecordLine (demoAudit ''1''), MalformedLine, RecordLine (demoAudit ''2''), RecordLine (demoAudit ''3'')];
       (rs, finished) = followAudit q [[demoAudit ''4''], []] (AuditLines ls)
   in finished \<and> demoAudit ''1'' \<in> set rs \<and> demoAudit ''3'' \<in> set rs"
proof -
  let ?q = "\<lparr>aq_sessionId = Some ''s'', aq_credentialHandle = None, aq_grantId = None, aq_limit = Some 2, aq_cursor = None\<rparr>"
  let ?ls = "[RecordLine (demoAudit ''1''), MalformedLine, RecordLine (demoAudit ''2''), RecordLine (demoAudit ''3'')]"
  obtain rs fin where f: "followAudit ?q [[demoAudit ''4''], []] (AuditLines ?ls) = (rs, fin)" by fastforce
  have "readAll (AuditLines ?ls) = [demoAudit ''1'', demoAudit ''2'', demoAudit ''3'']" by (simp add: readAll_def)
  moreover have "auditMatches ?q (demoAudit ''1'')" "auditMatches ?q (demoAudit ''3'')" by (simp_all add: auditMatches_def demoAudit_def)
  ultimately have "fin \<and> demoAudit ''1'' \<in> set rs \<and> demoAudit ''3'' \<in> set rs"
    using audit_pages_complete [OF _ _ _ f, of 2] by auto
  then show ?thesis unfolding Let_def f by simp
qed

end
