(* ===== verification/Response_Filter.thy ===== *)
theory Response_Filter
  imports Web_Url "HOL-Library.Sublist"
begin

text \<open>
  The filter every HTTP response passes before the agent sees it
  (credential-executor/src/http/response-filter.ts). Bodies are lists of code points, because the
  body is cut at a number of UTF-8 bytes and a cut character becomes U+FFFD; a lone surrogate is
  encoded as U+FFFD too.
\<close>

section \<open>Headers\<close>

definition MAX_BODY_BYTES :: nat where
  "MAX_BODY_BYTES = 256 * 1024"

definition ALLOWED_RESPONSE_HEADERS :: "string list" where
  "ALLOWED_RESPONSE_HEADERS =
     [''content-type'', ''content-length'', ''content-encoding'', ''content-language'', ''content-disposition'',
      ''cache-control'', ''etag'', ''last-modified'', ''date'', ''x-request-id'', ''x-ratelimit-limit'',
      ''x-ratelimit-remaining'', ''x-ratelimit-reset'', ''retry-after'', ''link'', ''location'', ''vary'', ''accept-ranges'',
      ''access-control-allow-origin'', ''access-control-allow-methods'', ''access-control-allow-headers'',
      ''access-control-expose-headers'']"

record rawHttpResponse =
  raw_statusCode :: int
  raw_headers :: "(string, string) js_Map"
  raw_body :: codePoints

record sanitisedHttpResponse =
  san_statusCode :: int
  san_headers :: "(string, string) js_Map"
  san_body :: codePoints
  san_truncated :: bool
  san_originalBodyBytes :: nat

definition filterResponseHeaders :: "(string, string) js_Map \<Rightarrow> (string, string) js_Map" where
  "filterResponseHeaders headers =
     fold (\<lambda>(key, v) filtered.
         if toLowerCase key \<in> set ALLOWED_RESPONSE_HEADERS then map_set (toLowerCase key) v filtered else filtered)
       headers []"

section \<open>Clamping\<close>

definition isSurrogate :: "nat \<Rightarrow> bool" where
  "isSurrogate p \<longleftrightarrow> 0xD800 \<le> p \<and> p < 0xE000"

definition utf8Size :: "nat \<Rightarrow> nat" where
  "utf8Size p = (if p < 0x80 then 1 else if p < 0x800 then 2 else if p < 0x10000 then 3 else 4)"

definition byteLength :: "codePoints \<Rightarrow> nat" where
  "byteLength s = sum_list (map utf8Size s)"

text \<open>The first \<open>n\<close> bytes of the encoding, decoded again.\<close>

fun decodePrefix :: "nat \<Rightarrow> codePoints \<Rightarrow> codePoints" where
  "decodePrefix n [] = []"
| "decodePrefix n (p # ps) =
     (if n = 0 then []
      else if n < utf8Size p then [0xFFFD]
      else (if isSurrogate p then 0xFFFD else p) # decodePrefix (n - utf8Size p) ps)"

definition truncationNote :: "nat \<Rightarrow> codePoints" where
  "truncationNote bytes =
     points ([CHR 0x0A, CHR 0x0A] @ ''[CES: Response truncated from '' @ decimal bytes @ '' bytes to '' @
       decimal MAX_BODY_BYTES @ '' bytes]'')"

definition clampBody :: "codePoints \<Rightarrow> codePoints \<times> bool \<times> nat" where
  "clampBody body =
     (let bytes = byteLength body in
      if bytes \<le> MAX_BODY_BYTES then (body, False, bytes)
      else (decodePrefix MAX_BODY_BYTES body @ truncationNote bytes, True, bytes))"

section \<open>Scrubbing\<close>

text \<open>\<open>indexOf\<close> of a text that is not empty.\<close>

fun indexOfFrom :: "'a list \<Rightarrow> 'a list \<Rightarrow> nat option" where
  "indexOfFrom [] t = (if t = [] then Some 0 else None)"
| "indexOfFrom (x # xs) t = (if take (length t) (x # xs) = t then Some 0 else map_option Suc (indexOfFrom xs t))"

lemma indexOfFrom_le: "indexOfFrom s t = Some i \<Longrightarrow> i \<le> length s"
  by (induction s t arbitrary: i rule: indexOfFrom.induct) (auto split: if_splits)

text \<open>The loop of \<open>replaceAll\<close>; its argument is the part of the text from \<open>idx\<close> on.\<close>

function replaceLoop :: "'a list \<Rightarrow> 'a list \<Rightarrow> 'a list \<Rightarrow> 'a list" where
  "replaceLoop s t r =
     (if s = [] \<or> t = [] then s
      else
        (case indexOfFrom s t of
           None \<Rightarrow> s
         | Some i \<Rightarrow> take i s @ r @ replaceLoop (drop (i + length t) s) t r))"
  by pat_completeness auto
termination
  by (relation "measure (\<lambda>(s, t, r). length s)") auto

declare replaceLoop.simps [simp del]

definition replaceAll :: "'a list \<Rightarrow> 'a list \<Rightarrow> 'a list \<Rightarrow> 'a list" where
  "replaceAll str t r = (if t = [] then str else replaceLoop str t r)"

definition REDACTED :: string where
  "REDACTED = ''[CES:REDACTED]''"

definition scrubSecrets :: "codePoints \<Rightarrow> codePoints list \<Rightarrow> codePoints" where
  "scrubSecrets body secrets =
     fold (\<lambda>secret result. if length secret < 8 then result else replaceAll result secret (points REDACTED)) secrets body"

definition filterHttpResponse :: "rawHttpResponse \<Rightarrow> codePoints list \<Rightarrow> sanitisedHttpResponse" where
  "filterHttpResponse raw secrets =
     (case clampBody (raw_body raw) of
        (clamped, truncated, bytes) \<Rightarrow>
          \<lparr>san_statusCode = raw_statusCode raw, san_headers = filterResponseHeaders (raw_headers raw),
           san_body = scrubSecrets clamped secrets, san_truncated = truncated, san_originalBodyBytes = bytes\<rparr>)"

section \<open>No secret survives\<close>

lemma indexOfFrom_Some:
  "indexOfFrom s t = Some i \<Longrightarrow> take (length t) (drop i s) = t \<and> (\<forall>j < i. take (length t) (drop j s) \<noteq> t)"
proof (induction s t arbitrary: i rule: indexOfFrom.induct)
  case (2 x xs t)
  show ?case
  proof (cases "take (length t) (x # xs) = t")
    case False
    with "2.prems" obtain k where k: "indexOfFrom xs t = Some k" "i = Suc k" by auto
    with "2.IH" False show ?thesis by (auto simp: less_Suc_eq_0_disj)
  qed (use 2 in auto)
qed (auto split: if_splits)

lemma indexOfFrom_None: "indexOfFrom s t = None \<longleftrightarrow> \<not> sublist t s"
proof (induction s t rule: indexOfFrom.induct)
  case (2 x xs t)
  have "take (length t) (x # xs) = t \<longleftrightarrow> prefix t (x # xs)"
    by (metis prefix_def append_eq_conv_conj append_take_drop_id)
  with 2 show ?case by (auto simp: sublist_Cons_right)
qed auto

lemma before_first:
  assumes "indexOfFrom s t = Some i" "t \<noteq> []"
  shows "\<not> sublist t (take i s)"
proof
  assume "sublist t (take i s)"
  then obtain ps ss where "take i s = ps @ t @ ss" by (auto simp: sublist_def)
  then have eq: "take i s = ps @ t @ ss" .
  have "length ps + length t + length ss = length (take i s)" by (simp add: eq)
  then have less: "length ps < i" using assms(2) by (cases t) auto
  have "s = ps @ t @ ss @ drop i s" using eq by (metis append_assoc append_take_drop_id)
  then have "take (length t) (drop (length ps) s) = t" by (metis append_eq_conv_conj)
  with indexOfFrom_Some [OF assms(1)] less show False by blast
qed

text \<open>The text between the replaced occurrences.\<close>

lemma replaceLoop_gaps:
  assumes "t \<noteq> []"
  shows "\<exists>g gs. replaceLoop s t r = g @ concat (map (\<lambda>h. r @ h) gs) \<and>
    (\<forall>h \<in> set (g # gs). sublist h s \<and> \<not> sublist t h)"
  using assms
proof (induction s t r rule: replaceLoop.induct)
  case (1 s t r)
  show ?case
  proof (cases "s = [] \<or> indexOfFrom s t = None")
    case True
    then have "replaceLoop s t r = s" "\<not> sublist t s"
      using 1 indexOfFrom_None [of s t] by (auto simp: replaceLoop.simps)
    then have "replaceLoop s t r = s @ concat (map (\<lambda>h. r @ h) [])" "\<forall>h \<in> set [s]. sublist h s \<and> \<not> sublist t h" by auto
    then show ?thesis by blast
  next
    case False
    then obtain i where i: "indexOfFrom s t = Some i" "s \<noteq> []" by auto
    with "1.IH" [of i] "1.prems" obtain g gs where IH: "replaceLoop (drop (i + length t) s) t r = g @ concat (map (\<lambda>h. r @ h) gs)"
      "\<forall>h \<in> set (g # gs). sublist h (drop (i + length t) s) \<and> \<not> sublist t h" by blast
    have "sublist h (drop k s) \<Longrightarrow> sublist h s" for h k
      by (meson sublist_order.order_trans suffix_drop suffix_imp_sublist)
    with IH(2) have "\<forall>h \<in> set (take i s # g # gs). sublist h s \<and> \<not> sublist t h"
      using before_first [OF i(1)] 1 by (auto intro: prefix_imp_sublist take_is_prefix)
    moreover have "replaceLoop s t r = take i s @ concat (map (\<lambda>h. r @ h) (g # gs))"
      using i 1 IH(1) by (simp add: replaceLoop.simps [of s])
    ultimately show ?thesis by blast
  qed
qed

text \<open>A text that cannot touch the placeholder.\<close>

definition apartFrom :: "'a list \<Rightarrow> 'a \<Rightarrow> 'a list \<Rightarrow> 'a \<Rightarrow> bool" where
  "apartFrom u a mid b \<longleftrightarrow> u \<noteq> [] \<and> a \<notin> set u \<and> b \<notin> set u \<and> \<not> sublist u mid"

lemma apart_across:
  assumes u: "apartFrom u a mid b" and s: "sublist u (x @ (a # mid @ [b]) @ y)"
  shows "sublist u x \<or> sublist u y"
proof -
  have no_prefix: "prefix v (a # w) \<Longrightarrow> set v \<subseteq> set u \<Longrightarrow> v = []" for v w
    using u by (cases v) (auto simp: apartFrom_def)
  have no_suffix: "suffix v (w @ [b]) \<Longrightarrow> set v \<subseteq> set u \<Longrightarrow> v = []" for v w
    using u by (cases v rule: rev_cases) (auto simp: apartFrom_def)
  have "sublist u x \<or> sublist u ((a # mid @ [b]) @ y)"
    using s no_prefix by (auto simp: sublist_append) (metis Un_upper2 append_Nil2 set_append suffix_imp_sublist)
  moreover have "sublist u ((a # mid @ [b]) @ y) \<Longrightarrow> sublist u (a # mid @ [b]) \<or> sublist u y"
  proof -
    assume "sublist u ((a # mid @ [b]) @ y)"
    then consider "sublist u (a # mid @ [b])" | "sublist u y" | v w where "u = v @ w" "suffix v (a # mid @ [b])" "prefix w y"
      unfolding sublist_append by blast
    then show "sublist u (a # mid @ [b]) \<or> sublist u y"
    proof cases
      case 3
      with no_suffix [of v "a # mid"] show ?thesis by (auto intro: prefix_imp_sublist)
    qed blast+
  qed
  moreover have "\<not> sublist u (a # mid @ [b])"
  proof
    assume "sublist u (a # mid @ [b])"
    then have "sublist u (mid @ [b])" using no_prefix [of u] u by (auto simp: sublist_Cons_right apartFrom_def)
    then have "sublist u mid \<or> sublist u [b] \<or> (\<exists>v w. u = v @ w \<and> suffix v mid \<and> prefix w [b])" by (simp add: sublist_append)
    then show False
    proof (elim disjE exE conjE)
      assume "sublist u [b]"
      with u show False by (auto simp: sublist_Cons_right apartFrom_def prefix_Cons)
    next
      fix v w
      assume "u = v @ w" "suffix v mid" "prefix w [b]"
      with u show False by (auto simp: apartFrom_def prefix_Cons suffix_imp_sublist)
    qed (use u in \<open>simp add: apartFrom_def\<close>)
  qed
  ultimately show ?thesis by blast
qed

lemma apart_gaps:
  assumes u: "apartFrom u a mid b" and g: "\<forall>h \<in> set (g # gs). \<not> sublist u h"
  shows "\<not> sublist u (g @ concat (map (\<lambda>h. (a # mid @ [b]) @ h) gs))"
  using g
proof (induction gs arbitrary: g)
  case (Cons h gs)
  from Cons.prems have "\<not> sublist u g" by simp
  moreover have "\<not> sublist u (h @ concat (map (\<lambda>h. (a # mid @ [b]) @ h) gs))" using Cons by simp
  ultimately show ?case
    using apart_across [OF u, of g "h @ concat (map (\<lambda>h. (a # mid @ [b]) @ h) gs)"] by auto
qed simp

lemma replaceAll_removes:
  assumes "apartFrom t a mid b"
  shows "\<not> sublist t (replaceAll s t (a # mid @ [b]))"
proof -
  have t: "t \<noteq> []" using assms by (simp add: apartFrom_def)
  from replaceLoop_gaps [OF t, of s "a # mid @ [b]"] obtain g gs where
    "replaceLoop s t (a # mid @ [b]) = g @ concat (map (\<lambda>h. (a # mid @ [b]) @ h) gs)"
    "\<forall>h \<in> set (g # gs). \<not> sublist t h" by metis
  with apart_gaps [OF assms, of g gs] t show ?thesis by (simp add: replaceAll_def)
qed

lemma replaceAll_keeps_out:
  assumes "apartFrom u a mid b" "\<not> sublist u s"
  shows "\<not> sublist u (replaceAll s t (a # mid @ [b]))"
proof (cases "t = []")
  case False
  from replaceLoop_gaps [OF False, of s "a # mid @ [b]"] obtain g gs where
    r: "replaceLoop s t (a # mid @ [b]) = g @ concat (map (\<lambda>h. (a # mid @ [b]) @ h) gs)"
    and "\<forall>h \<in> set (g # gs). sublist h s" by metis
  then have "\<forall>h \<in> set (g # gs). \<not> sublist u h" using assms(2) sublist_order.order_trans by blast
  with apart_gaps [OF assms(1), of g gs] r False show ?thesis by (simp add: replaceAll_def)
qed (use assms in \<open>simp add: replaceAll_def\<close>)

text \<open>
  A secret that can be recognised after scrubbing: at least eight characters, no square bracket, and
  not a piece of the text between the brackets of the placeholder.
\<close>

definition distinctSecret :: "codePoints \<Rightarrow> bool" where
  "distinctSecret s \<longleftrightarrow> 8 \<le> length s \<and> 91 \<notin> set s \<and> 93 \<notin> set s \<and> \<not> sublist s (points ''CES:REDACTED'')"

lemma distinct_apart: "distinctSecret s \<Longrightarrow> apartFrom s 91 (points ''CES:REDACTED'') 93"
  by (auto simp: distinctSecret_def apartFrom_def)

lemma redacted_points: "points REDACTED = 91 # points ''CES:REDACTED'' @ [93]"
  by (simp add: points_def REDACTED_def)

lemma scrub_keeps_out: "distinctSecret u \<Longrightarrow> \<not> sublist u body \<Longrightarrow> \<not> sublist u (scrubSecrets body secrets)"
proof (induction secrets arbitrary: body)
  case (Cons s secrets)
  have "\<not> sublist u (if length s < 8 then body else replaceAll body s (points REDACTED))"
    using Cons.prems replaceAll_keeps_out [OF distinct_apart] by (simp add: redacted_points)
  with Cons show ?case by (simp add: scrubSecrets_def)
qed (simp add: scrubSecrets_def)

lemma scrub_removes: "secret \<in> set secrets \<Longrightarrow> distinctSecret secret \<Longrightarrow> \<not> sublist secret (scrubSecrets body secrets)"
proof (induction secrets arbitrary: body)
  case (Cons s secrets)
  show ?case
  proof (cases "secret = s")
    case True
    with Cons.prems have "\<not> sublist s (replaceAll body s (points REDACTED))"
      using replaceAll_removes [OF distinct_apart] by (simp add: redacted_points)
    with True Cons.prems scrub_keeps_out [of s _ secrets] show ?thesis
      by (simp add: scrubSecrets_def distinctSecret_def)
  next
    case False
    with Cons show ?thesis by (simp add: scrubSecrets_def)
  qed
qed simp

lemma filtered_header: "fst ` set (filterResponseHeaders hs) \<subseteq> set ALLOWED_RESPONSE_HEADERS"
proof -
  have "fst ` set acc \<subseteq> set ALLOWED_RESPONSE_HEADERS \<Longrightarrow>
      fst ` set (fold (\<lambda>(key, v) filtered.
         if toLowerCase key \<in> set ALLOWED_RESPONSE_HEADERS then map_set (toLowerCase key) v filtered else filtered) hs acc)
        \<subseteq> set ALLOWED_RESPONSE_HEADERS" for acc
  proof (induction hs arbitrary: acc)
    case (Cons h hs)
    obtain key v where h: "h = (key, v)" by fastforce
    show ?case using Cons.prems by (simp add: h Cons.IH keys_set)
  qed simp
  from this [of "[]"] show ?thesis by (simp add: filterResponseHeaders_def)
qed

end
