(* ===== verification/Token_Refresh.thy ===== *)
theory Token_Refresh
  imports Js_Strings
begin

text \<open>
  The portable part of OAuth token handling (packages/credential-storage/src/oauth-runtime.ts): key
  paths, expiry, the circuit breaker of token refreshes, the classification of errors and the
  persistence of tokens. The clock is an argument; the secure-key backend is a map of keys, and
  whether one of its writes succeeds is an argument too.

  The breaker implements an abstract backoff: three failures in a row open it, the cooldown doubles
  from trip to trip up to ten minutes, and a success forgets everything.
\<close>

section \<open>Paths and expiry\<close>

definition oauthConnectionAccessTokenPath :: "string \<Rightarrow> string" where
  "oauthConnectionAccessTokenPath connectionId = ''oauth_connection/'' @ connectionId @ ''/access_token''"

definition oauthConnectionRefreshTokenPath :: "string \<Rightarrow> string" where
  "oauthConnectionRefreshTokenPath connectionId = ''oauth_connection/'' @ connectionId @ ''/refresh_token''"

definition oauthAppClientSecretPath :: "string \<Rightarrow> string" where
  "oauthAppClientSecretPath appId = ''oauth_app/'' @ appId @ ''/client_secret''"

lemma token_paths_inj [simp]:
  "oauthConnectionAccessTokenPath c = oauthConnectionAccessTokenPath d \<longleftrightarrow> c = d"
  "oauthConnectionRefreshTokenPath c = oauthConnectionRefreshTokenPath d \<longleftrightarrow> c = d"
  by (simp_all add: oauthConnectionAccessTokenPath_def oauthConnectionRefreshTokenPath_def)

lemma token_paths_differ [simp]: "oauthConnectionAccessTokenPath c \<noteq> oauthConnectionRefreshTokenPath d"
proof
  assume "oauthConnectionAccessTokenPath c = oauthConnectionRefreshTokenPath d"
  then have "rev (oauthConnectionAccessTokenPath c) = rev (oauthConnectionRefreshTokenPath d)" by simp
  then show False by (simp add: oauthConnectionAccessTokenPath_def oauthConnectionRefreshTokenPath_def)
qed

definition EXPIRY_BUFFER_MS :: int where
  "EXPIRY_BUFFER_MS = 5 * 60 * 1000"

definition isTokenExpired :: "int option \<Rightarrow> int \<Rightarrow> int \<Rightarrow> bool" where
  "isTokenExpired expiresAt bufferMs now =
     (case expiresAt of None \<Rightarrow> False | Some t \<Rightarrow> if t = 0 then False else now \<ge> t - bufferMs)"

definition computeExpiresAt :: "int option \<Rightarrow> int \<Rightarrow> int option" where
  "computeExpiresAt expiresIn now =
     (case expiresIn of None \<Rightarrow> None | Some n \<Rightarrow> if n \<le> 0 then None else Some (now + n * 1000))"

section \<open>The circuit breaker\<close>

definition REFRESH_FAILURE_THRESHOLD :: nat where
  "REFRESH_FAILURE_THRESHOLD = 3"

definition INITIAL_COOLDOWN_MS :: int where
  "INITIAL_COOLDOWN_MS = 30000"

definition MAX_COOLDOWN_MS :: int where
  "MAX_COOLDOWN_MS = 10 * 60 * 1000"

record refreshBreakerState =
  rb_consecutiveFailures :: nat
  rb_openedAt :: int
  rb_cooldownMs :: int
  rb_isCredentialError :: bool

type_synonym refreshCircuitBreaker = "(string, refreshBreakerState) js_Map"

definition isOpen :: "string \<Rightarrow> int \<Rightarrow> refreshCircuitBreaker \<Rightarrow> bool \<times> refreshCircuitBreaker" where
  "isOpen key now breakers =
     (case map_get breakers key of
        None \<Rightarrow> (False, breakers)
      | Some state \<Rightarrow>
          if rb_consecutiveFailures state < REFRESH_FAILURE_THRESHOLD then (False, breakers)
          else if now - rb_openedAt state < rb_cooldownMs state then (True, breakers)
          else (False, map_set key (state\<lparr>rb_consecutiveFailures := 0\<rparr>) breakers))"

definition recordSuccess :: "string \<Rightarrow> refreshCircuitBreaker \<Rightarrow> refreshCircuitBreaker" where
  "recordSuccess key breakers = map_delete key breakers"

definition tripped :: "int \<Rightarrow> refreshBreakerState \<Rightarrow> refreshBreakerState" where
  "tripped now state =
     (if rb_consecutiveFailures state \<ge> REFRESH_FAILURE_THRESHOLD then
        (if rb_consecutiveFailures state = REFRESH_FAILURE_THRESHOLD \<and> rb_openedAt state > 0
         then state\<lparr>rb_cooldownMs := min (rb_cooldownMs state * 2) MAX_COOLDOWN_MS\<rparr> else state)\<lparr>rb_openedAt := now\<rparr>
      else state)"

definition recordFailure :: "string \<Rightarrow> bool \<Rightarrow> int \<Rightarrow> refreshCircuitBreaker \<Rightarrow> refreshCircuitBreaker" where
  "recordFailure key isCredential now breakers =
     (if \<not> isCredential then breakers
      else
        (case map_get breakers key of
           None \<Rightarrow>
             map_set key \<lparr>rb_consecutiveFailures = 1, rb_openedAt = 0, rb_cooldownMs = INITIAL_COOLDOWN_MS,
               rb_isCredentialError = True\<rparr> breakers
         | Some state \<Rightarrow>
             map_set key (tripped now (state\<lparr>rb_consecutiveFailures := Suc (rb_consecutiveFailures state),
               rb_isCredentialError := True\<rparr>)) breakers))"

definition clearBreakers :: "refreshCircuitBreaker \<Rightarrow> refreshCircuitBreaker" where
  "clearBreakers breakers = []"

section \<open>Errors\<close>

definition suffixesOf :: "string \<Rightarrow> string list" where
  "suffixesOf s = map (\<lambda>i. drop i s) [0..<Suc (length s)]"

definition isWordChar :: "char \<Rightarrow> bool" where
  "isWordChar c \<longleftrightarrow> isDigit c \<or> c = CHR ''_'' \<or> (let n = (of_char c :: nat) in (65 \<le> n \<and> n \<le> 90) \<or> (97 \<le> n \<and> n \<le> 122))"

text \<open>\<open>HTTP\<close>, white space, one of the codes, and a word boundary; anywhere in the message.\<close>

definition statusAt :: "string list \<Rightarrow> string \<Rightarrow> bool" where
  "statusAt codes s \<longleftrightarrow>
     startsWith s ''HTTP'' \<and>
     (let rest = drop 4 s; number = dropWhile isSpace rest in
      rest \<noteq> number \<and>
      list_ex (\<lambda>c. startsWith number c \<and> (drop (length c) number = [] \<or> \<not> isWordChar (number ! length c))) codes)"

definition mentionsStatus :: "string list \<Rightarrow> string \<Rightarrow> bool" where
  "mentionsStatus codes msg \<longleftrightarrow> list_ex (statusAt codes) (suffixesOf msg)"

definition isCredentialError :: "string option \<Rightarrow> bool" where
  "isCredentialError err =
     (case err of
        None \<Rightarrow> False
      | Some msg \<Rightarrow>
          mentionsStatus [''401'', ''403''] msg \<or>
          (mentionsStatus [''400''] msg \<and> (includesSub msg ''invalid_grant'' \<or> includesSub msg ''invalid_client'')))"
  \<comment> \<open>\<open>None\<close> stands for a thrown value that is not an \<open>Error\<close>\<close>

section \<open>Token persistence\<close>

type_synonym secureKeys = "(string, string) js_Map"

datatype deleteResult = Deleted | NotFound | DeleteError

text \<open>One write of the backend; \<open>ok\<close> tells whether it succeeds.\<close>

definition backendSet :: "bool \<Rightarrow> string \<Rightarrow> string \<Rightarrow> secureKeys \<Rightarrow> bool \<times> secureKeys" where
  "backendSet ok key v keys = (if ok then (True, map_set key v keys) else (False, keys))"

definition backendDelete :: "bool \<Rightarrow> string \<Rightarrow> secureKeys \<Rightarrow> deleteResult \<times> secureKeys" where
  "backendDelete ok key keys =
     (if \<not> ok then (DeleteError, keys)
      else if map_get keys key = None then (NotFound, keys) else (Deleted, map_delete key keys))"

definition getStoredAccessToken :: "secureKeys \<Rightarrow> string \<Rightarrow> string option" where
  "getStoredAccessToken keys connectionId = map_get keys (oauthConnectionAccessTokenPath connectionId)"

definition getStoredRefreshToken :: "secureKeys \<Rightarrow> string \<Rightarrow> string option" where
  "getStoredRefreshToken keys connectionId = map_get keys (oauthConnectionRefreshTokenPath connectionId)"

definition persistOAuthTokens :: "bool \<Rightarrow> bool \<Rightarrow> string \<Rightarrow> string \<Rightarrow> string option \<Rightarrow> secureKeys \<Rightarrow> (string + unit) \<times> secureKeys" where
  "persistOAuthTokens ok1 ok2 connectionId accessToken refreshToken keys =
     (case backendSet ok1 (oauthConnectionAccessTokenPath connectionId) accessToken keys of
        (False, keys1) \<Rightarrow> (Inl ''Failed to store access token in secure storage'', keys1)
      | (True, keys1) \<Rightarrow>
          (Inr (),
           if truthy refreshToken
           then snd (backendSet ok2 (oauthConnectionRefreshTokenPath connectionId) (the refreshToken) keys1)
           else snd (backendDelete ok2 (oauthConnectionRefreshTokenPath connectionId) keys1)))"

definition deleteOAuthTokens :: "bool \<Rightarrow> bool \<Rightarrow> string \<Rightarrow> secureKeys \<Rightarrow> (deleteResult \<times> deleteResult) \<times> secureKeys" where
  "deleteOAuthTokens ok1 ok2 connectionId keys =
     (case backendDelete ok1 (oauthConnectionAccessTokenPath connectionId) keys of
        (r1, keys1) \<Rightarrow>
          (case backendDelete ok2 (oauthConnectionRefreshTokenPath connectionId) keys1 of
             (r2, keys2) \<Rightarrow> ((r1, r2), keys2)))"

section \<open>The abstract backoff\<close>

text \<open>
  What the breaker of one key promises: \<open>bo_failures\<close> counts the failures since the last success or
  since a cooldown was found to be over, \<open>bo_trips\<close> how often the threshold was reached since the
  last success, and \<open>bo_last\<close> the instant of the last failure at or above the threshold.
\<close>

record backoff =
  bo_failures :: nat
  bo_trips :: nat
  bo_last :: int

definition calm :: backoff where
  "calm = \<lparr>bo_failures = 0, bo_trips = 0, bo_last = 0\<rparr>"

definition cooldownAfter :: "nat \<Rightarrow> int" where
  "cooldownAfter trips = min (30000 * 2 ^ (trips - 1)) 600000"

datatype breakerEvent = Ask int | Fails int | FailsTransiently int | Succeeds

fun breakerTime :: "breakerEvent \<Rightarrow> int" where
  "breakerTime (Ask t) = t"
| "breakerTime (Fails t) = t"
| "breakerTime (FailsTransiently t) = t"
| "breakerTime Succeeds = 1"

definition blocked :: "int \<Rightarrow> backoff \<Rightarrow> bool" where
  "blocked now b \<longleftrightarrow> 3 \<le> bo_failures b \<and> now < bo_last b + cooldownAfter (bo_trips b)"

fun backoffStep :: "breakerEvent \<Rightarrow> backoff \<Rightarrow> backoff" where
  "backoffStep (Ask t) b = (if 3 \<le> bo_failures b \<and> \<not> blocked t b then b\<lparr>bo_failures := 0\<rparr> else b)"
| "backoffStep (Fails t) b =
     (let n = Suc (bo_failures b) in
      if n = 3 then b\<lparr>bo_failures := n, bo_trips := Suc (bo_trips b), bo_last := t\<rparr>
      else if 3 < n then b\<lparr>bo_failures := n, bo_last := t\<rparr>
      else b\<lparr>bo_failures := n\<rparr>)"
| "backoffStep (FailsTransiently t) b = b"
| "backoffStep Succeeds b = calm"

text \<open>The same events on the breaker; the answers are those of \<open>isOpen\<close>.\<close>

fun breakerStep :: "string \<Rightarrow> breakerEvent \<Rightarrow> refreshCircuitBreaker \<Rightarrow> refreshCircuitBreaker" where
  "breakerStep key (Ask t) m = snd (isOpen key t m)"
| "breakerStep key (Fails t) m = recordFailure key True t m"
| "breakerStep key (FailsTransiently t) m = recordFailure key False t m"
| "breakerStep key Succeeds m = recordSuccess key m"

definition implementsBackoff :: "refreshBreakerState option \<Rightarrow> backoff \<Rightarrow> bool" where
  "implementsBackoff s b \<longleftrightarrow>
     (case s of
        None \<Rightarrow> b = calm
      | Some st \<Rightarrow>
          rb_consecutiveFailures st = bo_failures b \<and> rb_cooldownMs st = cooldownAfter (bo_trips b) \<and>
          rb_openedAt st = bo_last b \<and> (bo_trips b = 0 \<longleftrightarrow> bo_last b = 0) \<and> 0 \<le> bo_last b \<and>
          (3 \<le> bo_failures b \<longrightarrow> bo_trips b \<noteq> 0))"

lemma cooldownAfter_Suc: "0 < n \<Longrightarrow> cooldownAfter (Suc n) = min (cooldownAfter n * 2) 600000"
  by (cases n) (auto simp: cooldownAfter_def min_def)

lemma cooldownAfter_first [simp]: "cooldownAfter 0 = 30000" "cooldownAfter (Suc 0) = 30000"
  by (simp_all add: cooldownAfter_def)

lemmas breaker_constants = REFRESH_FAILURE_THRESHOLD_def INITIAL_COOLDOWN_MS_def MAX_COOLDOWN_MS_def

lemma breaker_step:
  assumes "implementsBackoff (map_get m key) b" "0 < breakerTime e"
  shows "implementsBackoff (map_get (breakerStep key e m) key) (backoffStep e b)"
proof (cases e)
  case (Fails t)
  show ?thesis
  proof (cases "map_get m key")
    case None
    with assms Fails show ?thesis
      by (auto simp: implementsBackoff_def recordFailure_def calm_def breaker_constants)
  next
    case (Some st)
    with assms Fails show ?thesis
      by (auto simp: implementsBackoff_def recordFailure_def tripped_def breaker_constants Let_def cooldownAfter_Suc)
  qed
qed (use assms in \<open>auto simp: implementsBackoff_def isOpen_def recordSuccess_def recordFailure_def blocked_def breaker_constants calm_def
      split: option.splits\<close>)

lemma breaker_answer:
  "implementsBackoff (map_get m key) b \<Longrightarrow> fst (isOpen key now m) = blocked now b"
  by (auto simp: implementsBackoff_def isOpen_def blocked_def breaker_constants calm_def split: option.splits)

lemma breaker_other: "k \<noteq> key \<Longrightarrow> map_get (breakerStep k e m) key = map_get m key"
  by (cases e) (auto simp: isOpen_def recordSuccess_def recordFailure_def split: option.splits)

text \<open>
  C26: the circuit breaker implements the abstract backoff, key by key. After any events on any keys,
  at positive instants, it refuses refreshes for a key exactly when at least three failures have
  come in a row and the cooldown since the last of them is not over; the cooldown is thirty seconds
  at the first trip, twice the previous one at each further trip, and never more than ten minutes;
  transient failures count for nothing.
\<close>

theorem breaker_refines_backoff:
  assumes "\<forall>(k, e) \<in> set events. 0 < breakerTime e"
  shows "fst (isOpen key now (fold (\<lambda>(k, e). breakerStep k e) events [])) =
    blocked now (fold backoffStep (map snd (filter (\<lambda>(k, e). k = key) events)) calm)"
proof -
  have "implementsBackoff (map_get (fold (\<lambda>(k, e). breakerStep k e) events m) key)
      (fold backoffStep (map snd (filter (\<lambda>(k, e). k = key) events)) b)"
    if "implementsBackoff (map_get m key) b" for m b
    using that assms
  proof (induction events arbitrary: m b)
    case (Cons p events)
    obtain k e where p: "p = (k, e)" by fastforce
    with Cons show ?case by (cases "k = key") (auto simp: breaker_step breaker_other)
  qed simp
  from this [of "[]" calm] show ?thesis by (intro breaker_answer) (simp add: implementsBackoff_def)
qed

theorem breaker_refines_backoff_witness:
  "fst (isOpen ''c'' 30009 (fold (\<lambda>(k, e). breakerStep k e)
     [(''c'', Fails 8), (''d'', Succeeds), (''c'', Fails 9), (''c'', FailsTransiently 9), (''c'', Fails 10)] []))"
  by (subst breaker_refines_backoff)
    (simp_all add: blocked_def calm_def Let_def)

end
