(* ===== verification/Credential_Handles.thy ===== *)
theory Credential_Handles
  imports Js_Strings
begin

text \<open>
  Credential handles (packages/service-contracts/src/handles.ts), the resolution of a handle to a
  local credential (credential-executor/src/subjects/local.ts) and the credential's own policy
  (subjects/policy.ts). The stores that hold the metadata records are arguments.
\<close>

section \<open>Handles\<close>

datatype handleType = LocalStatic | LocalOAuth | PlatformOAuth

definition handleTypeText :: "handleType \<Rightarrow> string" where
  "handleTypeText t = (case t of LocalStatic \<Rightarrow> ''local_static'' | LocalOAuth \<Rightarrow> ''local_oauth'' | PlatformOAuth \<Rightarrow> ''platform_oauth'')"

datatype parsedHandle =
    LocalStaticHandle (handle_service: string) (handle_field: string) (handle_raw: string)
  | LocalOAuthHandle (handle_providerKey: string) (handle_connectionId: string) (handle_raw: string)
  | PlatformOAuthHandle (handle_connectionId: string) (handle_raw: string)

fun parsedType :: "parsedHandle \<Rightarrow> handleType" where
  "parsedType (LocalStaticHandle s f r) = LocalStatic"
| "parsedType (LocalOAuthHandle p c r) = LocalOAuth"
| "parsedType (PlatformOAuthHandle c r) = PlatformOAuth"

definition localStaticHandle :: "string \<Rightarrow> string \<Rightarrow> string" where
  "localStaticHandle service field = handleTypeText LocalStatic @ '':'' @ service @ ''/'' @ field"

definition localOAuthHandle :: "string \<Rightarrow> string \<Rightarrow> string" where
  "localOAuthHandle providerKey connectionId = handleTypeText LocalOAuth @ '':'' @ providerKey @ ''/'' @ connectionId"

definition platformOAuthHandle :: "string \<Rightarrow> string" where
  "platformOAuthHandle connectionId = handleTypeText PlatformOAuth @ '':'' @ connectionId"

datatype handleError = MissingTypePrefix | InvalidLocalStatic | InvalidLocalOAuth | MissingConnectionId | UnknownPrefix string

text \<open>Both parts around the first slash; \<open>None\<close> when there is no slash, or it is first or last.\<close>

definition splitAtSlash :: "string \<Rightarrow> (string \<times> string) option" where
  "splitAtSlash rest =
     (case findIndex (\<lambda>c. c = CHR ''/'') rest of
        None \<Rightarrow> None
      | Some i \<Rightarrow> if i = 0 \<or> i = length rest - 1 then None else Some (take i rest, drop (i + 1) rest))"

definition parseHandle :: "string \<Rightarrow> handleError + parsedHandle" where
  "parseHandle raw =
     (case findIndex (\<lambda>c. c = CHR '':'') raw of
        None \<Rightarrow> Inl MissingTypePrefix
      | Some i \<Rightarrow>
          let prefix = take i raw; rest = drop (i + 1) raw in
          if prefix = handleTypeText LocalStatic then
            (case splitAtSlash rest of None \<Rightarrow> Inl InvalidLocalStatic | Some (s, f) \<Rightarrow> Inr (LocalStaticHandle s f raw))
          else if prefix = handleTypeText LocalOAuth then
            (case splitAtSlash rest of None \<Rightarrow> Inl InvalidLocalOAuth | Some (p, c) \<Rightarrow> Inr (LocalOAuthHandle p c raw))
          else if prefix = handleTypeText PlatformOAuth then
            (if rest = [] then Inl MissingConnectionId else Inr (PlatformOAuthHandle rest raw))
          else Inl (UnknownPrefix prefix))"

section \<open>Local subjects\<close>

datatype injectionType = HeaderInjection | QueryInjection

record injectionTemplate =
  it_hostPattern :: string
  it_injectionType :: injectionType
  it_headerName :: "string option"
  it_valuePrefix :: "string option"
  it_queryParamName :: "string option"

record staticCredentialRecord =
  scr_credentialId :: string
  scr_service :: string
  scr_field :: string
  scr_allowedTools :: "string list option"
  scr_allowedDomains :: "string list option"
  scr_usageDescription :: "string option"
  scr_alias :: "string option"
  scr_injectionTemplates :: "injectionTemplate list option"
  scr_createdAt :: int
  scr_updatedAt :: int

record oAuthConnectionRecord =
  oc_id :: string
  oc_providerKey :: string
  oc_accountInfo :: "string option"
  oc_grantedScopes :: "string list"
  oc_accessTokenPath :: string
  oc_hasRefreshToken :: bool
  oc_expiresAt :: "int option"
  oc_createdAt :: int
  oc_updatedAt :: int

datatype resolvedLocalSubject =
    ResolvedStaticSubject (subject_handle: parsedHandle) (subject_metadata: staticCredentialRecord) (subject_storageKey: string)
  | ResolvedOAuthSubject (subject_handle: parsedHandle) (subject_connection: oAuthConnectionRecord)

datatype subjectError =
    HandleUnparsed handleError | NoStaticCredential string string | NoConnection string
  | ProviderMismatch string string string | NotLocal

record localSubjectResolverDeps =
  lsd_metadataStore :: "string \<Rightarrow> string \<Rightarrow> staticCredentialRecord option"
  lsd_oauthConnections :: "string \<Rightarrow> oAuthConnectionRecord option"

definition credentialKey :: "string \<Rightarrow> string \<Rightarrow> string" where
  "credentialKey service field = ''credential/'' @ service @ ''/'' @ field"

definition resolveLocalSubject :: "localSubjectResolverDeps \<Rightarrow> string \<Rightarrow> subjectError + resolvedLocalSubject" where
  "resolveLocalSubject deps rawHandle =
     (case parseHandle rawHandle of
        Inl e \<Rightarrow> Inl (HandleUnparsed e)
      | Inr (LocalStaticHandle service field raw) \<Rightarrow>
          (case lsd_metadataStore deps service field of
             None \<Rightarrow> Inl (NoStaticCredential service field)
           | Some metadata \<Rightarrow>
               Inr (ResolvedStaticSubject (LocalStaticHandle service field raw) metadata (credentialKey service field)))
      | Inr (LocalOAuthHandle providerKey connectionId raw) \<Rightarrow>
          (case lsd_oauthConnections deps connectionId of
             None \<Rightarrow> Inl (NoConnection connectionId)
           | Some connection \<Rightarrow>
               if oc_providerKey connection \<noteq> providerKey
               then Inl (ProviderMismatch connectionId (oc_providerKey connection) providerKey)
               else Inr (ResolvedOAuthSubject (LocalOAuthHandle providerKey connectionId raw) connection))
      | Inr (PlatformOAuthHandle connectionId raw) \<Rightarrow> Inl NotLocal)"

section \<open>The policy of a credential\<close>

datatype credentialPolicyError = DomainRestricted "string list" | NoToolsAllowed | ToolNotAllowed string "string list"

definition checkCredentialPolicy :: "staticCredentialRecord \<Rightarrow> string \<Rightarrow> credentialPolicyError option" where
  "checkCredentialPolicy metadata tool =
     (if get_or [] (scr_allowedDomains metadata) \<noteq> [] then Some (DomainRestricted (get_or [] (scr_allowedDomains metadata)))
      else
        (case scr_allowedTools metadata of
           None \<Rightarrow> None
         | Some tools \<Rightarrow>
             if tool \<in> set tools then None
             else if tools = [] then Some NoToolsAllowed else Some (ToolNotAllowed tool tools)))"

section \<open>Round trips\<close>

lemma findIndex_append_first: "\<forall>x \<in> set xs. \<not> P x \<Longrightarrow> P y \<Longrightarrow> findIndex P (xs @ y # ys) = Some (length xs)"
  by (induction xs) auto

lemma splitAtSlash_join:
  assumes "CHR ''/'' \<notin> set a" "a \<noteq> []" "b \<noteq> []"
  shows "splitAtSlash (a @ CHR ''/'' # b) = Some (a, b)"
proof -
  have "findIndex (\<lambda>c. c = CHR ''/'') (a @ CHR ''/'' # b) = Some (length a)"
    by (rule findIndex_append_first) (use assms in auto)
  with assms show ?thesis by (simp add: splitAtSlash_def)
qed

lemma parse_prefix:
  "findIndex (\<lambda>c. c = CHR '':'') (handleTypeText t @ CHR '':'' # rest) = Some (length (handleTypeText t))"
  by (rule findIndex_append_first) (cases t; simp add: handleTypeText_def)+

lemma parse_built_handles:
  "CHR ''/'' \<notin> set a \<Longrightarrow> a \<noteq> [] \<Longrightarrow> b \<noteq> [] \<Longrightarrow>
     parseHandle (localStaticHandle a b) = Inr (LocalStaticHandle a b (localStaticHandle a b))"
  "CHR ''/'' \<notin> set a \<Longrightarrow> a \<noteq> [] \<Longrightarrow> b \<noteq> [] \<Longrightarrow>
     parseHandle (localOAuthHandle a b) = Inr (LocalOAuthHandle a b (localOAuthHandle a b))"
  "b \<noteq> [] \<Longrightarrow> parseHandle (platformOAuthHandle b) = Inr (PlatformOAuthHandle b (platformOAuthHandle b))"
  by (simp_all add: parseHandle_def localStaticHandle_def localOAuthHandle_def platformOAuthHandle_def Let_def
      parse_prefix [simplified] splitAtSlash_join)
    (simp_all add: handleTypeText_def)

end
