(* ===== verification/Local_Materialiser.thy ===== *)
theory Local_Materialiser
  imports Token_Refresh Credential_Handles
begin

text \<open>
  Materialisation of local credentials (credential-executor/src/materializers/local.ts).

  The first half computes the answer of \<open>materialise\<close> from what its awaits returned. The second half
  is the class with its state, cut at the awaits: a read of the backend captures a value, the call
  continues later; a refresh is a job of its own that several calls may join; between any two steps
  other calls and other users of the backend may run.
\<close>

section \<open>The answer of a call\<close>

record materialisedCredential =
  mc_value :: string
  mc_handleType :: handleType
  mc_expiresAt :: "int option"
  mc_injectionTemplates :: "injectionTemplate list option"

type_synonym materialisationResult = "string + materialisedCredential"

definition quoted :: "string \<Rightarrow> string" where
  "quoted s = CHR 0x22 # s @ [CHR 0x22]"

definition materialiseStatic :: "staticCredentialRecord \<Rightarrow> string \<Rightarrow> string option \<Rightarrow> materialisationResult" where
  "materialiseStatic metadata storageKey secretValue =
     (case secretValue of
        None \<Rightarrow>
          Inl (''Secure key '' @ quoted storageKey @ '' not found in local credential store. The credential for service='' @
            quoted (scr_service metadata) @ '', field='' @ quoted (scr_field metadata) @
            '' has metadata but no secret value stored.'')
      | Some v \<Rightarrow>
          Inr \<lparr>mc_value = v, mc_handleType = LocalStatic, mc_expiresAt = None,
            mc_injectionTemplates = scr_injectionTemplates metadata\<rparr>)"

datatype oauthDecision = AnswerNow materialisationResult | RefreshFirst

definition checkAccessToken :: "oAuthConnectionRecord \<Rightarrow> string option \<Rightarrow> int \<Rightarrow> oauthDecision" where
  "checkAccessToken connection accessToken now =
     (let valid = AnswerNow (Inr \<lparr>mc_value = the accessToken, mc_handleType = LocalOAuth,
            mc_expiresAt = oc_expiresAt connection, mc_injectionTemplates = None\<rparr>)
      in if \<not> truthy accessToken then
           AnswerNow (Inl (''No access token found for OAuth connection '' @ quoted (oc_id connection) @ '' (provider='' @
             quoted (oc_providerKey connection) @ ''). The connection is disconnected.''))
         else if oc_hasRefreshToken connection then
           (if isTokenExpired (oc_expiresAt connection) EXPIRY_BUFFER_MS now then RefreshFirst else valid)
         else if (case oc_expiresAt connection of None \<Rightarrow> False | Some t \<Rightarrow> t \<noteq> 0 \<and> now \<ge> t) then
           AnswerNow (Inl (''Token for OAuth connection '' @ quoted (oc_id connection) @
             '' is expired and no refresh token is available. Re-authorization required.''))
         else valid)"

text \<open>The checks of \<open>refreshAndMaterialise\<close> in front of its first await, and the one after it.\<close>

definition refreshGate :: "bool \<Rightarrow> bool \<Rightarrow> string \<Rightarrow> string option" where
  "refreshGate breakerOpen configured connectionId =
     (if breakerOpen then
        Some (''Token refresh circuit breaker is open for connection '' @ quoted connectionId @
          ''. Too many consecutive refresh failures. Re-authorization may be required.'')
      else if \<not> configured then
        Some (''Token for OAuth connection '' @ quoted connectionId @
          '' is expired but no refresh function is configured. Re-authorization required.'')
      else None)"

definition checkRefreshToken :: "string \<Rightarrow> string option \<Rightarrow> string option" where
  "checkRefreshToken connectionId refreshToken =
     (if \<not> truthy refreshToken then
        Some (''Token for OAuth connection '' @ quoted connectionId @
          '' is expired and no refresh token is available. Re-authorization required.'')
      else None)"

definition refreshAnswer :: "string \<Rightarrow> string + string \<Rightarrow> materialisationResult" where
  "refreshAnswer connectionId outcome =
     (case outcome of
        Inl message \<Rightarrow> Inl (''Failed to refresh token for OAuth connection '' @ quoted connectionId @ '': '' @ message)
      | Inr newAccessToken \<Rightarrow>
          Inr \<lparr>mc_value = newAccessToken, mc_handleType = LocalOAuth, mc_expiresAt = None, mc_injectionTemplates = None\<rparr>)"

text \<open>What the awaits and reads of one call returned.\<close>

record materialiseReads =
  rd_secret :: "string option"
  rd_access :: "string option"
  rd_now :: int
  rd_open :: bool
  rd_configured :: bool
  rd_refreshToken :: "string option"
  rd_refreshed :: "string + string"

definition materialiseOAuth :: "materialiseReads \<Rightarrow> oAuthConnectionRecord \<Rightarrow> materialisationResult" where
  "materialiseOAuth reads connection =
     (case checkAccessToken connection (rd_access reads) (rd_now reads) of
        AnswerNow r \<Rightarrow> r
      | RefreshFirst \<Rightarrow>
          (case refreshGate (rd_open reads) (rd_configured reads) (oc_id connection) of
             Some e \<Rightarrow> Inl e
           | None \<Rightarrow>
               (case checkRefreshToken (oc_id connection) (rd_refreshToken reads) of
                  Some e \<Rightarrow> Inl e
                | None \<Rightarrow> refreshAnswer (oc_id connection) (rd_refreshed reads))))"

fun materialise :: "materialiseReads \<Rightarrow> resolvedLocalSubject \<Rightarrow> materialisationResult" where
  "materialise reads (ResolvedStaticSubject h metadata storageKey) = materialiseStatic metadata storageKey (rd_secret reads)"
| "materialise reads (ResolvedOAuthSubject h connection) = materialiseOAuth reads connection"

section \<open>The class\<close>

text \<open>The answer of the refresh callback, which may also throw.\<close>

datatype refreshReply = RefreshSucceeds string "int option" "string option" | RefreshFails string | RefreshThrows string

datatype readKind = SecretRead | AccessRead | RefreshRead

datatype callStage = AwaitRead readKind | HasRead readKind "string option" | AwaitJob nat | CallSettled materialisationResult

record materialiseCall =
  ca_subject :: resolvedLocalSubject
  ca_reads :: materialiseReads
  ca_stage :: callStage

datatype jobStage =
    AwaitProvider
  | AwaitSetAccess string "string option"
  | AwaitSetRefresh string string
  | JobSettled "string + string"
  | JobFinished "string + string"

record refreshJob =
  jb_connection :: string
  jb_stage :: jobStage

record localMaterialiser =
  lm_keys :: secureKeys
  lm_configured :: bool
  lm_breaker :: refreshCircuitBreaker
  lm_inflight :: "(string, nat) js_Map"
  lm_jobs :: "(nat, refreshJob) js_Map"
  lm_calls :: "(nat, materialiseCall) js_Map"
  lm_next :: nat
  lm_sent :: "(string \<times> string) list"
  \<comment> \<open>\<open>lm_sent\<close> lists the calls of the refresh callback: connection and refresh token\<close>

definition newLocalMaterialiser :: "bool \<Rightarrow> secureKeys \<Rightarrow> localMaterialiser" where
  "newLocalMaterialiser configured keys =
     \<lparr>lm_keys = keys, lm_configured = configured, lm_breaker = [], lm_inflight = [], lm_jobs = [], lm_calls = [],
      lm_next = 0, lm_sent = []\<rparr>"

definition noReads :: materialiseReads where
  "noReads = \<lparr>rd_secret = None, rd_access = None, rd_now = 0, rd_open = False, rd_configured = False,
     rd_refreshToken = None, rd_refreshed = Inl []\<rparr>"

definition setCall :: "nat \<Rightarrow> materialiseCall \<Rightarrow> localMaterialiser \<Rightarrow> localMaterialiser" where
  "setCall c call s = s\<lparr>lm_calls := map_set c call (lm_calls s)\<rparr>"

definition setJobStage :: "nat \<Rightarrow> refreshJob \<Rightarrow> jobStage \<Rightarrow> localMaterialiser \<Rightarrow> localMaterialiser" where
  "setJobStage j job stage s = s\<lparr>lm_jobs := map_set j (job\<lparr>jb_stage := stage\<rparr>) (lm_jobs s)\<rparr>"

definition beginMaterialise :: "resolvedLocalSubject \<Rightarrow> localMaterialiser \<Rightarrow> localMaterialiser" where
  "beginMaterialise subject s =
     setCall (lm_next s)
       \<lparr>ca_subject = subject, ca_reads = noReads,
        ca_stage = AwaitRead (case subject of ResolvedStaticSubject h m k \<Rightarrow> SecretRead | ResolvedOAuthSubject h c \<Rightarrow> AccessRead)\<rparr>
       (s\<lparr>lm_next := Suc (lm_next s)\<rparr>)"

fun readPath :: "resolvedLocalSubject \<Rightarrow> readKind \<Rightarrow> string" where
  "readPath (ResolvedStaticSubject h m storageKey) kind = storageKey"
| "readPath (ResolvedOAuthSubject h connection) kind =
     (if kind = RefreshRead then oauthConnectionRefreshTokenPath (oc_id connection)
      else oauthConnectionAccessTokenPath (oc_id connection))"

text \<open>\<open>deduplicate\<close>: the job of the connection, started now if there is none.\<close>

definition deduplicate :: "string \<Rightarrow> string \<Rightarrow> localMaterialiser \<Rightarrow> nat \<times> localMaterialiser" where
  "deduplicate key refreshToken s =
     (case map_get (lm_inflight s) key of
        Some j \<Rightarrow> (j, s)
      | None \<Rightarrow>
          (lm_next s,
           s\<lparr>lm_inflight := map_set key (lm_next s) (lm_inflight s),
             lm_jobs := map_set (lm_next s) \<lparr>jb_connection = key, jb_stage = AwaitProvider\<rparr> (lm_jobs s),
             lm_next := Suc (lm_next s), lm_sent := lm_sent s @ [(key, refreshToken)]\<rparr>))"

text \<open>A call goes on after a read.\<close>

definition continueSecret :: "nat \<Rightarrow> materialiseCall \<Rightarrow> string option \<Rightarrow> localMaterialiser \<Rightarrow> localMaterialiser" where
  "continueSecret c call v s =
     (case ca_subject call of
        ResolvedStaticSubject h metadata storageKey \<Rightarrow>
          setCall c (call\<lparr>ca_reads := (ca_reads call)\<lparr>rd_secret := v\<rparr>,
            ca_stage := CallSettled (materialiseStatic metadata storageKey v)\<rparr>) s
      | ResolvedOAuthSubject h connection \<Rightarrow> s)"

definition continueAccess :: "nat \<Rightarrow> materialiseCall \<Rightarrow> string option \<Rightarrow> int \<Rightarrow> localMaterialiser \<Rightarrow> localMaterialiser" where
  "continueAccess c call v now s =
     (case ca_subject call of
        ResolvedStaticSubject h metadata storageKey \<Rightarrow> s
      | ResolvedOAuthSubject h connection \<Rightarrow>
          let reads = (ca_reads call)\<lparr>rd_access := v, rd_now := now\<rparr> in
          (case checkAccessToken connection v now of
             AnswerNow r \<Rightarrow> setCall c (call\<lparr>ca_reads := reads, ca_stage := CallSettled r\<rparr>) s
           | RefreshFirst \<Rightarrow>
               (case isOpen (oc_id connection) now (lm_breaker s) of
                  (opened, breaker) \<Rightarrow>
                    setCall c
                      (call\<lparr>ca_reads := reads\<lparr>rd_open := opened, rd_configured := lm_configured s\<rparr>,
                        ca_stage := (case refreshGate opened (lm_configured s) (oc_id connection) of
                                       Some e \<Rightarrow> CallSettled (Inl e)
                                     | None \<Rightarrow> AwaitRead RefreshRead)\<rparr>)
                      (s\<lparr>lm_breaker := breaker\<rparr>))))"

definition continueRefresh :: "nat \<Rightarrow> materialiseCall \<Rightarrow> string option \<Rightarrow> localMaterialiser \<Rightarrow> localMaterialiser" where
  "continueRefresh c call v s =
     (case ca_subject call of
        ResolvedStaticSubject h metadata storageKey \<Rightarrow> s
      | ResolvedOAuthSubject h connection \<Rightarrow>
          let reads = (ca_reads call)\<lparr>rd_refreshToken := v\<rparr> in
          (case checkRefreshToken (oc_id connection) v of
             Some e \<Rightarrow> setCall c (call\<lparr>ca_reads := reads, ca_stage := CallSettled (Inl e)\<rparr>) s
           | None \<Rightarrow>
               (case deduplicate (oc_id connection) (the v) s of
                  (j, s1) \<Rightarrow> setCall c (call\<lparr>ca_reads := reads, ca_stage := AwaitJob j\<rparr>) s1)))"

text \<open>The steps of a refresh; the last two writes are \<open>persistRefreshedTokens\<close>.\<close>

definition providerAnswers :: "nat \<Rightarrow> refreshJob \<Rightarrow> refreshReply \<Rightarrow> int \<Rightarrow> localMaterialiser \<Rightarrow> localMaterialiser" where
  "providerAnswers j job reply now s =
     (case reply of
        RefreshThrows message \<Rightarrow> setJobStage j job (JobSettled (Inl message)) s
      | RefreshFails message \<Rightarrow>
          setJobStage j job (JobSettled (Inl message))
            (s\<lparr>lm_breaker := recordFailure (jb_connection job) True now (lm_breaker s)\<rparr>)
      | RefreshSucceeds accessToken expiresAt refreshToken \<Rightarrow>
          setJobStage j job (AwaitSetAccess accessToken refreshToken)
            (s\<lparr>lm_breaker := recordSuccess (jb_connection job) (lm_breaker s)\<rparr>))"

definition accessStored :: "nat \<Rightarrow> refreshJob \<Rightarrow> bool \<Rightarrow> string \<Rightarrow> string option \<Rightarrow> localMaterialiser \<Rightarrow> localMaterialiser" where
  "accessStored j job ok accessToken refreshToken s =
     (case backendSet ok (oauthConnectionAccessTokenPath (jb_connection job)) accessToken (lm_keys s) of
        (stored, keys) \<Rightarrow>
          setJobStage j job
            (if \<not> stored then JobSettled (Inl (''Failed to store refreshed access token for connection '' @ jb_connection job))
             else if truthy refreshToken then AwaitSetRefresh accessToken (the refreshToken)
             else JobSettled (Inr accessToken))
            (s\<lparr>lm_keys := keys\<rparr>))"

definition refreshStored :: "nat \<Rightarrow> refreshJob \<Rightarrow> bool \<Rightarrow> string \<Rightarrow> string \<Rightarrow> localMaterialiser \<Rightarrow> localMaterialiser" where
  "refreshStored j job ok accessToken refreshToken s =
     (case backendSet ok (oauthConnectionRefreshTokenPath (jb_connection job)) refreshToken (lm_keys s) of
        (stored, keys) \<Rightarrow>
          setJobStage j job
            (if \<not> stored then JobSettled (Inl (''Failed to store refreshed refresh token for connection '' @ jb_connection job))
             else JobSettled (Inr accessToken))
            (s\<lparr>lm_keys := keys\<rparr>))"

definition jobFinally :: "nat \<Rightarrow> refreshJob \<Rightarrow> string + string \<Rightarrow> localMaterialiser \<Rightarrow> localMaterialiser" where
  "jobFinally j job outcome s =
     setJobStage j job (JobFinished outcome) (s\<lparr>lm_inflight := map_delete (jb_connection job) (lm_inflight s)\<rparr>)"

definition continueJob :: "nat \<Rightarrow> materialiseCall \<Rightarrow> string + string \<Rightarrow> localMaterialiser \<Rightarrow> localMaterialiser" where
  "continueJob c call outcome s =
     (case ca_subject call of
        ResolvedStaticSubject h metadata storageKey \<Rightarrow> s
      | ResolvedOAuthSubject h connection \<Rightarrow>
          setCall c (call\<lparr>ca_reads := (ca_reads call)\<lparr>rd_refreshed := outcome\<rparr>,
            ca_stage := CallSettled (refreshAnswer (oc_id connection) outcome)\<rparr>) s)"

definition resetMaterialiser :: "localMaterialiser \<Rightarrow> localMaterialiser" where
  "resetMaterialiser s = s\<lparr>lm_breaker := clearBreakers (lm_breaker s), lm_inflight := []\<rparr>"
  \<comment> \<open>for tests; no step below\<close>

section \<open>Interleaving\<close>

datatype materialiserEvent =
    Begin resolvedLocalSubject
  | BackendRead nat
  | ContinueCall nat int
  | ProviderReplies nat refreshReply int
  | BackendStored nat bool
  | Finalise nat
  | KeyChanged string "string option"

definition callStep :: "nat \<Rightarrow> int \<Rightarrow> localMaterialiser \<Rightarrow> materialiseCall \<Rightarrow> localMaterialiser option" where
  "callStep c now s call =
     (case ca_stage call of
        HasRead SecretRead v \<Rightarrow> Some (continueSecret c call v s)
      | HasRead AccessRead v \<Rightarrow> Some (continueAccess c call v now s)
      | HasRead RefreshRead v \<Rightarrow> Some (continueRefresh c call v s)
      | AwaitJob j \<Rightarrow>
          (case map_get (lm_jobs s) j of
             Some job \<Rightarrow> (case jb_stage job of JobFinished outcome \<Rightarrow> Some (continueJob c call outcome s) | _ \<Rightarrow> None)
           | None \<Rightarrow> None)
      | _ \<Rightarrow> None)"

text \<open>\<open>None\<close>: the step is not possible in this state.\<close>

fun materialiserStep :: "materialiserEvent \<Rightarrow> localMaterialiser \<Rightarrow> localMaterialiser option" where
  "materialiserStep (Begin subject) s = Some (beginMaterialise subject s)"
| "materialiserStep (BackendRead c) s =
     (case map_get (lm_calls s) c of
        None \<Rightarrow> None
      | Some call \<Rightarrow>
          (case ca_stage call of
             AwaitRead kind \<Rightarrow>
               Some (setCall c (call\<lparr>ca_stage := HasRead kind (map_get (lm_keys s) (readPath (ca_subject call) kind))\<rparr>) s)
           | _ \<Rightarrow> None))"
| "materialiserStep (ContinueCall c now) s = Option.bind (map_get (lm_calls s) c) (callStep c now s)"
| "materialiserStep (ProviderReplies j reply now) s =
     (case map_get (lm_jobs s) j of
        None \<Rightarrow> None
      | Some job \<Rightarrow> if jb_stage job = AwaitProvider then Some (providerAnswers j job reply now s) else None)"
| "materialiserStep (BackendStored j ok) s =
     (case map_get (lm_jobs s) j of
        None \<Rightarrow> None
      | Some job \<Rightarrow>
          (case jb_stage job of
             AwaitSetAccess a r \<Rightarrow> Some (accessStored j job ok a r s)
           | AwaitSetRefresh a r \<Rightarrow> Some (refreshStored j job ok a r s)
           | _ \<Rightarrow> None))"
| "materialiserStep (Finalise j) s =
     (case map_get (lm_jobs s) j of
        None \<Rightarrow> None
      | Some job \<Rightarrow> (case jb_stage job of JobSettled outcome \<Rightarrow> Some (jobFinally j job outcome s) | _ \<Rightarrow> None))"
| "materialiserStep (KeyChanged key v) s =
     Some (s\<lparr>lm_keys := (case v of None \<Rightarrow> map_delete key (lm_keys s) | Some x \<Rightarrow> map_set key x (lm_keys s))\<rparr>)"

fun materialiserRun :: "materialiserEvent list \<Rightarrow> localMaterialiser \<Rightarrow> localMaterialiser option" where
  "materialiserRun [] s = Some s"
| "materialiserRun (e # es) s = Option.bind (materialiserStep e s) (materialiserRun es)"

end
