(* ===== verification/Managed_Subjects.thy ===== *)
theory Managed_Subjects
  imports Credential_Handles "HOL-Library.Sublist"
begin

text \<open>
  Credentials managed by the platform: resolution of a \<open>platform_oauth\<close> handle against the catalog
  (credential-executor/src/subjects/managed.ts) and materialisation of its token
  (credential-executor/src/materializers/managed-platform.ts).

  The platform is a parameter: a function from requests to replies. A body is the JSON value it
  holds, because the code reads it without a schema; reading a property of \<open>null\<close> throws.
\<close>

section \<open>The standard library\<close>

definition isUnreserved :: "char \<Rightarrow> bool" where
  "isUnreserved c \<longleftrightarrow> isDigit c \<or> (let n = (of_char c :: nat) in (65 \<le> n \<and> n \<le> 90) \<or> (97 \<le> n \<and> n \<le> 122)) \<or>
     c \<in> {CHR ''-'', CHR ''_'', CHR ''.'', CHR ''!'', CHR ''~'', CHR ''*'', CHR 0x27, CHR ''('', CHR '')''}"

definition percentByte :: "nat \<Rightarrow> string" where
  "percentByte n = [CHR ''%'', ''0123456789ABCDEF'' ! (n div 16), ''0123456789ABCDEF'' ! (n mod 16)]"

definition encodeURIComponent :: "string \<Rightarrow> string" where
  "encodeURIComponent s =
     concat (map (\<lambda>c. let n = (of_char c :: nat) in
       if isUnreserved c then [c]
       else if n < 128 then percentByte n
       else percentByte (192 + n div 64) @ percentByte (128 + n mod 64)) s)"

text \<open>\<open>None\<close> when reading the property throws; a missing property is \<open>Some None\<close>.\<close>

fun jsonProperty :: "string \<Rightarrow> json \<Rightarrow> json option option" where
  "jsonProperty name JNull = None"
| "jsonProperty name (JObj fs) = Some (map_of (rev fs) name)"
| "jsonProperty name v = Some None"

definition nullish :: "json \<Rightarrow> json option \<Rightarrow> json" where
  "nullish d v = (case v of None \<Rightarrow> d | Some JNull \<Rightarrow> d | Some x \<Rightarrow> x)"

section \<open>Requests\<close>

record platformRequest =
  pr_method :: string
  pr_url :: string
  pr_headers :: "(string, string) js_Map"
  pr_body :: "string option"

datatype platformReply = PlatformThrows string | PlatformReplies int "json option"
  \<comment> \<open>the status, and the body unless it is not JSON\<close>

definition replyOk :: "int \<Rightarrow> bool" where
  "replyOk status \<longleftrightarrow> 200 \<le> status \<and> status \<le> 299"

record platformOptions =
  po_platformBaseUrl :: string
  po_assistantApiKey :: string
  po_assistantId :: string

text \<open>\<open>message.replace(/Api-Key\s+\S+/gi, ...)\<close>.\<close>

definition apiKeyMatch :: "string \<Rightarrow> string option" where
  "apiKeyMatch s =
     (let rest = drop 7 s; word = dropWhile isSpace rest in
      if toLowerCase (take 7 s) = ''api-key'' \<and> word \<noteq> rest \<and> word \<noteq> [] then Some (dropWhile (\<lambda>c. \<not> isSpace c) word) else None)"

lemma apiKeyMatch_shorter: "apiKeyMatch s = Some t \<Longrightarrow> length t < length s"
proof -
  assume a: "apiKeyMatch s = Some t"
  let ?w = "dropWhile isSpace (drop 7 s)"
  from a have t: "t = dropWhile (\<lambda>c. \<not> isSpace c) ?w" "?w \<noteq> drop 7 s" by (auto simp: apiKeyMatch_def Let_def split: if_splits)
  have "length t \<le> length ?w" "length ?w \<le> length (drop 7 s)" unfolding t(1) by (rule length_dropWhile_le)+
  moreover have "s \<noteq> []" using t(2) by auto
  then have "length (drop 7 s) < length s" by simp
  ultimately show "length t < length s" by linarith
qed

function sanitizeError :: "string \<Rightarrow> string" where
  "sanitizeError s =
     (case apiKeyMatch s of
        Some rest \<Rightarrow> ''Api-Key [REDACTED]'' @ sanitizeError rest
      | None \<Rightarrow> (case s of [] \<Rightarrow> [] | c # cs \<Rightarrow> c # sanitizeError cs))"
  by pat_completeness auto
termination
  by (relation "measure length") (auto simp: apiKeyMatch_shorter)

declare sanitizeError.simps [simp del]

section \<open>Resolution\<close>

record managedSubject =
  ms_handle :: string
  ms_provider :: "json option"
  ms_connectionId :: string
  ms_accountInfo :: json
  ms_grantedScopes :: json
  ms_status :: json

text \<open>An error has a code and a message; a thrown exception has neither.\<close>

datatype 'a platformResult = PlatformThrew | PlatformError string string | PlatformOk 'a

definition catalogRequest :: "platformOptions \<Rightarrow> platformRequest" where
  "catalogRequest options =
     \<lparr>pr_method = ''GET'',
      pr_url = po_platformBaseUrl options @ ''/v1/assistants/'' @ encodeURIComponent (po_assistantId options) @ ''/oauth/managed/catalog/'',
      pr_headers = [(''Authorization'', ''Api-Key '' @ po_assistantApiKey options), (''Accept'', ''application/json'')],
      pr_body = None\<rparr>"

text \<open>\<open>entries.find\<close>: the first entry with this connection id.\<close>

fun findConnection :: "string \<Rightarrow> json list \<Rightarrow> json option platformResult" where
  "findConnection connectionId [] = PlatformOk None"
| "findConnection connectionId (c # cs) =
     (case jsonProperty ''connection_id'' c of
        None \<Rightarrow> PlatformThrew
      | Some v \<Rightarrow> if v = Some (JStr connectionId) then PlatformOk (Some c) else findConnection connectionId cs)"

definition managedSubjectOf :: "string \<Rightarrow> string \<Rightarrow> json \<Rightarrow> managedSubject" where
  "managedSubjectOf handle connectionId entry =
     (let prop = (\<lambda>name. get_or None (jsonProperty name entry)) in
      \<lparr>ms_handle = handle, ms_provider = prop ''provider'', ms_connectionId = connectionId,
       ms_accountInfo = nullish JNull (prop ''account_label''), ms_grantedScopes = nullish (JArr []) (prop ''scopes_granted''),
       ms_status = nullish (JStr ''unknown'') (prop ''status'')\<rparr>)"

text \<open>The checks on the options, in the order both functions make them.\<close>

definition missingOption :: "string \<Rightarrow> platformOptions \<Rightarrow> (string \<times> string) option" where
  "missingOption purpose options =
     (if po_platformBaseUrl options = [] then Some (''MISSING_PLATFORM_URL'', ''Platform base URL is required for '' @ purpose)
      else if po_assistantApiKey options = [] then Some (''MISSING_API_KEY'', ''Assistant API key is required for '' @ purpose)
      else if po_assistantId options = [] then Some (''MISSING_ASSISTANT_ID'', ''Assistant ID is required for '' @ purpose)
      else None)"

definition readCatalog :: "string \<Rightarrow> string \<Rightarrow> platformReply \<Rightarrow> managedSubject platformResult" where
  "readCatalog handle connectionId reply =
     (case reply of
        PlatformThrows message \<Rightarrow>
          PlatformError ''PLATFORM_UNREACHABLE'' (''Failed to reach platform CES catalog: '' @ sanitizeError message)
      | PlatformReplies status body \<Rightarrow>
          if \<not> replyOk status then
            PlatformError (''PLATFORM_HTTP_'' @ number_text status) (''Platform CES catalog returned HTTP '' @ number_text status)
          else
            (case body of
               None \<Rightarrow> PlatformError ''INVALID_CATALOG_RESPONSE'' ''Platform CES catalog returned invalid JSON''
             | Some (JArr entries) \<Rightarrow>
                 (case findConnection connectionId entries of
                    PlatformOk (Some entry) \<Rightarrow> PlatformOk (managedSubjectOf handle connectionId entry)
                  | PlatformOk None \<Rightarrow>
                      PlatformError ''CONNECTION_NOT_FOUND'' (''Connection '' @ connectionId @ '' not found in platform catalog'')
                  | PlatformThrew \<Rightarrow> PlatformThrew
                  | PlatformError code message \<Rightarrow> PlatformError code message)
             | Some v \<Rightarrow> PlatformError ''INVALID_CATALOG_RESPONSE'' ''Platform CES catalog returned unexpected response format''))"

definition resolveManagedSubject ::
    "(handleError \<Rightarrow> string) \<Rightarrow> (platformRequest \<Rightarrow> platformReply) \<Rightarrow> platformOptions \<Rightarrow> string \<Rightarrow> managedSubject platformResult" where
  "resolveManagedSubject errorText fetch options handle =
     (case parseHandle handle of
        Inl e \<Rightarrow> PlatformError ''INVALID_HANDLE'' (errorText e)
      | Inr (PlatformOAuthHandle connectionId raw) \<Rightarrow>
          (case missingOption ''managed subject resolution'' options of
             Some (code, message) \<Rightarrow> PlatformError code message
           | None \<Rightarrow> readCatalog handle connectionId (fetch (catalogRequest options)))
      | Inr other \<Rightarrow>
          PlatformError ''WRONG_HANDLE_TYPE'' (''Expected platform_oauth handle, got '' @ handleTypeText (parsedType other)))"

section \<open>Materialisation\<close>

record materializedToken =
  mt_accessToken :: string
  mt_tokenType :: json
  mt_expiresAt :: "int option"
  mt_provider :: "json option"
  mt_connectionId :: string

definition mapPlatformError :: "int \<Rightarrow> string \<Rightarrow> string \<times> string" where
  "mapPlatformError status connectionId =
     (if status = 401 then (''PLATFORM_AUTH_FAILED'', ''Assistant API key is invalid or expired (HTTP 401)'')
      else if status = 403 then (''PLATFORM_FORBIDDEN'', ''Assistant is not authorized to materialize this connection (HTTP 403)'')
      else if status = 404 then (''CONNECTION_NOT_FOUND'', ''Connection '' @ connectionId @ '' not found on the platform (HTTP 404)'')
      else (''PLATFORM_HTTP_'' @ number_text status, ''Platform token endpoint returned HTTP '' @ number_text status))"

text \<open>\<open>new Date(v).getTime()\<close> is a parameter; \<open>None\<close> stands for NaN.\<close>

definition parseExpiresAt :: "(json \<Rightarrow> int option) \<Rightarrow> json option \<Rightarrow> int option" where
  "parseExpiresAt dateOf expiresAt = (case expiresAt of None \<Rightarrow> None | Some JNull \<Rightarrow> None | Some v \<Rightarrow> dateOf v)"

definition materializeRequest :: "platformOptions \<Rightarrow> string \<Rightarrow> platformRequest" where
  "materializeRequest options connectionId =
     \<lparr>pr_method = ''POST'',
      pr_url = po_platformBaseUrl options @ ''/v1/assistants/'' @ encodeURIComponent (po_assistantId options) @ ''/oauth/managed/materialize/'',
      pr_headers = [(''Authorization'', ''Api-Key '' @ po_assistantApiKey options), (''Accept'', ''application/json''),
        (''Content-Type'', ''application/json'')],
      pr_body = Some (json_text (JObj [(''connection_id'', JStr connectionId)]))\<rparr>"

definition readToken :: "(json \<Rightarrow> int option) \<Rightarrow> managedSubject \<Rightarrow> platformReply \<Rightarrow> materializedToken platformResult" where
  "readToken dateOf subject reply =
     (case reply of
        PlatformThrows message \<Rightarrow>
          PlatformError ''PLATFORM_UNREACHABLE'' (''Failed to reach platform token endpoint: '' @ sanitizeError message)
      | PlatformReplies status body \<Rightarrow>
          if \<not> replyOk status then (case mapPlatformError status (ms_connectionId subject) of (code, message) \<Rightarrow> PlatformError code message)
          else
            (case body of
               None \<Rightarrow> PlatformError ''INVALID_TOKEN_RESPONSE'' ''Platform token endpoint returned invalid JSON''
             | Some b \<Rightarrow>
                 (case jsonProperty ''access_token'' b of
                    None \<Rightarrow> PlatformThrew
                  | Some (Some (JStr (c # cs))) \<Rightarrow>
                      PlatformOk \<lparr>mt_accessToken = c # cs,
                        mt_tokenType = nullish (JStr ''Bearer'') (get_or None (jsonProperty ''token_type'' b)),
                        mt_expiresAt = parseExpiresAt dateOf (get_or None (jsonProperty ''expires_at'' b)),
                        mt_provider = ms_provider subject, mt_connectionId = ms_connectionId subject\<rparr>
                  | Some v \<Rightarrow> PlatformError ''INVALID_TOKEN_RESPONSE'' ''Platform token response missing access_token'')))"

definition materializeManagedToken ::
    "(json \<Rightarrow> int option) \<Rightarrow> (platformRequest \<Rightarrow> platformReply) \<Rightarrow> platformOptions \<Rightarrow> managedSubject \<Rightarrow> materializedToken platformResult" where
  "materializeManagedToken dateOf fetch options subject =
     (case missingOption ''managed token materialization'' options of
        Some (code, message) \<Rightarrow> PlatformError code message
      | None \<Rightarrow> readToken dateOf subject (fetch (materializeRequest options (ms_connectionId subject))))"

end
