(* ===== verification/Http_Executor.thy ===== *)
theory Http_Executor
  imports Audit_Log Response_Filter Local_Materialiser Managed_Subjects
begin

text \<open>
  Execution of an authenticated HTTP request (credential-executor/src/http/executor.ts): policy,
  materialisation of the credential, injection, the fetch loop that checks every redirect against
  the policy, the response filter and the audit record.

  The calls that leave the process are parameters: \<open>fetch\<close>, the platform, the URL class. The local
  materialiser answers from the reads of its call (\<open>Local_Materialiser\<close>). The function is async; what
  other calls do to the grant stores while it is suspended, and the clock, are given by a \<open>world\<close>,
  indexed by the number of the suspension. The log lists the policy decisions and the requests sent,
  in order.
\<close>

section \<open>Injection of a credential\<close>

definition AUTH_HEADERS_TO_STRIP :: "string list" where
  "AUTH_HEADERS_TO_STRIP = [''authorization'', ''cookie'', ''proxy-authorization'', ''x-api-key'', ''x-auth-token'']"

type_synonym headerRecord = "(string, string) js_Map"

record authenticatedRequest =
  ah_headers :: headerRecord
  ah_url :: string

text \<open>
  \<open>new URL\<close> on one and on two arguments, and \<open>searchParams.set\<close> followed by \<open>toString\<close>; \<open>None\<close> when
  the constructor throws.
\<close>

record urlLibrary =
  ul_parse :: urlParser
  ul_resolve :: "string \<Rightarrow> string \<Rightarrow> string option"
  ul_setParam :: "string \<Rightarrow> string \<Rightarrow> string \<Rightarrow> string option"

definition matchHostPattern :: "string \<Rightarrow> string \<Rightarrow> bool" where
  "matchHostPattern pattern hostname =
     (let lPattern = toLowerCase pattern; lHostname = toLowerCase hostname in
      if lPattern = ''*'' then True
      else if startsWith lPattern ''*.'' then endsWith lHostname (drop 1 lPattern) \<or> lHostname = drop 2 lPattern
      else lPattern = lHostname)"

definition findMatchingTemplate :: "urlLibrary \<Rightarrow> string \<Rightarrow> injectionTemplate list option \<Rightarrow> injectionTemplate option" where
  "findMatchingTemplate lib url templates =
     (case get_or [] templates of
        [] \<Rightarrow> None
      | t # ts \<Rightarrow>
          (case ul_parse lib url of
             None \<Rightarrow> None
           | Some u \<Rightarrow> find (\<lambda>t. matchHostPattern (it_hostPattern t) (url_hostname u)) (t # ts)))"

definition appendQueryParam :: "urlLibrary \<Rightarrow> string \<Rightarrow> string \<Rightarrow> string \<Rightarrow> string" where
  "appendQueryParam lib url name v =
     (case ul_setParam lib url name v of
        Some u \<Rightarrow> u
      | None \<Rightarrow> url @ (if CHR ''?'' \<in> set url then ''&'' else ''?'') @ encodeURIComponent name @ ''='' @ encodeURIComponent v)"

definition strippedHeaders :: "headerRecord \<Rightarrow> headerRecord" where
  "strippedHeaders callerHeaders =
     fold (\<lambda>(key, v) headers. if toLowerCase key \<in> set AUTH_HEADERS_TO_STRIP then headers else map_set key v headers)
       callerHeaders []"

definition buildAuthenticatedRequest ::
    "urlLibrary \<Rightarrow> string \<Rightarrow> headerRecord \<Rightarrow> materialisedCredential \<Rightarrow> authenticatedRequest" where
  "buildAuthenticatedRequest lib url callerHeaders credential =
     (let headers = strippedHeaders callerHeaders;
          bearer = \<lparr>ah_headers = map_set ''Authorization'' (''Bearer '' @ mc_value credential) headers, ah_url = url\<rparr>
      in case mc_handleType credential of
           LocalStatic \<Rightarrow>
             (case findMatchingTemplate lib url (mc_injectionTemplates credential) of
                None \<Rightarrow> bearer
              | Some t \<Rightarrow>
                  (case it_injectionType t of
                     HeaderInjection \<Rightarrow>
                       \<lparr>ah_headers = map_set (get_or ''Authorization'' (it_headerName t))
                          (get_or [] (it_valuePrefix t) @ mc_value credential) headers, ah_url = url\<rparr>
                   | QueryInjection \<Rightarrow>
                       \<lparr>ah_headers = headers,
                        ah_url = appendQueryParam lib url (get_or ''api_key'' (it_queryParamName t)) (mc_value credential)\<rparr>))
         | LocalOAuth \<Rightarrow> bearer
         | PlatformOAuth \<Rightarrow> bearer)"

section \<open>Materialisation\<close>

text \<open>The texts of the errors of the subject resolver and of the credential policy.\<close>

fun handleErrorText :: "string \<Rightarrow> handleError \<Rightarrow> string" where
  "handleErrorText raw MissingTypePrefix = ''Invalid handle format: missing type prefix in '' @ quoted raw"
| "handleErrorText raw InvalidLocalStatic =
     ''Invalid local_static handle: expected '' @ quoted ''local_static:<service>/<field>'' @ '', got '' @ quoted raw"
| "handleErrorText raw InvalidLocalOAuth =
     ''Invalid local_oauth handle: expected '' @ quoted ''local_oauth:<providerKey>/<connectionId>'' @ '', got '' @ quoted raw"
| "handleErrorText raw MissingConnectionId = ''Invalid platform_oauth handle: missing connectionId in '' @ quoted raw"
| "handleErrorText raw (UnknownPrefix p) = ''Unknown handle type prefix '' @ quoted p @ '' in '' @ quoted raw"

fun subjectErrorText :: "string \<Rightarrow> subjectError \<Rightarrow> string" where
  "subjectErrorText raw (HandleUnparsed e) = handleErrorText raw e"
| "subjectErrorText raw (NoStaticCredential s f) =
     ''No local static credential found for service='' @ quoted s @ '', field='' @ quoted f"
| "subjectErrorText raw (NoConnection c) = ''No local OAuth connection found for connectionId='' @ quoted c"
| "subjectErrorText raw (ProviderMismatch c p h) =
     ''OAuth connection '' @ quoted c @ '' has providerKey='' @ quoted p @ '' but handle specifies '' @ quoted h"
| "subjectErrorText raw NotLocal =
     ''Handle type '' @ quoted ''platform_oauth'' @ '' is not a local handle and cannot be resolved by the local subject resolver''"

fun policyErrorText :: "staticCredentialRecord \<Rightarrow> credentialPolicyError \<Rightarrow> string" where
  "policyErrorText m (DomainRestricted ds) =
     ''Credential '' @ scr_service m @ ''/'' @ scr_field m @ '' has domain restrictions ('' @ joinWith '', '' ds @
     '') and cannot be used for server-side operations through CES. Remove domain restrictions or use a separate credential.''"
| "policyErrorText m NoToolsAllowed = ''Credential '' @ scr_service m @ ''/'' @ scr_field m @ '' does not allow any tools.''"
| "policyErrorText m (ToolNotAllowed t ts) =
     ''Tool '' @ quoted t @ '' is not allowed to use credential '' @ scr_service m @ ''/'' @ scr_field m @
     ''. Allowed tools: '' @ joinWith '', '' ts @ ''.''"

record materialisers =
  mat_subjects :: localSubjectResolverDeps
  mat_reads :: "resolvedLocalSubject \<Rightarrow> materialiseReads"
  mat_managedSubjectOptions :: "platformOptions option"
  mat_managedMaterializerOptions :: "platformOptions option"
  mat_platform :: "platformRequest \<Rightarrow> platformReply"
  mat_dateOf :: "json \<Rightarrow> int option"

datatype materialiseResult =
    MaterialiseThrew
  | MaterialiseFailure string
  | MaterialiseSuccess materialisedCredential "string list"

fun localResult :: "materialisationResult \<Rightarrow> materialiseResult" where
  "localResult (Inl e) = MaterialiseFailure e"
| "localResult (Inr credential) = MaterialiseSuccess credential [mc_value credential]"

definition materialiseLocal :: "materialisers \<Rightarrow> string \<Rightarrow> materialiseResult" where
  "materialiseLocal mats rawHandle =
     (case resolveLocalSubject (mat_subjects mats) rawHandle of
        Inl e \<Rightarrow> MaterialiseFailure (subjectErrorText rawHandle e)
      | Inr subject \<Rightarrow>
          (case (case subject of
                   ResolvedStaticSubject h m k \<Rightarrow> map_option (policyErrorText m) (checkCredentialPolicy m ''make_authenticated_request'')
                 | ResolvedOAuthSubject h c \<Rightarrow> None) of
             Some e \<Rightarrow> MaterialiseFailure e
           | None \<Rightarrow> localResult (materialise (mat_reads mats subject) subject)))"

definition materialiseManaged :: "materialisers \<Rightarrow> string \<Rightarrow> materialiseResult" where
  "materialiseManaged mats rawHandle =
     (case (mat_managedSubjectOptions mats, mat_managedMaterializerOptions mats) of
        (Some options, Some tokenOptions) \<Rightarrow>
          (case resolveManagedSubject (handleErrorText rawHandle) (mat_platform mats) options rawHandle of
             PlatformThrew \<Rightarrow> MaterialiseThrew
           | PlatformError code message \<Rightarrow> MaterialiseFailure message
           | PlatformOk subject \<Rightarrow>
               (case materializeManagedToken (mat_dateOf mats) (mat_platform mats) tokenOptions subject of
                  PlatformThrew \<Rightarrow> MaterialiseThrew
                | PlatformError code message \<Rightarrow> MaterialiseFailure message
                | PlatformOk token \<Rightarrow>
                    MaterialiseSuccess
                      \<lparr>mc_value = mt_accessToken token, mc_handleType = PlatformOAuth, mc_expiresAt = mt_expiresAt token,
                       mc_injectionTemplates = None\<rparr> [mt_accessToken token]))
      | _ \<Rightarrow> MaterialiseFailure ''Managed OAuth is not configured. Platform URL and API key are required.'')"

definition materialiseCredential :: "materialisers \<Rightarrow> handleType \<Rightarrow> string \<Rightarrow> materialiseResult" where
  "materialiseCredential mats kind rawHandle =
     (case kind of
        LocalStatic \<Rightarrow> materialiseLocal mats rawHandle
      | LocalOAuth \<Rightarrow> materialiseLocal mats rawHandle
      | PlatformOAuth \<Rightarrow> materialiseManaged mats rawHandle)"

section \<open>The fetch loop\<close>

definition MAX_REDIRECTS :: nat where
  "MAX_REDIRECTS = 5"

definition REDIRECT_STATUSES :: "int list" where
  "REDIRECT_STATUSES = [301, 302, 303, 307, 308]"

definition sanitiseUrl :: "urlLibrary \<Rightarrow> string \<Rightarrow> string" where
  "sanitiseUrl lib url =
     (case ul_parse lib url of
        None \<Rightarrow> ''[invalid-url]''
      | Some u \<Rightarrow> url_protocol u @ ''//'' @ hostOf u @ url_pathname u)"

definition sanitiseErrorMessage :: "string \<Rightarrow> string list \<Rightarrow> string" where
  "sanitiseErrorMessage message secrets =
     fold (\<lambda>secret result. if length secret < 8 then result else replaceAll result secret REDACTED) secrets message"

datatype fetchReply = FetchFails string | FetchReply int "(string, string) js_Map" codePoints

record world =
  w_now :: "nat \<Rightarrow> int"
  w_others :: "nat \<Rightarrow> credentialState \<Rightarrow> credentialState"
  w_fetch :: "nat \<Rightarrow> fetchReply"
  w_sessionId :: string
  w_auditId :: string
  w_auditNow :: int
  w_auditOthers :: "auditFile \<Rightarrow> auditFile"
  w_auditIo :: bool
  w_thrownText :: "credentialError \<Rightarrow> string"
  w_urlErrorText :: "string \<Rightarrow> string"

datatype execEvent =
    PolicyCheck httpPolicyRequest int credentialState policyResult
  | FetchSent string string headerRecord "string option"

text \<open>The body of a request as it is sent.\<close>

definition sentBody :: "json option \<Rightarrow> string option" where
  "sentBody body =
     (case body of
        None \<Rightarrow> None
      | Some JNull \<Rightarrow> None
      | Some (JStr s) \<Rightarrow> Some s
      | Some v \<Rightarrow> Some (json_text v))"

definition redirectRequest :: "urlLibrary \<Rightarrow> string \<Rightarrow> string \<Rightarrow> string \<Rightarrow> string \<Rightarrow> httpPolicyRequest" where
  "redirectRequest lib handle httpMethod url fromUrl =
     \<lparr>hr_credentialHandle = handle, hr_method = httpMethod, hr_url = url, hr_headers = None,
      hr_purpose = ''redirect from '' @ sanitiseUrl lib fromUrl, hr_grantId = None, hr_conversationId = None\<rparr>"

type_synonym loopResult = "(string + rawHttpResponse) \<times> credentialState \<times> execEvent list"

function performHttpRequest ::
    "hasher \<Rightarrow> urlLibrary \<Rightarrow> world \<Rightarrow> string \<Rightarrow> materialisedCredential \<Rightarrow> headerRecord \<Rightarrow> nat \<Rightarrow>
     string \<Rightarrow> authenticatedRequest \<Rightarrow> json option \<Rightarrow> credentialState \<Rightarrow> loopResult" where
  "performHttpRequest sha lib w handle credential callerHeaders redirects httpMethod request body cs =
     (let sent = FetchSent httpMethod (ah_url request) (ah_headers request) (sentBody body);
          cs1 = w_others w (Suc redirects) cs in
      case w_fetch w redirects of
        FetchFails message \<Rightarrow> (Inl message, cs1, [sent])
      | FetchReply status hs responseBody \<Rightarrow>
          if status \<notin> set REDIRECT_STATUSES then
            (Inr \<lparr>raw_statusCode = status, raw_headers = hs, raw_body = responseBody\<rparr>, cs1, [sent])
          else if redirects + 1 > MAX_REDIRECTS then
            (Inl (''Too many redirects (exceeded '' @ decimal MAX_REDIRECTS @ ''). Aborting.''), cs1, [sent])
          else if \<not> truthy (map_get hs ''location'') then
            (Inl (''Redirect response ('' @ number_text status @ '') missing Location header.''), cs1, [sent])
          else
            (case ul_resolve lib (the (map_get hs ''location'')) (ah_url request) of
               None \<Rightarrow> (Inl (w_urlErrorText w (the (map_get hs ''location''))), cs1, [sent])
             | Some redirectUrl \<Rightarrow>
                 let nextMethod = (if status = 303 then ''GET'' else httpMethod);
                     check = redirectRequest lib handle nextMethod redirectUrl (ah_url request);
                     now = w_now w (Suc redirects) in
                 (case evaluateHttpPolicy sha (ul_parse lib) check now cs1 of
                    (Inl e, cs2) \<Rightarrow> (Inl (w_thrownText w e), cs2, [sent])
                  | (Inr result, cs2) \<Rightarrow>
                      (case result of
                         PolicyAllowed gid source \<Rightarrow>
                           (case performHttpRequest sha lib w handle credential callerHeaders (redirects + 1) nextMethod
                                   (buildAuthenticatedRequest lib redirectUrl callerHeaders credential)
                                   (if status = 303 then None else body) cs2 of
                              (r, cs3, log) \<Rightarrow> (r, cs3, sent # PolicyCheck check now cs1 result # log))
                       | _ \<Rightarrow>
                           (Inl (''Redirect to '' @ sanitiseUrl lib redirectUrl @
                              '' denied: the redirect target does not satisfy the grant policy for credential handle '' @
                              quoted handle @ ''.''), cs2, [sent, PolicyCheck check now cs1 result])))))"
  by pat_completeness auto
termination
  by (relation "measure (\<lambda>(sha, lib, w, handle, credential, callerHeaders, redirects, rest). MAX_REDIRECTS - redirects)")
    (auto simp: MAX_REDIRECTS_def)

declare performHttpRequest.simps [simp del]

section \<open>The handler\<close>

record makeAuthenticatedRequest =
  mr_credentialHandle :: string
  mr_method :: string
  mr_url :: string
  mr_headers :: "headerRecord option"
  mr_body :: "json option"
  mr_purpose :: string
  mr_grantId :: "string option"
  mr_conversationId :: "string option"

datatype execResponse =
    InvalidHandle string
  | ForbiddenHeadersResponse "string list"
  | ApprovalRequiredResponse grantProposal string
  | MaterialisationFailed string string
  | HttpRequestFailed string string
  | ExecSuccess int headerRecord codePoints string

record executorState =
  ex_grants :: credentialState
  ex_audit :: auditFile

definition policyRequestOf :: "makeAuthenticatedRequest \<Rightarrow> httpPolicyRequest" where
  "policyRequestOf request =
     \<lparr>hr_credentialHandle = mr_credentialHandle request, hr_method = mr_method request, hr_url = mr_url request,
      hr_headers = mr_headers request, hr_purpose = mr_purpose request, hr_grantId = mr_grantId request,
      hr_conversationId = mr_conversationId request\<rparr>"

definition auditEntry ::
    "urlLibrary \<Rightarrow> world \<Rightarrow> makeAuthenticatedRequest \<Rightarrow> string \<Rightarrow> bool \<Rightarrow> int option \<Rightarrow> string option \<Rightarrow> auditRecordSummary" where
  "auditEntry lib w request grantId success status message =
     generateHttpAuditSummary (ul_parse lib)
       \<lparr>ai_credentialHandle = mr_credentialHandle request, ai_grantId = grantId, ai_sessionId = w_sessionId w,
        ai_method = mr_method request, ai_url = mr_url request, ai_success = success, ai_statusCode = status,
        ai_errorMessage = message\<rparr> (w_auditId w) (w_auditNow w)"

text \<open>A failed append is swallowed.\<close>

definition persistAudit :: "world \<Rightarrow> auditRecordSummary \<Rightarrow> auditFile \<Rightarrow> auditFile" where
  "persistAudit w entry a = snd (appendAudit (w_auditIo w) entry (w_auditOthers w a))"

text \<open>What the call can throw instead of answering.\<close>

datatype execThrown = PolicyThrows credentialError | PlatformBodyThrows

type_synonym execOutcome = "(execThrown + execResponse) \<times> executorState \<times> execEvent list"

text \<open>After the policy allowed the request.\<close>

definition executeAllowed ::
    "hasher \<Rightarrow> urlLibrary \<Rightarrow> materialisers \<Rightarrow> world \<Rightarrow> makeAuthenticatedRequest \<Rightarrow> handleType \<Rightarrow> string \<Rightarrow> executorState \<Rightarrow> execOutcome" where
  "executeAllowed sha lib mats w request kind grantId s =
     (case materialiseCredential mats kind (mr_credentialHandle request) of
        MaterialiseThrew \<Rightarrow> (Inl PlatformBodyThrows, s\<lparr>ex_grants := w_others w 0 (ex_grants s)\<rparr>, [])
      | MaterialiseFailure e \<Rightarrow>
          (Inr (MaterialisationFailed e (w_auditId w)),
           s\<lparr>ex_grants := w_others w 0 (ex_grants s),
             ex_audit := persistAudit w (auditEntry lib w request grantId False None (Some e)) (ex_audit s)\<rparr>, [])
      | MaterialiseSuccess credential secrets \<Rightarrow>
          let callerHeaders = get_or [] (mr_headers request);
              authenticated = buildAuthenticatedRequest lib (mr_url request) callerHeaders credential in
          (case performHttpRequest sha lib w (mr_credentialHandle request) credential callerHeaders 0 (mr_method request)
                  authenticated (mr_body request) (w_others w 0 (ex_grants s)) of
             (Inl message, cs, log) \<Rightarrow>
               let safeError = sanitiseErrorMessage message secrets in
               (Inr (HttpRequestFailed safeError (w_auditId w)),
                s\<lparr>ex_grants := cs,
                  ex_audit := persistAudit w (auditEntry lib w request grantId False None (Some safeError)) (ex_audit s)\<rparr>, log)
           | (Inr raw, cs, log) \<Rightarrow>
               let filtered = filterHttpResponse raw (map points secrets) in
               (Inr (ExecSuccess (san_statusCode filtered) (san_headers filtered) (san_body filtered) (w_auditId w)),
                s\<lparr>ex_grants := cs,
                  ex_audit := persistAudit w (auditEntry lib w request grantId True (Some (raw_statusCode raw)) None) (ex_audit s)\<rparr>, log)))"

definition executeAuthenticatedHttpRequest ::
    "hasher \<Rightarrow> urlLibrary \<Rightarrow> materialisers \<Rightarrow> world \<Rightarrow> makeAuthenticatedRequest \<Rightarrow> executorState \<Rightarrow> execOutcome" where
  "executeAuthenticatedHttpRequest sha lib mats w request s =
     (case parseHandle (mr_credentialHandle request) of
        Inl e \<Rightarrow> (Inr (InvalidHandle (handleErrorText (mr_credentialHandle request) e)), s, [])
      | Inr handle \<Rightarrow>
          let check = policyRequestOf request; now = w_now w 0 in
          (case evaluateHttpPolicy sha (ul_parse lib) check now (ex_grants s) of
             (Inl e, cs) \<Rightarrow> (Inl (PolicyThrows e), s\<lparr>ex_grants := cs\<rparr>, [])
           | (Inr result, cs) \<Rightarrow>
               let s1 = s\<lparr>ex_grants := cs\<rparr>; checked = PolicyCheck check now (ex_grants s) result in
               (case result of
                  ForbiddenHeaders hs \<Rightarrow> (Inr (ForbiddenHeadersResponse hs), s1, [checked])
                | ApprovalRequired proposal \<Rightarrow>
                    (Inr (ApprovalRequiredResponse proposal (hashProposal sha proposal)), s1, [checked])
                | PolicyAllowed grantId source \<Rightarrow>
                    (case executeAllowed sha lib mats w request (parsedType handle) grantId s1 of
                       (r, s2, log) \<Rightarrow> (r, s2, checked # log)))))"

end
