(* ===== verification/Persistent_Properties.thy ===== *)
theory Persistent_Properties
  imports Grant_Stores
begin

text \<open>
  The persistent grant store under any sequence of its operations: once a read of the file failed
  every operation is refused and nothing is written, identifiers stay unique, and a revoked grant
  is not found again before it is granted again.
\<close>

section \<open>The operations as steps\<close>

datatype persistentOp =
    OpGetAll | OpGetAllIncludingRevoked | OpGetById string | OpHas string
  | OpAdd writeOutcome persistentGrant | OpRemove writeOutcome string
  | OpRevoke writeOutcome string "string option" int | OpClear writeOutcome

definition errorOf :: "'a grantOutcome \<Rightarrow> grantStoreError option \<times> persistentGrantStore" where
  "errorOf r = (case r of (Inl e, s) \<Rightarrow> (Some e, s) | (Inr x, s) \<Rightarrow> (None, s))"

fun persistentCall :: "persistentOp \<Rightarrow> persistentGrantStore \<Rightarrow> grantStoreError option \<times> persistentGrantStore" where
  "persistentCall OpGetAll s = errorOf (getAll s)"
| "persistentCall OpGetAllIncludingRevoked s = errorOf (getAllIncludingRevoked s)"
| "persistentCall (OpGetById i) s = errorOf (getById i s)"
| "persistentCall (OpHas i) s = errorOf (hasGrant i s)"
| "persistentCall (OpAdd w g) s = errorOf (addPersistent w g s)"
| "persistentCall (OpRemove w i) s = errorOf (removePersistent w i s)"
| "persistentCall (OpRevoke w i reason now) s = errorOf (markRevoked w i reason now s)"
| "persistentCall (OpClear w) s = errorOf (clearPersistent w s)"

text \<open>The file may also be replaced from outside.\<close>

datatype fileEvent = Call persistentOp | Replaced diskFile

fun fileStep :: "fileEvent \<Rightarrow> persistentGrantStore \<Rightarrow> persistentGrantStore" where
  "fileStep (Call op) s = snd (persistentCall op s)"
| "fileStep (Replaced f) s = s\<lparr>ps_file := f\<rparr>"

section \<open>The operations on a readable file\<close>

fun readable :: "persistentGrantStore \<Rightarrow> persistentGrant list option" where
  "readable s = (case ps_file s of GrantsFile gs \<Rightarrow> Some gs | _ \<Rightarrow> None)"

lemma guarded_corrupt: "ps_corrupt s \<Longrightarrow> guarded s r = (Inl StoreCorrupt, s)"
  by (simp add: guarded_def assertNotCorrupt_def)

lemma guarded_open: "\<not> ps_corrupt s \<Longrightarrow> guarded s r = r"
  by (simp add: guarded_def assertNotCorrupt_def)

lemma andThen_simps [simp]:
  "andThen (Inl e, s) f = (Inl e, s)" "andThen (Inr x, s) f = f x s"
  by (simp_all add: andThen_def)

lemma load_readable: "ps_file s = GrantsFile gs \<Longrightarrow> loadFromDisk s = (Inr gs, s)"
  by (simp add: loadFromDisk_def)

lemma load_cases:
  obtains gs where "ps_file s = GrantsFile gs" "loadFromDisk s = (Inr gs, s)"
  | e where "\<forall>gs. ps_file s \<noteq> GrantsFile gs" "e \<noteq> WriteError" "loadFromDisk s = (Inl e, s\<lparr>ps_corrupt := True\<rparr>)"
  by (cases "ps_file s") (auto simp: loadFromDisk_def)

lemma write_cases:
  obtains (ok) "w = WriteOk" "writeToDisk w gs s = (Inr (), s\<lparr>ps_file := GrantsFile gs\<rparr>)"
  | (failed) "w = WriteFails" "writeToDisk w gs s = (Inl WriteError, s)"
  | (chmod) "w = ChmodFails" "writeToDisk w gs s = (Inl WriteError, s\<lparr>ps_file := GrantsFile gs\<rparr>)"
  by (cases w) (auto simp: writeToDisk_def)

lemmas reads = getAll_def getById_def hasGrant_def getAllIncludingRevoked_def

text \<open>
  What an operation may do to the list of grants; \<open>None\<close> when it does not write. The error of a
  write is its only error on a readable file.
\<close>

fun rewritten :: "persistentOp \<Rightarrow> persistentGrant list \<Rightarrow> persistentGrant list option" where
  "rewritten (OpAdd w grant) gs =
     (case find (\<lambda>g. pg_id g = pg_id grant) gs of
        None \<Rightarrow> Some (gs @ [grant])
      | Some existing \<Rightarrow> if isActive existing then None
          else Some (updateFirst (\<lambda>g. pg_id g = pg_id grant) (reactivated grant) gs))"
| "rewritten (OpRemove w i) gs =
     (if findIndex (\<lambda>g. pg_id g = i) gs = None then None else Some (removeFirst (\<lambda>g. pg_id g = i) gs))"
| "rewritten (OpRevoke w i reason now) gs =
     (case find (\<lambda>g. pg_id g = i) gs of
        None \<Rightarrow> None
      | Some g \<Rightarrow> if \<not> isActive g then None
          else Some (updateFirst (\<lambda>g. pg_id g = i) (\<lambda>g. g\<lparr>pg_revokedAt := Some now, pg_revokedReason := reason\<rparr>) gs))"
| "rewritten (OpClear w) gs = Some []"
| "rewritten _ gs = None"

lemma call_corrupt: "ps_corrupt s \<Longrightarrow> persistentCall op s = (Some StoreCorrupt, s)"
  by (cases op)
    (simp_all add: errorOf_def reads addPersistent_def removePersistent_def markRevoked_def clearPersistent_def guarded_corrupt)

lemma call_readable:
  assumes "\<not> ps_corrupt s" "ps_file s = GrantsFile gs"
  shows "snd (persistentCall op s) \<in> {s} \<union> (\<lambda>gs'. s\<lparr>ps_file := GrantsFile gs'\<rparr>) ` set_option (rewritten op gs)"
    and "fst (persistentCall op s) \<in> {None, Some WriteError}"
  using assms
  by (cases op; auto simp: errorOf_def reads addPersistent_def removePersistent_def markRevoked_def clearPersistent_def
      guarded_open load_readable writeToDisk_def split: option.splits writeOutcome.splits)+

lemma call_unreadable:
  assumes "\<not> ps_corrupt s" "\<forall>gs. ps_file s \<noteq> GrantsFile gs"
  shows "(\<exists>e. e \<noteq> WriteError \<and> persistentCall op s = (Some e, s\<lparr>ps_corrupt := True\<rparr>)) \<or>
         (fst (persistentCall op s) \<in> {None, Some WriteError} \<and>
          snd (persistentCall op s) \<in> {s, s\<lparr>ps_file := GrantsFile []\<rparr>})"
  using assms
  by (cases op; cases "ps_file s"; auto simp: errorOf_def reads addPersistent_def removePersistent_def markRevoked_def
      clearPersistent_def guarded_open loadFromDisk_def writeToDisk_def split: writeOutcome.splits)

section \<open>Failing closed\<close>

lemma read_failure_corrupts:
  assumes "persistentCall op s = (Some e, s')" "e \<noteq> WriteError"
  shows "ps_corrupt s'" "ps_file s' = ps_file s"
proof -
  have "ps_corrupt s' \<and> ps_file s' = ps_file s"
  proof (cases "ps_corrupt s")
    case True
    with assms show ?thesis by (auto simp: call_corrupt)
  next
    case False
    show ?thesis
    proof (cases "readable s")
      case None
      then have "\<forall>gs. ps_file s \<noteq> GrantsFile gs" by auto
      from call_unreadable [OF False this, of op] assms show ?thesis by auto
    next
      case (Some gs)
      then have "ps_file s = GrantsFile gs" by (auto split: diskFile.splits)
      from call_readable(2) [OF False this, of op] assms show ?thesis by auto
    qed
  qed
  then show "ps_corrupt s'" "ps_file s' = ps_file s" by auto
qed

interpretation closed: total_step_system fileStep ps_corrupt
proof
  fix s :: persistentGrantStore and ev
  assume "ps_corrupt s" "True"
  then show "ps_corrupt (fileStep ev s)" by (cases ev) (auto simp: call_corrupt)
qed



section \<open>Identifiers and revocation\<close>

text \<open>A property of the stored list, and when an operation keeps it.\<close>

definition fileInv :: "(persistentGrant list \<Rightarrow> bool) \<Rightarrow> persistentGrantStore \<Rightarrow> bool" where
  "fileInv P s \<longleftrightarrow> (case readable s of None \<Rightarrow> True | Some gs \<Rightarrow> P gs)"

abbreviation uniqueIds :: "persistentGrantStore \<Rightarrow> bool" where
  "uniqueIds \<equiv> fileInv (\<lambda>gs. distinct (map pg_id gs))"

lemma fileInv_call:
  assumes inv: "fileInv P s" and empty: "P []"
    and keeps: "\<And>gs gs'. P gs \<Longrightarrow> rewritten op gs = Some gs' \<Longrightarrow> P gs'"
  shows "fileInv P (snd (persistentCall op s))"
proof (cases "ps_corrupt s")
  case True
  with inv show ?thesis by (simp add: call_corrupt)
next
  case False
  show ?thesis
  proof (cases "readable s")
    case None
    then have "\<forall>gs. ps_file s \<noteq> GrantsFile gs" by auto
    from call_unreadable [OF False this, of op] inv empty show ?thesis by (auto simp: fileInv_def)
  next
    case (Some gs)
    then have disk: "ps_file s = GrantsFile gs" by (auto split: diskFile.splits)
    from call_readable(1) [OF False this, of op] inv disk show ?thesis by (auto simp: fileInv_def dest: keeps)
  qed
qed

lemma updateFirst_map: "(\<And>x. P x \<Longrightarrow> h (f x) = h x) \<Longrightarrow> map h (updateFirst P f xs) = map h xs"
  by (induction xs) auto

lemma removeFirst_subseq: "distinct (map h xs) \<Longrightarrow> distinct (map h (removeFirst P xs))"
proof (induction xs)
  case (Cons x xs)
  have "set (removeFirst P ys) \<subseteq> set ys" for ys by (induction ys) auto
  then have "h ` set (removeFirst P xs) \<subseteq> h ` set xs" by blast
  with Cons show ?case by auto
qed simp

lemma set_removeFirst: "set (removeFirst P xs) \<subseteq> set xs"
  by (induction xs) auto

lemma rewritten_distinct:
  assumes "rewritten op gs = Some gs'" "distinct (map pg_id gs)"
  shows "distinct (map pg_id gs')"
  using assms
  by (cases op) (auto simp: find_None_iff updateFirst_map reactivated_def removeFirst_subseq split: option.splits if_splits,
    metis)

interpretation ids: total_step_system "\<lambda>op s. snd (persistentCall op s)" uniqueIds
  by unfold_locales (auto intro: fileInv_call rewritten_distinct)

text \<open>No grant with the identifier is active; every operation but granting it again keeps that.\<close>

abbreviation inactive :: "string \<Rightarrow> persistentGrantStore \<Rightarrow> bool" where
  "inactive i \<equiv> fileInv (\<lambda>gs. \<forall>g \<in> set gs. pg_id g = i \<longrightarrow> \<not> isActive g)"

fun grantsAgain :: "string \<Rightarrow> persistentOp \<Rightarrow> bool" where
  "grantsAgain i (OpAdd w g) \<longleftrightarrow> pg_id g = i"
| "grantsAgain i _ \<longleftrightarrow> False"

lemma in_updateFirst: "x \<in> set (updateFirst P f xs) \<Longrightarrow> x \<in> set xs \<or> (\<exists>y \<in> set xs. P y \<and> x = f y)"
  by (induction xs) (auto split: if_splits)

lemma rewritten_inactive:
  assumes r: "rewritten op gs = Some gs'" and n: "\<not> grantsAgain i op"
    and inv: "\<forall>g \<in> set gs. pg_id g = i \<longrightarrow> \<not> isActive g"
  shows "\<forall>g \<in> set gs'. pg_id g = i \<longrightarrow> \<not> isActive g"
proof (cases op)
  case (OpAdd w grant)
  with r have "gs' = gs @ [grant] \<or> gs' = updateFirst (\<lambda>g. pg_id g = pg_id grant) (reactivated grant) gs"
    by (auto split: option.splits if_splits)
  with inv n OpAdd show ?thesis by (auto simp: reactivated_def dest!: in_updateFirst)
next
  case (OpRemove w j)
  with r inv show ?thesis using set_removeFirst [of "\<lambda>g. pg_id g = j" gs] by (auto split: if_splits)
next
  case (OpRevoke w j reason now)
  with r inv show ?thesis by (auto simp: isActive_def dest!: in_updateFirst split: option.splits if_splits)
qed (use r in auto)

interpretation revoked: step_system "\<lambda>op s. snd (persistentCall op s)" "\<lambda>op s. \<not> grantsAgain i op" "inactive i" for i
  by unfold_locales (auto intro!: fileInv_call dest: rewritten_inactive)

lemma updateFirst_unique:
  assumes "distinct (map pg_id gs)" "\<And>g. pg_id (f g) = pg_id g" "\<And>g. \<not> isActive (f g)"
  shows "\<forall>g \<in> set (updateFirst (\<lambda>g. pg_id g = i) f gs). pg_id g = i \<longrightarrow> \<not> isActive g"
  using assms by (induction gs) (auto simp: image_iff)

lemma inactive_not_found: "inactive i s \<Longrightarrow> fst (getById i s) \<noteq> Inr (Some g)"
  using find_Some_mem [of "\<lambda>g. pg_id g = i" "filter isActive gs" g for gs]
  by (fastforce simp: fileInv_def reads guarded_def andThen_def loadFromDisk_def split: option.splits diskFile.splits)

lemma markRevoked_inactive:
  assumes u: "uniqueIds s" and r: "markRevoked w i reason now s = (Inr True, s1)"
  shows "inactive i s1"
proof -
  from r obtain gs where disk: "ps_file s = GrantsFile gs"
    and s1: "s1 = s\<lparr>ps_file := GrantsFile (updateFirst (\<lambda>g. pg_id g = i)
      (\<lambda>g. g\<lparr>pg_revokedAt := Some now, pg_revokedReason := reason\<rparr>) gs)\<rparr>"
    by (auto simp: markRevoked_def guarded_def andThen_def loadFromDisk_def writeToDisk_def
        split: option.splits diskFile.splits writeOutcome.splits if_splits)
  have "distinct (map pg_id gs)" using u disk by (simp add: fileInv_def)
  then show ?thesis
    using updateFirst_unique [of gs "\<lambda>g. g\<lparr>pg_revokedAt := Some now, pg_revokedReason := reason\<rparr>" i]
    by (simp add: s1 fileInv_def isActive_def)
qed

text \<open>
  in a store that started without a file, whatever operations were run on it, a grant that was
  revoked is not found by its identifier after any further operations, as long as it is not granted
  again under that identifier.
\<close>

theorem revoked_not_found:
  assumes start: "s = fold (\<lambda>op s. snd (persistentCall op s)) ops (snd (initPersistent w0 \<lparr>ps_file = FileMissing, ps_corrupt = False\<rparr>))"
    and revoke: "markRevoked w i reason now s = (Inr True, s1)"
    and later: "\<forall>op \<in> set later_ops. \<not> grantsAgain i op"
  shows "fst (getById i (fold (\<lambda>op s. snd (persistentCall op s)) later_ops s1)) \<noteq> Inr (Some g)"
proof -
  have "uniqueIds (snd (initPersistent w0 \<lparr>ps_file = FileMissing, ps_corrupt = False\<rparr>))"
    by (cases w0) (simp_all add: initPersistent_def writeToDisk_def fileInv_def)
  then have "uniqueIds s" unfolding start by (rule ids.total_run_inv)
  then have "inactive i s1" using revoke by (rule markRevoked_inactive)
  moreover have "enabledRun (\<lambda>op s. snd (persistentCall op s)) (\<lambda>op s. \<not> grantsAgain i op) later_ops s1"
    using later by (induction later_ops arbitrary: s1) auto
  ultimately show ?thesis by (rule inactive_not_found [OF revoked.run_inv])
qed

definition demoGrant :: persistentGrant where
  "demoGrant = \<lparr>pg_id = ''g1'', pg_tool = ''http'', pg_pattern = ''GET https://api.example/users'', pg_scope = ''h'',
     pg_createdAt = 5, pg_sessionId = Some ''s'', pg_revokedAt = None, pg_revokedReason = None\<rparr>"

theorem revoked_not_found_witness:
  "let step = (\<lambda>op s. snd (persistentCall op s));
       s = fold step [OpAdd WriteOk demoGrant] (snd (initPersistent WriteOk \<lparr>ps_file = FileMissing, ps_corrupt = False\<rparr>));
       s1 = snd (markRevoked WriteOk ''g1'' None 9 s)
   in fst (getById ''g1'' s) = Inr (Some demoGrant) \<and> fst (markRevoked WriteOk ''g1'' None 9 s) = Inr True \<and>
      fst (getById ''g1'' (fold step [OpRevoke WriteOk ''g1'' None 10, OpGetAll] s1)) \<noteq> Inr (Some demoGrant)"
proof -
  let ?step = "\<lambda>op s. snd (persistentCall op s)"
  define s where "s = fold ?step [OpAdd WriteOk demoGrant] (snd (initPersistent WriteOk \<lparr>ps_file = FileMissing, ps_corrupt = False\<rparr>))"
  have r: "fst (markRevoked WriteOk ''g1'' None 9 s) = Inr True" "fst (getById ''g1'' s) = Inr (Some demoGrant)"
    unfolding s_def by code_simp+
  then have "markRevoked WriteOk ''g1'' None 9 s = (Inr True, snd (markRevoked WriteOk ''g1'' None 9 s))"
    by (simp add: prod_eq_iff)
  from revoked_not_found [OF s_def this, of "[OpRevoke WriteOk ''g1'' None 10, OpGetAll]" demoGrant] r
  show ?thesis unfolding Let_def s_def [symmetric] by simp
qed

end
