(* ===== verification/Credential_Properties.thy ===== *)
theory Credential_Properties
  imports Http_Policy Persistent_Properties
begin

text \<open>
  What the credential executor guarantees: which URLs a path template covers, what the persistent
  store keeps and how it fails, and what an approval allows.
\<close>

section \<open>Path templates\<close>

text \<open>
  The reference relation between a segment of the approved URL and a segment of a requested one:
  both are UUIDs, both are numbers, both are long hexadecimal strings, or they are equal.
\<close>

definition coversSegment :: "codePoints \<Rightarrow> codePoints \<Rightarrow> bool" where
  "coversSegment d e \<longleftrightarrow>
     (if isUuid d then isUuid e
      else if isNumeric d then isNumeric e
      else if isLongHex d then isLongHex e
      else d = e)"

definition coversRaw :: "string \<Rightarrow> string \<Rightarrow> bool" where
  "coversRaw a b \<longleftrightarrow>
     (case (decodeURIComponent a, decodeURIComponent b) of (Some d, Some e) \<Rightarrow> coversSegment d e | _ \<Rightarrow> False)"

definition coversUrl :: "parsedUrl \<Rightarrow> parsedUrl \<Rightarrow> bool" where
  "coversUrl a b \<longleftrightarrow>
     url_protocol b = url_protocol a \<and> lowerHost b = lowerHost a \<and>
     list_all2 coversRaw (pathSegments a) (pathSegments b)"

text \<open>
  What is relied on of the URL parser: the text of a template parses to the same scheme, host and
  port, and its path has the template's segments up to percent-encoding.
\<close>

definition reparsesTemplate :: "urlParser \<Rightarrow> parsedUrl \<Rightarrow> bool" where
  "reparsesTemplate newURL u \<longleftrightarrow>
     (case newURL (templateText u) of
        None \<Rightarrow> False
      | Some t \<Rightarrow>
          url_protocol t = url_protocol u \<and> lowerHost t = lowerHost u \<and>
          map decodeURIComponent (pathSegments t) = map decodeURIComponent (map templateSegment (pathSegments u)))"

lemma percent_no_placeholder:
  assumes "37 \<in> set s"
  shows "placeholderFor s = None"
proof -
  from assms obtain i where i: "i < length s" "s ! i = 37" by (auto simp: in_set_conv_nth)
  have "isUuid s \<Longrightarrow> i < 36 \<and> (s ! i = 45 \<or> isHexPoint (s ! i))"
    using i(1) unfolding isUuid_def list_all_iff by (metis atLeastLessThan_iff le0 set_upt)
  with i(2) have "\<not> isUuid s" by (auto simp: isHexPoint_def isDigitPoint_def)
  moreover have "\<not> isNumeric s" "\<not> isLongHex s"
    using assms by (auto simp: isNumeric_def isLongHex_def isHexPoint_def isDigitPoint_def list_all_iff
      intro!: bexI [of _ 37] dest!: bspec [of _ _ 37])
  ultimately show ?thesis by (simp add: placeholderFor_def)
qed

lemma undecodable_percent: "decodeURIComponent s = None \<Longrightarrow> 37 \<in> set (points s)"
proof (rule ccontr)
  assume "decodeURIComponent s = None" "37 \<notin> set (points s)"
  moreover have "CHR ''%'' \<in> set s \<Longrightarrow> 37 \<in> set (points s)"
    unfolding points_def by (force simp: image_iff)
  ultimately show False using decode_plain by fastforce
qed

text \<open>The segment of the template decodes to the class of the decoded segment.\<close>

lemma placeholder_plain:
  "placeholderFor s = Some p \<Longrightarrow> p \<in> set PLACEHOLDER_LITERALS"
  by (auto simp: placeholderFor_def PLACEHOLDER_LITERALS_def split: if_splits)

lemma literal_plain: "p \<in> set PLACEHOLDER_LITERALS \<Longrightarrow> decodeURIComponent p = Some (points p)"
  by (rule decode_plain) (auto simp: PLACEHOLDER_LITERALS_def)

lemma decode_templateSegment:
  "decodeURIComponent (templateSegment raw) = map_option classifySegment (decodeURIComponent raw)"
proof (cases "decodeURIComponent raw")
  case None
  then have "classifySegment (points raw) = points raw"
    by (simp add: classifySegment_def percent_no_placeholder undecodable_percent)
  with None show ?thesis by (simp add: templateSegment_def decodedOrRaw_def safeDecodeSegment_def)
next
  case (Some d)
  then show ?thesis
    using literal_plain [OF placeholder_plain, of d]
    by (auto simp: templateSegment_def decodedOrRaw_def safeDecodeSegment_def classifySegment_def split: option.splits)
qed

lemma placeholder_text:
  "points p \<in> set (map points PLACEHOLDER_LITERALS) \<longleftrightarrow> p \<in> set PLACEHOLDER_LITERALS"
  by auto

lemma segmentMatches_classify:
  assumes "d \<notin> set (map points PLACEHOLDER_LITERALS)"
  shows "segmentMatches (classifySegment d) e \<longleftrightarrow> coversSegment d e"
  using assms
  by (auto simp: segmentMatches_def classifySegment_def coversSegment_def placeholderFor_def PLACEHOLDER_LITERALS_def)

lemma all_segments_match:
  assumes "\<forall>s \<in> set as. decodedOrRaw s \<notin> set (map points PLACEHOLDER_LITERALS)"
  shows "(None \<notin> set (map decodeURIComponent bs) \<and> None \<notin> set (map (\<lambda>s. map_option classifySegment (decodeURIComponent s)) as) \<and>
          length bs = length as \<and>
          list_all (\<lambda>(t, u). segmentMatches (the t) (the u))
            (zip (map (\<lambda>s. map_option classifySegment (decodeURIComponent s)) as) (map decodeURIComponent bs)))
        \<longleftrightarrow> list_all2 coversRaw as bs"
  using assms
proof (induction as arbitrary: bs)
  case (Cons a as)
  show ?case
  proof (cases bs)
    case (Cons b bs')
    have a: "decodedOrRaw a \<notin> set (map points PLACEHOLDER_LITERALS)" using Cons.prems by simp
    have "None \<noteq> decodeURIComponent b \<and> None \<noteq> map_option classifySegment (decodeURIComponent a) \<and>
        segmentMatches (the (map_option classifySegment (decodeURIComponent a))) (the (decodeURIComponent b))
      \<longleftrightarrow> coversRaw a b"
      using a segmentMatches_classify
      by (auto simp: coversRaw_def decodedOrRaw_def safeDecodeSegment_def split: option.splits)
    moreover note Cons.IH [of bs'] Cons.prems
    ultimately show ?thesis by (auto simp: Cons)
  qed auto
qed auto

lemma path_template_scope_iff:
  assumes approved: "newURL a = Some u" and derived: "derivePathTemplate newURL a = Inr t"
    and reparse: "reparsesTemplate newURL u"
  shows "urlMatchesTemplate newURL b t \<longleftrightarrow> (\<exists>v. newURL b = Some v \<and> coversUrl u v)"
proof -
  have t: "t = templateText u" and plain: "\<forall>s \<in> set (pathSegments u). decodedOrRaw s \<notin> set (map points PLACEHOLDER_LITERALS)"
    using approved derived by (auto simp: derivePathTemplate_def find_None_iff split: option.splits)
  from reparse obtain w where w: "newURL t = Some w" "url_protocol w = url_protocol u" "lowerHost w = lowerHost u"
    and segs: "map decodeURIComponent (pathSegments w) =
      map (\<lambda>s. map_option classifySegment (decodeURIComponent s)) (pathSegments u)"
    by (auto simp: reparsesTemplate_def t decode_templateSegment comp_def split: option.splits)
  have safe: "safeDecodeSegment = decodeURIComponent" by (simp add: fun_eq_iff safeDecodeSegment_def)
  have len: "length (pathSegments w) = length (pathSegments u)" using segs map_eq_imp_length_eq by blast
  show ?thesis
    using all_segments_match [OF plain] w
    by (auto simp: urlMatchesTemplate_def coversUrl_def safe segs Let_def len split: option.splits)
qed

text \<open>
  C20: a URL matches the path template derived from an approved URL exactly when it has the same
  scheme, host and port, the same number of path segments, and each segment is covered by the
  approved one: of the same class (UUID, number, long hexadecimal) or equal after percent-decoding.
\<close>

theorem path_template_scope:
  assumes approved: "newURL a = Some u" and derived: "derivePathTemplate newURL a = Inr t"
    and reparse: "reparsesTemplate newURL u"
  shows "urlMatchesTemplate newURL b t \<longleftrightarrow> (\<exists>v. newURL b = Some v \<and> coversUrl u v)"
  by (rule path_template_scope_iff [OF assms])

section \<open>Temporary grants\<close>

definition liveGrant :: "temporaryGrantKind \<Rightarrow> string \<Rightarrow> string option \<Rightarrow> int \<Rightarrow> temporaryGrantStore \<Rightarrow> bool" where
  "liveGrant kind hash conversation now s \<longleftrightarrow>
     (\<exists>key g. storageKey kind hash conversation = Some key \<and> map_get s key = Some g \<and>
       (tg_kind g = AllowConversation \<or> \<not> expired now g))"

definition absentGrant :: "temporaryGrantKind \<Rightarrow> string \<Rightarrow> string option \<Rightarrow> temporaryGrantStore \<Rightarrow> bool" where
  "absentGrant kind hash conversation s \<longleftrightarrow>
     (\<forall>key. storageKey kind hash conversation = Some key \<longrightarrow> map_get s key = None)"

definition onceKey :: "string \<Rightarrow> string" where
  "onceKey hash = ''allow_once:'' @ hash"

definition timedKey :: "string \<Rightarrow> string" where
  "timedKey hash = ''allow_10m:'' @ hash"

definition talkKey :: "string option \<Rightarrow> string \<Rightarrow> string" where
  "talkKey c hash = ''conversation:'' @ the c @ '':'' @ hash"

lemma storageKey_simps [simp]:
  "storageKey AllowOnce hash c = Some (onceKey hash)"
  "storageKey Allow10m hash c = Some (timedKey hash)"
  "storageKey AllowConversation hash c = (if truthy c then Some (talkKey c hash) else None)"
  by (simp_all add: storageKey_def kindText_def onceKey_def timedKey_def talkKey_def)

lemma keys_differ [simp]:
  "onceKey hash \<noteq> timedKey hash" "timedKey hash \<noteq> onceKey hash"
  "onceKey hash \<noteq> talkKey c hash" "talkKey c hash \<noteq> onceKey hash"
  "timedKey hash \<noteq> talkKey c hash" "talkKey c hash \<noteq> timedKey hash"
  by (simp_all add: onceKey_def timedKey_def talkKey_def)

text \<open>One look-up: what is stored under the key decides, and at most that key is removed.\<close>

definition lookUp :: "string \<Rightarrow> int \<Rightarrow> temporaryGrantStore \<Rightarrow> bool \<times> temporaryGrantStore" where
  "lookUp key now s =
     (case map_get s key of
        None \<Rightarrow> (False, s)
      | Some g \<Rightarrow>
          (case tg_kind g of
             AllowOnce \<Rightarrow> (\<not> expired now g, map_delete key s)
           | Allow10m \<Rightarrow> if expired now g then (False, map_delete key s) else (True, s)
           | AllowConversation \<Rightarrow> (True, s)))"

lemma check_lookUp:
  "checkKind AllowOnce hash now s = lookUp (onceKey hash) now s"
  "checkKind Allow10m hash now s = lookUp (timedKey hash) now s"
  "truthy c \<Longrightarrow> checkTemporary AllowConversation hash c now s = Some (lookUp (talkKey c hash) now s)"
  by (simp_all add: checkKind_def checkTemporary_def lookUp_def)

lemma lookUp_True:
  "lookUp key now s = (True, s1) \<Longrightarrow> \<exists>g. map_get s key = Some g \<and> (tg_kind g = AllowConversation \<or> \<not> expired now g)"
  by (auto simp: lookUp_def split: option.splits temporaryGrantKind.splits if_splits)

lemma lookUp_frame: "k \<noteq> key \<Longrightarrow> map_get (snd (lookUp key now s)) k = map_get s k"
  by (auto simp: lookUp_def split: option.splits temporaryGrantKind.splits)

lemma lookUp_False: "lookUp key now s = (False, s1) \<Longrightarrow> map_get s1 key = None"
  by (auto simp: lookUp_def split: option.splits temporaryGrantKind.splits if_splits)

lemma lookUp_absent: "map_get s key = None \<Longrightarrow> lookUp key now s = (False, s)"
  by (simp add: lookUp_def)

lemma checkAny_cases:
  assumes "checkAny hash c now s = (r, s3)"
  obtains
    (once) "r = Some AllowOnce" "lookUp (onceKey hash) now s = (True, s3)"
  | (timed) s1 where "r = Some Allow10m" "lookUp (onceKey hash) now s = (False, s1)"
      "lookUp (timedKey hash) now s1 = (True, s3)"
  | (talk) s1 s2 b where "r = (if b then Some AllowConversation else None)" "truthy c"
      "lookUp (onceKey hash) now s = (False, s1)" "lookUp (timedKey hash) now s1 = (False, s2)"
      "lookUp (talkKey c hash) now s2 = (b, s3)"
  | (none) s1 where "r = None" "\<not> truthy c"
      "lookUp (onceKey hash) now s = (False, s1)" "lookUp (timedKey hash) now s1 = (False, s3)"
  using assms
  by (auto simp: checkAny_def check_lookUp split: prod.splits bool.splits if_splits)

lemma checkAny_Some:
  assumes "checkAny hash c now s = (Some kind, s3)"
  shows "liveGrant kind hash c now s"
  using assms
proof (cases rule: checkAny_cases)
  case once
  then show ?thesis using lookUp_True by (auto simp: liveGrant_def)
next
  case (timed s1)
  then show ?thesis
    using lookUp_True [OF timed(3)] lookUp_frame [of "timedKey hash" "onceKey hash" now s] by (simp add: liveGrant_def)
next
  case (talk s1 s2 b)
  then have "map_get s2 (talkKey c hash) = map_get s (talkKey c hash)"
    using lookUp_frame [of "talkKey c hash" "onceKey hash" now s] lookUp_frame [of "talkKey c hash" "timedKey hash" now s1]
    by simp
  then show ?thesis using talk lookUp_True [of "talkKey c hash" now s2 s3] by (auto simp: liveGrant_def split: if_splits)
qed simp

lemma checkAny_None:
  assumes "checkAny hash c now s = (None, s3)"
  shows "absentGrant kind hash c s3"
  using assms
proof (cases rule: checkAny_cases)
  case (talk s1 s2 b)
  then show ?thesis
    using lookUp_False [of _ now _ s1] lookUp_False [of _ now _ s2] lookUp_False [of _ now _ s3]
      lookUp_frame [of "onceKey hash" "timedKey hash" now s1]
      lookUp_frame [of "onceKey hash" "talkKey c hash" now s2] lookUp_frame [of "timedKey hash" "talkKey c hash" now s2]
    by (cases kind) (auto simp: absentGrant_def split: if_splits)
next
  case (none s1)
  then show ?thesis
    using lookUp_False [of _ now _ s1] lookUp_False [of _ now _ s3] lookUp_frame [of "onceKey hash" "timedKey hash" now s1]
    by (cases kind) (auto simp: absentGrant_def)
qed simp_all

lemma checkAny_absent:
  assumes "\<And>kind. absentGrant kind hash c s"
  shows "checkAny hash c now s = (None, s)"
  using assms [of AllowOnce] assms [of Allow10m] assms [of AllowConversation]
  by (auto simp: checkAny_def check_lookUp absentGrant_def lookUp_absent)

end
