(* ===== verification/Policy_Properties.thy ===== *)
theory Policy_Properties
  imports Credential_Properties
begin

text \<open>
  What the HTTP policy allows: nothing without a live grant, and after an approval exactly what the
  guardian chose: one request, ten minutes, or every request the template covers.
\<close>

section \<open>Reads of the persistent store\<close>

lemma getAll_cases:
  assumes "getAll s = (Inr gs, s')"
  shows "s' = s \<and> \<not> ps_corrupt s \<and> (\<forall>g \<in> set gs. isActive g) \<and>
         (\<forall>g \<in> set gs. \<exists>all. readable s = Some all \<and> g \<in> set all)"
  using assms
  by (auto simp: getAll_def getAllIncludingRevoked_def guarded_def assertNotCorrupt_def andThen_def loadFromDisk_def
      split: diskFile.splits if_splits)

lemma getById_cases:
  assumes "getById i s = (Inr r, s')"
  shows "s' = s \<and> (\<forall>g. r = Some g \<longrightarrow> \<not> ps_corrupt s \<and> isActive g \<and> pg_id g = i \<and> (\<exists>all. readable s = Some all \<and> g \<in> set all))"
proof -
  from assms obtain gs where gs: "getAll s = (Inr gs, s')" "r = find (\<lambda>g. pg_id g = i) gs"
    by (auto simp: getById_def andThen_def split: prod.splits sum.splits)
  with getAll_cases [OF gs(1)] find_Some_mem [of "\<lambda>g. pg_id g = i" gs] show ?thesis by metis
qed

lemma explicitGrant_cases:
  assumes "explicitGrant newURL r s = (Inr x, s')"
  shows "s' = s \<and> (\<forall>g. x = Some g \<longrightarrow> httpGrantFor newURL r g \<and> \<not> ps_corrupt s \<and> isActive g \<and>
           (\<exists>all. readable s = Some all \<and> g \<in> set all))"
proof (cases "truthy (hr_grantId r)")
  case True
  with assms obtain y where y: "getById (the (hr_grantId r)) s = (Inr y, s')"
    "x = (case y of None \<Rightarrow> None | Some grant \<Rightarrow> if httpGrantFor newURL r grant then Some grant else None)"
    by (auto simp: explicitGrant_def andThen_def split: prod.splits sum.splits)
  then show ?thesis using getById_cases [OF y(1)] by (auto split: option.splits if_splits)
next
  case False
  with assms show ?thesis by (simp add: explicitGrant_def)
qed

text \<open>The ways an evaluation ends without an error.\<close>

lemma evaluate_cases:
  assumes "evaluateHttpPolicy sha newURL r now cs = (Inr res, cs')"
  obtains
    (forbidden) "res = ForbiddenHeaders (detectForbiddenHeaders (hr_headers r))" "detectForbiddenHeaders (hr_headers r) \<noteq> []"
      "cs' = cs"
  | (persistent) g all where "detectForbiddenHeaders (hr_headers r) = []" "res = PolicyAllowed (pg_id g) PersistentSource"
      "\<not> ps_corrupt (cs_persistent cs)" "readable (cs_persistent cs) = Some all" "g \<in> set all" "isActive g"
      "httpGrantFor newURL r g" "cs' = cs"
  | (temporary) p t1 gs pt where "detectForbiddenHeaders (hr_headers r) = []" "buildProposal newURL r = Inr p"
      "temporaryOrProposal sha p (hr_conversationId r) now (cs_temporary cs) = (res, t1)"
      "cs' = cs\<lparr>cs_temporary := t1\<rparr>"
      "explicitGrant newURL r (cs_persistent cs) = (Inr None, cs_persistent cs)"
      "derivePathTemplate newURL (hr_url r) = Inr pt"
      "getAll (cs_persistent cs) = (Inr gs, cs_persistent cs)" "find (httpGrantFor newURL r) gs = None"
proof (cases "detectForbiddenHeaders (hr_headers r) = []")
  case False
  with assms show ?thesis by (intro forbidden) (auto simp: evaluateHttpPolicy_def Let_def)
next
  case clean: True
  from assms clean obtain x p1 where e: "explicitGrant newURL r (cs_persistent cs) = (Inr x, p1)"
    by (auto simp: evaluateHttpPolicy_def Let_def split: prod.splits sum.splits)
  note ex = explicitGrant_cases [OF e]
  show ?thesis
  proof (cases x)
    case (Some g)
    with ex obtain all where "readable (cs_persistent cs) = Some all" "g \<in> set all" by blast
    then show ?thesis
      using assms clean e ex Some by (intro persistent [of g all]) (auto simp: evaluateHttpPolicy_def Let_def)
  next
    case None
    from assms clean e ex None obtain pt gs p2
      where d: "derivePathTemplate newURL (hr_url r) = Inr pt" and g: "getAll (cs_persistent cs) = (Inr gs, p2)"
      by (auto simp: evaluateHttpPolicy_def Let_def split: prod.splits sum.splits)
    note ga = getAll_cases [OF g]
    show ?thesis
    proof (cases "find (httpGrantFor newURL r) gs")
      case (Some h)
      then have h: "h \<in> set gs" "httpGrantFor newURL r h" using find_Some_mem by fast+
      with ga obtain all where "readable (cs_persistent cs) = Some all" "h \<in> set all" by blast
      then show ?thesis
        using assms clean e ex d g ga h Some None
        by (intro persistent [of h all]) (auto simp: evaluateHttpPolicy_def Let_def)
    next
      case fn: None
      from assms clean e ex d g ga None fn obtain p t1 where "buildProposal newURL r = Inr p"
        "temporaryOrProposal sha p (hr_conversationId r) now (cs_temporary cs) = (res, t1)" "cs' = cs\<lparr>cs_temporary := t1\<rparr>"
        by (auto simp: evaluateHttpPolicy_def Let_def split: prod.splits sum.splits)
      then show ?thesis using clean e ex d g ga None fn by (intro temporary [of p t1 pt gs]) auto
    qed
  qed
qed

text \<open>The grant an allowed request rests on.\<close>

definition coveredByGrant :: "hasher \<Rightarrow> urlParser \<Rightarrow> httpPolicyRequest \<Rightarrow> int \<Rightarrow> credentialState \<Rightarrow> string \<Rightarrow> grantSource \<Rightarrow> bool" where
  "coveredByGrant sha newURL r now cs gid source \<longleftrightarrow>
     detectForbiddenHeaders (hr_headers r) = [] \<and>
     (case source of
        PersistentSource \<Rightarrow>
          \<not> ps_corrupt (cs_persistent cs) \<and>
          (\<exists>all g. readable (cs_persistent cs) = Some all \<and> g \<in> set all \<and> isActive g \<and> pg_id g = gid \<and>
            pg_tool g = ''http'' \<and> grantCoversRequest newURL g (hr_credentialHandle r) (hr_method r) (hr_url r))
      | TemporarySource \<Rightarrow>
          (\<exists>p kind. buildProposal newURL r = Inr p \<and> gid = ''temp:'' @ kindText kind @ '':'' @ hashProposal sha p \<and>
            liveGrant kind (hashProposal sha p) (hr_conversationId r) now (cs_temporary cs)))"

lemma allowed_covered:
  assumes "evaluateHttpPolicy sha newURL r now cs = (Inr (PolicyAllowed gid source), cs')"
  shows "coveredByGrant sha newURL r now cs gid source \<and> (source = PersistentSource \<longrightarrow> cs' = cs)"
  using assms
proof (cases rule: evaluate_cases)
  case (persistent g all)
  then show ?thesis by (auto simp: coveredByGrant_def httpGrantFor_def)
next
  case (temporary p t1)
  obtain k t where k: "checkAny (hashProposal sha p) (hr_conversationId r) now (cs_temporary cs) = (k, t)" by fastforce
  with temporary(3) obtain kind where "k = Some kind" "source = TemporarySource"
    "gid = ''temp:'' @ kindText kind @ '':'' @ hashProposal sha p"
    by (auto simp: temporaryOrProposal_def Let_def split: option.splits)
  with k temporary(1,2) show ?thesis by (auto simp: coveredByGrant_def dest!: checkAny_Some)
qed simp

text \<open>
  A request is allowed only if it carries no authentication header of its own and is covered by
  a grant: an active persistent HTTP grant for the same credential whose method and URL pattern
  match, read from an intact store, or a temporary grant for exactly this proposal that was stored
  and has not expired.
\<close>

theorem policy_requires_grant:
  assumes "evaluateHttpPolicy sha newURL r now cs = (Inr (PolicyAllowed gid source), cs')"
  shows "detectForbiddenHeaders (hr_headers r) = [] \<and>
    (case source of
       PersistentSource \<Rightarrow>
         \<not> ps_corrupt (cs_persistent cs) \<and>
         (\<exists>all g. readable (cs_persistent cs) = Some all \<and> g \<in> set all \<and> isActive g \<and> pg_id g = gid \<and>
           pg_tool g = ''http'' \<and> grantCoversRequest newURL g (hr_credentialHandle r) (hr_method r) (hr_url r)) \<and> cs' = cs
     | TemporarySource \<Rightarrow>
         (\<exists>p kind. buildProposal newURL r = Inr p \<and> gid = ''temp:'' @ kindText kind @ '':'' @ hashProposal sha p \<and>
           liveGrant kind (hashProposal sha p) (hr_conversationId r) now (cs_temporary cs)))"
  using allowed_covered [OF assms] by (auto simp: coveredByGrant_def split: grantSource.splits)

section \<open>After an approval\<close>

lemma approval_required_state:
  assumes "evaluateHttpPolicy sha newURL r now cs = (Inr (ApprovalRequired p), cs1)"
  shows "buildProposal newURL r = Inr p"
    and "cs_persistent cs1 = cs_persistent cs"
    and "absentGrant kind (hashProposal sha p) (hr_conversationId r) (cs_temporary cs1)"
    and "evaluateHttpPolicy sha newURL r now' (cs1\<lparr>cs_temporary := t\<rparr>) =
      (case temporaryOrProposal sha p (hr_conversationId r) now' t of
         (result, t1) \<Rightarrow> (Inr result, cs1\<lparr>cs_temporary := t1\<rparr>))"
proof -
  from assms show b: "buildProposal newURL r = Inr p" "cs_persistent cs1 = cs_persistent cs"
    "absentGrant kind (hashProposal sha p) (hr_conversationId r) (cs_temporary cs1)"
    by (cases rule: evaluate_cases; auto simp: temporaryOrProposal_def Let_def dest: checkAny_None split: prod.splits option.splits)+
  from assms show "evaluateHttpPolicy sha newURL r now' (cs1\<lparr>cs_temporary := t\<rparr>) =
      (case temporaryOrProposal sha p (hr_conversationId r) now' t of
         (result, t1) \<Rightarrow> (Inr result, cs1\<lparr>cs_temporary := t1\<rparr>))"
  proof (cases rule: evaluate_cases)
    case (temporary q t1 gs pt)
    with b show ?thesis by (simp add: evaluateHttpPolicy_def Let_def split: prod.splits)
  qed simp_all
qed

text \<open>The guardian's approval of a proposal, under the hash the policy computes for it.\<close>

definition approves :: "hasher \<Rightarrow> grantProposal \<Rightarrow> grantType \<Rightarrow> recordGrantRequest \<Rightarrow> bool" where
  "approves sha p kind request \<longleftrightarrow>
     dec_approved (rg_decision request) \<and> dec_proposal (rg_decision request) = p \<and>
     dec_proposalHash (rg_decision request) = hashProposal sha p \<and> dec_grantType (rg_decision request) = Some kind"

lemma temporary_absent:
  assumes "\<And>kind. absentGrant kind (hashProposal sha p) c t"
  shows "temporaryOrProposal sha p c now t = (ApprovalRequired p, t)"
  by (simp add: temporaryOrProposal_def Let_def checkAny_absent [OF assms])

lemma absent_after_delete:
  assumes "absentGrant kind hash c t"
  shows "absentGrant kind hash c (map_delete key (map_set key g t))"
  using assms by (auto simp: absentGrant_def)

lemma once_consumed:
  assumes "tg_kind g = AllowOnce" "tg_expiresAt g = None"
  shows "checkAny hash c now (map_set (onceKey hash) g t) =
    (Some AllowOnce, map_delete (onceKey hash) (map_set (onceKey hash) g t))"
  using assms by (simp add: checkAny_def check_lookUp lookUp_def expired_def)

lemma timed_checked:
  assumes "tg_kind g = Allow10m" "tg_expiresAt g = Some limit" "\<And>kind. absentGrant kind hash c t"
  shows "now < limit \<Longrightarrow> checkAny hash c now (map_set (timedKey hash) g t) = (Some Allow10m, map_set (timedKey hash) g t)"
    and "limit \<le> now \<Longrightarrow> checkAny hash c now (map_set (timedKey hash) g t) =
      (None, map_delete (timedKey hash) (map_set (timedKey hash) g t))"
proof -
  have "map_get (map_set (timedKey hash) g t) (onceKey hash) = None" and talk: "truthy c \<Longrightarrow> map_get t (talkKey c hash) = None"
    using assms(3) [of AllowOnce] assms(3) [of AllowConversation] by (auto simp: absentGrant_def)
  then show "now < limit \<Longrightarrow> checkAny hash c now (map_set (timedKey hash) g t) = (Some Allow10m, map_set (timedKey hash) g t)"
    "limit \<le> now \<Longrightarrow> checkAny hash c now (map_set (timedKey hash) g t) =
      (None, map_delete (timedKey hash) (map_set (timedKey hash) g t))"
    using assms(1,2) by (auto simp: checkAny_def check_lookUp lookUp_def expired_def)
qed



section \<open>Standing approvals\<close>

lemma upperAscii_lower:
  assumes "97 \<le> (of_char c :: nat) \<and> (of_char c :: nat) \<le> 122"
  shows "(of_char (upperAscii c) :: nat) = of_char c - 32"
proof -
  have "(of_char c :: nat) - 32 < 256" using assms by linarith
  with assms show ?thesis by (simp add: upperAscii_def Let_def)
qed

lemma upper_no_space: "CHR '' '' \<notin> set m \<Longrightarrow> CHR '' '' \<notin> set (toUpperCase m)"
proof -
  have "upperAscii c = CHR '' '' \<longleftrightarrow> c = CHR '' ''" for c :: char
  proof (cases "97 \<le> (of_char c :: nat) \<and> (of_char c :: nat) \<le> 122")
    case True
    with upperAscii_lower [of c] have "(of_char (upperAscii c) :: nat) \<noteq> 32" "(of_char c :: nat) \<noteq> 32" by auto
    then show ?thesis by auto
  next
    case False
    then show ?thesis by (simp only: upperAscii_def Let_def if_False)
  qed
  then show "CHR '' '' \<notin> set m \<Longrightarrow> CHR '' '' \<notin> set (toUpperCase m)"
    unfolding toUpperCase_def set_map image_iff by metis
qed

lemma upper_idem: "toUpperCase (toUpperCase m) = toUpperCase m"
proof -
  have "upperAscii (upperAscii c) = upperAscii c" for c :: char
  proof (cases "97 \<le> (of_char c :: nat) \<and> (of_char c :: nat) \<le> 122")
    case True
    then have "\<not> 97 \<le> (of_char (upperAscii c) :: nat)" using upperAscii_lower [of c] by auto
    then show ?thesis by (simp add: upperAscii_def [of "upperAscii c"] Let_def)
  next
    case False
    then have "upperAscii c = c" by (simp only: upperAscii_def Let_def if_False)
    then show ?thesis by simp
  qed
  then show ?thesis by (simp add: toUpperCase_def)
qed

lemma findIndex_first: "\<forall>x \<in> set xs. \<not> P x \<Longrightarrow> P y \<Longrightarrow> findIndex P (xs @ y # ys) = Some (length xs)"
  by (induction xs) auto

text \<open>A URL covered by one whose template can be derived has a template too.\<close>

lemma covered_not_literal:
  assumes "coversRaw a b" "decodedOrRaw a \<notin> set (map points PLACEHOLDER_LITERALS)"
  shows "decodedOrRaw b \<notin> set (map points PLACEHOLDER_LITERALS)"
proof -
  from assms(1) obtain d e where de: "decodeURIComponent a = Some d" "decodeURIComponent b = Some e" "coversSegment d e"
    by (auto simp: coversRaw_def split: option.splits)
  have "placeholderFor (points ''{:num}'') = None" "placeholderFor (points ''{:uuid}'') = None" "placeholderFor (points ''{:hex}'') = None"
    by code_simp+
  then have "e \<in> set (map points PLACEHOLDER_LITERALS) \<Longrightarrow> placeholderFor e = None"
    by (auto simp: PLACEHOLDER_LITERALS_def)
  with de assms(2) show ?thesis
    by (auto simp del: set_map simp: decodedOrRaw_def safeDecodeSegment_def coversSegment_def placeholderFor_def split: if_splits)
qed

lemma covered_derivable:
  assumes "newURL a = Some u" "derivePathTemplate newURL a = Inr t" "newURL b = Some v" "coversUrl u v"
  shows "\<exists>t'. derivePathTemplate newURL b = Inr t'"
proof -
  have u: "\<forall>x \<in> set (pathSegments u). decodedOrRaw x \<notin> set (map points PLACEHOLDER_LITERALS)"
    using assms(1,2) by (auto simp: derivePathTemplate_def find_None_iff split: option.splits)
  have "\<forall>y \<in> set (pathSegments v). \<exists>x \<in> set (pathSegments u). coversRaw x y"
    using assms(4) by (fastforce simp: coversUrl_def list_all2_conv_all_nth in_set_conv_nth)
  with u have "\<forall>y \<in> set (pathSegments v). decodedOrRaw y \<notin> set (map points PLACEHOLDER_LITERALS)"
    using covered_not_literal by metis
  then have "find (\<lambda>s. s \<in> set (map points PLACEHOLDER_LITERALS)) (map decodedOrRaw (pathSegments v)) = None"
    by (simp add: find_None_iff)
  with assms(3) show ?thesis by (simp add: derivePathTemplate_def)
qed

lemma standing_grant_covers:
  assumes "buildProposal newURL r = Inr p" "newURL (hr_url r) = Some u" "reparsesTemplate newURL u"
    and "CHR '' '' \<notin> set (hr_method r)"
    and "hr_credentialHandle r' = hr_credentialHandle r" "toUpperCase (hr_method r') = toUpperCase (hr_method r)"
    and "newURL (hr_url r') = Some v" "coversUrl u v"
    and "pg_tool g = proposalType p" "pg_pattern g = grantPattern p" "pg_scope g = credentialHandle p"
  shows "httpGrantFor newURL r' g"
proof -
  from assms(1) obtain t where t: "derivePathTemplate newURL (hr_url r) = Inr t"
    and p: "p = HttpGrantProposal (hr_credentialHandle r) (toUpperCase (hr_method r)) (hr_url r) (hr_purpose r) (Some [t])"
    by (auto simp: buildProposal_def deriveAllowedUrlPatterns_def split: sum.splits) (metis Inr_Inl_False id_apply map_sum.simps obj_sumE sum.inject(2))
  have "urlMatchesTemplate newURL (hr_url r') t"
    using path_template_scope_iff [OF assms(2) t assms(3)] assms(7,8) by blast
  moreover have "findIndex (\<lambda>c. c = CHR '' '') (toUpperCase (hr_method r) @ '' '' @ t) = Some (length (toUpperCase (hr_method r)))"
    using upper_no_space [OF assms(4)] findIndex_first [of "toUpperCase (hr_method r)" "\<lambda>c. c = CHR '' ''" "CHR '' ''" t] by auto
  ultimately show ?thesis
    using assms(5,6,9-11) by (simp add: httpGrantFor_def grantCoversRequest_def p firstPattern_def upper_idem)
qed

lemma evaluate_with_grant:
  assumes "\<not> ps_corrupt (cs_persistent cs)" "ps_file (cs_persistent cs) = GrantsFile gs"
    and "g \<in> set gs" "isActive g" "httpGrantFor newURL r g"
    and "detectForbiddenHeaders (hr_headers r) = []" "derivePathTemplate newURL (hr_url r) = Inr t"
  shows "\<exists>gid. evaluateHttpPolicy sha newURL r now cs = (Inr (PolicyAllowed gid PersistentSource), cs)"
proof -
  have all: "getAll (cs_persistent cs) = (Inr (filter isActive gs), cs_persistent cs)"
    using assms(1,2) by (simp add: reads guarded_open load_readable)
  have "\<exists>h. find (httpGrantFor newURL r) (filter isActive gs) = Some h"
    using assms(3-5) find_Some_ex [of "httpGrantFor newURL r" "filter isActive gs"] by auto
  moreover have "\<exists>x. explicitGrant newURL r (cs_persistent cs) = (Inr x, cs_persistent cs)"
    by (simp add: explicitGrant_def getById_def all)
  ultimately show ?thesis
    using all assms(6,7) by (auto simp: evaluateHttpPolicy_def Let_def split: option.splits)
qed

text \<open>What granting leaves in the file, when no active grant has the identifier.\<close>

lemma add_stored:
  assumes "\<not> ps_corrupt s" "ps_file s = GrantsFile gs" "\<forall>g \<in> set gs. pg_id g = pg_id grant \<longrightarrow> \<not> isActive g" "isActive grant"
  obtains gs' g where "addPersistent WriteOk grant s = (Inr True, s\<lparr>ps_file := GrantsFile gs'\<rparr>)" "g \<in> set gs'" "isActive g"
    "pg_tool g = pg_tool grant" "pg_pattern g = pg_pattern grant" "pg_scope g = pg_scope grant"
proof (cases "find (\<lambda>g. pg_id g = pg_id grant) gs")
  case None
  with assms that [of "gs @ [grant]" grant] show ?thesis
    by (simp add: addPersistent_def guarded_open load_readable writeToDisk_def)
next
  case (Some old)
  have "reactivated grant old \<in> set (updateFirst (\<lambda>g. pg_id g = pg_id grant) (reactivated grant) gs)"
    using Some by (induction gs) (auto split: if_splits)
  moreover have "\<not> isActive old" using find_Some_mem [OF Some] assms(3) by simp
  ultimately show ?thesis
    using assms Some that [of "updateFirst (\<lambda>g. pg_id g = pg_id grant) (reactivated grant) gs" "reactivated grant old"]
    by (simp add: addPersistent_def guarded_open load_readable writeToDisk_def isActive_def reactivated_def)
qed

text \<open>
  after a standing approval every request with the same credential and method whose URL is
  covered by the approved one is allowed by the persistent grant, at any later time, without another
  approval.
\<close>

theorem standing_approval_covers_template:
  assumes ask: "evaluateHttpPolicy sha newURL r now cs = (Inr (ApprovalRequired p), cs1)"
    and approve: "approves sha p GrantAlways request"
    and url: "newURL (hr_url r) = Some u" "reparsesTemplate newURL u" and nospace: "CHR '' '' \<notin> set (hr_method r)"
    and disk: "ps_file (cs_persistent cs1) = GrantsFile gs" "\<not> ps_corrupt (cs_persistent cs1)"
    and new: "\<forall>g \<in> set gs. pg_id g = hashProposal sha p \<longrightarrow> \<not> isActive g"
    and same: "hr_credentialHandle r' = hr_credentialHandle r" "toUpperCase (hr_method r') = toUpperCase (hr_method r)"
    and covered: "newURL (hr_url r') = Some v" "coversUrl u v"
    and clean: "detectForbiddenHeaders (hr_headers r') = []"
  shows "\<exists>cs2 gid. recordGrant WriteOk request now1 cs1 = (Inr (Some (grantRecordOf request now1)), cs2) \<and>
    evaluateHttpPolicy sha newURL r' now2 cs2 = (Inr (PolicyAllowed gid PersistentSource), cs2)"
proof -
  note b = approval_required_state(1) [OF ask]
  let ?grant = "persistentGrantOf (rg_decision request) (rg_sessionId request) now1"
  have grant: "pg_id ?grant = hashProposal sha p" "pg_tool ?grant = proposalType p" "pg_pattern ?grant = grantPattern p"
    "pg_scope ?grant = credentialHandle p" "isActive ?grant"
    using approve by (simp_all add: persistentGrantOf_def approves_def isActive_def)
  from add_stored [OF disk(2,1), of ?grant] new grant obtain gs' g where
    add: "addPersistent WriteOk ?grant (cs_persistent cs1) = (Inr True, (cs_persistent cs1)\<lparr>ps_file := GrantsFile gs'\<rparr>)"
    and g: "g \<in> set gs'" "isActive g" "pg_tool g = proposalType p" "pg_pattern g = grantPattern p" "pg_scope g = credentialHandle p"
    by metis
  from b obtain t where t: "derivePathTemplate newURL (hr_url r) = Inr t"
    by (auto simp: buildProposal_def deriveAllowedUrlPatterns_def split: sum.splits) (metis Inr_Inl_False map_sum.simps(1) obj_sumE)
  obtain t' where t': "derivePathTemplate newURL (hr_url r') = Inr t'" using covered_derivable [OF url(1) t covered] by blast
  have "httpGrantFor newURL r' g" by (rule standing_grant_covers [OF b url nospace same covered g(3-5)])
  moreover obtain cs2 where "recordGrant WriteOk request now1 cs1 = (Inr (Some (grantRecordOf request now1)), cs2)"
    "cs_persistent cs2 = (cs_persistent cs1)\<lparr>ps_file := GrantsFile gs'\<rparr>"
    using approve add by (simp add: recordGrant_def approves_def Let_def temporaryGrantOf_def addTemporary_def)
  ultimately show ?thesis
    using evaluate_with_grant [of cs2 gs' g newURL r' t' sha now2] g clean t' disk(2) by auto
qed

text \<open>
  The hash names the proposal: unless the hash function collides on the two canonical texts,
  two proposals have the same hash only if they are equal in every field.
\<close>

theorem proposal_hash_exact:
  assumes "sha (canonicalJsonSerialize (JObj (proposalFields p))) = sha (canonicalJsonSerialize (JObj (proposalFields q))) \<Longrightarrow>
    canonicalJsonSerialize (JObj (proposalFields p)) = canonicalJsonSerialize (JObj (proposalFields q))"
  shows "hashProposal sha p = hashProposal sha q \<longleftrightarrow> p = q"
  using assms serialize_proposal_inj by (auto simp: hashProposal_def)

end
