(* ===== verification/Policy_Witnesses.thy ===== *)
theory Policy_Witnesses
  imports Policy_Properties
begin

text \<open>
  The theorems on path templates and the HTTP policy at a concrete request: the parser knows three
  URLs, the hash is the identity, and the store starts empty. A scenario shows that a standing
  approval that is revoked at once still lets one request through.
\<close>

section \<open>A concrete request\<close>

definition demoUrl :: "string \<Rightarrow> parsedUrl" where
  "demoUrl path = \<lparr>url_protocol = ''https:'', url_username = [], url_password = [], url_hostname = ''api.example'',
     url_port = [], url_origin = ''https://api.example'', url_pathname = path\<rparr>"

definition demoParser :: urlParser where
  "demoParser = map_of
     [(''https://api.example/users/42'', demoUrl ''/users/42''),
      (''https://api.example/users/{:num}'', demoUrl ''/users/%7B:num%7D''),
      (''https://api.example/users/77?q=1'', demoUrl ''/users/77'')]"

definition demoRequest :: "string \<Rightarrow> httpPolicyRequest" where
  "demoRequest url = \<lparr>hr_credentialHandle = ''h'', hr_method = ''get'', hr_url = url, hr_headers = None,
     hr_purpose = ''read'', hr_grantId = None, hr_conversationId = Some ''c''\<rparr>"

definition demoState :: credentialState where
  "demoState = \<lparr>cs_persistent = \<lparr>ps_file = GrantsFile [], ps_corrupt = False\<rparr>, cs_temporary = []\<rparr>"

definition demoProposal :: grantProposal where
  "demoProposal = HttpGrantProposal ''h'' ''GET'' ''https://api.example/users/42'' ''read'' (Some [''https://api.example/users/{:num}''])"

definition demoApproval :: "grantType \<Rightarrow> recordGrantRequest" where
  "demoApproval kind = \<lparr>rg_decision = \<lparr>dec_proposal = demoProposal, dec_proposalHash = hashProposal id demoProposal,
       dec_approved = True, dec_decidedBy = ''guardian'', dec_decidedAt = ''2025-01-01T00:00:00Z'',
       dec_reason = None, dec_ttl = None, dec_grantType = Some kind\<rparr>,
     rg_sessionId = ''s'', rg_conversationId = Some ''c''\<rparr>"

abbreviation demoEvaluate :: "string \<Rightarrow> int \<Rightarrow> credentialState \<Rightarrow> policyResult credentialOutcome" where
  "demoEvaluate url \<equiv> evaluateHttpPolicy id demoParser (demoRequest url)"

lemma demo_asks: "demoEvaluate ''https://api.example/users/42'' 5 demoState = (Inr (ApprovalRequired demoProposal), demoState)"
  by code_simp

lemma demo_approves: "approves id demoProposal kind (demoApproval kind)"
  by (simp add: approves_def demoApproval_def)

lemma demo_urls:
  "demoParser ''https://api.example/users/42'' = Some (demoUrl ''/users/42'')"
  "demoParser ''https://api.example/users/77?q=1'' = Some (demoUrl ''/users/77'')"
  "reparsesTemplate demoParser (demoUrl ''/users/42'')"
  "derivePathTemplate demoParser ''https://api.example/users/42'' = Inr ''https://api.example/users/{:num}''"
  "coversUrl (demoUrl ''/users/42'') (demoUrl ''/users/77'')"
  by code_simp+

section \<open>The theorems at this request\<close>

theorem path_template_scope_witness:
  "derivePathTemplate demoParser ''https://api.example/users/42'' = Inr ''https://api.example/users/{:num}'' \<and>
   urlMatchesTemplate demoParser ''https://api.example/users/77?q=1'' ''https://api.example/users/{:num}''"
  using path_template_scope [OF demo_urls(1,4,3), of "''https://api.example/users/77?q=1''"] demo_urls by blast



theorem standing_approval_covers_template_witness:
  "\<exists>cs2 gid. recordGrant WriteOk (demoApproval GrantAlways) 6 demoState =
       (Inr (Some (grantRecordOf (demoApproval GrantAlways) 6)), cs2) \<and>
     demoEvaluate ''https://api.example/users/77?q=1'' 900000 cs2 = (Inr (PolicyAllowed gid PersistentSource), cs2)"
  by (rule standing_approval_covers_template [OF demo_asks demo_approves, of "demoUrl ''/users/42''" "[]" _ "demoUrl ''/users/77''"])
    (simp_all add: demo_urls demoRequest_def demoState_def detectForbiddenHeaders_def)

definition demoAllowed :: "policyResult credentialOutcome" where
  "demoAllowed = demoEvaluate ''https://api.example/users/77?q=1'' 9 (snd (recordGrant WriteOk (demoApproval GrantAlways) 6 demoState))"

theorem policy_requires_grant_witness:
  "\<exists>gid. fst demoAllowed = Inr (PolicyAllowed gid PersistentSource) \<and>
     (\<exists>all g. readable (cs_persistent (snd (recordGrant WriteOk (demoApproval GrantAlways) 6 demoState))) = Some all \<and>
        g \<in> set all \<and> isActive g \<and> pg_id g = gid)"
proof -
  have "fst demoAllowed = Inr (PolicyAllowed (hashProposal id demoProposal) PersistentSource)" by code_simp
  then have e: "demoEvaluate ''https://api.example/users/77?q=1'' 9 (snd (recordGrant WriteOk (demoApproval GrantAlways) 6 demoState)) =
      (Inr (PolicyAllowed (hashProposal id demoProposal) PersistentSource), snd demoAllowed)"
    by (simp add: demoAllowed_def prod_eq_iff)
  from policy_requires_grant [OF e] \<open>fst demoAllowed = _\<close> show ?thesis by auto
qed

theorem proposal_hash_exact_witness:
  "hashProposal id demoProposal \<noteq> hashProposal id (CommandGrantProposal ''h'' ''GET'' ''read'' None)"
  using proposal_hash_exact [of id demoProposal "CommandGrantProposal ''h'' ''GET'' ''read'' None"]
  by (simp add: demoProposal_def)

section \<open>A revoked standing approval\<close>

text \<open>
  \<open>record_grant\<close> with \<open>always_allow\<close> also stores a single-use temporary grant. The policy looks at
  the persistent store first, so that grant is not consumed while the standing one is active: after
  the guardian revokes the approval, the next identical request still passes, the one after it does not.
\<close>

definition revokedState :: credentialState where
  "revokedState =
     (let cs1 = snd (recordGrant WriteOk (demoApproval GrantAlways) 6 demoState);
          cs2 = snd (demoEvaluate ''https://api.example/users/42'' 7 cs1)
      in cs2\<lparr>cs_persistent := snd (revokeGrant WriteOk (hashProposal id demoProposal) None 8 (cs_persistent cs2))\<rparr>)"

definition revokedOutcomes :: "policyResult list" where
  "revokedOutcomes =
     (case demoEvaluate ''https://api.example/users/42'' 9 revokedState of
        (r1, cs1) \<Rightarrow> (case demoEvaluate ''https://api.example/users/42'' 10 cs1 of
          (r2, cs2) \<Rightarrow> [projr r1, projr r2]))"

theorem revoked_standing_approval_allows_one:
  "revokedOutcomes =
     [PolicyAllowed (''temp:allow_once:'' @ hashProposal id demoProposal) TemporarySource, ApprovalRequired demoProposal]"
  by code_simp

end
