(* ===== verification/Executor_Properties.thy ===== *)
theory Executor_Properties
  imports Http_Executor Policy_Witnesses
begin

text \<open>
  What the executor of authenticated requests guarantees: no request leaves the process without a
  grant that covers exactly it, redirects included; the credential does not come back to the agent;
  and each use leaves one audit record.
\<close>

section \<open>The fetch loop\<close>

fun isFetch :: "execEvent \<Rightarrow> bool" where
  "isFetch (FetchSent m u hs b) = True"
| "isFetch (PolicyCheck r now cs result) = False"

text \<open>
  A request may be sent right after a decision of the policy: the decision was positive and the one
  the policy makes, it was about this credential, this method and the URL the authenticated request
  is built from, and a grant covered it.
\<close>

definition sentUnder ::
    "hasher \<Rightarrow> urlLibrary \<Rightarrow> string \<Rightarrow> headerRecord \<Rightarrow> materialisedCredential \<Rightarrow> execEvent \<Rightarrow> execEvent \<Rightarrow> bool" where
  "sentUnder sha lib handle callerHeaders credential decision event \<longleftrightarrow>
     (\<exists>r now cs gid source b.
        decision = PolicyCheck r now cs (PolicyAllowed gid source) \<and>
        event = FetchSent (hr_method r) (ah_url (buildAuthenticatedRequest lib (hr_url r) callerHeaders credential))
          (ah_headers (buildAuthenticatedRequest lib (hr_url r) callerHeaders credential)) b \<and>
        hr_credentialHandle r = handle \<and>
        fst (evaluateHttpPolicy sha (ul_parse lib) r now cs) = Inr (PolicyAllowed gid source) \<and>
        coveredByGrant sha (ul_parse lib) r now cs gid source)"

text \<open>Every request of a log that begins after the event \<open>before\<close> is sent under the event in front of it.\<close>

fun allSentUnder :: "(execEvent \<Rightarrow> execEvent \<Rightarrow> bool) \<Rightarrow> execEvent \<Rightarrow> execEvent list \<Rightarrow> bool" where
  "allSentUnder P before [] = True"
| "allSentUnder P before (e # es) = ((isFetch e \<longrightarrow> P before e) \<and> allSentUnder P e es)"

lemma allSentUnder_split: "allSentUnder P before (xs @ d # e # ys) \<Longrightarrow> isFetch e \<Longrightarrow> P d e"
  by (induction xs arbitrary: before) auto

text \<open>One turn of the loop: it ends after this request, or a redirect was allowed and the loop goes on.\<close>

lemma loop_cases:
  assumes "performHttpRequest sha lib w handle credential callerHeaders redirects m request body cs = (r, cs', log)"
  obtains
    (done1) "log = [FetchSent m (ah_url request) (ah_headers request) (sentBody body)]"
  | (denied) d where "log = [FetchSent m (ah_url request) (ah_headers request) (sentBody body), d]" "\<not> isFetch d"
  | (redirect) m' url body' chk now cs1 gid source cs2 rest where
      "Suc redirects \<le> MAX_REDIRECTS"
      "hr_method chk = m'" "hr_url chk = url" "hr_credentialHandle chk = handle"
      "evaluateHttpPolicy sha (ul_parse lib) chk now cs1 = (Inr (PolicyAllowed gid source), cs2)"
      "performHttpRequest sha lib w handle credential callerHeaders (Suc redirects) m'
         (buildAuthenticatedRequest lib url callerHeaders credential) body' cs2 = (r, cs', rest)"
      "log = FetchSent m (ah_url request) (ah_headers request) (sentBody body) #
         PolicyCheck chk now cs1 (PolicyAllowed gid source) # rest"
proof -
  let ?sent = "FetchSent m (ah_url request) (ah_headers request) (sentBody body)"
  show ?thesis
  proof (cases "w_fetch w redirects")
    case (FetchFails message)
    then show ?thesis using assms done1 by (simp add: performHttpRequest.simps Let_def)
  next
    case reply: (FetchReply status hs rb)
    let ?l = "map_get hs ''location''"
    show ?thesis
    proof (cases "status \<in> set REDIRECT_STATUSES \<and> \<not> redirects + 1 > MAX_REDIRECTS \<and> truthy ?l \<and>
        ul_resolve lib (the ?l) (ah_url request) \<noteq> None")
      case False
      then have "log = [?sent]" using assms reply
        by (subst (asm) performHttpRequest.simps) (auto simp: Let_def split: if_splits option.splits)
      then show ?thesis by (rule done1)
    next
      case True
      then obtain url where url: "ul_resolve lib (the ?l) (ah_url request) = Some url" by auto
      define m' where "m' = (if status = 303 then ''GET'' else m)"
      define chk where "chk = redirectRequest lib handle m' url (ah_url request)"
      let ?now = "w_now w (Suc redirects)" and ?cs = "w_others w (Suc redirects) cs"
      have chk: "hr_method chk = m'" "hr_url chk = url" "hr_credentialHandle chk = handle"
        by (simp_all add: chk_def redirectRequest_def)
      obtain res cs2 where ev: "evaluateHttpPolicy sha (ul_parse lib) chk ?now ?cs = (res, cs2)" by fastforce
      have step: "(case res of
            Inl e \<Rightarrow> (Inl (w_thrownText w e), cs2, [?sent])
          | Inr result \<Rightarrow>
              (case result of
                 PolicyAllowed gid source \<Rightarrow>
                   (case performHttpRequest sha lib w handle credential callerHeaders (Suc redirects) m'
                           (buildAuthenticatedRequest lib url callerHeaders credential) (if status = 303 then None else body) cs2 of
                      (r, cs3, log) \<Rightarrow> (r, cs3, ?sent # PolicyCheck chk ?now ?cs result # log))
               | _ \<Rightarrow> (Inl (''Redirect to '' @ sanitiseUrl lib url @
                     '' denied: the redirect target does not satisfy the grant policy for credential handle '' @
                     quoted handle @ ''.''), cs2, [?sent, PolicyCheck chk ?now ?cs result]))) = (r, cs', log)"
        using True url ev unfolding assms [symmetric]
        by (subst performHttpRequest.simps [of sha lib w handle credential callerHeaders redirects])
          (auto simp: reply Let_def m'_def chk_def split: sum.splits policyResult.splits)
      show ?thesis
      proof (cases "\<exists>gid source. res = Inr (PolicyAllowed gid source)")
        case allowed: True
        then obtain gid source where res: "res = Inr (PolicyAllowed gid source)" by blast
        obtain r3 cs3 rest where rest: "performHttpRequest sha lib w handle credential callerHeaders (Suc redirects) m'
            (buildAuthenticatedRequest lib url callerHeaders credential) (if status = 303 then None else body) cs2 = (r3, cs3, rest)"
          by (metis prod_cases3)
        show ?thesis by (rule redirect [OF _ chk]) (use step rest res ev True in auto)
      next
        case False
        with step have "log = [?sent] \<or> (\<exists>d. log = [?sent, d] \<and> \<not> isFetch d)"
          by (auto split: sum.splits policyResult.splits)
        then show ?thesis using done1 denied by blast
      qed
    qed
  qed
qed

lemma loop_sent_under:
  assumes "performHttpRequest sha lib w handle credential callerHeaders redirects m request body cs = (r, cs', log)"
    and "request = buildAuthenticatedRequest lib (hr_url r0) callerHeaders credential" "m = hr_method r0"
    and "evaluateHttpPolicy sha (ul_parse lib) r0 now0 cs0 = (Inr (PolicyAllowed gid source), cs1)"
    and "hr_credentialHandle r0 = handle"
  shows "allSentUnder (sentUnder sha lib handle callerHeaders credential) (PolicyCheck r0 now0 cs0 (PolicyAllowed gid source)) log \<and>
    length (filter isFetch log) \<le> Suc (MAX_REDIRECTS - redirects)"
  using assms
proof (induction "MAX_REDIRECTS - redirects" arbitrary: redirects m request body cs log r0 now0 cs0 gid source cs1 rule: less_induct)
  case less
  have sent: "sentUnder sha lib handle callerHeaders credential (PolicyCheck r0 now0 cs0 (PolicyAllowed gid source))
      (FetchSent m (ah_url request) (ah_headers request) (sentBody body))"
    using less.prems allowed_covered [OF less.prems(4)] by (auto simp: sentUnder_def)
  from less.prems(1) show ?case
  proof (cases rule: loop_cases)
    case (redirect m' url body' chk now cs1' gid' source' cs2 rest)
    with less.hyps [OF _ redirect(6) _ _ redirect(5,4)] have
      "allSentUnder (sentUnder sha lib handle callerHeaders credential) (PolicyCheck chk now cs1' (PolicyAllowed gid' source')) rest \<and>
       length (filter isFetch rest) \<le> Suc (MAX_REDIRECTS - Suc redirects)" by auto
    with redirect(1,7) sent show ?thesis by auto
  qed (use sent in auto)
qed

section \<open>The handler\<close>

fun auditIdOf :: "execResponse \<Rightarrow> string option" where
  "auditIdOf (MaterialisationFailed m i) = Some i"
| "auditIdOf (HttpRequestFailed m i) = Some i"
| "auditIdOf (ExecSuccess st hs body i) = Some i"
| "auditIdOf _ = None"

lemma execute_cases:
  assumes "executeAuthenticatedHttpRequest sha lib mats w request s = (r, s', log)"
  obtains
    (stopped) "ex_audit s' = ex_audit s" "filter isFetch log = []"
      "\<And>x. r = Inr x \<Longrightarrow> auditIdOf x = None"
  | (allowed) h gid source cs1 rest where "parseHandle (mr_credentialHandle request) = Inr h"
      "evaluateHttpPolicy sha (ul_parse lib) (policyRequestOf request) (w_now w 0) (ex_grants s) =
         (Inr (PolicyAllowed gid source), cs1)"
      "executeAllowed sha lib mats w request (parsedType h) gid (s\<lparr>ex_grants := cs1\<rparr>) = (r, s', rest)"
      "log = PolicyCheck (policyRequestOf request) (w_now w 0) (ex_grants s) (PolicyAllowed gid source) # rest"
proof (cases "parseHandle (mr_credentialHandle request)")
  case (Inl e)
  with assms show ?thesis by (intro stopped) (auto simp: executeAuthenticatedHttpRequest_def)
next
  case (Inr h)
  obtain res cs1 where ev: "evaluateHttpPolicy sha (ul_parse lib) (policyRequestOf request) (w_now w 0) (ex_grants s) = (res, cs1)"
    by fastforce
  show ?thesis
  proof (cases "\<exists>gid source. res = Inr (PolicyAllowed gid source)")
    case True
    with assms Inr ev show ?thesis
      by (auto simp: executeAuthenticatedHttpRequest_def Let_def split: prod.splits intro: allowed)
  next
    case False
    with assms Inr ev show ?thesis
      by (intro stopped)
        (auto simp: executeAuthenticatedHttpRequest_def Let_def split: sum.splits policyResult.splits)
  qed
qed

lemma executeAllowed_cases:
  assumes "executeAllowed sha lib mats w request kind gid s = (r, s', log)"
  obtains
    (thrown) "materialiseCredential mats kind (mr_credentialHandle request) = MaterialiseThrew"
      "r = Inl PlatformBodyThrows" "log = []" "ex_audit s' = ex_audit s"
  | (unmaterialised) e where "materialiseCredential mats kind (mr_credentialHandle request) = MaterialiseFailure e"
      "r = Inr (MaterialisationFailed e (w_auditId w))" "log = []"
      "ex_audit s' = persistAudit w (auditEntry lib w request gid False None (Some e)) (ex_audit s)"
  | (failed) credential secrets message cs where
      "materialiseCredential mats kind (mr_credentialHandle request) = MaterialiseSuccess credential secrets"
      "performHttpRequest sha lib w (mr_credentialHandle request) credential (get_or [] (mr_headers request)) 0 (mr_method request)
         (buildAuthenticatedRequest lib (mr_url request) (get_or [] (mr_headers request)) credential) (mr_body request)
         (w_others w 0 (ex_grants s)) = (Inl message, cs, log)"
      "r = Inr (HttpRequestFailed (sanitiseErrorMessage message secrets) (w_auditId w))"
      "ex_audit s' = persistAudit w (auditEntry lib w request gid False None (Some (sanitiseErrorMessage message secrets))) (ex_audit s)"
  | (answered) credential secrets raw cs where
      "materialiseCredential mats kind (mr_credentialHandle request) = MaterialiseSuccess credential secrets"
      "performHttpRequest sha lib w (mr_credentialHandle request) credential (get_or [] (mr_headers request)) 0 (mr_method request)
         (buildAuthenticatedRequest lib (mr_url request) (get_or [] (mr_headers request)) credential) (mr_body request)
         (w_others w 0 (ex_grants s)) = (Inr raw, cs, log)"
      "r = Inr (ExecSuccess (raw_statusCode raw) (filterResponseHeaders (raw_headers raw))
         (scrubSecrets (fst (clampBody (raw_body raw))) (map points secrets)) (w_auditId w))"
      "ex_audit s' = persistAudit w (auditEntry lib w request gid True (Some (raw_statusCode raw)) None) (ex_audit s)"
proof (cases "materialiseCredential mats kind (mr_credentialHandle request)")
  case MaterialiseThrew
  with assms show ?thesis by (intro thrown) (auto simp: executeAllowed_def)
next
  case (MaterialiseFailure e)
  with assms show ?thesis by (intro unmaterialised) (auto simp: executeAllowed_def)
next
  case (MaterialiseSuccess credential secrets)
  obtain r1 cs l where loop: "performHttpRequest sha lib w (mr_credentialHandle request) credential (get_or [] (mr_headers request)) 0
      (mr_method request) (buildAuthenticatedRequest lib (mr_url request) (get_or [] (mr_headers request)) credential)
      (mr_body request) (w_others w 0 (ex_grants s)) = (r1, cs, l)" by (metis prod_cases3)
  show ?thesis
  proof (cases r1)
    case (Inl message)
    then show ?thesis using assms MaterialiseSuccess loop by (intro failed) (auto simp: executeAllowed_def Let_def)
  next
    case (Inr raw)
    then show ?thesis using assms MaterialiseSuccess loop
      by (intro answered) (auto simp: executeAllowed_def Let_def filterHttpResponse_def split: prod.splits)
  qed
qed

lemma materialised_secret:
  "materialiseCredential mats kind h = MaterialiseSuccess credential secrets \<Longrightarrow> secrets = [mc_value credential]"
  by (auto simp: materialiseCredential_def materialiseLocal_def materialiseManaged_def elim!: localResult.elims
      split: handleType.splits option.splits sum.splits platformResult.splits)

lemma executeAllowed_sent:
  assumes "executeAllowed sha lib mats w request kind gid s = (r, s', log)"
    and "evaluateHttpPolicy sha (ul_parse lib) (policyRequestOf request) now0 cs0 = (Inr (PolicyAllowed gid source), cs1)"
  shows "length (filter isFetch log) \<le> Suc MAX_REDIRECTS \<and>
    (filter isFetch log \<noteq> [] \<longrightarrow>
      (\<exists>credential secrets. materialiseCredential mats kind (mr_credentialHandle request) = MaterialiseSuccess credential secrets \<and>
        allSentUnder (sentUnder sha lib (mr_credentialHandle request) (get_or [] (mr_headers request)) credential)
          (PolicyCheck (policyRequestOf request) now0 cs0 (PolicyAllowed gid source)) log))"
proof -
  have req: "hr_url (policyRequestOf request) = mr_url request" "hr_method (policyRequestOf request) = mr_method request"
    "hr_credentialHandle (policyRequestOf request) = mr_credentialHandle request" by (simp_all add: policyRequestOf_def)
  from assms(1) show ?thesis
  proof (cases rule: executeAllowed_cases)
    case (failed credential secrets message cs)
    then show ?thesis using loop_sent_under [OF failed(2) _ _ assms(2)] req by auto
  next
    case (answered credential secrets raw cs)
    then show ?thesis using loop_sent_under [OF answered(2) _ _ assms(2)] req by auto
  qed simp_all
qed

text \<open>
  C17: one call of the executor sends at most six HTTP requests, and each of them right after a
  positive decision of the policy about exactly this request: the same credential handle, the method
  that is sent, and the URL the authenticated request is built from. At that moment a live grant
  covered it: an active persistent grant of an intact store, or an unexpired temporary one. The
  headers are the caller's, none of which is an authentication header, with the credential injected;
  redirects are no exception.
\<close>

theorem fetch_requires_grant:
  assumes "executeAuthenticatedHttpRequest sha lib mats w request s = (r, s', log)"
    and "log = pre @ FetchSent m u hs b # post"
  shows "length (filter isFetch log) \<le> 6 \<and> detectForbiddenHeaders (mr_headers request) = [] \<and>
    (\<exists>before check now cs gid source credential secrets h.
       pre = before @ [PolicyCheck check now cs (PolicyAllowed gid source)] \<and>
       fst (evaluateHttpPolicy sha (ul_parse lib) check now cs) = Inr (PolicyAllowed gid source) \<and>
       coveredByGrant sha (ul_parse lib) check now cs gid source \<and>
       hr_credentialHandle check = mr_credentialHandle request \<and> hr_method check = m \<and>
       parseHandle (mr_credentialHandle request) = Inr h \<and>
       materialiseCredential mats (parsedType h) (mr_credentialHandle request) = MaterialiseSuccess credential secrets \<and>
       buildAuthenticatedRequest lib (hr_url check) (get_or [] (mr_headers request)) credential = \<lparr>ah_headers = hs, ah_url = u\<rparr>)"
  using assms(1)
proof (cases rule: execute_cases)
  case stopped
  with assms(2) show ?thesis by simp
next
  case (allowed h gid source cs1 rest)
  note sent = executeAllowed_sent [OF allowed(3,2)]
  obtain p d where pre: "pre = p @ [d]" using assms(2) allowed(4) by (cases pre rule: rev_cases) auto
  have "FetchSent m u hs b \<in> set rest" using assms(2) allowed(4) pre by (cases p) auto
  then have "filter isFetch rest \<noteq> []" unfolding filter_empty_conv using isFetch.simps(1) by blast
  with sent obtain credential secrets where c:
    "materialiseCredential mats (parsedType h) (mr_credentialHandle request) = MaterialiseSuccess credential secrets"
    "allSentUnder (sentUnder sha lib (mr_credentialHandle request) (get_or [] (mr_headers request)) credential)
      (PolicyCheck (policyRequestOf request) (w_now w 0) (ex_grants s) (PolicyAllowed gid source)) rest"
    by blast
  then have "allSentUnder (sentUnder sha lib (mr_credentialHandle request) (get_or [] (mr_headers request)) credential) d log" for d
    using allowed(4) by simp
  from allSentUnder_split [OF this [unfolded assms(2) pre append_assoc append_Cons append_Nil]]
  have "sentUnder sha lib (mr_credentialHandle request) (get_or [] (mr_headers request)) credential d (FetchSent m u hs b)" by simp
  moreover have "detectForbiddenHeaders (mr_headers request) = []"
    using allowed_covered [OF allowed(2)] by (simp add: coveredByGrant_def policyRequestOf_def)
  ultimately show ?thesis
    using sent allowed(1,4) c(1) pre unfolding sentUnder_def by (fastforce simp: MAX_REDIRECTS_def)
qed

section \<open>The credential stays inside\<close>

lemma points_sublist: "sublist v m \<Longrightarrow> sublist (points v) (points m)"
  unfolding sublist_def points_def by (metis map_append)

lemma distinct_apart_text: "distinctSecret (points v) \<Longrightarrow> apartFrom v (CHR 0x5B) ''CES:REDACTED'' (CHR 0x5D)"
  using points_sublist [of v "''CES:REDACTED''"]
  by (force simp: distinctSecret_def apartFrom_def points_def image_iff)

lemma error_scrubbed:
  assumes "distinctSecret (points v)"
  shows "\<not> sublist v (sanitiseErrorMessage message [v])"
proof -
  have "REDACTED = CHR 0x5B # ''CES:REDACTED'' @ [CHR 0x5D]" by (simp add: REDACTED_def)
  moreover have "8 \<le> length v" using assms by (simp add: distinctSecret_def points_def)
  ultimately show ?thesis using replaceAll_removes [OF distinct_apart_text [OF assms]] by (simp add: sanitiseErrorMessage_def)
qed

lemma audit_written:
  "readAll (persistAudit w entry a) = readAll (w_auditOthers w a) @
     (if w_auditIo w \<and> w_auditOthers w a \<noteq> AuditUnreadable then [entry] else [])"
  by (auto simp: persistAudit_def appendAudit_def readAll_def split: auditFile.splits)

lemma auditEntry_simps [simp]:
  "ar_auditId (auditEntry lib w request gid ok status message) = w_auditId w"
  "ar_grantId (auditEntry lib w request gid ok status message) = gid"
  "ar_credentialHandle (auditEntry lib w request gid ok status message) = mr_credentialHandle request"
  "ar_success (auditEntry lib w request gid ok status message) = ok"
  "ar_errorMessage (auditEntry lib w request gid ok status message) = (if truthy message then message else None)"
  by (simp_all add: auditEntry_def generateHttpAuditSummary_def)



section \<open>Managed tokens\<close>

definition completeOptions :: "platformOptions \<Rightarrow> bool" where
  "completeOptions options \<longleftrightarrow>
     po_platformBaseUrl options \<noteq> [] \<and> po_assistantApiKey options \<noteq> [] \<and> po_assistantId options \<noteq> []"

lemma missingOption_eq:
  "(case missingOption purpose options of Some (code, message) \<Rightarrow> PlatformError code message | None \<Rightarrow> r) = PlatformOk x \<longleftrightarrow>
     completeOptions options \<and> r = PlatformOk x"
  by (auto simp: missingOption_def completeOptions_def)

lemma resolved_managed:
  "resolveManagedSubject errorText fetch options handle = PlatformOk subject \<longleftrightarrow>
     (\<exists>cid raw status entries entry. parseHandle handle = Inr (PlatformOAuthHandle cid raw) \<and> completeOptions options \<and>
        fetch (catalogRequest options) = PlatformReplies status (Some (JArr entries)) \<and> replyOk status \<and>
        findConnection cid entries = PlatformOk (Some entry) \<and> subject = managedSubjectOf handle cid entry)"
  by (auto simp: resolveManagedSubject_def readCatalog_def missingOption_eq
      split: sum.splits parsedHandle.splits platformReply.splits if_splits option.splits json.splits platformResult.splits)

lemma materialized_managed:
  "materializeManagedToken dateOf fetch options subject = PlatformOk token \<longleftrightarrow>
     completeOptions options \<and>
     (\<exists>status body. fetch (materializeRequest options (ms_connectionId subject)) = PlatformReplies status (Some body) \<and> replyOk status \<and>
        jsonProperty ''access_token'' body = Some (Some (JStr (mt_accessToken token))) \<and> mt_accessToken token \<noteq> [] \<and>
        token = \<lparr>mt_accessToken = mt_accessToken token,
          mt_tokenType = nullish (JStr ''Bearer'') (get_or None (jsonProperty ''token_type'' body)),
          mt_expiresAt = parseExpiresAt dateOf (get_or None (jsonProperty ''expires_at'' body)),
          mt_provider = ms_provider subject, mt_connectionId = ms_connectionId subject\<rparr>)"
  by (auto simp: materializeManagedToken_def readToken_def missingOption_eq neq_Nil_conv
      split: option.splits platformReply.splits if_splits json.splits list.splits prod.splits)

text \<open>
  A managed token is materialised exactly when nothing is missing: both sets of options are
  complete, the handle names a platform connection, the catalog request succeeds and lists the
  connection, and the token request for this connection succeeds with a token that is not empty.
  The credential is that token, and it is the one secret to scrub. Every other answer fails closed.
\<close>

theorem managed_token_exactly:
  "materialiseManaged mats raw = MaterialiseSuccess credential secrets \<longleftrightarrow>
     (\<exists>options tokenOptions cid raw' status entries entry status' body.
        mat_managedSubjectOptions mats = Some options \<and> mat_managedMaterializerOptions mats = Some tokenOptions \<and>
        completeOptions options \<and> completeOptions tokenOptions \<and> parseHandle raw = Inr (PlatformOAuthHandle cid raw') \<and>
        mat_platform mats (catalogRequest options) = PlatformReplies status (Some (JArr entries)) \<and> replyOk status \<and>
        findConnection cid entries = PlatformOk (Some entry) \<and>
        mat_platform mats (materializeRequest tokenOptions cid) = PlatformReplies status' (Some body) \<and> replyOk status' \<and>
        jsonProperty ''access_token'' body = Some (Some (JStr (mc_value credential))) \<and> mc_value credential \<noteq> [] \<and>
        credential = \<lparr>mc_value = mc_value credential, mc_handleType = PlatformOAuth,
          mc_expiresAt = parseExpiresAt (mat_dateOf mats) (get_or None (jsonProperty ''expires_at'' body)),
          mc_injectionTemplates = None\<rparr> \<and>
        secrets = [mc_value credential])" (is "?l \<longleftrightarrow> ?r")
proof
  assume ?l
  then obtain options tokenOptions subject token where m:
    "mat_managedSubjectOptions mats = Some options" "mat_managedMaterializerOptions mats = Some tokenOptions"
    "resolveManagedSubject (handleErrorText raw) (mat_platform mats) options raw = PlatformOk subject"
    "materializeManagedToken (mat_dateOf mats) (mat_platform mats) tokenOptions subject = PlatformOk token"
    "credential = \<lparr>mc_value = mt_accessToken token, mc_handleType = PlatformOAuth, mc_expiresAt = mt_expiresAt token,
       mc_injectionTemplates = None\<rparr>" "secrets = [mt_accessToken token]"
    by (auto simp: materialiseManaged_def split: option.splits platformResult.splits)
  from m(3) obtain cid raw' status entries entry where c: "parseHandle raw = Inr (PlatformOAuthHandle cid raw')" "completeOptions options"
    "mat_platform mats (catalogRequest options) = PlatformReplies status (Some (JArr entries))" "replyOk status"
    "findConnection cid entries = PlatformOk (Some entry)" "subject = managedSubjectOf raw cid entry"
    unfolding resolved_managed by blast
  have [simp]: "ms_connectionId subject = cid" by (simp add: c(6) managedSubjectOf_def)
  from m(4) obtain status' body where t: "completeOptions tokenOptions"
    "mat_platform mats (materializeRequest tokenOptions cid) = PlatformReplies status' (Some body)" "replyOk status'"
    "jsonProperty ''access_token'' body = Some (Some (JStr (mt_accessToken token)))" "mt_accessToken token \<noteq> []"
    "mt_expiresAt token = parseExpiresAt (mat_dateOf mats) (get_or None (jsonProperty ''expires_at'' body))"
    unfolding materialized_managed by (metis \<open>ms_connectionId subject = cid\<close> materializedToken.select_convs(3))
  show ?r using m(1,2,5,6) c(1-5) t by auto
next
  assume ?r
  then obtain options tokenOptions cid raw' status entries entry status' body where
    "mat_managedSubjectOptions mats = Some options" "mat_managedMaterializerOptions mats = Some tokenOptions"
    and c: "completeOptions options" "completeOptions tokenOptions" "parseHandle raw = Inr (PlatformOAuthHandle cid raw')"
      "mat_platform mats (catalogRequest options) = PlatformReplies status (Some (JArr entries))" "replyOk status"
      "findConnection cid entries = PlatformOk (Some entry)"
    and t: "mat_platform mats (materializeRequest tokenOptions cid) = PlatformReplies status' (Some body)" "replyOk status'"
      "jsonProperty ''access_token'' body = Some (Some (JStr (mc_value credential)))" "mc_value credential \<noteq> []"
    and eq: "credential = \<lparr>mc_value = mc_value credential, mc_handleType = PlatformOAuth,
          mc_expiresAt = parseExpiresAt (mat_dateOf mats) (get_or None (jsonProperty ''expires_at'' body)),
          mc_injectionTemplates = None\<rparr>" "secrets = [mc_value credential]"
    by blast
  have r: "resolveManagedSubject (handleErrorText raw) (mat_platform mats) options raw = PlatformOk (managedSubjectOf raw cid entry)"
    unfolding resolved_managed using c by blast
  have "ms_connectionId (managedSubjectOf raw cid entry) = cid" by (simp add: managedSubjectOf_def)
  with c(2) t have "\<exists>token. materializeManagedToken (mat_dateOf mats) (mat_platform mats) tokenOptions (managedSubjectOf raw cid entry) = PlatformOk token \<and>
      mt_accessToken token = mc_value credential \<and>
      mt_expiresAt token = parseExpiresAt (mat_dateOf mats) (get_or None (jsonProperty ''expires_at'' body))"
    unfolding materialized_managed
    by (intro exI [of _ "\<lparr>mt_accessToken = mc_value credential,
          mt_tokenType = nullish (JStr ''Bearer'') (get_or None (jsonProperty ''token_type'' body)),
          mt_expiresAt = parseExpiresAt (mat_dateOf mats) (get_or None (jsonProperty ''expires_at'' body)),
          mt_provider = ms_provider (managedSubjectOf raw cid entry), mt_connectionId = cid\<rparr>"]) simp
  then show ?l
    using \<open>mat_managedSubjectOptions mats = _\<close> \<open>mat_managedMaterializerOptions mats = _\<close> r eq
    by (auto simp: materialiseManaged_def)
qed

end
