(* ===== verification/Executor_Witnesses.thy ===== *)
theory Executor_Witnesses
  imports Executor_Properties
begin

text \<open>
  The executor at a concrete request: an API key that is injected as a query parameter, a standing
  approval for \<open>/users/{:num}\<close>, a first answer that redirects inside the template and a second one
  that echoes the key.
\<close>

section \<open>The scenario\<close>

definition demoKey :: string where
  "demoKey = ''sk-0123456789''"

definition demoHandle :: string where
  "demoHandle = ''local_static:svc/key''"

definition demoLibrary :: urlLibrary where
  "demoLibrary = \<lparr>ul_parse = demoParser, ul_resolve = (\<lambda>location base. Some location),
     ul_setParam = (\<lambda>url name v. Some (url @ ''?'' @ name @ ''='' @ v))\<rparr>"

definition demoMetadata :: staticCredentialRecord where
  "demoMetadata = \<lparr>scr_credentialId = ''1'', scr_service = ''svc'', scr_field = ''key'',
     scr_allowedTools = Some [''make_authenticated_request''], scr_allowedDomains = None, scr_usageDescription = None,
     scr_alias = None,
     scr_injectionTemplates = Some [\<lparr>it_hostPattern = ''*.example'', it_injectionType = QueryInjection, it_headerName = None,
       it_valuePrefix = None, it_queryParamName = None\<rparr>],
     scr_createdAt = 0, scr_updatedAt = 0\<rparr>"

definition demoCredential :: materialisedCredential where
  "demoCredential = \<lparr>mc_value = demoKey, mc_handleType = LocalStatic, mc_expiresAt = None,
     mc_injectionTemplates = scr_injectionTemplates demoMetadata\<rparr>"

definition demoMaterialisers :: materialisers where
  "demoMaterialisers = \<lparr>mat_subjects = \<lparr>lsd_metadataStore = (\<lambda>s f. Some demoMetadata), lsd_oauthConnections = Map.empty\<rparr>,
     mat_reads = (\<lambda>subject. noReads\<lparr>rd_secret := Some demoKey\<rparr>), mat_managedSubjectOptions = None,
     mat_managedMaterializerOptions = None, mat_platform = (\<lambda>r. PlatformThrows []), mat_dateOf = (\<lambda>v. None)\<rparr>"

definition demoLink :: string where
  "demoLink = ''https://api.example/users?page=2&api_key='' @ demoKey"

definition demoReply :: "nat \<Rightarrow> fetchReply" where
  "demoReply i =
     (if i = 0 then FetchReply 302 [(''location'', ''https://api.example/users/77?q=1'')] []
      else FetchReply 200 [(''link'', demoLink), (''set-cookie'', ''id=1'')] (points (''key='' @ demoKey)))"

definition demoWorld :: world where
  "demoWorld = \<lparr>w_now = (\<lambda>i. 10), w_others = (\<lambda>i cs. cs), w_fetch = demoReply, w_sessionId = ''s'', w_auditId = ''a1'',
     w_auditNow = 11, w_auditOthers = (\<lambda>a. a), w_auditIo = True, w_thrownText = (\<lambda>e. ''''), w_urlErrorText = (\<lambda>u. '''')\<rparr>"

definition demoCall :: makeAuthenticatedRequest where
  "demoCall = \<lparr>mr_credentialHandle = demoHandle, mr_method = ''GET'', mr_url = ''https://api.example/users/42'',
     mr_headers = Some [(''accept'', ''text/plain'')], mr_body = None, mr_purpose = ''read'', mr_grantId = None,
     mr_conversationId = None\<rparr>"

definition demoStanding :: persistentGrant where
  "demoStanding = persistentGrantOf
     \<lparr>dec_proposal = HttpGrantProposal demoHandle ''GET'' ''https://api.example/users/42'' ''read''
        (Some [''https://api.example/users/{:num}'']),
      dec_proposalHash = ''hash'', dec_approved = True, dec_decidedBy = ''guardian'', dec_decidedAt = ''2025-01-01T00:00:00Z'',
      dec_reason = None, dec_ttl = None, dec_grantType = Some GrantAlways\<rparr> ''s'' 5"

definition demoExecutor :: executorState where
  "demoExecutor = \<lparr>ex_grants = demoState\<lparr>cs_persistent := \<lparr>ps_file = GrantsFile [demoStanding], ps_corrupt = False\<rparr>\<rparr>,
     ex_audit = AuditMissing\<rparr>"

definition demoRun :: execOutcome where
  "demoRun = executeAuthenticatedHttpRequest id demoLibrary demoMaterialisers demoWorld demoCall demoExecutor"

definition demoSecond :: execEvent where
  "demoSecond = FetchSent ''GET'' (''https://api.example/users/77?q=1?api_key='' @ demoKey) [(''accept'', ''text/plain'')] None"

definition demoDecisions :: "execEvent list" where
  "demoDecisions = butlast (snd (snd demoRun))"

lemma demo_policy:
  "fst (evaluateHttpPolicy id demoParser (policyRequestOf demoCall) 10 (ex_grants demoExecutor)) = Inr (PolicyAllowed ''hash'' PersistentSource)"
  by code_simp

lemma demo_loop:
  "(case performHttpRequest id demoLibrary demoWorld demoHandle demoCredential [(''accept'', ''text/plain'')] 0 ''GET''
        (buildAuthenticatedRequest demoLibrary ''https://api.example/users/42'' [(''accept'', ''text/plain'')] demoCredential)
        None (ex_grants demoExecutor) of
      (r, cs, log) \<Rightarrow> r = Inr \<lparr>raw_statusCode = 200, raw_headers = [(''link'', demoLink), (''set-cookie'', ''id=1'')],
         raw_body = points (''key='' @ demoKey)\<rparr> \<and> length log = 3 \<and> log ! 2 = demoSecond)"
  by code_simp

lemma demo_materialised:
  "parseHandle demoHandle = Inr (LocalStaticHandle ''svc'' ''key'' demoHandle)"
  "materialiseCredential demoMaterialisers LocalStatic demoHandle = MaterialiseSuccess demoCredential [demoKey]"
  by code_simp+

lemma demo_filtered:
  "filterHttpResponse \<lparr>raw_statusCode = 200, raw_headers = [(''link'', demoLink), (''set-cookie'', ''id=1'')],
      raw_body = points (''key='' @ demoKey)\<rparr> [points demoKey] =
   \<lparr>san_statusCode = 200, san_headers = [(''link'', demoLink)], san_body = points (''key='' @ REDACTED),
    san_truncated = False, san_originalBodyBytes = 17\<rparr>"
proof -
  have "scrubSecrets (points (''key='' @ demoKey)) [points demoKey] = points (''key='' @ REDACTED)"
    "filterResponseHeaders [(''link'', demoLink), (''set-cookie'', ''id=1'')] = [(''link'', demoLink)]" by code_simp+
  moreover have "clampBody (points (''key='' @ demoKey)) = (points (''key='' @ demoKey), False, 17)"
    by (simp add: clampBody_def byteLength_def points_def demoKey_def utf8Size_def MAX_BODY_BYTES_def)
  ultimately show ?thesis by (simp add: filterHttpResponse_def)
qed

lemma demo_run:
  obtains s' pre where
    "executeAuthenticatedHttpRequest id demoLibrary demoMaterialisers demoWorld demoCall demoExecutor =
      (Inr (ExecSuccess 200 [(''link'', demoLink)] (points (''key='' @ REDACTED)) ''a1''), s', pre @ [demoSecond])"
proof -
  let ?loop = "performHttpRequest id demoLibrary demoWorld demoHandle demoCredential [(''accept'', ''text/plain'')] 0 ''GET''
    (buildAuthenticatedRequest demoLibrary ''https://api.example/users/42'' [(''accept'', ''text/plain'')] demoCredential)
    None (ex_grants demoExecutor)"
  obtain r cs log where loop: "?loop = (r, cs, log)" by (metis prod_cases3)
  with demo_loop have r: "r = Inr \<lparr>raw_statusCode = 200, raw_headers = [(''link'', demoLink), (''set-cookie'', ''id=1'')],
      raw_body = points (''key='' @ demoKey)\<rparr>" and l: "length log = 3" "log ! 2 = demoSecond" by auto
  from l have log: "log = take 2 log @ [demoSecond]" using take_Suc_conv_app_nth [of 2 log] by simp
  have ev: "evaluateHttpPolicy id demoParser (policyRequestOf demoCall) 10 (ex_grants demoExecutor) =
      (Inr (PolicyAllowed ''hash'' PersistentSource), ex_grants demoExecutor)"
    using demo_policy allowed_covered [of id demoParser "policyRequestOf demoCall" 10 "ex_grants demoExecutor" "''hash''" PersistentSource]
    by (metis prod.collapse)
  have call: "mr_credentialHandle demoCall = demoHandle" "mr_method demoCall = ''GET''" "mr_url demoCall = ''https://api.example/users/42''"
    "get_or [] (mr_headers demoCall) = [(''accept'', ''text/plain'')]" "mr_body demoCall = None" "ul_parse demoLibrary = demoParser"
    "w_now demoWorld i = 10" "w_others demoWorld i = (\<lambda>cs. cs)" "w_auditId demoWorld = ''a1''" for i
    by (simp_all add: demoCall_def demoLibrary_def demoWorld_def)
  have "\<exists>s'. executeAuthenticatedHttpRequest id demoLibrary demoMaterialisers demoWorld demoCall demoExecutor =
      (Inr (ExecSuccess 200 [(''link'', demoLink)] (points (''key='' @ REDACTED)) ''a1''), s',
       (PolicyCheck (policyRequestOf demoCall) 10 (ex_grants demoExecutor) (PolicyAllowed ''hash'' PersistentSource) # take 2 log) @ [demoSecond])"
    unfolding executeAuthenticatedHttpRequest_def executeAllowed_def Let_def call
    using log by (simp add: demo_materialised ev loop r demo_filtered [simplified])
  with that show ?thesis by blast
qed

section \<open>The theorems in this scenario\<close>

theorem fetch_requires_grant_witness:
  "\<exists>r s' before check now cs gid source.
     executeAuthenticatedHttpRequest id demoLibrary demoMaterialisers demoWorld demoCall demoExecutor =
       (r, s', before @ [PolicyCheck check now cs (PolicyAllowed gid source), demoSecond]) \<and>
     coveredByGrant id demoParser check now cs gid source \<and> hr_credentialHandle check = demoHandle"
proof (rule demo_run)
  fix s' pre
  assume run: "executeAuthenticatedHttpRequest id demoLibrary demoMaterialisers demoWorld demoCall demoExecutor =
      (Inr (ExecSuccess 200 [(''link'', demoLink)] (points (''key='' @ REDACTED)) ''a1''), s', pre @ [demoSecond])"
  from fetch_requires_grant [OF this, of pre _ _ _ _ "[]"] show ?thesis
    unfolding run demoSecond_def by (fastforce simp: demoLibrary_def demoCall_def)
qed



section \<open>A key in a response header\<close>

text \<open>
  The values of the response headers on the whitelist are not scrubbed: a \<open>link\<close> header with the
  address of the next page returns a key that is injected as a query parameter.
\<close>

theorem link_header_returns_key:
  "\<exists>hs body i s' log v.
     executeAuthenticatedHttpRequest id demoLibrary demoMaterialisers demoWorld demoCall demoExecutor =
       (Inr (ExecSuccess 200 hs body i), s', log) \<and> (''link'', v) \<in> set hs \<and> sublist demoKey v"
proof (rule demo_run)
  fix s' pre
  assume run: "executeAuthenticatedHttpRequest id demoLibrary demoMaterialisers demoWorld demoCall demoExecutor =
      (Inr (ExecSuccess 200 [(''link'', demoLink)] (points (''key='' @ REDACTED)) ''a1''), s', pre @ [demoSecond])"
  have "sublist demoKey demoLink" unfolding demoLink_def sublist_def by (metis append_Nil2)
  with run show ?thesis by auto
qed

end
