(* ===== verification/Materialiser_Properties.thy ===== *)
theory Materialiser_Properties
  imports Local_Materialiser
begin

text \<open>
  The local materialiser under any interleaving: one refresh per connection at a time, answers that
  depend only on what the call read, and no call that waits for ever.
\<close>

section \<open>The invariant\<close>

definition liveJob :: "refreshJob \<Rightarrow> bool" where
  "liveJob job \<longleftrightarrow> (\<forall>r. jb_stage job \<noteq> JobFinished r)"

definition jobAt :: "(nat, refreshJob) js_Map \<Rightarrow> nat \<Rightarrow> string \<Rightarrow> bool" where
  "jobAt jobs j k \<longleftrightarrow> (\<exists>job. map_get jobs j = Some job \<and> jb_connection job = k \<and> liveJob job)"

definition jobsFiled :: "(nat, refreshJob) js_Map \<Rightarrow> (string, nat) js_Map \<Rightarrow> nat \<Rightarrow> bool" where
  "jobsFiled jobs inflight n \<longleftrightarrow>
     (\<forall>j job. map_get jobs j = Some job \<longrightarrow> j < n) \<and> (\<forall>k j. map_get inflight k = Some j \<longleftrightarrow> jobAt jobs j k)"

definition jobsOk :: "localMaterialiser \<Rightarrow> bool" where
  "jobsOk s \<longleftrightarrow> jobsFiled (lm_jobs s) (lm_inflight s) (lm_next s)"

text \<open>What is known of a call at each of its awaits.\<close>

definition readOk :: "readKind \<Rightarrow> materialiseCall \<Rightarrow> bool" where
  "readOk kind call \<longleftrightarrow>
     (case ca_subject call of
        ResolvedStaticSubject h m k \<Rightarrow> kind = SecretRead
      | ResolvedOAuthSubject h connection \<Rightarrow>
          kind = AccessRead \<or>
          kind = RefreshRead \<and>
            checkAccessToken connection (rd_access (ca_reads call)) (rd_now (ca_reads call)) = RefreshFirst \<and>
            refreshGate (rd_open (ca_reads call)) (rd_configured (ca_reads call)) (oc_id connection) = None)"

definition callOk :: "(nat, refreshJob) js_Map \<Rightarrow> materialiseCall \<Rightarrow> bool" where
  "callOk jobs call \<longleftrightarrow>
     (case ca_stage call of
        AwaitRead kind \<Rightarrow> readOk kind call
      | HasRead kind v \<Rightarrow> readOk kind call
      | AwaitJob j \<Rightarrow>
          (\<exists>h connection job. ca_subject call = ResolvedOAuthSubject h connection \<and> readOk RefreshRead call \<and>
             checkRefreshToken (oc_id connection) (rd_refreshToken (ca_reads call)) = None \<and>
             map_get jobs j = Some job \<and> jb_connection job = oc_id connection)
      | CallSettled r \<Rightarrow> r = materialise (ca_reads call) (ca_subject call))"

definition callsOk :: "localMaterialiser \<Rightarrow> bool" where
  "callsOk s \<longleftrightarrow> (\<forall>c call. map_get (lm_calls s) c = Some call \<longrightarrow> c < lm_next s \<and> callOk (lm_jobs s) call)"

definition lmInv :: "localMaterialiser \<Rightarrow> bool" where
  "lmInv s \<longleftrightarrow> jobsOk s \<and> callsOk s"

text \<open>Jobs stay filed under their id and connection.\<close>

definition jobsKept :: "(nat, refreshJob) js_Map \<Rightarrow> (nat, refreshJob) js_Map \<Rightarrow> bool" where
  "jobsKept m m' \<longleftrightarrow>
     (\<forall>j job. map_get m j = Some job \<longrightarrow> (\<exists>job'. map_get m' j = Some job' \<and> jb_connection job' = jb_connection job))"

lemma jobsKept_refl [simp]: "jobsKept m m"
  by (simp add: jobsKept_def)

lemma callOk_kept: "callOk m call \<Longrightarrow> jobsKept m m' \<Longrightarrow> callOk m' call"
  by (auto simp: callOk_def jobsKept_def split: callStage.splits) metis

lemma callsOk_set:
  assumes "callsOk s" "c < lm_next s'" "callOk (lm_jobs s') call"
    and "lm_calls s' = lm_calls s" "lm_next s \<le> lm_next s'" "jobsKept (lm_jobs s) (lm_jobs s')"
  shows "callsOk (setCall c call s')"
  using assms by (auto simp: callsOk_def setCall_def intro: callOk_kept dest: order_less_le_trans)

lemma callsOk_frame:
  assumes "callsOk s" "lm_calls s' = lm_calls s" "lm_next s' = lm_next s" "jobsKept (lm_jobs s) (lm_jobs s')"
  shows "callsOk s'"
  using assms by (auto simp: callsOk_def intro: callOk_kept)

lemma jobsFiled_later: "jobsFiled jobs inflight n \<Longrightarrow> n \<le> n' \<Longrightarrow> jobsFiled jobs inflight n'"
  by (auto simp: jobsFiled_def dest: order_less_le_trans)

lemma jobs_setCall [simp]: "jobsOk (setCall c call s) = jobsOk s"
  by (simp add: jobsOk_def setCall_def)

text \<open>A job that stays live, one that ends and a new one.\<close>

lemma jobsFiled_stage:
  assumes "jobsFiled jobs inflight n" "map_get jobs j = Some job" "liveJob job" "liveJob (job\<lparr>jb_stage := stage\<rparr>)"
  shows "jobsFiled (map_set j (job\<lparr>jb_stage := stage\<rparr>) jobs) inflight n"
proof -
  have "jobAt (map_set j (job\<lparr>jb_stage := stage\<rparr>) jobs) i k \<longleftrightarrow> jobAt jobs i k" for i k
    using assms(2-4) by (simp add: jobAt_def)
  then show ?thesis using assms(1,2) by (auto simp: jobsFiled_def)
qed

lemma jobsFiled_finish:
  assumes "jobsFiled jobs inflight n" "map_get jobs j = Some job" "liveJob job"
  shows "jobsFiled (map_set j (job\<lparr>jb_stage := JobFinished r\<rparr>) jobs) (map_delete (jb_connection job) inflight) n"
proof -
  have "jobAt jobs j (jb_connection job)" using assms(2,3) by (simp add: jobAt_def)
  then have one: "jobAt jobs i (jb_connection job) \<longleftrightarrow> i = j" for i using assms(1) unfolding jobsFiled_def by (metis option.inject)
  have "jobAt (map_set j (job\<lparr>jb_stage := JobFinished r\<rparr>) jobs) i k \<longleftrightarrow> jobAt jobs i k \<and> k \<noteq> jb_connection job" for i k
  proof (cases "i = j")
    case True
    with assms(2) show ?thesis by (auto simp: jobAt_def liveJob_def)
  next
    case False
    then have "jobAt (map_set j (job\<lparr>jb_stage := JobFinished r\<rparr>) jobs) i k \<longleftrightarrow> jobAt jobs i k" by (simp add: jobAt_def)
    with False one [of i] show ?thesis by auto
  qed
  then show ?thesis using assms(1,2) by (auto simp: jobsFiled_def)
qed

lemma job_unused: "jobsFiled jobs inflight n \<Longrightarrow> map_get jobs n = None"
  unfolding jobsFiled_def by (metis less_irrefl not_Some_eq)

lemma jobsFiled_new:
  assumes "jobsFiled jobs inflight n" "map_get inflight key = None"
  shows "jobsFiled (map_set n \<lparr>jb_connection = key, jb_stage = AwaitProvider\<rparr> jobs) (map_set key n inflight) (Suc n)"
proof -
  have "\<not> jobAt jobs i key" for i using assms unfolding jobsFiled_def by (metis option.distinct(1))
  moreover have "jobAt (map_set n \<lparr>jb_connection = key, jb_stage = AwaitProvider\<rparr> jobs) i k \<longleftrightarrow>
      (if i = n then k = key else jobAt jobs i k)" for i k by (auto simp: jobAt_def liveJob_def)
  moreover have "\<not> jobAt jobs n k" for k using job_unused [OF assms(1)] by (simp add: jobAt_def)
  ultimately show ?thesis using assms(1) by (auto simp: jobsFiled_def less_Suc_eq split: if_splits)
qed

lemma setJobStage_ok:
  assumes inv: "lmInv s" and job: "map_get (lm_jobs s) j = Some job"
    and live: "liveJob job" "\<nexists>r. stage = JobFinished r"
    and frame: "lm_jobs s' = lm_jobs s" "lm_inflight s' = lm_inflight s" "lm_calls s' = lm_calls s" "lm_next s' = lm_next s"
  shows "lmInv (setJobStage j job stage s')"
proof -
  have "liveJob (job\<lparr>jb_stage := stage\<rparr>)" using live(2) by (simp add: liveJob_def)
  then have "jobsOk (setJobStage j job stage s')"
    using inv job live(1) frame by (auto simp: lmInv_def jobsOk_def setJobStage_def intro!: jobsFiled_stage)
  moreover have "jobsKept (lm_jobs s) (lm_jobs (setJobStage j job stage s'))"
    using job frame(1) by (auto simp: jobsKept_def setJobStage_def)
  then have "callsOk (setJobStage j job stage s')"
    using inv frame by - (rule callsOk_frame [of s], auto simp: lmInv_def setJobStage_def)
  ultimately show ?thesis by (simp add: lmInv_def)
qed

lemma jobFinally_ok:
  assumes inv: "lmInv s" and job: "map_get (lm_jobs s) j = Some job" and live: "liveJob job"
  shows "lmInv (jobFinally j job outcome s)"
proof -
  have "jobsOk (jobFinally j job outcome s)"
    using assms by (auto simp: lmInv_def jobsOk_def jobFinally_def setJobStage_def intro!: jobsFiled_finish)
  moreover have "jobsKept (lm_jobs s) (lm_jobs (jobFinally j job outcome s))"
    using job by (auto simp: jobsKept_def jobFinally_def setJobStage_def)
  then have "callsOk (jobFinally j job outcome s)"
    using inv by - (rule callsOk_frame [of s], auto simp: lmInv_def jobFinally_def setJobStage_def)
  ultimately show ?thesis by (simp add: lmInv_def)
qed

lemma deduplicate_ok:
  assumes inv: "jobsOk s" and d: "deduplicate key token s = (j, s1)"
  shows "jobsOk s1 \<and> jobsKept (lm_jobs s) (lm_jobs s1) \<and> lm_calls s1 = lm_calls s \<and> lm_next s \<le> lm_next s1 \<and>
    (\<exists>job. map_get (lm_jobs s1) j = Some job \<and> jb_connection job = key)"
proof (cases "map_get (lm_inflight s) key")
  case None
  with inv d have "jobsOk s1" by (auto simp: jobsOk_def deduplicate_def jobsFiled_new)
  then show ?thesis using d None job_unused [OF inv [unfolded jobsOk_def]] by (auto simp: deduplicate_def jobsKept_def)
next
  case (Some i)
  with inv have "jobAt (lm_jobs s) i key" by (simp add: jobsOk_def jobsFiled_def)
  with Some inv d show ?thesis by (auto simp: deduplicate_def jobAt_def)
qed

section \<open>Every step keeps it\<close>

lemma setCall_ok:
  assumes "lmInv s" "c < lm_next s" "callOk (lm_jobs s) call"
    and "lm_calls s' = lm_calls s" "lm_next s' = lm_next s" "lm_jobs s' = lm_jobs s" "lm_inflight s' = lm_inflight s"
  shows "lmInv (setCall c call s')"
  using assms callsOk_set [of s c s' call] by (simp add: lmInv_def jobsOk_def setCall_def)

lemma call_known: "lmInv s \<Longrightarrow> map_get (lm_calls s) c = Some call \<Longrightarrow> c < lm_next s \<and> callOk (lm_jobs s) call"
  by (simp add: lmInv_def callsOk_def)

lemma begin_ok:
  assumes "lmInv s"
  shows "lmInv (beginMaterialise subject s)"
proof -
  let ?s = "s\<lparr>lm_next := Suc (lm_next s)\<rparr>"
  let ?call = "\<lparr>ca_subject = subject, ca_reads = noReads,
    ca_stage = AwaitRead (case subject of ResolvedStaticSubject h m k \<Rightarrow> SecretRead | ResolvedOAuthSubject h c \<Rightarrow> AccessRead)\<rparr>"
  have "callOk (lm_jobs ?s) ?call" by (cases subject) (auto simp: callOk_def readOk_def)
  then have "callsOk (setCall (lm_next s) ?call ?s)" using assms callsOk_set [of s "lm_next s" ?s ?call] by (simp add: lmInv_def)
  moreover have "jobsOk ?s" using assms by (auto simp: lmInv_def jobsOk_def intro: jobsFiled_later)
  ultimately show ?thesis by (simp add: lmInv_def beginMaterialise_def)
qed

lemma read_ok:
  assumes "lmInv s" "map_get (lm_calls s) c = Some call" "ca_stage call = AwaitRead kind"
  shows "lmInv (setCall c (call\<lparr>ca_stage := HasRead kind v\<rparr>) s)"
  using assms call_known [OF assms(1,2)] by (intro setCall_ok) (auto simp: callOk_def readOk_def split: resolvedLocalSubject.splits)

lemma continueSecret_ok:
  assumes "lmInv s" "map_get (lm_calls s) c = Some call" "ca_stage call = HasRead SecretRead v"
  shows "lmInv (continueSecret c call v s)"
  using assms call_known [OF assms(1,2)]
  by (auto simp: continueSecret_def callOk_def readOk_def intro!: setCall_ok split: resolvedLocalSubject.splits)

lemma continueAccess_ok:
  assumes "lmInv s" "map_get (lm_calls s) c = Some call" "ca_stage call = HasRead AccessRead v"
  shows "lmInv (continueAccess c call v now s)"
proof (cases "ca_subject call")
  case (ResolvedOAuthSubject h connection)
  have c: "c < lm_next s" using call_known [OF assms(1,2)] by simp
  show ?thesis
  proof (cases "checkAccessToken connection v now")
    case (AnswerNow r)
    with ResolvedOAuthSubject c assms show ?thesis
      by (auto simp: continueAccess_def callOk_def materialiseOAuth_def Let_def intro!: setCall_ok)
  next
    case RefreshFirst
    obtain opened breaker where o: "isOpen (oc_id connection) now (lm_breaker s) = (opened, breaker)" by fastforce
    show ?thesis
      using ResolvedOAuthSubject c assms RefreshFirst o
      by (auto simp: continueAccess_def callOk_def readOk_def materialiseOAuth_def Let_def intro!: setCall_ok split: option.splits)
  qed
qed (use assms in \<open>simp add: continueAccess_def\<close>)

lemma continueRefresh_ok:
  assumes "lmInv s" "map_get (lm_calls s) c = Some call" "ca_stage call = HasRead RefreshRead v"
  shows "lmInv (continueRefresh c call v s)"
proof (cases "ca_subject call")
  case (ResolvedOAuthSubject h connection)
  have k: "c < lm_next s" "readOk RefreshRead call" using call_known [OF assms(1,2)] assms(3) by (auto simp: callOk_def)
  show ?thesis
  proof (cases "checkRefreshToken (oc_id connection) v")
    case (Some e)
    with ResolvedOAuthSubject k assms show ?thesis
      by (auto simp: continueRefresh_def callOk_def readOk_def materialiseOAuth_def Let_def intro!: setCall_ok)
  next
    case None
    obtain j s1 where d: "deduplicate (oc_id connection) (the v) s = (j, s1)" by fastforce
    note ok = deduplicate_ok [OF _ d]
    let ?call = "call\<lparr>ca_reads := (ca_reads call)\<lparr>rd_refreshToken := v\<rparr>, ca_stage := AwaitJob j\<rparr>"
    have "callOk (lm_jobs s1) ?call"
      using ok assms(1) ResolvedOAuthSubject k(2) None by (auto simp: callOk_def readOk_def lmInv_def)
    then have "callsOk (setCall c ?call s1)"
      using ok assms(1) k(1) by (intro callsOk_set [of s]) (auto simp: lmInv_def)
    then show ?thesis
      using ok assms(1) ResolvedOAuthSubject None d by (simp add: continueRefresh_def lmInv_def Let_def)
  qed
qed (use assms in \<open>simp add: continueRefresh_def\<close>)

lemma continueJob_ok:
  assumes "lmInv s" "map_get (lm_calls s) c = Some call" "ca_stage call = AwaitJob j"
  shows "lmInv (continueJob c call outcome s)"
  using assms call_known [OF assms(1,2)]
  by (auto simp: continueJob_def callOk_def readOk_def materialiseOAuth_def intro!: setCall_ok)

lemma job_step_ok:
  assumes "lmInv s" "map_get (lm_jobs s) j = Some job"
  shows "jb_stage job = AwaitProvider \<Longrightarrow> lmInv (providerAnswers j job reply now s)"
    and "jb_stage job = AwaitSetAccess a r \<Longrightarrow> lmInv (accessStored j job ok a r s)"
    and "jb_stage job = AwaitSetRefresh a b \<Longrightarrow> lmInv (refreshStored j job ok a b s)"
    and "jb_stage job = JobSettled outcome \<Longrightarrow> lmInv (jobFinally j job outcome s)"
  using assms
  by (auto simp: providerAnswers_def accessStored_def refreshStored_def liveJob_def
      intro!: setJobStage_ok [OF assms] jobFinally_ok split: refreshReply.splits prod.splits)

lemma materialiser_inv:
  assumes "lmInv s" "materialiserStep e s = Some s'"
  shows "lmInv s'"
proof (cases e)
  case (Begin subject)
  with assms show ?thesis by (auto intro: begin_ok)
next
  case (BackendRead c)
  with assms show ?thesis by (auto intro: read_ok split: option.splits callStage.splits)
next
  case (ContinueCall c now)
  with assms obtain call where call: "map_get (lm_calls s) c = Some call" "callStep c now s call = Some s'"
    by (auto simp: bind_eq_Some_conv)
  with assms(1) show ?thesis
    by (auto simp: callStep_def split: callStage.splits readKind.splits option.splits jobStage.splits
        intro: continueSecret_ok continueAccess_ok continueRefresh_ok continueJob_ok)
next
  case (ProviderReplies j reply now)
  with assms show ?thesis by (auto intro: job_step_ok split: option.splits if_splits)
next
  case (BackendStored j ok)
  with assms show ?thesis by (auto intro: job_step_ok split: option.splits jobStage.splits)
next
  case (Finalise j)
  with assms show ?thesis by (auto intro: job_step_ok split: option.splits jobStage.splits)
next
  case (KeyChanged key v)
  with assms show ?thesis by (auto simp: lmInv_def jobsOk_def callsOk_def)
qed

interpretation lm: step_system "\<lambda>e s. get_or s (materialiserStep e s)" "\<lambda>e s. materialiserStep e s \<noteq> None" lmInv
  by unfold_locales (auto intro: materialiser_inv)

lemma materialiser_run_inv: "materialiserRun es s = Some s' \<Longrightarrow> lmInv s \<Longrightarrow> lmInv s'"
proof (induction es arbitrary: s)
  case (Cons e es)
  then obtain s1 where "materialiserStep e s = Some s1" "materialiserRun es s1 = Some s'" by (auto simp: bind_eq_Some_conv)
  with Cons.IH [of s1] lm.step_inv [of s e] Cons.prems(2) show ?case by simp
qed simp

lemma reached_inv:
  assumes "materialiserRun es (newLocalMaterialiser configured keys) = Some s"
  shows "lmInv s"
proof -
  have "lmInv (newLocalMaterialiser configured keys)"
    by (simp add: lmInv_def jobsOk_def jobsFiled_def callsOk_def newLocalMaterialiser_def jobAt_def)
  with assms show ?thesis by (rule materialiser_run_inv)
qed

section \<open>One refresh at a time\<close>

lemma sent_setCall [simp]: "lm_sent (setCall c call s) = lm_sent s"
  by (simp add: setCall_def)

lemma sent_setJobStage [simp]: "lm_sent (setJobStage j job stage s) = lm_sent s"
  by (simp add: setJobStage_def)

lemma sent_only_continue:
  assumes "materialiserStep e s = Some s'" "lm_sent s' \<noteq> lm_sent s"
  obtains c now call v where "e = ContinueCall c now" "map_get (lm_calls s) c = Some call" "ca_stage call = HasRead RefreshRead v"
    "s' = continueRefresh c call v s"
proof (cases e)
  case (ContinueCall c now)
  with assms obtain call where call: "map_get (lm_calls s) c = Some call" "callStep c now s call = Some s'"
    by (auto simp: bind_eq_Some_conv)
  have "lm_sent (continueSecret c call v s) = lm_sent s" "lm_sent (continueAccess c call v now s) = lm_sent s"
    "lm_sent (continueJob c call r s) = lm_sent s" for v r
    by (auto simp: continueSecret_def continueAccess_def continueJob_def Let_def
        split: resolvedLocalSubject.splits oauthDecision.splits prod.splits option.splits)
  with call(2) assms(2) obtain v where "ca_stage call = HasRead RefreshRead v" "s' = continueRefresh c call v s"
    by (auto simp: callStep_def split: callStage.splits readKind.splits option.splits jobStage.splits)
  with ContinueCall call(1) show ?thesis by (rule that)
qed (use assms in \<open>auto simp: beginMaterialise_def providerAnswers_def accessStored_def refreshStored_def jobFinally_def
      split: option.splits callStage.splits if_splits jobStage.splits refreshReply.splits prod.splits\<close>)


section \<open>Answers\<close>

text \<open>
  Whatever runs in between, a call answers as the sequential function \<open>materialise\<close> does on what
  the call itself read; and while it waits for a refresh, that refresh exists and is one of its own
  connection.
\<close>

theorem materialise_answers:
  assumes "materialiserRun es (newLocalMaterialiser configured keys) = Some s" "map_get (lm_calls s) c = Some call"
  shows "(\<forall>r. ca_stage call = CallSettled r \<longrightarrow> r = materialise (ca_reads call) (ca_subject call)) \<and>
    (\<forall>j. ca_stage call = AwaitJob j \<longrightarrow>
       (\<exists>h connection job. ca_subject call = ResolvedOAuthSubject h connection \<and> map_get (lm_jobs s) j = Some job \<and>
          jb_connection job = oc_id connection))"
  using call_known [OF reached_inv [OF assms(1)] assms(2)] by (auto simp: callOk_def)

section \<open>Progress\<close>

fun internalEvent :: "materialiserEvent \<Rightarrow> bool" where
  "internalEvent (Begin subject) = False"
| "internalEvent (KeyChanged key v) = False"
| "internalEvent _ = True"

fun readWork :: "readKind \<Rightarrow> nat" where
  "readWork SecretRead = 1"
| "readWork AccessRead = 8"
| "readWork RefreshRead = 6"

fun callWork :: "callStage \<Rightarrow> nat" where
  "callWork (AwaitRead kind) = Suc (readWork kind)"
| "callWork (HasRead kind v) = readWork kind"
| "callWork (AwaitJob j) = 1"
| "callWork (CallSettled r) = 0"

fun jobWork :: "jobStage \<Rightarrow> nat" where
  "jobWork AwaitProvider = 4"
| "jobWork (AwaitSetAccess a r) = 3"
| "jobWork (AwaitSetRefresh a r) = 2"
| "jobWork (JobSettled r) = 1"
| "jobWork (JobFinished r) = 0"

definition materialiserWork :: "localMaterialiser \<Rightarrow> nat" where
  "materialiserWork s =
     sum_list (map (\<lambda>call. callWork (ca_stage call)) (map_values (lm_calls s))) +
     sum_list (map (\<lambda>job. jobWork (jb_stage job)) (map_values (lm_jobs s)))"

lemma sum_values_new:
  fixes f :: "'v \<Rightarrow> nat"
  shows "map_get m k = None \<Longrightarrow> sum_list (map f (map_values (map_set k v m))) = sum_list (map f (map_values m)) + f v"
  by (induction m) (auto simp: map_values_def)

lemma work_setCall:
  assumes "map_get (lm_calls s) c = Some old" "lm_calls s' = lm_calls s" "lm_jobs s' = lm_jobs s"
  shows "materialiserWork (setCall c call s') + callWork (ca_stage old) = materialiserWork s + callWork (ca_stage call)"
  using sum_values_set [OF assms(1), of "\<lambda>call. callWork (ca_stage call)" call] assms(2,3)
  by (simp add: materialiserWork_def setCall_def)

lemma work_setJobStage:
  assumes "map_get (lm_jobs s) j = Some job" "lm_calls s' = lm_calls s" "lm_jobs s' = lm_jobs s"
  shows "materialiserWork (setJobStage j job stage s') + jobWork (jb_stage job) = materialiserWork s + jobWork stage"
  using sum_values_set [OF assms(1), of "\<lambda>job. jobWork (jb_stage job)" "job\<lparr>jb_stage := stage\<rparr>"] assms(2,3)
  by (simp add: materialiserWork_def setJobStage_def)

lemma work_deduplicate:
  assumes "jobsOk s" "deduplicate key token s = (j, s1)"
  shows "materialiserWork s1 \<le> materialiserWork s + 4"
  using assms sum_values_new [OF job_unused [OF assms(1) [unfolded jobsOk_def]]]
  by (auto simp: deduplicate_def materialiserWork_def split: option.splits)

lemma work_setCall_less:
  assumes "map_get (lm_calls s) c = Some old" "callWork (ca_stage call) < callWork (ca_stage old)"
    and "lm_calls s' = lm_calls s" "lm_jobs s' = lm_jobs s"
  shows "materialiserWork (setCall c call s') < materialiserWork s"
  using work_setCall [OF assms(1,3,4), of call] assms(2) by linarith

lemma work_setJobStage_less:
  assumes "map_get (lm_jobs s) j = Some job" "jobWork stage < jobWork (jb_stage job)"
    and "lm_calls s' = lm_calls s" "lm_jobs s' = lm_jobs s"
  shows "materialiserWork (setJobStage j job stage s') < materialiserWork s"
  using work_setJobStage [OF assms(1,3,4), of stage] assms(2) by linarith

lemma work_continueRefresh:
  assumes "lmInv s" "map_get (lm_calls s) c = Some call" "ca_stage call = HasRead RefreshRead v"
    and sub: "ca_subject call = ResolvedOAuthSubject h connection"
  shows "materialiserWork (continueRefresh c call v s) < materialiserWork s"
proof (cases "checkRefreshToken (oc_id connection) v")
  case (Some e)
  with assms show ?thesis by (auto simp: continueRefresh_def Let_def intro!: work_setCall_less)
next
  case None
  obtain j s1 where d: "deduplicate (oc_id connection) (the v) s = (j, s1)" by fastforce
  have jobs: "jobsOk s" using assms(1) by (simp add: lmInv_def)
  let ?call = "call\<lparr>ca_reads := (ca_reads call)\<lparr>rd_refreshToken := v\<rparr>, ca_stage := AwaitJob j\<rparr>"
  have "materialiserWork (setCall c ?call s1) + 6 = materialiserWork s1 + 1"
    using work_setCall [of s1 c call s1 ?call] deduplicate_ok [OF jobs d] assms(2,3) by simp
  with work_deduplicate [OF jobs d] have "materialiserWork (setCall c ?call s1) < materialiserWork s" by linarith
  with sub None d show ?thesis by (simp add: continueRefresh_def Let_def)
qed

lemma work_call:
  assumes "lmInv s" "map_get (lm_calls s) c = Some call" "callStep c now s call = Some s'"
  shows "materialiserWork s' < materialiserWork s"
proof -
  have ok: "callOk (lm_jobs s) call" using call_known [OF assms(1,2)] by simp
  show ?thesis
  proof (cases "ca_stage call")
    case (HasRead kind v)
    with ok have rd: "readOk kind call" by (simp add: callOk_def)
    show ?thesis
    proof (cases "ca_subject call")
      case (ResolvedStaticSubject h m k)
      with rd HasRead assms(2,3) show ?thesis
        by (auto simp: readOk_def callStep_def continueSecret_def intro!: work_setCall_less)
    next
      case (ResolvedOAuthSubject h connection)
      with rd have "kind = AccessRead \<or> kind = RefreshRead" by (auto simp: readOk_def)
      then show ?thesis
      proof
        assume "kind = AccessRead"
        with HasRead ResolvedOAuthSubject assms(2,3) show ?thesis
          by (auto simp: callStep_def continueAccess_def Let_def intro!: work_setCall_less
              split: oauthDecision.splits prod.splits option.splits)
      next
        assume "kind = RefreshRead"
        with HasRead ResolvedOAuthSubject assms show ?thesis by (auto simp: callStep_def intro!: work_continueRefresh)
      qed
    qed
  next
    case (AwaitJob j)
    with ok assms(2,3) show ?thesis
      by (auto simp: callOk_def callStep_def continueJob_def intro!: work_setCall_less split: option.splits jobStage.splits)
  qed (use assms(3) in \<open>auto simp: callStep_def\<close>)
qed

lemma internal_work:
  assumes "lmInv s" "internalEvent e" "materialiserStep e s = Some s'"
  shows "materialiserWork s' < materialiserWork s"
proof (cases e)
  case (ContinueCall c now)
  with assms work_call [OF assms(1)] show ?thesis by (auto simp: bind_eq_Some_conv)
qed (use assms in \<open>auto simp: providerAnswers_def accessStored_def refreshStored_def jobFinally_def
      intro!: work_setCall_less work_setJobStage_less
      split: option.splits callStage.splits if_splits jobStage.splits refreshReply.splits prod.splits\<close>)

text \<open>What is left when no internal event is possible.\<close>

lemma job_progress:
  assumes "map_get (lm_jobs s) j = Some job" "liveJob job"
  shows "\<exists>e. internalEvent e \<and> materialiserStep e s \<noteq> None"
proof (cases "jb_stage job")
  case AwaitProvider
  with assms have "materialiserStep (ProviderReplies j (RefreshThrows []) 0) s \<noteq> None" by simp
  then show ?thesis using internalEvent.simps by blast
next
  case (JobSettled r)
  with assms have "materialiserStep (Finalise j) s \<noteq> None" by simp
  then show ?thesis using internalEvent.simps by blast
next
  case (JobFinished r)
  with assms(2) show ?thesis by (simp add: liveJob_def)
next
  case (AwaitSetAccess a r)
  with assms have "materialiserStep (BackendStored j True) s \<noteq> None" by simp
  then show ?thesis using internalEvent.simps by blast
next
  case (AwaitSetRefresh a r)
  with assms have "materialiserStep (BackendStored j True) s \<noteq> None" by simp
  then show ?thesis using internalEvent.simps by blast
qed

lemma call_progress:
  assumes inv: "lmInv s" and call: "map_get (lm_calls s) c = Some call" and "\<nexists>r. ca_stage call = CallSettled r"
  shows "\<exists>e. internalEvent e \<and> materialiserStep e s \<noteq> None"
proof (cases "ca_stage call")
  case (AwaitRead kind)
  with call have "materialiserStep (BackendRead c) s \<noteq> None" by simp
  then show ?thesis using internalEvent.simps by blast
next
  case (HasRead kind v)
  with call have "materialiserStep (ContinueCall c 0) s \<noteq> None" by (cases kind) (auto simp: callStep_def)
  then show ?thesis using internalEvent.simps by blast
next
  case (AwaitJob j)
  then obtain job where job: "map_get (lm_jobs s) j = Some job" using call_known [OF inv call] by (auto simp: callOk_def)
  show ?thesis
  proof (cases "liveJob job")
    case True
    with job show ?thesis by (rule job_progress)
  next
    case False
    with call job AwaitJob have "materialiserStep (ContinueCall c 0) s \<noteq> None" by (auto simp: callStep_def liveJob_def)
    then show ?thesis using internalEvent.simps by blast
  qed
qed (use assms(3) in auto)

text \<open>
  C25: no call waits for ever. In every reachable state, as long as a call has not settled or a
  refresh has not finished, some read, reply, write or continuation is possible; each of them lowers
  the work left, which new calls alone can raise. So after finitely many of them every call has its
  answer.
\<close>

theorem materialise_settles:
  assumes "materialiserRun es (newLocalMaterialiser configured keys) = Some s"
  shows "((\<exists>c call. map_get (lm_calls s) c = Some call \<and> (\<forall>r. ca_stage call \<noteq> CallSettled r)) \<or>
     (\<exists>j job. map_get (lm_jobs s) j = Some job \<and> (\<forall>r. jb_stage job \<noteq> JobFinished r)) \<longrightarrow>
       (\<exists>e. internalEvent e \<and> materialiserStep e s \<noteq> None)) \<and>
    (\<forall>e s'. internalEvent e \<longrightarrow> materialiserStep e s = Some s' \<longrightarrow> materialiserWork s' < materialiserWork s) \<and>
    (\<forall>key v s'. materialiserStep (KeyChanged key v) s = Some s' \<longrightarrow> materialiserWork s' = materialiserWork s)"
proof (intro conjI allI impI)
  have inv: "lmInv s" by (rule reached_inv [OF assms])
  then show "materialiserWork s' < materialiserWork s" if "internalEvent e" "materialiserStep e s = Some s'" for e s'
    using that by (rule internal_work)
  show "materialiserWork s' = materialiserWork s" if "materialiserStep (KeyChanged key v) s = Some s'" for key v s'
    using that by (auto simp: materialiserWork_def)
  assume "(\<exists>c call. map_get (lm_calls s) c = Some call \<and> (\<forall>r. ca_stage call \<noteq> CallSettled r)) \<or>
     (\<exists>j job. map_get (lm_jobs s) j = Some job \<and> (\<forall>r. jb_stage job \<noteq> JobFinished r))"
  then show "\<exists>e. internalEvent e \<and> materialiserStep e s \<noteq> None"
    using call_progress [OF inv] job_progress [of s] unfolding liveJob_def by blast
qed

section \<open>A concrete connection\<close>

definition demoConnection :: oAuthConnectionRecord where
  "demoConnection = \<lparr>oc_id = ''c'', oc_providerKey = ''google'', oc_accountInfo = None, oc_grantedScopes = [],
     oc_accessTokenPath = ''oauth_connection/c/access_token'', oc_hasRefreshToken = True, oc_expiresAt = Some 100,
     oc_createdAt = 0, oc_updatedAt = 0\<rparr>"

definition demoSubject :: resolvedLocalSubject where
  "demoSubject = ResolvedOAuthSubject (LocalOAuthHandle ''google'' ''c'' ''local_oauth:google/c'') demoConnection"

definition demoMaterialiser :: localMaterialiser where
  "demoMaterialiser = newLocalMaterialiser True
     [(''oauth_connection/c/access_token'', ''a0''), (''oauth_connection/c/refresh_token'', ''r0'')]"

text \<open>Two calls find the token expired; the second joins the refresh of the first.\<close>

definition demoBefore :: "materialiserEvent list" where
  "demoBefore = [Begin demoSubject, Begin demoSubject, BackendRead 0, BackendRead 1, ContinueCall 0 200, ContinueCall 1 200,
     BackendRead 0, BackendRead 1]"

definition demoAfter :: "materialiserEvent list" where
  "demoAfter = [ContinueCall 1 200, ProviderReplies 2 (RefreshSucceeds ''a1'' (Some 4000000) (Some ''r1'')) 300, BackendStored 2 True,
     BackendStored 2 True, Finalise 2, ContinueCall 1 300, ContinueCall 0 300]"

definition demoAt :: "materialiserEvent list \<Rightarrow> localMaterialiser" where
  "demoAt es = the (materialiserRun es demoMaterialiser)"

lemma demo_runs:
  "materialiserRun demoBefore demoMaterialiser \<noteq> None"
  "materialiserRun (demoBefore @ ContinueCall 0 200 # demoAfter) demoMaterialiser \<noteq> None"
  "map_option lm_sent (materialiserStep (ContinueCall 0 200) (demoAt demoBefore)) = Some [(''c'', ''r0'')]"
  "lm_sent (demoAt demoBefore) = []"
  "lm_sent (demoAt (demoBefore @ ContinueCall 0 200 # demoAfter)) = [(''c'', ''r0'')]"
  "map_option ca_stage (map_get (lm_calls (demoAt (demoBefore @ ContinueCall 0 200 # demoAfter))) 1) =
     Some (CallSettled (Inr \<lparr>mc_value = ''a1'', mc_handleType = LocalOAuth, mc_expiresAt = None, mc_injectionTemplates = None\<rparr>))"
  "materialiserWork (demoAt demoBefore) = 12"
  by code_simp+

lemma demo_reached: "materialiserRun es demoMaterialiser \<noteq> None \<Longrightarrow> materialiserRun es demoMaterialiser = Some (demoAt es)"
  by (simp add: demoAt_def)


theorem materialise_answers_witness:
  "\<exists>call r. map_get (lm_calls (demoAt (demoBefore @ ContinueCall 0 200 # demoAfter))) 1 = Some call \<and>
     ca_stage call = CallSettled (Inr r) \<and> mc_value r = ''a1'' \<and> Inr r = materialise (ca_reads call) (ca_subject call)"
proof -
  obtain call where call: "map_get (lm_calls (demoAt (demoBefore @ ContinueCall 0 200 # demoAfter))) 1 = Some call"
    "ca_stage call = CallSettled (Inr \<lparr>mc_value = ''a1'', mc_handleType = LocalOAuth, mc_expiresAt = None, mc_injectionTemplates = None\<rparr>)"
    using demo_runs(6) by blast
  moreover from this have "Inr \<lparr>mc_value = ''a1'', mc_handleType = LocalOAuth, mc_expiresAt = None, mc_injectionTemplates = None\<rparr> =
      materialise (ca_reads call) (ca_subject call)"
    using materialise_answers [OF demo_reached [OF demo_runs(2), unfolded demoMaterialiser_def]] by blast
  ultimately show ?thesis by (intro exI [of _ call] exI conjI) auto
qed

theorem materialise_settles_witness:
  "\<exists>e s'. internalEvent e \<and> materialiserStep e (demoAt demoBefore) = Some s' \<and> materialiserWork s' < 12"
proof -
  obtain s' where s': "materialiserStep (ContinueCall 0 200) (demoAt demoBefore) = Some s'" using demo_runs(3) by blast
  have "\<forall>e s'. internalEvent e \<longrightarrow> materialiserStep e (demoAt demoBefore) = Some s' \<longrightarrow> materialiserWork s' < 12"
    using materialise_settles [OF demo_reached [OF demo_runs(1), unfolded demoMaterialiser_def]] demo_runs(7) by metis
  with s' show ?thesis using internalEvent.simps by blast
qed

text \<open>
  The new expiry is not kept: the record of the connection still says that the token is expired, so
  the next call refreshes again, however long the new token is valid.
\<close>

theorem refresh_repeats:
  "lm_sent (demoAt (demoBefore @ ContinueCall 0 200 # demoAfter @
     [Begin demoSubject, BackendRead 3, ContinueCall 3 301, BackendRead 3, ContinueCall 3 301])) = [(''c'', ''r0''), (''c'', ''r1'')]"
  by code_simp

end
