(* ===== verification/Provider_Refresh.thy ===== *)
theory Provider_Refresh
  imports Local_Materialiser Managed_Subjects
begin

text \<open>
  The refresh callback of local mode (credential-executor/src/materializers/local-token-refresh.ts):
  the configuration of the provider from the assistant's database, the request to the token endpoint
  and its answer. The database and the endpoint are parameters: what the three queries return, and
  the reply to a request. The body of a request is the record of its fields, in either format.
\<close>

section \<open>Configuration\<close>

record oAuthConnectionRow =
  cr_id :: string
  cr_oauth_app_id :: string
  cr_provider_key :: string

record oAuthAppRow =
  apr_id :: string
  apr_provider_key :: string
  apr_client_id :: string
  apr_client_secret_credential_path :: string

record oAuthProviderRow =
  prr_provider_key :: string
  prr_token_url :: string
  prr_refresh_url :: "string option"
  prr_token_endpoint_auth_method :: "string option"
  prr_token_exchange_body_format :: "string option"

record refreshConfig =
  rc_tokenUrl :: string
  rc_clientId :: string
  rc_clientSecret :: "string option"
  rc_authMethod :: string
  rc_bodyFormat :: string

record assistantDb =
  db_connection :: "string \<Rightarrow> oAuthConnectionRow option"
  db_app :: "string \<Rightarrow> oAuthAppRow option"
  db_provider :: "string \<Rightarrow> oAuthProviderRow option"

datatype dbAccess = DbMissing | DbThrows string | DbOpen assistantDb

text \<open>\<open>secret\<close> is the read of the client secret, which may throw.\<close>

definition resolveRefreshConfig ::
    "string \<Rightarrow> dbAccess \<Rightarrow> (string \<Rightarrow> string + string option) \<Rightarrow> string \<Rightarrow> string + refreshConfig" where
  "resolveRefreshConfig dbPath access secret connectionId =
     (case access of
        DbMissing \<Rightarrow> Inl (''Database not found at '' @ dbPath)
      | DbThrows msg \<Rightarrow> Inl (''Failed to resolve refresh config: '' @ msg)
      | DbOpen db \<Rightarrow>
          (case db_connection db connectionId of
             None \<Rightarrow> Inl (''No active OAuth connection found for '' @ quoted connectionId)
           | Some conn \<Rightarrow>
               (case db_app db (cr_oauth_app_id conn) of
                  None \<Rightarrow> Inl (''No OAuth app found for connection '' @ quoted connectionId)
                | Some app \<Rightarrow>
                    (case db_provider db (cr_provider_key conn) of
                       None \<Rightarrow> Inl (''No OAuth provider found for '' @ quoted (cr_provider_key conn))
                     | Some provider \<Rightarrow>
                         let tokenUrl = (if truthy (prr_refresh_url provider) then the (prr_refresh_url provider) else prr_token_url provider) in
                         if tokenUrl = [] \<or> apr_client_id app = [] then
                           Inl (''Missing OAuth2 refresh config for '' @ quoted (cr_provider_key conn))
                         else
                           (case secret (apr_client_secret_credential_path app) of
                              Inl msg \<Rightarrow> Inl (''Failed to resolve refresh config: '' @ msg)
                            | Inr clientSecret \<Rightarrow>
                                Inr \<lparr>rc_tokenUrl = tokenUrl, rc_clientId = apr_client_id app, rc_clientSecret = clientSecret,
                                  rc_authMethod = get_or ''client_secret_post'' (prr_token_endpoint_auth_method provider),
                                  rc_bodyFormat = get_or ''form'' (prr_token_exchange_body_format provider)\<rparr>)))))"

section \<open>The request\<close>

text \<open>\<open>Buffer.from(s).toString('base64')\<close>: the UTF-8 bytes of the string in groups of three.\<close>

definition utf8Bytes :: "string \<Rightarrow> nat list" where
  "utf8Bytes s = concat (map (\<lambda>c. let n = of_char c in if n < 128 then [n] else [192 + n div 64, 128 + n mod 64]) s)"

definition base64Digit :: "nat \<Rightarrow> char" where
  "base64Digit n = ''ABCDEFGHIJKLMNOPQRSTUVWXYZabcdefghijklmnopqrstuvwxyz0123456789+/'' ! n"

fun base64 :: "nat list \<Rightarrow> string" where
  "base64 [] = []"
| "base64 [a] = [base64Digit (a div 4), base64Digit (a mod 4 * 16), CHR ''='', CHR ''='']"
| "base64 [a, b] = [base64Digit (a div 4), base64Digit (a mod 4 * 16 + b div 16), base64Digit (b mod 16 * 4), CHR ''='']"
| "base64 (a # b # c # rest) =
     [base64Digit (a div 4), base64Digit (a mod 4 * 16 + b div 16), base64Digit (b mod 16 * 4 + c div 64), base64Digit (c mod 64)] @
     base64 rest"

record refreshRequest =
  rq_url :: string
  rq_headers :: "(string, string) js_Map"
  rq_json :: bool
  rq_body :: "(string, string) js_Map"

definition buildRefreshRequest :: "refreshConfig \<Rightarrow> string \<Rightarrow> refreshRequest" where
  "buildRefreshRequest config refreshToken =
     (let json = (rc_bodyFormat config = ''json'');
          headers = [(''Content-Type'', if json then ''application/json'' else ''application/x-www-form-urlencoded'')];
          body = [(''grant_type'', ''refresh_token''), (''refresh_token'', refreshToken)];
          basic = (truthy (rc_clientSecret config) \<and> rc_authMethod config = ''client_secret_basic'')
      in \<lparr>rq_url = rc_tokenUrl config,
          rq_headers = (if basic then headers @ [(''Authorization'',
              ''Basic '' @ base64 (utf8Bytes (rc_clientId config @ '':'' @ the (rc_clientSecret config))))] else headers),
          rq_json = json,
          rq_body = (if basic then body
            else body @ [(''client_id'', rc_clientId config)] @
              (if truthy (rc_clientSecret config) then [(''client_secret'', the (rc_clientSecret config))] else []))\<rparr>)"

section \<open>The answer\<close>

fun truthyJson :: "json \<Rightarrow> bool" where
  "truthyJson JNull = False"
| "truthyJson (JBool b) = b"
| "truthyJson (JNum n) = (n \<noteq> 0)"
| "truthyJson (JStr s) = (s \<noteq> [])"
| "truthyJson v = True"

text \<open>\<open>String(v)\<close>; the elements of an array that are \<open>null\<close> print as nothing.\<close>

fun stringOfJson :: "json \<Rightarrow> string" where
  "stringOfJson JNull = ''null''"
| "stringOfJson (JBool b) = (if b then ''true'' else ''false'')"
| "stringOfJson (JNum n) = number_text n"
| "stringOfJson (JStr s) = s"
| "stringOfJson (JArr vs) = joinWith '','' (map (\<lambda>v. if v = JNull then [] else stringOfJson v) vs)"
| "stringOfJson (JObj fs) = ''[object Object]''"

datatype endpointReply = EndpointThrows string | EndpointReplies int "json option"
  \<comment> \<open>the status, and the body unless it is not JSON\<close>

text \<open>The fields of a successful reply, as they are: nothing checks that they are there.\<close>

record refreshTokenResponse =
  tr_accessToken :: "json option"
  tr_refreshToken :: json
  tr_expiresIn :: "json option"

definition refreshErrorCode :: "json option \<Rightarrow> string" where
  "refreshErrorCode rawBody =
     (case rawBody of
        None \<Rightarrow> []
      | Some b \<Rightarrow> (case jsonProperty ''error'' b of Some (Some e) \<Rightarrow> if truthyJson e then stringOfJson e else [] | _ \<Rightarrow> []))"

definition performTokenRefresh ::
    "(json option \<Rightarrow> string) \<Rightarrow> (refreshRequest \<Rightarrow> endpointReply) \<Rightarrow> refreshConfig \<Rightarrow> string \<Rightarrow> string + refreshTokenResponse" where
  "performTokenRefresh thrownText fetch config refreshToken =
     (case fetch (buildRefreshRequest config refreshToken) of
        EndpointThrows message \<Rightarrow> Inl message
      | EndpointReplies status body \<Rightarrow>
          if \<not> replyOk status then
            let errorCode = refreshErrorCode body;
                detail = (if errorCode \<noteq> [] then ''HTTP '' @ number_text status @ '': '' @ errorCode else ''HTTP '' @ number_text status)
            in Inl (''OAuth2 token refresh failed ('' @ detail @ '')'')
          else
            (case body of
               None \<Rightarrow> Inl (thrownText None)
             | Some data \<Rightarrow>
                 (case jsonProperty ''access_token'' data of
                    None \<Rightarrow> Inl (thrownText (Some data))
                  | Some accessToken \<Rightarrow>
                      Inr \<lparr>tr_accessToken = accessToken,
                        tr_refreshToken = nullish (JStr refreshToken) (get_or None (jsonProperty ''refresh_token'' data)),
                        tr_expiresIn = get_or None (jsonProperty ''expires_in'' data)\<rparr>)))"
  \<comment> \<open>\<open>thrownText\<close>: the message of the exception for a body that is not JSON, or is \<open>null\<close>\<close>

datatype tokenRefreshResult = TokenRefreshed "json option" "int option" json | TokenRefreshFailed string

text \<open>An \<open>expires_in\<close> that is a number or missing; other JSON values, which JavaScript would convert, are left out.\<close>

definition expiresInOf :: "json option \<Rightarrow> int option" where
  "expiresInOf v = (case v of Some (JNum n) \<Rightarrow> Some n | _ \<Rightarrow> None)"

definition localTokenRefresh ::
    "(json option \<Rightarrow> string) \<Rightarrow> (refreshRequest \<Rightarrow> endpointReply) \<Rightarrow> string \<Rightarrow> dbAccess \<Rightarrow> (string \<Rightarrow> string + string option) \<Rightarrow> int \<Rightarrow>
     string \<Rightarrow> string \<Rightarrow> tokenRefreshResult" where
  "localTokenRefresh thrownText fetch dbPath access secret now connectionId refreshToken =
     (case resolveRefreshConfig dbPath access secret connectionId of
        Inl e \<Rightarrow> TokenRefreshFailed e
      | Inr config \<Rightarrow>
          (case performTokenRefresh thrownText fetch config refreshToken of
             Inl message \<Rightarrow> TokenRefreshFailed message
           | Inr result \<Rightarrow>
               TokenRefreshed (tr_accessToken result) (computeExpiresAt (expiresInOf (tr_expiresIn result)) now) (tr_refreshToken result)))"

section \<open>Properties\<close>

text \<open>The client secret leaves in one place: in the header for basic authentication, else in the body.\<close>

lemma secret_sent_once:
  assumes "rc_clientSecret config = Some (c # cs)"
  shows "(map_get (rq_headers (buildRefreshRequest config t)) ''Authorization'' \<noteq> None) \<noteq>
    (map_get (rq_body (buildRefreshRequest config t)) ''client_secret'' \<noteq> None)"
    and "map_get (rq_body (buildRefreshRequest config t)) ''refresh_token'' = Some t"
  using assms by (auto simp: buildRefreshRequest_def Let_def)

text \<open>A refresh token that the provider does not rotate is kept.\<close>

lemma refresh_token_kept:
  assumes "performTokenRefresh thrownText fetch config t = Inr r"
    and "fetch (buildRefreshRequest config t) = EndpointReplies status (Some (JObj fs))" "''refresh_token'' \<notin> fst ` set fs"
  shows "tr_refreshToken r = JStr t"
proof -
  have "map_of (rev fs) ''refresh_token'' = None" using assms(3) by (auto simp: map_of_eq_None_iff)
  with assms(1,2) show ?thesis
    by (auto simp: performTokenRefresh_def nullish_def Let_def split: if_splits)
qed

text \<open>A reply without an access token counts as a successful refresh.\<close>

theorem missing_access_token_accepted:
  assumes "resolveRefreshConfig dbPath access secret connectionId = Inr config"
    and "fetch (buildRefreshRequest config refreshToken) = EndpointReplies 200 (Some (JObj []))"
  shows "localTokenRefresh thrownText fetch dbPath access secret now connectionId refreshToken =
    TokenRefreshed None None (JStr refreshToken)"
  using assms
  by (simp add: localTokenRefresh_def performTokenRefresh_def replyOk_def nullish_def expiresInOf_def computeExpiresAt_def)

end
