(* ===== verification/Credential_Metadata.thy ===== *)
theory Credential_Metadata
  imports Credential_Handles
begin

text \<open>
  The metadata file of static credentials (packages/credential-storage/src/static-credentials.ts):
  loading with validation and migration, and the operations of the store.

  The file holds JSON, and a record is the JSON object as the code keeps it, extra properties
  included; numbers are integers. A write replaces the file as a whole or throws; which of the two
  is an argument, as are the new id and the clock.
\<close>

section \<open>The file\<close>

datatype metadataDisk = DiskMissing | DiskUnreadable | DiskCorrupt | DiskJson json

datatype loadResult = UnknownVersion | MetadataFile "json_object list"

definition CURRENT_VERSION :: int where
  "CURRENT_VERSION = 5"

fun isString :: "json option \<Rightarrow> bool" where
  "isString (Some (JStr s)) = True"
| "isString _ = False"

fun isNumber :: "json option \<Rightarrow> bool" where
  "isNumber (Some (JNum n)) = True"
| "isNumber _ = False"

fun isArray :: "json option \<Rightarrow> bool" where
  "isArray (Some (JArr xs)) = True"
| "isArray _ = False"

definition validFields :: "json_object \<Rightarrow> bool" where
  "validFields r \<longleftrightarrow> isString (map_get r ''credentialId'') \<and> isString (map_get r ''service'') \<and> isString (map_get r ''field'') \<and>
     isNumber (map_get r ''createdAt'') \<and> isNumber (map_get r ''updatedAt'')"

text \<open>\<open>filter(isValidCredentialRecord)\<close>, with the fields of the records that pass.\<close>

fun validRecord :: "json \<Rightarrow> json_object option" where
  "validRecord (JObj r) = (if validFields r then Some r else None)"
| "validRecord v = None"

definition optionalField :: "string \<Rightarrow> (json option \<Rightarrow> bool) \<Rightarrow> json_object \<Rightarrow> json_object" where
  "optionalField name ok r = (if ok (map_get r name) then [(name, the (map_get r name))] else [])"

definition listField :: "string \<Rightarrow> json_object \<Rightarrow> json_object" where
  "listField name r = [(name, if isArray (map_get r name) then the (map_get r name) else JArr [])]"

definition migrateRecordToV5 :: "json_object \<Rightarrow> json_object" where
  "migrateRecordToV5 r =
     [(''credentialId'', the (map_get r ''credentialId'')), (''service'', the (map_get r ''service'')),
      (''field'', the (map_get r ''field''))] @
     listField ''allowedTools'' r @ listField ''allowedDomains'' r @
     optionalField ''usageDescription'' isString r @ optionalField ''alias'' isString r @
     optionalField ''injectionTemplates'' isArray r @
     [(''createdAt'', the (map_get r ''createdAt'')), (''updatedAt'', the (map_get r ''updatedAt''))]"

definition metadataJson :: "json_object list \<Rightarrow> json" where
  "metadataJson credentials = JObj [(''version'', JNum CURRENT_VERSION), (''credentials'', JArr (map JObj credentials))]"

definition saveFile :: "bool \<Rightarrow> json_object list \<Rightarrow> metadataDisk \<Rightarrow> bool \<times> metadataDisk" where
  "saveFile ok credentials disk = (if ok then (True, DiskJson (metadataJson credentials)) else (False, disk))"

text \<open>The properties of the parsed file; an array has none of the two.\<close>

fun fileFields :: "json \<Rightarrow> json_object option" where
  "fileFields (JObj fs) = Some fs"
| "fileFields (JArr xs) = Some []"
| "fileFields v = None"

definition fileVersion :: "json_object \<Rightarrow> int" where
  "fileVersion fs = (case map_get fs ''version'' of Some (JNum n) \<Rightarrow> n | _ \<Rightarrow> 1)"

definition fileRecords :: "json_object \<Rightarrow> json_object list" where
  "fileRecords fs = (case map_get fs ''credentials'' of Some (JArr xs) \<Rightarrow> List.map_filter validRecord xs | _ \<Rightarrow> [])"

definition loadFile :: "bool \<Rightarrow> metadataDisk \<Rightarrow> loadResult \<times> metadataDisk" where
  "loadFile saveOk disk =
     (case disk of
        DiskJson data \<Rightarrow>
          (case fileFields data of
             None \<Rightarrow> (MetadataFile [], disk)
           | Some fs \<Rightarrow>
               if fileVersion fs \<notin> {1, 2, 3, 4, 5} then (UnknownVersion, disk)
               else if fileVersion fs < CURRENT_VERSION then
                 let credentials = map migrateRecordToV5 (filter (\<lambda>r. map_get r ''field'' \<noteq> Some (JStr ''refresh_token'')) (fileRecords fs))
                 in (MetadataFile credentials, snd (saveFile saveOk credentials disk))
               else (MetadataFile (fileRecords fs), disk))
      | _ \<Rightarrow> (MetadataFile [], disk))"

section \<open>The store\<close>

datatype metadataError = UnrecognizedVersion | SaveFailed

type_synonym 'a metadataOutcome = "(metadataError + 'a) \<times> metadataDisk"

text \<open>A policy field is absent, \<open>null\<close> or a value; the tools, domains and the description cannot be \<open>null\<close>.\<close>

record staticCredentialPolicyInput =
  pi_allowedTools :: "string list option"
  pi_allowedDomains :: "string list option"
  pi_usageDescription :: "string option"
  pi_alias :: "string option option"
  pi_injectionTemplates :: "json list option option"

definition noPolicy :: staticCredentialPolicyInput where
  "noPolicy = \<lparr>pi_allowedTools = None, pi_allowedDomains = None, pi_usageDescription = None, pi_alias = None,
     pi_injectionTemplates = None\<rparr>"

definition forKey :: "string \<Rightarrow> string \<Rightarrow> json_object \<Rightarrow> bool" where
  "forKey service field c \<longleftrightarrow> map_get c ''service'' = Some (JStr service) \<and> map_get c ''field'' = Some (JStr field)"

definition stringArray :: "string list \<Rightarrow> json" where
  "stringArray xs = JArr (map JStr xs)"

definition setGiven :: "string \<Rightarrow> ('a \<Rightarrow> json) \<Rightarrow> 'a option \<Rightarrow> json_object \<Rightarrow> json_object" where
  "setGiven name enc v r = (case v of None \<Rightarrow> r | Some x \<Rightarrow> map_set name (enc x) r)"

definition setOrClear :: "string \<Rightarrow> ('a \<Rightarrow> json) \<Rightarrow> 'a option option \<Rightarrow> json_object \<Rightarrow> json_object" where
  "setOrClear name enc v r =
     (case v of None \<Rightarrow> r | Some None \<Rightarrow> map_delete name r | Some (Some x) \<Rightarrow> map_set name (enc x) r)"

definition updatedRecord :: "staticCredentialPolicyInput \<Rightarrow> int \<Rightarrow> json_object \<Rightarrow> json_object" where
  "updatedRecord policy now existing =
     map_set ''updatedAt'' (JNum now)
       (setOrClear ''injectionTemplates'' JArr (pi_injectionTemplates policy)
         (setOrClear ''alias'' JStr (pi_alias policy)
           (setGiven ''usageDescription'' JStr (pi_usageDescription policy)
             (setGiven ''allowedDomains'' stringArray (pi_allowedDomains policy)
               (setGiven ''allowedTools'' stringArray (pi_allowedTools policy) existing)))))"

definition newRecord :: "string \<Rightarrow> string \<Rightarrow> staticCredentialPolicyInput \<Rightarrow> string \<Rightarrow> int \<Rightarrow> json_object" where
  "newRecord service field policy uuid now =
     [(''credentialId'', JStr uuid), (''service'', JStr service), (''field'', JStr field),
      (''allowedTools'', stringArray (get_or [] (pi_allowedTools policy))),
      (''allowedDomains'', stringArray (get_or [] (pi_allowedDomains policy)))] @
     (case pi_usageDescription policy of None \<Rightarrow> [] | Some d \<Rightarrow> [(''usageDescription'', JStr d)]) @
     (case pi_alias policy of Some (Some a) \<Rightarrow> [(''alias'', JStr a)] | _ \<Rightarrow> []) @
     (case pi_injectionTemplates policy of Some (Some ts) \<Rightarrow> [(''injectionTemplates'', JArr ts)] | _ \<Rightarrow> []) @
     [(''createdAt'', JNum now), (''updatedAt'', JNum now)]"

fun updateFirstRecord :: "(json_object \<Rightarrow> bool) \<Rightarrow> (json_object \<Rightarrow> json_object) \<Rightarrow> json_object list \<Rightarrow> json_object list" where
  "updateFirstRecord P f [] = []"
| "updateFirstRecord P f (c # cs) = (if P c then f c # cs else c # updateFirstRecord P f cs)"

fun removeFirstRecord :: "(json_object \<Rightarrow> bool) \<Rightarrow> json_object list \<Rightarrow> json_object list" where
  "removeFirstRecord P [] = []"
| "removeFirstRecord P (c # cs) = (if P c then cs else c # removeFirstRecord P cs)"

definition saved :: "bool \<Rightarrow> json_object list \<Rightarrow> 'a \<Rightarrow> metadataDisk \<Rightarrow> 'a metadataOutcome" where
  "saved ok credentials r disk =
     (case saveFile ok credentials disk of (True, d) \<Rightarrow> (Inr r, d) | (False, d) \<Rightarrow> (Inl SaveFailed, d))"

definition assertWritable :: "bool \<Rightarrow> metadataDisk \<Rightarrow> unit metadataOutcome" where
  "assertWritable saveOk disk =
     (case loadFile saveOk disk of
        (UnknownVersion, d) \<Rightarrow> (Inl UnrecognizedVersion, d)
      | (MetadataFile credentials, d) \<Rightarrow> (Inr (), d))"

definition upsert ::
    "bool \<Rightarrow> bool \<Rightarrow> string \<Rightarrow> string \<Rightarrow> staticCredentialPolicyInput \<Rightarrow> string \<Rightarrow> int \<Rightarrow> metadataDisk \<Rightarrow> json_object metadataOutcome" where
  "upsert migrateOk saveOk service field policy uuid now disk =
     (case loadFile migrateOk disk of
        (UnknownVersion, d) \<Rightarrow> (Inl UnrecognizedVersion, d)
      | (MetadataFile credentials, d) \<Rightarrow>
          (case find (forKey service field) credentials of
             Some existing \<Rightarrow>
               saved saveOk (updateFirstRecord (forKey service field) (updatedRecord policy now) credentials)
                 (updatedRecord policy now existing) d
           | None \<Rightarrow>
               let record1 = newRecord service field policy uuid now in saved saveOk (credentials @ [record1]) record1 d))"

definition getByServiceField :: "bool \<Rightarrow> string \<Rightarrow> string \<Rightarrow> metadataDisk \<Rightarrow> json_object option \<times> metadataDisk" where
  "getByServiceField saveOk service field disk =
     (case loadFile saveOk disk of
        (UnknownVersion, d) \<Rightarrow> (None, d)
      | (MetadataFile credentials, d) \<Rightarrow> (find (forKey service field) credentials, d))"

definition getByCredentialId :: "bool \<Rightarrow> string \<Rightarrow> metadataDisk \<Rightarrow> json_object option \<times> metadataDisk" where
  "getByCredentialId saveOk credentialId disk =
     (case loadFile saveOk disk of
        (UnknownVersion, d) \<Rightarrow> (None, d)
      | (MetadataFile credentials, d) \<Rightarrow> (find (\<lambda>c. map_get c ''credentialId'' = Some (JStr credentialId)) credentials, d))"

definition listMetadata :: "bool \<Rightarrow> metadataDisk \<Rightarrow> json_object list \<times> metadataDisk" where
  "listMetadata saveOk disk =
     (case loadFile saveOk disk of
        (UnknownVersion, d) \<Rightarrow> ([], d)
      | (MetadataFile credentials, d) \<Rightarrow> (credentials, d))"

definition deleteMetadata :: "bool \<Rightarrow> bool \<Rightarrow> string \<Rightarrow> string \<Rightarrow> metadataDisk \<Rightarrow> bool metadataOutcome" where
  "deleteMetadata migrateOk saveOk service field disk =
     (case loadFile migrateOk disk of
        (UnknownVersion, d) \<Rightarrow> (Inl UnrecognizedVersion, d)
      | (MetadataFile credentials, d) \<Rightarrow>
          if find (forKey service field) credentials = None then (Inr False, d)
          else saved saveOk (removeFirstRecord (forKey service field) credentials) True d)"

section \<open>Loading again\<close>

text \<open>What a load finds; saving and loading is the identity on valid records.\<close>

definition loaded :: "metadataDisk \<Rightarrow> json_object list" where
  "loaded disk = fst (listMetadata True disk)"

definition knownVersion :: "metadataDisk \<Rightarrow> bool" where
  "knownVersion disk \<longleftrightarrow> fst (loadFile True disk) \<noteq> UnknownVersion"

lemma load_saved:
  assumes "\<forall>r \<in> set credentials. validFields r"
  shows "loadFile ok (DiskJson (metadataJson credentials)) = (MetadataFile credentials, DiskJson (metadataJson credentials))"
proof -
  have "List.map_filter validRecord (map JObj credentials) = credentials"
    using assms by (induction credentials) (auto simp: List.map_filter_simps)
  then show ?thesis by (simp add: loadFile_def metadataJson_def fileVersion_def fileRecords_def CURRENT_VERSION_def)
qed

lemma typed_some [simp]:
  "isString v \<Longrightarrow> isString (Some (the v))" "isNumber v \<Longrightarrow> isNumber (Some (the v))"
  by (cases v; simp)+

lemma migrate_valid: "validFields r \<Longrightarrow> validFields (migrateRecordToV5 r)"
  by (auto simp: validFields_def migrateRecordToV5_def listField_def optionalField_def)

lemma records_valid: "r \<in> set (fileRecords fs) \<Longrightarrow> validFields r"
proof -
  assume "r \<in> set (fileRecords fs)"
  then obtain v where "validRecord v = Some r"
    by (auto simp: fileRecords_def map_filter_def split: option.splits json.splits)
  then show "validFields r" by (cases v) (auto split: if_splits)
qed

lemma metadata_load_cases:
  "loadFile ok disk = (UnknownVersion, disk) \<and> \<not> knownVersion disk \<or>
   (\<exists>d. loadFile ok disk = (MetadataFile (loaded disk), d) \<and> (\<forall>r \<in> set (loaded disk). validFields r) \<and> knownVersion disk \<and>
     (d = disk \<or> d = DiskJson (metadataJson (loaded disk))))"
  by (auto simp: loadFile_def loaded_def listMetadata_def knownVersion_def saveFile_def Let_def migrate_valid records_valid
      split: metadataDisk.splits option.splits)

section \<open>What the operations guarantee\<close>

lemma set_other:
  "k \<noteq> name \<Longrightarrow> map_get (setGiven name enc v r) k = map_get r k"
  "k \<noteq> name \<Longrightarrow> map_get (setOrClear name enc w r) k = map_get r k"
  by (simp_all add: setGiven_def setOrClear_def split: option.split)

lemma updated_fields:
  "k \<notin> {''allowedTools'', ''allowedDomains'', ''usageDescription'', ''alias'', ''injectionTemplates'', ''updatedAt''} \<Longrightarrow>
   map_get (updatedRecord policy now r) k = map_get r k"
  by (simp only: insert_iff de_Morgan_disj) (simp add: updatedRecord_def set_other)

lemma updated_forKey [simp]: "forKey service field (updatedRecord policy now r) = forKey service field r"
  by (simp add: forKey_def updated_fields)

lemma updated_valid: "validFields r \<Longrightarrow> validFields (updatedRecord policy now r)"
  by (simp add: validFields_def updated_fields) (simp add: updatedRecord_def)

lemma new_record_ok: "validFields (newRecord service field policy uuid now)" "forKey s f (newRecord service field policy uuid now) \<longleftrightarrow> s = service \<and> f = field"
  by (auto simp: validFields_def newRecord_def forKey_def split: option.splits)

lemma forKey_unique: "forKey s f r \<Longrightarrow> forKey s' f' r \<Longrightarrow> s = s' \<and> f = f'"
  by (simp add: forKey_def)

lemma find_update_other: "(s, f) \<noteq> (service, field) \<Longrightarrow>
  find (forKey s f) (updateFirstRecord (forKey service field) (updatedRecord policy now) rs) = find (forKey s f) rs"
  by (induction rs) (auto dest: forKey_unique)

lemma find_update_same: "find (forKey service field) rs = Some r \<Longrightarrow>
  find (forKey service field) (updateFirstRecord (forKey service field) (updatedRecord policy now) rs) = Some (updatedRecord policy now r)"
  by (induction rs) (auto split: if_splits)

lemma find_append_new: "find (forKey s f) (rs @ [newRecord service field policy uuid now]) =
  (case find (forKey s f) rs of Some r \<Rightarrow> Some r
   | None \<Rightarrow> if s = service \<and> f = field then Some (newRecord service field policy uuid now) else None)"
  by (induction rs) (auto simp: new_record_ok)

lemma find_remove_other: "(s, f) \<noteq> (service, field) \<Longrightarrow>
  find (forKey s f) (removeFirstRecord (forKey service field) rs) = find (forKey s f) rs"
  by (induction rs) (auto dest: forKey_unique)

lemma set_updateFirst: "set (updateFirstRecord P f rs) \<subseteq> set rs \<union> f ` set rs"
  by (induction rs) auto

lemma set_removeFirstRecord: "set (removeFirstRecord P rs) \<subseteq> set rs"
  by (induction rs) auto

lemma get_loaded: "fst (getByServiceField ok s f disk) = (if knownVersion disk then find (forKey s f) (loaded disk) else None)"
  using metadata_load_cases [of ok disk] by (auto simp: getByServiceField_def)

lemma loaded_saved: "\<forall>r \<in> set credentials. validFields r \<Longrightarrow> loaded (DiskJson (metadataJson credentials)) = credentials \<and>
    knownVersion (DiskJson (metadataJson credentials))"
  by (simp add: loaded_def listMetadata_def load_saved knownVersion_def)

lemma get_saved:
  assumes "\<forall>r \<in> set credentials. validFields r"
  shows "getByServiceField ok s f (DiskJson (metadataJson credentials)) =
    (find (forKey s f) credentials, DiskJson (metadataJson credentials))"
  by (simp add: getByServiceField_def load_saved [OF assms])

lemma upsert_writes:
  assumes known: "knownVersion disk"
  obtains credentials r where
    "upsert migrateOk True service field policy uuid now disk = (Inr r, DiskJson (metadataJson credentials))"
    "\<forall>c \<in> set credentials. validFields c"
    "find (forKey service field) credentials = Some r"
    "\<forall>s f. (s, f) \<noteq> (service, field) \<longrightarrow> find (forKey s f) credentials = find (forKey s f) (loaded disk)"
    "r = (case find (forKey service field) (loaded disk) of
            Some old \<Rightarrow> updatedRecord policy now old | None \<Rightarrow> newRecord service field policy uuid now)"
proof -
  from metadata_load_cases [of migrateOk disk] known obtain d where
    d: "loadFile migrateOk disk = (MetadataFile (loaded disk), d)" "\<forall>r \<in> set (loaded disk). validFields r" by auto
  show ?thesis
  proof (cases "find (forKey service field) (loaded disk)")
    case (Some old)
    let ?cs = "updateFirstRecord (forKey service field) (updatedRecord policy now) (loaded disk)"
    have "\<forall>c \<in> set ?cs. validFields c"
      using d(2) set_updateFirst [of "forKey service field" "updatedRecord policy now" "loaded disk"] updated_valid by blast
    then show ?thesis
      by (rule that [rotated]) (auto simp: upsert_def d(1) Some saved_def saveFile_def find_update_same find_update_other)
  next
    case None
    have "\<forall>c \<in> set (loaded disk @ [newRecord service field policy uuid now]). validFields c"
      using d(2) by (simp add: new_record_ok)
    then show ?thesis
      by (rule that [rotated])
        (auto simp: upsert_def d(1) None saved_def saveFile_def Let_def find_append_new split: option.split)
  qed
qed

text \<open>
  creating or updating the metadata of a credential, when the file has a known version and can be
  written: the record returned is the one later reads find, with the given fields set, the ones given
  as \<open>null\<close> cleared and the others kept; every other credential is found as before. A file of an
  unknown version is never touched: reads find nothing, and the operations that write are refused.
\<close>

theorem metadata_upsert_exact:
  "(knownVersion disk \<longrightarrow>
     (\<exists>r d. upsert migrateOk True service field policy uuid now disk = (Inr r, d) \<and>
        (\<forall>ok. getByServiceField ok service field d = (Some r, d)) \<and>
        (\<forall>ok ok' s f. (s, f) \<noteq> (service, field) \<longrightarrow>
           fst (getByServiceField ok s f d) = fst (getByServiceField ok' s f disk)) \<and>
        r = (case fst (getByServiceField migrateOk service field disk) of
               Some old \<Rightarrow> updatedRecord policy now old | None \<Rightarrow> newRecord service field policy uuid now))) \<and>
   (\<not> knownVersion disk \<longrightarrow>
     upsert migrateOk saveOk service field policy uuid now disk = (Inl UnrecognizedVersion, disk) \<and>
     deleteMetadata migrateOk saveOk service field disk = (Inl UnrecognizedVersion, disk) \<and>
     assertWritable migrateOk disk = (Inl UnrecognizedVersion, disk) \<and>
     getByServiceField migrateOk service field disk = (None, disk) \<and> listMetadata migrateOk disk = ([], disk))"
proof (intro conjI impI)
  assume known: "knownVersion disk"
  obtain credentials r where u: "upsert migrateOk True service field policy uuid now disk = (Inr r, DiskJson (metadataJson credentials))"
    "\<forall>c \<in> set credentials. validFields c" "find (forKey service field) credentials = Some r"
    "\<forall>s f. (s, f) \<noteq> (service, field) \<longrightarrow> find (forKey s f) credentials = find (forKey s f) (loaded disk)"
    "r = (case find (forKey service field) (loaded disk) of
            Some old \<Rightarrow> updatedRecord policy now old | None \<Rightarrow> newRecord service field policy uuid now)"
    by (rule upsert_writes [OF known, of migrateOk service field policy uuid now])
  then show "\<exists>r d. upsert migrateOk True service field policy uuid now disk = (Inr r, d) \<and>
        (\<forall>ok. getByServiceField ok service field d = (Some r, d)) \<and>
        (\<forall>ok ok' s f. (s, f) \<noteq> (service, field) \<longrightarrow>
           fst (getByServiceField ok s f d) = fst (getByServiceField ok' s f disk)) \<and>
        r = (case fst (getByServiceField migrateOk service field disk) of
               Some old \<Rightarrow> updatedRecord policy now old | None \<Rightarrow> newRecord service field policy uuid now)"
    using known loaded_saved [OF u(2)] by (intro exI conjI) (auto simp: get_saved get_loaded)
qed (use metadata_load_cases [of migrateOk disk] in
    \<open>auto simp: upsert_def deleteMetadata_def assertWritable_def getByServiceField_def listMetadata_def\<close>)

theorem metadata_upsert_exact_witness:
  "knownVersion DiskMissing \<and>
   (\<exists>r d. upsert True True ''svc'' ''key'' noPolicy ''id'' 7 DiskMissing = (Inr r, d) \<and>
      getByServiceField True ''svc'' ''key'' d = (Some r, d) \<and> r = newRecord ''svc'' ''key'' noPolicy ''id'' 7)"
proof -
  have k: "knownVersion DiskMissing" by (simp add: knownVersion_def loadFile_def)
  moreover have "fst (getByServiceField True ''svc'' ''key'' DiskMissing) = None" by (simp add: getByServiceField_def loadFile_def)
  ultimately show ?thesis
    using metadata_upsert_exact [of DiskMissing True "''svc''" "''key''" noPolicy "''id''" 7 True] by auto
qed

text \<open>
  A file that cannot be parsed, or cannot be read, counts as empty. The next upsert replaces it with
  a file that holds the new record only.
\<close>

theorem corrupt_file_overwritten:
  assumes "disk \<in> {DiskCorrupt, DiskUnreadable}"
  shows "upsert migrateOk True service field policy uuid now disk =
    (Inr (newRecord service field policy uuid now), DiskJson (metadataJson [newRecord service field policy uuid now]))"
  using assms by (auto simp: upsert_def loadFile_def saved_def saveFile_def Let_def)

end
