(* ===== verification/Command_Profiles.thy ===== *)
theory Command_Profiles
  imports Js_Strings
begin

text \<open>
  Secure command manifests of the credential executor (credential-executor/src/commands):
  profiles.ts, auth-adapters.ts and validator.ts. A manifest is read from JSON, so a required field
  may be missing when the validator runs: lists and maps whose absence matters are options, and a
  missing string goes the same way as an empty one. The messages of the validator are the
  constructors of \<open>manifestError\<close>.
\<close>

unbundle bit_operations_syntax

section \<open>Manifests\<close>

record allowedArgvPattern =
  pat_name :: string
  pat_tokens :: "string list option"

record allowedNetworkTarget =
  tgt_hostPattern :: string
  tgt_ports :: "js_number list option"
  tgt_protocols :: "string list option"

record commandProfile =
  prof_description :: string
  prof_allowedArgvPatterns :: "allowedArgvPattern list option"
  prof_deniedSubcommands :: "string list option"
  prof_deniedFlags :: "string list option"
  prof_allowedNetworkTargets :: "allowedNetworkTarget list option"

datatype authAdapterConfig =
    EnvVarAdapter (adapter_envVarName: string) (adapter_valuePrefix: "string option")
  | TempFileAdapter (adapter_envVarName: string) (adapter_fileExtension: "string option") (adapter_fileMode: "int option")
  | CredentialProcessAdapter (adapter_helperCommand: string) (adapter_envVarName: string) (adapter_timeoutMs: "int option")
  | UnknownAdapter (adapter_type: string)

record secureCommandManifest =
  man_schemaVersion :: string
  man_bundleDigest :: string
  man_bundleId :: string
  man_version :: string
  man_entrypoint :: string
  man_commandProfiles :: "(string \<times> commandProfile) list option"
  man_authAdapter :: "authAdapterConfig option"
  man_egressMode :: string
  man_cleanConfigDirs :: "(string \<times> string) list option"

definition MANIFEST_SCHEMA_VERSION :: string where
  "MANIFEST_SCHEMA_VERSION = ''1''"

definition ProxyRequired :: string where
  "ProxyRequired = ''proxy_required''"

definition NoNetwork :: string where
  "NoNetwork = ''no_network''"

definition EGRESS_MODES :: "string list" where
  "EGRESS_MODES = [ProxyRequired, NoNetwork]"

definition DENIED_BINARIES :: "string list" where
  "DENIED_BINARIES =
     [''curl'', ''wget'', ''http'', ''https'', ''httpie'',
      ''python'', ''python3'', ''python3.10'', ''python3.11'', ''python3.12'', ''python3.13'', ''python3.14'',
      ''node'', ''bun'', ''deno'', ''ruby'', ''perl'', ''lua'', ''php'',
      ''busybox'', ''toybox'',
      ''bash'', ''sh'', ''zsh'', ''fish'', ''dash'', ''ksh'', ''csh'', ''tcsh'', ''env'', ''xargs'', ''exec'', ''nohup'',
      ''strace'', ''ltrace'']"

definition pathBasename :: "string \<Rightarrow> string" where
  "pathBasename path = rev (takeWhile (\<lambda>c. c \<noteq> CHR ''/'') (rev path))"
  \<comment> \<open>what follows the last slash, the whole path when there is none\<close>

definition isDeniedBinary :: "string \<Rightarrow> bool" where
  "isDeniedBinary p \<longleftrightarrow> pathBasename p \<in> set DENIED_BINARIES"

definition blank :: "string \<Rightarrow> bool" where
  "blank s \<longleftrightarrow> s = [] \<or> trim s = []"

section \<open>Shell commands of credential helpers\<close>

definition metacharacterAt :: "char option \<Rightarrow> string \<Rightarrow> bool" where
  "metacharacterAt before s \<longleftrightarrow>
     startsWith s '';'' \<or> startsWith s ''&&'' \<or> startsWith s ''||'' \<or>
     (before \<noteq> Some (CHR ''|'') \<and> startsWith s ''|'' \<and> \<not> startsWith (tl s) ''|'') \<or>
     startsWith s ''$('' \<or> startsWith s [CHR 0x60] \<or> startsWith s [CHR 0x0A] \<or> startsWith s [CHR 0x0D]"

definition containsShellMetacharacters :: "string \<Rightarrow> bool" where
  "containsShellMetacharacters command \<longleftrightarrow>
     list_ex (\<lambda>i. metacharacterAt (if i = 0 then None else Some (command ! (i - 1))) (drop i command)) [0..<length command]"

definition isWordStart :: "char \<Rightarrow> bool" where
  "isWordStart c \<longleftrightarrow> (let n = (of_char c :: nat) in (65 \<le> n \<and> n \<le> 90) \<or> (97 \<le> n \<and> n \<le> 122) \<or> n = 95)"

definition isWordPart :: "char \<Rightarrow> bool" where
  "isWordPart c \<longleftrightarrow> isWordStart c \<or> isDigit c"

text \<open>
  \<open>ENV_ASSIGNMENT_RE\<close>: the result is what follows the match. The alternatives of the value are
  tried in order, each followed by white space, and the bare value is greedy: it tries to go on
  before it stops.
\<close>

definition spaces1 :: "string \<Rightarrow> string option" where
  "spaces1 s = (if s \<noteq> [] \<and> isSpace (hd s) then Some (dropWhile isSpace s) else None)"

definition quotedValue :: "char \<Rightarrow> string \<Rightarrow> string option" where
  "quotedValue q s =
     (if s \<noteq> [] \<and> hd s = q then
        (case dropWhile (\<lambda>c. c \<noteq> q) (tl s) of [] \<Rightarrow> None | c # rest \<Rightarrow> spaces1 rest)
      else None)"

definition isLineTerminator :: "char \<Rightarrow> bool" where
  "isLineTerminator c \<longleftrightarrow> c = CHR 0x0A \<or> c = CHR 0x0D"

fun bareValue :: "string \<Rightarrow> string option" where
  "bareValue [] = None"
| "bareValue [c] = (if \<not> isSpace c then None else Some [])"
| "bareValue (c # d # rest) =
     (case (if c = CHR 0x5C \<and> \<not> isLineTerminator d then bareValue rest else None) of
        Some r \<Rightarrow> Some r
      | None \<Rightarrow>
          (case (if \<not> isSpace c then bareValue (d # rest) else None) of
             Some r \<Rightarrow> Some r
           | None \<Rightarrow> spaces1 (c # d # rest)))"

definition assignedValue :: "string \<Rightarrow> string option" where
  "assignedValue s =
     (case quotedValue (CHR 0x27) s of
        Some r \<Rightarrow> Some r
      | None \<Rightarrow> (case quotedValue (CHR 0x22) s of Some r \<Rightarrow> Some r | None \<Rightarrow> bareValue s))"

definition envAssignment :: "string \<Rightarrow> string option" where
  "envAssignment s =
     (if s \<noteq> [] \<and> isWordStart (hd s) then
        (case dropWhile isWordPart s of
           [] \<Rightarrow> None
         | c # rest \<Rightarrow> if c = CHR ''='' then assignedValue rest else None)
      else None)"

lemma spaces1_length: "spaces1 s = Some r \<Longrightarrow> length r < length s"
  by (cases s) (auto simp: spaces1_def length_dropWhile_le le_imp_less_Suc split: if_splits)

lemma bareValue_length: "bareValue s = Some r \<Longrightarrow> length r < length s"
proof (induction s rule: bareValue.induct)
  case (3 c d rest)
  then show ?case
    using spaces1_length [of "c # d # rest" r] by (fastforce split: option.splits if_splits)
qed (auto split: if_splits)

lemma quotedValue_length: "quotedValue q s = Some r \<Longrightarrow> length r < length s"
proof -
  assume a: "quotedValue q s = Some r"
  then obtain c rest where r: "dropWhile (\<lambda>c. c \<noteq> q) (tl s) = c # rest" "spaces1 rest = Some r"
    by (auto simp: quotedValue_def split: if_splits list.splits)
  have "length r < length rest" by (rule spaces1_length [OF r(2)])
  also have "length rest < length (dropWhile (\<lambda>c. c \<noteq> q) (tl s))" by (simp add: r(1))
  also have "\<dots> \<le> length s" 
    using length_dropWhile_le [of "\<lambda>c. c \<noteq> q" "tl s"] by simp
  finally show "length r < length s" .
qed

lemma envAssignment_length: "envAssignment s = Some r \<Longrightarrow> length r < length s"
proof -
  assume a: "envAssignment s = Some r"
  then obtain rest where rest: "dropWhile isWordPart s = CHR ''='' # rest" "assignedValue rest = Some r"
    by (auto simp: envAssignment_def split: if_splits list.splits)
  have "length r < length rest"
    using rest(2) by (auto simp: assignedValue_def dest: bareValue_length quotedValue_length split: option.splits)
  also have "length rest < length s" using length_dropWhile_le [of isWordPart s] by (simp add: rest(1))
  finally show "length r < length s" .
qed

function stripAssignments :: "string \<Rightarrow> string" where
  "stripAssignments s = (case envAssignment s of None \<Rightarrow> s | Some r \<Rightarrow> stripAssignments r)"
  by pat_completeness auto
termination
  by (relation "measure length") (auto dest: envAssignment_length)

declare stripAssignments.simps [simp del]

definition stripShellQuotes :: "string \<Rightarrow> string" where
  "stripShellQuotes token =
     (if 2 \<le> length token \<and>
         ((hd token = CHR 0x27 \<and> last token = CHR 0x27) \<or> (hd token = CHR 0x22 \<and> last token = CHR 0x22))
      then butlast (tl token) else token)"

definition extractShellBinary :: "string \<Rightarrow> string" where
  "extractShellBinary command =
     stripShellQuotes (takeWhile (\<lambda>c. \<not> isSpace c) (stripAssignments (trim command)))"

section \<open>Validation of a manifest\<close>

datatype manifestError =
    UnsupportedSchema string
  | DigestRequired | BundleIdRequired | VersionRequired | EntrypointRequired
  | EntrypointDenied string | BundleIdDenied string
  | EgressModeRequired | EgressModeInvalid string
  | AdapterRequired | AdapterTypeUnknown string | AdapterNeedsName | AdapterFileMode int
  | AdapterNeedsHelper | AdapterTimeout int | HelperMetacharacters | HelperDenied string
  | ConfigDirTraversal string | ConfigDirBlank
  | NoProfiles
  | DescriptionRequired string | PatternsRequired string | SubcommandsRequired string
  | SubcommandBlank string | FlagBlank string | FlagWithoutDash string string
  | TargetsRequired string | TargetsContradict string
  | HostRequired string nat | HostOverbroad string nat | HostWildcard string nat | HostDomainEmpty string nat
  | PortInvalid string nat js_number | ProtocolInvalid string nat string
  | PatternUnnamed string | PatternEmpty string string | PatternOnlyRest string string
  | PatternRestNotLast string string nat | PatternDenied string string

definition failing :: "bool \<Rightarrow> 'e \<Rightarrow> 'e list" where
  "failing c e = (if c then [e] else [])"

definition validateAuthAdapterConfig :: "authAdapterConfig \<Rightarrow> manifestError list" where
  "validateAuthAdapterConfig config =
     (case config of
        UnknownAdapter t \<Rightarrow> [AdapterTypeUnknown t]
      | EnvVarAdapter name prefix \<Rightarrow> failing (blank name) AdapterNeedsName
      | TempFileAdapter name ext mode \<Rightarrow>
          failing (blank name) AdapterNeedsName @
          (case mode of None \<Rightarrow> [] | Some m \<Rightarrow> failing (m > 384 \<or> m AND 63 \<noteq> 0) (AdapterFileMode m))
      | CredentialProcessAdapter helper name timeout \<Rightarrow>
          failing (blank name) AdapterNeedsName @ failing (blank helper) AdapterNeedsHelper @
          (case timeout of None \<Rightarrow> [] | Some t \<Rightarrow> failing (t \<le> 0) (AdapterTimeout t)))"
  \<comment> \<open>384 is 0o600 and 63 is 0o077\<close>

fun helperErrors :: "authAdapterConfig \<Rightarrow> manifestError list" where
  "helperErrors (CredentialProcessAdapter helper name timeout) =
     (if blank helper then []
      else failing (containsShellMetacharacters helper) HelperMetacharacters @
           failing (isDeniedBinary (extractShellBinary helper)) (HelperDenied (pathBasename (extractShellBinary helper))))"
| "helperErrors _ = []"

definition OVERBROAD_HOST_PATTERNS :: "string list" where
  "OVERBROAD_HOST_PATTERNS = [''*'', ''*.*'', ''*.*.*'', ''*.*.*.*'']"

definition portValid :: "js_number \<Rightarrow> bool" where
  "portValid p \<longleftrightarrow> (case p of IntNum n \<Rightarrow> 1 \<le> n \<and> n \<le> 65535 | NonInt \<Rightarrow> False)"

definition validateNetworkTarget :: "string \<Rightarrow> nat \<Rightarrow> allowedNetworkTarget \<Rightarrow> manifestError list" where
  "validateNetworkTarget profile i target =
     (let pattern = tgt_hostPattern target in
      if blank pattern then [HostRequired profile i]
      else if pattern \<in> set OVERBROAD_HOST_PATTERNS then [HostOverbroad profile i]
      else
        (if CHR ''*'' \<in> set pattern then
           if \<not> startsWith pattern ''*.'' \<or> CHR ''*'' \<in> set (drop 1 pattern) then [HostWildcard profile i]
           else failing (blank (drop 2 pattern)) (HostDomainEmpty profile i)
         else []) @
        concat (map (\<lambda>p. failing (\<not> portValid p) (PortInvalid profile i p)) (get_or [] (tgt_ports target))) @
        concat (map (\<lambda>p. failing (p \<notin> {''http'', ''https''}) (ProtocolInvalid profile i p)) (get_or [] (tgt_protocols target))))"

definition isRestPlaceholder :: "string \<Rightarrow> bool" where
  "isRestPlaceholder token \<longleftrightarrow> startsWith token ''<'' \<and> endsWith token ''...>''"

definition isPlaceholder :: "string \<Rightarrow> bool" where
  "isPlaceholder token \<longleftrightarrow> startsWith token ''<'' \<and> endsWith token ''>'' \<and> \<not> endsWith token ''...>''"

definition validateArgvPattern :: "string \<Rightarrow> allowedArgvPattern \<Rightarrow> manifestError list" where
  "validateArgvPattern profile pattern =
     failing (blank (pat_name pattern)) (PatternUnnamed profile) @
     (case get_or [] (pat_tokens pattern) of
        [] \<Rightarrow> [PatternEmpty profile (pat_name pattern)]
      | first # rest \<Rightarrow>
          failing (rest = [] \<and> isRestPlaceholder first) (PatternOnlyRest profile (pat_name pattern)) @
          concat (map (\<lambda>(i, token). failing (isRestPlaceholder token \<and> i < length rest)
            (PatternRestNotLast profile (pat_name pattern) i)) (enumerate 0 (first # rest))) @
          failing (first \<noteq> [] \<and> \<not> isPlaceholder first \<and> \<not> isRestPlaceholder first \<and> isDeniedBinary first)
            (PatternDenied profile (pat_name pattern)))"

definition validateProfile :: "string \<Rightarrow> string \<Rightarrow> commandProfile \<Rightarrow> manifestError list" where
  "validateProfile egressMode name profile =
     failing (blank (prof_description profile)) (DescriptionRequired name) @
     (case get_or [] (prof_allowedArgvPatterns profile) of
        [] \<Rightarrow> [PatternsRequired name]
      | p # ps \<Rightarrow> concat (map (validateArgvPattern name) (p # ps))) @
     (case prof_deniedSubcommands profile of
        None \<Rightarrow> [SubcommandsRequired name]
      | Some subs \<Rightarrow> concat (map (\<lambda>sub. failing (blank sub) (SubcommandBlank name)) subs)) @
     concat (map (\<lambda>flag. failing (blank flag) (FlagBlank name) @
         failing (flag \<noteq> [] \<and> \<not> startsWith flag ''-'') (FlagWithoutDash name flag)) (get_or [] (prof_deniedFlags profile))) @
     (if egressMode = ProxyRequired then
        (case get_or [] (prof_allowedNetworkTargets profile) of
           [] \<Rightarrow> [TargetsRequired name]
         | t # ts \<Rightarrow> concat (map (\<lambda>(i, target). validateNetworkTarget name i target) (enumerate 0 (t # ts))))
      else []) @
     failing (egressMode = NoNetwork \<and> get_or [] (prof_allowedNetworkTargets profile) \<noteq> []) (TargetsContradict name)"

definition fieldErrors :: "secureCommandManifest \<Rightarrow> manifestError list" where
  "fieldErrors m =
     failing (man_schemaVersion m \<noteq> MANIFEST_SCHEMA_VERSION) (UnsupportedSchema (man_schemaVersion m)) @
     failing (blank (man_bundleDigest m)) DigestRequired @ failing (blank (man_bundleId m)) BundleIdRequired @
     failing (blank (man_version m)) VersionRequired @ failing (blank (man_entrypoint m)) EntrypointRequired @
     failing (man_entrypoint m \<noteq> [] \<and> isDeniedBinary (man_entrypoint m)) (EntrypointDenied (man_entrypoint m)) @
     failing (man_bundleId m \<noteq> [] \<and> isDeniedBinary (man_bundleId m)) (BundleIdDenied (man_bundleId m)) @
     (if man_egressMode m = [] then [EgressModeRequired]
      else failing (man_egressMode m \<notin> set EGRESS_MODES) (EgressModeInvalid (man_egressMode m)))"

definition adapterErrors :: "secureCommandManifest \<Rightarrow> manifestError list" where
  "adapterErrors m =
     (case man_authAdapter m of
        None \<Rightarrow> [AdapterRequired]
      | Some config \<Rightarrow> validateAuthAdapterConfig config @ helperErrors config)"

definition configDirErrors :: "secureCommandManifest \<Rightarrow> manifestError list" where
  "configDirErrors m =
     concat (map (\<lambda>(key, d). failing (includesSub key ''..'') (ConfigDirTraversal key) @ failing (trim key = []) ConfigDirBlank)
       (get_or [] (man_cleanConfigDirs m)))"

definition profileErrors :: "secureCommandManifest \<Rightarrow> manifestError list" where
  "profileErrors m =
     (case get_or [] (man_commandProfiles m) of
        [] \<Rightarrow> [NoProfiles]
      | p # ps \<Rightarrow> concat (map (\<lambda>(name, profile). validateProfile (man_egressMode m) name profile) (p # ps)))"

text \<open>The manifest is valid when the list is empty.\<close>

definition validateManifest :: "secureCommandManifest \<Rightarrow> manifestError list" where
  "validateManifest m = fieldErrors m @ adapterErrors m @ configDirErrors m @ profileErrors m"

section \<open>Validation of a command\<close>

fun matchTokens :: "string list \<Rightarrow> string list \<Rightarrow> bool" where
  "matchTokens [] argv \<longleftrightarrow> argv = []"
| "matchTokens (token # tokens) argv \<longleftrightarrow>
     (if isRestPlaceholder token then argv \<noteq> []
      else
        (case argv of
           [] \<Rightarrow> False
         | arg # args \<Rightarrow> (isPlaceholder token \<or> arg = token) \<and> matchTokens tokens args))"

text \<open>\<open>None\<close> when a missing list is read, which throws.\<close>

definition matchesArgvPattern :: "string list \<Rightarrow> allowedArgvPattern \<Rightarrow> bool option" where
  "matchesArgvPattern argv pattern = map_option (\<lambda>tokens. matchTokens tokens argv) (pat_tokens pattern)"

function splitSpaces :: "string \<Rightarrow> string list" where
  "splitSpaces s =
     takeWhile (\<lambda>c. \<not> isSpace c) s #
     (case dropWhile (\<lambda>c. \<not> isSpace c) s of [] \<Rightarrow> [] | c # rest \<Rightarrow> splitSpaces (dropWhile isSpace rest))"
  by pat_completeness auto
termination
proof (relation "measure length")
  fix s c rest
  assume "dropWhile (\<lambda>c. \<not> isSpace c) s = c # rest"
  then have "Suc (length rest) \<le> length s" using length_dropWhile_le [of "\<lambda>c. \<not> isSpace c" s] by simp
  then show "(dropWhile isSpace rest, s) \<in> measure length"
    using length_dropWhile_le [of isSpace rest] by simp
qed simp

declare splitSpaces.simps [simp del]

datatype commandValidation =
    CommandAllowed string string
  | EmptyArgv
  | SubcommandDenied string
  | FlagDenied string
  | NoPatternMatches

definition subcommandMatches :: "string list \<Rightarrow> string \<Rightarrow> bool" where
  "subcommandMatches argv denied \<longleftrightarrow>
     (let parts = splitSpaces denied in length parts \<le> length argv \<and> take (length parts) argv = parts)"

definition deniedFlagIn :: "string list \<Rightarrow> string \<Rightarrow> string option" where
  "deniedFlagIn flags arg =
     (if arg \<in> set flags then Some arg
      else if startsWith arg ''-'' \<and> CHR ''='' \<in> set arg \<and> takeWhile (\<lambda>c. c \<noteq> CHR ''='') arg \<in> set flags
      then Some (takeWhile (\<lambda>c. c \<noteq> CHR ''='') arg)
      else None)"

fun firstSome :: "('a \<Rightarrow> 'b option) \<Rightarrow> 'a list \<Rightarrow> 'b option" where
  "firstSome f [] = None"
| "firstSome f (x # xs) = (case f x of Some y \<Rightarrow> Some y | None \<Rightarrow> firstSome f xs)"

fun matchPatterns :: "string list \<Rightarrow> allowedArgvPattern list \<Rightarrow> string option option" where
  "matchPatterns argv [] = Some None"
| "matchPatterns argv (p # ps) =
     (case matchesArgvPattern argv p of
        None \<Rightarrow> None
      | Some True \<Rightarrow> Some (Some (pat_name p))
      | Some False \<Rightarrow> matchPatterns argv ps)"

fun matchProfiles :: "string list \<Rightarrow> (string \<times> commandProfile) list \<Rightarrow> (string \<times> string) option option" where
  "matchProfiles argv [] = Some None"
| "matchProfiles argv ((name, profile) # rest) =
     (case prof_allowedArgvPatterns profile of
        None \<Rightarrow> None
      | Some patterns \<Rightarrow>
          (case matchPatterns argv patterns of
             None \<Rightarrow> None
           | Some (Some pattern) \<Rightarrow> Some (Some (name, pattern))
           | Some None \<Rightarrow> matchProfiles argv rest))"

definition deniedSubcommandsOf :: "(string \<times> commandProfile) list \<Rightarrow> string list option" where
  "deniedSubcommandsOf profiles =
     (if list_all (\<lambda>(n, p). prof_deniedSubcommands p \<noteq> None) profiles
      then Some (concat (map (\<lambda>(n, p). the (prof_deniedSubcommands p)) profiles)) else None)"

definition deniedFlagsOf :: "(string \<times> commandProfile) list \<Rightarrow> string list" where
  "deniedFlagsOf profiles = concat (map (\<lambda>(n, p). get_or [] (prof_deniedFlags p)) profiles)"

definition validateCommand :: "secureCommandManifest \<Rightarrow> string list \<Rightarrow> commandValidation option" where
  "validateCommand m argv =
     (if argv = [] then Some EmptyArgv
      else
        (case man_commandProfiles m of
           None \<Rightarrow> None
         | Some profiles \<Rightarrow>
             (case deniedSubcommandsOf profiles of
                None \<Rightarrow> None
              | Some subs \<Rightarrow>
                  (case find (subcommandMatches argv) subs of
                     Some denied \<Rightarrow> Some (SubcommandDenied denied)
                   | None \<Rightarrow>
                       (case firstSome (deniedFlagIn (deniedFlagsOf profiles)) argv of
                          Some flag \<Rightarrow> Some (FlagDenied flag)
                        | None \<Rightarrow>
                            (case matchProfiles argv profiles of
                               None \<Rightarrow> None
                             | Some (Some (name, pattern)) \<Rightarrow> Some (CommandAllowed name pattern)
                             | Some None \<Rightarrow> Some NoPatternMatches))))))"
  \<comment> \<open>the sets of denied subcommands and flags are searched in the order of insertion\<close>

end
