(* ===== verification/Egress_Sessions.thy ===== *)
theory Egress_Sessions
  imports Js_Strings "HOL-Library.List_Lexorder" "HOL-Library.Char_ord" "HOL-Library.Multiset"
begin

text \<open>
  Sessions of the egress proxy (packages/egress-proxy/src/session-core.ts, types.ts): creation under a
  limit, start through the caller's hooks, stop, and the acquisition that shares one session per
  conversation behind a lock.

  A session object outlives its entry in the store, because a start or stop under way holds on to it:
  \<open>eg_objects\<close> are the objects, \<open>eg_listed\<close> the keys of \<open>store.sessions\<close> in order. The async functions
  are cut at their awaits. A server is given by whether it is there; the outcome of a hook, of
  \<open>listen\<close> and of \<open>close\<close> is an argument of the step that delivers it.
\<close>

section \<open>Data\<close>

datatype proxySessionStatus = PxStarting | PxActive | PxStopping | PxStopped

record proxySession =
  px_id :: string
  px_conversationId :: string
  px_credentialIds :: "string list"
  px_status :: proxySessionStatus
  px_createdAt :: int
  px_port :: "int option"

record allowedTarget =
  at_host :: string
  at_ports :: "js_number list option"
  at_protocols :: "string list option"

record proxySessionConfig =
  pc_idleTimeoutMs :: int
  pc_maxSessionsPerConversation :: int
  pc_allowedTargets :: "allowedTarget list option"

record partialSessionConfig =
  pp_idleTimeoutMs :: "int option"
  pp_maxSessionsPerConversation :: "int option"
  pp_allowedTargets :: "allowedTarget list option"

text \<open>\<open>stopPromise\<close>: null, pending, or rejected with an error.\<close>

datatype stopPromise = NoStop | StopPending | StopRejected string

record managedSession =
  mg_session :: proxySession
  mg_server :: bool
  mg_idleTimer :: bool
  mg_config :: proxySessionConfig
  mg_dataDir :: "string option"
  mg_approvalCallback :: bool
  mg_listenHost :: string
  mg_stopPromise :: stopPromise
  mg_combinedCABundlePath :: "string option"

definition DEFAULT_CONFIG :: proxySessionConfig where
  "DEFAULT_CONFIG = \<lparr>pc_idleTimeoutMs = 5 * 60 * 1000, pc_maxSessionsPerConversation = 3, pc_allowedTargets = None\<rparr>"

definition mergedConfig :: "partialSessionConfig \<Rightarrow> proxySessionConfig" where
  "mergedConfig config =
     \<lparr>pc_idleTimeoutMs = get_or (pc_idleTimeoutMs DEFAULT_CONFIG) (pp_idleTimeoutMs config),
      pc_maxSessionsPerConversation = get_or (pc_maxSessionsPerConversation DEFAULT_CONFIG) (pp_maxSessionsPerConversation config),
      pc_allowedTargets = pp_allowedTargets config\<rparr>"

datatype egressError =
    MaxSessionsReached int string
  | SessionNotFound string
  | SessionNotStarting string proxySessionStatus
  | SessionNotActive string
  | HookFailed string
  | CloseFailed string

text \<open>One call of \<open>getOrStartSession\<close>, with its arguments and where it waits.\<close>

datatype acquireStage =
    AwaitLock nat
  | AwaitStopOther string
  | AwaitStopRecheck string
  | AwaitCA string
  | AwaitServer string
  | AwaitListen string
  | InnerSettled "egressError + proxySession \<times> bool"
  | AcquireReturned "egressError + proxySession \<times> bool"

record acquireCall =
  ac_conversationId :: string
  ac_credentialIds :: "string list"
  ac_listenHost :: string
  ac_setupCA :: bool
  ac_config :: partialSessionConfig
  ac_dataDir :: "string option"
  ac_approvalCallback :: bool
  ac_stage :: acquireStage

record egressState =
  eg_objects :: "(string, managedSession) js_Map"
  eg_listed :: "string list"
  eg_locks :: "(string, nat) js_Map"
  eg_calls :: "(nat, acquireCall) js_Map"
  eg_next :: nat

definition emptyEgress :: egressState where
  "emptyEgress = \<lparr>eg_objects = [], eg_listed = [], eg_locks = [], eg_calls = [], eg_next = 0\<rparr>"

section \<open>Helpers\<close>

definition sessionOf :: "egressState \<Rightarrow> string \<Rightarrow> managedSession option" where
  "sessionOf s i = (if i \<in> set (eg_listed s) then map_get (eg_objects s) i else None)"

definition listedSessions :: "egressState \<Rightarrow> managedSession list" where
  "listedSessions s = List.map_filter (\<lambda>i. map_get (eg_objects s) i) (eg_listed s)"

definition setObject :: "string \<Rightarrow> managedSession \<Rightarrow> egressState \<Rightarrow> egressState" where
  "setObject i m s = s\<lparr>eg_objects := map_set i m (eg_objects s)\<rparr>"

definition setStatus :: "proxySessionStatus \<Rightarrow> managedSession \<Rightarrow> managedSession" where
  "setStatus st m = m\<lparr>mg_session := (mg_session m)\<lparr>px_status := st\<rparr>\<rparr>"

definition statusOf :: "managedSession \<Rightarrow> proxySessionStatus" where
  "statusOf m = px_status (mg_session m)"

definition unlist :: "string \<Rightarrow> egressState \<Rightarrow> egressState" where
  "unlist i s = s\<lparr>eg_listed := filter (\<lambda>j. j \<noteq> i) (eg_listed s)\<rparr>"

text \<open>Arrays sorted by code units, compared element by element.\<close>

definition credentialIdsMatch :: "string list \<Rightarrow> string list \<Rightarrow> bool" where
  "credentialIdsMatch a b =
     (if length a \<noteq> length b then False
      else let sa = sort a; sb = sort b in list_all (\<lambda>i. sa ! i = sb ! i) [0..<length sa])"

definition getSessionsForConversation :: "egressState \<Rightarrow> string \<Rightarrow> proxySession list" where
  "getSessionsForConversation s conversationId =
     filter (\<lambda>p. px_conversationId p = conversationId) (map mg_session (listedSessions s))"

definition getActiveSession :: "egressState \<Rightarrow> string \<Rightarrow> proxySession option" where
  "getActiveSession s conversationId =
     find (\<lambda>p. px_conversationId p = conversationId \<and> px_status p = PxActive) (map mg_session (listedSessions s))"

section \<open>Life cycle\<close>

definition createSession ::
    "string \<Rightarrow> string list \<Rightarrow> partialSessionConfig \<Rightarrow> string option \<Rightarrow> bool \<Rightarrow> string \<Rightarrow> int \<Rightarrow> egressState \<Rightarrow> egressError + egressState" where
  "createSession conversationId credentialIds config dataDir approval uuid now s =
     (let merged = mergedConfig config;
          liveCount = length (filter (\<lambda>p. px_status p \<noteq> PxStopped) (getSessionsForConversation s conversationId)) in
      if int liveCount \<ge> pc_maxSessionsPerConversation merged
      then Inl (MaxSessionsReached (pc_maxSessionsPerConversation merged) conversationId)
      else Inr ((setObject uuid
        \<lparr>mg_session = \<lparr>px_id = uuid, px_conversationId = conversationId, px_credentialIds = credentialIds, px_status = PxStarting,
           px_createdAt = now, px_port = None\<rparr>,
         mg_server = False, mg_idleTimer = False, mg_config = merged, mg_dataDir = dataDir, mg_approvalCallback = approval,
         mg_listenHost = ''127.0.0.1'', mg_stopPromise = NoStop, mg_combinedCABundlePath = None\<rparr> s)
        \<lparr>eg_listed := eg_listed s @ [uuid]\<rparr>))"

text \<open>The checks at the entry of \<open>startSession\<close>.\<close>

definition checkStart :: "egressState \<Rightarrow> string \<Rightarrow> egressError option" where
  "checkStart s i =
     (case sessionOf s i of
        None \<Rightarrow> Some (SessionNotFound i)
      | Some m \<Rightarrow> if statusOf m \<noteq> PxStarting then Some (SessionNotStarting i (statusOf m)) else None)"

text \<open>The callback of \<open>listen\<close>.\<close>

definition activated :: "string \<Rightarrow> int \<Rightarrow> managedSession \<Rightarrow> managedSession" where
  "activated listenHost port m =
     m\<lparr>mg_session := (mg_session m)\<lparr>px_port := Some port, px_status := PxActive\<rparr>, mg_server := True,
       mg_listenHost := listenHost, mg_idleTimer := True\<rparr>"

definition stoppedSession :: "managedSession \<Rightarrow> managedSession" where
  "stoppedSession m =
     m\<lparr>mg_session := (mg_session m)\<lparr>px_status := PxStopped, px_port := None\<rparr>, mg_server := False,
       mg_approvalCallback := False, mg_stopPromise := NoStop\<rparr>"

text \<open>
  \<open>stopSession\<close> up to its first await. When there is no server to close, the stop is complete at once.
\<close>

definition stopSession :: "string \<Rightarrow> egressState \<Rightarrow> egressError option \<times> egressState" where
  "stopSession i s =
     (case sessionOf s i of
        None \<Rightarrow> (Some (SessionNotFound i), s)
      | Some m \<Rightarrow>
          if statusOf m = PxStopped then (None, s)
          else if statusOf m = PxStopping \<and> mg_stopPromise m \<noteq> NoStop then (None, s)
          else
            let m1 = (setStatus PxStopping m)\<lparr>mg_idleTimer := False\<rparr> in
            (None, setObject i (if mg_server m then m1\<lparr>mg_stopPromise := StopPending\<rparr> else stoppedSession m1) s))"

definition closeDone :: "string \<Rightarrow> string option \<Rightarrow> egressState \<Rightarrow> egressState option" where
  "closeDone i err s =
     (case map_get (eg_objects s) i of
        Some m \<Rightarrow>
          if mg_stopPromise m = StopPending then
            Some (setObject i (case err of Some e \<Rightarrow> m\<lparr>mg_stopPromise := StopRejected e\<rparr> | None \<Rightarrow> stoppedSession m) s)
          else None
      | None \<Rightarrow> None)"

text \<open>The stops of \<open>stopAllSessions\<close>; the store is cleared when all of them have settled.\<close>

definition stopAllSessions :: "egressState \<Rightarrow> egressState" where
  "stopAllSessions s = fold (\<lambda>i t. snd (stopSession i t)) (eg_listed s) s"

definition idleFires :: "string \<Rightarrow> egressState \<Rightarrow> egressState option" where
  "idleFires i s =
     (case map_get (eg_objects s) i of
        Some m \<Rightarrow> if mg_idleTimer m then Some (if statusOf m = PxActive then snd (stopSession i s) else s) else None
      | None \<Rightarrow> None)"

record proxyEnvVars =
  env_HTTP_PROXY :: string
  env_HTTPS_PROXY :: string
  env_NO_PROXY :: string
  env_NODE_EXTRA_CA_CERTS :: "string option"
  env_SSL_CERT_FILE :: "string option"

definition getSessionEnv :: "(string \<Rightarrow> string) option \<Rightarrow> string \<Rightarrow> egressState \<Rightarrow> (egressError + proxyEnvVars) \<times> egressState" where
  "getSessionEnv getCAPath i s =
     (case sessionOf s i of
        None \<Rightarrow> (Inl (SessionNotFound i), s)
      | Some m \<Rightarrow>
          (case px_port (mg_session m) of
             None \<Rightarrow> (Inl (SessionNotActive i), s)
           | Some port \<Rightarrow>
               if statusOf m \<noteq> PxActive then (Inl (SessionNotActive i), s)
               else
                 let proxyUrl = ''http://127.0.0.1:'' @ number_text port;
                     mitm = truthy (mg_dataDir m) \<and> truthy (mg_combinedCABundlePath m) in
                 (Inr \<lparr>env_HTTP_PROXY = proxyUrl, env_HTTPS_PROXY = proxyUrl, env_NO_PROXY = ''localhost,127.0.0.1,::1'',
                    env_NODE_EXTRA_CA_CERTS = (if mitm then map_option (\<lambda>f. f (the (mg_dataDir m))) getCAPath else None),
                    env_SSL_CERT_FILE = (if mitm then mg_combinedCABundlePath m else None)\<rparr>,
                  setObject i (m\<lparr>mg_idleTimer := True\<rparr>) s)))"

section \<open>Acquisition\<close>

definition setStage :: "nat \<Rightarrow> acquireCall \<Rightarrow> acquireStage \<Rightarrow> egressState \<Rightarrow> egressState" where
  "setStage c call stage s = s\<lparr>eg_calls := map_set c (call\<lparr>ac_stage := stage\<rparr>) (eg_calls s)\<rparr>"

definition usableFor :: "egressState \<Rightarrow> acquireCall \<Rightarrow> proxySession \<Rightarrow> bool" where
  "usableFor s call p \<longleftrightarrow>
     credentialIdsMatch (px_credentialIds p) (ac_credentialIds call) \<and>
     (case sessionOf s (px_id p) of None \<Rightarrow> False | Some m \<Rightarrow> mg_listenHost m = ac_listenHost call)"

text \<open>\<open>createSession\<close> and the entry of \<open>startSession\<close>, inside the lock.\<close>

definition createAndStart :: "nat \<Rightarrow> acquireCall \<Rightarrow> string \<Rightarrow> int \<Rightarrow> egressState \<Rightarrow> egressState" where
  "createAndStart c call uuid now s =
     (case createSession (ac_conversationId call) (ac_credentialIds call) (ac_config call) (ac_dataDir call)
             (ac_approvalCallback call) uuid now s of
        Inl e \<Rightarrow> setStage c call (InnerSettled (Inl e)) s
      | Inr s1 \<Rightarrow>
          (case checkStart s1 uuid of
             Some e \<Rightarrow> setStage c call (InnerSettled (Inl e)) s1
           | None \<Rightarrow> setStage c call (if ac_setupCA call then AwaitCA uuid else AwaitServer uuid) s1))"

text \<open>The inner function up to its first await; the lock is set in the same turn.\<close>

definition enterLock :: "nat \<Rightarrow> acquireCall \<Rightarrow> string \<Rightarrow> int \<Rightarrow> egressState \<Rightarrow> egressState" where
  "enterLock c call uuid now s =
     (let s1 = s\<lparr>eg_locks := map_set (ac_conversationId call) c (eg_locks s)\<rparr> in
      case getActiveSession s (ac_conversationId call) of
        None \<Rightarrow> createAndStart c call uuid now s1
      | Some p \<Rightarrow>
          if usableFor s call p then setStage c call (InnerSettled (Inr (p, False))) s1
          else
            (case stopSession (px_id p) s1 of
               (Some e, s2) \<Rightarrow> setStage c call (InnerSettled (Inl e)) s2
             | (None, s2) \<Rightarrow> setStage c call (AwaitStopRecheck (px_id p)) s2))"

definition acquireLoop :: "nat \<Rightarrow> acquireCall \<Rightarrow> string \<Rightarrow> int \<Rightarrow> egressState \<Rightarrow> egressState" where
  "acquireLoop c call uuid now s =
     (case map_get (eg_locks s) (ac_conversationId call) of
        Some n \<Rightarrow> setStage c call (AwaitLock n) s
      | None \<Rightarrow> enterLock c call uuid now s)"

definition getOrStartSession :: "acquireCall \<Rightarrow> string \<Rightarrow> int \<Rightarrow> egressState \<Rightarrow> egressState" where
  "getOrStartSession call uuid now s =
     (let c = eg_next s; s1 = s\<lparr>eg_next := Suc (eg_next s)\<rparr> in
      case getActiveSession s (ac_conversationId call) of
        Some p \<Rightarrow>
          if usableFor s call p then setStage c call (AcquireReturned (Inr (p, False))) s1 else acquireLoop c call uuid now s1
      | None \<Rightarrow> acquireLoop c call uuid now s1)"

text \<open>A waiter goes on when the holder of the lock has returned.\<close>

definition resumeLock :: "nat \<Rightarrow> acquireCall \<Rightarrow> egressError + proxySession \<times> bool \<Rightarrow> egressState \<Rightarrow> egressState" where
  "resumeLock c call outcome s =
     (case outcome of
        Inl e \<Rightarrow> setStage c call (AcquireReturned (Inl e)) s
      | Inr (p, created) \<Rightarrow>
          if usableFor s call p then setStage c call (AcquireReturned (Inr (p, False))) s
          else
            (case stopSession (px_id p) s of
               (Some e, s1) \<Rightarrow> setStage c call (AcquireReturned (Inl e)) s1
             | (None, s1) \<Rightarrow> setStage c call (AwaitStopOther (px_id p)) s1))"

text \<open>The outcome of a stop that was awaited; \<open>None\<close> while it is pending.\<close>

definition stopOutcome :: "egressState \<Rightarrow> string \<Rightarrow> egressError option option" where
  "stopOutcome s i =
     (case map_get (eg_objects s) i of
        None \<Rightarrow> Some None
      | Some m \<Rightarrow> (case mg_stopPromise m of NoStop \<Rightarrow> Some None | StopRejected e \<Rightarrow> Some (Some (CloseFailed e)) | StopPending \<Rightarrow> None))"

section \<open>Steps\<close>

datatype egressEvent =
    Acquire acquireCall string int
  | ResumeAcquire nat string int
  | CASetUp nat "string + string option"
  | ServerCreated nat "string option"
  | Listened nat "string + int"
  | ReleaseLock nat
  | StopRequested string
  | ServerClosed string "string option"
  | IdleTimeout string
  | EnvRequested string
  | StopAll
  | ClearSessions

definition resumeAcquire :: "nat \<Rightarrow> acquireCall \<Rightarrow> string \<Rightarrow> int \<Rightarrow> egressState \<Rightarrow> egressState option" where
  "resumeAcquire c call uuid now s =
     (case ac_stage call of
        AwaitLock n \<Rightarrow>
          (case map_get (eg_calls s) n of
             Some other \<Rightarrow> (case ac_stage other of AcquireReturned outcome \<Rightarrow> Some (resumeLock c call outcome s) | _ \<Rightarrow> None)
           | None \<Rightarrow> None)
      | AwaitStopOther i \<Rightarrow>
          map_option (\<lambda>r. case r of Some e \<Rightarrow> setStage c call (AcquireReturned (Inl e)) s | None \<Rightarrow> acquireLoop c call uuid now s)
            (stopOutcome s i)
      | AwaitStopRecheck i \<Rightarrow>
          map_option (\<lambda>r. case r of Some e \<Rightarrow> setStage c call (InnerSettled (Inl e)) s | None \<Rightarrow> createAndStart c call uuid now s)
            (stopOutcome s i)
      | _ \<Rightarrow> None)"

definition caSetUp :: "nat \<Rightarrow> acquireCall \<Rightarrow> string + string option \<Rightarrow> egressState \<Rightarrow> egressState option" where
  "caSetUp c call r s =
     (case ac_stage call of
        AwaitCA i \<Rightarrow>
          (case r of
             Inl e \<Rightarrow> Some (setStage c call (InnerSettled (Inl (HookFailed e))) (unlist i s))
           | Inr path \<Rightarrow>
               map_option (\<lambda>m. setStage c call (AwaitServer i) (setObject i (m\<lparr>mg_combinedCABundlePath := path\<rparr>) s))
                 (map_get (eg_objects s) i))
      | _ \<Rightarrow> None)"

definition serverCreated :: "nat \<Rightarrow> acquireCall \<Rightarrow> string option \<Rightarrow> egressState \<Rightarrow> egressState option" where
  "serverCreated c call err s =
     (case ac_stage call of
        AwaitServer i \<Rightarrow>
          Some (setStage c call (case err of Some e \<Rightarrow> InnerSettled (Inl (HookFailed e)) | None \<Rightarrow> AwaitListen i) s)
      | _ \<Rightarrow> None)"

definition listened :: "nat \<Rightarrow> acquireCall \<Rightarrow> string + int \<Rightarrow> egressState \<Rightarrow> egressState option" where
  "listened c call r s =
     (case ac_stage call of
        AwaitListen i \<Rightarrow>
          (case r of
             Inl e \<Rightarrow> Some (setStage c call (InnerSettled (Inl (HookFailed e))) (unlist i s))
           | Inr port \<Rightarrow>
               map_option (\<lambda>m. let m1 = activated (ac_listenHost call) port m in
                   setStage c call (InnerSettled (Inr (mg_session m1, True))) (setObject i m1 s))
                 (map_get (eg_objects s) i))
      | _ \<Rightarrow> None)"

definition releaseAcquireLock :: "nat \<Rightarrow> acquireCall \<Rightarrow> egressState \<Rightarrow> egressState option" where
  "releaseAcquireLock c call s =
     (case ac_stage call of
        InnerSettled outcome \<Rightarrow>
          Some (setStage c call (AcquireReturned outcome) (s\<lparr>eg_locks := map_delete (ac_conversationId call) (eg_locks s)\<rparr>))
      | _ \<Rightarrow> None)"

text \<open>\<open>None\<close>: the step is not possible. Identifiers are fresh: \<open>randomUUID\<close> does not repeat one.\<close>

fun egressStep :: "egressEvent \<Rightarrow> egressState \<Rightarrow> egressState option" where
  "egressStep (Acquire call uuid now) s =
     (if map_get (eg_objects s) uuid = None then Some (getOrStartSession call uuid now s) else None)"
| "egressStep (ResumeAcquire c uuid now) s =
     (if map_get (eg_objects s) uuid = None
      then Option.bind (map_get (eg_calls s) c) (\<lambda>call. resumeAcquire c call uuid now s) else None)"
| "egressStep (CASetUp c r) s = Option.bind (map_get (eg_calls s) c) (\<lambda>call. caSetUp c call r s)"
| "egressStep (ServerCreated c err) s = Option.bind (map_get (eg_calls s) c) (\<lambda>call. serverCreated c call err s)"
| "egressStep (Listened c r) s = Option.bind (map_get (eg_calls s) c) (\<lambda>call. listened c call r s)"
| "egressStep (ReleaseLock c) s = Option.bind (map_get (eg_calls s) c) (\<lambda>call. releaseAcquireLock c call s)"
| "egressStep (StopRequested i) s = Some (snd (stopSession i s))"
| "egressStep (ServerClosed i err) s = closeDone i err s"
| "egressStep (IdleTimeout i) s = idleFires i s"
| "egressStep (EnvRequested i) s = Some (snd (getSessionEnv None i s))"
| "egressStep StopAll s = Some (stopAllSessions s)"
| "egressStep ClearSessions s = Some (s\<lparr>eg_listed := []\<rparr>)"

fun egressRun :: "egressEvent list \<Rightarrow> egressState \<Rightarrow> egressState option" where
  "egressRun [] s = Some s"
| "egressRun (e # es) s = Option.bind (egressStep e s) (egressRun es)"

lemma credentialIdsMatch_mset: "credentialIdsMatch a b \<longleftrightarrow> mset a = mset b"
proof
  assume m: "credentialIdsMatch a b"
  then have "length (sort a) = length (sort b)" "\<forall>i < length (sort a). sort a ! i = sort b ! i"
    by (auto simp: credentialIdsMatch_def Let_def list_all_iff split: if_splits)
  then have "sort a = sort b" by (simp add: list_eq_iff_nth_eq)
  then show "mset a = mset b" by (metis mset_sort)
next
  assume "mset a = mset b"
  then have "sort a = sort b" "length a = length b" by (metis mset_sort properties_for_sort sorted_sort, metis size_mset)
  then show "credentialIdsMatch a b" by (simp add: credentialIdsMatch_def Let_def list_all_iff)
qed

end
