(* ===== verification/Egress_Properties.thy ===== *)
theory Egress_Properties
  imports Egress_Sessions
begin

text \<open>
  What the acquisition of proxy sessions guarantees under any interleaving: at most one active
  session per conversation, and a session that serves the credentials that were asked for.
\<close>

section \<open>The invariant\<close>

fun holding :: "acquireStage \<Rightarrow> bool" where
  "holding (AwaitStopRecheck i) = True"
| "holding (AwaitCA i) = True"
| "holding (AwaitServer i) = True"
| "holding (AwaitListen i) = True"
| "holding (InnerSettled r) = True"
| "holding _ = False"

text \<open>The call has had the lock, or needed none.\<close>

definition entered :: "acquireStage \<Rightarrow> bool" where
  "entered st \<longleftrightarrow> holding st \<or> (\<exists>r. st = AcquireReturned r)"

lemma entered_simps [simp]:
  "\<not> entered (AwaitLock n)" "\<not> entered (AwaitStopOther i)" "entered (AcquireReturned r)" "holding st \<Longrightarrow> entered st"
  by (simp_all add: entered_def)

definition activeIn :: "egressState \<Rightarrow> string \<Rightarrow> string \<Rightarrow> bool" where
  "activeIn s conv i \<longleftrightarrow>
     (\<exists>m. sessionOf s i = Some m \<and> px_conversationId (mg_session m) = conv \<and> statusOf m = PxActive)"

definition quietIn :: "egressState \<Rightarrow> string \<Rightarrow> bool" where
  "quietIn s conv \<longleftrightarrow> (\<forall>i. \<not> activeIn s conv i)"

definition oneActive :: "egressState \<Rightarrow> bool" where
  "oneActive s \<longleftrightarrow> (\<forall>conv i j. activeIn s conv i \<longrightarrow> activeIn s conv j \<longrightarrow> i = j)"

definition objectsOk :: "egressState \<Rightarrow> bool" where
  "objectsOk s \<longleftrightarrow> (\<forall>i m. map_get (eg_objects s) i = Some m \<longrightarrow> px_id (mg_session m) = i)"

definition locksOk :: "(nat, acquireCall) js_Map \<Rightarrow> (string, nat) js_Map \<Rightarrow> bool" where
  "locksOk calls locks \<longleftrightarrow>
     (\<forall>conv c. map_get locks conv = Some c \<longleftrightarrow>
        (\<exists>call. map_get calls c = Some call \<and> ac_conversationId call = conv \<and> holding (ac_stage call)))"

definition servesCall :: "acquireCall \<Rightarrow> proxySession \<Rightarrow> bool" where
  "servesCall call p \<longleftrightarrow>
     px_conversationId p = ac_conversationId call \<and> mset (px_credentialIds p) = mset (ac_credentialIds call)"

fun resultOk :: "acquireCall \<Rightarrow> egressError + proxySession \<times> bool \<Rightarrow> bool" where
  "resultOk call (Inl e) = True"
| "resultOk call (Inr (p, created)) = servesCall call p"

definition ownSession :: "egressState \<Rightarrow> acquireCall \<Rightarrow> string \<Rightarrow> bool" where
  "ownSession s call i \<longleftrightarrow> quietIn s (ac_conversationId call) \<and>
     (\<exists>m. map_get (eg_objects s) i = Some m \<and> servesCall call (mg_session m))"

definition callGood :: "egressState \<Rightarrow> acquireCall \<Rightarrow> bool" where
  "callGood s call \<longleftrightarrow>
     (case ac_stage call of
        AwaitLock n \<Rightarrow>
          (\<exists>other. map_get (eg_calls s) n = Some other \<and> ac_conversationId other = ac_conversationId call \<and> entered (ac_stage other))
      | AwaitStopOther i \<Rightarrow> True
      | AwaitStopRecheck i \<Rightarrow> quietIn s (ac_conversationId call)
      | AwaitCA i \<Rightarrow> ownSession s call i
      | AwaitServer i \<Rightarrow> ownSession s call i
      | AwaitListen i \<Rightarrow> ownSession s call i
      | InnerSettled r \<Rightarrow> resultOk call r
      | AcquireReturned r \<Rightarrow> resultOk call r)"

definition egressInv :: "egressState \<Rightarrow> bool" where
  "egressInv s \<longleftrightarrow> objectsOk s \<and> oneActive s \<and> locksOk (eg_calls s) (eg_locks s) \<and>
     (\<forall>c call. map_get (eg_calls s) c = Some call \<longrightarrow> c < eg_next s \<and> callGood s call)"

section \<open>Changes that activate nothing\<close>

text \<open>Sessions keep their identity, none becomes active.\<close>

definition calmer :: "egressState \<Rightarrow> egressState \<Rightarrow> bool" where
  "calmer s s' \<longleftrightarrow>
     (\<forall>conv i. activeIn s' conv i \<longrightarrow> activeIn s conv i) \<and> (objectsOk s \<longrightarrow> objectsOk s') \<and>
     (\<forall>i m. map_get (eg_objects s) i = Some m \<longrightarrow>
        (\<exists>m'. map_get (eg_objects s') i = Some m' \<and> px_conversationId (mg_session m') = px_conversationId (mg_session m) \<and>
           px_credentialIds (mg_session m') = px_credentialIds (mg_session m)))"

lemma calmer_refl [simp]: "calmer s s"
  by (simp add: calmer_def)

lemma calmer_trans:
  assumes "calmer s t" "calmer t u"
  shows "calmer s u"
  using assms unfolding calmer_def by metis

lemma calmer_frame: "eg_objects s' = eg_objects s \<Longrightarrow> set (eg_listed s') \<subseteq> set (eg_listed s) \<Longrightarrow> calmer s s'"
  by (auto simp: calmer_def activeIn_def sessionOf_def objectsOk_def split: if_splits)

text \<open>A session object changes in ways that matter here only by losing its activity.\<close>

definition tamed :: "managedSession \<Rightarrow> managedSession \<Rightarrow> bool" where
  "tamed m m' \<longleftrightarrow>
     px_id (mg_session m') = px_id (mg_session m) \<and> px_conversationId (mg_session m') = px_conversationId (mg_session m) \<and>
     px_credentialIds (mg_session m') = px_credentialIds (mg_session m) \<and> (statusOf m' = PxActive \<longrightarrow> statusOf m = PxActive)"

lemma calmer_setObject:
  assumes "map_get (eg_objects s) i = Some m" "tamed m m'"
  shows "calmer s (setObject i m' s)"
  using assms unfolding calmer_def activeIn_def sessionOf_def setObject_def objectsOk_def tamed_def by auto

lemma tamed_simps [simp]:
  "tamed m (m\<lparr>mg_stopPromise := p\<rparr>)" "tamed m (m\<lparr>mg_idleTimer := t\<rparr>)" "tamed m (m\<lparr>mg_combinedCABundlePath := x\<rparr>)"
  "tamed m (stoppedSession m)" "tamed m (stoppedSession (setStatus PxStopping m\<lparr>mg_idleTimer := t\<rparr>))"
  "tamed m (setStatus PxStopping m\<lparr>mg_idleTimer := t, mg_stopPromise := p\<rparr>)"
  by (simp_all add: tamed_def stoppedSession_def setStatus_def statusOf_def)

lemma sessionOf_object: "sessionOf s i = Some m \<Longrightarrow> map_get (eg_objects s) i = Some m"
  by (simp add: sessionOf_def split: if_splits)

lemma calmer_stop: "calmer s (snd (stopSession i s))"
  by (auto simp: stopSession_def Let_def split: option.splits intro!: calmer_setObject dest!: sessionOf_object)

lemma stop_frame [simp]:
  "eg_calls (snd (stopSession i s)) = eg_calls s" "eg_locks (snd (stopSession i s)) = eg_locks s"
  "eg_next (snd (stopSession i s)) = eg_next s" "eg_listed (snd (stopSession i s)) = eg_listed s"
  by (auto simp: stopSession_def setObject_def Let_def split: option.splits)

lemma stop_inactive: "stopSession i s = (None, s') \<Longrightarrow> \<not> activeIn s' conv i"
  by (auto simp: stopSession_def Let_def activeIn_def sessionOf_def setObject_def statusOf_def stoppedSession_def setStatus_def
      split: option.splits if_splits)

lemma calmer_close: "closeDone i err s = Some s' \<Longrightarrow> calmer s s'"
  by (auto simp: closeDone_def split: option.splits if_splits intro!: calmer_setObject)

lemma calmer_idle: "idleFires i s = Some s' \<Longrightarrow> calmer s s'"
  by (auto simp: idleFires_def split: option.splits if_splits intro: calmer_stop)

lemma calmer_env: "calmer s (snd (getSessionEnv g i s))"
  by (auto simp: getSessionEnv_def Let_def split: option.splits intro!: calmer_setObject dest!: sessionOf_object)

lemma stopAll_calm:
  "calmer s (fold (\<lambda>i t. snd (stopSession i t)) is s) \<and> eg_calls (fold (\<lambda>i t. snd (stopSession i t)) is s) = eg_calls s \<and>
   eg_locks (fold (\<lambda>i t. snd (stopSession i t)) is s) = eg_locks s \<and> eg_next (fold (\<lambda>i t. snd (stopSession i t)) is s) = eg_next s"
proof (induction "is" arbitrary: s)
  case (Cons i "is")
  from Cons.IH [of "snd (stopSession i s)"] calmer_trans [OF calmer_stop [of s i]] show ?case by simp
qed simp

lemma calmer_create:
  assumes "createSession conv creds cfg dir ap uuid now s = Inr s'" "map_get (eg_objects s) uuid = None"
  shows "calmer s s' \<and> eg_calls s' = eg_calls s \<and> eg_locks s' = eg_locks s \<and> eg_next s' = eg_next s \<and>
    (\<exists>m. map_get (eg_objects s') uuid = Some m \<and> px_conversationId (mg_session m) = conv \<and> px_credentialIds (mg_session m) = creds)"
  using assms
  by (auto simp: createSession_def Let_def calmer_def activeIn_def sessionOf_def setObject_def objectsOk_def statusOf_def
      split: if_splits)

lemma active_found:
  assumes "getActiveSession s conv = Some p" "objectsOk s"
  obtains m where "sessionOf s (px_id p) = Some m" "p = mg_session m" "px_conversationId p = conv" "activeIn s conv (px_id p)"
proof -
  have "p \<in> set (map mg_session (listedSessions s))" "px_conversationId p = conv" "px_status p = PxActive"
    using find_Some_mem [OF assms(1) [unfolded getActiveSession_def]] by auto
  then obtain i m where "i \<in> set (eg_listed s)" "map_get (eg_objects s) i = Some m" "p = mg_session m"
    by (auto simp: listedSessions_def map_filter_def)
  with assms(2) \<open>px_conversationId p = conv\<close> \<open>px_status p = PxActive\<close> show ?thesis
    by (intro that [of m]) (auto simp: sessionOf_def objectsOk_def activeIn_def statusOf_def)
qed

lemma none_active: "getActiveSession s conv = None \<Longrightarrow> quietIn s conv"
  by (force simp: getActiveSession_def find_None_iff listedSessions_def map_filter_def quietIn_def activeIn_def sessionOf_def
      statusOf_def split: if_splits)

section \<open>Steps of a call\<close>

lemma calmer_active: "calmer s s' \<Longrightarrow> activeIn s' conv i \<Longrightarrow> activeIn s conv i"
  by (simp add: calmer_def)

lemma calmer_objects: "calmer s s' \<Longrightarrow> objectsOk s \<Longrightarrow> objectsOk s'"
  by (simp add: calmer_def)

lemma calmer_object:
  assumes "calmer s s'" "map_get (eg_objects s) i = Some m"
  obtains m' where "map_get (eg_objects s') i = Some m'" "px_conversationId (mg_session m') = px_conversationId (mg_session m)"
    "px_credentialIds (mg_session m') = px_credentialIds (mg_session m)"
  using assms unfolding calmer_def by blast

lemma one_calmer: "oneActive s \<Longrightarrow> calmer s s' \<Longrightarrow> oneActive s'"
  unfolding oneActive_def using calmer_active by blast

lemma quiet_calmer: "quietIn s conv \<Longrightarrow> calmer s s' \<Longrightarrow> quietIn s' conv"
  unfolding quietIn_def using calmer_active by blast

lemma own_calmer:
  assumes "ownSession s call i" "calmer s s'"
  shows "ownSession s' call i"
proof -
  from assms(1) obtain m where "map_get (eg_objects s) i = Some m" "servesCall call (mg_session m)" by (auto simp: ownSession_def)
  moreover obtain m' where "map_get (eg_objects s') i = Some m'" "px_conversationId (mg_session m') = px_conversationId (mg_session m)"
    "px_credentialIds (mg_session m') = px_credentialIds (mg_session m)"
    by (rule calmer_object [OF assms(2) \<open>map_get (eg_objects s) i = Some m\<close>])
  moreover have "quietIn s' (ac_conversationId call)" using assms by (auto simp: ownSession_def intro: quiet_calmer)
  ultimately show ?thesis by (simp add: ownSession_def servesCall_def)
qed

definition callsKept :: "egressState \<Rightarrow> egressState \<Rightarrow> bool" where
  "callsKept s s' \<longleftrightarrow>
     (\<forall>n other. map_get (eg_calls s) n = Some other \<longrightarrow>
        (\<exists>other'. map_get (eg_calls s') n = Some other' \<and> ac_conversationId other' = ac_conversationId other \<and>
           (entered (ac_stage other) \<longrightarrow> entered (ac_stage other'))))"

lemma callsKept_eq [simp]: "eg_calls s' = eg_calls s \<Longrightarrow> callsKept s s'"
  by (simp add: callsKept_def)

lemma good_calmer:
  assumes "callGood s call" "calmer s s'" "callsKept s s'"
  shows "callGood s' call"
  using assms by (auto simp: callGood_def callsKept_def quiet_calmer own_calmer split: acquireStage.splits) metis

lemma inv_calmer:
  assumes "egressInv s" "calmer s s'" "eg_calls s' = eg_calls s" "eg_locks s' = eg_locks s" "eg_next s' = eg_next s"
  shows "egressInv s'"
  using assms(1,3-5) good_calmer [OF _ assms(2) callsKept_eq [OF assms(3)]]
  unfolding egressInv_def by (simp add: one_calmer [OF _ assms(2)] calmer_objects [OF assms(2)])

lemma setStage_simps [simp]:
  "eg_objects (setStage c call stage s) = eg_objects s" "eg_listed (setStage c call stage s) = eg_listed s"
  "eg_locks (setStage c call stage s) = eg_locks s" "eg_next (setStage c call stage s) = eg_next s"
  "eg_calls (setStage c call stage s) = map_set c (call\<lparr>ac_stage := stage\<rparr>) (eg_calls s)"
  by (simp_all add: setStage_def)

lemma setStage_calm [simp]: "calmer s s' \<Longrightarrow> calmer s (setStage c call stage s')"
  by (rule calmer_trans [OF _ calmer_frame]) auto

text \<open>A call moves on while the sessions stay calm; the locks have to fit.\<close>

lemma inv_stage:
  assumes inv: "egressInv s" and calm: "calmer s s'" and frame: "eg_calls s' = eg_calls s" "eg_next s \<le> eg_next s'" "c < eg_next s'"
    and same: "\<And>old. map_get (eg_calls s) c = Some old \<Longrightarrow>
      ac_conversationId old = ac_conversationId call \<and> (entered (ac_stage old) \<longrightarrow> entered stage)"
    and locks: "locksOk (map_set c (call\<lparr>ac_stage := stage\<rparr>) (eg_calls s)) (eg_locks s')"
    and good: "callGood (setStage c call stage s') (call\<lparr>ac_stage := stage\<rparr>)"
  shows "egressInv (setStage c call stage s')"
proof -
  let ?t = "setStage c call stage s'"
  have calm': "calmer s ?t" using calm by simp
  have kept: "callsKept s ?t"
    unfolding callsKept_def
  proof (intro allI impI)
    fix n other
    assume n: "map_get (eg_calls s) n = Some other"
    show "\<exists>other'. map_get (eg_calls ?t) n = Some other' \<and> ac_conversationId other' = ac_conversationId other \<and>
        (entered (ac_stage other) \<longrightarrow> entered (ac_stage other'))"
      using n frame(1) same [of other] by (cases "n = c") simp_all
  qed
  have "objectsOk ?t" "oneActive ?t"
    using one_calmer [OF _ calm'] calmer_objects [OF calm'] inv unfolding egressInv_def by blast+
  moreover have "n < eg_next ?t \<and> callGood ?t other" if "map_get (eg_calls ?t) n = Some other" for n other
  proof (cases "n = c")
    case True
    with that good frame(3) show ?thesis by simp
  next
    case False
    with that have "map_get (eg_calls s) n = Some other" using frame(1) by simp
    with inv have "n < eg_next s" "callGood s other" by (auto simp: egressInv_def)
    with good_calmer [OF _ calm' kept] frame(2) show ?thesis by simp
  qed
  ultimately show ?thesis using locks frame(1) by (simp add: egressInv_def)
qed

lemma locks_enter:
  assumes "locksOk calls locks" "map_get locks (ac_conversationId call) = None" "holding stage"
    and "\<And>old. map_get calls c = Some old \<Longrightarrow> \<not> holding (ac_stage old)"
  shows "locksOk (map_set c (call\<lparr>ac_stage := stage\<rparr>) calls) (map_set (ac_conversationId call) c locks)"
proof -
  have none: "\<not> (\<exists>other. map_get calls n = Some other \<and> ac_conversationId other = ac_conversationId call \<and> holding (ac_stage other))" for n
    using assms(1,2) unfolding locksOk_def by (metis option.distinct(1))
  have "map_get locks conv \<noteq> Some c" for conv using assms(1,4) unfolding locksOk_def by blast
  with none show ?thesis using assms(1,3) unfolding locksOk_def by (auto split: if_splits)
qed

lemma locks_stay:
  assumes "locksOk calls locks" "map_get calls c = Some call" "holding stage \<longleftrightarrow> holding (ac_stage call)"
  shows "locksOk (map_set c (call\<lparr>ac_stage := stage\<rparr>) calls) locks"
  using assms unfolding locksOk_def by auto

lemma locks_fresh:
  assumes "locksOk calls locks" "map_get calls c = None" "\<not> holding stage"
  shows "locksOk (map_set c (call\<lparr>ac_stage := stage\<rparr>) calls) locks"
proof -
  have "map_get locks conv \<noteq> Some c" for conv using assms(1,2) unfolding locksOk_def by auto
  with assms show ?thesis unfolding locksOk_def by auto
qed

lemma locks_release:
  assumes "locksOk calls locks" "map_get calls c = Some call" "holding (ac_stage call)" "\<not> holding stage"
  shows "locksOk (map_set c (call\<lparr>ac_stage := stage\<rparr>) calls) (map_delete (ac_conversationId call) locks)"
proof -
  have own: "map_get locks (ac_conversationId call) = Some c" using assms(1-3) unfolding locksOk_def by blast
  have "map_get (map_delete (ac_conversationId call) locks) conv = Some n \<longleftrightarrow>
      (\<exists>other. map_get (map_set c (call\<lparr>ac_stage := stage\<rparr>) calls) n = Some other \<and> ac_conversationId other = conv \<and> holding (ac_stage other))" for conv n
  proof (cases "n = c")
    case True
    have "map_get locks conv = Some c \<longleftrightarrow> conv = ac_conversationId call" using assms(1-3) unfolding locksOk_def by auto
    with True assms(4) show ?thesis by auto
  next
    case False
    then have "map_get locks (ac_conversationId call) \<noteq> Some n" using own by auto
    with False assms(1) show ?thesis unfolding locksOk_def by auto
  qed
  then show ?thesis unfolding locksOk_def by blast
qed

section \<open>Every step keeps the invariant\<close>

lemma call_info:
  assumes "egressInv s" "map_get (eg_calls s) c = Some call"
  shows "c < eg_next s" "callGood s call"
  using assms by (simp_all add: egressInv_def)

lemma inv_parts:
  assumes "egressInv s"
  shows "objectsOk s" "oneActive s" "locksOk (eg_calls s) (eg_locks s)"
  using assms by (simp_all add: egressInv_def)

text \<open>A step of a call that is known, whose lock does not change.\<close>

lemma inv_move:
  assumes inv: "egressInv s" and call: "map_get (eg_calls s) c = Some call" and "calmer s s'"
    and frame: "eg_calls s' = eg_calls s" "eg_locks s' = eg_locks s" "eg_next s' = eg_next s"
    and hold: "holding stage \<longleftrightarrow> holding (ac_stage call)" "\<And>r. ac_stage call \<noteq> AcquireReturned r"
    and good: "callGood (setStage c call stage s') (call\<lparr>ac_stage := stage\<rparr>)"
  shows "egressInv (setStage c call stage s')"
proof (rule inv_stage [OF inv assms(3) frame(1) _ _ _ _ good])
  show "locksOk (map_set c (call\<lparr>ac_stage := stage\<rparr>) (eg_calls s)) (eg_locks s')"
    using locks_stay [OF inv_parts(3) [OF inv] call hold(1)] frame(2) by simp
qed (use call call_info(1) [OF inv call] frame hold in \<open>auto simp: entered_def\<close>)

lemma createAndStart_inv:
  assumes inv: "egressInv s" and fresh: "map_get (eg_objects s) uuid = None" and quiet: "quietIn s (ac_conversationId call)"
    and next1: "c < eg_next s" and same: "\<And>old. map_get (eg_calls s) c = Some old \<Longrightarrow> ac_conversationId old = ac_conversationId call"
    and locks: "\<And>stage. holding stage \<Longrightarrow> locksOk (map_set c (call\<lparr>ac_stage := stage\<rparr>) (eg_calls s)) locks"
    and s1: "s1 = s\<lparr>eg_locks := locks\<rparr>"
  shows "egressInv (createAndStart c call uuid now s1)"
proof -
  have base: "calmer s s1" unfolding s1 by (rule calmer_frame) simp_all
  show ?thesis
  proof (cases "createSession (ac_conversationId call) (ac_credentialIds call) (ac_config call) (ac_dataDir call)
      (ac_approvalCallback call) uuid now s1")
    case (Inl e)
    have "egressInv (setStage c call (InnerSettled (Inl e)) s1)"
      by (rule inv_stage [OF inv base]) (use s1 next1 same locks in \<open>auto simp: callGood_def\<close>)
    with Inl show ?thesis by (simp add: createAndStart_def)
  next
    case (Inr s2)
    note made = calmer_create [OF Inr]
    have fresh1: "map_get (eg_objects s1) uuid = None" using fresh s1 by simp
    have calm: "calmer s s2" using calmer_trans [OF base] made fresh1 by blast
    have own: "ownSession s2 call uuid"
      using quiet_calmer [OF quiet calm] made fresh1 by (auto simp: ownSession_def servesCall_def)
    have own': "ownSession (setStage c call stage s2) call' i" if "ownSession s2 call' i" for stage call' i
      using own_calmer [OF that setStage_calm [OF calmer_refl]] .
    have move: "egressInv (setStage c call stage s2)" if "holding stage"
      "callGood (setStage c call stage s2) (call\<lparr>ac_stage := stage\<rparr>)" for stage
      by (rule inv_stage [OF inv calm]) (use s1 next1 same locks made fresh1 that in auto)
    have serve: "ownSession t (call\<lparr>ac_stage := st\<rparr>) i = ownSession t call i" for t st i
      by (simp add: ownSession_def servesCall_def)
    show ?thesis
      using own' [OF own] by (auto simp: createAndStart_def Inr callGood_def serve split: option.splits intro!: move)
  qed
qed

lemma usable_serves:
  assumes "usableFor s call p" "px_conversationId p = ac_conversationId call"
  shows "servesCall call p"
  using assms by (simp add: usableFor_def servesCall_def credentialIdsMatch_mset)

lemma serves_stage [simp]: "servesCall (call\<lparr>ac_stage := st\<rparr>) p = servesCall call p"
  by (simp add: servesCall_def)

lemma result_stage [simp]: "resultOk (call\<lparr>ac_stage := st\<rparr>) r = resultOk call r"
  by (cases "(call, r)" rule: resultOk.cases) auto

lemma own_stage [simp]: "ownSession s (call\<lparr>ac_stage := st\<rparr>) i = ownSession s call i"
  by (simp add: ownSession_def)

lemma quiet_after_stop:
  assumes inv: "egressInv s" and "activeIn s conv i" "stopSession i s1 = (None, s2)" "calmer s s1"
  shows "quietIn s2 conv"
proof -
  have calm: "calmer s s2" using calmer_trans [OF assms(4) calmer_stop [of s1 i]] assms(3) by simp
  have "\<not> activeIn s2 conv i" by (rule stop_inactive [OF assms(3)])
  moreover have "j = i" if "activeIn s2 conv j" for j
    using calmer_active [OF calm that] assms(2) inv_parts(2) [OF inv] by (auto simp: oneActive_def)
  ultimately show ?thesis by (auto simp: quietIn_def)
qed

lemma enterLock_inv:
  assumes inv: "egressInv s" and fresh: "map_get (eg_objects s) uuid = None" and next1: "c < eg_next s"
    and free: "map_get (eg_locks s) (ac_conversationId call) = None"
    and old: "\<And>old. map_get (eg_calls s) c = Some old \<Longrightarrow> ac_conversationId old = ac_conversationId call \<and> \<not> entered (ac_stage old)"
  shows "egressInv (enterLock c call uuid now s)"
proof -
  define s1 where "s1 = s\<lparr>eg_locks := map_set (ac_conversationId call) c (eg_locks s)\<rparr>"
  have base: "calmer s s1" unfolding s1_def by (rule calmer_frame) simp_all
  have locks: "locksOk (map_set c (call\<lparr>ac_stage := stage\<rparr>) (eg_calls s)) (map_set (ac_conversationId call) c (eg_locks s))" if "holding stage" for stage
    by (rule locks_enter [OF inv_parts(3) [OF inv] free that]) (use old entered_simps(4) in blast)
  have same: "ac_conversationId o1 = ac_conversationId call" if "map_get (eg_calls s) c = Some o1" for o1 using old [OF that] by simp
  have same2: "ac_conversationId o1 = ac_conversationId call \<and> (entered (ac_stage o1) \<longrightarrow> entered st)" if "map_get (eg_calls s) c = Some o1" for o1 st
    using old [OF that] by simp
  have move: "egressInv (setStage c call stage t)" if "holding stage" "calmer s t" "eg_calls t = eg_calls s" "eg_locks t = eg_locks s1"
    "eg_next t = eg_next s" "callGood (setStage c call stage t) (call\<lparr>ac_stage := stage\<rparr>)" for stage t
    by (rule inv_stage [OF inv that(2,3) _ _ same2 _ that(6)]) (use that(4,5) next1 locks [OF that(1)] s1_def in simp_all)
  show ?thesis
  proof (cases "getActiveSession s (ac_conversationId call)")
    case None
    have "egressInv (createAndStart c call uuid now s1)"
      by (rule createAndStart_inv [OF inv fresh none_active [OF None] next1 same locks s1_def])
    with None show ?thesis by (simp add: enterLock_def s1_def)
  next
    case (Some p)
    obtain m where p: "px_conversationId p = ac_conversationId call" "activeIn s (ac_conversationId call) (px_id p)"
      by (rule active_found [OF Some inv_parts(1) [OF inv]])
    show ?thesis
    proof (cases "usableFor s call p")
      case True
      have "egressInv (setStage c call (InnerSettled (Inr (p, False))) s1)"
        by (rule move) (use base usable_serves [OF True p(1)] in \<open>simp_all add: s1_def callGood_def\<close>)
      with Some True show ?thesis by (simp add: enterLock_def s1_def)
    next
      case False
      obtain r s2 where st: "stopSession (px_id p) s1 = (r, s2)" by fastforce
      have s2: "s2 = snd (stopSession (px_id p) s1)" by (simp add: st)
      have calm: "calmer s s2" unfolding s2 by (rule calmer_trans [OF base calmer_stop])
      have frame: "eg_calls s2 = eg_calls s" "eg_locks s2 = eg_locks s1" "eg_next s2 = eg_next s" by (simp_all add: s2 s1_def)
      show ?thesis
      proof (cases r)
        case (Some e)
        have "egressInv (setStage c call (InnerSettled (Inl e)) s2)"
          by (rule move [OF _ calm frame]) (simp_all add: callGood_def)
        with \<open>getActiveSession s _ = Some p\<close> False st Some show ?thesis by (simp add: enterLock_def s1_def)
      next
        case None
        have "quietIn s2 (ac_conversationId call)" using quiet_after_stop [OF inv p(2) _ base] st None by blast
        then have "quietIn (setStage c call st s2) (ac_conversationId call)" for st
          by (rule quiet_calmer) simp
        then have "egressInv (setStage c call (AwaitStopRecheck (px_id p)) s2)"
          by (intro move [OF _ calm frame]) (simp_all add: callGood_def)
        with \<open>getActiveSession s _ = Some p\<close> False st None show ?thesis by (simp add: enterLock_def s1_def)
      qed
    qed
  qed
qed

lemma acquireLoop_inv:
  assumes inv: "egressInv s" and fresh: "map_get (eg_objects s) uuid = None" and next1: "c < eg_next s"
    and old: "\<And>old. map_get (eg_calls s) c = Some old \<Longrightarrow> ac_conversationId old = ac_conversationId call \<and> \<not> entered (ac_stage old)"
  shows "egressInv (acquireLoop c call uuid now s)"
proof (cases "map_get (eg_locks s) (ac_conversationId call)")
  case None
  with enterLock_inv [OF inv fresh next1 None old] show ?thesis by (simp add: acquireLoop_def)
next
  case (Some n)
  then obtain holder where h: "map_get (eg_calls s) n = Some holder" "ac_conversationId holder = ac_conversationId call" "holding (ac_stage holder)"
    using inv_parts(3) [OF inv] by (auto simp: locksOk_def)
  have lk: "locksOk (map_set c (call\<lparr>ac_stage := AwaitLock n\<rparr>) (eg_calls s)) (eg_locks s)"
  proof (cases "map_get (eg_calls s) c")
    case None
    then show ?thesis by (rule locks_fresh [OF inv_parts(3) [OF inv]]) simp
  next
    case (Some o1)
    have "map_get (eg_locks s) conv \<noteq> Some c" for conv using inv_parts(3) [OF inv] Some old [OF Some] by (auto simp: locksOk_def entered_def)
    then show ?thesis using inv_parts(3) [OF inv] by (auto simp: locksOk_def)
  qed
  have "n \<noteq> c" using h(1,3) old [of holder] entered_simps(4) by blast
  then have "\<exists>other. map_get (map_set c (call\<lparr>ac_stage := AwaitLock n\<rparr>) (eg_calls s)) n = Some other \<and>
      ac_conversationId other = ac_conversationId call \<and> entered (ac_stage other)"
    using h by auto
  then have good: "callGood (setStage c call (AwaitLock n) s) (call\<lparr>ac_stage := AwaitLock n\<rparr>)" by (simp add: callGood_def)
  have same: "ac_conversationId o1 = ac_conversationId call \<and> (entered (ac_stage o1) \<longrightarrow> entered (AwaitLock n))" if "map_get (eg_calls s) c = Some o1" for o1
    using old [OF that] by simp
  have "egressInv (setStage c call (AwaitLock n) s)"
    by (rule inv_stage [OF inv calmer_refl refl order_refl next1 same lk good])
  with Some show ?thesis by (simp add: acquireLoop_def)
qed

lemma getOrStart_inv:
  assumes inv: "egressInv s" and fresh: "map_get (eg_objects s) uuid = None"
  shows "egressInv (getOrStartSession call uuid now s)"
proof -
  define c where "c = eg_next s"
  define s1 where "s1 = s\<lparr>eg_next := Suc (eg_next s)\<rparr>"
  have new: "map_get (eg_calls s) c = None" using inv unfolding egressInv_def c_def by (metis less_irrefl not_None_eq)
  have base: "calmer s s1" unfolding s1_def by (rule calmer_frame) simp_all
  have inv1: "egressInv s1"
    using inv good_calmer [OF _ base callsKept_eq] one_calmer [OF inv_parts(2) [OF inv] base] calmer_objects [OF base inv_parts(1) [OF inv]]
    by (auto simp: egressInv_def s1_def intro: less_SucI)
  have loop: "egressInv (acquireLoop c call uuid now s1)"
    by (rule acquireLoop_inv [OF inv1]) (use fresh new in \<open>simp_all add: s1_def c_def\<close>)
  have fast: "egressInv (setStage c call (AcquireReturned (Inr (p, False))) s1)" if serve: "servesCall call p" for p
  proof (rule inv_stage [OF inv base])
    show "locksOk (map_set c (call\<lparr>ac_stage := AcquireReturned (Inr (p, False))\<rparr>) (eg_calls s)) (eg_locks s1)"
      using locks_fresh [OF inv_parts(3) [OF inv] new] by (simp add: s1_def)
  qed (use new serve in \<open>simp_all add: s1_def c_def callGood_def\<close>)
  show ?thesis
  proof (cases "getActiveSession s (ac_conversationId call)")
    case None
    with loop show ?thesis by (simp add: getOrStartSession_def c_def s1_def)
  next
    case (Some p)
    obtain m where conv: "px_conversationId p = ac_conversationId call" by (rule active_found [OF Some inv_parts(1) [OF inv]])
    show ?thesis
    proof (cases "usableFor s call p")
      case True
      with fast [OF usable_serves [OF True conv]] Some show ?thesis by (simp add: getOrStartSession_def c_def s1_def)
    next
      case False
      with loop Some show ?thesis by (simp add: getOrStartSession_def c_def s1_def)
    qed
  qed
qed

lemma resumeLock_inv:
  assumes inv: "egressInv s" and call: "map_get (eg_calls s) c = Some call" and stage: "ac_stage call = AwaitLock n"
    and other: "map_get (eg_calls s) n = Some other" "ac_stage other = AcquireReturned outcome"
  shows "egressInv (resumeLock c call outcome s)"
proof -
  have conv: "ac_conversationId other = ac_conversationId call"
    using call_info(2) [OF inv call] stage other(1) by (simp add: callGood_def)
  have ok: "resultOk other outcome" using call_info(2) [OF inv other(1)] other(2) by (simp add: callGood_def)
  have move: "egressInv (setStage c call stage' t)" if "calmer s t" "eg_calls t = eg_calls s" "eg_locks t = eg_locks s"
    "eg_next t = eg_next s" "\<not> holding stage'" "callGood (setStage c call stage' t) (call\<lparr>ac_stage := stage'\<rparr>)" for stage' t
    using inv_move [OF inv call that(1-4) _ _ that(6)] that(5) stage by simp
  show ?thesis
  proof (cases "(other, outcome)" rule: resultOk.cases)
    case (1 ca e)
    have "egressInv (setStage c call (AcquireReturned (Inl e)) s)" by (rule move) (simp_all add: callGood_def)
    with 1 show ?thesis by (simp add: resumeLock_def)
  next
    case (2 ca p created)
    then have p: "px_conversationId p = ac_conversationId call" using ok conv by (simp add: servesCall_def)
    show ?thesis
    proof (cases "usableFor s call p")
      case True
      have "egressInv (setStage c call (AcquireReturned (Inr (p, False))) s)"
        by (rule move) (use usable_serves [OF True p] in \<open>simp_all add: callGood_def\<close>)
      with 2 True show ?thesis by (simp add: resumeLock_def)
    next
      case False
      obtain r t where st: "stopSession (px_id p) s = (r, t)" by fastforce
      have t: "t = snd (stopSession (px_id p) s)" by (simp add: st)
      have frame: "calmer s t" "eg_calls t = eg_calls s" "eg_locks t = eg_locks s" "eg_next t = eg_next s"
        unfolding t by (simp_all add: calmer_stop)
      have "egressInv (setStage c call (AwaitStopOther (px_id p)) t)" "egressInv (setStage c call (AcquireReturned (Inl e)) t)" for e
        by (rule move [OF frame]; simp add: callGood_def)+
      with 2 False st show ?thesis by (simp add: resumeLock_def split: option.splits)
    qed
  qed
qed

lemma resumeAcquire_inv:
  assumes inv: "egressInv s" and fresh: "map_get (eg_objects s) uuid = None" and call: "map_get (eg_calls s) c = Some call"
    and step: "resumeAcquire c call uuid now s = Some s'"
  shows "egressInv s'"
proof (cases "ac_stage call")
  case (AwaitLock n)
  with step obtain other outcome where "map_get (eg_calls s) n = Some other" "ac_stage other = AcquireReturned outcome"
    "s' = resumeLock c call outcome s"
    by (auto simp: resumeAcquire_def split: option.splits acquireStage.splits)
  with resumeLock_inv [OF inv call AwaitLock] show ?thesis by simp
next
  case (AwaitStopOther i)
  have fail: "egressInv (setStage c call (AcquireReturned (Inl e)) s)" for e
    by (rule inv_move [OF inv call calmer_refl]) (simp_all add: AwaitStopOther callGood_def)
  have loop: "egressInv (acquireLoop c call uuid now s)"
    by (rule acquireLoop_inv [OF inv fresh call_info(1) [OF inv call]]) (use call AwaitStopOther in simp)
  from step AwaitStopOther fail loop show ?thesis by (auto simp: resumeAcquire_def split: option.splits)
next
  case (AwaitStopRecheck i)
  have fail: "egressInv (setStage c call (InnerSettled (Inl e)) s)" for e
    by (rule inv_move [OF inv call calmer_refl]) (simp_all add: AwaitStopRecheck callGood_def)
  have quiet: "quietIn s (ac_conversationId call)" using call_info(2) [OF inv call] AwaitStopRecheck by (simp add: callGood_def)
  have create: "egressInv (createAndStart c call uuid now s)"
    by (rule createAndStart_inv [OF inv fresh quiet call_info(1) [OF inv call], where locks = "eg_locks s"])
      (use call locks_stay [OF inv_parts(3) [OF inv] call] AwaitStopRecheck in simp_all)
  from step AwaitStopRecheck fail create show ?thesis by (auto simp: resumeAcquire_def split: option.splits)
qed (use step in \<open>simp_all add: resumeAcquire_def\<close>)

lemma unlist_simps [simp]:
  "calmer s (unlist i s)" "eg_calls (unlist i s) = eg_calls s" "eg_locks (unlist i s) = eg_locks s" "eg_next (unlist i s) = eg_next s"
proof -
  show "calmer s (unlist i s)" by (rule calmer_frame) (auto simp: unlist_def)
qed (simp_all add: unlist_def)

lemma setObject_simps [simp]:
  "eg_calls (setObject i m s) = eg_calls s" "eg_locks (setObject i m s) = eg_locks s" "eg_next (setObject i m s) = eg_next s"
  "eg_listed (setObject i m s) = eg_listed s" "eg_objects (setObject i m s) = map_set i m (eg_objects s)"
  by (simp_all add: setObject_def)

lemma caSetUp_inv:
  assumes inv: "egressInv s" and call: "map_get (eg_calls s) c = Some call" and step: "caSetUp c call r s = Some s'"
  shows "egressInv s'"
proof -
  obtain i where stage: "ac_stage call = AwaitCA i" using step by (cases "ac_stage call") (auto simp: caSetUp_def)
  have own: "ownSession s call i" using call_info(2) [OF inv call] stage by (simp add: callGood_def)
  show ?thesis
  proof (cases r)
    case (Inl e)
    have "egressInv (setStage c call (InnerSettled (Inl (HookFailed e))) (unlist i s))"
      by (rule inv_move [OF inv call]) (simp_all add: stage callGood_def)
    with step stage Inl show ?thesis by (simp add: caSetUp_def)
  next
    case (Inr path)
    obtain m where m: "map_get (eg_objects s) i = Some m" using own by (auto simp: ownSession_def)
    have calm: "calmer s (setObject i (m\<lparr>mg_combinedCABundlePath := path\<rparr>) s)" by (rule calmer_setObject [OF m]) simp
    have "egressInv (setStage c call (AwaitServer i) (setObject i (m\<lparr>mg_combinedCABundlePath := path\<rparr>) s))"
      by (rule inv_move [OF inv call calm]) (use own_calmer [OF own setStage_calm [OF calm]] in \<open>simp_all add: stage callGood_def\<close>)
    with step stage Inr m show ?thesis by (simp add: caSetUp_def)
  qed
qed

lemma serverCreated_inv:
  assumes inv: "egressInv s" and call: "map_get (eg_calls s) c = Some call" and step: "serverCreated c call err s = Some s'"
  shows "egressInv s'"
proof -
  obtain i where stage: "ac_stage call = AwaitServer i" using step by (cases "ac_stage call") (auto simp: serverCreated_def)
  have own: "ownSession s call i" using call_info(2) [OF inv call] stage by (simp add: callGood_def)
  have "egressInv (setStage c call (InnerSettled (Inl e)) s)" for e
    by (rule inv_move [OF inv call calmer_refl]) (simp_all add: stage callGood_def)
  moreover have "egressInv (setStage c call (AwaitListen i) s)"
    by (rule inv_move [OF inv call calmer_refl])
      (use own_calmer [OF own setStage_calm [OF calmer_refl]] in \<open>simp_all add: stage callGood_def\<close>)
  ultimately show ?thesis using step stage by (auto simp: serverCreated_def split: option.splits)
qed

lemma releaseAcquireLock_inv:
  assumes inv: "egressInv s" and call: "map_get (eg_calls s) c = Some call" and step: "releaseAcquireLock c call s = Some s'"
  shows "egressInv s'"
proof -
  obtain r where stage: "ac_stage call = InnerSettled r" using step by (cases "ac_stage call") (auto simp: releaseAcquireLock_def)
  have ok: "resultOk call r" using call_info(2) [OF inv call] stage by (simp add: callGood_def)
  define t where "t = s\<lparr>eg_locks := map_delete (ac_conversationId call) (eg_locks s)\<rparr>"
  have calm: "calmer s t" unfolding t_def by (rule calmer_frame) simp_all
  have "egressInv (setStage c call (AcquireReturned r) t)"
  proof (rule inv_stage [OF inv calm])
    show "locksOk (map_set c (call\<lparr>ac_stage := AcquireReturned r\<rparr>) (eg_calls s)) (eg_locks t)"
      using locks_release [OF inv_parts(3) [OF inv] call] by (simp add: stage t_def)
  qed (use ok call call_info(1) [OF inv call] in \<open>simp_all add: t_def callGood_def\<close>)
  with step stage show ?thesis by (simp add: releaseAcquireLock_def t_def)
qed

text \<open>The callback of \<open>listen\<close> is the only step that activates a session; its call holds the lock.\<close>

lemma lock_unique:
  assumes "locksOk calls locks" "map_get calls c = Some call" "holding (ac_stage call)"
    and "map_get calls n = Some other" "holding (ac_stage other)" "ac_conversationId other = ac_conversationId call"
  shows "n = c"
proof -
  have "map_get locks (ac_conversationId call) = Some c" "map_get locks (ac_conversationId call) = Some n"
    using assms unfolding locksOk_def by blast+
  then show ?thesis by simp
qed

lemma active_setObject:
  "activeIn (setObject i m s) conv j \<longleftrightarrow>
     (if j = i then i \<in> set (eg_listed s) \<and> px_conversationId (mg_session m) = conv \<and> statusOf m = PxActive else activeIn s conv j)"
  by (auto simp: activeIn_def sessionOf_def)

lemma active_setStage [simp]: "activeIn (setStage c call st s) conv j = activeIn s conv j"
  by (simp add: activeIn_def sessionOf_def)

lemma good_elsewhere:
  assumes "callGood s other" "callsKept s s'"
    and quiet: "quietIn s (ac_conversationId other) \<Longrightarrow> holding (ac_stage other) \<Longrightarrow> quietIn s' (ac_conversationId other)"
    and objects: "\<And>j m. map_get (eg_objects s) j = Some m \<Longrightarrow> servesCall other (mg_session m) \<Longrightarrow>
      \<exists>m'. map_get (eg_objects s') j = Some m' \<and> servesCall other (mg_session m')"
  shows "callGood s' other"
proof -
  have own: "ownSession s' other j" if "ownSession s other j" "holding (ac_stage other)" for j
    using that quiet objects unfolding ownSession_def by blast
  show ?thesis
  proof (cases "ac_stage other")
    case (AwaitLock n)
    with assms(1,2) show ?thesis by (auto simp: callGood_def callsKept_def) metis
  qed (use assms(1) own quiet in \<open>simp_all add: callGood_def\<close>)
qed

lemma listened_inv:
  assumes inv: "egressInv s" and call: "map_get (eg_calls s) c = Some call" and step: "listened c call r s = Some s'"
  shows "egressInv s'"
proof -
  obtain i where stage: "ac_stage call = AwaitListen i" using step by (cases "ac_stage call") (auto simp: listened_def)
  have own: "ownSession s call i" using call_info(2) [OF inv call] stage by (simp add: callGood_def)
  then obtain m where m: "map_get (eg_objects s) i = Some m" "servesCall call (mg_session m)" and quiet: "quietIn s (ac_conversationId call)"
    by (auto simp: ownSession_def)
  show ?thesis
  proof (cases r)
    case (Inl e)
    have "egressInv (setStage c call (InnerSettled (Inl (HookFailed e))) (unlist i s))"
      by (rule inv_move [OF inv call]) (simp_all add: stage callGood_def)
    with step stage Inl show ?thesis by (simp add: listened_def)
  next
    case (Inr port)
    define m1 where "m1 = activated (ac_listenHost call) port m"
    define st where "st = InnerSettled (Inr (mg_session m1, True))"
    define t where "t = setStage c call st (setObject i m1 s)"
    have m1: "px_id (mg_session m1) = px_id (mg_session m)" "px_conversationId (mg_session m1) = ac_conversationId call"
      "servesCall other (mg_session m1) = servesCall other (mg_session m)" for other
      using m(2) by (simp_all add: m1_def activated_def servesCall_def)
    have act: "activeIn t conv j \<Longrightarrow> conv = ac_conversationId call \<and> j = i \<or> conv \<noteq> ac_conversationId call \<and> activeIn s conv j" for conv j
      using quiet m1(2) by (auto simp: t_def active_setObject quietIn_def split: if_splits)
    have "objectsOk t" using inv_parts(1) [OF inv] m(1) m1(1) by (simp add: objectsOk_def t_def)
    moreover have "oneActive t" using act inv_parts(2) [OF inv] unfolding oneActive_def by metis
    moreover have "locksOk (eg_calls t) (eg_locks t)"
      using locks_stay [OF inv_parts(3) [OF inv] call, of st] by (simp add: stage st_def t_def)
    moreover have "n < eg_next t \<and> callGood t other" if n: "map_get (eg_calls t) n = Some other" for n other
    proof (cases "n = c")
      case True
      then have "other = call\<lparr>ac_stage := st\<rparr>" using n by (simp add: t_def)
      with True m(2) call_info(1) [OF inv call] m1(3) show ?thesis by (simp add: t_def st_def callGood_def)
    next
      case False
      then have o: "map_get (eg_calls s) n = Some other" using n by (simp add: t_def)
      have kept: "callsKept s t" using call unfolding callsKept_def by (auto simp: t_def st_def)
      have "callGood t other"
      proof (rule good_elsewhere [OF call_info(2) [OF inv o] kept])
        assume q: "quietIn s (ac_conversationId other)" "holding (ac_stage other)"
        have "ac_conversationId other \<noteq> ac_conversationId call"
          using lock_unique [OF inv_parts(3) [OF inv] call _ o q(2)] stage False by auto
        with q(1) act show "quietIn t (ac_conversationId other)" unfolding quietIn_def by blast
      next
        fix j m'
        assume "map_get (eg_objects s) j = Some m'" "servesCall other (mg_session m')"
        with m(1) m1(3) show "\<exists>m'. map_get (eg_objects t) j = Some m' \<and> servesCall other (mg_session m')"
          by (cases "j = i") (simp_all add: t_def)
      qed
      with call_info(1) [OF inv o] show ?thesis by (simp add: t_def)
    qed
    ultimately have "egressInv t" by (simp add: egressInv_def)
    moreover have "s' = t" using step stage Inr m(1) by (simp add: listened_def t_def st_def m1_def Let_def)
    ultimately show ?thesis by simp
  qed
qed

lemma close_frame:
  "closeDone i err s = Some s' \<Longrightarrow> eg_calls s' = eg_calls s \<and> eg_locks s' = eg_locks s \<and> eg_next s' = eg_next s"
  by (auto simp: closeDone_def split: option.splits if_splits)

lemma idle_frame:
  "idleFires i s = Some s' \<Longrightarrow> eg_calls s' = eg_calls s \<and> eg_locks s' = eg_locks s \<and> eg_next s' = eg_next s"
  by (auto simp: idleFires_def split: option.splits if_splits)

lemma env_frame:
  "eg_calls (snd (getSessionEnv g i s)) = eg_calls s \<and> eg_locks (snd (getSessionEnv g i s)) = eg_locks s \<and>
   eg_next (snd (getSessionEnv g i s)) = eg_next s"
  by (auto simp: getSessionEnv_def Let_def split: option.splits)

lemma clear_calm: "calmer s (s\<lparr>eg_listed := []\<rparr>)"
  by (rule calmer_frame) simp_all

lemmas acquire_steps = getOrStart_inv resumeAcquire_inv caSetUp_inv serverCreated_inv listened_inv releaseAcquireLock_inv

lemma egressStep_inv:
  assumes inv: "egressInv s" and step: "egressStep e s = Some s'"
  shows "egressInv s'"
proof (cases e)
  case (StopRequested i)
  with step show ?thesis using inv_calmer [OF inv calmer_stop] by auto
next
  case (ServerClosed i err)
  with step have "closeDone i err s = Some s'" by simp
  from inv_calmer [OF inv calmer_close [OF this]] close_frame [OF this] show ?thesis by simp
next
  case (IdleTimeout i)
  with step have "idleFires i s = Some s'" by simp
  from inv_calmer [OF inv calmer_idle [OF this]] idle_frame [OF this] show ?thesis by simp
next
  case (EnvRequested i)
  with step show ?thesis using inv_calmer [OF inv calmer_env [of s None i]] env_frame [of None i s] by auto
next
  case StopAll
  with step show ?thesis using inv_calmer [OF inv] stopAll_calm [of s "eg_listed s"] by (auto simp: stopAllSessions_def)
next
  case ClearSessions
  with step show ?thesis using inv_calmer [OF inv clear_calm] by auto
qed (use step inv in \<open>auto simp: bind_eq_Some_conv intro: acquire_steps split: if_splits\<close>)

interpretation eg: step_system "\<lambda>e s. get_or s (egressStep e s)" "\<lambda>e s. egressStep e s \<noteq> None" egressInv
  by unfold_locales (auto intro: egressStep_inv)

lemma empty_inv: "egressInv emptyEgress"
  by (simp add: egressInv_def emptyEgress_def objectsOk_def oneActive_def activeIn_def sessionOf_def locksOk_def)

lemma egressRun_fold:
  "egressRun es s = Some s' \<Longrightarrow>
   fold (\<lambda>e s. get_or s (egressStep e s)) es s = s' \<and> enabledRun (\<lambda>e s. get_or s (egressStep e s)) (\<lambda>e s. egressStep e s \<noteq> None) es s"
  by (induction es arbitrary: s) (auto simp: bind_eq_Some_conv)

lemma egress_reached: "egressRun es emptyEgress = Some s \<Longrightarrow> egressInv s"
  using eg.run_inv [OF empty_inv] egressRun_fold by blast

end
