(* ===== verification/Egress_Guarantees.thy ===== *)
theory Egress_Guarantees
  imports Egress_Properties
begin

text \<open>
  The guarantees of \<open>getOrStartSession\<close> over every interleaving of calls, stops, timers and hook
  outcomes, and four sequences in which a session is handed out stopped, leaked, revived or never closed.
\<close>

section \<open>Concrete sequences\<close>

definition askFor :: "string list \<Rightarrow> acquireCall" where
  "askFor creds =
     \<lparr>ac_conversationId = ''conv'', ac_credentialIds = creds, ac_listenHost = ''127.0.0.1'', ac_setupCA = False,
      ac_config = \<lparr>pp_idleTimeoutMs = None, pp_maxSessionsPerConversation = None, pp_allowedTargets = None\<rparr>, ac_dataDir = None, ac_approvalCallback = False,
      ac_stage = AwaitStopOther []\<rparr>"

definition sharedRun :: "egressEvent list" where
  "sharedRun =
     [Acquire (askFor [''a'', ''b'']) ''u1'' 0, Acquire (askFor [''b'', ''a'']) ''u2'' 1, ServerCreated 0 None,
      Listened 0 (Inr 4000), ReleaseLock 0, ResumeAcquire 1 ''u3'' 2]"

definition waitingRun :: "egressEvent list" where
  "waitingRun = [Acquire (askFor [''a'']) ''u1'' 0, Acquire (askFor [''b'']) ''u2'' 1]"

section \<open>One session per conversation\<close>

text \<open>
  C27: Whatever the order of acquisitions, hook outcomes, stops, idle timeouts and clears, a
  conversation never has two active proxy sessions in the store, and never two acquisitions between
  taking and releasing its lock.
\<close>

theorem egress_single_active:
  assumes "egressRun es emptyEgress = Some s"
  shows "(sessionOf s i = Some m \<and> sessionOf s j = Some n \<and> statusOf m = PxActive \<and> statusOf n = PxActive \<and>
      px_conversationId (mg_session m) = px_conversationId (mg_session n) \<longrightarrow> i = j) \<and>
    (map_get (eg_calls s) c = Some call \<and> map_get (eg_calls s) d = Some other \<and> holding (ac_stage call) \<and> holding (ac_stage other) \<and>
      ac_conversationId other = ac_conversationId call \<longrightarrow> d = c)"
proof -
  note inv = inv_parts [OF egress_reached [OF assms]]
  have "activeIn s (px_conversationId (mg_session n)) j" "activeIn s (px_conversationId (mg_session n)) i"
    if "sessionOf s i = Some m" "sessionOf s j = Some n" "statusOf m = PxActive" "statusOf n = PxActive"
      "px_conversationId (mg_session m) = px_conversationId (mg_session n)"
    using that by (auto simp: activeIn_def)
  with inv(2) lock_unique [OF inv(3)] show ?thesis unfolding oneActive_def by blast
qed

theorem egress_single_active_witness:
  "\<exists>s m. egressRun (take 4 sharedRun) emptyEgress = Some s \<and> sessionOf s ''u1'' = Some m \<and> statusOf m = PxActive \<and>
     (\<forall>j n. sessionOf s j = Some n \<and> statusOf n = PxActive \<and> px_conversationId (mg_session n) = ''conv'' \<longrightarrow> ''u1'' = j)"
proof -
  define s where "s = the (egressRun (take 4 sharedRun) emptyEgress)"
  define m where "m = the (sessionOf s ''u1'')"
  have run: "egressRun (take 4 sharedRun) emptyEgress = Some s" unfolding s_def by code_simp
  have m: "sessionOf s ''u1'' = Some m" "statusOf m = PxActive" "px_conversationId (mg_session m) = ''conv''"
    unfolding m_def s_def by code_simp+
  have "''u1'' = j" if "sessionOf s j = Some n" "statusOf n = PxActive" "px_conversationId (mg_session n) = ''conv''" for j n
    using egress_single_active [OF run, of "''u1''" m j n] m that by simp
  with run m show ?thesis by blast
qed

text \<open>
  A session that an acquisition returns, created or shared, belongs to the caller's conversation
  and carries exactly the credentials that were asked for, each as often as asked.
\<close>

theorem acquired_session_serves:
  assumes "egressRun es emptyEgress = Some s" "map_get (eg_calls s) c = Some call" "ac_stage call = AcquireReturned (Inr (p, created))"
  shows "px_conversationId p = ac_conversationId call \<and> mset (px_credentialIds p) = mset (ac_credentialIds call)"
  using call_info(2) [OF egress_reached [OF assms(1)] assms(2)] assms(3) by (simp add: callGood_def servesCall_def)

theorem acquired_session_serves_witness:
  "\<exists>s call p. egressRun sharedRun emptyEgress = Some s \<and> map_get (eg_calls s) 1 = Some call \<and>
     ac_stage call = AcquireReturned (Inr (p, False)) \<and> mset (px_credentialIds p) = mset [''b'', ''a'']"
proof -
  define s where "s = the (egressRun sharedRun emptyEgress)"
  define call where "call = the (map_get (eg_calls s) 1)"
  define p where "p = mg_session (the (sessionOf s ''u1''))"
  have run: "egressRun sharedRun emptyEgress = Some s" unfolding s_def by code_simp
  have call: "map_get (eg_calls s) 1 = Some call" "ac_stage call = AcquireReturned (Inr (p, False))" "ac_credentialIds call = [''b'', ''a'']"
    unfolding call_def s_def p_def by code_simp+
  from acquired_session_serves [OF run call(1,2)] run call show ?thesis by metis
qed

section \<open>No deadlock\<close>

fun actsFor :: "nat \<Rightarrow> egressEvent \<Rightarrow> bool" where
  "actsFor c (ResumeAcquire d uuid now) = (d = c)"
| "actsFor c (CASetUp d r) = (d = c)"
| "actsFor c (ServerCreated d err) = (d = c)"
| "actsFor c (Listened d r) = (d = c)"
| "actsFor c (ReleaseLock d) = (d = c)"
| "actsFor c _ = False"

fun closesFor :: "acquireStage \<Rightarrow> egressEvent \<Rightarrow> bool" where
  "closesFor (AwaitStopOther i) (ServerClosed j None) = (j = i)"
| "closesFor (AwaitStopRecheck i) (ServerClosed j None) = (j = i)"
| "closesFor _ _ = False"

lemma fresh_uuid: "\<exists>uuid. map_get (m :: (string, 'a) js_Map) uuid = None"
proof -
  have "finite (fst ` set m)" by simp
  then obtain uuid where "uuid \<notin> fst ` set m" using ex_new_if_finite [OF infinite_UNIV_listI] by blast
  then show ?thesis by (metis map_of_eq_None_iff)
qed

lemma stop_awaited:
  assumes call: "map_get (eg_calls s) c = Some call" and stage: "ac_stage call = AwaitStopOther i \<or> ac_stage call = AwaitStopRecheck i"
  shows "\<exists>e. egressStep e s \<noteq> None \<and> (actsFor c e \<or> closesFor (ac_stage call) e)"
proof (cases "stopOutcome s i")
  case None
  then have "egressStep (ServerClosed i None) s \<noteq> None"
    by (auto simp: stopOutcome_def closeDone_def split: option.splits stopPromise.splits)
  moreover have "closesFor (ac_stage call) (ServerClosed i None)" using stage by auto
  ultimately show ?thesis by blast
next
  case (Some r)
  obtain uuid where "map_get (eg_objects s) uuid = None" using fresh_uuid by blast
  with call stage Some have "egressStep (ResumeAcquire c uuid 0) s \<noteq> None" by (auto simp: resumeAcquire_def)
  then show ?thesis using actsFor.simps(1) by blast
qed

lemma holder_moves:
  assumes inv: "egressInv s" and call: "map_get (eg_calls s) c = Some call" and hold: "holding (ac_stage call)"
  shows "\<exists>e. egressStep e s \<noteq> None \<and> (actsFor c e \<or> closesFor (ac_stage call) e)"
proof (cases "ac_stage call")
  case (AwaitStopRecheck i)
  then show ?thesis using stop_awaited [OF call] by blast
next
  case (AwaitCA i)
  with call have "egressStep (CASetUp c (Inl [])) s \<noteq> None" by (simp add: caSetUp_def)
  then show ?thesis using actsFor.simps(2) by blast
next
  case (AwaitServer i)
  with call have "egressStep (ServerCreated c None) s \<noteq> None" by (simp add: serverCreated_def)
  then show ?thesis using actsFor.simps(3) by blast
next
  case (AwaitListen i)
  with call have "egressStep (Listened c (Inl [])) s \<noteq> None" by (simp add: listened_def)
  then show ?thesis using actsFor.simps(4) by blast
next
  case (InnerSettled r)
  with call have "egressStep (ReleaseLock c) s \<noteq> None" by (simp add: releaseAcquireLock_def)
  then show ?thesis using actsFor.simps(5) by blast
qed (use hold in simp_all)



section \<open>Sequences the callers should know of\<close>

definition statusAfter :: "egressEvent list \<Rightarrow> string \<Rightarrow> proxySessionStatus option" where
  "statusAfter es i = Option.bind (egressRun es emptyEgress) (\<lambda>s. map_option statusOf (sessionOf s i))"

definition stageAfter :: "egressEvent list \<Rightarrow> nat \<Rightarrow> acquireStage option" where
  "stageAfter es c = Option.bind (egressRun es emptyEgress) (\<lambda>s. map_option ac_stage (map_get (eg_calls s) c))"

text \<open>
  Two calls wait for the same session; the first stops it, because it needs other credentials, and
  the second is handed it although it is stopping.
\<close>

definition staleWaiterRun :: "egressEvent list" where
  "staleWaiterRun =
     [Acquire (askFor [''a'']) ''u1'' 0, Acquire (askFor [''b'']) ''u2'' 1, Acquire (askFor [''a'']) ''u3'' 2, ServerCreated 0 None,
      Listened 0 (Inr 4000), ReleaseLock 0, ResumeAcquire 1 ''u4'' 3, ResumeAcquire 2 ''u5'' 4]"

theorem waiter_gets_stopping_session:
  "statusAfter staleWaiterRun ''u1'' = Some PxStopping \<and>
   (case stageAfter staleWaiterRun 2 of Some (AcquireReturned (Inr (p, created))) \<Rightarrow> px_id p = ''u1'' | _ \<Rightarrow> False)"
  by code_simp

text \<open>A failing \<open>createServer\<close> leaves its session behind as starting; three failures use up the limit.\<close>

definition failedStart :: "nat \<Rightarrow> string \<Rightarrow> egressEvent list" where
  "failedStart c uuid = [Acquire (askFor [''a'']) uuid 0, ServerCreated c (Some ''boom''), ReleaseLock c]"

theorem failed_starts_use_the_limit:
  "stageAfter (failedStart 0 ''u1'' @ failedStart 1 ''u2'' @ failedStart 2 ''u3'' @ [Acquire (askFor [''a'']) ''u4'' 0]) 3 =
     Some (InnerSettled (Inl (MaxSessionsReached 3 ''conv'')))"
  by code_simp

text \<open>A session stopped while it was starting becomes active when its server listens.\<close>

definition revivedRun :: "egressEvent list" where
  "revivedRun = [Acquire (askFor [''a'']) ''u1'' 0, StopRequested ''u1'', ServerCreated 0 None, Listened 0 (Inr 4000)]"

theorem stopped_session_revived:
  "statusAfter (take 2 revivedRun) ''u1'' = Some PxStopped \<and> statusAfter revivedRun ''u1'' = Some PxActive"
  by code_simp

text \<open>After a failed close the session stays stopping: no later stop reaches the server.\<close>

definition failedCloseRun :: "egressEvent list" where
  "failedCloseRun = take 5 sharedRun @ [StopRequested ''u1'', ServerClosed ''u1'' (Some ''boom''), StopRequested ''u1'']"

theorem failed_close_is_final:
  "statusAfter failedCloseRun ''u1'' = Some PxStopping \<and> egressRun (failedCloseRun @ [ServerClosed ''u1'' None]) emptyEgress = None"
  by code_simp

end
