(* ===== verification/Posix_Files.thy ===== *)
theory Posix_Files
  imports Js_Strings "HOL-Library.Sublist"
begin

text \<open>
  The part of node:path and node:fs that the command executor uses, on POSIX. A file system maps the
  real path of a node, as the list of its names, to a file, a directory or a symbolic link; the root
  is always a directory. Files hold text and permission bits, which are recorded and not enforced.
  An operation may also fail for a reason outside this model: \<open>faults\<close> says which ones do, with the
  message. The other messages are the codes of the errors.
\<close>

section \<open>Path texts\<close>

fun normParts :: "bool \<Rightarrow> string list \<Rightarrow> string list \<Rightarrow> string list" where
  "normParts up acc [] = rev acc"
| "normParts up acc (x # xs) =
     (if x = [] \<or> x = ''.'' then normParts up acc xs
      else if x = ''..'' then
        (if acc \<noteq> [] \<and> hd acc \<noteq> ''..'' then normParts up (tl acc) xs
         else if up then normParts up (x # acc) xs else normParts up acc xs)
      else normParts up (x # acc) xs)"

definition isAbsolute :: "string \<Rightarrow> bool" where
  "isAbsolute p \<longleftrightarrow> startsWith p ''/''"

definition normalizePath :: "string \<Rightarrow> string" where
  "normalizePath p =
     (if p = [] then ''.''
      else
        let abs = isAbsolute p; trailing = (last p = CHR ''/'');
            s = joinWith ''/'' (normParts (\<not> abs) [] (splitOn (CHR ''/'') p)) in
        if s = [] then if abs then ''/'' else if trailing then ''./'' else ''.''
        else (if abs then ''/'' else []) @ s @ (if trailing then ''/'' else []))"

definition pathJoin :: "string list \<Rightarrow> string" where
  "pathJoin args = (let ps = filter (\<lambda>p. p \<noteq> []) args in if ps = [] then ''.'' else normalizePath (joinWith ''/'' ps))"

fun resolveText :: "string list \<Rightarrow> string \<Rightarrow> string" where
  "resolveText [] acc = acc"
| "resolveText (p # ps) acc =
     (if p = [] then resolveText ps acc
      else if isAbsolute p then p @ ''/'' @ acc
      else resolveText ps (p @ ''/'' @ acc))"

definition renderPath :: "string list \<Rightarrow> string" where
  "renderPath names = (if names = [] then ''/'' else concat (map (\<lambda>n. CHR ''/'' # n) names))"

definition pathResolve :: "string \<Rightarrow> string list \<Rightarrow> string" where
  "pathResolve cwd args = renderPath (normParts False [] (splitOn (CHR ''/'') (resolveText (rev args @ [cwd]) [])))"
  \<comment> \<open>\<open>resolve\<close>; the working directory \<open>cwd\<close> is absolute\<close>

definition dropSlashes :: "string \<Rightarrow> string" where
  "dropSlashes p = rev (dropWhile (\<lambda>c. c = CHR ''/'') (rev p))"

definition pathDirname :: "string \<Rightarrow> string" where
  "pathDirname p =
     (if p = [] then ''.''
      else case dropWhile (\<lambda>c. c \<noteq> CHR ''/'') (rev (dropSlashes (tl p))) of
             [] \<Rightarrow> if hd p = CHR ''/'' then ''/'' else ''.''
           | c # front \<Rightarrow> if hd p = CHR ''/'' \<and> front = [] then ''//'' else hd p # rev front)"

definition pathBase :: "string \<Rightarrow> string" where
  "pathBase p = rev (takeWhile (\<lambda>c. c \<noteq> CHR ''/'') (rev (dropSlashes p)))"

section \<open>Nodes\<close>

datatype fileNode = FileNode (node_text: string) (node_mode: int) | DirNode | LinkNode string

record fileSystem =
  fs_nodes :: "(string list, fileNode) js_Map"
  fs_cwd :: "string list"

definition nodeAt :: "fileSystem \<Rightarrow> string list \<Rightarrow> fileNode option" where
  "nodeAt fs p = (if p = [] then Some DirNode else map_get (fs_nodes fs) p)"

definition putNode :: "string list \<Rightarrow> fileNode \<Rightarrow> fileSystem \<Rightarrow> fileSystem" where
  "putNode p n fs = fs\<lparr>fs_nodes := map_set p n (fs_nodes fs)\<rparr>"

definition MAX_LINKS :: nat where
  "MAX_LINKS = 40"
  \<comment> \<open>the number of links Linux follows before it answers ELOOP\<close>

text \<open>
  Resolution of names from a directory. With \<open>create\<close> the last name may be missing, as for
  \<open>open\<close> with O\_CREAT, which follows a link to a missing file.
\<close>

function (sequential) walk :: "bool \<Rightarrow> fileSystem \<Rightarrow> nat \<Rightarrow> string list \<Rightarrow> string list \<Rightarrow> string list option" where
  "walk create fs links cur [] = Some cur"
| "walk create fs links cur (x # xs) =
     (if x = [] \<or> x = ''.'' then walk create fs links cur xs
      else if x = ''..'' then walk create fs links (butlast cur) xs
      else case nodeAt fs (cur @ [x]) of
             None \<Rightarrow> if create \<and> xs = [] then Some (cur @ [x]) else None
           | Some DirNode \<Rightarrow> walk create fs links (cur @ [x]) xs
           | Some (FileNode t m) \<Rightarrow> if xs = [] then Some (cur @ [x]) else None
           | Some (LinkNode target) \<Rightarrow>
               if links = 0 then None
               else walk create fs (links - 1) (if isAbsolute target then [] else cur) (splitOn (CHR ''/'') target @ xs))"
  by pat_completeness auto
termination
  by (relation "measures [\<lambda>(c, fs, links, cur, xs). links, \<lambda>(c, fs, links, cur, xs). length xs]") auto

definition startDir :: "fileSystem \<Rightarrow> string \<Rightarrow> string list" where
  "startDir fs p = (if isAbsolute p then [] else fs_cwd fs)"

definition findNode :: "bool \<Rightarrow> fileSystem \<Rightarrow> string \<Rightarrow> string list option" where
  "findNode create fs p = (if p = [] then None else walk create fs MAX_LINKS (startDir fs p) (splitOn (CHR ''/'') p))"

section \<open>Operations\<close>

datatype fileOp = OpRealpath | OpExists | OpRead | OpCopy | OpMkdir | OpChmod | OpRemove | OpWrite | OpLstat | OpReaddir | OpRename

type_synonym faults = "fileOp \<Rightarrow> string \<Rightarrow> string option"

definition realpathSync :: "faults \<Rightarrow> fileSystem \<Rightarrow> string \<Rightarrow> string option" where
  "realpathSync io fs p = (if io OpRealpath p \<noteq> None then None else map_option renderPath (findNode False fs p))"

definition existsSync :: "faults \<Rightarrow> fileSystem \<Rightarrow> string \<Rightarrow> bool" where
  "existsSync io fs p \<longleftrightarrow> io OpExists p = None \<and> findNode False fs p \<noteq> None"

definition faultOr :: "string option \<Rightarrow> string + 'a \<Rightarrow> string + 'a" where
  "faultOr fault r = (case fault of Some e \<Rightarrow> Inl e | None \<Rightarrow> r)"

definition readFileSync :: "faults \<Rightarrow> fileSystem \<Rightarrow> string \<Rightarrow> string + string" where
  "readFileSync io fs p =
     faultOr (io OpRead p)
       (case findNode False fs p of
          None \<Rightarrow> Inl ''ENOENT''
        | Some k \<Rightarrow> (case nodeAt fs k of Some (FileNode t m) \<Rightarrow> Inr t | _ \<Rightarrow> Inl ''EISDIR''))"

definition isSymbolicLink :: "faults \<Rightarrow> fileSystem \<Rightarrow> string \<Rightarrow> string + bool" where
  "isSymbolicLink io fs p =
     faultOr (io OpLstat p)
       (case walk False fs MAX_LINKS (startDir fs p) (butlast (splitOn (CHR ''/'') p)) of
          None \<Rightarrow> Inl ''ENOENT''
        | Some d \<Rightarrow>
            (case nodeAt fs (d @ [last (splitOn (CHR ''/'') p)]) of
               Some (LinkNode t) \<Rightarrow> Inr True
             | Some n \<Rightarrow> Inr False
             | None \<Rightarrow> if last (splitOn (CHR ''/'') p) \<in> {[], ''.'', ''..''} then Inr False else Inl ''ENOENT''))"

text \<open>The content is written through links, in a node that may be new, with the mode of the source.\<close>

definition copyFileSync :: "faults \<Rightarrow> string \<Rightarrow> string \<Rightarrow> fileSystem \<Rightarrow> string + fileSystem" where
  "copyFileSync io src dst fs =
     faultOr (io OpCopy dst)
       (case findNode False fs src of
          None \<Rightarrow> Inl ''ENOENT''
        | Some k \<Rightarrow>
            (case nodeAt fs k of
               Some (FileNode t m) \<Rightarrow>
                 (case findNode True fs dst of
                    None \<Rightarrow> Inl ''ENOENT''
                  | Some d \<Rightarrow> if nodeAt fs d = Some DirNode then Inl ''EISDIR'' else Inr (putNode d (FileNode t m) fs))
             | _ \<Rightarrow> Inl ''EISDIR''))"

definition writeFileSync :: "faults \<Rightarrow> string \<Rightarrow> string \<Rightarrow> int \<Rightarrow> fileSystem \<Rightarrow> string + fileSystem" where
  "writeFileSync io p text mode fs =
     faultOr (io OpWrite p)
       (case findNode True fs p of
          None \<Rightarrow> Inl ''ENOENT''
        | Some d \<Rightarrow>
            (case nodeAt fs d of
               Some DirNode \<Rightarrow> Inl ''EISDIR''
             | Some (FileNode t m) \<Rightarrow> Inr (putNode d (FileNode text m) fs)
             | _ \<Rightarrow> Inr (putNode d (FileNode text mode) fs)))"

text \<open>
  \<open>mkdirSync\<close> with \<open>recursive\<close>: every prefix of the path in turn is found to be a directory or made in
  its parent. What was made before an error stays.
\<close>

fun makeDirs :: "string list \<Rightarrow> string list \<Rightarrow> string list \<Rightarrow> fileSystem \<Rightarrow> bool \<times> fileSystem" where
  "makeDirs start made [] fs = (True, fs)"
| "makeDirs start made (x # xs) fs =
     (case walk False fs MAX_LINKS start (made @ [x]) of
        Some d \<Rightarrow> if nodeAt fs d = Some DirNode then makeDirs start (made @ [x]) xs fs else (False, fs)
      | None \<Rightarrow>
          (case walk False fs MAX_LINKS start made of
             None \<Rightarrow> (False, fs)
           | Some d \<Rightarrow>
               if nodeAt fs d = Some DirNode \<and> nodeAt fs (d @ [x]) = None
               then makeDirs start (made @ [x]) xs (putNode (d @ [x]) DirNode fs) else (False, fs)))"

definition mkdirSync :: "faults \<Rightarrow> string \<Rightarrow> fileSystem \<Rightarrow> string option \<times> fileSystem" where
  "mkdirSync io p fs =
     (case io OpMkdir p of
        Some e \<Rightarrow> (Some e, fs)
      | None \<Rightarrow>
          (case makeDirs (startDir fs p) [] (splitOn (CHR ''/'') p) fs of
             (True, fs') \<Rightarrow> (None, fs')
           | (False, fs') \<Rightarrow> (Some ''EEXIST'', fs')))"

definition chmodSync :: "faults \<Rightarrow> string \<Rightarrow> int \<Rightarrow> fileSystem \<Rightarrow> string + fileSystem" where
  "chmodSync io p mode fs =
     faultOr (io OpChmod p)
       (case findNode False fs p of
          None \<Rightarrow> Inl ''ENOENT''
        | Some k \<Rightarrow> (case nodeAt fs k of Some (FileNode t m) \<Rightarrow> Inr (putNode k (FileNode t mode) fs) | _ \<Rightarrow> Inr fs))"

text \<open>\<open>rmSync\<close> with \<open>recursive\<close> and \<open>force\<close>: the entry itself, not what a link points to.\<close>

definition entryOf :: "fileSystem \<Rightarrow> string \<Rightarrow> string list option" where
  "entryOf fs p =
     (let names = splitOn (CHR ''/'') (dropSlashes p) in
      map_option (\<lambda>d. d @ [last names]) (walk False fs MAX_LINKS (startDir fs p) (butlast names)))"

definition removeTree :: "string list \<Rightarrow> fileSystem \<Rightarrow> fileSystem" where
  "removeTree k fs = fs\<lparr>fs_nodes := filter (\<lambda>(p, n). \<not> prefix k p) (fs_nodes fs)\<rparr>"

definition rmSync :: "faults \<Rightarrow> string \<Rightarrow> fileSystem \<Rightarrow> string option \<times> fileSystem" where
  "rmSync io p fs =
     (case io OpRemove p of
        Some e \<Rightarrow> (Some e, fs)
      | None \<Rightarrow> (case entryOf fs p of None \<Rightarrow> (None, fs) | Some k \<Rightarrow> (None, removeTree k fs)))"

definition unlinkSync :: "faults \<Rightarrow> string \<Rightarrow> fileSystem \<Rightarrow> string option \<times> fileSystem" where
  "unlinkSync io p fs =
     (case io OpRemove p of
        Some e \<Rightarrow> (Some e, fs)
      | None \<Rightarrow>
          (case entryOf fs p of
             None \<Rightarrow> (Some ''ENOENT'', fs)
           | Some k \<Rightarrow>
               (case nodeAt fs k of
                  None \<Rightarrow> (Some ''ENOENT'', fs)
                | Some DirNode \<Rightarrow> (Some ''EISDIR'', fs)
                | Some n \<Rightarrow> (None, fs\<lparr>fs_nodes := map_delete k (fs_nodes fs)\<rparr>))))"

end
