(* ===== verification/Output_Scan.thy ===== *)
theory Output_Scan
  imports Js_Strings
begin

text \<open>
  The scan of command outputs before they are copied back to the workspace
  (credential-executor/src/commands/output-scan.ts). Its regular expressions are values of \<open>rx\<close>,
  matched by derivatives; \<open>RegExp.test\<close> looks for a match anywhere in the text. Texts are what
  \<open>toString("utf-8")\<close> gives.
\<close>

section \<open>Regular expressions\<close>

datatype rx =
    Fail
  | Eps
  | Cls "char \<Rightarrow> bool"
  | Seq rx rx
  | Alt rx rx
  | Star rx

fun nullable :: "rx \<Rightarrow> bool" where
  "nullable Fail = False"
| "nullable Eps = True"
| "nullable (Cls P) = False"
| "nullable (Seq r t) = (nullable r \<and> nullable t)"
| "nullable (Alt r t) = (nullable r \<or> nullable t)"
| "nullable (Star r) = True"

definition seqOf :: "rx \<Rightarrow> rx \<Rightarrow> rx" where
  "seqOf r t = (case r of Fail \<Rightarrow> Fail | Eps \<Rightarrow> t | _ \<Rightarrow> Seq r t)"

definition altOf :: "rx \<Rightarrow> rx \<Rightarrow> rx" where
  "altOf r t = (case r of Fail \<Rightarrow> t | _ \<Rightarrow> (case t of Fail \<Rightarrow> r | _ \<Rightarrow> Alt r t))"

fun deriv :: "char \<Rightarrow> rx \<Rightarrow> rx" where
  "deriv c Fail = Fail"
| "deriv c Eps = Fail"
| "deriv c (Cls P) = (if P c then Eps else Fail)"
| "deriv c (Seq r t) = (if nullable r then altOf (seqOf (deriv c r) t) (deriv c t) else seqOf (deriv c r) t)"
| "deriv c (Alt r t) = altOf (deriv c r) (deriv c t)"
| "deriv c (Star r) = seqOf (deriv c r) (Star r)"

text \<open>A prefix of the text matches; a match anywhere.\<close>

fun matchesHere :: "rx \<Rightarrow> string \<Rightarrow> bool" where
  "matchesHere r [] = nullable r"
| "matchesHere r (c # cs) = (nullable r \<or> matchesHere (deriv c r) cs)"

fun rxTest :: "rx \<Rightarrow> string \<Rightarrow> bool" where
  "rxTest r [] = matchesHere r []"
| "rxTest r (c # cs) = (matchesHere r (c # cs) \<or> rxTest r cs)"

text \<open>Building blocks: a literal, with and without case, white space, repetition.\<close>

fun rxs :: "rx list \<Rightarrow> rx" where
  "rxs [] = Eps"
| "rxs [r] = r"
| "rxs (r # rs) = Seq r (rxs rs)"

definition lit :: "string \<Rightarrow> rx" where
  "lit s = rxs (map (\<lambda>c. Cls (\<lambda>d. d = c)) s)"

definition ilit :: "string \<Rightarrow> rx" where
  "ilit s = rxs (map (\<lambda>c. Cls (\<lambda>d. lowerChar d = lowerChar c)) s)"

definition plus :: "rx \<Rightarrow> rx" where
  "plus r = Seq r (Star r)"

definition spaces :: rx where
  "spaces = Cls isSpace"

definition solid :: rx where
  "solid = Cls (\<lambda>c. \<not> isSpace c)"

section \<open>The patterns\<close>

definition AUTH_BEARING_FILENAMES :: "string list" where
  "AUTH_BEARING_FILENAMES =
     [''.netrc'', ''.npmrc'', ''.pypirc'', ''.docker/config.json'', ''credentials'', ''config.json'', ''.git-credentials'',
      ''.env'', ''.env.local'', ''.env.production'', ''.env.development'']"

definition netrcPattern :: rx where
  "netrcPattern =
     rxs [ilit ''machine'', plus spaces, plus solid, plus spaces, ilit ''login'', plus spaces, plus solid, plus spaces,
       ilit ''password'', plus spaces, plus solid]"

definition awsFilePattern :: rx where
  "awsFilePattern =
     rxs [ilit ''[default]'', Star spaces, lit [CHR 0x0A], Star spaces, ilit ''aws_access_key_id'', Star spaces, lit ''='']"

definition awsSecretPattern :: rx where
  "awsSecretPattern = rxs [ilit ''aws_secret_access_key'', Star spaces, lit ''='', Star spaces, plus solid]"

definition pemPattern :: rx where
  "pemPattern =
     rxs [lit ''-----BEGIN'', plus spaces, Alt Eps (rxs [lit ''RSA'', plus spaces]), lit ''PRIVATE'', plus spaces, lit ''KEY-----'']"

definition opensshPattern :: rx where
  "opensshPattern = rxs [lit ''-----BEGIN'', plus spaces, lit ''OPENSSH'', plus spaces, lit ''PRIVATE'', plus spaces, lit ''KEY-----'']"

definition isBase64Char :: "char \<Rightarrow> bool" where
  "isBase64Char c \<longleftrightarrow>
     (let n = (of_char c :: nat) in (65 \<le> n \<and> n \<le> 90) \<or> (97 \<le> n \<and> n \<le> 122) \<or> isDigit c \<or> c \<in> {CHR ''+'', CHR ''/'', CHR ''=''})"

definition dockerPattern :: rx where
  "dockerPattern =
     rxs ([lit (CHR 0x22 # ''auth'' @ [CHR 0x22]), Star spaces, lit '':'', Star spaces, lit [CHR 0x22]] @
       replicate 20 (Cls isBase64Char) @ [Star (Cls isBase64Char), lit [CHR 0x22]])"

definition npmPattern :: rx where
  "npmPattern = rxs [lit ''//'', plus (Cls (\<lambda>c. c \<noteq> CHR '':'')), lit '':_authToken'', Star spaces, lit ''='', Star spaces, plus solid]"

definition passwordPattern :: rx where
  "passwordPattern = rxs [ilit ''password'', Star spaces, lit ''='', Star spaces, plus solid]"

definition AUTH_BEARING_CONTENT_PATTERNS :: "(rx \<times> string) list" where
  "AUTH_BEARING_CONTENT_PATTERNS =
     [(netrcPattern, ''netrc-format credentials (machine/login/password)''),
      (awsFilePattern, ''AWS credentials file format''),
      (awsSecretPattern, ''AWS secret access key in config''),
      (pemPattern, ''PEM private key''),
      (opensshPattern, ''OpenSSH private key''),
      (dockerPattern, ''Docker registry auth token''),
      (npmPattern, ''npm registry auth token''),
      (passwordPattern, ''Plain-text password in config file'')]"

section \<open>The scanner\<close>

datatype scanViolation =
    SecretFound nat
  | AuthBearingFilename string
  | AuthBearingContent string

definition lastSegment :: "string \<Rightarrow> string" where
  "lastSegment name = (if CHR ''/'' \<in> set name then last (splitOn (CHR ''/'') name) else name)"

text \<open>The violations; the file is safe when there is none.\<close>

definition scanOutputFile :: "string \<Rightarrow> string \<Rightarrow> string list \<Rightarrow> scanViolation list" where
  "scanOutputFile filename content secrets =
     map (\<lambda>secret. SecretFound (length secret)) (filter (\<lambda>secret. secret \<noteq> [] \<and> includesSub content secret) secrets) @
     (if lastSegment (toLowerCase filename) \<in> set AUTH_BEARING_FILENAMES then [AuthBearingFilename filename] else []) @
     map (\<lambda>(p, description). AuthBearingContent description)
       (filter (\<lambda>(p, description). rxTest p content) AUTH_BEARING_CONTENT_PATTERNS)"

section \<open>What a match is\<close>

text \<open>The language of an expression, as the reference for \<open>test\<close>.\<close>

inductive_set repeated :: "string set \<Rightarrow> string set" for A where
  repeated_Nil: "[] \<in> repeated A"
| repeated_step: "u \<in> A \<Longrightarrow> v \<in> repeated A \<Longrightarrow> u @ v \<in> repeated A"

fun lang :: "rx \<Rightarrow> string set" where
  "lang Fail = {}"
| "lang Eps = {[]}"
| "lang (Cls P) = {[c] |c. P c}"
| "lang (Seq r t) = {u @ v |u v. u \<in> lang r \<and> v \<in> lang t}"
| "lang (Alt r t) = lang r \<union> lang t"
| "lang (Star r) = repeated (lang r)"

lemma nullable_lang: "nullable r \<longleftrightarrow> [] \<in> lang r"
  by (induction r) (auto intro: repeated_Nil)

lemma lang_seqOf [simp]: "lang (seqOf r t) = lang (Seq r t)"
  by (cases r) (auto simp: seqOf_def)

lemma lang_altOf [simp]: "lang (altOf r t) = lang (Alt r t)"
  by (cases r; cases t) (auto simp: altOf_def)

lemma repeated_Cons: "c # w \<in> repeated A \<longleftrightarrow> (\<exists>u v. w = u @ v \<and> c # u \<in> A \<and> v \<in> repeated A)"
proof
  show "\<exists>u v. w = u @ v \<and> c # u \<in> A \<and> v \<in> repeated A" if "c # w \<in> repeated A"
    using that
  proof (induction "c # w" rule: repeated.induct)
    case (repeated_step u v)
    then show ?case by (cases u) auto
  qed
next
  assume "\<exists>u v. w = u @ v \<and> c # u \<in> A \<and> v \<in> repeated A"
  then obtain u v where "w = u @ v" "c # u \<in> A" "v \<in> repeated A" by blast
  then show "c # w \<in> repeated A" using repeated_step [of "c # u" A v] by simp
qed

lemma deriv_lang: "w \<in> lang (deriv c r) \<longleftrightarrow> c # w \<in> lang r"
proof (induction r arbitrary: w)
  case (Seq r t)
  have "c # w \<in> lang (Seq r t) \<longleftrightarrow> (\<exists>u v. w = u @ v \<and> c # u \<in> lang r \<and> v \<in> lang t) \<or> [] \<in> lang r \<and> c # w \<in> lang t"
    by (auto simp: Cons_eq_append_conv)
  with Seq show ?case by (auto simp: nullable_lang)
qed (auto simp: repeated_Cons)

lemma matchesHere_lang: "matchesHere r s \<longleftrightarrow> (\<exists>u v. s = u @ v \<and> u \<in> lang r)"
proof (induction s arbitrary: r)
  case Nil
  show ?case by (simp add: nullable_lang)
next
  case (Cons c cs)
  have "(\<exists>u v. c # cs = u @ v \<and> u \<in> lang r) \<longleftrightarrow> [] \<in> lang r \<or> (\<exists>u v. cs = u @ v \<and> c # u \<in> lang r)"
    by (auto simp: Cons_eq_append_conv)
  with Cons show ?case by (simp add: nullable_lang deriv_lang)
qed

text \<open>\<open>test\<close> finds a match exactly when some part of the text is in the language.\<close>

lemma rxTest_lang: "rxTest r s \<longleftrightarrow> (\<exists>a u b. s = a @ u @ b \<and> u \<in> lang r)"
proof (induction s)
  case Nil
  show ?case by (simp add: nullable_lang)
next
  case (Cons c cs)
  have "(\<exists>a u b. c # cs = a @ u @ b \<and> u \<in> lang r) \<longleftrightarrow>
      (\<exists>u b. c # cs = u @ b \<and> u \<in> lang r) \<or> (\<exists>a u b. cs = a @ u @ b \<and> u \<in> lang r)"
    (is "?l = ?r")
  proof
    show "?l \<Longrightarrow> ?r" by (metis append_Nil append_Cons list.exhaust list.inject)
    show "?r \<Longrightarrow> ?l" by (metis append_Nil append_Cons)
  qed
  with Cons show ?case by (simp add: matchesHere_lang)
qed

lemma includesSub_iff: "includesSub s t \<longleftrightarrow> (\<exists>a b. s = a @ t @ b)"
proof
  assume "includesSub s t"
  then obtain i where "take (length t) (drop i s) = t" by (auto simp: includesSub_def list_ex_iff)
  then show "\<exists>a b. s = a @ t @ b" by (metis append_take_drop_id)
next
  assume "\<exists>a b. s = a @ t @ b"
  then obtain a b where "s = a @ t @ b" by blast
  then show "includesSub s t" by (auto simp: includesSub_def list_ex_iff intro!: bexI [of _ "length a"])
qed



end
