(* ===== verification/Command_Workspace.thy ===== *)
theory Command_Workspace
  imports Posix_Files Output_Scan
begin

text \<open>
  Staging of inputs and copyback of outputs (credential-executor/src/commands/workspace.ts). A
  thrown error and the reason of a failed copy are values of \<open>workspaceError\<close>; \<open>dataRoot\<close> is
  \<open>getCesDataRoot\<close>, \<open>uuid\<close> the identifier drawn for the scratch directory.
\<close>

datatype workspaceError =
    AbsolutePath string string
  | PathTraversal string string
  | PathEmpty string
  | EscapesRoot string string string
  | EscapesByLink string string string string
  | InputMissing string string
  | OutputMissing string
  | OutputUnreadable string string
  | ScanFailed string "scanViolation list"
  | CopyFailed string
  | FileFailed string

record workspaceOutput =
  wo_scratchPath :: string
  wo_workspacePath :: string

record workspaceStageConfig =
  wc_workspaceDir :: string
  wc_inputs :: "string list"
  wc_outputs :: "workspaceOutput list"
  wc_secrets :: "string list"

record stagedWorkspace =
  sw_scratchDir :: string
  sw_stagedInputs :: "string list"

record outputCopyResult =
  oc_scratchPath :: string
  oc_workspacePath :: string
  oc_success :: bool
  oc_reason :: "workspaceError option"
  oc_scanResult :: "scanViolation list option"

record copybackResult =
  cb_outputs :: "outputCopyResult list"
  cb_allSucceeded :: bool

section \<open>Path validation\<close>

definition validateRelativePath :: "string \<Rightarrow> string \<Rightarrow> workspaceError option" where
  "validateRelativePath relativePath label =
     (if startsWith relativePath ''/'' then Some (AbsolutePath label relativePath)
      else if ''..'' \<in> set (splitOn (CHR ''/'') relativePath) then Some (PathTraversal label relativePath)
      else if trim relativePath = [] then Some (PathEmpty label)
      else None)"

lemma dropSlashes_length: "length (dropSlashes p) \<le> length p"
  by (metis dropSlashes_def length_dropWhile_le length_rev)

lemma dirname_shorter:
  assumes "pathDirname p \<noteq> p"
  shows "pathDirname p = ''.'' \<or> pathDirname p = ''/'' \<or> length (pathDirname p) < length p"
proof (cases "p = []")
  case True
  then show ?thesis by (simp add: pathDirname_def)
next
  case False
  define r where "r = dropWhile (\<lambda>c. c \<noteq> CHR ''/'') (rev (dropSlashes (tl p)))"
  have len: "length r \<le> length p - 1"
    using length_dropWhile_le [of "\<lambda>c. c \<noteq> CHR ''/''" "rev (dropSlashes (tl p))"] dropSlashes_length [of "tl p"]
    unfolding r_def by simp
  have dir: "pathDirname p =
      (case r of [] \<Rightarrow> if hd p = CHR ''/'' then ''/'' else ''.''
       | c # front \<Rightarrow> if hd p = CHR ''/'' \<and> front = [] then ''//'' else hd p # rev front)"
    using False by (simp add: pathDirname_def r_def)
  show ?thesis
  proof (cases r)
    case Nil
    then show ?thesis by (simp add: dir)
  next
    case (Cons c front)
    have "dropSlashes (tl p) \<noteq> ''/''"
    proof
      assume "dropSlashes (tl p) = ''/''"
      then have "dropWhile (\<lambda>c. c = CHR ''/'') (rev (tl p)) = ''/''" by (simp only: dropSlashes_def rev_singleton_conv)
      then show False unfolding dropWhile_eq_Cons_conv by blast
    qed
    moreover have "front = [] \<Longrightarrow> length (dropSlashes (tl p)) \<noteq> 0" using Cons unfolding r_def by auto
    moreover have "front = [] \<Longrightarrow> length (dropSlashes (tl p)) = 1 \<Longrightarrow> dropSlashes (tl p) = ''/''"
    proof -
      assume "front = []" "length (dropSlashes (tl p)) = 1"
      then obtain x where x: "dropSlashes (tl p) = [x]" by (metis One_nat_def length_0_conv length_Suc_conv)
      with Cons \<open>front = []\<close> show ?thesis unfolding r_def by (auto split: if_splits)
    qed
    ultimately have "front = [] \<Longrightarrow> 2 \<le> length (dropSlashes (tl p))" by linarith
    then have "front = [] \<Longrightarrow> 2 < length p" using dropSlashes_length [of "tl p"] False by (cases p) auto
    moreover have "pathDirname p = (if hd p = CHR ''/'' \<and> front = [] then ''//'' else hd p # rev front)"
      using Cons by (simp add: dir)
    ultimately show ?thesis using len Cons False by (cases p) auto
  qed
qed

text \<open>The closest ancestor that exists, resolved, with the rest of the path behind it.\<close>

function nearestAncestor :: "faults \<Rightarrow> fileSystem \<Rightarrow> string \<Rightarrow> string \<Rightarrow> string" where
  "nearestAncestor io fs path current =
     (let ancestor = pathDirname current in
      case realpathSync io fs ancestor of
        Some r \<Rightarrow> r @ drop (length ancestor) path
      | None \<Rightarrow>
          if ancestor = current then pathResolve (renderPath (fs_cwd fs)) [path] else nearestAncestor io fs path ancestor)"
  by pat_completeness auto
termination
proof (relation "measure (\<lambda>(io, fs, path, p). if p = ''.'' \<or> p = ''/'' then 0 else Suc (length p))")
  fix io fs path current ancestor
  assume "ancestor = pathDirname current" "ancestor \<noteq> current"
  moreover have "pathDirname ''.'' = ''.''" "pathDirname ''/'' = ''/''" by code_simp+
  ultimately show "((io, fs, path, ancestor), io, fs, path, current) \<in>
      measure (\<lambda>(io, fs, path, p). if p = ''.'' \<or> p = ''/'' then 0 else Suc (length p))"
    using dirname_shorter [of current] by auto
qed simp

declare nearestAncestor.simps [simp del]

definition normalizedRoot :: "faults \<Rightarrow> fileSystem \<Rightarrow> string \<Rightarrow> string" where
  "normalizedRoot io fs rootDir = get_or (pathResolve (renderPath (fs_cwd fs)) [rootDir]) (realpathSync io fs rootDir)"

definition normalizedPath :: "faults \<Rightarrow> fileSystem \<Rightarrow> string \<Rightarrow> string" where
  "normalizedPath io fs p = (case realpathSync io fs p of Some r \<Rightarrow> r | None \<Rightarrow> nearestAncestor io fs p p)"

definition insideRoot :: "string \<Rightarrow> string \<Rightarrow> bool" where
  "insideRoot root p \<longleftrightarrow> startsWith p (root @ ''/'') \<or> p = root"

definition validateContainedPath :: "faults \<Rightarrow> fileSystem \<Rightarrow> string \<Rightarrow> string \<Rightarrow> string \<Rightarrow> workspaceError option" where
  "validateContainedPath io fs resolvedPath rootDir label =
     (let root = normalizedRoot io fs rootDir; p = normalizedPath io fs resolvedPath in
      if \<not> insideRoot root p then Some (EscapesRoot label p root) else None)"

definition checkSymlinkEscape :: "faults \<Rightarrow> fileSystem \<Rightarrow> string \<Rightarrow> string \<Rightarrow> string \<Rightarrow> workspaceError option" where
  "checkSymlinkEscape io fs filePath rootDir label =
     (case realpathSync io fs filePath of
        None \<Rightarrow> None
      | Some target \<Rightarrow>
          (case realpathSync io fs rootDir of
             None \<Rightarrow> None
           | Some root \<Rightarrow> if \<not> insideRoot root target then Some (EscapesByLink label filePath target root) else None))"

section \<open>Scratch directory and staging\<close>

definition getScratchBaseDir :: "string \<Rightarrow> string" where
  "getScratchBaseDir dataRoot = pathJoin [dataRoot, ''scratch'']"

definition createScratchDir :: "faults \<Rightarrow> string \<Rightarrow> string \<Rightarrow> fileSystem \<Rightarrow> (string + string) \<times> fileSystem" where
  "createScratchDir io dataRoot uuid fs =
     (let scratchDir = pathJoin [getScratchBaseDir dataRoot, uuid] in
      case mkdirSync io scratchDir fs of (Some e, fs') \<Rightarrow> (Inl e, fs') | (None, fs') \<Rightarrow> (Inr scratchDir, fs'))"

definition cleanupScratchDir :: "faults \<Rightarrow> string \<Rightarrow> fileSystem \<Rightarrow> fileSystem" where
  "cleanupScratchDir io scratchDir fs = snd (rmSync io scratchDir fs)"

definition stageInput :: "faults \<Rightarrow> string \<Rightarrow> string \<Rightarrow> string \<Rightarrow> fileSystem \<Rightarrow> workspaceError option \<times> fileSystem" where
  "stageInput io workspaceDir scratchDir input fs =
     (case validateRelativePath input ''Workspace input'' of
        Some e \<Rightarrow> (Some e, fs)
      | None \<Rightarrow>
          let sourcePath = pathJoin [workspaceDir, input]; destPath = pathJoin [scratchDir, input] in
          case validateContainedPath io fs sourcePath workspaceDir ''Workspace input source'' of
            Some e \<Rightarrow> (Some e, fs)
          | None \<Rightarrow>
              if \<not> existsSync io fs sourcePath then (Some (InputMissing input sourcePath), fs)
              else
                (case mkdirSync io (pathDirname destPath) fs of
                   (Some e, fs1) \<Rightarrow> (Some (FileFailed e), fs1)
                 | (None, fs1) \<Rightarrow>
                     (case copyFileSync io sourcePath destPath fs1 of
                        Inl e \<Rightarrow> (Some (FileFailed e), fs1)
                      | Inr fs2 \<Rightarrow>
                          (case chmodSync io destPath 292 fs2 of
                             Inl e \<Rightarrow> (Some (FileFailed e), fs2)
                           | Inr fs3 \<Rightarrow> (None, fs3)))))"
  \<comment> \<open>292 is 0o444\<close>

fun stageLoop :: "faults \<Rightarrow> string \<Rightarrow> string \<Rightarrow> string list \<Rightarrow> fileSystem \<Rightarrow> workspaceError option \<times> fileSystem" where
  "stageLoop io workspaceDir scratchDir [] fs = (None, fs)"
| "stageLoop io workspaceDir scratchDir (input # inputs) fs =
     (case stageInput io workspaceDir scratchDir input fs of
        (Some e, fs1) \<Rightarrow> (Some e, fs1)
      | (None, fs1) \<Rightarrow> stageLoop io workspaceDir scratchDir inputs fs1)"

definition stageInputs ::
    "faults \<Rightarrow> string \<Rightarrow> string \<Rightarrow> workspaceStageConfig \<Rightarrow> fileSystem \<Rightarrow> (workspaceError + stagedWorkspace) \<times> fileSystem" where
  "stageInputs io dataRoot uuid config fs =
     (case createScratchDir io dataRoot uuid fs of
        (Inl e, fs1) \<Rightarrow> (Inl (FileFailed e), fs1)
      | (Inr scratchDir, fs1) \<Rightarrow>
          (case stageLoop io (wc_workspaceDir config) scratchDir (wc_inputs config) fs1 of
             (Some e, fs2) \<Rightarrow> (Inl e, cleanupScratchDir io scratchDir fs2)
           | (None, fs2) \<Rightarrow> (Inr \<lparr>sw_scratchDir = scratchDir, sw_stagedInputs = wc_inputs config\<rparr>, fs2)))"

section \<open>Copyback\<close>

definition copyFailure :: "workspaceOutput \<Rightarrow> workspaceError \<Rightarrow> scanViolation list option \<Rightarrow> outputCopyResult" where
  "copyFailure output e scan =
     \<lparr>oc_scratchPath = wo_scratchPath output, oc_workspacePath = wo_workspacePath output, oc_success = False, oc_reason = Some e,
      oc_scanResult = scan\<rparr>"

definition readOutput :: "faults \<Rightarrow> fileSystem \<Rightarrow> string \<Rightarrow> string + string" where
  "readOutput io fs p =
     (case isSymbolicLink io fs p of
        Inl e \<Rightarrow> Inl e
      | Inr True \<Rightarrow> (case realpathSync io fs p of None \<Rightarrow> Inl ''ENOENT'' | Some r \<Rightarrow> readFileSync io fs r)
      | Inr False \<Rightarrow> readFileSync io fs p)"

text \<open>The checks before the file is read, in the order of the source.\<close>

definition copybackChecks :: "faults \<Rightarrow> fileSystem \<Rightarrow> workspaceOutput \<Rightarrow> string \<Rightarrow> string \<Rightarrow> workspaceError option" where
  "copybackChecks io fs output scratchDir workspaceDir =
     (let scratchFilePath = pathJoin [scratchDir, wo_scratchPath output];
          workspaceFilePath = pathJoin [workspaceDir, wo_workspacePath output] in
      case validateRelativePath (wo_scratchPath output) ''Output scratch path'' of
        Some e \<Rightarrow> Some e
      | None \<Rightarrow>
      case validateRelativePath (wo_workspacePath output) ''Output workspace path'' of
        Some e \<Rightarrow> Some e
      | None \<Rightarrow>
      case validateContainedPath io fs scratchFilePath scratchDir ''Output scratch file'' of
        Some e \<Rightarrow> Some e
      | None \<Rightarrow>
      case validateContainedPath io fs workspaceFilePath workspaceDir ''Output workspace file'' of
        Some e \<Rightarrow> Some e
      | None \<Rightarrow>
      if \<not> existsSync io fs scratchFilePath then Some (OutputMissing (wo_scratchPath output))
      else checkSymlinkEscape io fs scratchFilePath scratchDir ''Output file'')"

definition copybackSingleOutput ::
    "faults \<Rightarrow> string \<Rightarrow> string \<Rightarrow> string list \<Rightarrow> workspaceOutput \<Rightarrow> fileSystem \<Rightarrow> outputCopyResult \<times> fileSystem" where
  "copybackSingleOutput io scratchDir workspaceDir secrets output fs =
     (let scratchFilePath = pathJoin [scratchDir, wo_scratchPath output];
          workspaceFilePath = pathJoin [workspaceDir, wo_workspacePath output] in
      case copybackChecks io fs output scratchDir workspaceDir of
        Some e \<Rightarrow> (copyFailure output e None, fs)
      | None \<Rightarrow>
          (case readOutput io fs scratchFilePath of
             Inl e \<Rightarrow> (copyFailure output (OutputUnreadable (wo_scratchPath output) e) None, fs)
           | Inr content \<Rightarrow>
               let scan = scanOutputFile (pathBase (wo_scratchPath output)) content secrets in
               if scan \<noteq> [] then (copyFailure output (ScanFailed (wo_scratchPath output) scan) (Some scan), fs)
               else
                 (case mkdirSync io (pathDirname workspaceFilePath) fs of
                    (Some e, fs1) \<Rightarrow> (copyFailure output (CopyFailed e) None, fs1)
                  | (None, fs1) \<Rightarrow>
                      (case copyFileSync io scratchFilePath workspaceFilePath fs1 of
                         Inl e \<Rightarrow> (copyFailure output (CopyFailed e) None, fs1)
                       | Inr fs2 \<Rightarrow>
                           (\<lparr>oc_scratchPath = wo_scratchPath output, oc_workspacePath = wo_workspacePath output, oc_success = True,
                             oc_reason = None, oc_scanResult = Some scan\<rparr>, fs2)))))"

fun copybackLoop ::
    "faults \<Rightarrow> string \<Rightarrow> string \<Rightarrow> string list \<Rightarrow> workspaceOutput list \<Rightarrow> fileSystem \<Rightarrow> outputCopyResult list \<times> fileSystem" where
  "copybackLoop io scratchDir workspaceDir secrets [] fs = ([], fs)"
| "copybackLoop io scratchDir workspaceDir secrets (output # outputs) fs =
     (let (r, fs1) = copybackSingleOutput io scratchDir workspaceDir secrets output fs;
          (rs, fs2) = copybackLoop io scratchDir workspaceDir secrets outputs fs1 in (r # rs, fs2))"

definition copybackOutputs :: "faults \<Rightarrow> workspaceStageConfig \<Rightarrow> string \<Rightarrow> fileSystem \<Rightarrow> copybackResult \<times> fileSystem" where
  "copybackOutputs io config scratchDir fs =
     (let (rs, fs1) = copybackLoop io scratchDir (wc_workspaceDir config) (wc_secrets config) (wc_outputs config) fs in
      (\<lparr>cb_outputs = rs, cb_allSucceeded = list_all oc_success rs\<rparr>, fs1))"

end
