(* ===== verification/Egress_Hooks.thy ===== *)
theory Egress_Hooks
  imports Egress_Sessions Web_Url
begin

text \<open>
  The proxy server of the credential executor (credential-executor/src/commands/egress-hooks.ts):
  which targets it connects to. \<open>newURL\<close> is the \<open>URL\<close> constructor.
\<close>

definition matchesHostPattern :: "string \<Rightarrow> string \<Rightarrow> bool" where
  "matchesHostPattern hostname pattern =
     (if pattern = hostname then True
      else if startsWith pattern ''*.'' then endsWith hostname (drop 1 pattern) \<or> hostname = drop 2 pattern
      else False)"

definition listsValue :: "'a list option \<Rightarrow> 'a \<Rightarrow> bool" where
  "listsValue xs x \<longleftrightarrow> (case xs of None \<Rightarrow> True | Some ys \<Rightarrow> ys = [] \<or> x \<in> set ys)"
  \<comment> \<open>a missing or empty list allows every value\<close>

definition isTargetAllowed :: "string \<Rightarrow> js_number \<Rightarrow> string \<Rightarrow> allowedTarget list \<Rightarrow> bool" where
  "isTargetAllowed hostname port protocol targets =
     list_ex (\<lambda>t. matchesHostPattern hostname (at_host t) \<and> listsValue (at_ports t) port \<and> listsValue (at_protocols t) protocol) targets"

definition lastIndexOf :: "char \<Rightarrow> string \<Rightarrow> nat option" where
  "lastIndexOf c s = (if c \<in> set s then Some (length s - 1 - length (takeWhile (\<lambda>d. d \<noteq> c) (rev s))) else None)"

definition unbracket :: "string \<Rightarrow> string option" where
  "unbracket host =
     (if startsWith host ''['' \<and> endsWith host '']'' then if butlast (tl host) = [] then None else Some (butlast (tl host))
      else Some host)"

definition parseConnectTarget :: "string option \<Rightarrow> (string \<times> int) option" where
  "parseConnectTarget url =
     (case url of
        None \<Rightarrow> None
      | Some u \<Rightarrow>
          (case lastIndexOf (CHR '':'') u of
             None \<Rightarrow> None
           | Some i \<Rightarrow>
               let host = take i u; portStr = drop (Suc i) u in
               if i = 0 \<or> host = [] \<or> portStr = [] then None
               else (case numberOf portStr of
                       NonInt \<Rightarrow> None
                     | IntNum port \<Rightarrow>
                         if port < 1 \<or> port > 65535 then None else map_option (\<lambda>h. (h, port)) (unbracket host))))"

datatype proxyDecision =
    ProxyBadRequest
  | ProxyBlocked string js_number string
  | ProxyForward string js_number string

definition decideTarget :: "string \<Rightarrow> js_number \<Rightarrow> string \<Rightarrow> allowedTarget list \<Rightarrow> proxyDecision" where
  "decideTarget hostname port protocol targets =
     (if isTargetAllowed hostname port protocol targets then ProxyForward hostname port protocol else ProxyBlocked hostname port protocol)"

definition proxyRequest :: "urlParser \<Rightarrow> string option \<Rightarrow> string option \<Rightarrow> managedSession \<Rightarrow> proxyDecision" where
  "proxyRequest newURL url httpMethod managed =
     (let allowedTargets = get_or [] (pc_allowedTargets (mg_config managed)) in
      if truthy url \<and> truthy httpMethod then
        (case newURL (the url) of
           None \<Rightarrow> ProxyBadRequest
         | Some target \<Rightarrow>
             let protocol = (if url_protocol target = ''https:'' then ''https'' else ''http'');
                 port = (if url_port target \<noteq> [] then numberOf (url_port target) else if protocol = ''https'' then IntNum 443 else IntNum 80) in
             decideTarget (url_hostname target) port protocol allowedTargets)
      else ProxyBadRequest)"

definition proxyConnect :: "string option \<Rightarrow> managedSession \<Rightarrow> proxyDecision" where
  "proxyConnect url managed =
     (case parseConnectTarget url of
        None \<Rightarrow> ProxyBadRequest
      | Some (host, port) \<Rightarrow> decideTarget host (IntNum port) ''https'' (get_or [] (pc_allowedTargets (mg_config managed))))"

section \<open>What is let through\<close>

lemma lastIndexOf_append:
  assumes "c \<notin> set t"
  shows "lastIndexOf c (s @ c # t) = Some (length s)"
proof -
  have "takeWhile (\<lambda>d. d \<noteq> c) (rev t) = rev t" using assms by (auto simp: takeWhile_eq_all_conv)
  then have "length (takeWhile (\<lambda>d. d \<noteq> c) (rev t)) = length t" by (metis length_rev)
  then show ?thesis by (simp add: lastIndexOf_def takeWhile_tail)
qed

lemma digits_no_colon: "CHR '':'' \<notin> set (decimal n)"
  using decimal_value [of n] by (auto simp: list_all_iff isDigit_def)

lemma parse_connect:
  assumes "h \<noteq> []" "1 \<le> p" "p \<le> 65535"
  shows "parseConnectTarget (Some (h @ '':'' @ number_text p)) = map_option (\<lambda>h. (h, p)) (unbracket h)"
proof -
  have p: "number_text p = decimal (nat p)" "IntNum (int (nat p)) = IntNum p" using assms(2) by (simp_all add: number_text_def)
  have "lastIndexOf (CHR '':'') (h @ '':'' @ number_text p) = Some (length h)"
    using lastIndexOf_append [OF digits_no_colon, of h] by (simp add: p)
  moreover have "decimal (nat p) \<noteq> []" using decimal_value by blast
  ultimately show ?thesis using assms by (simp add: parseConnectTarget_def p(1) numberOf_decimal)
qed

text \<open>
  The tunnel a client asks for is the one that is judged: the text of a host and a port parses
  back to them, and brackets around an address are removed.
\<close>

theorem connect_target_roundtrip:
  assumes "h \<noteq> []" "1 \<le> p" "p \<le> 65535"
  shows "parseConnectTarget (Some ((''['' @ h @ '']'') @ '':'' @ number_text p)) = Some (h, p) \<and>
    (\<not> (startsWith h ''['' \<and> endsWith h '']'') \<longrightarrow> parseConnectTarget (Some (h @ '':'' @ number_text p)) = Some (h, p))"
proof -
  have "unbracket (''['' @ h @ '']'') = Some h"
    using assms(1) by (simp add: unbracket_def startsWith_def endsWith_def butlast_append)
  moreover have "\<not> (startsWith h ''['' \<and> endsWith h '']'') \<Longrightarrow> unbracket h = Some h" unfolding unbracket_def by argo
  ultimately show ?thesis using parse_connect [OF _ assms(2,3), of "''['' @ h @ '']''"] parse_connect [OF assms] by simp
qed

theorem connect_target_roundtrip_witness:
  "parseConnectTarget (Some ''[::1]:443'') = Some (''::1'', 443) \<and> parseConnectTarget (Some ''api.github.com:443'') = Some (''api.github.com'', 443)"
proof -
  have "number_text 443 = ''443''" by code_simp
  moreover have "\<not> (startsWith ''api.github.com'' ''['' \<and> endsWith ''api.github.com'' '']'')" by code_simp
  ultimately show ?thesis
    using connect_target_roundtrip [of "''::1''" 443] connect_target_roundtrip [of "''api.github.com''" 443] by simp
qed

text \<open>The hosts a pattern stands for.\<close>

definition hostCovered :: "string \<Rightarrow> string \<Rightarrow> bool" where
  "hostCovered pattern h \<longleftrightarrow> h = pattern \<or> (\<exists>d. pattern = ''*.'' @ d \<and> (h = d \<or> (\<exists>sub. h = sub @ ''.'' @ d)))"

lemma matchesHostPattern_iff: "matchesHostPattern h pattern \<longleftrightarrow> hostCovered pattern h"
proof (cases "startsWith pattern ''*.''")
  case True
  then obtain d where "pattern = ''*.'' @ d" by (auto simp: startsWith_iff)
  then show ?thesis by (auto simp: matchesHostPattern_def hostCovered_def startsWith_iff endsWith_iff)
next
  case False
  then have "\<nexists>d. pattern = ''*.'' @ d" by (auto simp: startsWith_iff)
  with False show ?thesis unfolding matchesHostPattern_def hostCovered_def by metis
qed

lemma target_allowed_iff:
  "isTargetAllowed h p pr targets \<longleftrightarrow>
     (\<exists>t. t \<in> set targets \<and> hostCovered (at_host t) h \<and> listsValue (at_ports t) p \<and> listsValue (at_protocols t) pr)"
  by (auto simp: isTargetAllowed_def list_ex_iff matchesHostPattern_iff)

lemma forward_iff [simp]:
  "decideTarget h p pr targets = ProxyForward h' p' pr' \<longleftrightarrow> h' = h \<and> p' = p \<and> pr' = pr \<and> isTargetAllowed h p pr targets"
  by (auto simp: decideTarget_def)

text \<open>Both ways through the proxy reach only targets the session's list covers.\<close>

lemma proxy_forward_allowed:
  assumes "proxyRequest newURL url httpMethod managed = ProxyForward h p pr \<or> proxyConnect url managed = ProxyForward h p pr"
  shows "\<exists>t. t \<in> set (get_or [] (pc_allowedTargets (mg_config managed))) \<and> hostCovered (at_host t) h \<and>
    listsValue (at_ports t) p \<and> listsValue (at_protocols t) pr"
  using assms
  by (auto simp: proxyRequest_def proxyConnect_def Let_def target_allowed_iff [symmetric] split: option.splits if_splits)

end
