(* ===== verification/Command_Executor.thy ===== *)
theory Command_Executor
  imports Command_Workspace Command_Profiles Egress_Hooks Audit_Log
begin

text \<open>
  Execution of authenticated commands: credential-executor/src/commands/executor.ts, with the paths of
  toolstore/publish.ts. A call runs from the bundle to the audit record; \<open>cx_egress\<close> is its store of
  proxy sessions. Outside the sources are the hasher, \<open>JSON.parse\<close> of a manifest, the
  materialiser, the outcomes of the proxy server and the processes that are spawned; the command may
  change files in any way. The list of events records the processes and the audit record. The
  messages are the constructors of \<open>commandError\<close>, rendered by \<open>cd_text\<close>.
\<close>

section \<open>Requests, results, dependencies\<close>

type_synonym environment = "(string, string) js_Map"

record commandRequest =
  cr_bundleDigest :: string
  cr_profileName :: string
  cr_credentialHandle :: string
  cr_argv :: "string list"
  cr_workspaceDir :: string
  cr_inputs :: "string list option"
  cr_outputs :: "workspaceOutput list option"
  cr_purpose :: string
  cr_grantId :: "string option"
  cr_conversationId :: "string option"

datatype adapterFailure =
    AdapterMissing
  | AdapterInvalid "manifestError list"
  | TempFileFailed string
  | HelperHasMetacharacters
  | HelperIsDenied string
  | HelperFailed string
  | HelperExited int string
  | AdapterUnknown string

datatype commandError =
    NotPublished string
  | ManifestUnreadable string
  | EntrypointIsDenied string
  | BundleIdIsDenied string
  | ProfileMissing string
  | CommandRejected commandValidation
  | ProfileMismatch string string
  | GrantMissing string string string
  | StagingFailed workspaceError
  | MaterialisationFailed string
  | NoEgressHooks
  | ProxyStartFailed egressError
  | AdapterFailed adapterFailure
  | EntrypointOutside string
  | EntrypointUnresolved string
  | EntrypointEscapes string string
  | ConfigDirsFailed string
  | ExecutionFailed string
  | ExitCode int
  | CopybackFailures "(string \<times> workspaceError option) list"
  | AlsoFailed commandError commandError

datatype commandThrown = GrantStoreThrows grantStoreError | ManifestThrows | MaterialiserThrows string | BundleDirThrows

record approvalNeeded =
  an_credentialHandle :: string
  an_bundleId :: string
  an_bundleDigest :: string
  an_profileName :: string
  an_command :: string
  an_purpose :: string

record commandResult =
  er_success :: bool
  er_exitCode :: "int option"
  er_stdout :: "string option"
  er_stderr :: "string option"
  er_copyback :: "copybackResult option"
  er_error :: "commandError option"
  er_auditId :: string
  er_approvalRequired :: "approvalNeeded option"

record egressHooks =
  hk_setupCA :: "(managedSession \<Rightarrow> string + string option) option"
  hk_createServer :: "managedSession \<Rightarrow> string option"
  hk_listen :: "string \<Rightarrow> string + int"
  hk_close :: "string option"

record processOutcome =
  po_exitCode :: int
  po_stdout :: string
  po_stderr :: string

record commandDeps =
  cd_sha :: hasher
  cd_io :: faults
  cd_parseManifest :: "string \<Rightarrow> secureCommandManifest option"
  cd_dataRoot :: string
  cd_tmpdir :: string
  cd_PATH :: "string option"
  cd_materialise :: "string \<Rightarrow> string + (string + string)"
  cd_hooks :: "egressHooks option"
  cd_auditStore :: "bool option"
  cd_sessionId :: "string option"
  cd_maxOutputBytes :: "nat option"
  cd_helper :: "string \<Rightarrow> environment \<Rightarrow> string \<Rightarrow> int \<Rightarrow> string + processOutcome"
  cd_spawn :: "string \<Rightarrow> string list \<Rightarrow> string \<Rightarrow> environment \<Rightarrow> fileSystem \<Rightarrow> (string + processOutcome) \<times> fileSystem"
  cd_uuid :: "nat \<Rightarrow> string"
  cd_now :: int
  cd_text :: "commandError \<Rightarrow> string"

record commandState =
  cx_grants :: credentialState
  cx_files :: fileSystem
  cx_egress :: egressState
  cx_audit :: auditFile

datatype commandEvent =
    HelperSpawned string environment string
  | CommandSpawned string "string list" string environment
  | AuditAppended auditRecordSummary

definition DEFAULT_MAX_OUTPUT_BYTES :: nat where
  "DEFAULT_MAX_OUTPUT_BYTES = 256 * 1024"

definition CREDENTIAL_PROCESS_TIMEOUT_MS :: int where
  "CREDENTIAL_PROCESS_TIMEOUT_MS = 10000"

section \<open>Bundle and profile\<close>

definition isValidSha256Hex :: "string \<Rightarrow> bool" where
  "isValidSha256Hex s \<longleftrightarrow> length s = 64 \<and> list_all (\<lambda>c. isDigit c \<or> c \<in> set ''abcdef'') s"

definition getCesToolStoreDir :: "string \<Rightarrow> string" where
  "getCesToolStoreDir dataRoot = pathJoin [dataRoot, ''toolstore'']"

definition getBundleDir :: "string \<Rightarrow> string \<Rightarrow> string" where
  "getBundleDir toolstoreDir digest = pathJoin [toolstoreDir, digest]"
  \<comment> \<open>callers have checked the digest\<close>

definition getBundleManifestPath :: "string \<Rightarrow> string \<Rightarrow> string" where
  "getBundleManifestPath toolstoreDir digest = pathJoin [getBundleDir toolstoreDir digest, ''toolstore-manifest.json'']"

definition getBundleContentPath :: "string \<Rightarrow> string \<Rightarrow> string" where
  "getBundleContentPath toolstoreDir digest = pathJoin [getBundleDir toolstoreDir digest, ''bundle.bin'']"

definition isBundlePublished :: "commandDeps \<Rightarrow> string \<Rightarrow> fileSystem \<Rightarrow> bool" where
  "isBundlePublished deps digest fs \<longleftrightarrow>
     isValidSha256Hex digest \<and>
     existsSync (cd_io deps) fs (getBundleDir (getCesToolStoreDir (cd_dataRoot deps)) digest) \<and>
     existsSync (cd_io deps) fs (getBundleManifestPath (getCesToolStoreDir (cd_dataRoot deps)) digest)"

definition readPublishedManifest :: "commandDeps \<Rightarrow> string \<Rightarrow> fileSystem \<Rightarrow> secureCommandManifest option" where
  "readPublishedManifest deps digest fs =
     (let manifestPath = getBundleManifestPath (getCesToolStoreDir (cd_dataRoot deps)) digest in
      if \<not> isValidSha256Hex digest \<or> \<not> existsSync (cd_io deps) fs manifestPath then None
      else (case readFileSync (cd_io deps) fs manifestPath of Inl e \<Rightarrow> None | Inr raw \<Rightarrow> cd_parseManifest deps raw))"

definition resolveBundle :: "commandDeps \<Rightarrow> string \<Rightarrow> fileSystem \<Rightarrow> commandError + secureCommandManifest" where
  "resolveBundle deps digest fs =
     (if \<not> isBundlePublished deps digest fs then Inl (NotPublished digest)
      else
        (case readPublishedManifest deps digest fs of
           None \<Rightarrow> Inl (ManifestUnreadable digest)
         | Some manifest \<Rightarrow>
             if isDeniedBinary (man_entrypoint manifest) then Inl (EntrypointIsDenied (man_entrypoint manifest))
             else if isDeniedBinary (man_bundleId manifest) then Inl (BundleIdIsDenied (man_bundleId manifest))
             else Inr manifest))"

text \<open>\<open>None\<close> when a missing list of the manifest is read, which throws.\<close>

definition validateRequestedProfile :: "secureCommandManifest \<Rightarrow> string \<Rightarrow> string list \<Rightarrow> commandError option option" where
  "validateRequestedProfile manifest profileName argv =
     (case man_commandProfiles manifest of
        None \<Rightarrow> None
      | Some profiles \<Rightarrow>
          (case map_get profiles profileName of
             None \<Rightarrow> Some (Some (ProfileMissing profileName))
           | Some profile \<Rightarrow>
               (case validateCommand manifest argv of
                  None \<Rightarrow> None
                | Some (CommandAllowed matched pat) \<Rightarrow>
                    Some (if matched \<noteq> profileName then Some (ProfileMismatch matched profileName) else None)
                | Some reason \<Rightarrow> Some (Some (CommandRejected reason)))))"

section \<open>Grants\<close>

definition commandText :: "commandRequest \<Rightarrow> string" where
  "commandText request = trim (cr_bundleDigest request @ ''/'' @ cr_profileName request @ '' '' @ joinWith '' '' (cr_argv request))"

definition canonicalPattern :: "commandRequest \<Rightarrow> string" where
  "canonicalPattern request = cr_credentialHandle request @ '':'' @ cr_bundleDigest request @ '':'' @ cr_profileName request"

definition grantMatchesCommand :: "commandRequest \<Rightarrow> string \<Rightarrow> bool" where
  "grantMatchesCommand request pattern \<longleftrightarrow> pattern = canonicalPattern request \<or> pattern = commandText request"

definition commandGrantFor :: "commandRequest \<Rightarrow> persistentGrant \<Rightarrow> bool" where
  "commandGrantFor request grant \<longleftrightarrow>
     pg_tool grant = ''command'' \<and> pg_scope grant = cr_credentialHandle request \<and> grantMatchesCommand request (pg_pattern grant)"

definition commandProposal :: "commandRequest \<Rightarrow> grantProposal" where
  "commandProposal request =
     CommandGrantProposal (cr_credentialHandle request) (commandText request) (cr_purpose request) (Some [canonicalPattern request])"

definition explicitCommandGrant :: "commandRequest \<Rightarrow> persistentGrantStore \<Rightarrow> persistentGrant option grantOutcome" where
  "explicitCommandGrant request s =
     (if truthy (cr_grantId request) then
        andThen (getById (the (cr_grantId request)) s) (\<lambda>g s1.
          (Inr (case g of None \<Rightarrow> None | Some grant \<Rightarrow> if commandGrantFor request grant then Some grant else None), s1))
      else (Inr None, s))"

text \<open>The identifier of the grant that covers the request; the grant store may throw.\<close>

definition checkGrant :: "hasher \<Rightarrow> commandRequest \<Rightarrow> int \<Rightarrow> credentialState \<Rightarrow> (grantStoreError + string option) \<times> credentialState" where
  "checkGrant sha request now cs =
     (case explicitCommandGrant request (cs_persistent cs) of
        (Inl e, p1) \<Rightarrow> (Inl e, cs\<lparr>cs_persistent := p1\<rparr>)
      | (Inr (Some grant), p1) \<Rightarrow> (Inr (Some (pg_id grant)), cs\<lparr>cs_persistent := p1\<rparr>)
      | (Inr None, p1) \<Rightarrow>
          (case getAll p1 of
             (Inl e, p2) \<Rightarrow> (Inl e, cs\<lparr>cs_persistent := p2\<rparr>)
           | (Inr grants, p2) \<Rightarrow>
               (case find (commandGrantFor request) grants of
                  Some grant \<Rightarrow> (Inr (Some (pg_id grant)), cs\<lparr>cs_persistent := p2\<rparr>)
                | None \<Rightarrow>
                    let hash = hashProposal sha (commandProposal request) in
                    (case checkAny hash (cr_conversationId request) now (cs_temporary cs) of
                       (Some kind, t1) \<Rightarrow>
                         (Inr (Some (''temp:'' @ kindText kind @ '':'' @ hash)), cs\<lparr>cs_persistent := p2, cs_temporary := t1\<rparr>)
                     | (None, t1) \<Rightarrow> (Inr None, cs\<lparr>cs_persistent := p2, cs_temporary := t1\<rparr>)))))"

section \<open>Proxy session\<close>

text \<open>\<open>startSession\<close> with the outcomes of its hooks, from the steps of the session core.\<close>

definition listenOn :: "egressHooks \<Rightarrow> string \<Rightarrow> string \<Rightarrow> managedSession \<Rightarrow> egressState \<Rightarrow> (egressError + proxySession) \<times> egressState" where
  "listenOn hooks listenHost i m s =
     (case hk_createServer hooks m of
        Some e \<Rightarrow> (Inl (HookFailed e), s)
      | None \<Rightarrow>
          (case hk_listen hooks listenHost of
             Inl e \<Rightarrow> (Inl (HookFailed e), unlist i s)
           | Inr port \<Rightarrow> let m1 = activated listenHost port m in (Inr (mg_session m1), setObject i m1 s)))"

definition startSession :: "egressHooks \<Rightarrow> string \<Rightarrow> string \<Rightarrow> egressState \<Rightarrow> (egressError + proxySession) \<times> egressState" where
  "startSession hooks listenHost i s =
     (case (checkStart s i, sessionOf s i) of
        (Some e, _) \<Rightarrow> (Inl e, s)
      | (None, None) \<Rightarrow> (Inl (SessionNotFound i), s)
      | (None, Some m) \<Rightarrow>
          (case hk_setupCA hooks of
             None \<Rightarrow> listenOn hooks listenHost i m s
           | Some setupCA \<Rightarrow>
               (case setupCA m of
                  Inl e \<Rightarrow> (Inl (HookFailed e), unlist i s)
                | Inr path \<Rightarrow> let m1 = m\<lparr>mg_combinedCABundlePath := path\<rparr> in listenOn hooks listenHost i m1 (setObject i m1 s))))"

definition stopProxy :: "commandDeps \<Rightarrow> string option \<Rightarrow> egressState \<Rightarrow> egressState" where
  "stopProxy deps session s =
     (case session of
        None \<Rightarrow> s
      | Some i \<Rightarrow>
          let s1 = snd (stopSession i s) in
          get_or s1 (closeDone i (Option.bind (cd_hooks deps) hk_close) s1))"
  \<comment> \<open>awaited, with errors ignored\<close>

definition allowedTargetsOf :: "secureCommandManifest \<Rightarrow> string \<Rightarrow> allowedTarget list option" where
  "allowedTargetsOf manifest profileName =
     Option.bind (map_get (get_or [] (man_commandProfiles manifest)) profileName) (\<lambda>profile.
       map_option (map (\<lambda>t. \<lparr>at_host = tgt_hostPattern t, at_ports = tgt_ports t, at_protocols = tgt_protocols t\<rparr>))
         (prof_allowedNetworkTargets profile))"

definition startProxy ::
    "commandDeps \<Rightarrow> commandRequest \<Rightarrow> secureCommandManifest \<Rightarrow> egressHooks \<Rightarrow> egressState \<Rightarrow> (egressError + string \<times> proxyEnvVars) \<times> egressState" where
  "startProxy deps request manifest hooks s =
     (case createSession (get_or (''ces-cmd-'' @ cd_uuid deps 0) (cr_conversationId request)) [cr_credentialHandle request]
             \<lparr>pp_idleTimeoutMs = None, pp_maxSessionsPerConversation = None,
              pp_allowedTargets = allowedTargetsOf manifest (cr_profileName request)\<rparr> None False (cd_uuid deps 2) (cd_now deps) s of
        Inl e \<Rightarrow> (Inl e, s)
      | Inr s1 \<Rightarrow>
          (case startSession hooks ''127.0.0.1'' (cd_uuid deps 2) s1 of
             (Inl e, s2) \<Rightarrow> (Inl e, s2)
           | (Inr started, s2) \<Rightarrow>
               (case getSessionEnv None (px_id started) s2 of
                  (Inl e, s3) \<Rightarrow> (Inl e, s3)
                | (Inr env, s3) \<Rightarrow> (Inr (px_id started, env), s3))))"

section \<open>Environments\<close>

definition withProxyEnv :: "proxyEnvVars option \<Rightarrow> environment \<Rightarrow> environment" where
  "withProxyEnv proxyEnv env =
     (case proxyEnv of
        None \<Rightarrow> env
      | Some p \<Rightarrow>
          let env1 = fold (\<lambda>(k, v). map_set k v)
                [(''HTTP_PROXY'', env_HTTP_PROXY p), (''HTTPS_PROXY'', env_HTTPS_PROXY p), (''NO_PROXY'', env_NO_PROXY p),
                 (''http_proxy'', env_HTTP_PROXY p), (''https_proxy'', env_HTTPS_PROXY p), (''no_proxy'', env_NO_PROXY p)] env;
              env2 = (if truthy (env_NODE_EXTRA_CA_CERTS p) then map_set ''NODE_EXTRA_CA_CERTS'' (the (env_NODE_EXTRA_CA_CERTS p)) env1 else env1) in
          if truthy (env_SSL_CERT_FILE p) then map_set ''SSL_CERT_FILE'' (the (env_SSL_CERT_FILE p)) env2 else env2)"

definition withNoNetwork :: "environment option \<Rightarrow> environment \<Rightarrow> environment" where
  "withNoNetwork noNetworkEnv env = (case noNetworkEnv of None \<Rightarrow> env | Some e \<Rightarrow> fold (\<lambda>(k, v). map_set k v) e env)"

definition blockedProxy :: string where
  "blockedProxy = ''http://127.0.0.1:0''"

definition noNetworkEnvOf :: "secureCommandManifest \<Rightarrow> environment option" where
  "noNetworkEnvOf manifest =
     (if man_egressMode manifest = NoNetwork
      then Some [(''HTTP_PROXY'', blockedProxy), (''HTTPS_PROXY'', blockedProxy), (''http_proxy'', blockedProxy),
                 (''https_proxy'', blockedProxy), (''NO_PROXY'', []), (''no_proxy'', [])]
      else None)"

definition buildCommandEnv :: "commandDeps \<Rightarrow> environment \<Rightarrow> proxyEnvVars option \<Rightarrow> environment option \<Rightarrow> string \<Rightarrow> environment" where
  "buildCommandEnv deps adapterEnv proxyEnv noNetworkEnv homeDir =
     withNoNetwork noNetworkEnv (withProxyEnv proxyEnv
       (map_set ''HOME'' homeDir (map_set ''LANG'' ''en_US.UTF-8''
         (map_set ''PATH'' (get_or ''/usr/local/bin:/usr/bin:/bin'' (cd_PATH deps)) adapterEnv))))"

section \<open>Auth adapter\<close>

definition runCredentialProcess ::
    "commandDeps \<Rightarrow> string \<Rightarrow> string \<Rightarrow> int \<Rightarrow> proxyEnvVars option \<Rightarrow> environment option \<Rightarrow> (adapterFailure + string) \<times> commandEvent list" where
  "runCredentialProcess deps helperCommand credential timeoutMs proxyEnv noNetworkEnv =
     (if containsShellMetacharacters helperCommand then (Inl HelperHasMetacharacters, [])
      else if isDeniedBinary (extractShellBinary helperCommand) then (Inl (HelperIsDenied (extractShellBinary helperCommand)), [])
      else
        let helperEnv = withNoNetwork noNetworkEnv (withProxyEnv proxyEnv []) in
        ((case cd_helper deps helperCommand helperEnv credential timeoutMs of
            Inl e \<Rightarrow> Inl (HelperFailed e)
          | Inr r \<Rightarrow>
              if po_exitCode r \<noteq> 0 then Inl (HelperExited (po_exitCode r) (trim (po_stderr r))) else Inr (trim (po_stdout r))),
         [HelperSpawned helperCommand helperEnv credential]))"

record adapterEnvResult =
  ae_env :: environment
  ae_tempFilePath :: "string option"

definition buildTempFile :: "commandDeps \<Rightarrow> string option \<Rightarrow> int option \<Rightarrow> string \<Rightarrow> fileSystem \<Rightarrow> (string + string) \<times> fileSystem" where
  "buildTempFile deps ext mode credential fs =
     (let tempDir = pathJoin [cd_tmpdir deps, ''ces-auth-'' @ cd_uuid deps 3];
          tempPath = pathJoin [tempDir, ''credential'' @ get_or [] ext] in
      case mkdirSync (cd_io deps) tempDir fs of
        (Some e, fs1) \<Rightarrow> (Inl e, fs1)
      | (None, fs1) \<Rightarrow>
          (case writeFileSync (cd_io deps) tempPath credential (get_or 384 mode) fs1 of
             Inl e \<Rightarrow> (Inl e, fs1)
           | Inr fs2 \<Rightarrow> (Inr tempPath, fs2)))"

definition buildAuthAdapterEnv ::
    "commandDeps \<Rightarrow> authAdapterConfig option \<Rightarrow> string \<Rightarrow> proxyEnvVars option \<Rightarrow> environment option \<Rightarrow> fileSystem \<Rightarrow>
     (adapterFailure + adapterEnvResult) \<times> fileSystem \<times> commandEvent list" where
  "buildAuthAdapterEnv deps adapter credential proxyEnv noNetworkEnv fs =
     (case adapter of
        None \<Rightarrow> (Inl AdapterMissing, fs, [])
      | Some config \<Rightarrow>
          if validateAuthAdapterConfig config \<noteq> [] then (Inl (AdapterInvalid (validateAuthAdapterConfig config)), fs, [])
          else
            (case config of
               EnvVarAdapter name valuePrefix \<Rightarrow>
                 (Inr \<lparr>ae_env = [(name, if truthy valuePrefix then the valuePrefix @ credential else credential)], ae_tempFilePath = None\<rparr>, fs, [])
             | TempFileAdapter name ext mode \<Rightarrow>
                 (case buildTempFile deps ext mode credential fs of
                    (Inl e, fs1) \<Rightarrow> (Inl (TempFileFailed e), fs1, [])
                  | (Inr tempPath, fs1) \<Rightarrow> (Inr \<lparr>ae_env = [(name, tempPath)], ae_tempFilePath = Some tempPath\<rparr>, fs1, []))
             | CredentialProcessAdapter helper name timeoutMs \<Rightarrow>
                 (case runCredentialProcess deps helper credential (get_or CREDENTIAL_PROCESS_TIMEOUT_MS timeoutMs) proxyEnv noNetworkEnv of
                    (Inl e, evs) \<Rightarrow> (Inl e, fs, evs)
                  | (Inr out, evs) \<Rightarrow> (Inr \<lparr>ae_env = [(name, out)], ae_tempFilePath = None\<rparr>, fs, evs))
             | UnknownAdapter t \<Rightarrow> (Inl (AdapterUnknown t), fs, [])))"

section \<open>Entrypoint, home directory, process\<close>

definition bundleDirOf :: "commandDeps \<Rightarrow> commandRequest \<Rightarrow> string" where
  "bundleDirOf deps request = pathDirname (getBundleContentPath (getCesToolStoreDir (cd_dataRoot deps)) (cr_bundleDigest request))"

definition entrypointOf :: "commandDeps \<Rightarrow> commandRequest \<Rightarrow> secureCommandManifest \<Rightarrow> fileSystem \<Rightarrow> string" where
  "entrypointOf deps request manifest fs = pathResolve (renderPath (fs_cwd fs)) [bundleDirOf deps request, man_entrypoint manifest]"

text \<open>Both containment checks; \<open>Inl\<close> when the bundle directory itself cannot be resolved, which throws.\<close>

definition checkEntrypoint :: "commandDeps \<Rightarrow> commandRequest \<Rightarrow> secureCommandManifest \<Rightarrow> fileSystem \<Rightarrow> commandThrown + commandError option" where
  "checkEntrypoint deps request manifest fs =
     (let bundleDir = bundleDirOf deps request; entrypointPath = entrypointOf deps request manifest fs in
      if \<not> insideRoot bundleDir entrypointPath then Inr (Some (EntrypointOutside (man_entrypoint manifest)))
      else
        (case realpathSync (cd_io deps) fs entrypointPath of
           None \<Rightarrow> Inr (Some (EntrypointUnresolved (man_entrypoint manifest)))
         | Some real \<Rightarrow>
             (case realpathSync (cd_io deps) fs bundleDir of
                None \<Rightarrow> Inl BundleDirThrows
              | Some realBundleDir \<Rightarrow>
                  Inr (if \<not> insideRoot realBundleDir real then Some (EntrypointEscapes (man_entrypoint manifest) real) else None))))"

fun cleanConfigLoop :: "faults \<Rightarrow> string \<Rightarrow> string list \<Rightarrow> fileSystem \<Rightarrow> string option \<times> fileSystem" where
  "cleanConfigLoop io homeDir [] fs = (None, fs)"
| "cleanConfigLoop io homeDir (d # ds) fs =
     (if startsWith d ''~/'' then
        let resolvedPath = pathResolve (renderPath (fs_cwd fs)) [homeDir, drop 2 d] in
        if \<not> insideRoot homeDir resolvedPath then cleanConfigLoop io homeDir ds fs
        else (case mkdirSync io resolvedPath fs of
                (Some e, fs1) \<Rightarrow> (Some e, fs1)
              | (None, fs1) \<Rightarrow> cleanConfigLoop io homeDir ds fs1)
      else cleanConfigLoop io homeDir ds fs)"

definition enforceCleanConfigDirs :: "faults \<Rightarrow> secureCommandManifest \<Rightarrow> string \<Rightarrow> fileSystem \<Rightarrow> string option \<times> fileSystem" where
  "enforceCleanConfigDirs io manifest homeDir fs = cleanConfigLoop io homeDir (map fst (get_or [] (man_cleanConfigDirs manifest))) fs"

definition prepareHome :: "faults \<Rightarrow> secureCommandManifest \<Rightarrow> string \<Rightarrow> fileSystem \<Rightarrow> string option \<times> fileSystem" where
  "prepareHome io manifest homeDir fs =
     (case mkdirSync io homeDir fs of (Some e, fs1) \<Rightarrow> (Some e, fs1) | (None, fs1) \<Rightarrow> enforceCleanConfigDirs io manifest homeDir fs1)"

definition truncated :: "nat \<Rightarrow> string \<Rightarrow> string" where
  "truncated n s = (if length s > n then take n s @ (CHR 0x0A # ''[output truncated]'') else s)"

definition failure :: "string \<Rightarrow> commandError \<Rightarrow> commandResult" where
  "failure auditId e =
     \<lparr>er_success = False, er_exitCode = None, er_stdout = None, er_stderr = None, er_copyback = None, er_error = Some e,
      er_auditId = auditId, er_approvalRequired = None\<rparr>"

definition runCommand ::
    "commandDeps \<Rightarrow> string \<Rightarrow> string list \<Rightarrow> string \<Rightarrow> environment \<Rightarrow> string \<Rightarrow> fileSystem \<Rightarrow> commandResult \<times> fileSystem \<times> commandEvent list" where
  "runCommand deps entrypointPath argv scratchDir env auditId fs =
     (let (mk, fs1) = (if truthy (map_get env ''HOME'') then mkdirSync (cd_io deps) (the (map_get env ''HOME'')) fs else (None, fs)) in
      case mk of
        Some e \<Rightarrow> (failure auditId (ExecutionFailed e), fs1, [])
      | None \<Rightarrow>
          let (r, fs2) = cd_spawn deps entrypointPath argv scratchDir env fs1 in
          ((case r of
              Inl e \<Rightarrow> failure auditId (ExecutionFailed e)
            | Inr p \<Rightarrow>
                let n = get_or DEFAULT_MAX_OUTPUT_BYTES (cd_maxOutputBytes deps) in
                \<lparr>er_success = (po_exitCode p = 0), er_exitCode = Some (po_exitCode p), er_stdout = Some (truncated n (po_stdout p)),
                 er_stderr = Some (truncated n (po_stderr p)), er_copyback = None,
                 er_error = (if po_exitCode p \<noteq> 0 then Some (ExitCode (po_exitCode p)) else None),
                 er_auditId = auditId, er_approvalRequired = None\<rparr>),
           fs2, [CommandSpawned entrypointPath argv scratchDir env]))"

section \<open>Cleanup\<close>

definition cleanupAll :: "faults \<Rightarrow> string \<Rightarrow> string option \<Rightarrow> string option \<Rightarrow> fileSystem \<Rightarrow> fileSystem" where
  "cleanupAll io scratchDir tempFilePath homeDir fs =
     (let fs1 = (if truthy tempFilePath then
            (case unlinkSync io (the tempFilePath) fs of
               (Some e, f) \<Rightarrow> f
             | (None, f) \<Rightarrow> snd (rmSync io (pathDirname (the tempFilePath)) f))
          else fs);
          fs2 = (if truthy homeDir then snd (rmSync io (the homeDir) fs1) else fs1) in
      cleanupScratchDir io scratchDir fs2)"

section \<open>The call\<close>

type_synonym commandOutcome = "(commandThrown + commandResult) \<times> commandState \<times> commandEvent list"

text \<open>Leaving early: the proxy session is stopped, then files are removed.\<close>

definition abandonCommand ::
    "commandDeps \<Rightarrow> string option \<Rightarrow> (fileSystem \<Rightarrow> fileSystem) \<Rightarrow> commandError \<Rightarrow> commandState \<Rightarrow> commandOutcome" where
  "abandonCommand deps session cleanup e st =
     (Inr (failure (cd_uuid deps 0) e),
      st\<lparr>cx_egress := stopProxy deps session (cx_egress st), cx_files := cleanup (cx_files st)\<rparr>, [])"

definition copybackStep ::
    "commandDeps \<Rightarrow> commandRequest \<Rightarrow> string \<Rightarrow> string \<Rightarrow> commandResult \<Rightarrow> fileSystem \<Rightarrow> commandResult \<times> fileSystem" where
  "copybackStep deps request credential scratchDir r fs =
     (if get_or [] (cr_outputs request) \<noteq> [] \<and> er_exitCode r \<noteq> None then
        let (cb, fs1) = copybackOutputs (cd_io deps)
              \<lparr>wc_workspaceDir = cr_workspaceDir request, wc_inputs = get_or [] (cr_inputs request), wc_outputs = get_or [] (cr_outputs request),
               wc_secrets = [credential]\<rparr> scratchDir fs;
            r1 = r\<lparr>er_copyback := Some cb\<rparr>;
            failures = CopybackFailures (map (\<lambda>o1. (oc_scratchPath o1, oc_reason o1)) (filter (\<lambda>o1. \<not> oc_success o1) (cb_outputs cb))) in
        (if cb_allSucceeded cb then r1
         else r1\<lparr>er_error := Some (case er_error r of Some e \<Rightarrow> AlsoFailed e failures | None \<Rightarrow> failures)\<rparr>, fs1)
      else (r, fs))"

definition commandAudit :: "commandDeps \<Rightarrow> commandRequest \<Rightarrow> string \<Rightarrow> commandResult \<Rightarrow> auditRecordSummary" where
  "commandAudit deps request grantId r =
     \<lparr>ar_auditId = cd_uuid deps 0, ar_grantId = grantId, ar_credentialHandle = cr_credentialHandle request, ar_toolName = ''command'',
      ar_target = cr_bundleDigest request @ ''/'' @ cr_profileName request, ar_sessionId = get_or ''unknown'' (cd_sessionId deps),
      ar_success = er_success r, ar_errorMessage = map_option (cd_text deps) (er_error r), ar_timestamp = cd_now deps\<rparr>"

definition finishCommand ::
    "commandDeps \<Rightarrow> commandRequest \<Rightarrow> string \<Rightarrow> string \<Rightarrow> string \<Rightarrow> string option \<Rightarrow> string option \<Rightarrow> string \<Rightarrow> commandResult \<Rightarrow> commandState \<Rightarrow> commandOutcome" where
  "finishCommand deps request grantId credential scratchDir session tempFilePath homeDir r st =
     (let (r1, fs1) = copybackStep deps request credential scratchDir r (cx_files st);
          st1 = st\<lparr>cx_egress := stopProxy deps session (cx_egress st), cx_files := cleanupAll (cd_io deps) scratchDir tempFilePath (Some homeDir) fs1\<rparr>;
          audit = commandAudit deps request grantId r1 in
      case cd_auditStore deps of
        None \<Rightarrow> (Inr r1, st1, [])
      | Some ok \<Rightarrow> (Inr r1, st1\<lparr>cx_audit := snd (appendAudit ok audit (cx_audit st1))\<rparr>, [AuditAppended audit]))"

definition emitting :: "commandEvent list \<Rightarrow> commandOutcome \<Rightarrow> commandOutcome" where
  "emitting evs r = (fst r, fst (snd r), evs @ snd (snd r))"

text \<open>Steps 8 to 12: entrypoint, home directory, process, copyback, cleanup, audit.\<close>

definition executePrepared ::
    "commandDeps \<Rightarrow> commandRequest \<Rightarrow> secureCommandManifest \<Rightarrow> string \<Rightarrow> string \<Rightarrow> string \<Rightarrow> (string \<times> proxyEnvVars) option \<Rightarrow>
     adapterEnvResult \<Rightarrow> commandState \<Rightarrow> commandOutcome" where
  "executePrepared deps request manifest grantId credential scratchDir proxy adapter st =
     (let session = map_option fst proxy; tempFilePath = ae_tempFilePath adapter;
          homeDir = pathJoin [cd_tmpdir deps, ''ces-home-'' @ cd_uuid deps 4] in
      case checkEntrypoint deps request manifest (cx_files st) of
        Inl t \<Rightarrow> (Inl t, st, [])
      | Inr (Some e) \<Rightarrow> abandonCommand deps session (cleanupAll (cd_io deps) scratchDir tempFilePath None) e st
      | Inr None \<Rightarrow>
          (case prepareHome (cd_io deps) manifest homeDir (cx_files st) of
             (Some e, fs1) \<Rightarrow>
               abandonCommand deps session (cleanupAll (cd_io deps) scratchDir tempFilePath (Some homeDir)) (ConfigDirsFailed e) (st\<lparr>cx_files := fs1\<rparr>)
           | (None, fs1) \<Rightarrow>
               let env = buildCommandEnv deps (ae_env adapter) (map_option snd proxy) (noNetworkEnvOf manifest) homeDir;
                   (r, fs2, evs) = runCommand deps (entrypointOf deps request manifest (cx_files st)) (cr_argv request) scratchDir env (cd_uuid deps 0) fs1 in
               emitting evs
                 (finishCommand deps request grantId credential scratchDir session tempFilePath homeDir r (st\<lparr>cx_files := fs2\<rparr>))))"

text \<open>Step 7: the auth adapter, with the proxy in place.\<close>

definition executeAdapted ::
    "commandDeps \<Rightarrow> commandRequest \<Rightarrow> secureCommandManifest \<Rightarrow> string \<Rightarrow> string \<Rightarrow> string \<Rightarrow> (string \<times> proxyEnvVars) option \<Rightarrow>
     commandState \<Rightarrow> commandOutcome" where
  "executeAdapted deps request manifest grantId credential scratchDir proxy st =
     (case buildAuthAdapterEnv deps (man_authAdapter manifest) credential (map_option snd proxy) (noNetworkEnvOf manifest) (cx_files st) of
        (Inl e, fs1, evs) \<Rightarrow>
          emitting evs (abandonCommand deps (map_option fst proxy) (cleanupScratchDir (cd_io deps) scratchDir) (AdapterFailed e) (st\<lparr>cx_files := fs1\<rparr>))
      | (Inr adapter, fs1, evs) \<Rightarrow>
          emitting evs (executePrepared deps request manifest grantId credential scratchDir proxy adapter (st\<lparr>cx_files := fs1\<rparr>)))"

text \<open>Step 6: the egress proxy.\<close>

definition executeWithCredential ::
    "commandDeps \<Rightarrow> commandRequest \<Rightarrow> secureCommandManifest \<Rightarrow> string \<Rightarrow> string \<Rightarrow> string \<Rightarrow> commandState \<Rightarrow> commandOutcome" where
  "executeWithCredential deps request manifest grantId credential scratchDir st =
     (if man_egressMode manifest = ProxyRequired then
        (case cd_hooks deps of
           None \<Rightarrow> abandonCommand deps None (cleanupScratchDir (cd_io deps) scratchDir) NoEgressHooks st
         | Some hooks \<Rightarrow>
             (case startProxy deps request manifest hooks (cx_egress st) of
                (Inl e, s1) \<Rightarrow>
                  abandonCommand deps None (cleanupScratchDir (cd_io deps) scratchDir) (ProxyStartFailed e) (st\<lparr>cx_egress := s1\<rparr>)
              | (Inr proxy, s1) \<Rightarrow>
                  executeAdapted deps request manifest grantId credential scratchDir (Some proxy) (st\<lparr>cx_egress := s1\<rparr>)))
      else executeAdapted deps request manifest grantId credential scratchDir None st)"

text \<open>Steps 4 and 5: staging and materialisation.\<close>

definition executeGranted ::
    "commandDeps \<Rightarrow> commandRequest \<Rightarrow> secureCommandManifest \<Rightarrow> string \<Rightarrow> commandState \<Rightarrow> commandOutcome" where
  "executeGranted deps request manifest grantId st =
     (case stageInputs (cd_io deps) (cd_dataRoot deps) (cd_uuid deps 1)
             \<lparr>wc_workspaceDir = cr_workspaceDir request, wc_inputs = get_or [] (cr_inputs request), wc_outputs = get_or [] (cr_outputs request),
              wc_secrets = []\<rparr> (cx_files st) of
        (Inl e, fs1) \<Rightarrow> (Inr (failure (cd_uuid deps 0) (StagingFailed e)), st\<lparr>cx_files := fs1\<rparr>, [])
      | (Inr staged, fs1) \<Rightarrow>
          let st1 = st\<lparr>cx_files := fs1\<rparr>; scratchDir = sw_scratchDir staged in
          (case cd_materialise deps (cr_credentialHandle request) of
             Inl e \<Rightarrow> (Inl (MaterialiserThrows e), st1, [])
           | Inr (Inl e) \<Rightarrow> abandonCommand deps None (cleanupScratchDir (cd_io deps) scratchDir) (MaterialisationFailed e) st1
           | Inr (Inr credential) \<Rightarrow> executeWithCredential deps request manifest grantId credential scratchDir st1))"

definition executeAuthenticatedCommand :: "commandDeps \<Rightarrow> commandRequest \<Rightarrow> commandState \<Rightarrow> commandOutcome" where
  "executeAuthenticatedCommand deps request st =
     (let auditId = cd_uuid deps 0 in
      case resolveBundle deps (cr_bundleDigest request) (cx_files st) of
        Inl e \<Rightarrow> (Inr (failure auditId e), st, [])
      | Inr manifest \<Rightarrow>
          (case validateRequestedProfile manifest (cr_profileName request) (cr_argv request) of
             None \<Rightarrow> (Inl ManifestThrows, st, [])
           | Some (Some e) \<Rightarrow> (Inr (failure auditId e), st, [])
           | Some None \<Rightarrow>
               (case checkGrant (cd_sha deps) request (cd_now deps) (cx_grants st) of
                  (Inl e, g1) \<Rightarrow> (Inl (GrantStoreThrows e), st\<lparr>cx_grants := g1\<rparr>, [])
                | (Inr None, g1) \<Rightarrow>
                    (Inr ((failure auditId (GrantMissing (man_bundleId manifest) (cr_profileName request) (cr_credentialHandle request)))
                       \<lparr>er_approvalRequired := Some
                          \<lparr>an_credentialHandle = cr_credentialHandle request, an_bundleId = man_bundleId manifest,
                           an_bundleDigest = cr_bundleDigest request, an_profileName = cr_profileName request,
                           an_command = commandText request, an_purpose = cr_purpose request\<rparr>\<rparr>),
                     st\<lparr>cx_grants := g1\<rparr>, [])
                | (Inr (Some grantId), g1) \<Rightarrow> executeGranted deps request manifest grantId (st\<lparr>cx_grants := g1\<rparr>))))"

section \<open>The RPC handler\<close>

text \<open>\<open>parseCommandString\<close> and \<open>createRunAuthenticatedCommandHandler\<close> of server.ts.\<close>

datatype commandStringError = CommandEmpty | ReferenceInvalid string

definition parseCommandString :: "string \<Rightarrow> commandStringError + string \<times> string \<times> string list" where
  "parseCommandString command =
     (let trimmed = trim command in
      if trimmed = [] then Inl CommandEmpty
      else
        let ref = takeWhile (\<lambda>c. c \<noteq> CHR 0x20) trimmed;
            argvStr = trim (drop (Suc (length ref)) trimmed);
            digest = takeWhile (\<lambda>c. c \<noteq> CHR ''/'') ref;
            profile = drop (Suc (length digest)) ref in
        if CHR ''/'' \<notin> set ref \<or> digest = [] \<or> profile = [] then Inl (ReferenceInvalid ref)
        else Inr (digest, profile, if argvStr = [] then [] else filter (\<lambda>s. s \<noteq> []) (splitSpaces argvStr)))"

record runCommandRequest =
  rc_command :: string
  rc_credentialHandle :: string
  rc_cwd :: "string option"
  rc_inputs :: "string list option"
  rc_outputs :: "workspaceOutput list option"
  rc_purpose :: string
  rc_grantId :: "string option"
  rc_conversationId :: "string option"

datatype runCommandResponse =
    InvalidCommand commandStringError
  | InvalidCwd workspaceError
  | CommandApprovalRequired grantProposal string string
  | CommandDone bool "int option" "string option" "string option" "commandError option" string

definition approvalProposal :: "approvalNeeded \<Rightarrow> grantProposal" where
  "approvalProposal a =
     CommandGrantProposal (an_credentialHandle a) (an_command a) (an_purpose a)
       (Some [an_credentialHandle a @ '':'' @ an_bundleDigest a @ '':'' @ an_profileName a])"

definition commandResponse :: "hasher \<Rightarrow> commandResult \<Rightarrow> runCommandResponse" where
  "commandResponse sha r =
     (case er_approvalRequired r of
        Some a \<Rightarrow>
          if er_success r then CommandDone (er_success r) (er_exitCode r) (er_stdout r) (er_stderr r) (er_error r) (er_auditId r)
          else CommandApprovalRequired (approvalProposal a) (hashProposal sha (approvalProposal a)) (er_auditId r)
      | None \<Rightarrow> CommandDone (er_success r) (er_exitCode r) (er_stdout r) (er_stderr r) (er_error r) (er_auditId r))"

definition runAuthenticatedCommand ::
    "commandDeps \<Rightarrow> string \<Rightarrow> runCommandRequest \<Rightarrow> commandState \<Rightarrow> (commandThrown + runCommandResponse) \<times> commandState \<times> commandEvent list" where
  "runAuthenticatedCommand deps defaultWorkspaceDir request st =
     (case parseCommandString (rc_command request) of
        Inl e \<Rightarrow> (Inr (InvalidCommand e), st, [])
      | Inr (digest, profile, argv) \<Rightarrow>
          let hasWorkspaceIO = (get_or [] (rc_inputs request) \<noteq> [] \<or> get_or [] (rc_outputs request) \<noteq> []);
              cwdError =
                (if hasWorkspaceIO \<and> truthy (rc_cwd request) then
                   validateContainedPath (cd_io deps) (cx_files st) (pathResolve (renderPath (fs_cwd (cx_files st))) [the (rc_cwd request)])
                     defaultWorkspaceDir ''Command cwd''
                 else None) in
          case cwdError of
            Some e \<Rightarrow> (Inr (InvalidCwd e), st, [])
          | None \<Rightarrow>
              let (r, st1, evs) = executeAuthenticatedCommand deps
                    \<lparr>cr_bundleDigest = digest, cr_profileName = profile, cr_credentialHandle = rc_credentialHandle request, cr_argv = argv,
                     cr_workspaceDir = get_or defaultWorkspaceDir (rc_cwd request), cr_inputs = rc_inputs request, cr_outputs = rc_outputs request,
                     cr_purpose = rc_purpose request, cr_grantId = rc_grantId request, cr_conversationId = rc_conversationId request\<rparr> st in
              (map_sum id (commandResponse (cd_sha deps)) r, st1, evs))"

end
