(* ===== verification/Command_Run_Properties.thy ===== *)
theory Command_Run_Properties
  imports Command_Executor Policy_Properties Egress_Properties
begin

text \<open>
  Lemmas on the execution of commands: what the grant check accepts, what each stage records, and
  what the proxy session of a call is.
\<close>

section \<open>Grants\<close>

definition commandGranted :: "hasher \<Rightarrow> commandRequest \<Rightarrow> int \<Rightarrow> credentialState \<Rightarrow> string \<Rightarrow> bool" where
  "commandGranted sha request now cs gid \<longleftrightarrow>
     (\<exists>all g. \<not> ps_corrupt (cs_persistent cs) \<and> readable (cs_persistent cs) = Some all \<and> g \<in> set all \<and> isActive g \<and> pg_id g = gid \<and>
        pg_tool g = ''command'' \<and> pg_scope g = cr_credentialHandle request \<and>
        (pg_pattern g = canonicalPattern request \<or> pg_pattern g = commandText request)) \<or>
     (\<exists>kind. gid = ''temp:'' @ kindText kind @ '':'' @ hashProposal sha (commandProposal request) \<and>
        liveGrant kind (hashProposal sha (commandProposal request)) (cr_conversationId request) now (cs_temporary cs))"

lemma explicitCommandGrant_cases:
  assumes "explicitCommandGrant request s = (Inr x, s1)"
  shows "s1 = s"
    and "x = Some g \<Longrightarrow> \<not> ps_corrupt s \<and> (\<exists>all. readable s = Some all \<and> g \<in> set all) \<and> isActive g \<and> commandGrantFor request g"
proof -
  show "s1 = s"
    using assms getAll_cases by (fastforce simp: explicitCommandGrant_def getById_def andThen_def split: if_splits prod.splits sum.splits)
  show "\<not> ps_corrupt s \<and> (\<exists>all. readable s = Some all \<and> g \<in> set all) \<and> isActive g \<and> commandGrantFor request g" if "x = Some g"
  proof -
    from assms that obtain gs p1 where "getAll s = (Inr gs, p1)" "find (\<lambda>h. pg_id h = the (cr_grantId request)) gs = Some g" "commandGrantFor request g"
      by (auto simp: explicitCommandGrant_def getById_def andThen_def split: if_splits prod.splits sum.splits option.splits)
    with getAll_cases [OF this(1)] find_Some_mem [OF this(2)] show ?thesis by blast
  qed
qed

lemma checkGrant_granted:
  assumes "checkGrant sha request now cs = (Inr (Some gid), cs1)"
  shows "commandGranted sha request now cs gid"
proof -
  from assms obtain x p1 where e: "explicitCommandGrant request (cs_persistent cs) = (Inr x, p1)"
    by (auto simp: checkGrant_def split: prod.splits sum.splits)
  note ex = explicitCommandGrant_cases [OF e]
  show ?thesis
  proof (cases x)
    case (Some g)
    with assms e ex show ?thesis by (auto simp: checkGrant_def commandGranted_def commandGrantFor_def grantMatchesCommand_def)
  next
    case None
    with assms e ex(1) obtain gs p2 where g: "getAll (cs_persistent cs) = (Inr gs, p2)"
      by (auto simp: checkGrant_def split: prod.splits sum.splits)
    note ga = getAll_cases [OF g]
    show ?thesis
    proof (cases "find (commandGrantFor request) gs")
      case (Some h)
      then have "h \<in> set gs" "commandGrantFor request h" using find_Some_mem by fast+
      with Some None assms e ex(1) g ga show ?thesis
        by (fastforce simp: checkGrant_def commandGranted_def commandGrantFor_def grantMatchesCommand_def)
    next
      case fn: None
      obtain k t where k: "checkAny (hashProposal sha (commandProposal request)) (cr_conversationId request) now (cs_temporary cs) = (k, t)" by fastforce
      with fn None assms e ex(1) g show ?thesis
        by (auto simp: checkGrant_def commandGranted_def Let_def dest!: checkAny_Some split: option.splits)
    qed
  qed
qed

section \<open>What the stages record\<close>

lemma emitting_events [simp]: "snd (snd (emitting evs r)) = evs @ snd (snd r)" "fst (emitting evs r) = fst r" "fst (snd (emitting evs r)) = fst (snd r)"
  by (simp_all add: emitting_def)

lemma abandon_simps [simp]:
  "snd (snd (abandonCommand deps session cleanup e st)) = []"
  "cx_egress (fst (snd (abandonCommand deps session cleanup e st))) = stopProxy deps session (cx_egress st)"
  by (simp_all add: abandonCommand_def)

lemma finish_events:
  "snd (snd (finishCommand deps request gid credential scratchDir session temp home r st)) =
     (case cd_auditStore deps of None \<Rightarrow> []
      | Some ok \<Rightarrow> [AuditAppended (commandAudit deps request gid (fst (copybackStep deps request credential scratchDir r (cx_files st))))])"
  by (auto simp: finishCommand_def Let_def split: prod.splits option.splits)

lemma finish_egress:
  "cx_egress (fst (snd (finishCommand deps request gid credential scratchDir session temp home r st))) = stopProxy deps session (cx_egress st)"
  by (auto simp: finishCommand_def Let_def split: prod.splits option.splits)

lemma run_events:
  "snd (snd (runCommand deps path argv scratchDir env auditId fs)) \<in> {[], [CommandSpawned path argv scratchDir env]}"
  by (auto simp: runCommand_def Let_def split: prod.splits option.splits if_splits)

text \<open>The processes of a call whose proxy has been started.\<close>

lemma adapter_events:
  assumes "buildAuthAdapterEnv deps adapter credential proxyEnv noNet fs = (r, fs1, evs)" "ev \<in> set evs"
  shows "\<exists>helper. ev = HelperSpawned helper (withNoNetwork noNet (withProxyEnv proxyEnv [])) credential \<and>
    \<not> containsShellMetacharacters helper \<and> \<not> isDeniedBinary (extractShellBinary helper)"
  using assms
  by (auto simp: buildAuthAdapterEnv_def runCredentialProcess_def Let_def
      split: option.splits authAdapterConfig.splits prod.splits sum.splits if_splits)

lemma prepared_command:
  assumes "CommandSpawned path argv cwd env \<in> set (snd (snd (executePrepared deps request manifest gid credential scratchDir proxy adapter st)))"
  shows "argv = cr_argv request \<and> cwd = scratchDir \<and> path = entrypointOf deps request manifest (cx_files st) \<and>
    checkEntrypoint deps request manifest (cx_files st) = Inr None \<and>
    env = buildCommandEnv deps (ae_env adapter) (map_option snd proxy) (noNetworkEnvOf manifest) (pathJoin [cd_tmpdir deps, ''ces-home-'' @ cd_uuid deps 4])"
proof -
  obtain fs1 where c: "checkEntrypoint deps request manifest (cx_files st) = Inr None"
    "prepareHome (cd_io deps) manifest (pathJoin [cd_tmpdir deps, ''ces-home-'' @ cd_uuid deps 4]) (cx_files st) = (None, fs1)"
    using assms by (auto simp: executePrepared_def Let_def split: sum.splits option.splits prod.splits)
  define env1 where "env1 = buildCommandEnv deps (ae_env adapter) (map_option snd proxy) (noNetworkEnvOf manifest) (pathJoin [cd_tmpdir deps, ''ces-home-'' @ cd_uuid deps 4])"
  obtain r fs2 evs where run: "runCommand deps (entrypointOf deps request manifest (cx_files st)) (cr_argv request) scratchDir env1 (cd_uuid deps 0) fs1 = (r, fs2, evs)"
    by (metis prod_cases3)
  have "CommandSpawned path argv cwd env \<in> set evs"
    using assms c run by (auto simp: executePrepared_def Let_def env1_def finish_events split: option.splits)
  then show ?thesis using run_events [of deps "entrypointOf deps request manifest (cx_files st)" "cr_argv request" scratchDir env1 "cd_uuid deps 0" fs1] run c(1) env1_def
    by auto
qed

lemma prepared_no_helper:
  "HelperSpawned h e c \<notin> set (snd (snd (executePrepared deps request manifest gid credential scratchDir proxy adapter st)))"
proof
  assume a: "HelperSpawned h e c \<in> set (snd (snd (executePrepared deps request manifest gid credential scratchDir proxy adapter st)))"
  have run: "HelperSpawned h e c \<notin> set evs" if "runCommand d p a s en i fs = (r, fs2, evs)" for d p a s en i fs r fs2 evs
    using run_events [of d p a s en i fs] that by auto
  from a run show False
    by (auto simp: executePrepared_def Let_def finish_events split: sum.splits option.splits prod.splits)
qed

lemma adapted_command:
  assumes "CommandSpawned path argv cwd env \<in> set (snd (snd (executeAdapted deps request manifest gid credential scratchDir proxy st)))"
  shows "\<exists>fs aenv. argv = cr_argv request \<and> cwd = scratchDir \<and> path = entrypointOf deps request manifest fs \<and>
    checkEntrypoint deps request manifest fs = Inr None \<and>
    env = buildCommandEnv deps aenv (map_option snd proxy) (noNetworkEnvOf manifest) (pathJoin [cd_tmpdir deps, ''ces-home-'' @ cd_uuid deps 4])"
proof -
  obtain a fs1 evs where b: "buildAuthAdapterEnv deps (man_authAdapter manifest) credential (map_option snd proxy) (noNetworkEnvOf manifest) (cx_files st) = (a, fs1, evs)"
    by (metis prod_cases3)
  have "CommandSpawned path argv cwd env \<notin> set evs" using adapter_events [OF b] by auto
  with assms b obtain adapter where
    "CommandSpawned path argv cwd env \<in> set (snd (snd (executePrepared deps request manifest gid credential scratchDir proxy adapter (st\<lparr>cx_files := fs1\<rparr>))))"
    by (auto simp: executeAdapted_def split: sum.splits)
  from prepared_command [OF this] show ?thesis by blast
qed

lemma adapted_helper:
  assumes "HelperSpawned helper env c \<in> set (snd (snd (executeAdapted deps request manifest gid credential scratchDir proxy st)))"
  shows "env = withNoNetwork (noNetworkEnvOf manifest) (withProxyEnv (map_option snd proxy) []) \<and> c = credential \<and>
    \<not> containsShellMetacharacters helper \<and> \<not> isDeniedBinary (extractShellBinary helper)"
proof -
  obtain a fs1 evs where b: "buildAuthAdapterEnv deps (man_authAdapter manifest) credential (map_option snd proxy) (noNetworkEnvOf manifest) (cx_files st) = (a, fs1, evs)"
    by (metis prod_cases3)
  with assms prepared_no_helper have "HelperSpawned helper env c \<in> set evs" by (auto simp: executeAdapted_def split: sum.splits)
  from adapter_events [OF b this] show ?thesis by auto
qed

text \<open>The proxy a process runs under, if there is one.\<close>

definition proxyInPlace ::
    "commandDeps \<Rightarrow> commandRequest \<Rightarrow> secureCommandManifest \<Rightarrow> egressState \<Rightarrow> (string \<times> proxyEnvVars) option \<Rightarrow> bool" where
  "proxyInPlace deps request manifest s proxy \<longleftrightarrow>
     (if man_egressMode manifest = ProxyRequired
      then (\<exists>hooks p s1. cd_hooks deps = Some hooks \<and> proxy = Some p \<and> startProxy deps request manifest hooks s = (Inr p, s1))
      else proxy = None)"

lemma credential_stage:
  assumes "ev \<in> set (snd (snd (executeWithCredential deps request manifest gid credential scratchDir st)))"
  shows "\<exists>proxy st1. proxyInPlace deps request manifest (cx_egress st) proxy \<and>
    ev \<in> set (snd (snd (executeAdapted deps request manifest gid credential scratchDir proxy st1)))"
proof (cases "man_egressMode manifest = ProxyRequired")
  case True
  with assms obtain hooks p s1 where "cd_hooks deps = Some hooks" "startProxy deps request manifest hooks (cx_egress st) = (Inr p, s1)"
    "ev \<in> set (snd (snd (executeAdapted deps request manifest gid credential scratchDir (Some p) (st\<lparr>cx_egress := s1\<rparr>))))"
    by (auto simp: executeWithCredential_def split: option.splits prod.splits sum.splits)
  with True show ?thesis unfolding proxyInPlace_def by (intro exI [of _ "Some p"] exI [of _ "st\<lparr>cx_egress := s1\<rparr>"]) auto
next
  case False
  with assms show ?thesis unfolding proxyInPlace_def executeWithCredential_def by auto
qed

lemma granted_stage:
  assumes "ev \<in> set (snd (snd (executeGranted deps request manifest gid st)))"
  shows "\<exists>proxy st1 credential scratchDir. proxyInPlace deps request manifest (cx_egress st) proxy \<and>
    cd_materialise deps (cr_credentialHandle request) = Inr (Inr credential) \<and>
    ev \<in> set (snd (snd (executeAdapted deps request manifest gid credential scratchDir proxy st1)))"
proof -
  let ?config = "\<lparr>wc_workspaceDir = cr_workspaceDir request, wc_inputs = get_or [] (cr_inputs request), wc_outputs = get_or [] (cr_outputs request),
      wc_secrets = []\<rparr>"
  obtain x fs1 where stage: "stageInputs (cd_io deps) (cd_dataRoot deps) (cd_uuid deps 1) ?config (cx_files st) = (x, fs1)" by fastforce
  with assms obtain staged where x: "x = Inr staged" by (cases x) (auto simp: executeGranted_def)
  from assms stage x obtain credential where c: "cd_materialise deps (cr_credentialHandle request) = Inr (Inr credential)"
    by (cases "cd_materialise deps (cr_credentialHandle request)") (auto simp: executeGranted_def Let_def split: sum.splits)
  have "ev \<in> set (snd (snd (executeWithCredential deps request manifest gid credential (sw_scratchDir staged) (st\<lparr>cx_files := fs1\<rparr>))))"
    using assms stage x c by (simp add: executeGranted_def Let_def)
  from credential_stage [OF this] c show ?thesis by auto
qed

text \<open>Nothing is recorded before the bundle, the profile and a grant have been checked.\<close>

lemma call_stage:
  assumes "executeAuthenticatedCommand deps request st = (r, st', evs)" "ev \<in> set evs"
  shows "\<exists>manifest gid g1. resolveBundle deps (cr_bundleDigest request) (cx_files st) = Inr manifest \<and>
    validateRequestedProfile manifest (cr_profileName request) (cr_argv request) = Some None \<and>
    checkGrant (cd_sha deps) request (cd_now deps) (cx_grants st) = (Inr (Some gid), g1) \<and>
    executeGranted deps request manifest gid (st\<lparr>cx_grants := g1\<rparr>) = (r, st', evs)"
  using assms by (auto simp: executeAuthenticatedCommand_def Let_def split: sum.splits option.splits prod.splits)

lemma profile_matched:
  assumes "validateRequestedProfile manifest profile argv = Some None"
  shows "\<exists>pat. validateCommand manifest argv = Some (CommandAllowed profile pat)"
  using assms by (auto simp: validateRequestedProfile_def split: option.splits commandValidation.splits if_splits)

section \<open>Environments\<close>

lemma proxy_env_values:
  assumes "k \<in> {''HTTP_PROXY'', ''http_proxy''}" "k' \<in> {''HTTPS_PROXY'', ''https_proxy''}"
  shows "map_get (withProxyEnv (Some p) env) k = Some (env_HTTP_PROXY p)" "map_get (withProxyEnv (Some p) env) k' = Some (env_HTTPS_PROXY p)"
  using assms by (auto simp: withProxyEnv_def Let_def)

lemma no_network_values:
  assumes "man_egressMode manifest = NoNetwork" "k \<in> {''HTTP_PROXY'', ''http_proxy'', ''HTTPS_PROXY'', ''https_proxy''}"
  shows "map_get (withNoNetwork (noNetworkEnvOf manifest) env) k = Some blockedProxy"
  using assms by (auto simp: noNetworkEnvOf_def withNoNetwork_def)

lemma protected_values:
  assumes "k \<in> {''PATH'', ''LANG'', ''HOME''}"
  shows "map_get (withNoNetwork (noNetworkEnvOf manifest) (withProxyEnv proxyEnv env)) k = map_get env k"
proof -
  have proxy: "map_get (withProxyEnv proxyEnv env) k = map_get env k"
    using assms by (cases proxyEnv; elim insertE emptyE) (simp_all add: withProxyEnv_def Let_def)
  have "map_get (withNoNetwork (noNetworkEnvOf manifest) e) k = map_get e k" for e
    using assms by (elim insertE emptyE) (simp_all add: noNetworkEnvOf_def withNoNetwork_def)
  with proxy show ?thesis by simp
qed

section \<open>The proxy session of a call\<close>

lemma created_session:
  assumes "createSession conv creds config dir ap i now s = Inr s1"
  shows "\<exists>m. sessionOf s1 i = Some m \<and> map_get (eg_objects s1) i = Some m \<and> statusOf m = PxStarting \<and> px_id (mg_session m) = i \<and>
    px_conversationId (mg_session m) = conv \<and> mg_config m = mergedConfig config \<and> mg_dataDir m = None \<or> dir \<noteq> None"
  using assms by (auto simp: createSession_def Let_def sessionOf_def setObject_def statusOf_def split: if_splits)

lemma merged_targets [simp]: "pc_allowedTargets (mergedConfig config) = pp_allowedTargets config"
  by (simp add: mergedConfig_def)

lemma listenOn_cases:
  assumes "listenOn hooks host i m s = (r, s1)"
  obtains (failed) e where "r = Inl e" "s1 = s \<or> s1 = unlist i s"
    | (listening) port where "r = Inr (mg_session (activated host port m))" "s1 = setObject i (activated host port m) s"
  using assms by (auto simp: listenOn_def Let_def split: option.splits sum.splits)

text \<open>A start that succeeds leaves the session active with its configuration; one that fails activates nothing.\<close>

lemma startSession_result:
  assumes m: "sessionOf s i = Some m" "statusOf m = PxStarting" and run: "startSession hooks host i s = (r, s1)"
  shows "case r of
      Inl e \<Rightarrow> (\<forall>conv j. activeIn s1 conv j \<longrightarrow> activeIn s conv j)
    | Inr p \<Rightarrow> (\<exists>m1 port. p = mg_session m1 \<and> sessionOf s1 i = Some m1 \<and> statusOf m1 = PxActive \<and> px_port p = Some port \<and>
        px_id p = px_id (mg_session m) \<and> mg_config m1 = mg_config m \<and> mg_dataDir m1 = mg_dataDir m \<and>
        (\<forall>conv j. j \<noteq> i \<longrightarrow> activeIn s1 conv j \<longrightarrow> activeIn s conv j))"
proof -
  have listed: "i \<in> set (eg_listed s)" and obj: "map_get (eg_objects s) i = Some m" using m(1) by (auto simp: sessionOf_def split: if_splits)
  have calm_unlist: "activeIn (unlist i t) conv j \<Longrightarrow> activeIn t conv j" for t conv j by (rule calmer_active [OF unlist_simps(1)])
  have listen: ?thesis if l: "listenOn hooks host i m' s' = (r, s1)" and s': "i \<in> set (eg_listed s')" "\<And>conv j. activeIn s' conv j \<Longrightarrow> activeIn s conv j"
    and m': "mg_session m' = mg_session m" "mg_config m' = mg_config m" "mg_dataDir m' = mg_dataDir m" for m' s'
    using l
  proof (cases rule: listenOn_cases)
    case (failed e)
    then show ?thesis using s'(2) calm_unlist by auto
  next
    case (listening port)
    have "sessionOf s1 i = Some (activated host port m')" using listening(2) s'(1) by (simp add: sessionOf_def)
    moreover have "j \<noteq> i \<Longrightarrow> activeIn s1 conv j \<Longrightarrow> activeIn s conv j" for conv j using s'(2) by (simp add: listening(2) active_setObject)
    ultimately show ?thesis using listening(1) m' by (auto simp: activated_def statusOf_def)
  qed
  have start: "checkStart s i = None" using m by (simp add: checkStart_def)
  show ?thesis
  proof (cases "hk_setupCA hooks")
    case None
    with run start m(1) have "listenOn hooks host i m s = (r, s1)" by (simp add: startSession_def)
    then show ?thesis by (rule listen) (use listed in auto)
  next
    case (Some f)
    show ?thesis
    proof (cases "f m")
      case (Inl e)
      with Some run start m(1) have "r = Inl (HookFailed e)" "s1 = unlist i s" by (simp_all add: startSession_def)
      then show ?thesis using calm_unlist by auto
    next
      case (Inr path)
      let ?m = "m\<lparr>mg_combinedCABundlePath := path\<rparr>"
      from Some Inr run start m(1) have "listenOn hooks host i ?m (setObject i ?m s) = (r, s1)" by (simp add: startSession_def Let_def)
      moreover have "activeIn (setObject i ?m s) conv j \<Longrightarrow> activeIn s conv j" for conv j
        by (rule calmer_active [OF calmer_setObject [OF obj]]) simp_all
      ultimately show ?thesis by (intro listen [of ?m "setObject i ?m s"]) (use listed in auto)
    qed
  qed
qed

lemma startProxy_result:
  assumes fresh: "map_get (eg_objects s) (cd_uuid deps 2) = None" and run: "startProxy deps request manifest hooks s = (r, s1)"
  shows "case r of
      Inl e \<Rightarrow> (\<forall>conv j. activeIn s1 conv j \<longrightarrow> activeIn s conv j)
    | Inr (i, env) \<Rightarrow> i = cd_uuid deps 2 \<and> (\<forall>conv j. j \<noteq> i \<longrightarrow> activeIn s1 conv j \<longrightarrow> activeIn s conv j) \<and>
        (\<exists>m port. sessionOf s1 i = Some m \<and> statusOf m = PxActive \<and> px_port (mg_session m) = Some port \<and>
           pc_allowedTargets (mg_config m) = allowedTargetsOf manifest (cr_profileName request) \<and>
           env_HTTP_PROXY env = ''http://127.0.0.1:'' @ number_text port \<and> env_HTTPS_PROXY env = ''http://127.0.0.1:'' @ number_text port)"
proof -
  let ?i = "cd_uuid deps 2"
  let ?config = "\<lparr>pp_idleTimeoutMs = None, pp_maxSessionsPerConversation = None, pp_allowedTargets = allowedTargetsOf manifest (cr_profileName request)\<rparr>"
  let ?conv = "get_or (''ces-cmd-'' @ cd_uuid deps 0) (cr_conversationId request)"
  show ?thesis
  proof (cases "createSession ?conv [cr_credentialHandle request] ?config None False ?i (cd_now deps) s")
    case (Inl e)
    with run show ?thesis by (auto simp: startProxy_def)
  next
    case (Inr s2)
    have calm: "activeIn s2 conv j \<Longrightarrow> activeIn s conv j" for conv j using calmer_create [OF Inr fresh] calmer_active by blast
    obtain m where m: "sessionOf s2 ?i = Some m" "statusOf m = PxStarting" "px_id (mg_session m) = ?i" "mg_config m = mergedConfig ?config"
      using created_session [OF Inr] by auto
    obtain x s3 where st: "startSession hooks ''127.0.0.1'' ?i s2 = (x, s3)" by fastforce
    note started = startSession_result [OF m(1,2) st]
    show ?thesis
    proof (cases x)
      case l: (Inl e)
      with run Inr st started calm show ?thesis by (auto simp: startProxy_def)
    next
      case r: (Inr p)
      with started obtain m1 port where m1: "p = mg_session m1" "sessionOf s3 ?i = Some m1" "statusOf m1 = PxActive" "px_port p = Some port"
        "px_id p = ?i" "mg_config m1 = mg_config m" "\<And>conv j. j \<noteq> ?i \<Longrightarrow> activeIn s3 conv j \<Longrightarrow> activeIn s2 conv j"
        using m(3) by auto
      obtain env s4 where env: "getSessionEnv None ?i s3 = (Inr env, s4)" "env_HTTP_PROXY env = ''http://127.0.0.1:'' @ number_text port"
        "env_HTTPS_PROXY env = ''http://127.0.0.1:'' @ number_text port" "s4 = setObject ?i (m1\<lparr>mg_idleTimer := True\<rparr>) s3"
        using m1(1-4) by (auto simp: getSessionEnv_def Let_def)
      have "sessionOf s4 ?i = Some (m1\<lparr>mg_idleTimer := True\<rparr>)" using m1(2) by (auto simp: env(4) sessionOf_def split: if_splits)
      moreover have "j \<noteq> ?i \<Longrightarrow> activeIn s4 conv j \<Longrightarrow> activeIn s conv j" for conv j using m1(7) calm by (auto simp: env(4) active_setObject)
      moreover have "r = Inr (?i, env)" "s1 = s4" using run Inr st r env(1) m1(5) by (simp_all add: startProxy_def)
      moreover have "statusOf (m1\<lparr>mg_idleTimer := True\<rparr>) = PxActive" using m1(3) by (simp add: statusOf_def)
      ultimately show ?thesis using m1 m(4) env(2,3) by auto
    qed
  qed
qed

lemma stopProxy_calm: "activeIn (stopProxy deps session s) conv j \<Longrightarrow> activeIn s conv j \<and> session \<noteq> Some j"
proof (cases session)
  case (Some i)
  assume a: "activeIn (stopProxy deps session s) conv j"
  let ?s1 = "snd (stopSession i s)"
  have "calmer ?s1 (stopProxy deps session s)"
    using calmer_close by (cases "closeDone i (Option.bind (cd_hooks deps) hk_close) ?s1") (auto simp: stopProxy_def Some Let_def)
  from calmer_active [OF this a] have a1: "activeIn ?s1 conv j" .
  have "i \<noteq> j"
  proof
    assume "i = j"
    show False
    proof (cases "fst (stopSession i s)")
      case None
      then have "stopSession i s = (None, ?s1)" by (metis prod.collapse)
      from stop_inactive [OF this] a1 \<open>i = j\<close> show False by blast
    next
      case (Some e)
      then have "sessionOf s i = None" "?s1 = s" by (auto simp: stopSession_def Let_def split: option.splits if_splits)
      with a1 \<open>i = j\<close> show False by (simp add: activeIn_def)
    qed
  qed
  with calmer_active [OF calmer_stop a1] Some show ?thesis by simp
qed (simp add: stopProxy_def)

end
