(* ===== verification/Posix_Properties.thy ===== *)
theory Posix_Properties
  imports Posix_Files
begin

text \<open>
  Facts about path texts and the resolution of links: normalised paths are read back as their names,
  resolution is compositional and stable when directories are added.
\<close>

section \<open>Names and path texts\<close>

definition goodName :: "string \<Rightarrow> bool" where
  "goodName n \<longleftrightarrow> n \<noteq> [] \<and> n \<noteq> ''.'' \<and> n \<noteq> ''..'' \<and> CHR ''/'' \<notin> set n"

definition goodNames :: "string list \<Rightarrow> bool" where
  "goodNames ns \<longleftrightarrow> list_all goodName ns"

lemma goodNames_simps [simp]:
  "goodNames []" "goodNames (n # ns) \<longleftrightarrow> goodName n \<and> goodNames ns" "goodNames (ns @ ms) \<longleftrightarrow> goodNames ns \<and> goodNames ms"
  by (simp_all add: goodNames_def)

lemma goodNames_sub: "goodNames ns \<Longrightarrow> goodNames (take i ns)" "goodNames ns \<Longrightarrow> goodNames (drop i ns)"
  by (auto simp: goodNames_def list_all_iff dest: in_set_takeD in_set_dropD)

lemma goodNames_butlast: "goodNames ns \<Longrightarrow> goodNames (butlast ns)"
  by (auto simp: goodNames_def list_all_iff dest: in_set_butlastD)

lemma normParts_good:
  "goodNames acc \<Longrightarrow> (\<forall>x \<in> set xs. CHR ''/'' \<notin> set x) \<Longrightarrow> goodNames (normParts False acc xs)"
proof (induction "False" acc xs rule: normParts.induct)
  case (1 acc)
  then show ?case by (simp add: goodNames_def list_all_iff)
next
  case (2 acc x xs)
  have "goodNames (tl acc)" using "2.prems"(1) by (cases acc) auto
  with 2 show ?case by (auto simp: goodName_def)
qed

definition slashed :: "string list \<Rightarrow> string" where
  "slashed ns = concat (map (\<lambda>n. CHR ''/'' # n) ns)"

lemma slashed_simps [simp]:
  "slashed [] = []" "slashed (n # ns) = CHR ''/'' # n @ slashed ns" "slashed (ns @ ms) = slashed ns @ slashed ms"
  by (simp_all add: slashed_def)

lemma renderPath_slashed: "ns \<noteq> [] \<Longrightarrow> renderPath ns = slashed ns"
  by (simp add: renderPath_def slashed_def)

lemma joinWith_slashed: "ns \<noteq> [] \<Longrightarrow> CHR ''/'' # joinWith ''/'' ns = slashed ns"
  by (induction ns rule: joinWith.induct [of "\<lambda>_. _" "''/''", simplified]) auto

lemma splitOn_names: "CHR ''/'' \<notin> set n \<Longrightarrow> (\<forall>x \<in> set ns. CHR ''/'' \<notin> set x) \<Longrightarrow> splitOn (CHR ''/'') (n @ slashed ns) = n # ns"
  by (induction ns arbitrary: n) (auto simp: splitOn_no_sep splitOn_append)

lemma good_no_slash: "goodNames ns \<Longrightarrow> x \<in> set ns \<Longrightarrow> CHR ''/'' \<notin> set x"
  by (auto simp: goodNames_def list_all_iff goodName_def)

lemma splitOn_slashed: "goodNames ns \<Longrightarrow> splitOn (CHR ''/'') (slashed ns) = [] # ns"
  using splitOn_names [of "[]" ns] good_no_slash by auto

lemma splitOn_trailing: "goodNames ns \<Longrightarrow> splitOn (CHR ''/'') (slashed ns @ ''/'') = [] # ns @ [[]]"
  using splitOn_names [of "[]" "ns @ [[]]"] good_no_slash by auto

text \<open>Joining a relative path to an absolute one gives names, perhaps with a slash at the end.\<close>

lemma join_absolute:
  assumes "isAbsolute w" "rel \<noteq> []"
  obtains ns where "goodNames ns" "pathJoin [w, rel] = renderPath ns \<or> ns \<noteq> [] \<and> pathJoin [w, rel] = slashed ns @ ''/''"
proof -
  define p where "p = w @ ''/'' @ rel"
  have w: "w \<noteq> []" "isAbsolute p" "p \<noteq> []" using assms(1) by (auto simp: isAbsolute_def startsWith_iff p_def)
  define ns where "ns = normParts False [] (splitOn (CHR ''/'') p)"
  have good: "goodNames ns" unfolding ns_def by (rule normParts_good) (auto simp: splitOn_parts)
  have join: "pathJoin [w, rel] = normalizePath p" using assms(2) w(1) by (simp add: pathJoin_def p_def)
  have s: "joinWith ''/'' ns = [] \<longleftrightarrow> ns = []"
    using joinWith_slashed [of ns] good by (cases ns; cases "tl ns") (auto simp: goodName_def)
  show ?thesis
  proof (cases "ns = []")
    case True
    then have "pathJoin [w, rel] = renderPath ns"
      using w unfolding join normalizePath_def by (simp add: p_def [symmetric] ns_def [symmetric] renderPath_def)
    then show ?thesis using that good by blast
  next
    case False
    then have "normalizePath p = slashed ns @ (if last p = CHR ''/'' then ''/'' else [])"
      using w s joinWith_slashed [OF False] unfolding normalizePath_def by (simp add: ns_def [symmetric] Let_def)
    then show ?thesis using that [OF good] False join by (auto simp: renderPath_slashed split: if_splits)
  qed
qed

lemma find_rendered: "goodNames ns \<Longrightarrow> findNode c fs (renderPath ns) = walk c fs MAX_LINKS [] ns"
proof (cases ns)
  case Nil
  have "splitOn (CHR ''/'') ''/'' = [[], []]" by simp
  then show ?thesis by (simp add: Nil findNode_def renderPath_def startDir_def isAbsolute_def startsWith_def)
next
  case (Cons n ms)
  assume good: "goodNames ns"
  have "renderPath ns = slashed ns" using Cons by (simp add: renderPath_slashed)
  then show ?thesis using splitOn_slashed [OF good] Cons by (simp add: findNode_def startDir_def isAbsolute_def startsWith_def)
qed

lemma find_trailing: "goodNames ns \<Longrightarrow> ns \<noteq> [] \<Longrightarrow> findNode c fs (slashed ns @ ''/'') = walk c fs MAX_LINKS [] (ns @ [[]])"
  using splitOn_trailing [of ns] by (cases ns) (simp_all add: findNode_def startDir_def isAbsolute_def startsWith_def)

lemma dirname_rendered:
  assumes "goodNames ns" "ns \<noteq> []"
  shows "pathDirname (renderPath ns) = renderPath (butlast ns)"
proof -
  obtain ms n where ns: "ns = ms @ [n]" using assms(2) by (metis append_butlast_last_id)
  have n: "n \<noteq> []" "CHR ''/'' \<notin> set n" using assms(1) by (auto simp: ns goodName_def)
  have r: "renderPath ns = slashed ms @ CHR ''/'' # n" by (simp add: ns renderPath_slashed)
  have tl: "rev (dropSlashes (t @ n)) = rev n @ rev t" for t
    using n by (cases n rule: rev_cases) (auto simp: dropSlashes_def)
  have dw: "dropWhile (\<lambda>c. c \<noteq> CHR ''/'') (rev n @ u) = dropWhile (\<lambda>c. c \<noteq> CHR ''/'') u" for u
    using n(2) by (subst dropWhile_append2) auto
  show ?thesis
  proof (cases ms)
    case Nil
    have "dropWhile (\<lambda>c. c \<noteq> CHR ''/'') (rev (dropSlashes n)) = []" using tl [of "[]"] dw [of "[]"] by simp
    with Nil show ?thesis unfolding pathDirname_def r by (simp add: ns renderPath_def del: dropWhile_eq_Nil_conv)
  next
    case (Cons m ks)
    have m: "m \<noteq> []" using assms(1) by (simp add: ns Cons goodName_def)
    have "tl (renderPath ns) = (m @ slashed ks @ ''/'') @ n" by (simp add: r Cons)
    then have "dropWhile (\<lambda>c. c \<noteq> CHR ''/'') (rev (dropSlashes (tl (renderPath ns)))) = CHR ''/'' # rev (m @ slashed ks)"
      using tl [of "m @ slashed ks @ ''/''"] dw [of "rev (m @ slashed ks @ ''/'')"] by simp
    then show ?thesis using m by (simp add: pathDirname_def r Cons ns renderPath_slashed)
  qed
qed

section \<open>Resolution\<close>

text \<open>Every node but the root has a parent directory.\<close>

definition wellFormedFiles :: "fileSystem \<Rightarrow> bool" where
  "wellFormedFiles fs \<longleftrightarrow> (\<forall>p. nodeAt fs p \<noteq> None \<longrightarrow> nodeAt fs (butlast p) = Some DirNode)"

text \<open>Nothing is lost, and what is new is a directory.\<close>

definition dirsAdded :: "fileSystem \<Rightarrow> fileSystem \<Rightarrow> bool" where
  "dirsAdded fs fs' \<longleftrightarrow> fs_cwd fs' = fs_cwd fs \<and>
     (\<forall>k. nodeAt fs' k = nodeAt fs k \<or> nodeAt fs k = None \<and> nodeAt fs' k = Some DirNode)"

lemma dirsAdded_refl [simp]: "dirsAdded fs fs"
  by (simp add: dirsAdded_def)

lemma dirsAdded_trans: "dirsAdded fs fs1 \<Longrightarrow> dirsAdded fs1 fs2 \<Longrightarrow> dirsAdded fs fs2"
  unfolding dirsAdded_def by metis

lemma dirsAdded_node: "dirsAdded fs fs' \<Longrightarrow> nodeAt fs k = Some n \<Longrightarrow> nodeAt fs' k = Some n"
  unfolding dirsAdded_def by (metis option.distinct(1))

lemma dirsAdded_other: "dirsAdded fs fs' \<Longrightarrow> nodeAt fs' k = Some n \<Longrightarrow> n \<noteq> DirNode \<Longrightarrow> nodeAt fs k = Some n"
  unfolding dirsAdded_def by (metis option.inject)

lemma nodeAt_put: "p \<noteq> [] \<Longrightarrow> nodeAt (putNode p n fs) k = (if k = p then Some n else nodeAt fs k)"
  by (simp add: nodeAt_def putNode_def)

lemma nodeAt_root [simp]: "nodeAt fs [] = Some DirNode"
  by (simp add: nodeAt_def)

lemma walk_stable:
  "walk create fs links cur xs = Some k \<Longrightarrow> create = False \<Longrightarrow> dirsAdded fs fs' \<Longrightarrow> walk c fs' links cur xs = Some k"
proof (induction create fs links cur xs rule: walk.induct)
  case (2 create fs links cur x xs)
  show ?case
  proof (cases "x = [] \<or> x = ''.'' \<or> x = ''..''")
    case True
    with 2 show ?thesis by (auto split: if_splits)
  next
    case False
    with "2.prems" obtain n where n: "nodeAt fs (cur @ [x]) = Some n" by (auto split: option.splits)
    with "2.prems" have "nodeAt fs' (cur @ [x]) = Some n" by (simp add: dirsAdded_node)
    with False n 2 show ?thesis by (cases n) (auto split: if_splits)
  qed
qed simp

lemma walk_good:
  "walk create fs links cur xs = Some k \<Longrightarrow> goodNames cur \<Longrightarrow> (\<forall>x \<in> set xs. CHR ''/'' \<notin> set x) \<Longrightarrow> goodNames k"
proof (induction create fs links cur xs rule: walk.induct)
  case (2 create fs links cur x xs)
  have parts: "\<forall>y \<in> set (splitOn (CHR ''/'') t). CHR ''/'' \<notin> set y" for t by (simp add: splitOn_parts)
  from 2 show ?case
    by (auto simp: goodName_def goodNames_butlast ball_Un parts split: if_splits option.splits fileNode.splits)
qed simp

lemma walk_found:
  "walk create fs links cur xs = Some k \<Longrightarrow> create = False \<Longrightarrow> wellFormedFiles fs \<Longrightarrow> nodeAt fs cur = Some DirNode \<Longrightarrow> nodeAt fs k \<noteq> None"
proof (induction create fs links cur xs rule: walk.induct)
  case (2 create fs links cur x xs)
  have "nodeAt fs (butlast cur) = Some DirNode" using "2.prems" by (auto simp: wellFormedFiles_def)
  with 2 show ?case by (auto split: if_splits option.splits fileNode.splits)
qed simp

lemma walk_no_link:
  "walk create fs links cur xs = Some k \<Longrightarrow> create = False \<Longrightarrow> wellFormedFiles fs \<Longrightarrow> nodeAt fs cur = Some DirNode \<Longrightarrow>
   nodeAt fs k \<noteq> Some (LinkNode t)"
proof (induction create fs links cur xs rule: walk.induct)
  case (2 create fs links cur x xs)
  have "nodeAt fs (butlast cur) = Some DirNode" using "2.prems" by (auto simp: wellFormedFiles_def)
  with 2 show ?case by (auto split: if_splits option.splits fileNode.splits)
qed simp

lemma walk_parent:
  "walk create fs links cur xs = Some d \<Longrightarrow> wellFormedFiles fs \<Longrightarrow> nodeAt fs cur = Some DirNode \<Longrightarrow> nodeAt fs (butlast d) = Some DirNode"
proof (induction create fs links cur xs rule: walk.induct)
  case (1 create fs links cur)
  then show ?case by (auto simp: wellFormedFiles_def)
next
  case (2 create fs links cur x xs)
  have "nodeAt fs (butlast cur) = Some DirNode" using "2.prems" by (auto simp: wellFormedFiles_def)
  with 2 show ?case by (auto split: if_splits option.splits fileNode.splits)
qed

lemma walk_kind:
  "walk create fs links cur xs = Some d \<Longrightarrow> wellFormedFiles fs \<Longrightarrow> nodeAt fs cur = Some DirNode \<Longrightarrow> nodeAt fs d \<noteq> Some (LinkNode t)"
proof (induction create fs links cur xs rule: walk.induct)
  case (2 create fs links cur x xs)
  have "nodeAt fs (butlast cur) = Some DirNode" using "2.prems" by (auto simp: wellFormedFiles_def)
  with 2 show ?case by (auto split: if_splits option.splits fileNode.splits)
qed simp

text \<open>A file that was written is found where it was written.\<close>

lemma walk_written:
  "walk create fs links cur xs = Some d \<Longrightarrow> nodeAt fs d \<noteq> Some DirNode \<Longrightarrow> wellFormedFiles fs \<Longrightarrow> nodeAt fs cur = Some DirNode \<Longrightarrow>
   walk False (putNode d (FileNode t m) fs) links cur xs = Some d"
proof (induction create fs links cur xs rule: walk.induct)
  case (2 create fs links cur x xs)
  have up: "nodeAt fs (butlast cur) = Some DirNode" using "2.prems" by (auto simp: wellFormedFiles_def)
  have d: "d \<noteq> []" "nodeAt fs d \<noteq> Some (LinkNode u)" for u
    using "2.prems"(2) walk_kind [OF "2.prems"(1,3,4)] by auto
  show ?case
  proof (cases "x = [] \<or> x = ''.'' \<or> x = ''..''")
    case True
    with 2(1,2) "2.prems" up show ?thesis by (auto split: if_splits)
  next
    case False
    show ?thesis
    proof (cases "nodeAt fs (cur @ [x])")
      case None
      with False "2.prems"(1) d show ?thesis by (auto simp: nodeAt_put split: if_splits)
    next
      case (Some n)
      show ?thesis
      proof (cases n)
        case (FileNode v w)
        with False Some "2.prems"(1) d show ?thesis by (auto simp: nodeAt_put split: if_splits)
      next
        case DirNode
        with Some "2.prems"(2) have "cur @ [x] \<noteq> d" by auto
        with False Some DirNode "2.prems" 2(3) [of DirNode] d show ?thesis by (auto simp: nodeAt_put)
      next
        case (LinkNode v)
        with Some d have "cur @ [x] \<noteq> d" by auto
        with False Some LinkNode "2.prems" 2(4) [of "LinkNode v" v] d show ?thesis by (auto simp: nodeAt_put split: if_splits)
      qed
    qed
  qed
qed simp

text \<open>A path that ends in a slash leads to a directory.\<close>

lemma walk_trailing:
  "walk create fs links cur xs = Some k \<Longrightarrow> xs = ys @ [[]] \<Longrightarrow> wellFormedFiles fs \<Longrightarrow> nodeAt fs cur = Some DirNode \<Longrightarrow> nodeAt fs k = Some DirNode"
proof (induction create fs links cur xs arbitrary: ys rule: walk.induct)
  case (2 create fs links cur x xs)
  have up: "nodeAt fs (butlast cur) = Some DirNode" using "2.prems" by (auto simp: wellFormedFiles_def)
  show ?case
  proof (cases ys)
    case Nil
    with "2.prems" show ?thesis by simp
  next
    case (Cons y zs)
    then have xs: "x = y" "xs = zs @ [[]]" using "2.prems"(2) by auto
    show ?thesis
    proof (cases "x = [] \<or> x = ''.'' \<or> x = ''..''")
      case True
      with 2(1,2) "2.prems" xs up show ?thesis by (auto split: if_splits)
    next
      case False
      with "2.prems" xs obtain n where n: "nodeAt fs (cur @ [x]) = Some n" by (auto split: option.splits)
      show ?thesis
      proof (cases n)
        case (FileNode t m)
        with "2.prems" False n xs show ?thesis by auto
      next
        case DirNode
        with "2.prems" False n xs 2(3) [of DirNode zs] show ?thesis by auto
      next
        case (LinkNode t)
        with "2.prems" False n xs 2(4) [of "LinkNode t" t "splitOn (CHR ''/'') t @ zs"] show ?thesis by (auto split: if_splits)
      qed
    qed
  qed
qed simp

text \<open>Resolution goes on from a directory that was reached, and stops at a file.\<close>

lemma walk_append:
  "walk create fs links cur xs = Some a \<Longrightarrow> create = False \<Longrightarrow> nodeAt fs a = Some DirNode \<Longrightarrow>
   \<exists>l. \<forall>c ys. walk c fs links cur (xs @ ys) = walk c fs l a ys"
proof (induction create fs links cur xs rule: walk.induct)
  case (1 create fs links cur)
  then show ?case by auto
next
  case (2 create fs links cur x xs)
  show ?case
  proof (cases "x = [] \<or> x = ''.'' \<or> x = ''..''")
    case True
    with 2(1,2) "2.prems" show ?thesis by (auto split: if_splits)
  next
    case False
    with "2.prems" obtain n where n: "nodeAt fs (cur @ [x]) = Some n" by (auto split: option.splits)
    with False "2.prems" 2(3,4) show ?thesis by (cases n) (auto split: if_splits)
  qed
qed

lemma walk_file_stops:
  "walk create fs links cur xs = Some a \<Longrightarrow> create = False \<Longrightarrow> nodeAt fs a = Some (FileNode t m) \<Longrightarrow> ys \<noteq> [] \<Longrightarrow>
   wellFormedFiles fs \<Longrightarrow> nodeAt fs cur = Some DirNode \<Longrightarrow> walk c fs links cur (xs @ ys) = None"
proof (induction create fs links cur xs rule: walk.induct)
  case (2 create fs links cur x xs)
  have up: "nodeAt fs (butlast cur) = Some DirNode" using "2.prems" by (auto simp: wellFormedFiles_def)
  show ?case
  proof (cases "x = [] \<or> x = ''.'' \<or> x = ''..''")
    case True
    with 2(1,2) "2.prems" up show ?thesis by (auto split: if_splits)
  next
    case False
    with "2.prems" obtain n where n: "nodeAt fs (cur @ [x]) = Some n" by (auto split: option.splits)
    with False "2.prems" 2(3,4) show ?thesis by (cases n) (auto split: if_splits)
  qed
qed simp

lemma walk_prefix:
  "walk create fs links cur zs = Some k \<Longrightarrow> create = False \<Longrightarrow> zs = xs @ ys \<Longrightarrow> ys \<noteq> [] \<Longrightarrow> wellFormedFiles fs \<Longrightarrow>
   nodeAt fs cur = Some DirNode \<Longrightarrow> \<exists>d. walk False fs links cur xs = Some d \<and> nodeAt fs d = Some DirNode"
proof (induction create fs links cur zs arbitrary: xs rule: walk.induct)
  case (2 create fs links cur z zs)
  have up: "nodeAt fs (butlast cur) = Some DirNode" using "2.prems" by (auto simp: wellFormedFiles_def)
  show ?case
  proof (cases xs)
    case Nil
    with "2.prems" show ?thesis by simp
  next
    case (Cons x us)
    then have xs: "x = z" "zs = us @ ys" using "2.prems"(3) by auto
    show ?thesis
    proof (cases "z = [] \<or> z = ''.'' \<or> z = ''..''")
      case True
      with 2(1,2) "2.prems" xs up Cons show ?thesis by (auto split: if_splits)
    next
      case False
      with "2.prems"(1,2) obtain n where n: "nodeAt fs (cur @ [z]) = Some n" by (auto split: option.splits)
      show ?thesis
      proof (cases n)
        case (FileNode t m)
        with "2.prems" False n xs show ?thesis by auto
      next
        case DirNode
        with "2.prems" False n xs Cons 2(3) [of DirNode us] show ?thesis by auto
      next
        case (LinkNode t)
        with "2.prems" False n xs Cons 2(4) [of "LinkNode t" t "splitOn (CHR ''/'') t @ us"] show ?thesis
          by (auto split: if_splits)
      qed
    qed
  qed
qed simp

section \<open>Making directories\<close>

lemma makeDirs_added: "dirsAdded fs (snd (makeDirs start made xs fs))"
proof (induction start made xs fs rule: makeDirs.induct)
  case (2 start made x xs fs)
  have put: "dirsAdded fs (putNode (d @ [x]) DirNode fs)" if "nodeAt fs (d @ [x]) = None" for d
    using that unfolding dirsAdded_def by (auto simp: nodeAt_put) (simp add: putNode_def)
  show ?case
  proof (cases "walk False fs MAX_LINKS start (made @ [x])")
    case None
    show ?thesis
    proof (cases "walk False fs MAX_LINKS start made")
      case (Some d)
      with None "2.IH"(1) [OF None Some] dirsAdded_trans [OF put [of d]] show ?thesis by auto
    qed (simp add: None)
  next
    case (Some d)
    with "2.IH"(2) [OF Some] show ?thesis by auto
  qed
qed simp

lemma mkdir_added: "dirsAdded fs (snd (mkdirSync io p fs))"
  using makeDirs_added [of fs "startDir fs p" "[]" "splitOn (CHR ''/'') p"]
  by (auto simp: mkdirSync_def split: option.split prod.split bool.split)

lemma makeDirs_skip:
  "walk False fs MAX_LINKS start (made @ us) = Some a \<Longrightarrow> nodeAt fs a = Some DirNode \<Longrightarrow> wellFormedFiles fs \<Longrightarrow>
   nodeAt fs start = Some DirNode \<Longrightarrow> makeDirs start made (us @ vs) fs = makeDirs start (made @ us) vs fs"
proof (induction us arbitrary: made)
  case (Cons u us)
  have "\<exists>d. walk False fs MAX_LINKS start (made @ [u]) = Some d \<and> nodeAt fs d = Some DirNode"
  proof (cases us)
    case Nil
    with Cons.prems show ?thesis by auto
  next
    case (Cons v ws)
    with walk_prefix [OF Cons.prems(1) refl, of "made @ [u]" us] Cons.prems show ?thesis by simp
  qed
  then obtain d where d: "walk False fs MAX_LINKS start (made @ [u]) = Some d" "nodeAt fs d = Some DirNode" by blast
  have "makeDirs start (made @ [u]) (us @ vs) fs = makeDirs start ((made @ [u]) @ us) vs fs"
    by (rule Cons.IH) (use Cons.prems in simp_all)
  with d show ?case by simp
qed simp

end
