(* ===== verification/Workspace_Properties.thy ===== *)
theory Workspace_Properties
  imports Command_Workspace Posix_Properties
begin

text \<open>
  What staging and copyback do to the file system: an output reaches only files inside the workspace,
  with the exception of a link to nothing, and no text that fails the scan is written anywhere.
\<close>

section \<open>From path texts to real paths\<close>

lemma splitOn_slashed_more: "goodNames r \<Longrightarrow> splitOn (CHR ''/'') (slashed r @ CHR ''/'' # t) = [] # r @ splitOn (CHR ''/'') t"
proof (induction r)
  case (Cons n ns)
  then have "CHR ''/'' \<notin> set n" "splitOn (CHR ''/'') (slashed ns @ CHR ''/'' # t) = [] # ns @ splitOn (CHR ''/'') t"
    by (simp_all add: goodName_def)
  moreover obtain u where u: "slashed ns @ CHR ''/'' # t = CHR ''/'' # u" by (cases ns) auto
  ultimately show ?case by (simp add: splitOn_append)
qed simp

lemma inside_slashed:
  assumes "goodNames r" "goodNames k" "insideRoot (renderPath r) (slashed k)"
  shows "prefix r k"
proof (cases "r = []")
  case False
  then have r: "renderPath r = slashed r" by (rule renderPath_slashed)
  from assms(3) consider t where "slashed k = slashed r @ CHR ''/'' # t" | "slashed k = slashed r"
    by (auto simp: insideRoot_def startsWith_iff r)
  then show ?thesis
  proof cases
    case 1
    then have "[] # k = [] # r @ splitOn (CHR ''/'') t"
      using splitOn_slashed [OF assms(2)] splitOn_slashed_more [OF assms(1)] by metis
    then show ?thesis by simp
  next
    case 2
    then have "[] # k = [] # r" using splitOn_slashed [OF assms(2)] splitOn_slashed [OF assms(1)] by metis
    then show ?thesis by simp
  qed
qed simp

lemma inside_rendered:
  assumes "goodNames r" "goodNames k" "insideRoot (renderPath r) (renderPath k)"
  shows "prefix r k"
proof (cases "k = []")
  case True
  show ?thesis
  proof (cases r)
    case (Cons n ns)
    then have "n \<noteq> []" using assms(1) by (simp add: goodName_def)
    with assms(3) True Cons show ?thesis by (auto simp: insideRoot_def startsWith_iff renderPath_def)
  qed simp
next
  case False
  with assms inside_slashed [OF assms(1,2)] show ?thesis by (simp add: renderPath_slashed)
qed

text \<open>The path of an existing ancestor with the rest behind it.\<close>

lemma inside_extended:
  assumes good: "goodNames r" "goodNames a" "goodNames ps" and i: "i < length ps" "i = 0 \<longrightarrow> a = []"
    and inside: "insideRoot (renderPath r) (renderPath a @ drop (length (renderPath (take i ps))) (renderPath ps))"
  shows "prefix r (a @ drop i ps)"
proof -
  have ps: "ps \<noteq> []" using i(1) by auto
  show ?thesis
  proof (cases "i = 0")
    case True
    moreover have "renderPath [] @ drop (length (renderPath (take 0 ps))) (renderPath ps) = slashed ps"
      using ps by (cases ps) (simp_all add: renderPath_slashed, simp add: renderPath_def)
    ultimately show ?thesis using inside i(2) inside_slashed [OF good(1,3)] by simp
  next
    case False
    then have t: "take i ps \<noteq> []" using ps by simp
    have "renderPath ps = slashed (take i ps) @ slashed (drop i ps)"
      using renderPath_slashed [OF ps] slashed_simps(3) [of "take i ps" "drop i ps"] by simp
    then have tail: "drop (length (renderPath (take i ps))) (renderPath ps) = slashed (drop i ps)"
      by (simp add: renderPath_slashed [OF t])
    show ?thesis
    proof (cases "a = []")
      case True
      obtain x xs where d: "drop i ps = x # xs" using i(1) by (cases "drop i ps") auto
      have "r = []"
      proof (cases r)
        case (Cons n ns)
        then have "n \<noteq> []" "hd n \<noteq> CHR ''/''" using good(1) by (cases n; auto simp: goodName_def)+
        then show ?thesis using inside tail d Cons True
          by (cases n) (auto simp: insideRoot_def startsWith_iff renderPath_def slashed_def)
      qed
      then show ?thesis by simp
    next
      case a: False
      have "renderPath a @ slashed (drop i ps) = slashed (a @ drop i ps)" by (simp add: renderPath_slashed [OF a])
      with inside tail inside_slashed [OF good(1), of "a @ drop i ps"] good(2) goodNames_sub(2) [OF good(3)] show ?thesis by simp
    qed
  qed
qed

definition realpathWorks :: "faults \<Rightarrow> bool" where
  "realpathWorks io \<longleftrightarrow> (\<forall>p. io OpRealpath p = None)"

lemma realpath_rendered: "realpathWorks io \<Longrightarrow> goodNames ns \<Longrightarrow> realpathSync io fs (renderPath ns) = map_option renderPath (walk False fs MAX_LINKS [] ns)"
  by (simp add: realpathSync_def realpathWorks_def find_rendered)

lemma slashed_length: "goodNames (ns @ [n]) \<Longrightarrow> length (slashed ns) < length (slashed (ns @ [n]))"
  by simp

lemma nearest_rendered:
  assumes "realpathWorks io" "goodNames ps" "0 < j" "j \<le> length ps"
  shows "\<exists>i a. i < j \<and> walk False fs MAX_LINKS [] (take i ps) = Some a \<and> (\<forall>h. i < h \<and> h < j \<longrightarrow> walk False fs MAX_LINKS [] (take h ps) = None) \<and>
    nearestAncestor io fs (renderPath ps) (renderPath (take j ps)) = renderPath a @ drop (length (renderPath (take i ps))) (renderPath ps)"
  using assms(3,4)
proof (induction j)
  case (Suc j)
  have good: "goodNames (take (Suc j) ps)" "goodNames (take j ps)" using assms(2) goodNames_sub by blast+
  have "take (Suc j) ps \<noteq> []" using Suc.prems by (cases ps) auto
  moreover have "butlast (take (Suc j) ps) = take j ps" using Suc.prems by (simp add: butlast_take)
  ultimately have dir: "pathDirname (renderPath (take (Suc j) ps)) = renderPath (take j ps)" using dirname_rendered [OF good(1)] by simp
  show ?case
  proof (cases "walk False fs MAX_LINKS [] (take j ps)")
    case (Some a)
    then have "nearestAncestor io fs (renderPath ps) (renderPath (take (Suc j) ps)) = renderPath a @ drop (length (renderPath (take j ps))) (renderPath ps)"
      using dir realpath_rendered [OF assms(1) good(2)] by (simp add: nearestAncestor.simps [of _ _ _ "renderPath (take (Suc j) ps)"])
    with Some show ?thesis by (intro exI [of _ j] exI [of _ a]) auto
  next
    case None
    then have j: "0 < j" by (cases j) auto
    then have "take j ps \<noteq> []" using Suc.prems by (cases ps) auto
    moreover have "take (Suc j) ps = take j ps @ [ps ! j]" using Suc.prems by (simp add: take_Suc_conv_app_nth)
    ultimately have "renderPath (take j ps) \<noteq> renderPath (take (Suc j) ps)" by (simp add: renderPath_slashed)
    then have next1: "nearestAncestor io fs (renderPath ps) (renderPath (take (Suc j) ps)) = nearestAncestor io fs (renderPath ps) (renderPath (take j ps))"
      using dir None realpath_rendered [OF assms(1) good(2)] by (simp add: nearestAncestor.simps [of _ _ _ "renderPath (take (Suc j) ps)"])
    obtain i a where "i < j" "walk False fs MAX_LINKS [] (take i ps) = Some a" "\<forall>h. i < h \<and> h < j \<longrightarrow> walk False fs MAX_LINKS [] (take h ps) = None"
      "nearestAncestor io fs (renderPath ps) (renderPath (take j ps)) = renderPath a @ drop (length (renderPath (take i ps))) (renderPath ps)"
      using Suc.IH j Suc.prems by auto
    moreover have "\<forall>h. i < h \<and> h < Suc j \<longrightarrow> walk False fs MAX_LINKS [] (take h ps) = None"
      using calculation None by (metis less_Suc_eq)
    ultimately show ?thesis using next1 by (intro exI [of _ i] exI [of _ a]) auto
  qed
qed simp

section \<open>Where a copy lands\<close>

lemma orphan: "wellFormedFiles fs \<Longrightarrow> nodeAt fs b = None \<Longrightarrow> nodeAt fs (b @ u) = None"
proof (induction u rule: rev_induct)
  case (snoc y u)
  then show ?case unfolding wellFormedFiles_def by (metis append.assoc butlast_snoc option.distinct(1))
qed simp

lemma wf_put:
  assumes "wellFormedFiles fs" "nodeAt fs d = Some DirNode" "nodeAt fs (d @ [x]) = None \<or> n = DirNode \<or> nodeAt fs (d @ [x]) \<noteq> Some DirNode"
  shows "wellFormedFiles (putNode (d @ [x]) n fs)"
  unfolding wellFormedFiles_def
proof (intro allI impI)
  fix p
  assume p: "nodeAt (putNode (d @ [x]) n fs) p \<noteq> None"
  show "nodeAt (putNode (d @ [x]) n fs) (butlast p) = Some DirNode"
  proof (cases "p = d @ [x]")
    case True
    then show ?thesis using assms(2) by (simp add: nodeAt_put)
  next
    case False
    then have "nodeAt fs (butlast p) = Some DirNode" using p assms(1) by (simp add: nodeAt_put wellFormedFiles_def)
    then show ?thesis using assms(3) by (auto simp: nodeAt_put)
  qed
qed

lemma makeDirs_wf: "wellFormedFiles fs \<Longrightarrow> wellFormedFiles (snd (makeDirs start made xs fs))"
  by (induction start made xs fs rule: makeDirs.induct) (auto simp: wf_put split: option.split)

lemma mkdir_wf: "wellFormedFiles fs \<Longrightarrow> wellFormedFiles (snd (mkdirSync io p fs))"
  using makeDirs_wf [of fs "startDir fs p" "[]" "splitOn (CHR ''/'') p"]
  by (auto simp: mkdirSync_def split: option.split prod.split bool.split)

lemma walk_fresh:
  "walk True fs l b zs = Some d \<Longrightarrow> goodNames zs \<Longrightarrow> (\<And>u. u \<noteq> [] \<Longrightarrow> nodeAt fs (b @ u) = None \<or> nodeAt fs (b @ u) = Some DirNode) \<Longrightarrow> d = b @ zs"
proof (induction zs arbitrary: b)
  case (Cons z zs)
  have z: "\<not> (z = [] \<or> z = ''.'')" "z \<noteq> ''..''" using Cons.prems(2) by (auto simp: goodName_def)
  have below: "nodeAt fs ((b @ [z]) @ u) = None \<or> nodeAt fs ((b @ [z]) @ u) = Some DirNode" for u
    using Cons.prems(3) [of "z # u"] by simp
  from below [of "[]"] consider "nodeAt fs (b @ [z]) = None" | "nodeAt fs (b @ [z]) = Some DirNode" by auto
  then show ?case
  proof cases
    case 1
    with Cons.prems(1) z show ?thesis by (auto split: if_splits)
  next
    case 2
    with Cons.prems(1) z have "walk True fs l (b @ [z]) zs = Some d" by simp
    with Cons.IH [OF this] Cons.prems(2) below show ?thesis by simp
  qed
qed simp

text \<open>The next name below the closest existing ancestor.\<close>

lemma copy_below_ancestor:
  assumes wf: "wellFormedFiles fs" and good: "goodNames ps" and ps: "ps = us @ x # zs"
    and a: "walk False fs MAX_LINKS [] us = Some a"
    and missing: "walk False fs MAX_LINKS [] (us @ [x]) = None"
    and nolink: "zs = [] \<longrightarrow> (\<forall>t. nodeAt fs (a @ [x]) \<noteq> Some (LinkNode t))"
    and made: "makeDirs [] [] (butlast ps) fs = (True, fs1)"
    and found: "walk True fs1 MAX_LINKS [] ps = Some d"
  shows "d = a @ x # zs"
proof -
  have added: "dirsAdded fs fs1" using makeDirs_added [of fs "[]" "[]" "butlast ps"] made by simp
  have wf1: "wellFormedFiles fs1" using makeDirs_wf [OF wf, of "[]" "[]" "butlast ps"] made by simp
  have x: "\<not> (x = [] \<or> x = ''.'')" "x \<noteq> ''..''" using good ps by (auto simp: goodName_def)
  have a1: "walk False fs1 MAX_LINKS [] us = Some a" by (rule walk_stable [OF a refl added])
  obtain n where n: "nodeAt fs a = Some n" using walk_found [OF a refl wf] by auto
  have dir: "nodeAt fs a = Some DirNode"
  proof (cases n)
    case (FileNode t m)
    with n added have "nodeAt fs1 a = Some (FileNode t m)" by (simp add: dirsAdded_node)
    with walk_file_stops [OF a1 refl this, of "x # zs" True] wf1 found ps show ?thesis by simp
  next
    case (LinkNode t)
    have "nodeAt fs a \<noteq> Some (LinkNode t)" by (rule walk_no_link [OF a refl wf]) simp
    with n LinkNode show ?thesis by simp
  qed (use n in simp)
  obtain l where l: "\<And>c ys. walk c fs MAX_LINKS [] (us @ ys) = walk c fs l a ys" using walk_append [OF a refl dir] by blast
  obtain l1 where l1: "\<And>c ys. walk c fs1 MAX_LINKS [] (us @ ys) = walk c fs1 l1 a ys"
    using walk_append [OF a1 refl dirsAdded_node [OF added dir]] by blast
  have step: "walk True fs1 l1 a (x # zs) = Some d" using found l1 ps by simp
  have nodir: "nodeAt fs (a @ [x]) \<noteq> Some DirNode" using missing l [of False "[x]"] x by auto
  have nofile: "nodeAt fs (a @ [x]) \<noteq> Some (FileNode t m)" for t m using missing l [of False "[x]"] x by auto
  show ?thesis
  proof (cases "nodeAt fs (a @ [x])")
    case None
    have below: "nodeAt fs1 ((a @ [x]) @ u) = None \<or> nodeAt fs1 ((a @ [x]) @ u) = Some DirNode" for u
      using orphan [OF wf None, of u] added unfolding dirsAdded_def by metis
    from below [of "[]"] consider "nodeAt fs1 (a @ [x]) = None" | "nodeAt fs1 (a @ [x]) = Some DirNode" by auto
    then show ?thesis
    proof cases
      case 1
      with step x show ?thesis by (auto split: if_splits)
    next
      case 2
      with step x have "walk True fs1 l1 (a @ [x]) zs = Some d" by simp
      from walk_fresh [OF this] good ps below show ?thesis by simp
    qed
  next
    case (Some k)
    then obtain t where link: "k = LinkNode t" using nodir nofile by (cases k) auto
    with Some nolink have zs: "zs \<noteq> []" by auto
    then have "butlast ps = us @ x # butlast zs" by (simp add: ps butlast_append)
    then have "makeDirs [] [] (butlast ps) fs = makeDirs [] us (x # butlast zs) fs"
      using makeDirs_skip [of fs "[]" "[]" us a "x # butlast zs"] a dir wf by simp
    with made a missing Some show ?thesis by simp
  qed
qed

lemma makeDirs_blank: "makeDirs start ([] # made) xs fs = makeDirs start made xs fs"
  by (induction start made xs fs rule: makeDirs.induct) (auto split: option.split)

lemma makeDirs_rendered:
  assumes "goodNames ns"
  shows "makeDirs (startDir fs (renderPath ns)) [] (splitOn (CHR ''/'') (renderPath ns)) fs = makeDirs [] [] ns fs"
proof (cases "ns = []")
  case True
  then show ?thesis by (simp add: renderPath_def startDir_def isAbsolute_def startsWith_def)
next
  case False
  then have "startDir fs (renderPath ns) = []" by (cases ns) (simp_all add: renderPath_slashed startDir_def isAbsolute_def startsWith_def)
  then show ?thesis using False splitOn_slashed [OF assms] makeDirs_blank [of "[]" "[]" ns fs] by (simp add: renderPath_slashed)
qed

text \<open>A link whose target does not exist.\<close>

definition linkToNothing :: "fileSystem \<Rightarrow> string \<Rightarrow> bool" where
  "linkToNothing fs p \<longleftrightarrow> findNode False fs p = None \<and> isSymbolicLink (\<lambda>op q. None) fs p = Inr True"

lemma not_link_to_nothing:
  assumes "goodNames ns" "ns = us @ [x]" "\<not> linkToNothing fs (renderPath ns)" "walk False fs MAX_LINKS [] ns = None"
    "walk False fs MAX_LINKS [] us = Some a"
  shows "nodeAt fs (a @ [x]) \<noteq> Some (LinkNode t)"
proof
  assume link: "nodeAt fs (a @ [x]) = Some (LinkNode t)"
  have r: "renderPath ns = slashed ns" using assms(2) by (simp add: renderPath_slashed)
  have "splitOn (CHR ''/'') (renderPath ns) = [] # us @ [x]" unfolding r splitOn_slashed [OF assms(1)] by (simp add: assms(2))
  moreover have "startDir fs (renderPath ns) = []"
    unfolding r by (cases us) (simp_all add: assms(2) startDir_def isAbsolute_def startsWith_def)
  ultimately have "isSymbolicLink (\<lambda>op q. None) fs (renderPath ns) = Inr True"
    using assms(5) link by (simp add: isSymbolicLink_def faultOr_def butlast_append)
  with assms(1,3,4) show False by (simp add: linkToNothing_def find_rendered)
qed

lemma absolute_found_good:
  assumes "isAbsolute p" "findNode c fs p = Some k"
  shows "goodNames k"
  using assms by (auto simp: findNode_def startDir_def splitOn_parts split: if_splits intro: walk_good [of c fs MAX_LINKS "[]"])

text \<open>A copy to a path that passed the check ends inside the root, unless a link leads nowhere.\<close>

lemma copy_inside:
  assumes wf: "wellFormedFiles fs" and io: "realpathWorks io" and abs: "isAbsolute w" and rel: "validateRelativePath rel label = None"
    and root: "findNode False fs w = Some r" and inside: "validateContainedPath io fs (pathJoin [w, rel]) w label2 = None"
    and link: "\<not> linkToNothing fs (pathJoin [w, rel])"
    and made: "mkdirSync io (pathDirname (pathJoin [w, rel])) fs = (None, fs1)"
    and found: "findNode True fs1 (pathJoin [w, rel]) = Some d" "nodeAt fs1 d \<noteq> Some DirNode"
  shows "prefix r d"
proof -
  have r: "goodNames r" by (rule absolute_found_good [OF abs root])
  have "rel \<noteq> []" using rel by (auto simp: validateRelativePath_def trim_def trimStart_def split: if_splits)
  from join_absolute [OF abs this] obtain ns where ns: "goodNames ns"
    "pathJoin [w, rel] = renderPath ns \<or> ns \<noteq> [] \<and> pathJoin [w, rel] = slashed ns @ ''/''" by blast
  have wf1: "wellFormedFiles fs1" using mkdir_wf [OF wf, of io "pathDirname (pathJoin [w, rel])"] made by simp
  have p: "pathJoin [w, rel] = renderPath ns"
  proof (rule ccontr)
    assume "pathJoin [w, rel] \<noteq> renderPath ns"
    then have "walk True fs1 MAX_LINKS [] (ns @ [[]]) = Some d" using ns found(1) find_trailing [OF ns(1)] by auto
    from walk_trailing [OF this refl wf1] found(2) show False by simp
  qed
  have walk1: "walk True fs1 MAX_LINKS [] ns = Some d" using found(1) find_rendered [OF ns(1)] by (simp add: p)
  then have "ns \<noteq> []" using found(2) by auto
  have "pathDirname (pathJoin [w, rel]) = renderPath (butlast ns)" using dirname_rendered [OF ns(1) \<open>ns \<noteq> []\<close>] by (simp add: p)
  then have dirs: "makeDirs [] [] (butlast ns) fs = (True, fs1)"
    using made makeDirs_rendered [OF goodNames_butlast [OF ns(1)], of fs] by (auto simp: mkdirSync_def split: option.splits prod.splits bool.splits)
  have rootText: "normalizedRoot io fs w = renderPath r" using io root by (simp add: normalizedRoot_def realpathSync_def realpathWorks_def)
  show ?thesis
  proof (cases "walk False fs MAX_LINKS [] ns")
    case (Some q)
    have "dirsAdded fs fs1" using makeDirs_added [of fs "[]" "[]" "butlast ns"] dirs by simp
    from walk_stable [OF Some refl this] walk1 have "q = d" by simp
    moreover have "goodNames q" by (rule walk_good [OF Some]) (use good_no_slash [OF ns(1)] in auto)
    moreover have "insideRoot (renderPath r) (renderPath q)"
      using inside Some realpath_rendered [OF io ns(1)] rootText by (simp add: validateContainedPath_def normalizedPath_def p Let_def split: if_splits)
    ultimately show ?thesis using inside_rendered [OF r] by simp
  next
    case None
    have len: "0 < length ns" using \<open>ns \<noteq> []\<close> by simp
    from nearest_rendered [OF io ns(1) len order_refl, of fs] obtain i a where i: "i < length ns"
      "walk False fs MAX_LINKS [] (take i ns) = Some a" "\<forall>h. i < h \<and> h < length ns \<longrightarrow> walk False fs MAX_LINKS [] (take h ns) = None"
      "nearestAncestor io fs (renderPath ns) (renderPath ns) = renderPath a @ drop (length (renderPath (take i ns))) (renderPath ns)" by auto
    have split: "ns = take i ns @ ns ! i # drop (Suc i) ns" "take (Suc i) ns = take i ns @ [ns ! i]"
      using i(1) by (simp_all add: id_take_nth_drop take_Suc_conv_app_nth)
    have a: "goodNames a" by (rule walk_good [OF i(2)]) (use good_no_slash [OF goodNames_sub(1) [OF ns(1)]] in auto)
    have missing: "walk False fs MAX_LINKS [] (take i ns @ [ns ! i]) = None"
      using i(1,3) None split(2) by (cases "Suc i = length ns") auto
    have nolink: "drop (Suc i) ns = [] \<longrightarrow> (\<forall>t. nodeAt fs (a @ [ns ! i]) \<noteq> Some (LinkNode t))"
      using not_link_to_nothing [OF ns(1) _ _ None i(2)] link split(1) by (auto simp: p)
    have d: "d = a @ ns ! i # drop (Suc i) ns"
      by (rule copy_below_ancestor [OF wf ns(1) split(1) i(2) missing nolink dirs walk1])
    have "insideRoot (renderPath r) (renderPath a @ drop (length (renderPath (take i ns))) (renderPath ns))"
      using inside None realpath_rendered [OF io ns(1)] rootText i(4)
      by (simp add: validateContainedPath_def normalizedPath_def p Let_def split: if_splits)
    moreover have "i = 0 \<longrightarrow> a = []" using i(2) by auto
    ultimately have "prefix r (a @ drop i ns)" using inside_extended [OF r a ns(1) i(1)] by blast
    then show ?thesis using d i(1) by (simp add: Cons_nth_drop_Suc)
  qed
qed

end
