(* ===== verification/Workspace_Guarantees.thy ===== *)
theory Workspace_Guarantees
  imports Workspace_Properties
begin

text \<open>
  The guarantees of copyback and staging, for every file system, every placement of links and every
  failure of an operation, and the sequence in which a link leads a copy out of the workspace.
\<close>

section \<open>What is copied is what was scanned\<close>

lemma walk_canonical:
  "wellFormedFiles fs \<Longrightarrow> nodeAt fs k \<noteq> None \<Longrightarrow> (\<And>t. nodeAt fs k \<noteq> Some (LinkNode t)) \<Longrightarrow> goodNames k \<Longrightarrow> walk False fs l [] k = Some k"
proof (induction k arbitrary: l rule: rev_induct)
  case (snoc x ks)
  have dir: "nodeAt fs ks = Some DirNode" using snoc.prems(1,2) unfolding wellFormedFiles_def by (metis butlast_snoc)
  then have w: "walk False fs l [] ks = Some ks" using snoc by simp
  from walk_append [OF this refl dir] obtain l' where "walk False fs l [] (ks @ [x]) = walk False fs l' ks [x]" by blast
  moreover obtain n where "nodeAt fs (ks @ [x]) = Some n" using snoc.prems(2) by blast
  ultimately show ?case using snoc.prems(3,4) by (cases n) (auto simp: goodName_def)
qed simp

lemma absolute_start: "isAbsolute p \<Longrightarrow> startDir fs p = []"
  by (simp add: startDir_def)

lemma found_facts:
  assumes "wellFormedFiles fs" "isAbsolute p" "findNode False fs p = Some k"
  shows "nodeAt fs k \<noteq> None" "nodeAt fs k \<noteq> Some (LinkNode t)" "findNode False fs (renderPath k) = Some k"
proof -
  have w: "walk False fs MAX_LINKS [] (splitOn (CHR ''/'') p) = Some k" using assms(2,3) by (auto simp: findNode_def absolute_start split: if_splits)
  show a: "nodeAt fs k \<noteq> None" "nodeAt fs k \<noteq> Some (LinkNode t)" for t
    using walk_found [OF w refl assms(1)] walk_no_link [OF w refl assms(1)] by simp_all
  have good: "goodNames k" by (rule absolute_found_good [OF assms(2,3)])
  show "findNode False fs (renderPath k) = Some k" using walk_canonical [OF assms(1) a good] find_rendered [OF good] by simp
qed

lemma read_output_text:
  assumes "wellFormedFiles fs" "isAbsolute p" "readOutput io fs p = Inr content"
  obtains k m where "findNode False fs p = Some k" "nodeAt fs k = Some (FileNode content m)"
proof -
  have read: "\<exists>k m. findNode False fs q = Some k \<and> nodeAt fs k = Some (FileNode content m)" if "readFileSync io fs q = Inr content" for q
    using that by (auto simp: readFileSync_def faultOr_def split: option.splits fileNode.splits)
  from assms(3) consider "readFileSync io fs p = Inr content" | r where "realpathSync io fs p = Some r" "readFileSync io fs r = Inr content"
    by (auto simp: readOutput_def split: sum.splits bool.splits option.splits)
  then show thesis
  proof cases
    case 1
    with read that show thesis by blast
  next
    case (2 r)
    then obtain k where k: "findNode False fs p = Some k" "r = renderPath k" by (auto simp: realpathSync_def split: if_splits)
    then show thesis using read [OF 2(2)] found_facts(3) [OF assms(1,2) k(1)] that by auto
  qed
qed

lemma find_stable: "findNode False fs p = Some k \<Longrightarrow> dirsAdded fs fs' \<Longrightarrow> findNode c fs' p = Some k"
  by (auto simp: findNode_def startDir_def dirsAdded_def [of fs fs'] split: if_splits intro: walk_stable [unfolded dirsAdded_def])

lemma copy_effect:
  assumes "copyFileSync io src dst fs = Inr fs'"
  obtains k t m d where "findNode False fs src = Some k" "nodeAt fs k = Some (FileNode t m)" "findNode True fs dst = Some d"
    "nodeAt fs d \<noteq> Some DirNode" "fs' = putNode d (FileNode t m) fs"
  using assms by (auto simp: copyFileSync_def faultOr_def split: option.splits fileNode.splits if_splits)

lemma join_is_absolute:
  assumes "isAbsolute w" "validateRelativePath rel label = None"
  shows "isAbsolute (pathJoin [w, rel])"
proof -
  have "rel \<noteq> []" using assms(2) by (auto simp: validateRelativePath_def trim_def trimStart_def split: if_splits)
  from join_absolute [OF assms(1) this] obtain ns where
    "pathJoin [w, rel] = renderPath ns \<or> ns \<noteq> [] \<and> pathJoin [w, rel] = slashed ns @ ''/''" by blast
  then show ?thesis by (cases ns) (auto simp: isAbsolute_def startsWith_iff renderPath_def slashed_def)
qed

text \<open>Either nothing but directories was added, or the scanned text was written at one place.\<close>

lemma copyback_effect:
  assumes wf: "wellFormedFiles fs" and abs: "isAbsolute scratchDir"
    and run: "copybackSingleOutput io scratchDir workspaceDir secrets output fs = (res, fs')"
  shows "dirsAdded fs fs' \<and> wellFormedFiles fs' \<or>
    (\<exists>fs1 d t m. fs' = putNode d (FileNode t m) fs1 \<and> findNode True fs1 (pathJoin [workspaceDir, wo_workspacePath output]) = Some d \<and>
       nodeAt fs1 d \<noteq> Some DirNode \<and> scanOutputFile (pathBase (wo_scratchPath output)) t secrets = [] \<and>
       mkdirSync io (pathDirname (pathJoin [workspaceDir, wo_workspacePath output])) fs = (None, fs1) \<and>
       copybackChecks io fs output scratchDir workspaceDir = None)"
proof (cases "copybackChecks io fs output scratchDir workspaceDir")
  case (Some e)
  with run wf show ?thesis by (auto simp: copybackSingleOutput_def Let_def)
next
  case None
  let ?src = "pathJoin [scratchDir, wo_scratchPath output]" and ?dst = "pathJoin [workspaceDir, wo_workspacePath output]"
  have src: "isAbsolute ?src"
    by (rule join_is_absolute [OF abs, of _ "''Output scratch path''"]) (use None in \<open>auto simp: copybackChecks_def Let_def split: option.splits\<close>)
  obtain e1 fs1 where mk: "mkdirSync io (pathDirname ?dst) fs = (e1, fs1)" by fastforce
  have added: "dirsAdded fs fs1" "wellFormedFiles fs1"
    using mkdir_added [of fs io "pathDirname ?dst"] mkdir_wf [OF wf, of io "pathDirname ?dst"] mk by simp_all
  show ?thesis
  proof (cases "readOutput io fs ?src")
    case (Inl e)
    with run None wf show ?thesis by (auto simp: copybackSingleOutput_def Let_def)
  next
    case (Inr content)
    obtain k m where k: "findNode False fs ?src = Some k" "nodeAt fs k = Some (FileNode content m)"
      by (rule read_output_text [OF wf src Inr])
    consider "fs' = fs" | "fs' = fs1" | "e1 = None" "copyFileSync io ?src ?dst fs1 = Inr fs'"
        "scanOutputFile (pathBase (wo_scratchPath output)) content secrets = []"
      using run None Inr mk by (auto simp: copybackSingleOutput_def Let_def split: if_splits option.splits sum.splits)
    then show ?thesis
    proof cases
      case 3
      from copy_effect [OF 3(2)] obtain k1 t m1 d where c: "findNode False fs1 ?src = Some k1" "nodeAt fs1 k1 = Some (FileNode t m1)"
        "findNode True fs1 ?dst = Some d" "nodeAt fs1 d \<noteq> Some DirNode" "fs' = putNode d (FileNode t m1) fs1" by blast
      have "t = content" using find_stable [OF k(1) added(1), of False] c(1,2) dirsAdded_node [OF added(1) k(2)] by simp
      with c 3 mk None show ?thesis by blast
    qed (use added wf in simp_all)
  qed
qed

section \<open>Containment\<close>

lemma checks_passed:
  assumes "copybackChecks io fs output scratchDir workspaceDir = None"
  shows "validateRelativePath (wo_workspacePath output) ''Output workspace path'' = None"
    "validateContainedPath io fs (pathJoin [workspaceDir, wo_workspacePath output]) workspaceDir ''Output workspace file'' = None"
  using assms by (auto simp: copybackChecks_def Let_def split: option.splits)

text \<open>
  C32: Copying an output back changes no file outside the workspace, whatever links the command or
  the workspace hold: a node that differs afterwards is a new directory or a file whose real path
  lies below the real path of the workspace. The destination must not be a link to nothing.
\<close>

theorem copyback_contained:
  assumes "wellFormedFiles fs" "realpathWorks io" "isAbsolute scratchDir" "isAbsolute workspaceDir"
    and "findNode False fs workspaceDir = Some root" "\<not> linkToNothing fs (pathJoin [workspaceDir, wo_workspacePath output])"
    and "copybackSingleOutput io scratchDir workspaceDir secrets output fs = (res, fs')" "nodeAt fs' k \<noteq> nodeAt fs k"
  shows "nodeAt fs k = None \<and> nodeAt fs' k = Some DirNode \<or> prefix root k \<and> (\<exists>t m. nodeAt fs' k = Some (FileNode t m))"
proof -
  from copyback_effect [OF assms(1,3,7)] consider "dirsAdded fs fs'"
    | fs1 d t m where "fs' = putNode d (FileNode t m) fs1" "findNode True fs1 (pathJoin [workspaceDir, wo_workspacePath output]) = Some d"
      "nodeAt fs1 d \<noteq> Some DirNode" "mkdirSync io (pathDirname (pathJoin [workspaceDir, wo_workspacePath output])) fs = (None, fs1)"
      "copybackChecks io fs output scratchDir workspaceDir = None" by blast
  then show ?thesis
  proof cases
    case 1
    then show ?thesis using assms(8) unfolding dirsAdded_def by blast
  next
    case (2 fs1 d t m)
    have d: "prefix root d"
      by (rule copy_inside [OF assms(1,2,4) checks_passed(1) [OF 2(5)] assms(5) checks_passed(2) [OF 2(5)] assms(6) 2(4,2,3)])
    have "dirsAdded fs fs1" using mkdir_added [of fs io "pathDirname (pathJoin [workspaceDir, wo_workspacePath output])"] 2(4) by simp
    moreover have "d \<noteq> []" using 2(3) by auto
    ultimately show ?thesis using d assms(8) 2(1) unfolding dirsAdded_def by (auto simp: nodeAt_put split: if_splits)
  qed
qed

section \<open>Credentials\<close>

lemma find_parts:
  assumes "isAbsolute p" "findNode c fs p = Some d"
  shows "walk c fs MAX_LINKS [] (splitOn (CHR ''/'') p) = Some d"
  using assms by (auto simp: findNode_def absolute_start split: if_splits)

lemma write_wf:
  assumes "wellFormedFiles fs" "isAbsolute p" "findNode c fs p = Some d" "nodeAt fs d \<noteq> Some DirNode"
  shows "wellFormedFiles (putNode d (FileNode t m) fs)"
proof -
  have "nodeAt fs (butlast d) = Some DirNode" by (rule walk_parent [OF find_parts [OF assms(2,3)] assms(1)]) simp
  moreover have "butlast d @ [last d] = d" using assms(4) by (cases d rule: rev_cases) auto
  ultimately show ?thesis using wf_put [OF assms(1), of "butlast d" "last d"] assms(4) by simp
qed

lemma copyback_step:
  assumes wf: "wellFormedFiles fs" and abs: "isAbsolute scratchDir" "isAbsolute workspaceDir"
    and run: "copybackSingleOutput io scratchDir workspaceDir secrets output fs = (res, fs')"
  shows "wellFormedFiles fs' \<and>
    (\<forall>k t m. nodeAt fs' k = Some (FileNode t m) \<and> nodeAt fs k \<noteq> Some (FileNode t m) \<longrightarrow> (\<exists>name. scanOutputFile name t secrets = []))"
proof -
  let ?dst = "pathJoin [workspaceDir, wo_workspacePath output]"
  from copyback_effect [OF wf abs(1) run] show ?thesis
  proof (elim disjE exE conjE)
    assume added: "dirsAdded fs fs'" "wellFormedFiles fs'"
    then show ?thesis unfolding dirsAdded_def by (metis fileNode.distinct(1) option.inject)
  next
    fix fs1 d t m
    assume w: "fs' = putNode d (FileNode t m) fs1" "findNode True fs1 ?dst = Some d" "nodeAt fs1 d \<noteq> Some DirNode"
      "scanOutputFile (pathBase (wo_scratchPath output)) t secrets = []" "mkdirSync io (pathDirname ?dst) fs = (None, fs1)"
      "copybackChecks io fs output scratchDir workspaceDir = None"
    have fs1: "dirsAdded fs fs1" "wellFormedFiles fs1"
      using mkdir_added [of fs io "pathDirname ?dst"] mkdir_wf [OF wf, of io "pathDirname ?dst"] w(5) by simp_all
    have "wellFormedFiles fs'" unfolding w(1)
      by (rule write_wf [OF fs1(2) join_is_absolute [OF abs(2) checks_passed(1) [OF w(6)]] w(2,3)])
    moreover have "nodeAt fs k = Some (FileNode u v) \<or> u = t" if "nodeAt fs' k = Some (FileNode u v)" for k u v
      using that w(1,3) dirsAdded_other [OF fs1(1), of k] by (cases "d = []") (auto simp: nodeAt_put split: if_splits)
    ultimately show ?thesis using w(4) by blast
  qed
qed

text \<open>
  C33: Whatever a command left in its scratch directory, copyback never puts a credential into a
  file: a file that is new or has a new text afterwards does not contain any of the secrets, as a
  whole or as a part of its text, wherever links may have led the copy.
\<close>

theorem copyback_no_secret:
  assumes "wellFormedFiles fs" "isAbsolute scratchDir" "isAbsolute (wc_workspaceDir config)"
    and "copybackOutputs io config scratchDir fs = (res, fs')"
    and "nodeAt fs' k = Some (FileNode t m)" "nodeAt fs k \<noteq> Some (FileNode t m)" "secret \<in> set (wc_secrets config)" "secret \<noteq> []"
  shows "\<not> (\<exists>a b. t = a @ secret @ b)"
proof -
  have loop: "\<exists>name. scanOutputFile name t secrets = []"
    if "wellFormedFiles fs" "copybackLoop io scratchDir (wc_workspaceDir config) secrets outputs fs = (rs, fs')"
      "nodeAt fs' k = Some (FileNode t m)" "nodeAt fs k \<noteq> Some (FileNode t m)" for secrets outputs fs rs
    using that
  proof (induction outputs arbitrary: fs rs)
    case (Cons o1 outputs)
    obtain r fs1 where one: "copybackSingleOutput io scratchDir (wc_workspaceDir config) secrets o1 fs = (r, fs1)" by fastforce
    obtain rs' where rest: "copybackLoop io scratchDir (wc_workspaceDir config) secrets outputs fs1 = (rs', fs')"
      using Cons.prems(2) one by (auto simp: Let_def split: prod.splits)
    note step = copyback_step [OF Cons.prems(1) assms(2,3) one]
    show ?case
    proof (cases "nodeAt fs1 k = Some (FileNode t m)")
      case True
      with step Cons.prems(4) show ?thesis by blast
    next
      case False
      with Cons.IH [OF _ rest Cons.prems(3)] step show ?thesis by blast
    qed
  qed simp
  obtain rs where "copybackLoop io scratchDir (wc_workspaceDir config) (wc_secrets config) (wc_outputs config) fs = (rs, fs')"
    using assms(4) by (auto simp: copybackOutputs_def Let_def split: prod.splits)
  from loop [OF assms(1) this assms(5,6)] obtain name where "scanOutputFile name t (wc_secrets config) = []" by blast
  then show ?thesis using assms(7,8) by (auto simp: scanOutputFile_def includesSub_iff filter_empty_conv)
qed

section \<open>Staging\<close>

lemma found_inside:
  assumes "realpathWorks io" "isAbsolute w" "findNode False fs w = Some root" "isAbsolute p" "findNode False fs p = Some k"
    and "validateContainedPath io fs p w label = None"
  shows "prefix root k"
proof -
  have "insideRoot (renderPath root) (renderPath k)"
    using assms(1,3,5,6)
    by (simp add: validateContainedPath_def normalizedPath_def normalizedRoot_def realpathSync_def realpathWorks_def Let_def split: if_splits)
  then show ?thesis by (rule inside_rendered [OF absolute_found_good [OF assms(2,3)] absolute_found_good [OF assms(4,5)]])
qed

lemma find_written:
  assumes "wellFormedFiles fs" "isAbsolute p" "findNode c fs p = Some d" "nodeAt fs d \<noteq> Some DirNode"
  shows "findNode False (putNode d (FileNode t m) fs) p = Some d"
proof -
  have "p \<noteq> []" using assms(3) by (auto simp: findNode_def)
  then show ?thesis using walk_written [OF find_parts [OF assms(2,3)] assms(4,1)] assms(2) by (simp add: findNode_def absolute_start)
qed

text \<open>
  An input that is staged is a read-only copy of a file whose real path lies inside the
  workspace; a link in the workspace cannot bring in a file from elsewhere.
\<close>

theorem staged_input_inside:
  assumes wf: "wellFormedFiles fs" and io: "realpathWorks io" and abs: "isAbsolute workspaceDir" "isAbsolute scratchDir"
    and root: "findNode False fs workspaceDir = Some root" and run: "stageInput io workspaceDir scratchDir input fs = (None, fs')"
  shows "\<exists>k t m d. findNode False fs (pathJoin [workspaceDir, input]) = Some k \<and> prefix root k \<and> nodeAt fs k = Some (FileNode t m) \<and>
    findNode False fs' (pathJoin [scratchDir, input]) = Some d \<and> nodeAt fs' d = Some (FileNode t 292)"
proof -
  let ?src = "pathJoin [workspaceDir, input]" and ?dst = "pathJoin [scratchDir, input]"
  obtain fs1 fs2 where valid: "validateRelativePath input ''Workspace input'' = None"
    and inside: "validateContainedPath io fs ?src workspaceDir ''Workspace input source'' = None"
    and ex: "existsSync io fs ?src" and mk: "mkdirSync io (pathDirname ?dst) fs = (None, fs1)"
    and copy: "copyFileSync io ?src ?dst fs1 = Inr fs2" and mode: "chmodSync io ?dst 292 fs2 = Inr fs'"
    using run by (auto simp: stageInput_def Let_def split: option.splits sum.splits prod.splits if_splits)
  have paths: "isAbsolute ?src" "isAbsolute ?dst" using join_is_absolute [OF _ valid] abs by blast+
  have fs1: "dirsAdded fs fs1" "wellFormedFiles fs1"
    using mkdir_added [of fs io "pathDirname ?dst"] mkdir_wf [OF wf, of io "pathDirname ?dst"] mk by simp_all
  obtain k where k: "findNode False fs ?src = Some k" using ex by (auto simp: existsSync_def)
  from copy_effect [OF copy] obtain k1 t m d where c: "findNode False fs1 ?src = Some k1" "nodeAt fs1 k1 = Some (FileNode t m)"
    "findNode True fs1 ?dst = Some d" "nodeAt fs1 d \<noteq> Some DirNode" "fs2 = putNode d (FileNode t m) fs1" by blast
  have "k1 = k" using find_stable [OF k fs1(1), of False] c(1) by simp
  then have src: "nodeAt fs k = Some (FileNode t m)" using dirsAdded_other [OF fs1(1) c(2)] by simp
  have d: "d \<noteq> []" using c(4) by auto
  have fs2: "findNode False fs2 ?dst = Some d" "nodeAt fs2 d = Some (FileNode t m)" "wellFormedFiles fs2"
    unfolding c(5) using find_written [OF fs1(2) paths(2) c(3,4)] write_wf [OF fs1(2) paths(2) c(3,4)] d by (simp_all add: nodeAt_put)
  then have fs': "fs' = putNode d (FileNode t 292) fs2" using mode by (auto simp: chmodSync_def faultOr_def split: option.splits)
  have "findNode False fs' ?dst = Some d" "nodeAt fs' d = Some (FileNode t 292)"
    unfolding fs' using find_written [OF fs2(3) paths(2) fs2(1)] fs2(2) d by (simp_all add: nodeAt_put)
  with k src found_inside [OF io abs(1) root paths(1) k inside] show ?thesis by blast
qed

section \<open>Concrete file systems\<close>

lemma wf_check: "list_all (\<lambda>p. nodeAt fs (butlast p) = Some DirNode) (map fst (fs_nodes fs)) \<Longrightarrow> wellFormedFiles fs"
proof -
  assume check: "list_all (\<lambda>p. nodeAt fs (butlast p) = Some DirNode) (map fst (fs_nodes fs))"
  have "nodeAt fs (butlast p) = Some DirNode" if "nodeAt fs p \<noteq> None" for p
  proof (cases "p = []")
    case False
    with that obtain n where "(p, n) \<in> set (fs_nodes fs)" by (auto simp: nodeAt_def dest: map_of_SomeD)
    then have "p \<in> set (map fst (fs_nodes fs))" by force
    with check show ?thesis unfolding list_all_iff by blast
  qed simp
  then show ?thesis by (simp add: wellFormedFiles_def)
qed

definition noFaults :: faults where
  "noFaults = (\<lambda>op p. None)"

lemma noFaults_works: "realpathWorks noFaults"
  by (simp add: realpathWorks_def noFaults_def)

text \<open>A workspace with a directory link, a link to nothing and a file; a scratch directory with an output.\<close>

definition demoFiles :: fileSystem where
  "demoFiles =
     \<lparr>fs_nodes =
        [([''w''], DirNode), ([''w'', ''in''], FileNode ''x'' 420), ([''w'', ''sub''], DirNode), ([''w'', ''l''], LinkNode ''sub''),
         ([''w'', ''out''], LinkNode ''/e/n''), ([''e''], DirNode), ([''s''], DirNode), ([''s'', ''o''], FileNode ''ok'' 420)],
      fs_cwd = []\<rparr>"

definition toPath :: "string \<Rightarrow> workspaceOutput" where
  "toPath p = \<lparr>wo_scratchPath = ''o'', wo_workspacePath = p\<rparr>"

definition demoConfig :: "string \<Rightarrow> workspaceStageConfig" where
  "demoConfig p = \<lparr>wc_workspaceDir = ''/w'', wc_inputs = [], wc_outputs = [toPath p], wc_secrets = [''key'']\<rparr>"

lemma demo_wf: "wellFormedFiles demoFiles"
  by (rule wf_check) code_simp

lemma demo_paths: "isAbsolute ''/s''" "isAbsolute ''/w''" "findNode False demoFiles ''/w'' = Some [''w'']"
  by code_simp+

theorem copyback_contained_witness:
  "nodeAt (snd (copybackSingleOutput noFaults ''/s'' ''/w'' [''key''] (toPath ''l/new'') demoFiles)) [''w'', ''sub'', ''new''] =
     Some (FileNode ''ok'' 420) \<and> prefix [''w''] [''w'', ''sub'', ''new'']"
proof -
  obtain res fs' where run: "copybackSingleOutput noFaults ''/s'' ''/w'' [''key''] (toPath ''l/new'') demoFiles = (res, fs')" by fastforce
  have node: "nodeAt (snd (copybackSingleOutput noFaults ''/s'' ''/w'' [''key''] (toPath ''l/new'') demoFiles)) [''w'', ''sub'', ''new''] =
      Some (FileNode ''ok'' 420)" by code_simp
  have old: "nodeAt demoFiles [''w'', ''sub'', ''new''] = None" by code_simp
  have link: "\<not> linkToNothing demoFiles (pathJoin [''/w'', wo_workspacePath (toPath ''l/new'')])" by code_simp
  have "prefix [''w''] [''w'', ''sub'', ''new'']"
    using copyback_contained [OF demo_wf noFaults_works demo_paths(1,2,3) link run, of "[''w'', ''sub'', ''new'']"] node old run by simp
  with node show ?thesis by blast
qed

theorem copyback_no_secret_witness:
  "\<exists>t m. nodeAt (snd (copybackOutputs noFaults (demoConfig ''r'') ''/s'' demoFiles)) [''w'', ''r''] = Some (FileNode t m) \<and>
     \<not> (\<exists>a b. t = a @ ''key'' @ b)"
proof -
  obtain res fs' where run: "copybackOutputs noFaults (demoConfig ''r'') ''/s'' demoFiles = (res, fs')" by fastforce
  have node: "nodeAt (snd (copybackOutputs noFaults (demoConfig ''r'') ''/s'' demoFiles)) [''w'', ''r''] = Some (FileNode ''ok'' 420)" by code_simp
  have old: "nodeAt demoFiles [''w'', ''r''] = None" by code_simp
  have config: "isAbsolute (wc_workspaceDir (demoConfig ''r''))" "''key'' \<in> set (wc_secrets (demoConfig ''r''))"
    using demo_paths(2) by (simp_all add: demoConfig_def)
  have new: "nodeAt fs' [''w'', ''r''] = Some (FileNode ''ok'' 420)" using node run by simp
  have "\<not> (\<exists>a b. ''ok'' = a @ ''key'' @ b)"
    by (rule copyback_no_secret [OF demo_wf demo_paths(1) config(1) run new _ config(2)]) (simp_all add: old)
  with node show ?thesis by blast
qed

theorem staged_input_inside_witness:
  "\<exists>k t m d. findNode False demoFiles ''/w/in'' = Some k \<and> prefix [''w''] k \<and> nodeAt demoFiles k = Some (FileNode t m) \<and>
     nodeAt (snd (stageInput noFaults ''/w'' ''/s'' ''in'' demoFiles)) d = Some (FileNode t 292)"
proof -
  obtain fs' where run: "stageInput noFaults ''/w'' ''/s'' ''in'' demoFiles = (None, fs')"
  proof
    have "fst (stageInput noFaults ''/w'' ''/s'' ''in'' demoFiles) = None" by code_simp
    then show "stageInput noFaults ''/w'' ''/s'' ''in'' demoFiles = (None, snd (stageInput noFaults ''/w'' ''/s'' ''in'' demoFiles))"
      by (metis prod.collapse)
  qed
  have "pathJoin [''/w'', ''in''] = ''/w/in''" by code_simp
  with staged_input_inside [OF demo_wf noFaults_works demo_paths(2,1,3) run] run show ?thesis by auto
qed

text \<open>
  The check of the destination resolves a link only when its target exists; the copy follows it
  anyway and makes the file it points to, here outside the workspace.
\<close>

theorem copyback_follows_dangling_link:
  "oc_success (fst (copybackSingleOutput noFaults ''/s'' ''/w'' [''key''] (toPath ''out'') demoFiles)) \<and>
   nodeAt (snd (copybackSingleOutput noFaults ''/s'' ''/w'' [''key''] (toPath ''out'') demoFiles)) [''e'', ''n''] = Some (FileNode ''ok'' 420) \<and>
   nodeAt demoFiles [''e'', ''n''] = None"
  by code_simp

end
