(* ===== verification/Command_Guarantees.thy ===== *)
theory Command_Guarantees
  imports Command_Run_Properties Workspace_Guarantees
begin

text \<open>
  What a call of the command executor guarantees: which processes it starts, under which grant and
  network policy, what it leaves behind and what it records; and that an approval is for one command.
\<close>

section \<open>Which command runs\<close>

lemma resolved_not_denied:
  "resolveBundle deps digest fs = Inr manifest \<Longrightarrow> \<not> isDeniedBinary (man_entrypoint manifest) \<and> \<not> isDeniedBinary (man_bundleId manifest)"
  by (auto simp: resolveBundle_def split: if_splits option.splits)

lemma entrypoint_checked:
  assumes "checkEntrypoint deps request manifest fs = Inr None"
  shows "\<exists>real root. realpathSync (cd_io deps) fs (entrypointOf deps request manifest fs) = Some real \<and>
    realpathSync (cd_io deps) fs (bundleDirOf deps request) = Some root \<and> insideRoot root real"
  using assms by (auto simp: checkEntrypoint_def Let_def split: if_splits option.splits)


section \<open>An authorised command does run\<close>

text \<open>When no check and no preparation fails, the process is started.\<close>

lemma prepared_spawns:
  assumes "checkEntrypoint deps request manifest (cx_files st) = Inr None"
    and "prepareHome (cd_io deps) manifest (pathJoin [cd_tmpdir deps, ''ces-home-'' @ cd_uuid deps 4]) (cx_files st) = (None, fs1)"
    and "fst (mkdirSync (cd_io deps) (pathJoin [cd_tmpdir deps, ''ces-home-'' @ cd_uuid deps 4]) fs1) = None"
  shows "\<exists>env. CommandSpawned (entrypointOf deps request manifest (cx_files st)) (cr_argv request) scratchDir env
    \<in> set (snd (snd (executePrepared deps request manifest gid credential scratchDir proxy adapter st)))"
proof -
  let ?home = "pathJoin [cd_tmpdir deps, ''ces-home-'' @ cd_uuid deps 4]"
  define env where "env = buildCommandEnv deps (ae_env adapter) (map_option snd proxy) (noNetworkEnvOf manifest) ?home"
  have home: "map_get env ''HOME'' = Some ?home" by (simp add: env_def buildCommandEnv_def protected_values)
  obtain r fs2 evs where run: "runCommand deps (entrypointOf deps request manifest (cx_files st)) (cr_argv request) scratchDir env (cd_uuid deps 0) fs1 = (r, fs2, evs)"
    by (metis prod_cases3)
  have "evs = [CommandSpawned (entrypointOf deps request manifest (cx_files st)) (cr_argv request) scratchDir env]"
    using run assms(3) by (auto simp: runCommand_def home Let_def split: prod.splits if_splits option.splits)
  with assms(1,2) run show ?thesis by (auto simp: executePrepared_def Let_def env_def)
qed

lemma command_spawns:
  assumes "resolveBundle deps (cr_bundleDigest request) (cx_files st) = Inr manifest"
    and "validateRequestedProfile manifest (cr_profileName request) (cr_argv request) = Some None"
    and "checkGrant (cd_sha deps) request (cd_now deps) (cx_grants st) = (Inr (Some gid), g1)"
    and "stageInputs (cd_io deps) (cd_dataRoot deps) (cd_uuid deps 1)
      \<lparr>wc_workspaceDir = cr_workspaceDir request, wc_inputs = get_or [] (cr_inputs request), wc_outputs = get_or [] (cr_outputs request),
       wc_secrets = []\<rparr> (cx_files st) = (Inr staged, fs1)"
    and "cd_materialise deps (cr_credentialHandle request) = Inr (Inr credential)"
    and "man_egressMode manifest = ProxyRequired \<Longrightarrow>
      (\<exists>hooks p s1. cd_hooks deps = Some hooks \<and> startProxy deps request manifest hooks (cx_egress st) = (Inr p, s1))"
    and "\<And>proxyEnv. \<exists>adapter evs.
      buildAuthAdapterEnv deps (man_authAdapter manifest) credential proxyEnv (noNetworkEnvOf manifest) fs1 = (Inr adapter, fs2, evs)"
    and "checkEntrypoint deps request manifest fs2 = Inr None"
    and "prepareHome (cd_io deps) manifest (pathJoin [cd_tmpdir deps, ''ces-home-'' @ cd_uuid deps 4]) fs2 = (None, fs3)"
    and "fst (mkdirSync (cd_io deps) (pathJoin [cd_tmpdir deps, ''ces-home-'' @ cd_uuid deps 4]) fs3) = None"
  shows "\<exists>env. CommandSpawned (entrypointOf deps request manifest fs2) (cr_argv request) (sw_scratchDir staged) env
    \<in> set (snd (snd (executeAuthenticatedCommand deps request st)))"
proof -
  let ?st = "st\<lparr>cx_grants := g1, cx_files := fs1\<rparr>"
  let ?ev = "\<lambda>env. CommandSpawned (entrypointOf deps request manifest fs2) (cr_argv request) (sw_scratchDir staged) env"
  have adapted: "\<exists>env. ?ev env \<in> set (snd (snd (executeAdapted deps request manifest gid credential (sw_scratchDir staged) proxy (?st\<lparr>cx_egress := s\<rparr>))))"
    for proxy s
  proof -
    obtain adapter evs where "buildAuthAdapterEnv deps (man_authAdapter manifest) credential (map_option snd proxy) (noNetworkEnvOf manifest) fs1 =
        (Inr adapter, fs2, evs)" using assms(7) by blast
    moreover have "\<exists>env. ?ev env \<in> set (snd (snd (executePrepared deps request manifest gid credential (sw_scratchDir staged) proxy adapter
        (?st\<lparr>cx_egress := s, cx_files := fs2\<rparr>))))"
      using prepared_spawns [where st = "?st\<lparr>cx_egress := s, cx_files := fs2\<rparr>"] assms(8-10) by simp
    ultimately show ?thesis by (auto simp: executeAdapted_def)
  qed
  have "\<exists>env. ?ev env \<in> set (snd (snd (executeWithCredential deps request manifest gid credential (sw_scratchDir staged) ?st)))"
  proof (cases "man_egressMode manifest = ProxyRequired")
    case True
    with assms(6) obtain hooks p s1 where "cd_hooks deps = Some hooks" "startProxy deps request manifest hooks (cx_egress st) = (Inr p, s1)" by blast
    with True adapted [of "Some p" s1] show ?thesis by (simp add: executeWithCredential_def)
  next
    case False
    with adapted [of None "cx_egress st"] show ?thesis by (simp add: executeWithCredential_def)
  qed
  then show ?thesis using assms(1-5) by (simp add: executeAuthenticatedCommand_def executeGranted_def Let_def)
qed

section \<open>Under which network policy\<close>

definition proxyVariables :: "string list" where
  "proxyVariables = [''HTTP_PROXY'', ''http_proxy'', ''HTTPS_PROXY'', ''https_proxy'']"

text \<open>
  C30: Both processes of a call, the credential helper and the command, run under the bundle's network
  policy. Without network every proxy variable names a port nothing listens on; with a proxy they
  name the port of the active session made for this call, and that session's server forwards requests
  and tunnels only to targets that the profile lists.
\<close>

theorem command_egress_enforced:
  assumes run: "executeAuthenticatedCommand deps request st = (r, st', evs)"
    and ev: "CommandSpawned path argv cwd env \<in> set evs \<or> HelperSpawned helper env credential \<in> set evs"
    and resolved: "resolveBundle deps (cr_bundleDigest request) (cx_files st) = Inr manifest"
    and fresh: "map_get (eg_objects (cx_egress st)) (cd_uuid deps 2) = None"
  shows "(man_egressMode manifest = NoNetwork \<longrightarrow> list_all (\<lambda>k. map_get env k = Some blockedProxy) proxyVariables) \<and>
    (man_egressMode manifest = ProxyRequired \<longrightarrow>
      (\<exists>hooks m port. cd_hooks deps = Some hooks \<and>
        sessionOf (snd (startProxy deps request manifest hooks (cx_egress st))) (cd_uuid deps 2) = Some m \<and> statusOf m = PxActive \<and>
        px_port (mg_session m) = Some port \<and>
        list_all (\<lambda>k. map_get env k = Some (''http://127.0.0.1:'' @ number_text port)) proxyVariables \<and>
        (\<forall>newURL url httpMethod h p pr.
           proxyRequest newURL url httpMethod m = ProxyForward h p pr \<or> proxyConnect url m = ProxyForward h p pr \<longrightarrow>
           (\<exists>t. t \<in> set (get_or [] (allowedTargetsOf manifest (cr_profileName request))) \<and> hostCovered (at_host t) h \<and>
              listsValue (at_ports t) p \<and> listsValue (at_protocols t) pr))))"
proof -
  obtain e where e: "e \<in> set evs" "e = CommandSpawned path argv cwd env \<or> e = HelperSpawned helper env credential" using ev by blast
  from call_stage [OF run e(1)] resolved obtain gid g1 where
    "executeGranted deps request manifest gid (st\<lparr>cx_grants := g1\<rparr>) = (r, st', evs)" by auto
  then have "e \<in> set (snd (snd (executeGranted deps request manifest gid (st\<lparr>cx_grants := g1\<rparr>))))" using e(1) by simp
  from granted_stage [OF this] obtain proxy st1 secret scratchDir where
    p: "proxyInPlace deps request manifest (cx_egress st) proxy"
      "e \<in> set (snd (snd (executeAdapted deps request manifest gid secret scratchDir proxy st1)))"
    by auto
  obtain base where env: "env = withNoNetwork (noNetworkEnvOf manifest) (withProxyEnv (map_option snd proxy) base)"
    using e(2) p(2) adapted_command adapted_helper unfolding buildCommandEnv_def by metis
  have blocked: "list_all (\<lambda>k. map_get env k = Some blockedProxy) proxyVariables" if "man_egressMode manifest = NoNetwork"
    using no_network_values [OF that] by (simp add: env proxyVariables_def)
  have proxied: "\<exists>hooks m port. cd_hooks deps = Some hooks \<and>
      sessionOf (snd (startProxy deps request manifest hooks (cx_egress st))) (cd_uuid deps 2) = Some m \<and> statusOf m = PxActive \<and>
      px_port (mg_session m) = Some port \<and> pc_allowedTargets (mg_config m) = allowedTargetsOf manifest (cr_profileName request) \<and>
      list_all (\<lambda>k. map_get env k = Some (''http://127.0.0.1:'' @ number_text port)) proxyVariables"
    if mode: "man_egressMode manifest = ProxyRequired"
  proof -
    from p(1) mode obtain hooks i penv s1 where h: "cd_hooks deps = Some hooks" "proxy = Some (i, penv)"
      "startProxy deps request manifest hooks (cx_egress st) = (Inr (i, penv), s1)"
      by (auto simp: proxyInPlace_def)
    from startProxy_result [OF fresh h(3)] obtain m port where m: "sessionOf s1 (cd_uuid deps 2) = Some m" "statusOf m = PxActive"
      "px_port (mg_session m) = Some port" "pc_allowedTargets (mg_config m) = allowedTargetsOf manifest (cr_profileName request)"
      "env_HTTP_PROXY penv = ''http://127.0.0.1:'' @ number_text port" "env_HTTPS_PROXY penv = ''http://127.0.0.1:'' @ number_text port"
      by auto
    have "env = withProxyEnv (Some penv) base"
      using mode by (simp add: env h(2) noNetworkEnvOf_def withNoNetwork_def ProxyRequired_def NoNetwork_def)
    then have "list_all (\<lambda>k. map_get env k = Some (''http://127.0.0.1:'' @ number_text port)) proxyVariables"
      using proxy_env_values [of "''HTTP_PROXY''" "''HTTPS_PROXY''" penv base] proxy_env_values [of "''http_proxy''" "''https_proxy''" penv base] m(5,6)
      by (simp add: proxyVariables_def)
    with h m show ?thesis by auto
  qed
  show ?thesis using blocked proxied proxy_forward_allowed by metis
qed

section \<open>What is left behind\<close>

lemma prepared_egress:
  assumes "executePrepared deps request manifest gid credential scratchDir proxy adapter st = (Inr r, st', evs)"
  shows "cx_egress st' = stopProxy deps (map_option fst proxy) (cx_egress st)"
proof -
  let ?res = "executePrepared deps request manifest gid credential scratchDir proxy adapter st"
  have "cx_egress (fst (snd ?res)) = stopProxy deps (map_option fst proxy) (cx_egress st)"
  proof -
    have "fst ?res = Inr r" by (simp add: assms)
    then show ?thesis
      by (auto simp: executePrepared_def Let_def finish_egress split: sum.splits option.splits prod.splits)
  qed
  with assms show ?thesis by simp
qed

lemma adapted_egress:
  assumes "executeAdapted deps request manifest gid credential scratchDir proxy st = (Inr r, st', evs)"
  shows "cx_egress st' = stopProxy deps (map_option fst proxy) (cx_egress st)"
proof -
  obtain a fs1 evs1 where b: "buildAuthAdapterEnv deps (man_authAdapter manifest) credential (map_option snd proxy) (noNetworkEnvOf manifest) (cx_files st) = (a, fs1, evs1)"
    by (metis prod_cases3)
  show ?thesis
  proof (cases a)
    case (Inl e)
    with assms b show ?thesis by (auto simp: executeAdapted_def emitting_def abandonCommand_def)
  next
    case (Inr adapter)
    obtain x st1 evs2 where "executePrepared deps request manifest gid credential scratchDir proxy adapter (st\<lparr>cx_files := fs1\<rparr>) = (x, st1, evs2)"
      by (metis prod_cases3)
    with assms b Inr show ?thesis by (auto simp: executeAdapted_def emitting_def dest: prepared_egress)
  qed
qed

lemma credential_egress:
  assumes run: "executeWithCredential deps request manifest gid credential scratchDir st = (Inr r, st', evs)"
    and fresh: "map_get (eg_objects (cx_egress st)) (cd_uuid deps 2) = None" and active: "activeIn (cx_egress st') conv i"
  shows "activeIn (cx_egress st) conv i"
proof (cases "man_egressMode manifest = ProxyRequired")
  case False
  with run have "executeAdapted deps request manifest gid credential scratchDir None st = (Inr r, st', evs)" by (simp add: executeWithCredential_def)
  from adapted_egress [OF this] active show ?thesis by (simp add: stopProxy_def)
next
  case True
  show ?thesis
  proof (cases "cd_hooks deps")
    case None
    with True run active show ?thesis by (auto simp: executeWithCredential_def abandonCommand_def stopProxy_def)
  next
    case (Some hooks)
    obtain x s1 where s: "startProxy deps request manifest hooks (cx_egress st) = (x, s1)" by fastforce
    note res = startProxy_result [OF fresh s]
    show ?thesis
    proof (cases x)
      case (Inl e)
      with True Some s run active res show ?thesis by (auto simp: executeWithCredential_def abandonCommand_def stopProxy_def)
    next
      case (Inr p)
      with True Some s run have "executeAdapted deps request manifest gid credential scratchDir (Some p) (st\<lparr>cx_egress := s1\<rparr>) = (Inr r, st', evs)"
        by (simp add: executeWithCredential_def)
      from adapted_egress [OF this] active have "activeIn (stopProxy deps (Some (fst p)) s1) conv i" by simp
      from stopProxy_calm [OF this] res Inr show ?thesis by (auto split: prod.splits)
    qed
  qed
qed

text \<open>
  C31: A call that returns leaves no proxy session running: every session that is active afterwards
  was active before, on success, on a failing command, helper, entrypoint or file operation, and when
  the server cannot be started.
\<close>

theorem command_leaves_no_proxy:
  assumes run: "executeAuthenticatedCommand deps request st = (Inr r, st', evs)"
    and fresh: "map_get (eg_objects (cx_egress st)) (cd_uuid deps 2) = None"
  shows "\<forall>conv i. activeIn (cx_egress st') conv i \<longrightarrow> activeIn (cx_egress st) conv i"
proof (intro allI impI)
  fix conv i
  assume active: "activeIn (cx_egress st') conv i"
  have granted: "activeIn (cx_egress st) conv i"
    if "executeGranted deps request manifest gid (st\<lparr>cx_grants := g\<rparr>) = (Inr r, st', evs)" for manifest gid g
    using that active fresh credential_egress
    by (fastforce simp: executeGranted_def Let_def abandonCommand_def stopProxy_def split: sum.splits prod.splits)
  show "activeIn (cx_egress st) conv i"
    using run active granted by (auto simp: executeAuthenticatedCommand_def Let_def split: sum.splits option.splits prod.splits)
qed

section \<open>What is recorded\<close>

definition audited :: "commandDeps \<Rightarrow> commandRequest \<Rightarrow> string \<Rightarrow> bool \<Rightarrow> auditFile \<Rightarrow> commandOutcome \<Rightarrow> bool" where
  "audited deps request gid ok log result \<longleftrightarrow>
     (\<exists>res pre. fst result = Inr res \<and> snd (snd result) = pre @ [AuditAppended (commandAudit deps request gid res)] \<and>
        (\<forall>a. AuditAppended a \<notin> set pre) \<and> cx_audit (fst (snd result)) = snd (appendAudit ok (commandAudit deps request gid res) log))"

lemma finish_audited:
  "cd_auditStore deps = Some ok \<Longrightarrow>
   audited deps request gid ok (cx_audit st) (finishCommand deps request gid credential scratchDir session temp home r st)"
  by (auto simp: audited_def finishCommand_def Let_def split: prod.splits)

lemma emitting_audited:
  "audited deps request gid ok log result \<Longrightarrow> \<forall>a. AuditAppended a \<notin> set evs \<Longrightarrow> audited deps request gid ok log (emitting evs result)"
  unfolding audited_def by (metis (no_types, lifting) Un_iff append.assoc emitting_events set_append)

lemma prepared_audited:
  assumes "CommandSpawned path argv cwd env \<in> set (snd (snd (executePrepared deps request manifest gid credential scratchDir proxy adapter st)))"
    and "cd_auditStore deps = Some ok"
  shows "audited deps request gid ok (cx_audit st) (executePrepared deps request manifest gid credential scratchDir proxy adapter st)"
proof -
  have run: "\<forall>a. AuditAppended a \<notin> set evs" if "runCommand d p a s en i fs = (r, fs2, evs)" for d p a s en i fs r fs2 evs
    using run_events [of d p a s en i fs] that by auto
  have finish: "audited deps request gid ok (cx_audit st) (emitting evs (finishCommand deps request gid credential scratchDir session temp home r (st\<lparr>cx_files := fs\<rparr>)))"
    if "\<forall>a. AuditAppended a \<notin> set evs" for evs session temp home r fs
    using emitting_audited [OF finish_audited [OF assms(2), where st = "st\<lparr>cx_files := fs\<rparr>"] that] by simp
  show ?thesis using assms(1) run finish by (auto simp: executePrepared_def Let_def split: sum.splits option.splits prod.splits)
qed

lemma adapted_audited:
  assumes "CommandSpawned path argv cwd env \<in> set (snd (snd (executeAdapted deps request manifest gid credential scratchDir proxy st)))"
    and "cd_auditStore deps = Some ok"
  shows "audited deps request gid ok (cx_audit st) (executeAdapted deps request manifest gid credential scratchDir proxy st)"
proof -
  obtain a fs1 evs where b: "buildAuthAdapterEnv deps (man_authAdapter manifest) credential (map_option snd proxy) (noNetworkEnvOf manifest) (cx_files st) = (a, fs1, evs)"
    by (metis prod_cases3)
  note quiet = adapter_events [OF b]
  then have evs: "CommandSpawned path argv cwd env \<notin> set evs" "\<forall>a. AuditAppended a \<notin> set evs" by auto
  with assms(1) b obtain adapter where a: "a = Inr adapter"
    "CommandSpawned path argv cwd env \<in> set (snd (snd (executePrepared deps request manifest gid credential scratchDir proxy adapter (st\<lparr>cx_files := fs1\<rparr>))))"
    by (auto simp: executeAdapted_def split: sum.splits)
  from emitting_audited [OF prepared_audited [OF a(2) assms(2)] evs(2)] a(1) b show ?thesis by (simp add: executeAdapted_def)
qed

lemma credential_audited:
  assumes "CommandSpawned path argv cwd env \<in> set (snd (snd (executeWithCredential deps request manifest gid credential scratchDir st)))"
    and "cd_auditStore deps = Some ok"
  shows "audited deps request gid ok (cx_audit st) (executeWithCredential deps request manifest gid credential scratchDir st)"
proof -
  have "audited deps request gid ok (cx_audit st) (executeAdapted deps request manifest gid credential scratchDir proxy (st\<lparr>cx_egress := s\<rparr>))"
    if "CommandSpawned path argv cwd env \<in> set (snd (snd (executeAdapted deps request manifest gid credential scratchDir proxy (st\<lparr>cx_egress := s\<rparr>))))"
    for proxy s using adapted_audited [OF that assms(2)] by simp
  then show ?thesis using assms adapted_audited [OF _ assms(2), of path argv cwd env request manifest gid credential scratchDir None st]
    by (auto simp: executeWithCredential_def split: option.splits prod.splits sum.splits)
qed

lemma call_audited:
  assumes run: "executeAuthenticatedCommand deps request st = (r, st', evs)" and ev: "CommandSpawned path argv cwd env \<in> set evs"
    and store: "cd_auditStore deps = Some ok"
  shows "\<exists>res gid pre. r = Inr res \<and> commandGranted (cd_sha deps) request (cd_now deps) (cx_grants st) gid \<and>
    evs = pre @ [AuditAppended (commandAudit deps request gid res)] \<and> (\<forall>a. AuditAppended a \<notin> set pre) \<and>
    cx_audit st' = snd (appendAudit ok (commandAudit deps request gid res) (cx_audit st))"
proof -
  from call_stage [OF run ev] obtain manifest gid g1 where
    g: "checkGrant (cd_sha deps) request (cd_now deps) (cx_grants st) = (Inr (Some gid), g1)"
      "executeGranted deps request manifest gid (st\<lparr>cx_grants := g1\<rparr>) = (r, st', evs)"
    by blast
  have ev': "CommandSpawned path argv cwd env \<in> set (snd (snd (executeGranted deps request manifest gid (st\<lparr>cx_grants := g1\<rparr>))))"
    using g(2) ev by simp
  have "audited deps request gid ok (cx_audit st) (executeWithCredential deps request manifest gid credential scratchDir (st\<lparr>cx_grants := g1, cx_files := fs\<rparr>))"
    if "CommandSpawned path argv cwd env \<in> set (snd (snd (executeWithCredential deps request manifest gid credential scratchDir (st\<lparr>cx_grants := g1, cx_files := fs\<rparr>))))"
    for credential scratchDir fs
    using credential_audited [OF that store] by simp
  then have "audited deps request gid ok (cx_audit st) (executeGranted deps request manifest gid (st\<lparr>cx_grants := g1\<rparr>))"
    using ev' by (auto simp: executeGranted_def Let_def split: sum.splits prod.splits)
  with g(2) checkGrant_granted [OF g(1)] show ?thesis by (auto simp: audited_def)
qed

text \<open>
  A command that was started is recorded: the call returns a result, its last event is the one
  audit record of the call, which names the grant that allowed it and reports the success and the
  error of that very result, and the record is appended to the log.
\<close>

theorem command_audited:
  assumes "executeAuthenticatedCommand deps request st = (r, st', evs)" and "CommandSpawned path argv cwd env \<in> set evs"
    and "cd_auditStore deps = Some ok"
  shows "\<exists>res gid pre. r = Inr res \<and> commandGranted (cd_sha deps) request (cd_now deps) (cx_grants st) gid \<and>
    evs = pre @ [AuditAppended (commandAudit deps request gid res)] \<and> (\<forall>a. AuditAppended a \<notin> set pre) \<and>
    cx_audit st' = snd (appendAudit ok (commandAudit deps request gid res) (cx_audit st))"
  using call_audited [OF assms] .

end
