(* ===== verification/Command_Witnesses.thy ===== *)
theory Command_Witnesses
  imports Command_Guarantees
begin

text \<open>
  The theorems on command execution at a concrete bundle, request and file system. The hash is the
  identity, the manifest is the same whatever its text, and the process writes nothing.
\<close>

section \<open>A concrete call\<close>

definition toolDigest :: string where
  "toolDigest = replicate 64 (CHR ''a'')"

definition toolManifest :: "string \<Rightarrow> secureCommandManifest" where
  "toolManifest mode =
     \<lparr>man_schemaVersion = ''1'', man_bundleDigest = toolDigest, man_bundleId = ''gh'', man_version = ''1'', man_entrypoint = ''gh'',
      man_commandProfiles = Some
        [(''p'', \<lparr>prof_description = ''d'', prof_allowedArgvPatterns = Some [\<lparr>pat_name = ''n'', pat_tokens = Some [''ls'']\<rparr>],
          prof_deniedSubcommands = Some [''rm''], prof_deniedFlags = None,
          prof_allowedNetworkTargets = Some [\<lparr>tgt_hostPattern = ''a.io'', tgt_ports = None, tgt_protocols = None\<rparr>]\<rparr>)],
      man_authAdapter = Some (EnvVarAdapter ''K'' None), man_egressMode = mode, man_cleanConfigDirs = None\<rparr>"

definition toolFiles :: fileSystem where
  "toolFiles =
     \<lparr>fs_nodes =
        [([''d''], DirNode), ([''d'', ''toolstore''], DirNode), ([''d'', ''toolstore'', toolDigest], DirNode),
         ([''d'', ''toolstore'', toolDigest, ''toolstore-manifest.json''], FileNode ''m'' 420),
         ([''d'', ''toolstore'', toolDigest, ''gh''], FileNode ''x'' 493), ([''t''], DirNode), ([''w''], DirNode)],
      fs_cwd = []\<rparr>"

definition toolHooks :: egressHooks where
  "toolHooks = \<lparr>hk_setupCA = None, hk_createServer = (\<lambda>m. None), hk_listen = (\<lambda>h. Inr 4000), hk_close = None\<rparr>"

definition toolId :: "nat \<Rightarrow> string" where
  "toolId n = replicate (Suc n) (CHR ''u'')"

definition toolSpawn :: "string \<Rightarrow> string list \<Rightarrow> string \<Rightarrow> environment \<Rightarrow> fileSystem \<Rightarrow> (string + processOutcome) \<times> fileSystem" where
  "toolSpawn path argv cwd env fs = (Inr \<lparr>po_exitCode = 0, po_stdout = get_or [] (map_get env ''K''), po_stderr = []\<rparr>, fs)"

definition toolDeps :: "string \<Rightarrow> commandDeps" where
  "toolDeps mode =
     \<lparr>cd_sha = id, cd_io = noFaults, cd_parseManifest = (\<lambda>raw. Some (toolManifest mode)), cd_dataRoot = ''/d'', cd_tmpdir = ''/t'',
      cd_PATH = None, cd_materialise = (\<lambda>h. Inr (Inr ''key'')), cd_hooks = Some toolHooks, cd_auditStore = Some True,
      cd_sessionId = None, cd_maxOutputBytes = None, cd_helper = (\<lambda>c e i t. Inl ''none''),
      cd_spawn = toolSpawn,
      cd_uuid = toolId, cd_now = 7, cd_text = (\<lambda>e. ''failed'')\<rparr>"

definition toolRequest :: commandRequest where
  "toolRequest =
     \<lparr>cr_bundleDigest = toolDigest, cr_profileName = ''p'', cr_credentialHandle = ''h'', cr_argv = [''ls''], cr_workspaceDir = ''/w'',
      cr_inputs = None, cr_outputs = None, cr_purpose = ''list'', cr_grantId = None, cr_conversationId = Some ''c''\<rparr>"

definition toolGrant :: persistentGrant where
  "toolGrant = \<lparr>pg_id = ''g'', pg_tool = ''command'', pg_pattern = ''h:'' @ toolDigest @ '':p'', pg_scope = ''h'', pg_createdAt = 1,
     pg_sessionId = None, pg_revokedAt = None, pg_revokedReason = None\<rparr>"

definition toolState :: commandState where
  "toolState = \<lparr>cx_grants = \<lparr>cs_persistent = \<lparr>ps_file = GrantsFile [toolGrant], ps_corrupt = False\<rparr>, cs_temporary = []\<rparr>,
     cx_files = toolFiles, cx_egress = emptyEgress, cx_audit = AuditMissing\<rparr>"

definition toolRun :: "string \<Rightarrow> commandOutcome" where
  "toolRun mode = executeAuthenticatedCommand (toolDeps mode) toolRequest toolState"

fun spawnedEnv :: "commandEvent list \<Rightarrow> environment option" where
  "spawnedEnv (CommandSpawned p a d e # evs) = Some e"
| "spawnedEnv (x # evs) = spawnedEnv evs"
| "spawnedEnv [] = None"

text \<open>The stages of the call, each evaluated alone.\<close>

lemma tool_published:
  "isBundlePublished (toolDeps mode) toolDigest toolFiles"
  "readPublishedManifest (toolDeps mode) toolDigest toolFiles = Some (toolManifest mode)"
  "isDeniedBinary ''gh'' = False"
  by code_simp+

lemma tool_bundle: "resolveBundle (toolDeps mode) (cr_bundleDigest toolRequest) (cx_files toolState) = Inr (toolManifest mode)"
  using tool_published by (simp add: resolveBundle_def toolManifest_def toolRequest_def toolState_def)

lemma tool_profile: "validateRequestedProfile (toolManifest mode) (cr_profileName toolRequest) (cr_argv toolRequest) = Some None"
proof -
  have "(case validateCommand (toolManifest mode) [''ls''] of Some (CommandAllowed p t) \<Rightarrow> p = ''p'' | _ \<Rightarrow> False)" by code_simp
  then show ?thesis by (auto simp: validateRequestedProfile_def toolRequest_def toolManifest_def split: option.splits commandValidation.splits)
qed

lemma tool_granted: "\<exists>gid g1. checkGrant (cd_sha (toolDeps mode)) toolRequest (cd_now (toolDeps mode)) (cx_grants toolState) = (Inr (Some gid), g1)"
proof -
  have "(case fst (checkGrant id toolRequest 7 (cx_grants toolState)) of Inr (Some g) \<Rightarrow> True | _ \<Rightarrow> False)" by code_simp
  then show ?thesis by (auto simp: toolDeps_def split: sum.splits option.splits) (metis prod.collapse)
qed

definition withDirs :: "string list list \<Rightarrow> fileSystem \<Rightarrow> fileSystem" where
  "withDirs ds fs = fold (\<lambda>d. putNode d DirNode) ds fs"

definition stagedFiles :: fileSystem where
  "stagedFiles = withDirs [[''d'', ''scratch''], [''d'', ''scratch'', ''uu'']] toolFiles"

definition homeFiles :: fileSystem where
  "homeFiles = withDirs [[''t'', ''ces-home-uuuuu'']] stagedFiles"

lemma tool_dirs:
  "mkdirSync noFaults ''/d/scratch/uu'' toolFiles = (None, stagedFiles)"
  "mkdirSync noFaults ''/t/ces-home-uuuuu'' stagedFiles = (None, homeFiles)"
  "mkdirSync noFaults ''/t/ces-home-uuuuu'' homeFiles = (None, homeFiles)"
  "pathJoin [getScratchBaseDir ''/d'', ''uu''] = ''/d/scratch/uu''" "pathJoin [''/t'', ''ces-home-uuuuu''] = ''/t/ces-home-uuuuu''"
  "toolId 1 = ''uu''" "toolId 4 = ''uuuuu''"
  by code_simp+

lemma tool_staged:
  "stageInputs noFaults ''/d'' ''uu'' \<lparr>wc_workspaceDir = w, wc_inputs = [], wc_outputs = [], wc_secrets = []\<rparr> toolFiles =
     (Inr \<lparr>sw_scratchDir = ''/d/scratch/uu'', sw_stagedInputs = []\<rparr>, stagedFiles)"
  using tool_dirs by (simp add: stageInputs_def createScratchDir_def)

lemma tool_proxy: "\<exists>p s1. startProxy (toolDeps mode) toolRequest (toolManifest mode) toolHooks emptyEgress = (Inr p, s1)"
proof -
  have "\<not> isl (fst (startProxy (toolDeps mode) toolRequest (toolManifest mode) toolHooks emptyEgress))" by code_simp
  then show ?thesis by (metis isl_def sum.exhaust_sel prod.collapse)
qed

lemma tool_entrypoint: "checkEntrypoint (toolDeps mode) toolRequest (toolManifest mode) stagedFiles = Inr None"
proof -
  have "bundleDirOf (toolDeps mode) toolRequest = ''/d/toolstore/'' @ toolDigest"
    "entrypointOf (toolDeps mode) toolRequest (toolManifest mode) stagedFiles = ''/d/toolstore/'' @ toolDigest @ ''/gh''"
    "realpathSync noFaults stagedFiles (''/d/toolstore/'' @ toolDigest @ ''/gh'') = Some (''/d/toolstore/'' @ toolDigest @ ''/gh'')"
    "realpathSync noFaults stagedFiles (''/d/toolstore/'' @ toolDigest) = Some (''/d/toolstore/'' @ toolDigest)"
    "insideRoot (''/d/toolstore/'' @ toolDigest) (''/d/toolstore/'' @ toolDigest @ ''/gh'')"
    by code_simp+
  moreover have "cd_io (toolDeps mode) = noFaults" by (simp add: toolDeps_def)
  ultimately show ?thesis unfolding checkEntrypoint_def Let_def by simp
qed

lemma tool_spawned: "\<exists>env. CommandSpawned (entrypointOf (toolDeps mode) toolRequest (toolManifest mode) stagedFiles) [''ls''] ''/d/scratch/uu'' env
  \<in> set (snd (snd (toolRun mode)))"
proof -
  obtain gid g1 where g: "checkGrant (cd_sha (toolDeps mode)) toolRequest (cd_now (toolDeps mode)) (cx_grants toolState) = (Inr (Some gid), g1)"
    using tool_granted by blast
  have deps: "cd_io (toolDeps mode) = noFaults" "cd_dataRoot (toolDeps mode) = ''/d''" "cd_uuid (toolDeps mode) = toolId" "cd_tmpdir (toolDeps mode) = ''/t''"
    "cd_materialise (toolDeps mode) h = Inr (Inr ''key'')" "cd_hooks (toolDeps mode) = Some toolHooks" for h
    by (simp_all add: toolDeps_def)
  have req: "cr_workspaceDir toolRequest = ''/w''" "cr_inputs toolRequest = None" "cr_outputs toolRequest = None" "cr_argv toolRequest = [''ls'']"
    by (simp_all add: toolRequest_def)
  have st: "cx_files toolState = toolFiles" "cx_egress toolState = emptyEgress" by (simp_all add: toolState_def)
  have "\<not> blank ''K''" by code_simp
  then have adapter: "\<exists>adapter evs. buildAuthAdapterEnv (toolDeps mode) (man_authAdapter (toolManifest mode)) ''key'' penv net stagedFiles = (Inr adapter, stagedFiles, evs)"
    for penv net by (simp add: buildAuthAdapterEnv_def toolManifest_def validateAuthAdapterConfig_def failing_def)
  have home: "prepareHome noFaults (toolManifest mode) ''/t/ces-home-uuuuu'' stagedFiles = (None, homeFiles)"
    by (simp add: prepareHome_def tool_dirs enforceCleanConfigDirs_def toolManifest_def)
  have path: "pathJoin [''/t'', ''ces-home-'' @ toolId 4] = ''/t/ces-home-uuuuu''" using tool_dirs(5,7) by simp
  show ?thesis
    unfolding toolRun_def
    using command_spawns [OF tool_bundle tool_profile g _ deps(5) _ adapter tool_entrypoint, where staged = "\<lparr>sw_scratchDir = ''/d/scratch/uu'', sw_stagedInputs = []\<rparr>"
      and ?fs3.0 = homeFiles] tool_proxy deps req st home path tool_staged tool_dirs
    by (simp del: append.simps)
qed

lemma tool_call:
  "\<exists>r st' evs path env. executeAuthenticatedCommand (toolDeps mode) toolRequest toolState = (r, st', evs) \<and>
     CommandSpawned path [''ls''] ''/d/scratch/uu'' env \<in> set evs \<and> toolRun mode = (r, st', evs)"
  using tool_spawned [of mode] unfolding toolRun_def by (metis prod.collapse)

lemma tool_deps:
  "cd_sha (toolDeps mode) = id" "cd_now (toolDeps mode) = 7" "cd_auditStore (toolDeps mode) = Some True" "cd_PATH (toolDeps mode) = None"
  "cd_hooks (toolDeps mode) = Some toolHooks" "man_egressMode (toolManifest mode) = mode"
  "cx_egress toolState = emptyEgress" "cx_audit toolState = AuditMissing"
  by (simp_all add: toolDeps_def toolManifest_def toolState_def)

lemma tool_fresh: "map_get (eg_objects (cx_egress toolState)) (cd_uuid (toolDeps mode) 2) = None"
  by (simp add: toolState_def emptyEgress_def)

section \<open>The theorems at this call\<close>


theorem command_egress_enforced_witness:
  "(\<exists>path env m port. CommandSpawned path [''ls''] ''/d/scratch/uu'' env \<in> set (snd (snd (toolRun ProxyRequired))) \<and>
      statusOf m = PxActive \<and> px_port (mg_session m) = Some port \<and>
      list_all (\<lambda>k. map_get env k = Some (''http://127.0.0.1:'' @ number_text port)) proxyVariables) \<and>
   (\<exists>path env. CommandSpawned path [''ls''] ''/d/scratch/uu'' env \<in> set (snd (snd (toolRun NoNetwork))) \<and>
      list_all (\<lambda>k. map_get env k = Some blockedProxy) proxyVariables)"
proof (rule conjI)
  obtain r st' evs path env where c: "executeAuthenticatedCommand (toolDeps ProxyRequired) toolRequest toolState = (r, st', evs)"
    "CommandSpawned path [''ls''] ''/d/scratch/uu'' env \<in> set evs" "toolRun ProxyRequired = (r, st', evs)" using tool_call by blast
  from command_egress_enforced [OF c(1) disjI1 [OF c(2)] tool_bundle tool_fresh] obtain m port where
    "statusOf m = PxActive" "px_port (mg_session m) = Some port" "list_all (\<lambda>k. map_get env k = Some (''http://127.0.0.1:'' @ number_text port)) proxyVariables"
    unfolding tool_deps by blast
  with c(2,3) show "\<exists>path env m port. CommandSpawned path [''ls''] ''/d/scratch/uu'' env \<in> set (snd (snd (toolRun ProxyRequired))) \<and>
      statusOf m = PxActive \<and> px_port (mg_session m) = Some port \<and>
      list_all (\<lambda>k. map_get env k = Some (''http://127.0.0.1:'' @ number_text port)) proxyVariables" by (metis snd_conv)
  obtain r st' evs path env where c: "executeAuthenticatedCommand (toolDeps NoNetwork) toolRequest toolState = (r, st', evs)"
    "CommandSpawned path [''ls''] ''/d/scratch/uu'' env \<in> set evs" "toolRun NoNetwork = (r, st', evs)" using tool_call by blast
  from command_egress_enforced [OF c(1) disjI1 [OF c(2)] tool_bundle tool_fresh] have "list_all (\<lambda>k. map_get env k = Some blockedProxy) proxyVariables"
    unfolding tool_deps by blast
  with c(2,3) show "\<exists>path env. CommandSpawned path [''ls''] ''/d/scratch/uu'' env \<in> set (snd (snd (toolRun NoNetwork))) \<and>
      list_all (\<lambda>k. map_get env k = Some blockedProxy) proxyVariables" by (metis snd_conv)
qed

text \<open>The call returns because a command that was started is always followed by its result.\<close>

lemma tool_returns: "\<exists>res. fst (toolRun ProxyRequired) = Inr res"
proof -
  obtain r st' evs path env where c: "executeAuthenticatedCommand (toolDeps ProxyRequired) toolRequest toolState = (r, st', evs)"
    "CommandSpawned path [''ls''] ''/d/scratch/uu'' env \<in> set evs" "toolRun ProxyRequired = (r, st', evs)" using tool_call by blast
  from call_audited [OF c(1,2) tool_deps(3)] c(3) show ?thesis by auto
qed

theorem command_leaves_no_proxy_witness:
  "\<not> isl (fst (startProxy (toolDeps ProxyRequired) toolRequest (toolManifest ProxyRequired) toolHooks emptyEgress)) \<and>
   (\<forall>conv i. \<not> activeIn (cx_egress (fst (snd (toolRun ProxyRequired)))) conv i)"
proof -
  obtain res st' evs where "executeAuthenticatedCommand (toolDeps ProxyRequired) toolRequest toolState = (Inr res, st', evs)"
    "toolRun ProxyRequired = (Inr res, st', evs)" using tool_returns unfolding toolRun_def by (metis prod.collapse)
  with command_leaves_no_proxy [OF this(1) tool_fresh] have "\<forall>conv i. activeIn (cx_egress (fst (snd (toolRun ProxyRequired)))) conv i \<longrightarrow> activeIn emptyEgress conv i"
    by (simp add: tool_deps)
  moreover have "\<not> activeIn emptyEgress conv i" for conv i by (simp add: activeIn_def sessionOf_def emptyEgress_def)
  ultimately show ?thesis using tool_proxy [of ProxyRequired] by force
qed

theorem command_audited_witness:
  "\<exists>res gid. fst (toolRun ProxyRequired) = Inr res \<and>
     cx_audit (fst (snd (toolRun ProxyRequired))) = AuditLines [RecordLine (commandAudit (toolDeps ProxyRequired) toolRequest gid res)]"
proof -
  obtain r st' evs path env where c: "executeAuthenticatedCommand (toolDeps ProxyRequired) toolRequest toolState = (r, st', evs)"
    "CommandSpawned path [''ls''] ''/d/scratch/uu'' env \<in> set evs" "toolRun ProxyRequired = (r, st', evs)" using tool_call by blast
  from command_audited [OF c(1,2) tool_deps(3)] obtain res gid where "r = Inr res"
    "cx_audit st' = snd (appendAudit True (commandAudit (toolDeps ProxyRequired) toolRequest gid res) (cx_audit toolState))" by blast
  then show ?thesis using c(3) by (auto simp: tool_deps appendAudit_def)
qed

section \<open>Where the sources say more than the code does\<close>

text \<open>
  The secret set of the output scan is applied to files only: what the process prints is returned,
  here the credential itself.
\<close>

theorem printed_secret_returned:
  "er_stdout (fst (runCommand (toolDeps mode) path argv dir [(''K'', ''key'')] i fs)) = Some ''key''"
proof -
  have "truncated DEFAULT_MAX_OUTPUT_BYTES ''key'' = ''key''" by (simp add: truncated_def DEFAULT_MAX_OUTPUT_BYTES_def)
  then show ?thesis by (simp add: runCommand_def toolDeps_def toolSpawn_def)
qed

text \<open>A rejected output leaves the call successful, with an error beside it.\<close>

definition exitedZero :: commandResult where
  "exitedZero = \<lparr>er_success = True, er_exitCode = Some 0, er_stdout = None, er_stderr = None, er_copyback = None, er_error = None,
     er_auditId = ''u'', er_approvalRequired = None\<rparr>"

theorem rejected_output_succeeds:
  "er_success (fst (copybackStep (toolDeps mode) (toolRequest\<lparr>cr_outputs := Some [toPath ''out'']\<rparr>) ''key'' ''/d/scratch/uu'' exitedZero stagedFiles)) \<and>
   (case er_error (fst (copybackStep (toolDeps mode) (toolRequest\<lparr>cr_outputs := Some [toPath ''out'']\<rparr>) ''key'' ''/d/scratch/uu'' exitedZero stagedFiles))
    of Some (CopybackFailures [(o1, Some (OutputMissing o2))]) \<Rightarrow> o1 = ''o'' \<and> o2 = ''o'' | _ \<Rightarrow> False)"
  by code_simp

text \<open>
  An empty \<open>cwd\<close> passes the test for a missing one, so it is not compared with the workspace, and is
  then used as the workspace: the inputs come from the directory of the executor's own process.
\<close>

lemma empty_cwd_unchecked:
  assumes "rc_cwd request = Some []" "parseCommandString (rc_command request) = Inr (digest, profile, argv)"
  shows "\<exists>exec. cr_workspaceDir exec = [] \<and> cr_inputs exec = rc_inputs request \<and> cr_outputs exec = rc_outputs request \<and>
    snd (runAuthenticatedCommand deps workspace request st) = snd (executeAuthenticatedCommand deps exec st)"
proof -
  let ?exec = "\<lparr>cr_bundleDigest = digest, cr_profileName = profile, cr_credentialHandle = rc_credentialHandle request, cr_argv = argv,
    cr_workspaceDir = [], cr_inputs = rc_inputs request, cr_outputs = rc_outputs request,
    cr_purpose = rc_purpose request, cr_grantId = rc_grantId request, cr_conversationId = rc_conversationId request\<rparr>"
  have "snd (runAuthenticatedCommand deps workspace request st) = snd (executeAuthenticatedCommand deps ?exec st)"
    using assms by (simp add: runAuthenticatedCommand_def Let_def split: prod.split)
  then show ?thesis by (intro exI [of _ ?exec]) simp
qed

theorem empty_cwd_reads_process_directory:
  "fst (stageInput noFaults [] ''/s'' ''in'' (demoFiles\<lparr>fs_cwd := [''w'']\<rparr>)) = None \<and>
   nodeAt (snd (stageInput noFaults [] ''/s'' ''in'' (demoFiles\<lparr>fs_cwd := [''w'']\<rparr>))) [''s'', ''in''] = Some (FileNode ''x'' 292)"
  by code_simp

end
