(* ===== verification/Command_Text.thy ===== *)
theory Command_Text
  imports Command_Executor
begin

text \<open>
  The text of a command: what a guardian approves reads back as the bundle, the profile and the
  arguments that are run, so an approval is for one command.
\<close>

section \<open>Words\<close>

lemma trim_id: "s = [] \<or> \<not> isSpace (hd s) \<and> \<not> isSpace (last s) \<Longrightarrow> trim s = s"
proof -
  have drop: "dropWhile isSpace xs = xs" if "xs = [] \<or> \<not> isSpace (hd xs)" for xs using that by (cases xs) auto
  assume "s = [] \<or> \<not> isSpace (hd s) \<and> \<not> isSpace (last s)"
  then show ?thesis by (cases "s = []") (simp_all add: trim_def trimStart_def drop hd_rev)
qed

lemma trim_ends:
  assumes "trim s \<noteq> []"
  shows "\<not> isSpace (hd (trim s)) \<and> \<not> isSpace (last (trim s))"
proof -
  have hd: "dropWhile isSpace xs \<noteq> [] \<Longrightarrow> \<not> isSpace (hd (dropWhile isSpace xs))" for xs by (rule hd_dropWhile)
  define u where "u = dropWhile isSpace s"
  define v where "v = dropWhile isSpace (rev u)"
  have t: "trim s = rev v" by (simp add: trim_def trimStart_def u_def v_def)
  then have "v \<noteq> []" using assms by simp
  then have last: "\<not> isSpace (last (rev v))" using hd [of "rev u"] by (simp add: v_def last_rev)
  obtain w where "rev u = w @ v" using takeWhile_dropWhile_id unfolding v_def by metis
  then have "u = rev v @ rev w" by (metis rev_append rev_rev_ident)
  then have "hd (rev v) = hd u" "u \<noteq> []" using \<open>v \<noteq> []\<close> by simp_all
  with hd [of s] last t show ?thesis by (simp add: u_def)
qed

lemma trim_blank:
  assumes "trim s = []"
  shows "\<forall>c \<in> set s. isSpace c"
proof -
  have all: "\<forall>c \<in> set (dropWhile isSpace s). isSpace c"
    using assms by (simp add: trim_def trimStart_def dropWhile_eq_Nil_conv)
  have "dropWhile isSpace s = []" by (rule ccontr) (use all hd_dropWhile [of isSpace s] hd_in_set in blast)
  then show ?thesis by (simp add: dropWhile_eq_Nil_conv)
qed

definition isWord :: "string \<Rightarrow> bool" where
  "isWord w \<longleftrightarrow> w \<noteq> [] \<and> list_all (\<lambda>c. \<not> isSpace c) w"

lemma split_words: "w \<in> set (splitSpaces s) \<Longrightarrow> w \<noteq> [] \<Longrightarrow> isWord w"
proof (induction s rule: splitSpaces.induct)
  case (1 s)
  show ?case
  proof (cases "w = takeWhile (\<lambda>c. \<not> isSpace c) s")
    case True
    with 1(3) show ?thesis by (auto simp: isWord_def list_all_iff dest: set_takeWhileD)
  next
    case False
    with 1(2) splitSpaces.simps [of s] obtain c rest where "dropWhile (\<lambda>c. \<not> isSpace c) s = c # rest" "w \<in> set (splitSpaces (dropWhile isSpace rest))"
      by (cases "dropWhile (\<lambda>c. \<not> isSpace c) s") auto
    with 1(1,3) show ?thesis by blast
  qed
qed

lemma split_one: "isWord w \<Longrightarrow> splitSpaces w = [w]"
proof -
  assume "isWord w"
  then have "takeWhile (\<lambda>c. \<not> isSpace c) w = w" "dropWhile (\<lambda>c. \<not> isSpace c) w = []"
    by (auto simp: isWord_def list_all_iff takeWhile_eq_all_conv)
  then show ?thesis unfolding splitSpaces.simps [of w] by (simp only: list.case)
qed

lemma join_ends:
  assumes "list_all isWord ws" "ws \<noteq> []"
  shows "joinWith '' '' ws \<noteq> [] \<and> \<not> isSpace (hd (joinWith '' '' ws)) \<and> \<not> isSpace (last (joinWith '' '' ws))"
  using assms
proof (induction ws rule: induct_list012)
  case (2 w)
  then show ?case by (auto simp: isWord_def list_all_iff)
next
  case (3 w x xs)
  then show ?case by (auto simp: isWord_def list_all_iff)
qed simp

lemma split_join: "list_all isWord ws \<Longrightarrow> ws \<noteq> [] \<Longrightarrow> splitSpaces (joinWith '' '' ws) = ws"
proof (induction ws rule: induct_list012)
  case (2 w)
  then show ?case by (simp add: split_one)
next
  case (3 w x xs)
  let ?j = "joinWith '' '' (x # xs)"
  have j: "?j \<noteq> []" "\<not> isSpace (hd ?j)" using join_ends [of "x # xs"] 3(3) by auto
  have w: "\<forall>c \<in> set w. \<not> isSpace c" using 3(3) by (simp add: isWord_def list_all_iff)
  have sp: "isSpace (CHR '' '')" by code_simp
  have "takeWhile (\<lambda>c. \<not> isSpace c) (w @ CHR '' '' # ?j) = w" "dropWhile (\<lambda>c. \<not> isSpace c) (w @ CHR '' '' # ?j) = CHR '' '' # ?j"
    using w sp by (simp_all add: takeWhile_append2 dropWhile_append2)
  moreover have "dropWhile isSpace ?j = ?j" using j by (cases ?j) auto
  ultimately have "splitSpaces (w @ CHR '' '' # ?j) = w # splitSpaces ?j" by (subst splitSpaces.simps) simp
  with 3 show ?case by simp
qed simp

section \<open>Commands\<close>

lemma takeWhile_upto: "c \<notin> set a \<Longrightarrow> takeWhile (\<lambda>x. x \<noteq> c) (a @ c # b) = a"
  by (induction a) auto

lemma parse_reference:
  assumes "d \<noteq> []" "p \<noteq> []" "CHR ''/'' \<notin> set d" "CHR '' '' \<notin> set d" "CHR '' '' \<notin> set p" "list_all isWord argv"
    and "\<not> isSpace (hd d)" "argv = [] \<Longrightarrow> \<not> isSpace (last p)"
  shows "parseCommandString (trim (d @ ''/'' @ p @ '' '' @ joinWith '' '' argv)) = Inr (d, p, argv)"
proof -
  let ?ref = "d @ ''/'' @ p"
  have ref: "?ref \<noteq> []" "\<not> isSpace (hd ?ref)" "takeWhile (\<lambda>c. c \<noteq> CHR ''/'') ?ref = d" "CHR '' '' \<notin> set ?ref"
    using assms by (simp_all add: takeWhile_upto)
  have parse: "parseCommandString s = Inr (d, p, if trim (drop (Suc (length ?ref)) s) = [] then [] else filter (\<lambda>s. s \<noteq> []) (splitSpaces (trim (drop (Suc (length ?ref)) s))))"
    if "trim s = s" "s \<noteq> []" "takeWhile (\<lambda>c. c \<noteq> CHR 0x20) s = ?ref" for s
    using that ref(3) assms(1,2) by (simp add: parseCommandString_def Let_def)
  show ?thesis
  proof (cases "argv = []")
    case True
    have sp: "isSpace (CHR '' '')" by code_simp
    have "last ?ref = last p" using assms(2) by simp
    then have t: "trim ?ref = ?ref" using ref assms(8) [OF True] by (intro trim_id) simp
    have "trim (?ref @ '' '') = ?ref"
    proof -
      have "dropWhile isSpace (?ref @ '' '') = ?ref @ '' ''" "dropWhile isSpace ?ref = ?ref" using ref(2) assms(1) by (cases d; simp)+
      with t sp show ?thesis by (simp add: trim_def trimStart_def)
    qed
    moreover have "takeWhile (\<lambda>c. c \<noteq> CHR 0x20) ?ref = ?ref" using ref(4) by (auto simp: takeWhile_eq_all_conv)
    ultimately show ?thesis using True parse [OF t ref(1)] by (simp add: trim_id)
  next
    case False
    let ?j = "joinWith '' '' argv"
    note j = join_ends [OF assms(6) False]
    have t: "trim (?ref @ '' '' @ ?j) = ?ref @ '' '' @ ?j" using ref(1,2) assms(1) j by (intro trim_id) simp
    have "takeWhile (\<lambda>c. c \<noteq> CHR 0x20) (?ref @ '' '' @ ?j) = ?ref" using takeWhile_upto [OF ref(4), of ?j] by simp
    from parse [OF t _ this] have "parseCommandString (?ref @ '' '' @ ?j) = Inr (d, p, filter (\<lambda>s. s \<noteq> []) (splitSpaces ?j))"
      using j trim_id [of ?j] by simp
    moreover have "filter (\<lambda>s. s \<noteq> []) argv = argv" using assms(6) by (auto simp: list_all_iff isWord_def filter_id_conv)
    ultimately show ?thesis using t split_join [OF assms(6) False] by simp
  qed
qed

lemma parsed_parts:
  assumes "parseCommandString command = Inr (d, p, argv)"
  shows "d \<noteq> [] \<and> p \<noteq> [] \<and> CHR ''/'' \<notin> set d \<and> CHR '' '' \<notin> set d \<and> CHR '' '' \<notin> set p \<and> list_all isWord argv \<and>
    \<not> isSpace (hd d) \<and> (argv = [] \<longrightarrow> \<not> isSpace (last p))"
proof -
  define t where "t = trim command"
  define ref where "ref = takeWhile (\<lambda>c. c \<noteq> CHR '' '') t"
  define rest where "rest = trim (drop (Suc (length ref)) t)"
  have parts: "t \<noteq> []" "CHR ''/'' \<in> set ref" "d \<noteq> []" "p \<noteq> []" "d = takeWhile (\<lambda>c. c \<noteq> CHR ''/'') ref" "p = drop (Suc (length d)) ref"
    "argv = (if rest = [] then [] else filter (\<lambda>s. s \<noteq> []) (splitSpaces rest))"
    using assms by (auto simp: parseCommandString_def Let_def t_def ref_def rest_def split: if_splits)
  have no_space: "CHR '' '' \<notin> set ref" unfolding ref_def using set_takeWhileD by force
  have ref: "ref = d @ CHR ''/'' # p"
  proof -
    have "dropWhile (\<lambda>c. c \<noteq> CHR ''/'') ref \<noteq> []" using parts(2) by (auto simp: dropWhile_eq_Nil_conv)
    then obtain c cs where c: "dropWhile (\<lambda>c. c \<noteq> CHR ''/'') ref = c # cs" by (meson neq_Nil_conv)
    then have "c = CHR ''/''" by (auto simp: dropWhile_eq_Cons_conv)
    moreover have r: "ref = d @ c # cs" using takeWhile_dropWhile_id [of "\<lambda>c. c \<noteq> CHR ''/''" ref] c parts(5) by simp
    ultimately show ?thesis using parts(6) by simp
  qed
  obtain more where t: "t = ref @ more" unfolding ref_def by (metis takeWhile_dropWhile_id)
  have ends: "\<not> isSpace (hd t)" "\<not> isSpace (last t)" using trim_ends [of command] parts(1) by (simp_all add: t_def)
  have "\<not> isSpace (hd d)" using ends(1) parts(3) by (simp add: t ref)
  moreover have "\<not> isSpace (last p)" if empty: "argv = []"
  proof -
    have rest: "rest = []"
    proof (rule ccontr)
      assume r: "rest \<noteq> []"
      then have "\<not> isSpace (hd rest)" using trim_ends [of "drop (Suc (length ref)) t"] by (simp add: rest_def)
      then have "takeWhile (\<lambda>c. \<not> isSpace c) rest \<noteq> []" using r by (cases rest) auto
      moreover have "takeWhile (\<lambda>c. \<not> isSpace c) rest \<in> set (splitSpaces rest)" unfolding splitSpaces.simps [of rest] by simp
      moreover have "filter (\<lambda>s. s \<noteq> []) (splitSpaces rest) = []" using parts(7) empty r by presburger
      ultimately show False unfolding filter_empty_conv by blast
    qed
    have "more = []"
    proof (rule ccontr)
      assume m: "more \<noteq> []"
      then have last: "last t = last more" by (simp add: t)
      have hd: "hd more = CHR '' ''" using m hd_dropWhile [of "\<lambda>c. c \<noteq> CHR '' ''" t] t unfolding ref_def by (metis dropWhile_eq_Nil_conv takeWhile_dropWhile_id same_append_eq)
      have "isSpace (CHR '' '')" by code_simp
      then have "tl more \<noteq> []" using hd last ends(2) m by (cases more) auto
      moreover have "drop (Suc (length ref)) t = tl more" using m by (cases more) (simp_all add: t)
      then have "trim (tl more) = []" using rest by (simp add: rest_def)
      then have "\<forall>c \<in> set (tl more). isSpace c" by (rule trim_blank)
      ultimately show False using last ends(2) m by (metis last_in_set last_tl)
    qed
    then show ?thesis using ends(2) parts(4) by (simp add: t ref)
  qed
  moreover have "list_all isWord argv" using parts(7) split_words by (auto simp: list_all_iff)
  moreover have "CHR ''/'' \<notin> set d" unfolding parts(5) using set_takeWhileD by force
  moreover have "CHR '' '' \<notin> set d" "CHR '' '' \<notin> set p" using no_space unfolding ref by simp_all
  ultimately show ?thesis using parts(3,4) by blast
qed

text \<open>
  C35: The text a guardian is shown for a command reads back as the bundle, the profile and the
  arguments of the request, however the caller wrote the white space: two commands that were parsed
  and have the same text are the same command.
\<close>

theorem command_text_roundtrip:
  assumes "parseCommandString command = Inr (cr_bundleDigest request, cr_profileName request, cr_argv request)"
  shows "parseCommandString (commandText request) = Inr (cr_bundleDigest request, cr_profileName request, cr_argv request)"
  using parsed_parts [OF assms] parse_reference unfolding commandText_def by simp

theorem command_text_roundtrip_witness:
  "\<exists>request. commandText request = ''d/p ls -a'' \<and> parseCommandString ''d/p ls -a'' = Inr (''d'', ''p'', [''ls'', ''-a''])"
proof -
  define request where "request = \<lparr>cr_bundleDigest = ''d'', cr_profileName = ''p'', cr_credentialHandle = ''h'', cr_argv = [''ls'', ''-a''],
    cr_workspaceDir = ''/w'', cr_inputs = None, cr_outputs = None, cr_purpose = ''list'', cr_grantId = None, cr_conversationId = None\<rparr>"
  have "parseCommandString '' d/p  ls   -a '' = Inr (''d'', ''p'', [''ls'', ''-a''])" by code_simp
  then have "parseCommandString (commandText request) = Inr (''d'', ''p'', [''ls'', ''-a''])"
    using command_text_roundtrip [of "'' d/p  ls   -a ''" request] by (simp add: request_def)
  moreover have "commandText request = ''d/p ls -a''" unfolding request_def by code_simp
  ultimately show ?thesis by metis
qed

end
