(* ===== verification/Posix_Trees.thy ===== *)
theory Posix_Trees
  imports Posix_Properties
begin

text \<open>
  The rest of node:fs that the tool store uses: the entries of a directory, \<open>lstatSync\<close> and
  \<open>renameSync\<close>, and the laws of directory trees that are written, moved or removed.
\<close>

definition listDir :: "fileSystem \<Rightarrow> string list \<Rightarrow> string list" where
  "listDir fs k = map last (filter (\<lambda>p. p \<noteq> [] \<and> butlast p = k) (map fst (fs_nodes fs)))"

definition lstatSync :: "faults \<Rightarrow> fileSystem \<Rightarrow> string \<Rightarrow> string + fileNode" where
  "lstatSync io fs p =
     faultOr (io OpLstat p)
       (case entryOf fs p of
          None \<Rightarrow> Inl ''ENOENT''
        | Some k \<Rightarrow> (case nodeAt fs k of Some n \<Rightarrow> Inr n | None \<Rightarrow> Inl ''ENOENT''))"

definition moveTree :: "string list \<Rightarrow> string list \<Rightarrow> fileSystem \<Rightarrow> fileSystem" where
  "moveTree a b fs =
     fs\<lparr>fs_nodes := map (\<lambda>(p, n). (if prefix a p then b @ drop (length a) p else p, n)) (filter (\<lambda>(p, n). \<not> prefix b p) (fs_nodes fs))\<rparr>"

text \<open>A directory replaces only an empty directory, a file only a file.\<close>

definition renameTarget :: "fileSystem \<Rightarrow> fileNode \<Rightarrow> string list \<Rightarrow> string option" where
  "renameTarget fs n b =
     (if nodeAt fs (butlast b) \<noteq> Some DirNode then Some ''ENOENT''
      else
        (case nodeAt fs b of
           None \<Rightarrow> None
         | Some DirNode \<Rightarrow>
             if n \<noteq> DirNode then Some ''EISDIR''
             else if list_ex (\<lambda>(p, m). strict_prefix b p) (fs_nodes fs) then Some ''ENOTEMPTY'' else None
         | Some m \<Rightarrow> if n = DirNode then Some ''ENOTDIR'' else None))"

definition renameSync :: "faults \<Rightarrow> string \<Rightarrow> string \<Rightarrow> fileSystem \<Rightarrow> string + fileSystem" where
  "renameSync io src dst fs =
     faultOr (io OpRename dst)
       (case (entryOf fs src, entryOf fs dst) of
          (Some a, Some b) \<Rightarrow>
            (case nodeAt fs a of
               None \<Rightarrow> Inl ''ENOENT''
             | Some n \<Rightarrow>
                 if a = b then Inr fs
                 else if prefix a b then Inl ''EINVAL''
                 else (case renameTarget fs n b of Some e \<Rightarrow> Inl e | None \<Rightarrow> Inr (moveTree a b fs)))
        | _ \<Rightarrow> Inl ''ENOENT'')"

end
