(* ===== verification/Tool_Store.thy ===== *)
theory Tool_Store
  imports Command_Executor Posix_Trees
begin

text \<open>
  The tool store of the credential executor: credential-executor/src/toolstore (publish.ts,
  manifest.ts, integrity.ts), and registration of tools in server.ts with the registry of main.ts.
  Outside the sources are SHA-256, the \<open>URL\<close> constructor, \<open>tar\<close>, the download, \<open>JSON.stringify\<close> and
  the clock. A thrown error that leaves \<open>publishBundle\<close> is \<open>Inl\<close>.
\<close>

section \<open>Digests\<close>

text \<open>\<open>Buffer.from(s, "hex")\<close>: pairs of digits up to the first that is none.\<close>

fun hexBytes :: "string \<Rightarrow> nat list" where
  "hexBytes (a # b # rest) = (case (hexValue a, hexValue b) of (Some x, Some y) \<Rightarrow> (16 * x + y) # hexBytes rest | _ \<Rightarrow> [])"
| "hexBytes _ = []"

definition verifyDigest :: "hasher \<Rightarrow> string \<Rightarrow> string \<Rightarrow> bool" where
  "verifyDigest sha bytes expectedDigest =
     (let computedBuf = hexBytes (sha bytes); expectedBuf = hexBytes expectedDigest in
      if length computedBuf \<noteq> length expectedBuf \<or> length expectedBuf \<noteq> 32 then False else computedBuf = expectedBuf)"

section \<open>Sources\<close>

datatype sourceError = SourceMissing | SourceNotUrl string | SourceScheme string

definition validateSourceUrl :: "urlParser \<Rightarrow> string \<Rightarrow> sourceError option" where
  "validateSourceUrl newURL sourceUrl =
     (if sourceUrl = [] \<or> trim sourceUrl = [] then Some SourceMissing
      else
        (case newURL sourceUrl of
           None \<Rightarrow> Some (SourceNotUrl sourceUrl)
         | Some u \<Rightarrow> if url_protocol u \<noteq> ''https:'' then Some (SourceScheme (url_protocol u)) else None))"

definition pointsInclude :: "codePoints \<Rightarrow> codePoints \<Rightarrow> bool" where
  "pointsInclude s t \<longleftrightarrow> list_ex (\<lambda>i. take (length t) (drop i s) = t) [0..<Suc (length s)]"

definition lowerPoint :: "nat \<Rightarrow> nat" where
  "lowerPoint p = (if 65 \<le> p \<and> p \<le> 90 then p + 32 else p)"

text \<open>The three expressions of \<open>WORKSPACE_PATH_PATTERNS\<close>; the first is anchored, with two optional characters.\<close>

definition isWorkspaceOriginPath :: "codePoints \<Rightarrow> bool" where
  "isWorkspaceOriginPath path \<longleftrightarrow>
     list_ex (\<lambda>start. take (length start) path = start)
       (map points [''.vellum/'', ''/.vellum/'', ''~.vellum/'', ''~/.vellum/'']) \<or>
     pointsInclude path (points ''/.vellum/'') \<or>
     pointsInclude (map lowerPoint path) (points ''/workspace/'')"

definition workspaceOrigin :: "urlParser \<Rightarrow> string \<Rightarrow> bool" where
  "workspaceOrigin newURL sourceUrl =
     (case newURL sourceUrl of
        None \<Rightarrow> False
      | Some u \<Rightarrow>
          isWorkspaceOriginPath (points (url_pathname u)) \<or>
          (case decodeURIComponent (url_pathname u) of
             None \<Rightarrow> False
           | Some d \<Rightarrow> d \<noteq> points (url_pathname u) \<and> isWorkspaceOriginPath d))"

section \<open>Links that leave the bundle\<close>

lemma filter_shorter: "\<forall>x. P x \<longrightarrow> Q x \<Longrightarrow> length (filter P xs) \<le> length (filter Q xs)"
  by (induction xs) auto

lemma filter_fewer:
  assumes "\<forall>x. P x \<longrightarrow> Q x" "x \<in> set xs" "Q x" "\<not> P x"
  shows "length (filter P xs) < length (filter Q xs)"
  using assms(2)
proof (induction xs)
  case (Cons y ys)
  show ?case
  proof (cases "y = x")
    case True
    then show ?thesis using assms filter_shorter [OF assms(1), of ys] by (simp add: le_imp_less_Suc)
  next
    case False
    then show ?thesis using Cons assms(1) by auto
  qed
qed simp

lemma below_fewer:
  assumes "nodeAt fs (k @ [x]) = Some n"
  shows "length (filter (\<lambda>e. strict_prefix (k @ [x]) (fst e)) (fs_nodes fs)) < length (filter (\<lambda>e. strict_prefix k (fst e)) (fs_nodes fs))"
proof (rule filter_fewer)
  have up: "strict_prefix k (k @ [x])" by (simp add: strict_prefix_def)
  then show "\<forall>e. strict_prefix (k @ [x]) (fst e) \<longrightarrow> strict_prefix k (fst e)" by (meson prefix_order.less_trans)
  show "(k @ [x], n) \<in> set (fs_nodes fs)" using assms by (auto simp: nodeAt_def dest: map_of_SomeD)
  show "strict_prefix k (fst (k @ [x], n))" using up by simp
qed simp

text \<open>
  The inner \<open>walk\<close>. It starts at a real path and descends only into directories, so a directory is
  given by its names, and \<open>join\<close> of it and an entry is \<open>renderPath\<close>.
\<close>

function escapingBelow :: "faults \<Rightarrow> fileSystem \<Rightarrow> string list \<Rightarrow> string list \<Rightarrow> string list" where
  "escapingBelow io fs root dir =
     (if io OpReaddir (renderPath dir) \<noteq> None then []
      else concat (map (\<lambda>name.
        (let fullPath = renderPath (dir @ [name]) in
         if io OpLstat fullPath \<noteq> None then []
         else (case nodeAt fs (dir @ [name]) of
                 Some (LinkNode linkTarget) \<Rightarrow>
                   let resolvedTarget = pathResolve (renderPath dir) [linkTarget] in
                   if \<not> insideRoot (renderPath root) resolvedTarget then [drop (length (renderPath root) + 1) fullPath] else []
               | Some DirNode \<Rightarrow> escapingBelow io fs root (dir @ [name])
               | _ \<Rightarrow> []))) (listDir fs dir)))"
  by pat_completeness auto
termination
  by (relation "measure (\<lambda>(io, fs, root, dir). length (filter (\<lambda>e. strict_prefix dir (fst e)) (fs_nodes fs)))") (auto intro: below_fewer)

declare escapingBelow.simps [simp del]

definition findEscapingSymlinks :: "faults \<Rightarrow> fileSystem \<Rightarrow> string \<Rightarrow> string list option" where
  "findEscapingSymlinks io fs rootDir =
     (if io OpRealpath rootDir \<noteq> None then None
      else map_option (\<lambda>root. escapingBelow io fs root root) (findNode False fs rootDir))"
  \<comment> \<open>\<open>None\<close> when \<open>realpathSync\<close> throws\<close>

section \<open>Publication\<close>

record publishRequest =
  pr_bundleBytes :: string
  pr_expectedDigest :: string
  pr_bundleId :: string
  pr_version :: string
  pr_sourceUrl :: string
  pr_manifest :: secureCommandManifest

record toolstoreManifest =
  tm_digest :: string
  tm_bundleId :: string
  tm_version :: string
  tm_sourceUrl :: string
  tm_fetchedAt :: string
  tm_declaredProfiles :: "string list"
  tm_secureCommandManifest :: secureCommandManifest
  tm_publishedAt :: string

record publishDeps =
  pd_sha :: hasher
  pd_newURL :: urlParser
  pd_io :: faults
  pd_dataRoot :: string
  pd_millis :: "nat \<Rightarrow> int"
  pd_iso :: "nat \<Rightarrow> string"
  pd_tar :: "string \<Rightarrow> string \<Rightarrow> fileSystem \<Rightarrow> (int \<times> string) \<times> fileSystem"
  pd_stringify :: "toolstoreManifest \<Rightarrow> string"

datatype writeFailure =
    WriteError string
  | ExtractionFailed int string
  | LinksEscape "string list"
  | EntrypointTraversal string
  | EntrypointIsLink string
  | EntrypointNotFound string

datatype publishError =
    SourceRejected sourceError
  | WorkspaceOrigin string
  | DigestFormat string
  | ManifestRejected "manifestError list"
  | MetadataMismatch "string list"
  | DigestMismatch string
  | WriteFailed writeFailure

datatype publishResult = Published string | Deduplicated string | PublishFailed publishError

definition metadataMismatches :: "publishRequest \<Rightarrow> string list" where
  "metadataMismatches r =
     (if man_bundleDigest (pr_manifest r) \<noteq> pr_expectedDigest r then [''bundleDigest''] else []) @
     (if man_bundleId (pr_manifest r) \<noteq> pr_bundleId r then [''bundleId''] else []) @
     (if man_version (pr_manifest r) \<noteq> pr_version r then [''version''] else [])"

text \<open>The checks before anything is written.\<close>

definition publishChecks :: "publishDeps \<Rightarrow> publishRequest \<Rightarrow> publishError option" where
  "publishChecks deps r =
     (case validateSourceUrl (pd_newURL deps) (pr_sourceUrl r) of
        Some e \<Rightarrow> Some (SourceRejected e)
      | None \<Rightarrow>
          if workspaceOrigin (pd_newURL deps) (pr_sourceUrl r) then Some (WorkspaceOrigin (pr_sourceUrl r))
          else if \<not> isValidSha256Hex (pr_expectedDigest r) then Some (DigestFormat (pr_expectedDigest r))
          else if validateManifest (pr_manifest r) \<noteq> [] then Some (ManifestRejected (validateManifest (pr_manifest r)))
          else if metadataMismatches r \<noteq> [] then Some (MetadataMismatch (metadataMismatches r))
          else if \<not> verifyDigest (pd_sha deps) (pr_bundleBytes r) (pr_expectedDigest r) then Some (DigestMismatch (pr_expectedDigest r))
          else None)"

definition toolstoreDirOf :: "publishDeps \<Rightarrow> string" where
  "toolstoreDirOf deps = getCesToolStoreDir (pd_dataRoot deps)"

definition alreadyPublished :: "publishDeps \<Rightarrow> string \<Rightarrow> fileSystem \<Rightarrow> bool" where
  "alreadyPublished deps digest fs \<longleftrightarrow>
     existsSync (pd_io deps) fs (getBundleDir (toolstoreDirOf deps) digest) \<and>
     existsSync (pd_io deps) fs (getBundleManifestPath (toolstoreDirOf deps) digest)"

definition stagingDirOf :: "publishDeps \<Rightarrow> string \<Rightarrow> string" where
  "stagingDirOf deps digest = pathJoin [toolstoreDirOf deps, ''.staging-'' @ digest @ ''-'' @ number_text (pd_millis deps 0)]"

definition toolstoreManifestOf :: "publishDeps \<Rightarrow> publishRequest \<Rightarrow> toolstoreManifest" where
  "toolstoreManifestOf deps r =
     \<lparr>tm_digest = pr_expectedDigest r, tm_bundleId = pr_bundleId r, tm_version = pr_version r, tm_sourceUrl = pr_sourceUrl r,
      tm_fetchedAt = pd_iso deps 0, tm_declaredProfiles = map fst (get_or [] (man_commandProfiles (pr_manifest r))),
      tm_secureCommandManifest = pr_manifest r, tm_publishedAt = pd_iso deps 1\<rparr>"

text \<open>The archive is written, extracted and removed.\<close>

definition extractBundle :: "publishDeps \<Rightarrow> publishRequest \<Rightarrow> string \<Rightarrow> fileSystem \<Rightarrow> writeFailure option \<times> fileSystem" where
  "extractBundle deps r stagingDir fs =
     (let archive = pathJoin [stagingDir, ''.ces-bundle-staging-'' @ number_text (pd_millis deps 1) @ ''.tar.gz''] in
      case writeFileSync (pd_io deps) archive (pr_bundleBytes r) 292 fs of
        Inl e \<Rightarrow> (Some (WriteError e), fs)
      | Inr fs1 \<Rightarrow>
          (case pd_tar deps archive stagingDir fs1 of
             ((code, message), fs2) \<Rightarrow>
               if code \<noteq> 0 then (Some (ExtractionFailed code (trim message)), fs2)
               else (None, snd (unlinkSync (pd_io deps) archive fs2))))"

text \<open>The entrypoint, and \<open>Inr\<close> its path when it may be used.\<close>

definition checkExtracted :: "publishDeps \<Rightarrow> publishRequest \<Rightarrow> string \<Rightarrow> fileSystem \<Rightarrow> writeFailure + string" where
  "checkExtracted deps r stagingDir fs =
     (case (findEscapingSymlinks (pd_io deps) fs stagingDir, realpathSync (pd_io deps) fs stagingDir) of
        (Some escaping, Some realStagingDir) \<Rightarrow>
          if escaping \<noteq> [] then Inl (LinksEscape escaping)
          else
            let extracted = pathResolve (renderPath (fs_cwd fs)) [realStagingDir, man_entrypoint (pr_manifest r)] in
            if \<not> insideRoot realStagingDir extracted then Inl (EntrypointTraversal (man_entrypoint (pr_manifest r)))
            else
              (case lstatSync (pd_io deps) fs extracted of
                 Inr (LinkNode t) \<Rightarrow> Inl (EntrypointIsLink (man_entrypoint (pr_manifest r)))
               | _ \<Rightarrow> if \<not> existsSync (pd_io deps) fs extracted then Inl (EntrypointNotFound (man_entrypoint (pr_manifest r))) else Inr extracted)
      | _ \<Rightarrow> Inl (WriteError ''ENOENT''))"

definition installBundle :: "publishDeps \<Rightarrow> publishRequest \<Rightarrow> string \<Rightarrow> string \<Rightarrow> fileSystem \<Rightarrow> writeFailure option \<times> fileSystem" where
  "installBundle deps r stagingDir extracted fs =
     (case chmodSync (pd_io deps) extracted 365 fs of
        Inl e \<Rightarrow> (Some (WriteError e), fs)
      | Inr fs1 \<Rightarrow>
          (case writeFileSync (pd_io deps) (pathJoin [stagingDir, ''toolstore-manifest.json''])
                  (pd_stringify deps (toolstoreManifestOf deps r) @ [CHR 0x0A]) 292 fs1 of
             Inl e \<Rightarrow> (Some (WriteError e), fs1)
           | Inr fs2 \<Rightarrow>
               (case renameSync (pd_io deps) stagingDir (getBundleDir (toolstoreDirOf deps) (pr_expectedDigest r)) fs2 of
                  Inl e \<Rightarrow> (Some (WriteError e), fs2)
                | Inr fs3 \<Rightarrow> (None, fs3))))"

definition writeBundle :: "publishDeps \<Rightarrow> publishRequest \<Rightarrow> string \<Rightarrow> fileSystem \<Rightarrow> writeFailure option \<times> fileSystem" where
  "writeBundle deps r stagingDir fs =
     (case extractBundle deps r stagingDir fs of
        (Some e, fs1) \<Rightarrow> (Some e, fs1)
      | (None, fs1) \<Rightarrow>
          (case checkExtracted deps r stagingDir fs1 of
             Inl e \<Rightarrow> (Some e, fs1)
           | Inr extracted \<Rightarrow> installBundle deps r stagingDir extracted fs1))"

definition publishBundle :: "publishDeps \<Rightarrow> publishRequest \<Rightarrow> fileSystem \<Rightarrow> (string + publishResult) \<times> fileSystem" where
  "publishBundle deps r fs =
     (let bundleDir = getBundleDir (toolstoreDirOf deps) (pr_expectedDigest r);
          stagingDir = stagingDirOf deps (pr_expectedDigest r) in
      case publishChecks deps r of
        Some e \<Rightarrow> (Inr (PublishFailed e), fs)
      | None \<Rightarrow>
          if alreadyPublished deps (pr_expectedDigest r) fs then (Inr (Deduplicated bundleDir), fs)
          else
            (case mkdirSync (pd_io deps) (toolstoreDirOf deps) fs of
               (Some e, fs1) \<Rightarrow> (Inl e, fs1)
             | (None, fs1) \<Rightarrow>
                 (case mkdirSync (pd_io deps) stagingDir fs1 of
                    (Some e, fs2) \<Rightarrow> (Inl e, fs2)
                  | (None, fs2) \<Rightarrow>
                      (case writeBundle deps r stagingDir fs2 of
                         (None, fs3) \<Rightarrow> (Inr (Published bundleDir), fs3)
                       | (Some e, fs3) \<Rightarrow>
                           let fs4 = snd (rmSync (pd_io deps) stagingDir fs3) in
                           (Inr (if alreadyPublished deps (pr_expectedDigest r) fs4 then Deduplicated bundleDir else PublishFailed (WriteFailed e)),
                            fs4)))))"

definition deleteBundleFromToolstore :: "publishDeps \<Rightarrow> string \<Rightarrow> fileSystem \<Rightarrow> (string + bool) \<times> fileSystem" where
  "deleteBundleFromToolstore deps digest fs =
     (let bundleDir = getBundleDir (toolstoreDirOf deps) digest in
      if \<not> isValidSha256Hex digest \<or> \<not> existsSync (pd_io deps) fs bundleDir then (Inr False, fs)
      else (case rmSync (pd_io deps) bundleDir fs of (Some e, fs1) \<Rightarrow> (Inl e, fs1) | (None, fs1) \<Rightarrow> (Inr True, fs1)))"

section \<open>Registration\<close>

text \<open>
  The handler of \<open>manage_secure_command_tool\<close>. It reads no state before it awaits the download, so the
  part behind the await is the whole call, with the downloaded bytes as an argument.
\<close>

record toolEntry =
  te_toolName :: string
  te_credentialHandle :: string
  te_description :: string
  te_bundleDigest :: string

record registryState =
  to_registry :: "(string, toolEntry) js_Map"
  to_files :: fileSystem

record registerRequest =
  rt_toolName :: string
  rt_credentialHandle :: "string option"
  rt_description :: "string option"
  rt_bundleId :: "string option"
  rt_version :: "string option"
  rt_sourceUrl :: "string option"
  rt_sha256 :: "string option"
  rt_manifest :: "secureCommandManifest option"

datatype manageRequest = RegisterTool registerRequest | UnregisterTool string

datatype manageResponse =
    ManageOk
  | ToolNotFound string
  | MissingFields "string list"
  | InvalidSourceUrl
  | DownloadFailed string
  | PublicationFailed publishError

definition stillInUse :: "string \<Rightarrow> (string, toolEntry) js_Map \<Rightarrow> bool" where
  "stillInUse digest registry \<longleftrightarrow> list_ex (\<lambda>(k, t). te_bundleDigest t = digest) registry"

definition unregisterTool :: "publishDeps \<Rightarrow> string \<Rightarrow> registryState \<Rightarrow> (string + bool) \<times> registryState" where
  "unregisterTool deps toolName st =
     (case map_get (to_registry st) toolName of
        None \<Rightarrow> (Inr False, st)
      | Some entry \<Rightarrow>
          let st1 = st\<lparr>to_registry := map_delete toolName (to_registry st)\<rparr> in
          if te_bundleDigest entry \<noteq> [] \<and> \<not> stillInUse (te_bundleDigest entry) (to_registry st1) then
            (case deleteBundleFromToolstore deps (te_bundleDigest entry) (to_files st1) of
               (Inl e, fs1) \<Rightarrow> (Inl e, st1\<lparr>to_files := fs1\<rparr>)
             | (Inr b, fs1) \<Rightarrow> (Inr True, st1\<lparr>to_files := fs1\<rparr>))
          else (Inr True, st1))"

definition missingFields :: "registerRequest \<Rightarrow> string list" where
  "missingFields r =
     (if truthy (rt_bundleId r) then [] else [''bundleId'']) @ (if truthy (rt_version r) then [] else [''version'']) @
     (if truthy (rt_sourceUrl r) then [] else [''sourceUrl'']) @ (if truthy (rt_sha256 r) then [] else [''sha256'']) @
     (if truthy (rt_credentialHandle r) then [] else [''credentialHandle'']) @ (if truthy (rt_description r) then [] else [''description'']) @
     (if rt_manifest r = None then [''secureCommandManifest''] else [])"

definition registerTool :: "publishDeps \<Rightarrow> string + string \<Rightarrow> registerRequest \<Rightarrow> registryState \<Rightarrow> (string + manageResponse) \<times> registryState" where
  "registerTool deps downloaded r st =
     (if missingFields r \<noteq> [] then (Inr (MissingFields (missingFields r)), st)
      else
        (case pd_newURL deps (the (rt_sourceUrl r)) of
           None \<Rightarrow> (Inr InvalidSourceUrl, st)
         | Some u \<Rightarrow>
             if url_protocol u \<noteq> ''https:'' then (Inr InvalidSourceUrl, st)
             else
               (case downloaded of
                  Inl e \<Rightarrow> (Inr (DownloadFailed e), st)
                | Inr bytes \<Rightarrow>
                    (case publishBundle deps
                       \<lparr>pr_bundleBytes = bytes, pr_expectedDigest = the (rt_sha256 r), pr_bundleId = the (rt_bundleId r),
                        pr_version = the (rt_version r), pr_sourceUrl = the (rt_sourceUrl r), pr_manifest = the (rt_manifest r)\<rparr> (to_files st) of
                       (Inl e, fs1) \<Rightarrow> (Inl e, st\<lparr>to_files := fs1\<rparr>)
                     | (Inr (PublishFailed e), fs1) \<Rightarrow> (Inr (PublicationFailed e), st\<lparr>to_files := fs1\<rparr>)
                     | (Inr published, fs1) \<Rightarrow>
                         (Inr ManageOk,
                          st\<lparr>to_files := fs1,
                            to_registry := map_set (rt_toolName r)
                              \<lparr>te_toolName = rt_toolName r, te_credentialHandle = the (rt_credentialHandle r),
                               te_description = the (rt_description r), te_bundleDigest = the (rt_sha256 r)\<rparr> (to_registry st)\<rparr>)))))"

definition manageSecureCommandTool :: "publishDeps \<Rightarrow> string + string \<Rightarrow> manageRequest \<Rightarrow> registryState \<Rightarrow> (string + manageResponse) \<times> registryState" where
  "manageSecureCommandTool deps downloaded request st =
     (case request of
        UnregisterTool toolName \<Rightarrow>
          (case unregisterTool deps toolName st of
             (Inl e, st1) \<Rightarrow> (Inl e, st1)
           | (Inr removed, st1) \<Rightarrow> (Inr (if removed then ManageOk else ToolNotFound toolName), st1))
      | RegisterTool r \<Rightarrow> registerTool deps downloaded r st)"

end
