(* ===== verification/Tool_Properties.thy ===== *)
theory Tool_Properties
  imports Tool_Store Workspace_Properties
begin

text \<open>
  Laws of directory trees under a plain directory, one that is reached without links, and what each
  step of a publication changes.
\<close>

section \<open>Plain directories\<close>

definition plainDir :: "fileSystem \<Rightarrow> string list \<Rightarrow> bool" where
  "plainDir fs k \<longleftrightarrow> (\<forall>i \<le> length k. nodeAt fs (take i k) = Some DirNode)"

lemma plainDir_snoc: "plainDir fs (k @ [x]) \<longleftrightarrow> plainDir fs k \<and> nodeAt fs (k @ [x]) = Some DirNode"
  unfolding plainDir_def by (auto simp: le_Suc_eq)

lemma plainDir_self: "plainDir fs k \<Longrightarrow> nodeAt fs k = Some DirNode"
  unfolding plainDir_def by (metis order_refl take_all)

lemma plainDir_front: "plainDir fs (k @ u) \<Longrightarrow> plainDir fs k"
  unfolding plainDir_def by (metis le_add1 length_append order_trans take_append append_Nil2 diff_is_0_eq take_0)

lemma walk_plain:
  "(\<forall>i \<le> length ys. nodeAt fs (cur @ take i ys) = Some DirNode) \<Longrightarrow> goodNames ys \<Longrightarrow> walk c fs l cur (ys @ xs) = walk c fs l (cur @ ys) xs"
proof (induction ys arbitrary: cur)
  case (Cons y ys)
  have y: "\<not> (y = [] \<or> y = ''.'')" "y \<noteq> ''..''" using Cons.prems(2) by (auto simp: goodName_def)
  have "nodeAt fs (cur @ [y]) = Some DirNode" using Cons.prems(1) [rule_format, of 1] by simp
  moreover have "\<forall>i \<le> length ys. nodeAt fs ((cur @ [y]) @ take i ys) = Some DirNode"
    using Cons.prems(1) by (auto dest: spec [of _ "Suc _"])
  ultimately show ?case using Cons.IH [of "cur @ [y]"] Cons.prems(2) y by simp
qed simp

lemma plain_walk: "plainDir fs k \<Longrightarrow> goodNames k \<Longrightarrow> walk c fs l [] (k @ xs) = walk c fs l k xs"
  using walk_plain [of k fs "[]"] by (simp add: plainDir_def)

lemma find_plain: "plainDir fs k \<Longrightarrow> goodNames k \<Longrightarrow> findNode c fs (renderPath k) = Some k"
  using plain_walk [of fs k c MAX_LINKS "[]"] by (simp add: find_rendered)

lemma find_below:
  assumes "plainDir fs k" "goodNames (k @ [x])" "\<And>t. nodeAt fs (k @ [x]) \<noteq> Some (LinkNode t)"
  shows "findNode c fs (renderPath (k @ [x])) = (if nodeAt fs (k @ [x]) = None \<and> \<not> c then None else Some (k @ [x]))"
proof -
  have x: "\<not> (x = [] \<or> x = ''.'')" "x \<noteq> ''..''" using assms(2) by (auto simp: goodName_def)
  have "findNode c fs (renderPath (k @ [x])) = walk c fs MAX_LINKS k [x]"
    using plain_walk [OF assms(1), of c MAX_LINKS "[x]"] assms(2) by (simp add: find_rendered)
  then show ?thesis using x assms(3) by (auto split: option.split fileNode.split)
qed

lemma dropSlashes_rendered:
  assumes "goodNames (k @ [x])"
  shows "dropSlashes (renderPath (k @ [x])) = renderPath (k @ [x])"
proof -
  have "x \<noteq> []" "CHR ''/'' \<notin> set x" using assms by (auto simp: goodName_def)
  then obtain y c where "x = y @ [c]" "c \<noteq> CHR ''/''" by (cases x rule: rev_cases) auto
  then show ?thesis by (simp add: dropSlashes_def renderPath_slashed)
qed

lemma entry_below:
  assumes "plainDir fs k" "goodNames (k @ [x])"
  shows "entryOf fs (renderPath (k @ [x])) = Some (k @ [x])"
proof -
  have r: "renderPath (k @ [x]) = slashed (k @ [x])" by (simp add: renderPath_slashed)
  have abs: "startDir fs (renderPath (k @ [x])) = []"
    unfolding r by (cases k) (simp_all add: startDir_def isAbsolute_def startsWith_def)
  have names: "splitOn (CHR ''/'') (dropSlashes (renderPath (k @ [x]))) = [] # k @ [x]"
    using splitOn_slashed [OF assms(2)] dropSlashes_rendered [OF assms(2)] r by simp
  have "walk False fs MAX_LINKS [] ([] # k) = Some k" using plain_walk [OF assms(1), of False MAX_LINKS "[]"] assms(2) by simp
  then show ?thesis unfolding entryOf_def Let_def names abs by (simp add: butlast_append)
qed

text \<open>Joining a name to a real path.\<close>

lemma normParts_names: "goodNames ns \<Longrightarrow> normParts up acc ns = rev acc @ ns"
  by (induction ns arbitrary: acc) (auto simp: goodName_def)

lemma join_name:
  assumes "goodNames (k @ [x])"
  shows "pathJoin [renderPath k, x] = renderPath (k @ [x])"
proof -
  have x: "x \<noteq> []" "last x \<noteq> CHR ''/''" "CHR ''/'' \<notin> set x" using assms by (auto simp: goodName_def dest: last_in_set)
  have parts: "normParts False [] (splitOn (CHR ''/'') (renderPath k @ ''/'' @ x)) = k @ [x]"
  proof (cases "k = []")
    case True
    then show ?thesis using assms x(3) normParts_names [OF assms, of False "[]"] by (simp add: renderPath_def splitOn_no_sep)
  next
    case False
    have "renderPath k @ ''/'' @ x = slashed (k @ [x])" by (simp add: renderPath_slashed [OF False])
    then show ?thesis using splitOn_slashed [OF assms] normParts_names [OF assms, of False "[]"] by simp
  qed
  have k: "renderPath k \<noteq> []" "isAbsolute (renderPath k @ ''/'' @ x)"
    by (cases k; simp add: renderPath_def isAbsolute_def startsWith_def)+
  have "joinWith ''/'' (k @ [x]) \<noteq> []" using joinWith_slashed [of "k @ [x]"] x(1) by (cases k) auto
  then show ?thesis
    using k x parts joinWith_slashed [of "k @ [x]"]
    by (simp add: pathJoin_def normalizePath_def Let_def renderPath_slashed)
qed

section \<open>Changes below a directory\<close>

definition keptOutside :: "string list \<Rightarrow> fileSystem \<Rightarrow> fileSystem \<Rightarrow> bool" where
  "keptOutside s fs fs' \<longleftrightarrow> fs_cwd fs' = fs_cwd fs \<and> (\<forall>k. \<not> prefix s k \<longrightarrow> nodeAt fs' k = nodeAt fs k)"

definition noLinksBelow :: "string list \<Rightarrow> fileSystem \<Rightarrow> bool" where
  "noLinksBelow s fs \<longleftrightarrow> (\<forall>u t. nodeAt fs (s @ u) \<noteq> Some (LinkNode t))"

lemma kept_refl [simp]: "keptOutside s fs fs"
  by (simp add: keptOutside_def)

lemma kept_trans [trans]: "keptOutside s fs fs1 \<Longrightarrow> keptOutside s fs1 fs2 \<Longrightarrow> keptOutside s fs fs2"
  by (simp add: keptOutside_def)

lemma kept_node: "keptOutside s fs fs' \<Longrightarrow> \<not> prefix s k \<Longrightarrow> nodeAt fs' k = nodeAt fs k"
  by (simp add: keptOutside_def)

lemma kept_put: "prefix s k \<Longrightarrow> k \<noteq> [] \<Longrightarrow> keptOutside s fs (putNode k n fs)"
  by (auto simp: keptOutside_def nodeAt_put) (simp add: putNode_def)

lemma kept_delete: "prefix s k \<Longrightarrow> keptOutside s fs (fs\<lparr>fs_nodes := map_delete k (fs_nodes fs)\<rparr>)"
  by (auto simp: keptOutside_def nodeAt_def)

lemma map_of_filter_key: "P k \<Longrightarrow> map_of (filter (\<lambda>(p, n). P p) xs) k = map_of xs k"
  by (induction xs) auto

lemma removeTree_node: "nodeAt (removeTree k fs) p = (if prefix k p \<and> p \<noteq> [] then None else nodeAt fs p)"
proof -
  have "map_of (filter (\<lambda>(q, n). \<not> prefix k q) (fs_nodes fs)) p = (if prefix k p then None else map_of (fs_nodes fs) p)"
    using map_of_filter_key [of "\<lambda>q. \<not> prefix k q" p "fs_nodes fs"] by (auto simp: map_of_eq_None_iff)
  then show ?thesis by (auto simp: nodeAt_def removeTree_def)
qed

lemma kept_remove: "k \<noteq> [] \<Longrightarrow> keptOutside k fs (removeTree k fs)"
  by (auto simp: keptOutside_def removeTree_node) (simp add: removeTree_def)

lemma kept_plain:
  assumes "keptOutside (ts @ [x]) fs fs'"
  shows "plainDir fs' ts = plainDir fs ts"
proof -
  have "\<not> prefix (ts @ [x]) (take i ts)" for i by (metis length_append_singleton not_less_eq_eq prefix_length_le take_all_iff nat_le_linear length_take min.cobounded1 order_trans)
  then show ?thesis using assms by (simp add: plainDir_def keptOutside_def)
qed

text \<open>Moving a tree.\<close>

lemma move_other:
  assumes "\<not> prefix a k" "\<not> prefix b k"
  shows "nodeAt (moveTree a b fs) k = nodeAt fs k"
proof -
  have "map_of (map (\<lambda>(p, n). (if prefix a p then b @ drop (length a) p else p, n)) (filter (\<lambda>(p, n). \<not> prefix b p) xs)) k = map_of xs k" for xs :: "(string list \<times> fileNode) list"
    using assms by (induction xs) auto
  then show ?thesis by (simp add: nodeAt_def moveTree_def)
qed

lemma move_moved:
  assumes "\<not> prefix a b" "\<not> prefix b a"
  shows "nodeAt (moveTree a b fs) (b @ u) = nodeAt fs (a @ u)"
proof -
  have ab: "\<not> prefix b (a @ u)" using assms by (metis prefix_def prefix_same_cases append_prefixD)
  have "map_of (map (\<lambda>(p, n). (if prefix a p then b @ drop (length a) p else p, n)) (filter (\<lambda>(p, n). \<not> prefix b p) xs)) (b @ u) = map_of xs (a @ u)"
    for xs :: "(string list \<times> fileNode) list"
  proof (induction xs)
    case (Cons x xs)
    obtain p n where x: "x = (p, n)" by (cases x)
    show ?case
    proof (cases "p = a @ u")
      case True
      then show ?thesis using ab by (simp add: x)
    next
      case False
      have "\<not> prefix b p \<Longrightarrow> (if prefix a p then b @ drop (length a) p else p) \<noteq> b @ u"
        using False by (auto simp: prefix_def)
      then show ?thesis using Cons False by (auto simp: x)
    qed
  qed simp
  moreover have "a \<noteq> []" "b \<noteq> []" using assms by auto
  ultimately show ?thesis by (simp add: nodeAt_def moveTree_def)
qed

section \<open>Operations below a plain directory\<close>

lemma makeDirs_plain: "plainDir fs (made @ xs) \<Longrightarrow> goodNames (made @ xs) \<Longrightarrow> makeDirs [] made (xs @ ys) fs = makeDirs [] (made @ xs) ys fs"
proof (induction xs arbitrary: made)
  case (Cons x xs)
  have "plainDir fs (made @ [x])" using plainDir_front [of fs "made @ [x]" xs] Cons.prems(1) by simp
  moreover have "goodNames (made @ [x])" using Cons.prems(2) by simp
  ultimately have "walk False fs MAX_LINKS [] (made @ [x]) = Some (made @ [x])" "nodeAt fs (made @ [x]) = Some DirNode"
    using plain_walk [of fs "made @ [x]" False MAX_LINKS "[]"] plainDir_self by auto
  then show ?case using Cons.IH [of "made @ [x]"] Cons.prems by simp
qed simp

lemma mkdir_plain:
  assumes "plainDir fs k" "goodNames k"
  shows "snd (mkdirSync io (renderPath k) fs) = fs"
  using makeDirs_plain [of fs "[]" k "[]"] makeDirs_rendered [OF assms(2), of fs] assms by (auto simp: mkdirSync_def split: option.split)

lemma mkdir_new:
  assumes "plainDir fs k" "goodNames (k @ [x])" "nodeAt fs (k @ [x]) = None"
  shows "mkdirSync io (renderPath (k @ [x])) fs = (case io OpMkdir (renderPath (k @ [x])) of Some e \<Rightarrow> (Some e, fs) | None \<Rightarrow> (None, putNode (k @ [x]) DirNode fs))"
proof -
  have k: "goodNames k" using assms(2) by simp
  have "walk False fs MAX_LINKS [] (k @ [x]) = None" "walk False fs MAX_LINKS [] k = Some k"
    using plain_walk [OF assms(1) k, of False MAX_LINKS "[x]"] plain_walk [OF assms(1) k, of False MAX_LINKS "[]"] assms(2,3)
    by (auto simp: goodName_def)
  then have "makeDirs [] [] (k @ [x]) fs = (True, putNode (k @ [x]) DirNode fs)"
    using makeDirs_plain [of fs "[]" k "[x]"] assms(1,3) k plainDir_self [OF assms(1)] by simp
  then show ?thesis using makeDirs_rendered [OF assms(2), of fs] by (simp add: mkdirSync_def split: option.split)
qed

lemma write_below:
  assumes "plainDir fs k" "goodNames (k @ [x])" "\<And>t. nodeAt fs (k @ [x]) \<noteq> Some (LinkNode t)"
    and "writeFileSync io (renderPath (k @ [x])) text mode fs = Inr fs'"
  shows "\<exists>m. fs' = putNode (k @ [x]) (FileNode text m) fs"
  using assms(4) find_below [OF assms(1-3), of True] by (auto simp: writeFileSync_def faultOr_def split: option.splits fileNode.splits)

lemma unlink_below:
  assumes "plainDir fs k" "goodNames (k @ [x])"
  shows "snd (unlinkSync io (renderPath (k @ [x])) fs) \<in> {fs, fs\<lparr>fs_nodes := map_delete (k @ [x]) (fs_nodes fs)\<rparr>}"
  using entry_below [OF assms] by (auto simp: unlinkSync_def split: option.splits fileNode.splits)

lemma rm_below:
  assumes "plainDir fs k" "goodNames (k @ [x])"
  shows "snd (rmSync io (renderPath (k @ [x])) fs) \<in> {fs, removeTree (k @ [x]) fs}"
  using entry_below [OF assms] by (auto simp: rmSync_def split: option.splits)

lemma walk_stays:
  "walk c fs l cur xs = Some k \<Longrightarrow> goodNames xs \<Longrightarrow> prefix s cur \<Longrightarrow> noLinksBelow s fs \<Longrightarrow> prefix s k"
proof (induction xs arbitrary: cur)
  case (Cons x xs)
  have x: "\<not> (x = [] \<or> x = ''.'')" "x \<noteq> ''..''" using Cons.prems(2) by (auto simp: goodName_def)
  have below: "prefix s (cur @ [x])" using Cons.prems(3) by simp
  then have "\<And>t. nodeAt fs (cur @ [x]) \<noteq> Some (LinkNode t)" using Cons.prems(4) by (auto simp: noLinksBelow_def prefix_def)
  with x below Cons show ?case by (auto split: option.splits fileNode.splits if_splits)
qed simp

section \<open>The steps of a publication\<close>

lemma digest_name: "isValidSha256Hex d \<Longrightarrow> goodName d"
  by (auto simp: isValidSha256Hex_def goodName_def list_all_iff isDigit_def)

lemma number_no_slash: "CHR ''/'' \<notin> set (number_text n)"
proof -
  have "CHR ''/'' \<notin> set (decimal k)" for k using decimal_value [of k] by (auto simp: list_all_iff isDigit_def)
  then show ?thesis by (simp add: number_text_def)
qed

definition stagingName :: "publishDeps \<Rightarrow> string \<Rightarrow> string" where
  "stagingName deps digest = ''.staging-'' @ digest @ ''-'' @ number_text (pd_millis deps 0)"

lemma staging_name:
  assumes "isValidSha256Hex d"
  shows "goodName (stagingName deps d)" "isValidSha256Hex d' \<Longrightarrow> stagingName deps d \<noteq> d'"
proof -
  show "goodName (stagingName deps d)"
    using digest_name [OF assms] number_no_slash by (auto simp: stagingName_def goodName_def)
  assume "isValidSha256Hex d'"
  then have "d' \<noteq> [] \<and> hd d' \<noteq> CHR ''.''" by (cases d') (auto simp: isValidSha256Hex_def isDigit_def)
  then show "stagingName deps d \<noteq> d'" by (auto simp: stagingName_def)
qed

text \<open>The store's directory is plain, and the staging directory of this publication is new.\<close>

definition storeReady :: "publishDeps \<Rightarrow> string list \<Rightarrow> string \<Rightarrow> fileSystem \<Rightarrow> bool" where
  "storeReady deps ts digest fs \<longleftrightarrow>
     toolstoreDirOf deps = renderPath ts \<and> goodNames ts \<and> plainDir fs ts \<and> wellFormedFiles fs \<and>
     nodeAt fs (ts @ [stagingName deps digest]) = None"

text \<open>Extraction writes below its directory only and makes no links.\<close>

definition tarConfined :: "publishDeps \<Rightarrow> string list \<Rightarrow> bool" where
  "tarConfined deps s \<longleftrightarrow>
     (\<forall>archive fs code message fs'. nodeAt fs s = Some DirNode \<longrightarrow> noLinksBelow s fs \<longrightarrow>
        pd_tar deps archive (renderPath s) fs = ((code, message), fs') \<longrightarrow>
        keptOutside s fs fs' \<and> nodeAt fs' s = Some DirNode \<and> noLinksBelow s fs')"

text \<open>What stays true of the staging directory while it is filled.\<close>

definition stagingOk :: "string list \<Rightarrow> string list \<Rightarrow> fileSystem \<Rightarrow> fileSystem \<Rightarrow> bool" where
  "stagingOk ts s fs fs' \<longleftrightarrow> keptOutside s fs fs' \<and> nodeAt fs' s = Some DirNode \<and> noLinksBelow s fs' \<and> plainDir fs ts"

lemma staging_plain: "stagingOk ts (ts @ [x]) fs fs' \<Longrightarrow> plainDir fs' (ts @ [x])"
  using kept_plain [of ts x fs fs'] by (simp add: stagingOk_def plainDir_snoc)

lemma stagingOk_trans: "stagingOk ts s fs fs1 \<Longrightarrow> keptOutside s fs1 fs2 \<Longrightarrow> nodeAt fs2 s = Some DirNode \<Longrightarrow> noLinksBelow s fs2 \<Longrightarrow> stagingOk ts s fs fs2"
  unfolding stagingOk_def using kept_trans by blast

lemma staging_put:
  assumes "stagingOk ts s fs fs1" "prefix s k" "k \<noteq> s"
  shows "stagingOk ts s fs (putNode k (FileNode t m) fs1)"
proof -
  have "k \<noteq> []" using assms(2,3) by auto
  moreover have "noLinksBelow s (putNode k (FileNode t m) fs1)"
    using assms(1) \<open>k \<noteq> []\<close> by (auto simp: stagingOk_def noLinksBelow_def nodeAt_put)
  ultimately show ?thesis
    using assms by (intro stagingOk_trans [OF assms(1)]) (auto simp: kept_put nodeAt_put stagingOk_def)
qed

lemma staging_delete:
  assumes "stagingOk ts s fs fs1" "prefix s k" "k \<noteq> s"
  shows "stagingOk ts s fs (fs1\<lparr>fs_nodes := map_delete k (fs_nodes fs1)\<rparr>)"
proof -
  have node: "nodeAt (fs1\<lparr>fs_nodes := map_delete k (fs_nodes fs1)\<rparr>) p = (if p = k \<and> p \<noteq> [] then None else nodeAt fs1 p)" for p
    by (simp add: nodeAt_def)
  show ?thesis
    using assms by (intro stagingOk_trans [OF assms(1)]) (auto simp: kept_delete node stagingOk_def noLinksBelow_def)
qed

lemma archive_name: "goodName (''.ces-bundle-staging-'' @ number_text n @ ''.tar.gz'')"
  using number_no_slash by (auto simp: goodName_def)

lemma extract_effect:
  assumes ok: "stagingOk ts s fs fs1" and s: "s = ts @ [x]" "goodNames s" and tar: "tarConfined deps s"
    and run: "extractBundle deps r (renderPath s) fs1 = (e, fs2)"
  shows "stagingOk ts s fs fs2"
proof -
  let ?a = "''.ces-bundle-staging-'' @ number_text (pd_millis deps 1) @ ''.tar.gz''"
  have good: "goodNames (s @ [?a])" using s(2) archive_name by simp
  have path: "pathJoin [renderPath s, ?a] = renderPath (s @ [?a])" by (rule join_name [OF good])
  have plain: "plainDir fs' s" if "stagingOk ts s fs fs'" for fs' using staging_plain that s(1) by blast
  have nolink: "nodeAt fs1 (s @ [?a]) \<noteq> Some (LinkNode t)" for t using ok by (simp add: stagingOk_def noLinksBelow_def)
  show ?thesis
  proof (cases "writeFileSync (pd_io deps) (renderPath (s @ [?a])) (pr_bundleBytes r) 292 fs1")
    case (Inl err)
    then show ?thesis using run ok unfolding extractBundle_def Let_def path by simp
  next
    case (Inr f1)
    with write_below [OF plain [OF ok] good nolink] obtain m where "f1 = putNode (s @ [?a]) (FileNode (pr_bundleBytes r) m) fs1" by blast
    then have f1: "stagingOk ts s fs f1" using staging_put [OF ok] by simp
    obtain code message f2 where t: "pd_tar deps (renderPath (s @ [?a])) (renderPath s) f1 = ((code, message), f2)" by (metis surj_pair)
    have "nodeAt f1 s = Some DirNode" "noLinksBelow s f1" using f1 by (simp_all add: stagingOk_def)
    with tar t have "keptOutside s f1 f2 \<and> nodeAt f2 s = Some DirNode \<and> noLinksBelow s f2" unfolding tarConfined_def by metis
    then have f2: "stagingOk ts s fs f2" using stagingOk_trans [OF f1] by blast
    have "snd (unlinkSync (pd_io deps) (renderPath (s @ [?a])) f2) \<in> {f2, f2\<lparr>fs_nodes := map_delete (s @ [?a]) (fs_nodes f2)\<rparr>}"
      by (rule unlink_below [OF plain [OF f2] good])
    then have "stagingOk ts s fs (snd (unlinkSync (pd_io deps) (renderPath (s @ [?a])) f2))"
      using f2 staging_delete [OF f2, of "s @ [?a]"] by auto
    moreover have "extractBundle deps r (renderPath s) fs1 =
        (if code \<noteq> 0 then (Some (ExtractionFailed code (trim message)), f2) else (None, snd (unlinkSync (pd_io deps) (renderPath (s @ [?a])) f2)))"
      unfolding extractBundle_def Let_def path Inr sum.case t prod.case ..
    ultimately show ?thesis using f2 run by (cases "code = 0") simp_all
  qed
qed

lemma resolve_rendered: "\<exists>ns. goodNames ns \<and> pathResolve cwd args = renderPath ns"
proof -
  have "goodNames (normParts False [] (splitOn (CHR ''/'') (resolveText (rev args @ [cwd]) [])))"
    by (rule normParts_good) (auto simp: splitOn_parts)
  then show ?thesis unfolding pathResolve_def by blast
qed

lemma checked_entrypoint:
  assumes ok: "stagingOk ts s fs fs1" and s: "s = ts @ [x]" "goodNames s" and run: "checkExtracted deps r (renderPath s) fs1 = Inr extracted"
  shows "\<exists>ns. goodNames ns \<and> prefix s ns \<and> extracted = renderPath ns \<and> existsSync (pd_io deps) fs1 extracted"
proof -
  have found: "findNode False fs1 (renderPath s) = Some s" using find_plain [OF _ s(2)] staging_plain ok s(1) by blast
  obtain real where real: "realpathSync (pd_io deps) fs1 (renderPath s) = Some real" "insideRoot real extracted"
    "extracted = pathResolve (renderPath (fs_cwd fs1)) [real, man_entrypoint (pr_manifest r)]" "existsSync (pd_io deps) fs1 extracted"
    using run by (auto simp: checkExtracted_def Let_def split: option.splits if_splits sum.splits fileNode.splits)
  have "real = renderPath s" using real(1) found by (auto simp: realpathSync_def split: if_splits)
  with real inside_rendered [OF s(2)] resolve_rendered show ?thesis by metis
qed

lemma chmod_below:
  assumes ok: "stagingOk ts s fs fs1" and s: "s = ts @ [x]" "goodNames s" and ns: "goodNames ns" "prefix s ns"
    and run: "chmodSync io (renderPath ns) mode fs1 = Inr fs2"
  shows "stagingOk ts s fs fs2"
proof -
  obtain u where u: "ns = s @ u" using ns(2) by (auto simp: prefix_def)
  have plain: "plainDir fs1 s" using staging_plain ok s(1) by blast
  have find: "findNode False fs1 (renderPath ns) = walk False fs1 MAX_LINKS s u"
    using plain_walk [OF plain s(2)] find_rendered [OF ns(1)] by (simp add: u)
  obtain k where k: "walk False fs1 MAX_LINKS s u = Some k" using run find by (auto simp: chmodSync_def faultOr_def split: option.splits)
  have below: "prefix s k" by (rule walk_stays [OF k]) (use ns(1) u ok in \<open>auto simp: stagingOk_def\<close>)
  have "fs2 = fs1 \<or> (\<exists>t m. nodeAt fs1 k = Some (FileNode t m) \<and> fs2 = putNode k (FileNode t mode) fs1)"
    using run find k by (auto simp: chmodSync_def faultOr_def split: option.splits fileNode.splits)
  then show ?thesis
  proof (elim disjE exE conjE)
    fix t m
    assume n: "nodeAt fs1 k = Some (FileNode t m)" and fs2: "fs2 = putNode k (FileNode t mode) fs1"
    have "k \<noteq> s" using n ok by (auto simp: stagingOk_def)
    then show ?thesis unfolding fs2 by (rule staging_put [OF ok below])
  qed (use ok in simp)
qed

lemma manifest_name [simp]: "goodName ''toolstore-manifest.json''"
  by (simp add: goodName_def)

text \<open>An installation that succeeds moves the staging directory with the manifest in it; one that fails stays inside it.\<close>

lemma install_effect:
  assumes ok: "stagingOk ts s fs fs1" and s: "s = ts @ [x]" "goodNames s" and d: "goodName d" "x \<noteq> d"
    and store: "toolstoreDirOf deps = renderPath ts" "pr_expectedDigest r = d" and ns: "goodNames ns" "prefix s ns"
    and run: "installBundle deps r (renderPath s) (renderPath ns) fs1 = (e, fs')"
  shows "case e of
      Some err \<Rightarrow> stagingOk ts s fs fs'
    | None \<Rightarrow> (\<exists>fs2 m. stagingOk ts s fs fs2 \<and> fs' = moveTree s (ts @ [d]) fs2 \<and>
        nodeAt fs2 (s @ [''toolstore-manifest.json'']) = Some (FileNode (pd_stringify deps (toolstoreManifestOf deps r) @ [CHR 0x0A]) m))"
proof (cases "chmodSync (pd_io deps) (renderPath ns) 365 fs1")
  case (Inl err)
  with run ok show ?thesis by (auto simp: installBundle_def)
next
  case chmod: (Inr f1)
  let ?f = "''toolstore-manifest.json''" and ?text = "pd_stringify deps (toolstoreManifestOf deps r) @ [CHR 0x0A]" and ?b = "ts @ [d]"
  have f1: "stagingOk ts s fs f1" by (rule chmod_below [OF ok s ns chmod])
  have good: "goodNames (s @ [?f])" "goodNames ?b" using s d(1) by simp_all
  have paths: "pathJoin [renderPath s, ?f] = renderPath (s @ [?f])" "getBundleDir (toolstoreDirOf deps) d = renderPath ?b"
    using join_name [OF good(1)] join_name [OF good(2)] by (simp_all add: getBundleDir_def store(1))
  have nolink: "nodeAt f1 (s @ [?f]) \<noteq> Some (LinkNode t)" for t using f1 by (simp add: stagingOk_def noLinksBelow_def)
  have plain: "plainDir f1 s" using staging_plain f1 s(1) by blast
  show ?thesis
  proof (cases "writeFileSync (pd_io deps) (renderPath (s @ [?f])) ?text 292 f1")
    case (Inl err)
    with run chmod f1 show ?thesis by (auto simp: installBundle_def paths)
  next
    case written: (Inr f2)
    from write_below [OF plain good(1) nolink written] obtain m where m: "f2 = putNode (s @ [?f]) (FileNode ?text m) f1" by blast
    have f2: "stagingOk ts s fs f2" unfolding m by (rule staging_put [OF f1]) simp_all
    have node: "nodeAt f2 (s @ [?f]) = Some (FileNode ?text m)" by (simp add: m nodeAt_put)
    have "plainDir f2 ts" using staging_plain [of ts x fs f2] f2 by (simp add: s(1) plainDir_snoc)
    then have entries: "entryOf f2 (renderPath s) = Some s" "entryOf f2 (renderPath ?b) = Some ?b"
      using entry_below [of f2 ts x] entry_below [of f2 ts d] s good(2) by simp_all
    have apart: "s \<noteq> ?b" "\<not> prefix s ?b" using d(2) s(1) by auto
    have "nodeAt f2 s = Some DirNode" using f2 by (simp add: stagingOk_def)
    then have "renameSync (pd_io deps) (renderPath s) (renderPath ?b) f2 = Inr f3 \<Longrightarrow> f3 = moveTree s ?b f2" for f3
      using entries apart by (auto simp: renameSync_def faultOr_def split: option.splits)
    with run chmod written f2 node show ?thesis
      by (auto simp: installBundle_def paths store(2) split: sum.splits)
  qed
qed

lemma publish_effect:
  assumes ready: "storeReady deps ts (pr_expectedDigest r) fs" and tar: "tarConfined deps (ts @ [stagingName deps (pr_expectedDigest r)])"
    and run: "publishBundle deps r fs = (res, fs')"
  shows "(case res of
      Inr (Published dir) \<Rightarrow> publishChecks deps r = None \<and>
        (\<exists>fs2 m. stagingOk ts (ts @ [stagingName deps (pr_expectedDigest r)]) fs fs2 \<and>
          fs' = moveTree (ts @ [stagingName deps (pr_expectedDigest r)]) (ts @ [pr_expectedDigest r]) fs2 \<and>
          nodeAt fs2 (ts @ [stagingName deps (pr_expectedDigest r), ''toolstore-manifest.json'']) =
            Some (FileNode (pd_stringify deps (toolstoreManifestOf deps r) @ [CHR 0x0A]) m))
    | _ \<Rightarrow> keptOutside (ts @ [stagingName deps (pr_expectedDigest r)]) fs fs')"
proof (cases "publishChecks deps r = None \<and> \<not> alreadyPublished deps (pr_expectedDigest r) fs")
  case False
  then show ?thesis using run by (auto simp: publishBundle_def Let_def split: option.splits)
next
  case True
  let ?d = "pr_expectedDigest r"
  let ?x = "stagingName deps ?d"
  let ?s = "ts @ [?x]"
  have valid: "isValidSha256Hex ?d" using True by (auto simp: publishChecks_def split: option.splits if_splits)
  have store: "toolstoreDirOf deps = renderPath ts" "goodNames ts" "plainDir fs ts" "wellFormedFiles fs" "nodeAt fs ?s = None"
    using ready by (simp_all add: storeReady_def)
  have good: "goodNames ?s" "goodName ?d" "?x \<noteq> ?d" using store(2) staging_name [OF valid] digest_name [OF valid] valid by simp_all
  have staging: "stagingDirOf deps ?d = renderPath ?s" using join_name [OF good(1)] by (simp add: stagingDirOf_def store(1) stagingName_def)
  have mk1: "snd (mkdirSync (pd_io deps) (renderPath ts) fs) = fs" by (rule mkdir_plain [OF store(3,2)])
  have mk2: "mkdirSync (pd_io deps) (renderPath ?s) fs =
      (case pd_io deps OpMkdir (renderPath ?s) of Some e \<Rightarrow> (Some e, fs) | None \<Rightarrow> (None, putNode ?s DirNode fs))"
    by (rule mkdir_new [OF store(3) good(1) store(5)])
  let ?f0 = "putNode ?s DirNode fs"
  have "noLinksBelow ?s ?f0" using orphan [OF store(4,5)] by (auto simp: noLinksBelow_def nodeAt_put)
  then have ok: "stagingOk ts ?s fs ?f0" using store(3) by (auto simp: stagingOk_def kept_put nodeAt_put)
  obtain e f1 where ex: "extractBundle deps r (renderPath ?s) ?f0 = (e, f1)" by fastforce
  have f1: "stagingOk ts ?s fs f1" by (rule extract_effect [OF ok refl good(1) tar ex])
  obtain w f3 where w: "writeBundle deps r (renderPath ?s) ?f0 = (w, f3)" by fastforce
  have wrote: "case w of Some err \<Rightarrow> stagingOk ts ?s fs f3
    | None \<Rightarrow> (\<exists>fs2 m. stagingOk ts ?s fs fs2 \<and> f3 = moveTree ?s (ts @ [?d]) fs2 \<and>
        nodeAt fs2 (?s @ [''toolstore-manifest.json'']) = Some (FileNode (pd_stringify deps (toolstoreManifestOf deps r) @ [CHR 0x0A]) m))"
  proof (cases "checkExtracted deps r (renderPath ?s) f1")
    case (Inl err)
    with w ex f1 show ?thesis by (auto simp: writeBundle_def split: option.splits)
  next
    case (Inr extracted)
    from checked_entrypoint [OF f1 refl good(1) Inr] obtain ns where ns: "goodNames ns" "prefix ?s ns" "extracted = renderPath ns" by blast
    show ?thesis
    proof (cases e)
      case None
      then have "installBundle deps r (renderPath ?s) (renderPath ns) f1 = (w, f3)" using w ex Inr ns(3) by (simp add: writeBundle_def)
      from install_effect [OF f1 refl good(1,2,3) store(1) refl ns(1,2) this] show ?thesis .
    qed (use w ex f1 in \<open>auto simp: writeBundle_def\<close>)
  qed
  have removed: "keptOutside ?s fs (snd (rmSync (pd_io deps) (renderPath ?s) f3))" if "stagingOk ts ?s fs f3"
  proof -
    have "plainDir f3 ts" using staging_plain [OF that] by (simp add: plainDir_snoc)
    then have "keptOutside ?s f3 (snd (rmSync (pd_io deps) (renderPath ?s) f3))"
      using rm_below [of f3 ts ?x "pd_io deps"] good(1) kept_remove [of ?s f3] by auto
    then show ?thesis using that kept_trans by (auto simp: stagingOk_def)
  qed
  obtain a g where m1: "mkdirSync (pd_io deps) (renderPath ts) fs = (a, g)" by fastforce
  then have "g = fs" using mk1 by simp
  show ?thesis
  proof (cases "a = None \<and> pd_io deps OpMkdir (renderPath ?s) = None")
    case False
    then show ?thesis using run True m1 mk2 \<open>g = fs\<close> by (auto simp: publishBundle_def Let_def staging store(1) split: option.splits)
  next
    case calls: True
    then have "publishBundle deps r fs = (case (w, f3) of
        (None, fs3) \<Rightarrow> (Inr (Published (getBundleDir (renderPath ts) ?d)), fs3)
      | (Some e, fs3) \<Rightarrow> let fs4 = snd (rmSync (pd_io deps) (renderPath ?s) fs3) in
          (Inr (if alreadyPublished deps ?d fs4 then Deduplicated (getBundleDir (renderPath ts) ?d) else PublishFailed (WriteFailed e)), fs4))"
      using True m1 mk2 \<open>g = fs\<close> w by (simp add: publishBundle_def Let_def staging store(1))
    then show ?thesis using run wrote removed True by (auto simp: Let_def split: option.splits)
  qed
qed

end
