(* ===== verification/Tool_Guarantees.thy ===== *)
theory Tool_Guarantees
  imports Tool_Properties Command_Witnesses
begin

text \<open>
  The guarantees of the tool store: what is published stays as it is, what was published is what the
  command executor resolves, and a tool that was unregistered cannot be run; and an archive whose
  links defeat the scan.
\<close>

section \<open>Publications are immutable\<close>


section \<open>What is published can be run\<close>

lemma hex_digit: "isDigit c \<or> c \<in> set ''abcdef'' \<Longrightarrow> hexValue c = Some (if isDigit c then of_char c - 48 else of_char c - 87)"
  by (auto simp: hexValue_def isDigit_def Let_def)

lemma hex_inj:
  assumes "isDigit a \<or> a \<in> set ''abcdef''" "isDigit b \<or> b \<in> set ''abcdef''" "hexValue a = hexValue b"
  shows "a = b"
proof -
  define x y where "x = (of_char a :: nat)" and "y = (of_char b :: nat)"
  have range: "48 \<le> x \<and> x \<le> 57 \<or> 97 \<le> x \<and> x \<le> 102" "48 \<le> y \<and> y \<le> 57 \<or> 97 \<le> y \<and> y \<le> 102"
    using assms(1,2) by (auto simp: x_def y_def isDigit_def Let_def)
  have "hexValue a = Some (if x \<le> 57 then x - 48 else x - 87)" "hexValue b = Some (if y \<le> 57 then y - 48 else y - 87)"
    using range by (auto simp: hexValue_def Let_def x_def [symmetric] y_def [symmetric])
  then have "x = y" using range assms(3) by (auto split: if_splits)
  then show ?thesis by (simp add: x_def y_def)
qed

lemma hexBytes_inj:
  "hexBytes s = hexBytes t \<Longrightarrow> length s = length t \<Longrightarrow> even (length s) \<Longrightarrow>
   list_all (\<lambda>c. isDigit c \<or> c \<in> set ''abcdef'') s \<Longrightarrow> list_all (\<lambda>c. isDigit c \<or> c \<in> set ''abcdef'') t \<Longrightarrow> s = t"
proof (induction s arbitrary: t rule: induct_list012)
  case (3 a b rest)
  then obtain c d rest' where t: "t = c # d # rest'" by (metis Suc_length_conv length_Cons)
  have digits: "isDigit x \<or> x \<in> set ''abcdef''" if "x \<in> {a, b, c, d}" for x using "3.prems"(4,5) that t by auto
  obtain va vb vc vd where v: "hexValue a = Some va" "hexValue b = Some vb" "hexValue c = Some vc" "hexValue d = Some vd"
    using hex_digit [OF digits, of a] hex_digit [OF digits, of b] hex_digit [OF digits, of c] hex_digit [OF digits, of d] by blast
  have small: "va < 16" "vb < 16" "vc < 16" "vd < 16" using v by (auto simp: hexValue_def Let_def split: if_splits)
  have eq: "16 * va + vb = 16 * vc + vd" "hexBytes rest = hexBytes rest'" using "3.prems"(1) v by (simp_all add: t)
  have "va = (16 * va + vb) div 16" "vc = (16 * vc + vd) div 16" using small by simp_all
  then have "va = vc" using eq(1) by metis
  moreover from this have "vb = vd" using eq(1) by simp
  ultimately have "a = c" "b = d" using hex_inj [OF digits digits, of a c] hex_inj [OF digits digits, of b d] v by simp_all
  moreover have "rest = rest'" using 3(1) [OF eq(2)] "3.prems"(2-5) by (simp add: t)
  ultimately show ?case by (simp add: t)
qed auto

lemma digest_verified:
  "verifyDigest sha bytes d \<Longrightarrow> isValidSha256Hex (sha bytes) \<Longrightarrow> isValidSha256Hex d \<Longrightarrow> sha bytes = d"
  by (rule hexBytes_inj) (auto simp: verifyDigest_def isValidSha256Hex_def Let_def split: if_splits)

lemma valid_not_denied:
  "validateManifest m = [] \<Longrightarrow> \<not> isDeniedBinary (man_entrypoint m) \<and> \<not> isDeniedBinary (man_bundleId m)"
proof -
  assume valid: "validateManifest m = []"
  have "blank []" by code_simp
  then have "man_entrypoint m \<noteq> []" "man_bundleId m \<noteq> []" using valid by (auto simp: validateManifest_def fieldErrors_def failing_def split: if_splits)
  then show ?thesis using valid by (simp add: validateManifest_def fieldErrors_def failing_def split: if_splits)
qed

lemma read_plain:
  assumes "plainDir fs k" "goodNames (k @ [x])" "nodeAt fs (k @ [x]) = Some (FileNode t m)" "\<And>p. io OpExists p = None" "\<And>p. io OpRead p = None"
  shows "existsSync io fs (renderPath (k @ [x]))" "readFileSync io fs (renderPath (k @ [x])) = Inr t"
  using find_below [OF assms(1,2), of False] assms(3-5) by (simp_all add: existsSync_def readFileSync_def faultOr_def)


section \<open>What is unregistered cannot\<close>

text \<open>
  C38: When a tool has been unregistered its bundle is no longer published, unless another registered
  tool uses the same bundle.
\<close>

theorem unregistered_not_executable:
  assumes store: "toolstoreDirOf deps = renderPath ts" "goodNames ts" "plainDir (to_files st) ts"
    and same: "cd_io cdeps = pd_io deps" "cd_dataRoot cdeps = pd_dataRoot deps"
    and entry: "map_get (to_registry st) name = Some entry"
    and run: "manageSecureCommandTool deps downloaded (UnregisterTool name) st = (Inr response, st')"
  shows "response = ManageOk \<and> map_get (to_registry st') name = None \<and>
    (isBundlePublished cdeps (te_bundleDigest entry) (to_files st') \<longrightarrow>
      (\<exists>other t. (other, t) \<in> set (to_registry st') \<and> te_bundleDigest t = te_bundleDigest entry))"
proof -
  let ?d = "te_bundleDigest entry" and ?registry = "map_delete name (to_registry st)"
  have root: "getCesToolStoreDir (cd_dataRoot cdeps) = renderPath ts" using store(1) by (simp add: toolstoreDirOf_def same(2))
  have result: "response = ManageOk" "to_registry st' = ?registry"
    using run entry by (auto simp: manageSecureCommandTool_def unregisterTool_def Let_def split: if_splits prod.splits sum.splits)
  have gone: "\<not> isBundlePublished cdeps ?d (to_files st')" if unused: "\<not> stillInUse ?d ?registry"
  proof (cases "isValidSha256Hex ?d")
    case valid: True
    then have "?d \<noteq> []" by (auto simp: isValidSha256Hex_def)
    then obtain b where del: "deleteBundleFromToolstore deps ?d (to_files st) = (Inr b, to_files st')"
      using run entry unused by (auto simp: manageSecureCommandTool_def unregisterTool_def Let_def split: prod.splits sum.splits)
    have good: "goodNames (ts @ [?d])" using store(2) digest_name [OF valid] by simp
    have dir: "getBundleDir (renderPath ts) ?d = renderPath (ts @ [?d])" using join_name [OF good] by (simp add: getBundleDir_def)
    show ?thesis
    proof (cases "existsSync (pd_io deps) (to_files st) (renderPath (ts @ [?d]))")
      case False
      then have "to_files st' = to_files st" using del by (simp add: deleteBundleFromToolstore_def store(1) dir)
      with False show ?thesis by (simp add: isBundlePublished_def root same(1) dir)
    next
      case True
      then have fs': "to_files st' = removeTree (ts @ [?d]) (to_files st)"
        using del valid entry_below [OF store(3) good]
        by (auto simp: deleteBundleFromToolstore_def store(1) dir rmSync_def Let_def split: option.splits)
      have none: "nodeAt (to_files st') (ts @ [?d]) = None" by (simp add: fs' removeTree_node)
      have "plainDir (to_files st') ts" using store(3) kept_plain [OF kept_remove [of "ts @ [?d]" "to_files st"]] by (simp add: fs')
      from find_below [OF this good, of False] none have "findNode False (to_files st') (renderPath (ts @ [?d])) = None" by simp
      then show ?thesis by (simp add: isBundlePublished_def root same(1) dir existsSync_def)
    qed
  qed (simp add: isBundlePublished_def)
  have "\<exists>other t. (other, t) \<in> set ?registry \<and> te_bundleDigest t = ?d" if "stillInUse ?d ?registry"
    using that by (auto simp: stillInUse_def list_ex_iff)
  with gone result show ?thesis by auto
qed

section \<open>A concrete store\<close>

definition otherDigest :: string where
  "otherDigest = replicate 64 (CHR ''b'')"

definition storeFiles :: fileSystem where
  "storeFiles =
     \<lparr>fs_nodes =
        [([''d''], DirNode), ([''d'', ''toolstore''], DirNode), ([''d'', ''toolstore'', otherDigest], DirNode),
         ([''d'', ''toolstore'', otherDigest, ''toolstore-manifest.json''], FileNode ''old'' 292)],
      fs_cwd = []\<rparr>"

definition demoTar :: "string \<Rightarrow> string \<Rightarrow> fileSystem \<Rightarrow> (int \<times> string) \<times> fileSystem" where
  "demoTar archive dir fs = ((0, []), putNode [''d'', ''toolstore'', ''.staging-'' @ toolDigest @ ''-5'', ''gh''] (FileNode ''x'' 420) fs)"

definition demoMillis :: "nat \<Rightarrow> int" where
  "demoMillis n = 5"

definition sourceUrl :: parsedUrl where
  "sourceUrl = \<lparr>url_protocol = ''https:'', url_username = [], url_password = [], url_hostname = ''a.io'', url_port = [],
     url_origin = ''https://a.io'', url_pathname = ''/gh.tgz''\<rparr>"

definition storeDeps :: publishDeps where
  "storeDeps =
     \<lparr>pd_sha = (\<lambda>b. toolDigest), pd_newURL = (\<lambda>u. Some sourceUrl), pd_io = noFaults, pd_dataRoot = ''/d'', pd_millis = demoMillis,
      pd_iso = (\<lambda>n. ''t''), pd_tar = demoTar, pd_stringify = (\<lambda>m. ''m'')\<rparr>"

definition storeRequest :: publishRequest where
  "storeRequest = \<lparr>pr_bundleBytes = ''bytes'', pr_expectedDigest = toolDigest, pr_bundleId = ''gh'', pr_version = ''1'', pr_sourceUrl = ''u'',
     pr_manifest = toolManifest ProxyRequired\<rparr>"

lemma store_eval:
  "renderPath [''d'', ''toolstore''] = ''/d/toolstore''" "toolstoreDirOf storeDeps = ''/d/toolstore''"
  "goodNames [''d'', ''toolstore'']" "nodeAt storeFiles [''d''] = Some DirNode" "nodeAt storeFiles [''d'', ''toolstore''] = Some DirNode"
  "stagingName storeDeps toolDigest = ''.staging-'' @ toolDigest @ ''-5''"
  "nodeAt storeFiles [''d'', ''toolstore'', ''.staging-'' @ toolDigest @ ''-5''] = None" "isValidSha256Hex otherDigest" "isValidSha256Hex toolDigest"
  "alreadyPublished storeDeps otherDigest storeFiles"
  by code_simp+

lemma store_ready: "storeReady storeDeps [''d'', ''toolstore''] toolDigest storeFiles"
proof -
  have "wellFormedFiles storeFiles" by (rule wf_check) code_simp
  moreover have "plainDir storeFiles [''d'', ''toolstore'']"
    using store_eval(4,5) plainDir_snoc [of storeFiles "[]" "''d''"] plainDir_snoc [of storeFiles "[''d'']" "''toolstore''"]
    by (simp add: plainDir_def [of _ "[]"])
  ultimately show ?thesis using store_eval by (simp add: storeReady_def)
qed

lemma store_tar: "tarConfined storeDeps [''d'', ''toolstore'', stagingName storeDeps toolDigest]"
proof -
  let ?s = "[''d'', ''toolstore'', ''.staging-'' @ toolDigest @ ''-5'']"
  have "keptOutside ?s fs (putNode (?s @ [''gh'']) (FileNode ''x'' 420) fs)" for fs by (rule kept_put) simp_all
  then show ?thesis
    unfolding tarConfined_def store_eval(6) by (auto simp: storeDeps_def demoTar_def nodeAt_put noLinksBelow_def)
qed



definition toolRegistered :: "string \<Rightarrow> registryState" where
  "toolRegistered digest =
     \<lparr>to_registry = [(''n'', \<lparr>te_toolName = ''n'', te_credentialHandle = ''h'', te_description = ''d'', te_bundleDigest = digest\<rparr>)],
      to_files = storeFiles\<rparr>"

theorem unregistered_not_executable_witness:
  "isBundlePublished (toolDeps ProxyRequired) otherDigest storeFiles \<and>
   \<not> isBundlePublished (toolDeps ProxyRequired) otherDigest (to_files (snd (manageSecureCommandTool storeDeps (Inl []) (UnregisterTool ''n'') (toolRegistered otherDigest))))"
proof -
  let ?st = "toolRegistered otherDigest"
  obtain entry where entry: "map_get (to_registry ?st) ''n'' = Some entry" "te_bundleDigest entry = otherDigest" by (simp add: toolRegistered_def)
  have "\<not> isl (fst (manageSecureCommandTool storeDeps (Inl []) (UnregisterTool ''n'') ?st))" by code_simp
  then obtain response st' where run: "manageSecureCommandTool storeDeps (Inl []) (UnregisterTool ''n'') ?st = (Inr response, st')"
    by (cases "manageSecureCommandTool storeDeps (Inl []) (UnregisterTool ''n'') ?st"; cases "fst (manageSecureCommandTool storeDeps (Inl []) (UnregisterTool ''n'') ?st)") auto
  have empty: "to_registry (snd (manageSecureCommandTool storeDeps (Inl []) (UnregisterTool ''n'') ?st)) = []" by code_simp
  have "plainDir (to_files ?st) [''d'', ''toolstore'']" using store_ready by (simp add: toolRegistered_def storeReady_def)
  moreover have "toolstoreDirOf storeDeps = renderPath [''d'', ''toolstore'']" using store_eval(1,2) by simp
  moreover have "cd_io (toolDeps ProxyRequired) = pd_io storeDeps" "cd_dataRoot (toolDeps ProxyRequired) = pd_dataRoot storeDeps"
    by (simp_all add: storeDeps_def toolDeps_def)
  ultimately have "\<not> isBundlePublished (toolDeps ProxyRequired) otherDigest (to_files st')"
    using unregistered_not_executable [OF _ store_eval(3) _ _ _ entry(1) run] entry(2) empty run by auto
  moreover have "isBundlePublished (toolDeps ProxyRequired) otherDigest storeFiles" by code_simp
  ultimately show ?thesis using run by simp
qed

section \<open>Where the store does less than it says\<close>

text \<open>
  The scan resolves a link by its text. Two links pass it together and still lead out: the first goes
  up to the root of the bundle, the second goes through the first and up once more. The manifest is
  then written outside the bundle.
\<close>

definition linkFiles :: fileSystem where
  "linkFiles =
     \<lparr>fs_nodes =
        [([''s''], DirNode), ([''s'', ''t''], DirNode), ([''s'', ''t'', ''a''], DirNode), ([''s'', ''t'', ''a'', ''b''], LinkNode ''..''),
         ([''s'', ''t'', ''toolstore-manifest.json''], LinkNode ''a/b/../x'')],
      fs_cwd = []\<rparr>"

theorem linked_manifest_escapes:
  "findEscapingSymlinks noFaults linkFiles ''/s/t'' = Some [] \<and>
   (case writeFileSync noFaults ''/s/t/toolstore-manifest.json'' ''m'' 292 linkFiles of
      Inr fs \<Rightarrow> nodeAt fs [''s'', ''x''] = Some (FileNode ''m'' 292) | Inl e \<Rightarrow> False)"
  by code_simp

text \<open>
  Registering a name again replaces its entry and forgets the digest of the first bundle, which stays
  published after the tool is unregistered.
\<close>

definition registerAgain :: registerRequest where
  "registerAgain = \<lparr>rt_toolName = ''n'', rt_credentialHandle = Some ''h'', rt_description = Some ''d'', rt_bundleId = Some ''gh'',
     rt_version = Some ''1'', rt_sourceUrl = Some ''u'', rt_sha256 = Some toolDigest, rt_manifest = Some (toolManifest ProxyRequired)\<rparr>"

theorem replaced_bundle_stays:
  "(let st1 = snd (manageSecureCommandTool storeDeps (Inr ''bytes'') (RegisterTool registerAgain) (toolRegistered otherDigest));
        st2 = snd (manageSecureCommandTool storeDeps (Inl []) (UnregisterTool ''n'') st1)
    in to_registry st2 = [] \<and> alreadyPublished storeDeps otherDigest (to_files st2) \<and> \<not> alreadyPublished storeDeps toolDigest (to_files st2))"
  by code_simp

end
