(* ===== verification/Spec2Isabelle.thy ===== *)
theory Spec2Isabelle
  imports Service_Guarantees Executor_Witnesses Materialiser_Properties Provider_Refresh Credential_Metadata Command_Properties Egress_Guarantees
    Command_Witnesses Command_Text Tool_Guarantees
begin

text \<open>
  Verification of the core of the Worklin assistant platform: the concurrent tenant runtime that
  turns messages into agent turns, the browser broker it drives, and the credential executor that
  guards authenticated requests. Paths below are relative to src/.

  \<^bold>\<open>The program.\<close> A message reaches \<open>ConcurrentRuntimeService\<close>
  (assistant/src/concurrent-runtime/service.ts). It carries a tenant execution context
  (packages/service-contracts/src/tenant-context.ts) from which every storage key is built. The
  service files it in the store (in-memory-store.ts), which creates a run and an event, and submits
  a task to the fair scheduler (fair-scheduler.ts). The scheduler starts tasks round robin over
  tenants under two concurrency bounds. A started task takes the conversation lock, claims its run
  under a lease, calls the turn executor, writes the reply, an error or a browser command, and
  schedules the next queued run. Browser commands pass the broker service
  (browser-broker/service.ts: navigation policy, operation fingerprints, connection credentials)
  and the broker part of the store (connections, consent, sessions, actions, outbox). Independently,
  the credential executor (credential-executor/src) decides whether an agent may send an
  authenticated HTTP request: it looks for a persistent or temporary grant and otherwise answers
  with a proposal, which a guardian approves through an RPC. An allowed request gets its credential
  from the local materialiser, which refreshes OAuth tokens behind a circuit breaker
  (packages/credential-storage/src), or from the platform; it is sent with the credential injected,
  every redirect is checked again, the answer is filtered and the use is written to the audit log.
  Commands come from bundles that were published in the tool store (toolstore/publish.ts) with a
  validated manifest: the executor (commands/executor.ts)
  checks the profile and a grant, stages inputs in a scratch directory, starts a session of the egress
  proxy (packages/egress-proxy/src), runs the binary, scans the declared outputs, copies them back to
  the workspace and cleans up.

  \<^bold>\<open>Theories.\<close> In the order of the calls:

  \<^item> \<open>Prelude\<close>, \<open>Js_Strings\<close>, \<open>Web_Url\<close>: the JavaScript values the sources use (insertion-ordered
    \<open>Map\<close>, \<open>JSON.stringify\<close>, string methods, \<open>decodeURIComponent\<close>), and the locales \<open>step_system\<close>,
    \<open>step_relation\<close>, \<open>total_step_system\<close>: the contract of a component whose operations keep an
    invariant or a relation between states, with the consequence for all sequences of operations.
  \<^item> \<open>Fair_Scheduler\<close>: \<open>FairTenantScheduler\<close> as a record, one definition per method; the drain loop
    is a \<open>function\<close> with a termination proof. Interpretation \<open>sched\<close>. Bounds, work conservation,
    FIFO per tenant, bounded bypass between tenants, and completion of all submitted work.
  \<^item> \<open>Tenant_Context\<close>: claims, headers, scope keys (injective because they are JSON texts).
  \<^item> \<open>Runtime_Types\<close>, \<open>Runtime_State\<close>, \<open>Run_Store\<close>, \<open>Browser_Store\<close>: the data and every operation of
    \<open>InMemoryConcurrentRuntimeStore\<close> (in-memory-store.ts). An operation returns an error or a value
    and the new store; what it wrote before an error stays written.
  \<^item> \<open>Store_Machine\<close>, \<open>Store_Invariant\<close>, \<open>Store_Refinement\<close>, \<open>Store_Growth\<close>: an abstract run machine
    as an inductive step relation, its invariant by rule induction, and the proof that each store
    operation is a sequence of its steps for the operation's own actor. Interpretations \<open>st\<close>,
    \<open>grow\<close>, \<open>iso\<close>. \<open>Run_Properties\<close> and \<open>Browser_Properties\<close> (interpretations \<open>act\<close>, \<open>conn\<close>) state
    what follows: single flight per conversation, exactly-once acceptance, transcripts in turn
    order, tenant isolation, lease fencing, gapless events, consent for browser actions.
  \<^item> \<open>Stable_Json\<close>, \<open>Browser_Broker_Service\<close>: \<open>stableJson\<close> and the broker's methods.
  \<^item> \<open>Runtime_Service\<close>: the service as a state of suspended calls. Every stretch of an async method
    between two \<open>await\<close>s is one definition, and \<open>svcStep\<close> runs one of them, so a sequence of events is
    an interleaving. \<open>Service_Invariant\<close>, \<open>Service_Properties\<close> (interpretation \<open>svc\<close>) and
    \<open>Service_Guarantees\<close>: mutual exclusion of the turns of a conversation, each run scheduled once,
    capacity, refinement to the store's operations, termination of turns, recorded failures.
  \<^item> \<open>Grant_Proposals\<close>, \<open>Grant_Stores\<close>, \<open>Http_Policy\<close>: proposals and their hash, both grant stores,
    path templates, the HTTP policy and the grant RPC handlers. \<open>Persistent_Properties\<close>
    (interpretations \<open>closed\<close>, \<open>ids\<close>, \<open>revoked\<close>), \<open>Credential_Properties\<close>, \<open>Policy_Properties\<close>,
    \<open>Policy_Witnesses\<close>: failing closed, revocation, what a template covers, and what each kind of
    approval allows.
  \<^item> \<open>Credential_Handles\<close>: handles, local subjects and the policy of a credential
    (packages/service-contracts/src/handles.ts, credential-executor/src/subjects).
    \<open>Credential_Metadata\<close>: the metadata file of static credentials, with migration; what is written is
    read back, and a file of an unknown version is left alone.
  \<^item> \<open>Token_Refresh\<close>: oauth-runtime.ts; its circuit breaker refines an abstract backoff.
    \<open>Local_Materialiser\<close>: materializers/local.ts as a state of suspended calls and refresh jobs;
    \<open>Materialiser_Properties\<close> (interpretation \<open>lm\<close>): one refresh per connection at a time, answers that
    depend only on what the call read, no call left waiting. \<open>Provider_Refresh\<close>: the refresh callback
    (local-token-refresh.ts). \<open>Managed_Subjects\<close>: subjects and tokens of the platform.
  \<^item> \<open>Audit_Log\<close>, \<open>Response_Filter\<close>, \<open>Http_Executor\<close>: the audit log and its paging, the response filter
    and the executor (http/executor.ts), with a log of policy decisions and requests sent.
    \<open>Executor_Properties\<close>, \<open>Executor_Witnesses\<close>: no request without a live grant for exactly it, no
    credential in what comes back, one audit record per use.
  \<^item> \<open>Command_Profiles\<close>, \<open>Command_Properties\<close>: validation of secure command manifests and of commands.
  \<^item> \<open>Egress_Sessions\<close>: sessions of the egress proxy (packages/egress-proxy/src/session-core.ts), with
    \<open>getOrStartSession\<close> cut at its awaits. \<open>Egress_Properties\<close> (interpretation \<open>eg\<close>) and
    \<open>Egress_Guarantees\<close>: one active session per conversation, a session with the credentials asked for,
    and no acquisition stuck, over all interleavings. \<open>Egress_Hooks\<close>: which targets the proxy server
    of the executor lets through (commands/egress-hooks.ts).
  \<^item> \<open>Posix_Files\<close>, \<open>Posix_Properties\<close>: the functions of node:path and node:fs that the executor calls, on
    a tree of files, directories and symbolic links, and their laws. \<open>Output_Scan\<close>: the scan of outputs
    (commands/output-scan.ts), its expressions matched by derivatives and proved equal to their
    languages. \<open>Command_Workspace\<close>: staging and copyback (commands/workspace.ts).
    \<open>Workspace_Properties\<close>, \<open>Workspace_Guarantees\<close>: what is staged comes from inside the workspace, what is
    copied back lands inside it and holds no secret.
  \<^item> \<open>Command_Executor\<close>: the whole call of commands/executor.ts and its RPC handler in server.ts, with a
    log of the processes started and the record appended. \<open>Command_Run_Properties\<close>,
    \<open>Command_Guarantees\<close>, \<open>Command_Witnesses\<close>: no process without bundle, profile and grant, none outside
    its network policy, no proxy session left, one audit record; \<open>Command_Text\<close>: the text that is
    approved reads back as the command that runs.
  \<^item> \<open>Posix_Trees\<close>, \<open>Tool_Store\<close>: publication of bundles (toolstore/publish.ts, manifest.ts, integrity.ts)
    and registration of tools (server.ts, main.ts). \<open>Tool_Properties\<close>, \<open>Tool_Guarantees\<close>: what is published
    is what the executor resolves, it stays as it is, and goes when its last tool is unregistered.

  \<^bold>\<open>Parameters.\<close> SHA-256 (\<open>sha\<close>), the \<open>URL\<close> constructor (\<open>newURL\<close>, \<open>urlLibrary\<close>), random identifiers,
  the clock, the turn executor's answers, \<open>fetch\<close>, the platform, the provider's token endpoint, the
  rows of the assistant's database, \<open>JSON.parse\<close> and \<open>JSON.stringify\<close> of a manifest, \<open>tar\<close>, the processes a command starts and the
  failures of file operations (\<open>faults\<close>) are arguments. What other calls do to the grant stores while the
  HTTP executor is suspended is an argument too (\<open>world\<close>). Where a theorem needs more of them it says so: fresh
  identifiers (\<open>freshOp\<close>, \<open>freshEvent\<close>), \<open>realpathSync\<close> without faults (\<open>realpathWorks\<close>), an extraction
  that stays in its directory (\<open>tarConfined\<close>), no collision on the texts at hand, and that the text of a
  path template parses back to its parts (\<open>reparsesTemplate\<close>). Each such theorem has a witness on
  concrete functions.

  \<^bold>\<open>Bounds.\<close> No loop is cut short: loops are structural or have a termination proof.
  \<open>turn_terminates\<close> gives thirteen resumptions for a turn whose executor answered, which is the
  length of its longest path of awaits. Path resolution follows at most forty links, as Linux does
  (\<open>MAX_LINKS\<close>). Strings are lists of 8-bit characters; decoded URL segments
  are lists of code points. Instants and sequence numbers are unbounded integers; a JavaScript
  number is exact up to 2^53, which neither milliseconds nor counters reach.

  \<^bold>\<open>Not modelled.\<close> The PostgreSQL store (SQL text), HTTP servers and clients, provider adapters, the
  turn executor's prompt assembly, schema validation by zod, logging and telemetry; the daemon,
  gateway, control plane, retention service, skills, command line and the web, macOS and iOS
  clients. Of the credential executor: the encrypted key file, the download of bundles
  and the transport. These are I/O around library calls. A command runs to its end before the next step of
  its call, so changes that other processes make to the files between two steps are not represented.
\<close>

end
